(* ===== verification/Prelude.thy ===== *)
theory Prelude
  imports Complex_Main "HOL-Library.Char_ord" "HOL-Library.List_Lexorder" "HOL-Library.Product_Lexorder"
begin

text \<open>
  What every component shares: the type of a fallible database transaction, the type of a
  service operation (state passing with an error value, the state kept when the operation
  raises), their combinators, the calculus of preserved invariants, and the lemmas about
  tables, which are lists of rows selected, updated and deleted by a predicate.
\<close>

section \<open>Hint collections\<close>

named_theorems txn_simps "unfolding rules of the transaction and operation combinators"
named_theorems keeps_intros "rules that prove an operation preserves an invariant"
named_theorems table_simps "row selection after an update, a deletion or an insertion"

section \<open>Results, transactions and operations\<close>

text \<open>
  Every exception the source raises is a left injection. A transaction maps a database to
  an error or to a result and a new database: after an error there is no new database,
  which is the rollback. An operation of a service always returns a state, because a
  Python coroutine that raises keeps the effects of the transactions it has committed.
\<close>

type_synonym ('e, 's, 'a) txn = "'s \<Rightarrow> 'e + ('a \<times> 's)"
type_synonym ('e, 's, 'a) op = "'s \<Rightarrow> ('e + 'a) \<times> 's"

definition ret :: "'a \<Rightarrow> ('e, 's, 'a) op" where
  "ret x s = (Inr x, s)"

definition raise :: "'e \<Rightarrow> ('e, 's, 'a) op" where
  "raise e s = (Inl e, s)"

definition andthen :: "('e, 's, 'a) op \<Rightarrow> ('a \<Rightarrow> ('e, 's, 'b) op) \<Rightarrow> ('e, 's, 'b) op" where
  "andthen m f s = (case m s of (Inl e, t) \<Rightarrow> (Inl e, t) | (Inr x, t) \<Rightarrow> f x t)"

definition reading :: "('s \<Rightarrow> 'a) \<Rightarrow> ('e, 's, 'a) op" where
  "reading f s = (Inr (f s), s)"

definition of_result :: "'e + 'a \<Rightarrow> ('e, 's, 'a) op" where
  "of_result r s = (r, s)"

definition transact :: "('e, 's, 'a) txn \<Rightarrow> ('e, 's, 'a) op" where
  "transact t s = (case t s of Inl e \<Rightarrow> (Inl e, s) | Inr (x, s') \<Rightarrow> (Inr x, s'))"

definition guard :: "bool \<Rightarrow> 'e \<Rightarrow> ('e, 's, unit) op" where
  "guard b e = (if b then ret () else raise e)"

definition handling :: "('e \<Rightarrow> bool) \<Rightarrow> ('e \<Rightarrow> ('e, 's, 'a) op) \<Rightarrow> ('e, 's, 'a) op \<Rightarrow> ('e, 's, 'a) op" where
  "handling p h m s = (case m s of (Inl e, t) \<Rightarrow> (if p e then h e t else (Inl e, t)) | (Inr x, t) \<Rightarrow> (Inr x, t))"

fun for_each :: "'b list \<Rightarrow> ('b \<Rightarrow> ('e, 's, unit) op) \<Rightarrow> ('e, 's, unit) op" where
  "for_each [] f = ret ()"
| "for_each (x # xs) f = andthen (f x) (\<lambda>_. for_each xs f)"

lemma ret_simp [txn_simps]: "ret x s = (Inr x, s)"
  by (simp add: ret_def)

lemma raise_simp [txn_simps]: "raise e s = (Inl e, s)"
  by (simp add: raise_def)

lemma reading_simp [txn_simps]: "reading f s = (Inr (f s), s)"
  by (simp add: reading_def)

lemma of_result_simp [txn_simps]: "of_result r s = (r, s)"
  by (simp add: of_result_def)

lemma guard_simp [txn_simps]: "guard b e s = (if b then (Inr (), s) else (Inl e, s))"
  by (simp add: guard_def ret_def raise_def)

lemma andthen_simp [txn_simps]:
  "andthen m f s = (case m s of (r, t) \<Rightarrow> (case r of Inl e \<Rightarrow> (Inl e, t) | Inr x \<Rightarrow> f x t))"
  by (simp add: andthen_def split: prod.splits sum.splits)

lemma transact_simp [txn_simps]:
  "transact t s = (case t s of Inl e \<Rightarrow> (Inl e, s) | Inr p \<Rightarrow> (Inr (fst p), snd p))"
  by (simp add: transact_def split: prod.splits sum.splits)

lemma handling_simp [txn_simps]:
  "handling p h m s =
     (case m s of (r, t) \<Rightarrow> (case r of Inl e \<Rightarrow> (if p e then h e t else (Inl e, t)) | Inr x \<Rightarrow> (Inr x, t)))"
  by (simp add: handling_def split: prod.splits sum.splits)

text \<open>The three monad laws, so that a composition may be regrouped.\<close>

lemma andthen_ret_left: "andthen (ret x) f = f x"
  by (rule ext) (simp add: txn_simps)

lemma andthen_ret_right: "andthen m ret = m"
  by (rule ext) (simp add: txn_simps split: prod.splits sum.splits)

lemma andthen_assoc: "andthen (andthen m f) g = andthen m (\<lambda>x. andthen (f x) g)"
  by (rule ext) (simp add: txn_simps split: prod.splits sum.splits)

lemma andthen_raise: "andthen (raise e) f = raise e"
  by (rule ext) (simp add: txn_simps)

lemma andthen_Inr:
  "andthen m f s = (Inr y, u) \<longleftrightarrow> (\<exists>x t. m s = (Inr x, t) \<and> f x t = (Inr y, u))"
  by (auto simp: txn_simps split: prod.splits sum.splits)

lemma andthen_Inl:
  "andthen m f s = (Inl e, u) \<longleftrightarrow> m s = (Inl e, u) \<or> (\<exists>x t. m s = (Inr x, t) \<and> f x t = (Inl e, u))"
  by (auto simp: txn_simps split: prod.splits sum.splits)

lemma guard_Inr: "guard b e s = (Inr u, t) \<longleftrightarrow> b \<and> t = s"
  by (auto simp: txn_simps)

lemma guard_Inl: "guard b e s = (Inl e', t) \<longleftrightarrow> \<not> b \<and> e' = e \<and> t = s"
  by (auto simp: txn_simps)

lemma transact_Inr: "transact t s = (Inr x, s') \<longleftrightarrow> t s = Inr (x, s')"
  by (auto simp: txn_simps split: sum.splits prod.splits)

lemma transact_Inl: "transact t s = (Inl e, s') \<longleftrightarrow> t s = Inl e \<and> s' = s"
  by (auto simp: txn_simps split: sum.splits prod.splits)

lemma reading_Inr: "reading f s = (Inr x, t) \<longleftrightarrow> x = f s \<and> t = s"
  by (auto simp: txn_simps)

lemma ret_Inr: "ret y s = (Inr x, t) \<longleftrightarrow> x = y \<and> t = s"
  by (auto simp: txn_simps)

lemma ret_Inl: "ret y s = (Inl e, t) \<longleftrightarrow> False"
  by (auto simp: txn_simps)

lemma reading_Inl: "reading f s = (Inl e, t) \<longleftrightarrow> False"
  by (auto simp: txn_simps)

lemma raise_Inr: "raise e s = (Inr x, t) \<longleftrightarrow> False"
  by (auto simp: txn_simps)

lemma raise_Inl: "raise e s = (Inl e', t) \<longleftrightarrow> e' = e \<and> t = s"
  by (auto simp: txn_simps)

lemma of_result_Inr: "of_result r s = (Inr x, t) \<longleftrightarrow> r = Inr x \<and> t = s"
  by (auto simp: txn_simps)

lemma of_result_Inl: "of_result r s = (Inl e, t) \<longleftrightarrow> r = Inl e \<and> t = s"
  by (auto simp: txn_simps)

lemmas op_elims = andthen_Inr andthen_Inl guard_Inr guard_Inl transact_Inr transact_Inl
  reading_Inr reading_Inl ret_Inr ret_Inl raise_Inr raise_Inl of_result_Inr of_result_Inl

section \<open>Operations that preserve an invariant\<close>

text \<open>
  An operation keeps an invariant when the state it leaves satisfies it whatever the
  outcome: a service that raises half way has still committed what came before.
\<close>

definition keeps :: "('s \<Rightarrow> bool) \<Rightarrow> ('e, 's, 'a) op \<Rightarrow> bool" where
  "keeps P m \<longleftrightarrow> (\<forall>s. P s \<longrightarrow> P (snd (m s)))"

lemma keepsI: "(\<And>s. P s \<Longrightarrow> P (snd (m s))) \<Longrightarrow> keeps P m"
  by (simp add: keeps_def)

lemma keepsD: "keeps P m \<Longrightarrow> P s \<Longrightarrow> m s = (r, t) \<Longrightarrow> P t"
  by (metis keeps_def snd_conv)

lemma keeps_ret [keeps_intros]: "keeps P (ret x)"
  by (simp add: keeps_def txn_simps)

lemma keeps_raise [keeps_intros]: "keeps P (raise e)"
  by (simp add: keeps_def txn_simps)

lemma keeps_reading [keeps_intros]: "keeps P (reading f)"
  by (simp add: keeps_def txn_simps)

lemma keeps_of_result [keeps_intros]: "keeps P (of_result r)"
  by (simp add: keeps_def txn_simps)

lemma keeps_guard [keeps_intros]: "keeps P (guard b e)"
  by (simp add: keeps_def txn_simps)

lemma keeps_andthen [keeps_intros]:
  "keeps P m \<Longrightarrow> (\<And>x. keeps P (f x)) \<Longrightarrow> keeps P (andthen m f)"
  by (fastforce simp: keeps_def txn_simps split: prod.splits sum.splits)

lemma keeps_handling [keeps_intros]:
  "keeps P m \<Longrightarrow> (\<And>e. keeps P (h e)) \<Longrightarrow> keeps P (handling p h m)"
  by (fastforce simp: keeps_def txn_simps split: prod.splits sum.splits)

lemma keeps_if [keeps_intros]: "keeps P m \<Longrightarrow> keeps P n \<Longrightarrow> keeps P (if b then m else n)"
  by simp

lemma keeps_case_option [keeps_intros]:
  "keeps P m \<Longrightarrow> (\<And>x. keeps P (f x)) \<Longrightarrow> keeps P (case v of None \<Rightarrow> m | Some x \<Rightarrow> f x)"
  by (cases v) simp_all

lemma keeps_case_sum [keeps_intros]:
  "(\<And>e. keeps P (g e)) \<Longrightarrow> (\<And>x. keeps P (f x)) \<Longrightarrow> keeps P (case v of Inl e \<Rightarrow> g e | Inr x \<Rightarrow> f x)"
  by (cases v) simp_all

lemma keeps_case_prod [keeps_intros]:
  "(\<And>x y. keeps P (f x y)) \<Longrightarrow> keeps P (case v of (x, y) \<Rightarrow> f x y)"
  by (cases v) simp_all

lemma keeps_let [keeps_intros]: "(\<And>x. keeps P (f x)) \<Longrightarrow> keeps P (let x = v in f x)"
  by simp

lemma keeps_transact:
  "(\<And>s x s'. P s \<Longrightarrow> t s = Inr (x, s') \<Longrightarrow> P s') \<Longrightarrow> keeps P (transact t)"
  by (auto simp: keeps_def txn_simps split: sum.splits prod.splits)

lemma keeps_for_each [keeps_intros]: "(\<And>x. keeps P (f x)) \<Longrightarrow> keeps P (for_each xs f)"
  by (induction xs) (auto intro: keeps_intros)

text \<open>
  The same with an assertion on the answer, for a guard that reads the state first and
  decides by what it read.
\<close>

definition yields :: "('s \<Rightarrow> bool) \<Rightarrow> ('e, 's, 'a) op \<Rightarrow> ('a \<Rightarrow> bool) \<Rightarrow> bool" where
  "yields P m A \<longleftrightarrow> (\<forall>s r t. P s \<longrightarrow> m s = (r, t) \<longrightarrow> P t \<and> (\<forall>x. r = Inr x \<longrightarrow> A x))"

lemma yields_keeps: "yields P m A \<Longrightarrow> keeps P m"
  unfolding yields_def keeps_def by (metis surjective_pairing)

lemma yields_reading: "(\<And>s. P s \<Longrightarrow> A (f s)) \<Longrightarrow> yields P (reading f) A"
  by (simp add: yields_def txn_simps)

lemma yields_ret: "A x \<Longrightarrow> yields P (ret x) A"
  by (simp add: yields_def txn_simps)

lemma yields_raise: "yields P (raise e) A"
  by (simp add: yields_def txn_simps)

lemma yields_of_result: "(\<And>x. r = Inr x \<Longrightarrow> A x) \<Longrightarrow> yields P (of_result r) A"
  by (simp add: yields_def txn_simps)

lemma yields_guard: "yields P (guard b e) (\<lambda>_. b)"
  by (simp add: yields_def txn_simps)

lemma yields_weaken: "keeps P m \<Longrightarrow> yields P m (\<lambda>_. True)"
  unfolding yields_def by (metis keepsD)

lemma keeps_andthen_yields:
  assumes "yields P m A" and "\<And>x. A x \<Longrightarrow> keeps P (f x)"
  shows "keeps P (andthen m f)"
proof (rule keepsI)
  fix s assume s: "P s"
  obtain r t where m: "m s = (r, t)" by fastforce
  with assms(1) s have t: "P t" "\<And>x. r = Inr x \<Longrightarrow> A x" unfolding yields_def by blast+
  show "P (snd (andthen m f s))"
  proof (cases r)
    case (Inl e) with m t show ?thesis by (simp add: txn_simps)
  next
    case (Inr x)
    with assms(2) t have "keeps P (f x)" by blast
    with t(1) m Inr show ?thesis by (simp add: txn_simps keeps_def)
  qed
qed

lemma yields_andthen:
  assumes "yields P m A" and "\<And>x. A x \<Longrightarrow> yields P (f x) B"
  shows "yields P (andthen m f) B"
  unfolding yields_def
proof (intro allI impI)
  fix s r t assume s: "P s" and eq: "andthen m f s = (r, t)"
  obtain r1 s1 where m: "m s = (r1, s1)" by fastforce
  with assms(1) s have t: "P s1" "\<And>x. r1 = Inr x \<Longrightarrow> A x" unfolding yields_def by blast+
  show "P t \<and> (\<forall>x. r = Inr x \<longrightarrow> B x)"
  proof (cases r1)
    case (Inl e) with m eq t(1) show ?thesis by (auto simp: txn_simps)
  next
    case (Inr x)
    with m eq have "f x s1 = (r, t)" by (simp add: txn_simps)
    with assms(2) t Inr show ?thesis unfolding yields_def by blast
  qed
qed

section \<open>Tables\<close>

text \<open>
  A table is the list of its rows in insertion order. \<open>fetch_one\<close>, \<open>select_where\<close>,
  \<open>update_where\<close> and \<open>delete_where\<close> are SELECT, UPDATE and DELETE with a WHERE clause;
  \<open>count_where\<close> is \<open>SELECT count(*)\<close> and also the \<open>rowcount\<close> of a statement that
  touches those rows.
\<close>

definition fetch_one :: "('r \<Rightarrow> bool) \<Rightarrow> 'r list \<Rightarrow> 'r option" where
  "fetch_one p rows = List.find p rows"

definition select_where :: "('r \<Rightarrow> bool) \<Rightarrow> 'r list \<Rightarrow> 'r list" where
  "select_where p rows = filter p rows"

definition update_where :: "('r \<Rightarrow> bool) \<Rightarrow> ('r \<Rightarrow> 'r) \<Rightarrow> 'r list \<Rightarrow> 'r list" where
  "update_where p f rows = map (\<lambda>r. if p r then f r else r) rows"

definition delete_where :: "('r \<Rightarrow> bool) \<Rightarrow> 'r list \<Rightarrow> 'r list" where
  "delete_where p rows = filter (\<lambda>r. \<not> p r) rows"

definition count_where :: "('r \<Rightarrow> bool) \<Rightarrow> 'r list \<Rightarrow> nat" where
  "count_where p rows = length (filter p rows)"

lemma fetch_one_Nil [table_simps]: "fetch_one p [] = None"
  by (simp add: fetch_one_def)

lemma fetch_one_Cons [table_simps]: "fetch_one p (r # rs) = (if p r then Some r else fetch_one p rs)"
  by (simp add: fetch_one_def)

lemma fetch_one_SomeD: "fetch_one p rows = Some r \<Longrightarrow> p r \<and> r \<in> set rows"
  by (auto simp: fetch_one_def find_Some_iff)

lemma fetch_one_None_iff [table_simps]: "fetch_one p rows = None \<longleftrightarrow> (\<forall>r \<in> set rows. \<not> p r)"
  by (auto simp: fetch_one_def find_None_iff)

lemma fetch_one_append [table_simps]:
  "fetch_one p (xs @ ys) = (case fetch_one p xs of None \<Rightarrow> fetch_one p ys | Some r \<Rightarrow> Some r)"
  by (induction xs) (auto simp: table_simps)

text \<open>A row is found by a unique key exactly when it is in the table.\<close>

lemma fetch_one_key:
  assumes "distinct (map k rows)" and "r \<in> set rows"
  shows "fetch_one (\<lambda>x. k x = k r) rows = Some r"
  using assms by (induction rows) (auto simp: table_simps image_iff)

lemma fetch_one_key_iff:
  assumes "distinct (map k rows)"
  shows "fetch_one (\<lambda>x. k x = i) rows = Some r \<longleftrightarrow> r \<in> set rows \<and> k r = i"
  using assms fetch_one_key [of k rows r] by (auto dest: fetch_one_SomeD)

lemma set_delete_where [table_simps]: "set (delete_where p rows) = {r \<in> set rows. \<not> p r}"
  by (simp add: delete_where_def)

lemma set_select_where [table_simps]: "set (select_where p rows) = {r \<in> set rows. p r}"
  by (simp add: select_where_def)

lemma set_update_where:
  "set (update_where p f rows) = (\<lambda>r. if p r then f r else r) ` set rows"
  by (simp add: update_where_def)

lemma update_whereE:
  assumes "r \<in> set (update_where p f rows)"
  obtains (hit) x where "x \<in> set rows" "p x" "r = f x" | (miss) "r \<in> set rows" "\<not> p r"
  using assms by (auto simp: set_update_where split: if_splits)

lemma fetch_oneE:
  assumes "fetch_one p rows = Some r"
  obtains "r \<in> set rows" "p r"
  using fetch_one_SomeD [OF assms] by blast

lemma map_update_where_same [table_simps]:
  assumes "\<And>r. k (f r) = k r"
  shows "map k (update_where p f rows) = map k rows"
  by (simp add: update_where_def assms)

lemma distinct_map_delete_where [table_simps]:
  "distinct (map k rows) \<Longrightarrow> distinct (map k (delete_where p rows))"
  by (simp add: delete_where_def distinct_map_filter)

lemma length_update_where [table_simps]: "length (update_where p f rows) = length rows"
  by (simp add: update_where_def)

lemma count_where_0 [table_simps]: "count_where p rows = 0 \<longleftrightarrow> (\<forall>r \<in> set rows. \<not> p r)"
  by (simp add: count_where_def filter_empty_conv)

lemma count_where_pos: "0 < count_where p rows \<longleftrightarrow> (\<exists>r \<in> set rows. p r)"
  by (auto simp: count_where_def filter_empty_conv)

text \<open>Reading by a key after a statement that touches the rows with one key.\<close>

lemma fetch_key_update:
  assumes "\<And>r. k (f r) = k r"
  shows "fetch_one (\<lambda>r. k r = n) (update_where (\<lambda>r. k r = m) f rows) =
    (if n = m then map_option f (fetch_one (\<lambda>r. k r = n) rows) else fetch_one (\<lambda>r. k r = n) rows)"
  by (induction rows) (auto simp: fetch_one_def update_where_def assms)

lemma fetch_key_delete:
  "fetch_one (\<lambda>r. k r = n) (delete_where (\<lambda>r. k r = m) rows) =
    (if n = m then None else fetch_one (\<lambda>r. k r = n) rows)"
  by (induction rows) (auto simp: fetch_one_def delete_where_def)

lemma fetch_key_insert:
  assumes "fetch_one (\<lambda>r. k r = k x) rows = None"
  shows "fetch_one (\<lambda>r. k r = n) (rows @ [x]) = (if n = k x then Some x else fetch_one (\<lambda>r. k r = n) rows)"
  using assms by (induction rows) (auto simp: fetch_one_def split: if_splits)

lemma fetch_one_delete_where_other:
  assumes "\<And>r. r \<in> set rows \<Longrightarrow> q r \<Longrightarrow> \<not> p r"
  shows "fetch_one q (delete_where p rows) = fetch_one q rows"
  using assms by (induction rows) (auto simp: table_simps delete_where_def)

lemma fetch_one_update_where_other:
  assumes "\<And>r. r \<in> set rows \<Longrightarrow> q r \<Longrightarrow> \<not> p r"
    and "\<And>r. r \<in> set rows \<Longrightarrow> p r \<Longrightarrow> \<not> q (f r)"
  shows "fetch_one q (update_where p f rows) = fetch_one q rows"
  using assms by (induction rows) (auto simp: table_simps update_where_def)

lemma fetch_one_update_where_same:
  assumes "\<And>r. q (f r) = q r" and "\<And>r. q r \<Longrightarrow> p r"
  shows "fetch_one q (update_where p f rows) = map_option f (fetch_one q rows)"
  using assms by (induction rows) (auto simp: table_simps update_where_def)

lemma select_delete_other:
  assumes "\<And>r. r \<in> set rows \<Longrightarrow> q r \<Longrightarrow> \<not> p r"
  shows "select_where q (delete_where p rows) = select_where q rows"
  using assms by (induction rows) (auto simp: select_where_def delete_where_def)

lemma select_update_other:
  assumes "\<And>r. r \<in> set rows \<Longrightarrow> q r \<Longrightarrow> \<not> p r"
    and "\<And>r. r \<in> set rows \<Longrightarrow> p r \<Longrightarrow> \<not> q (f r)"
  shows "select_where q (update_where p f rows) = select_where q rows"
  using assms by (induction rows) (auto simp: select_where_def update_where_def)

lemma select_where_append [table_simps]:
  "select_where p (xs @ ys) = select_where p xs @ select_where p ys"
  by (simp add: select_where_def)

section \<open>The order of text\<close>

text \<open>
  Text columns compare as SQLite compares them, code point by code point; this is the order
  of lists of characters. Two texts that begin with blocks of one width compare by the
  blocks first.
\<close>

lemma append_less_append:
  fixes a b x y :: "'a::linorder list"
  assumes "length a = length b"
  shows "a @ x < b @ y \<longleftrightarrow> a < b \<or> (a = b \<and> x < y)"
  using assms by (induction a b rule: list_induct2) auto

lemma pair_less:
  fixes a c :: "'a::linorder" and b d :: "'b::linorder"
  shows "(a, b) < (c, d) \<longleftrightarrow> a < c \<or> (a = c \<and> b < d)"
  by auto

section \<open>First occurrences\<close>

text \<open>\<open>dict.fromkeys\<close>: duplicates collapse to their first appearance, order kept.\<close>

fun dedup :: "'a list \<Rightarrow> 'a list" where
  "dedup [] = []"
| "dedup (x # xs) = x # filter (\<lambda>y. y \<noteq> x) (dedup xs)"

lemma set_dedup [simp]: "set (dedup xs) = set xs"
  by (induction xs) auto

lemma distinct_dedup [simp]: "distinct (dedup xs)"
  by (induction xs) auto

lemma dedup_distinct: "distinct xs \<Longrightarrow> dedup xs = xs"
  by (induction xs) (auto simp: filter_id_conv)

lemma dedup_idem [simp]: "dedup (dedup xs) = dedup xs"
  by (rule dedup_distinct) simp

end
