(* ===== verification/Errors.thy ===== *)
theory Errors
  imports Prelude
begin

text \<open>
  The error vocabulary of \<^verbatim>\<open>src/src/keyring_api/domain/errors.py\<close> and its translation into
  HTTP status codes by \<^verbatim>\<open>src/src/keyring_api/api/errors.py\<close>. An exception carries its
  message as a list of fragments (the literal text and the values interpolated into it), so
  that two messages are equal exactly when the code builds them from the same pieces.
\<close>

type_synonym message = "string list"

datatype error =
    AuthenticationError message
  | AccountLockedError message
  | AccountNotFoundError message
  | AccountExistsError message
  | InvalidPasswordError message
  | InvalidEmailError message
  | InvalidGrantError message
  | InvalidRoleError message
  | RoleNotFoundError message
  | RoleExistsError message
  | RoleInUseError message
  | InsufficientPermissionError message
  | LastOwnerError message
  | InvalidProfileNameError message
  | ProfileNotFoundError message
  | ProfileExistsError message
  | ConnectionNotFoundError message
  | CredentialUnavailableError message
  | VaultSealedError message
  | InvalidOAuthStateError message
  | LimitExceededError message
  | RateLimitedError message rat \<comment> \<open>the number of seconds to wait\<close>
  | ReauthenticationRequiredError message
  | PreferencesUnavailableError message
  | Unhandled message \<comment> \<open>an exception outside the vocabulary: sqlite3, ValueError\<close>

type_synonym 'a result = "error + 'a"

text \<open>The parent of each class, for the handlers that catch a base class.\<close>

fun base_of :: "error \<Rightarrow> error option" where
  "base_of (AccountLockedError m) = Some (AuthenticationError m)"
| "base_of (VaultSealedError m) = Some (CredentialUnavailableError m)"
| "base_of e = None"

fun is_authentication_error :: "error \<Rightarrow> bool" where
  "is_authentication_error (AuthenticationError m) = True"
| "is_authentication_error (AccountLockedError m) = True"
| "is_authentication_error e = False"

fun is_credential_unavailable :: "error \<Rightarrow> bool" where
  "is_credential_unavailable (CredentialUnavailableError m) = True"
| "is_credential_unavailable (VaultSealedError m) = True"
| "is_credential_unavailable e = False"

fun is_rate_limited :: "error \<Rightarrow> bool" where
  "is_rate_limited (RateLimitedError m r) = True"
| "is_rate_limited e = False"

fun is_profile_not_found :: "error \<Rightarrow> bool" where
  "is_profile_not_found (ProfileNotFoundError m) = True"
| "is_profile_not_found e = False"

fun is_reauthentication_required :: "error \<Rightarrow> bool" where
  "is_reauthentication_required (ReauthenticationRequiredError m) = True"
| "is_reauthentication_required e = False"

text \<open>
  \<open>_DOMAIN_STATUS\<close> with the subclass lookup of the exception handlers: a class without an
  entry uses its parent's, and anything else is a 500.
\<close>

fun domain_status :: "error \<Rightarrow> nat option" where
  "domain_status (AuthenticationError m) = Some 401"
| "domain_status (InvalidGrantError m) = Some 400"
| "domain_status (InvalidOAuthStateError m) = Some 400"
| "domain_status (InvalidEmailError m) = Some 422"
| "domain_status (InvalidPasswordError m) = Some 422"
| "domain_status (InvalidProfileNameError m) = Some 422"
| "domain_status (AccountExistsError m) = Some 409"
| "domain_status (AccountNotFoundError m) = Some 404"
| "domain_status (InsufficientPermissionError m) = Some 403"
| "domain_status (ReauthenticationRequiredError m) = Some 403"
| "domain_status (InvalidRoleError m) = Some 422"
| "domain_status (RoleNotFoundError m) = Some 404"
| "domain_status (RoleExistsError m) = Some 409"
| "domain_status (RoleInUseError m) = Some 409"
| "domain_status (LastOwnerError m) = Some 409"
| "domain_status (ProfileExistsError m) = Some 409"
| "domain_status (ProfileNotFoundError m) = Some 404"
| "domain_status (ConnectionNotFoundError m) = Some 404"
| "domain_status (LimitExceededError m) = Some 429"
| "domain_status (CredentialUnavailableError m) = Some 503"
| "domain_status (PreferencesUnavailableError m) = Some 503"
| "domain_status (RateLimitedError m r) = Some 429"
| "domain_status e = None"

definition status_of :: "error \<Rightarrow> nat" where
  "status_of e =
     (case domain_status e of
        Some c \<Rightarrow> c
      | None \<Rightarrow> (case base_of e of
                   Some b \<Rightarrow> (case domain_status b of Some c \<Rightarrow> c | None \<Rightarrow> 500)
                 | None \<Rightarrow> 500))"

text \<open>The whole refusal a caller sees: the status and the detail text.\<close>

definition problem_of :: "error \<Rightarrow> nat \<times> string" where
  "problem_of e =
     (status_of e,
      case e of
        AuthenticationError m \<Rightarrow> concat m | AccountLockedError m \<Rightarrow> concat m
      | AccountNotFoundError m \<Rightarrow> concat m | AccountExistsError m \<Rightarrow> concat m
      | InvalidPasswordError m \<Rightarrow> concat m | InvalidEmailError m \<Rightarrow> concat m
      | InvalidGrantError m \<Rightarrow> concat m | InvalidRoleError m \<Rightarrow> concat m
      | RoleNotFoundError m \<Rightarrow> concat m | RoleExistsError m \<Rightarrow> concat m
      | RoleInUseError m \<Rightarrow> concat m | InsufficientPermissionError m \<Rightarrow> concat m
      | LastOwnerError m \<Rightarrow> concat m | InvalidProfileNameError m \<Rightarrow> concat m
      | ProfileNotFoundError m \<Rightarrow> concat m | ProfileExistsError m \<Rightarrow> concat m
      | ConnectionNotFoundError m \<Rightarrow> concat m | CredentialUnavailableError m \<Rightarrow> concat m
      | VaultSealedError m \<Rightarrow> concat m | InvalidOAuthStateError m \<Rightarrow> concat m
      | LimitExceededError m \<Rightarrow> concat m | RateLimitedError m r \<Rightarrow> concat m
      | ReauthenticationRequiredError m \<Rightarrow> concat m | PreferencesUnavailableError m \<Rightarrow> concat m
      | Unhandled m \<Rightarrow> ''an unexpected error occurred; quote the request id when reporting it'')"

lemma is_authentication_error_base:
  "is_authentication_error e \<longleftrightarrow>
     (\<exists>m. e = AuthenticationError m) \<or> (\<exists>m. base_of e = Some (AuthenticationError m))"
  by (cases e) auto

lemma is_credential_unavailable_base:
  "is_credential_unavailable e \<longleftrightarrow>
     (\<exists>m. e = CredentialUnavailableError m) \<or> (\<exists>m. base_of e = Some (CredentialUnavailableError m))"
  by (cases e) auto

lemma unhandled_detail_withheld: "problem_of (Unhandled m) = problem_of (Unhandled n)"
  by (simp add: problem_of_def status_of_def)

lemma domain_errors_never_500: "(\<forall>m. e \<noteq> Unhandled m) \<Longrightarrow> status_of e \<noteq> 500"
  by (cases e) (simp_all add: status_of_def)

end
