(* ===== verification/PyText.thy ===== *)
theory PyText
  imports Prelude
begin

text \<open>
  The operations on Python text the program uses, on strings whose code points are below
  256 (an Isabelle \<open>char\<close> is read as the code point of that number): \<open>str.strip\<close>,
  \<open>str.lower\<close>, \<open>str.split\<close>, and regular expressions, matched by derivatives and proved equal to
  the language they denote.
\<close>

section \<open>Characters\<close>

definition code_of :: "char \<Rightarrow> nat" where
  "code_of c = of_char c"

text \<open>\<open>str.isspace\<close> and the \<open>\s\<close> of a text pattern: the same set below 256.\<close>

definition is_space :: "char \<Rightarrow> bool" where
  "is_space c \<longleftrightarrow> code_of c \<in> {9, 10, 11, 12, 13, 28, 29, 30, 31, 32, 133, 160}"

text \<open>Upper case below 256: A to Z, and the Latin-1 capitals (215 is the multiplication sign).\<close>

definition is_upper :: "char \<Rightarrow> bool" where
  "is_upper c \<longleftrightarrow> (65 \<le> code_of c \<and> code_of c \<le> 90)
     \<or> (192 \<le> code_of c \<and> code_of c \<le> 222 \<and> code_of c \<noteq> 215)"

definition lower_char :: "char \<Rightarrow> char" where
  "lower_char c = (if is_upper c then char_of (code_of c + 32) else c)"

definition lower :: "string \<Rightarrow> string" where
  "lower s = map lower_char s"

definition strip :: "string \<Rightarrow> string" where
  "strip s = rev (dropWhile is_space (rev (dropWhile is_space s)))"

lemma code_of_char_of: "n < 256 \<Longrightarrow> code_of (char_of n) = n"
  by (simp add: code_of_def)

lemma code_of_inj: "code_of c = code_of d \<longleftrightarrow> c = d"
  by (simp add: code_of_def)

lemma code_of_lower_char: "code_of (lower_char c) = (if is_upper c then code_of c + 32 else code_of c)"
  by (auto simp: lower_char_def is_upper_def code_of_def)

lemma is_upper_lower_char [simp]: "\<not> is_upper (lower_char c)"
  unfolding is_upper_def code_of_lower_char by (auto simp: is_upper_def)

lemma is_space_lower_char [simp]: "is_space (lower_char c) = is_space c"
  unfolding is_space_def code_of_lower_char by (auto simp: is_upper_def)

lemma lower_char_id: "\<not> is_upper c \<Longrightarrow> lower_char c = c"
  by (simp add: lower_char_def)

lemma lower_idem [simp]: "lower (lower s) = lower s"
  by (simp add: lower_def lower_char_id)

lemma length_lower [simp]: "length (lower s) = length s"
  by (simp add: lower_def)

text \<open>A text with no white space at either end is its own strip.\<close>

lemma dropWhile_hd: "s = [] \<or> \<not> p (hd s) \<Longrightarrow> dropWhile p s = s"
  by (cases s) auto

lemma strip_id:
  assumes "s = [] \<or> (\<not> is_space (hd s) \<and> \<not> is_space (last s))"
  shows "strip s = s"
proof -
  have "dropWhile is_space s = s" using assms by (intro dropWhile_hd) auto
  moreover have "dropWhile is_space (rev s) = rev s"
    using assms by (intro dropWhile_hd) (auto simp: hd_rev)
  ultimately show ?thesis by (simp add: strip_def)
qed

lemma strip_no_space: "(\<forall>c \<in> set s. \<not> is_space c) \<Longrightarrow> strip s = s"
  by (rule strip_id) (cases "s = []"; simp)

lemma strip_ends:
  assumes "strip s \<noteq> []"
  shows "\<not> is_space (hd (strip s)) \<and> \<not> is_space (last (strip s))"
proof -
  define t where "t = dropWhile is_space s"
  define u where "u = dropWhile is_space (rev t)"
  have su: "strip s = rev u" by (simp add: strip_def t_def u_def)
  with assms have "u \<noteq> []" by simp
  then have "\<not> is_space (hd u)" unfolding u_def by (rule hd_dropWhile)
  moreover have "\<not> is_space (last u)"
  proof -
    have "t \<noteq> []" using \<open>u \<noteq> []\<close> by (auto simp: u_def)
    then have "\<not> is_space (hd t)" unfolding t_def by (rule hd_dropWhile)
    moreover have "last u = last (rev t)"
      using \<open>u \<noteq> []\<close> unfolding u_def
      by (metis dropWhile_eq_drop last_drop length_greater_0_conv length_drop zero_less_diff)
    ultimately show ?thesis using \<open>t \<noteq> []\<close> by (simp add: last_rev)
  qed
  ultimately show ?thesis using su \<open>u \<noteq> []\<close> by (simp add: hd_rev last_rev)
qed

lemma strip_idem [simp]: "strip (strip s) = strip s"
  using strip_ends [of s] by (intro strip_id) auto

lemma dropWhile_lower: "dropWhile is_space (lower s) = lower (dropWhile is_space s)"
  by (induction s) (simp_all add: lower_def)

lemma strip_lower: "strip (lower s) = lower (strip s)"
proof -
  have "rev (lower x) = lower (rev x)" for x by (simp add: lower_def rev_map)
  then show ?thesis by (simp add: strip_def dropWhile_lower)
qed

text \<open>\<open>str.split()\<close>: the maximal runs of characters that are not white space.\<close>

function split_ws :: "string \<Rightarrow> string list" where
  "split_ws s =
     (let t = dropWhile is_space s in
      if t = [] then []
      else takeWhile (\<lambda>c. \<not> is_space c) t # split_ws (dropWhile (\<lambda>c. \<not> is_space c) t))"
  by pat_completeness auto
termination
proof (relation "measure length")
  fix s t :: string
  assume t: "t = dropWhile is_space s" and "t \<noteq> []"
  then have "\<not> is_space (hd t)" by (simp add: hd_dropWhile)
  with \<open>t \<noteq> []\<close> have "length (dropWhile (\<lambda>c. \<not> is_space c) t) < length t"
    by (cases t) (auto simp: le_imp_less_Suc length_dropWhile_le)
  also have "length t \<le> length s"
    unfolding t by (rule length_dropWhile_le)
  finally show "(dropWhile (\<lambda>c. \<not> is_space c) t, s) \<in> measure length" by simp
qed simp

declare split_ws.simps [simp del]

section \<open>Regular expressions\<close>

datatype rx =
    RNone
  | REps
  | RChar "char \<Rightarrow> bool"
  | RSeq rx rx
  | RAlt rx rx
  | RStar rx

abbreviation ROpt :: "rx \<Rightarrow> rx" where
  "ROpt r \<equiv> RAlt REps r"

abbreviation RPlus :: "rx \<Rightarrow> rx" where
  "RPlus r \<equiv> RSeq r (RStar r)"

text \<open>The language of an expression.\<close>

inductive accepts :: "rx \<Rightarrow> string \<Rightarrow> bool" where
  eps: "accepts REps []"
| one: "p c \<Longrightarrow> accepts (RChar p) [c]"
| seq: "accepts r s \<Longrightarrow> accepts q t \<Longrightarrow> accepts (RSeq r q) (s @ t)"
| alt1: "accepts r s \<Longrightarrow> accepts (RAlt r q) s"
| alt2: "accepts q s \<Longrightarrow> accepts (RAlt r q) s"
| star0: "accepts (RStar r) []"
| star1: "accepts r s \<Longrightarrow> accepts (RStar r) t \<Longrightarrow> accepts (RStar r) (s @ t)"

inductive_cases accepts_RStarE: "accepts (RStar r) s"

inductive_simps accepts_RNone [simp]: "accepts RNone s"
inductive_simps accepts_REps [simp]: "accepts REps s"
inductive_simps accepts_RChar [simp]: "accepts (RChar p) s"
inductive_simps accepts_RSeq: "accepts (RSeq r q) s"
inductive_simps accepts_RAlt [simp]: "accepts (RAlt r q) s"

text \<open>The matcher: whether the empty text is accepted, and the derivative by a character.\<close>

fun nullable :: "rx \<Rightarrow> bool" where
  "nullable RNone = False"
| "nullable REps = True"
| "nullable (RChar p) = False"
| "nullable (RSeq r q) = (nullable r \<and> nullable q)"
| "nullable (RAlt r q) = (nullable r \<or> nullable q)"
| "nullable (RStar r) = True"

fun deriv :: "char \<Rightarrow> rx \<Rightarrow> rx" where
  "deriv c RNone = RNone"
| "deriv c REps = RNone"
| "deriv c (RChar p) = (if p c then REps else RNone)"
| "deriv c (RSeq r q) =
     (if nullable r then RAlt (RSeq (deriv c r) q) (deriv c q) else RSeq (deriv c r) q)"
| "deriv c (RAlt r q) = RAlt (deriv c r) (deriv c q)"
| "deriv c (RStar r) = RSeq (deriv c r) (RStar r)"

fun matches :: "rx \<Rightarrow> string \<Rightarrow> bool" where
  "matches r [] = nullable r"
| "matches r (c # s) = matches (deriv c r) s"

lemma nullable_accepts: "nullable r \<longleftrightarrow> accepts r []"
  by (induction r) (auto simp: accepts_RSeq intro: accepts.star0)

lemma accepts_RStar_Cons:
  "accepts (RStar r) (c # s) \<longleftrightarrow> (\<exists>u v. s = u @ v \<and> accepts r (c # u) \<and> accepts (RStar r) v)"
proof
  assume "accepts (RStar r) (c # s)"
  then show "\<exists>u v. s = u @ v \<and> accepts r (c # u) \<and> accepts (RStar r) v"
  proof (induction "RStar r" "c # s" arbitrary: s rule: accepts.induct)
    case (star1 x y)
    then show ?case by (cases x) auto
  qed
next
  assume "\<exists>u v. s = u @ v \<and> accepts r (c # u) \<and> accepts (RStar r) v"
  then show "accepts (RStar r) (c # s)"
    by (metis accepts.star1 append_Cons)
qed

lemma accepts_RSeq_Cons:
  "accepts (RSeq r q) (c # s) \<longleftrightarrow>
     (\<exists>u v. s = u @ v \<and> accepts r (c # u) \<and> accepts q v) \<or> (accepts r [] \<and> accepts q (c # s))"
  unfolding accepts_RSeq by (auto simp: Cons_eq_append_conv)

lemma accepts_RChar_RSeq: "accepts (RSeq (RChar p) r) s \<longleftrightarrow> (\<exists>c t. s = c # t \<and> p c \<and> accepts r t)"
  unfolding accepts_RSeq by (auto intro: exI [of _ "[_]"])

lemma accepts_RSeq_RChar: "accepts (RSeq r (RChar p)) s \<longleftrightarrow> (\<exists>t c. s = t @ [c] \<and> accepts r t \<and> p c)"
  unfolding accepts_RSeq by auto

lemma deriv_accepts: "accepts (deriv c r) s \<longleftrightarrow> accepts r (c # s)"
proof (induction r arbitrary: s)
  case (RSeq r q)
  then show ?case
    by (simp add: accepts_RSeq_Cons accepts_RSeq [of "deriv c r" q s] nullable_accepts)
next
  case (RStar r)
  then show ?case
    by (simp add: accepts_RStar_Cons accepts_RSeq [of "deriv c r" "RStar r" s])
qed auto

text \<open>The matcher decides the language.\<close>

lemma matches_accepts: "matches r s \<longleftrightarrow> accepts r s"
  by (induction s arbitrary: r) (simp_all add: nullable_accepts deriv_accepts)

lemma accepts_RStar_RChar: "accepts (RStar (RChar p)) s \<longleftrightarrow> (\<forall>c \<in> set s. p c)"
proof (induction s)
  case Nil
  show ?case by (simp add: accepts.star0)
next
  case (Cons c s)
  show ?case by (auto simp: accepts_RStar_Cons Cons.IH)
qed

lemma accepts_RPlus_RChar: "accepts (RPlus (RChar p)) s \<longleftrightarrow> s \<noteq> [] \<and> (\<forall>c \<in> set s. p c)"
  by (cases s) (auto simp: accepts_RChar_RSeq accepts_RStar_RChar)

text \<open>
  \<open>re.compile(r"^...$").match(s)\<close>: the dollar also matches before one final newline.
\<close>

definition re_match :: "rx \<Rightarrow> string \<Rightarrow> bool" where
  "re_match r s \<longleftrightarrow>
     matches r s \<or> (s \<noteq> [] \<and> code_of (last s) = 10 \<and> matches r (butlast s))"

text \<open>On text that does not end in white space the dollar means the end.\<close>

lemma re_match_no_newline: "s = [] \<or> \<not> is_space (last s) \<Longrightarrow> re_match r s \<longleftrightarrow> accepts r s"
  by (auto simp: re_match_def is_space_def matches_accepts)

section \<open>Names\<close>

text \<open>
  The pattern \<^verbatim>\<open>^[a-z0-9](?:[a-z0-9._-]*[a-z0-9])?$\<close> that role, profile and service names
  share.
\<close>

definition is_alnum_lower :: "char \<Rightarrow> bool" where
  "is_alnum_lower c \<longleftrightarrow> (97 \<le> code_of c \<and> code_of c \<le> 122) \<or> (48 \<le> code_of c \<and> code_of c \<le> 57)"

definition is_name_char :: "char \<Rightarrow> bool" where
  "is_name_char c \<longleftrightarrow> is_alnum_lower c \<or> code_of c \<in> {45, 46, 95}"

definition NAME :: rx where
  "NAME = RSeq (RChar is_alnum_lower)
            (ROpt (RSeq (RStar (RChar is_name_char)) (RChar is_alnum_lower)))"

lemma accepts_NAME:
  "accepts NAME s \<longleftrightarrow>
     s \<noteq> [] \<and> (\<forall>c \<in> set s. is_name_char c) \<and> is_alnum_lower (hd s) \<and> is_alnum_lower (last s)"
proof (cases s)
  case Nil
  then show ?thesis by (simp add: NAME_def accepts_RChar_RSeq)
next
  case (Cons h t)
  have tail: "accepts (RSeq (RStar (RChar is_name_char)) (RChar is_alnum_lower)) t \<longleftrightarrow>
      t \<noteq> [] \<and> (\<forall>c \<in> set (butlast t). is_name_char c) \<and> is_alnum_lower (last t)"
    by (cases t rule: rev_cases) (auto simp: accepts_RSeq_RChar accepts_RStar_RChar)
  have alnum: "is_alnum_lower c \<Longrightarrow> is_name_char c" for c by (simp add: is_name_char_def)
  have "accepts NAME s \<longleftrightarrow> is_alnum_lower h \<and> (t = [] \<or> (t \<noteq> [] \<and>
      (\<forall>c \<in> set (butlast t). is_name_char c) \<and> is_alnum_lower (last t)))"
    using Cons by (simp add: NAME_def accepts_RChar_RSeq tail)
  then show ?thesis
    using Cons by (cases t rule: rev_cases) (auto simp: alnum)
qed

lemma is_name_char_not_space: "is_name_char c \<Longrightarrow> \<not> is_space c \<and> \<not> is_upper c"
  by (auto simp: is_name_char_def is_alnum_lower_def is_space_def is_upper_def)

text \<open>A name is in the form the normalisation leaves alone.\<close>

lemma accepts_NAME_normal:
  assumes "accepts NAME s"
  shows "strip s = s" and "lower s = s"
proof -
  from assms have "\<forall>c \<in> set s. \<not> is_space c \<and> \<not> is_upper c"
    by (auto simp: accepts_NAME is_name_char_not_space)
  then show "strip s = s" and "lower s = s"
    by (simp_all add: strip_no_space lower_def lower_char_id map_idI)
qed

section \<open>Code\<close>

text \<open>Evaluation of characters goes through their codes.\<close>

lemmas text_eval = code_of_def is_space_def is_upper_def lower_char_def is_alnum_lower_def
  is_name_char_def

section \<open>Numbers in text\<close>

text \<open>\<open>str(n)\<close> of a natural number: its decimal digits.\<close>

fun str_nat :: "nat \<Rightarrow> string" where
  "str_nat n = (if n < 10 then [char_of (48 + n)] else str_nat (n div 10) @ [char_of (48 + n mod 10)])"

declare str_nat.simps [simp del]

section \<open>Quoted text\<close>

text \<open>
  \<open>repr(s)\<close>, which is what \<open>{s!r}\<close> interpolates: the quotes, the escaped characters and the
  two-digit form of the unprintable ones.
\<close>

definition hex_digit :: "nat \<Rightarrow> char" where
  "hex_digit n = (if n < 10 then char_of (48 + n) else char_of (87 + n))"

definition escape_char :: "nat \<Rightarrow> char \<Rightarrow> string" where
  "escape_char quote c =
     (let n = code_of c in
      if n = quote \<or> n = 92 then [char_of (92 :: nat), c]
      else if n = 9 then [char_of (92 :: nat), CHR ''t'']
      else if n = 10 then [char_of (92 :: nat), CHR ''n'']
      else if n = 13 then [char_of (92 :: nat), CHR ''r'']
      else if n < 32 \<or> (127 \<le> n \<and> n \<le> 160) \<or> n = 173
        then [char_of (92 :: nat), CHR ''x'', hex_digit (n div 16), hex_digit (n mod 16)]
      else [c])"

definition py_repr :: "string \<Rightarrow> string" where
  "py_repr s =
     (let quote = (if 39 \<in> code_of ` set s \<and> 34 \<notin> code_of ` set s then 34 else 39 :: nat)
      in char_of quote # concat (map (escape_char quote) s) @ [char_of quote])"

section \<open>Splitting\<close>

text \<open>\<open>str.split\<close> with a separator of one character.\<close>

fun split_on :: "char \<Rightarrow> string \<Rightarrow> string list" where
  "split_on c [] = [[]]"
| "split_on c (x # xs) =
     (if x = c then [] # split_on c xs else (case split_on c xs of [] \<Rightarrow> [[x]] | w # ws \<Rightarrow> (x # w) # ws))"

lemma split_on_free: "c \<notin> set w \<Longrightarrow> split_on c w = [w]"
  by (induction w) auto

lemma split_on_step: "c \<notin> set w \<Longrightarrow> split_on c (w @ c # rest) = w # split_on c rest"
  by (induction w) auto

end
