(* ===== verification/Rbac.thy ===== *)
theory Rbac
  imports Errors PyText
begin

text \<open>
  \<^verbatim>\<open>src/src/keyring_api/domain/rbac.py\<close>: the closed set of permissions, roles as sets of
  them, the built-in roles, the union that resolves several roles, the name and permission
  parsers, and the rule that nobody grants what they do not hold.
\<close>

section \<open>Permissions\<close>

datatype permission =
    ACCOUNTS_READ
  | ACCOUNTS_INVITE
  | ACCOUNTS_DISABLE
  | ACCOUNTS_DELETE
  | ACCOUNTS_REVOKE_SESSIONS
  | ACCOUNTS_RESET_PASSWORD
  | ROLES_READ
  | ROLES_WRITE
  | ROLES_ASSIGN
  | PROFILES_READ_ANY
  | PROFILES_DELETE_ANY
  | AUDIT_READ

fun permission_value :: "permission \<Rightarrow> string" where
  "permission_value ACCOUNTS_READ = ''accounts:read''"
| "permission_value ACCOUNTS_INVITE = ''accounts:invite''"
| "permission_value ACCOUNTS_DISABLE = ''accounts:disable''"
| "permission_value ACCOUNTS_DELETE = ''accounts:delete''"
| "permission_value ACCOUNTS_REVOKE_SESSIONS = ''accounts:revoke_sessions''"
| "permission_value ACCOUNTS_RESET_PASSWORD = ''accounts:reset_password''"
| "permission_value ROLES_READ = ''roles:read''"
| "permission_value ROLES_WRITE = ''roles:write''"
| "permission_value ROLES_ASSIGN = ''roles:assign''"
| "permission_value PROFILES_READ_ANY = ''profiles:read_any''"
| "permission_value PROFILES_DELETE_ANY = ''profiles:delete_any''"
| "permission_value AUDIT_READ = ''audit:read''"

text \<open>The members of the enumeration in the order of their declaration.\<close>

definition Permission :: "permission list" where
  "Permission = [ACCOUNTS_READ, ACCOUNTS_INVITE, ACCOUNTS_DISABLE, ACCOUNTS_DELETE,
     ACCOUNTS_REVOKE_SESSIONS, ACCOUNTS_RESET_PASSWORD, ROLES_READ, ROLES_WRITE, ROLES_ASSIGN,
     PROFILES_READ_ANY, PROFILES_DELETE_ANY, AUDIT_READ]"

definition ALL_PERMISSIONS :: "permission set" where
  "ALL_PERMISSIONS = set Permission"

lemma ALL_PERMISSIONS_UNIV: "ALL_PERMISSIONS = UNIV"
proof -
  have "p \<in> ALL_PERMISSIONS" for p
    by (cases p) (simp_all add: ALL_PERMISSIONS_def Permission_def)
  then show ?thesis by auto
qed

instance permission :: finite
proof
  show "finite (UNIV :: permission set)"
    using ALL_PERMISSIONS_UNIV by (metis ALL_PERMISSIONS_def finite_set)
qed

lemma permission_value_inj: "permission_value p = permission_value q \<longleftrightarrow> p = q"
  by (cases p; cases q) simp_all

text \<open>Sorted, permissions come in the order of their names, as the messages list them.\<close>

instantiation permission :: linorder
begin

definition less_eq_permission :: "permission \<Rightarrow> permission \<Rightarrow> bool" where
  "less_eq_permission p q \<longleftrightarrow> permission_value p \<le> permission_value q"

definition less_permission :: "permission \<Rightarrow> permission \<Rightarrow> bool" where
  "less_permission p q \<longleftrightarrow> permission_value p < permission_value q"

instance
  by standard (auto simp: less_eq_permission_def less_permission_def permission_value_inj
      intro: order.trans)

end

section \<open>Roles\<close>

record role =
  ro_name :: string
  ro_permissions :: "permission set"
  ro_description :: string
  ro_builtin :: bool
  ro_created_at :: "int option"
  ro_updated_at :: "int option"

definition with_permissions :: "role \<Rightarrow> permission set \<Rightarrow> string \<Rightarrow> int \<Rightarrow> role" where
  "with_permissions r perms descr now =
     r\<lparr>ro_permissions := perms, ro_description := descr, ro_updated_at := Some now\<rparr>"

definition OWNER :: string where "OWNER = ''owner''"
definition ADMIN :: string where "ADMIN = ''admin''"
definition AUDITOR :: string where "AUDITOR = ''auditor''"
definition MEMBER :: string where "MEMBER = ''member''"

definition DEFAULT_ROLE :: string where "DEFAULT_ROLE = MEMBER"

definition MAX_ROLE_NAME_LENGTH :: nat where "MAX_ROLE_NAME_LENGTH = 64"
definition MAX_ROLE_DESCRIPTION_LENGTH :: nat where "MAX_ROLE_DESCRIPTION_LENGTH = 200"
definition MAX_ROLES_PER_ACCOUNT :: nat where "MAX_ROLES_PER_ACCOUNT = 16"

definition BUILTIN_ROLES :: "(string \<times> permission set) list" where
  "BUILTIN_ROLES =
     [(OWNER, ALL_PERMISSIONS),
      (ADMIN, {ACCOUNTS_READ, ACCOUNTS_INVITE, ACCOUNTS_DISABLE, ACCOUNTS_DELETE,
               ACCOUNTS_REVOKE_SESSIONS, ACCOUNTS_RESET_PASSWORD, ROLES_READ, ROLES_ASSIGN,
               PROFILES_READ_ANY, PROFILES_DELETE_ANY, AUDIT_READ}),
      (AUDITOR, {ACCOUNTS_READ, ROLES_READ, AUDIT_READ}),
      (MEMBER, {})]"

definition BUILTIN_DESCRIPTIONS :: "(string \<times> string) list" where
  "BUILTIN_DESCRIPTIONS =
     [(OWNER, ''Every permission, including managing roles. At least one must always exist.''),
      (ADMIN, ''Manage accounts and assign existing roles. Cannot mint new roles.''),
      (AUDITOR, ''Read-only: accounts, roles and the audit log.''),
      (MEMBER, ''No administrative permissions. What every new account gets.'')]"

text \<open>\<open>BUILTIN_ROLES[name]\<close> raises KeyError for another name.\<close>

definition builtin_role :: "string \<Rightarrow> role result" where
  "builtin_role name =
     (case (map_of BUILTIN_ROLES name, map_of BUILTIN_DESCRIPTIONS name) of
        (Some perms, Some descr) \<Rightarrow>
          Inr \<lparr>ro_name = name, ro_permissions = perms, ro_description = descr, ro_builtin = True,
               ro_created_at = None, ro_updated_at = None\<rparr>
      | _ \<Rightarrow> Inl (Unhandled [name]))"

section \<open>Rules\<close>

definition normalize_role_name :: "string \<Rightarrow> string result" where
  "normalize_role_name raw =
     (let name = lower (strip raw) in
      if name = [] then Inl (InvalidRoleError [''role name must not be empty''])
      else if length name > MAX_ROLE_NAME_LENGTH
        then Inl (InvalidRoleError [''role name must be at most 64 characters''])
      else if \<not> re_match NAME name
        then Inl (InvalidRoleError
          [''role name may contain only lowercase letters, digits, dot, dash and underscore, and must start and end with a letter or digit''])
      else Inr name)"

fun join :: "string \<Rightarrow> string list \<Rightarrow> string" where
  "join sep [] = []"
| "join sep [x] = x"
| "join sep (x # y # zs) = x @ sep @ join sep (y # zs)"

definition permission_of :: "string \<Rightarrow> permission option" where
  "permission_of v = List.find (\<lambda>p. permission_value p = v) Permission"

definition parse_permissions :: "string list \<Rightarrow> permission set result" where
  "parse_permissions requested =
     (let unknown = sort (remdups (filter (\<lambda>v. permission_of v = None) requested)) in
      if unknown \<noteq> [] then Inl (InvalidRoleError [''unknown permissions: '', join '', '' unknown])
      else Inr (set (List.map_filter permission_of requested)))"

definition permissions_of :: "role list \<Rightarrow> permission set" where
  "permissions_of roles = \<Union> (ro_permissions ` set roles)"

definition permission_names :: "permission set \<Rightarrow> string" where
  "permission_names ps = join '', '' (map permission_value (sorted_list_of_set ps))"

definition check_can_grant :: "permission set \<Rightarrow> permission set \<Rightarrow> unit result" where
  "check_can_grant holder granted =
     (let excess = granted - holder in
      if excess \<noteq> {}
      then Inl (InsufficientPermissionError
             [''you cannot grant permissions you do not hold: '', permission_names excess])
      else Inr ())"

section \<open>Facts\<close>

lemma permission_of_value [simp]: "permission_of (permission_value p) = Some p"
  by (cases p) (simp_all add: permission_of_def Permission_def)

lemma permission_of_Some: "permission_of v = Some p \<longleftrightarrow> v = permission_value p"
  by (auto simp: permission_of_def find_Some_iff) (metis permission_of_def permission_of_value find_Some_iff)

lemma parse_permissions_Inr:
  "parse_permissions vs = Inr ps \<longleftrightarrow>
     (\<forall>v \<in> set vs. \<exists>p. v = permission_value p) \<and> ps = {p. permission_value p \<in> set vs}"
proof -
  have none: "filter (\<lambda>v. permission_of v = None) vs = [] \<longleftrightarrow> (\<forall>v \<in> set vs. \<exists>p. v = permission_value p)"
    by (auto simp: filter_empty_conv) (metis not_Some_eq permission_of_Some)
  have some: "set (List.map_filter permission_of vs) = {p. permission_value p \<in> set vs}"
    by (force simp: map_filter_def permission_of_Some)
  have "sort (remdups xs) = [] \<longleftrightarrow> xs = []" for xs :: "string list"
    by (metis remdups_eq_nil_iff set_empty set_sort)
  then show ?thesis
    using none some by (auto simp: parse_permissions_def Let_def)
qed

lemma check_can_grant_Inr: "check_can_grant h g = Inr u \<longleftrightarrow> g \<subseteq> h"
  by (auto simp: check_can_grant_def Let_def)

lemma permissions_of_append: "permissions_of (xs @ ys) = permissions_of xs \<union> permissions_of ys"
  by (auto simp: permissions_of_def)

lemma normalize_role_name_Inr:
  "normalize_role_name raw = Inr name \<longleftrightarrow>
     name = lower (strip raw) \<and> accepts NAME name \<and> length name \<le> MAX_ROLE_NAME_LENGTH"
proof -
  define n where "n = lower (strip raw)"
  have "n = [] \<or> \<not> is_space (last n)"
    using strip_ends [of raw] unfolding n_def lower_def
    by (cases "strip raw = []") (simp_all add: last_map)
  then have "re_match NAME n \<longleftrightarrow> accepts NAME n" by (rule re_match_no_newline)
  then show ?thesis
    unfolding normalize_role_name_def n_def [symmetric] Let_def by (auto simp: accepts_NAME)
qed

lemma normalize_role_name_idem:
  "normalize_role_name raw = Inr name \<Longrightarrow> normalize_role_name name = Inr name"
  by (auto simp: normalize_role_name_Inr strip_lower)

lemma builtin_names: "map fst BUILTIN_ROLES = [OWNER, ADMIN, AUDITOR, MEMBER]"
  by (simp add: BUILTIN_ROLES_def)

lemmas role_names = OWNER_def ADMIN_def AUDITOR_def MEMBER_def DEFAULT_ROLE_def

lemma role_names_distinct [simp]:
  "OWNER \<noteq> ADMIN" "OWNER \<noteq> AUDITOR" "OWNER \<noteq> MEMBER" "ADMIN \<noteq> AUDITOR" "ADMIN \<noteq> MEMBER"
  "AUDITOR \<noteq> MEMBER" "OWNER \<noteq> DEFAULT_ROLE"
  by (simp_all add: role_names)

end
