(* ===== verification/Accounts.thy ===== *)
theory Accounts
  imports Errors PyText
begin

text \<open>
  \<^verbatim>\<open>src/src/keyring_api/domain/accounts.py\<close>: accounts and their transitions, the rules an
  address and a password have to satisfy. Instants are microseconds; a lockout is a float
  number of seconds, rounded to microseconds as \<open>timedelta\<close> rounds.
\<close>

section \<open>Durations\<close>

text \<open>\<open>timedelta(seconds=n)\<close> of an int, and of a float (rounded half to even).\<close>

definition timedelta_s :: "int \<Rightarrow> int" where
  "timedelta_s n = n * 1000000"

definition round_half_even :: "rat \<Rightarrow> int" where
  "round_half_even x =
     (let k = \<lfloor>x\<rfloor>; r = x - of_int k in
      if r < 1 / 2 then k else if r > 1 / 2 then k + 1 else if even k then k else k + 1)"

definition timedelta_f :: "rat \<Rightarrow> int" where
  "timedelta_f x = round_half_even (x * 1000000)"

lemma timedelta_f_of_int: "timedelta_f (of_int n) = timedelta_s n"
proof -
  have "(of_int n :: rat) * 1000000 = of_int (n * 1000000)" by simp
  then show ?thesis by (simp only: timedelta_f_def round_half_even_def floor_of_int) (simp add: timedelta_s_def)
qed

lemma timedelta_f_nonneg: "0 \<le> x \<Longrightarrow> 0 \<le> timedelta_f x"
  by (auto simp: timedelta_f_def round_half_even_def Let_def)

section \<open>Accounts\<close>

datatype account_status = ACTIVE | DISABLED

text \<open>A row of the table, and the account with the roles its side table adds.\<close>

record account_row =
  ac_id :: string
  ac_email :: string
  ac_password_hash :: string
  ac_created_at :: int
  ac_updated_at :: int
  ac_status :: account_status
  ac_failed_attempts :: nat
  ac_locked_until :: "int option"

record account = account_row +
  ac_roles :: "string list"

definition with_roles :: "account \<Rightarrow> string list \<Rightarrow> int \<Rightarrow> account" where
  "with_roles a roles now = a\<lparr>ac_roles := roles, ac_updated_at := now\<rparr>"

definition is_locked :: "account \<Rightarrow> int \<Rightarrow> bool" where
  "is_locked a now = (case ac_locked_until a of None \<Rightarrow> False | Some t \<Rightarrow> now < t)"

definition with_failure :: "account \<Rightarrow> int \<Rightarrow> nat \<Rightarrow> rat \<Rightarrow> account" where
  "with_failure a now lockout_threshold lockout_seconds =
     (let attempts = ac_failed_attempts a + 1;
          locked_until = (if attempts \<ge> lockout_threshold
                          then Some (now + timedelta_f lockout_seconds)
                          else ac_locked_until a)
      in a\<lparr>ac_failed_attempts := attempts, ac_locked_until := locked_until, ac_updated_at := now\<rparr>)"

definition with_success :: "account \<Rightarrow> account" where
  "with_success a = a\<lparr>ac_failed_attempts := 0, ac_locked_until := None\<rparr>"

section \<open>Addresses and passwords\<close>

definition MIN_PASSWORD_LENGTH :: nat where "MIN_PASSWORD_LENGTH = 8"
definition MAX_PASSWORD_LENGTH :: nat where "MAX_PASSWORD_LENGTH = 1024"
definition MAX_EMAIL_LENGTH :: nat where "MAX_EMAIL_LENGTH = 254"

text \<open>The pattern \<^verbatim>\<open>^[^@\s]+@[^@\s]+\.[^@\s]+$\<close>.\<close>

definition is_address_char :: "char \<Rightarrow> bool" where
  "is_address_char c \<longleftrightarrow> code_of c \<noteq> 64 \<and> \<not> is_space c"

definition EMAIL :: rx where
  "EMAIL =
     RSeq (RPlus (RChar is_address_char))
       (RSeq (RChar (\<lambda>c. code_of c = 64))
         (RSeq (RPlus (RChar is_address_char))
           (RSeq (RChar (\<lambda>c. code_of c = 46)) (RPlus (RChar is_address_char)))))"

definition normalize_email :: "string \<Rightarrow> string result" where
  "normalize_email raw =
     (let address = lower (strip raw) in
      if length address > MAX_EMAIL_LENGTH
        then Inl (InvalidEmailError [''email address must be at most 254 characters''])
      else if \<not> re_match EMAIL address
        then Inl (InvalidEmailError [''email address is not a usable address''])
      else Inr address)"

definition check_password_policy :: "string \<Rightarrow> unit result" where
  "check_password_policy password =
     (if length password < MIN_PASSWORD_LENGTH
        then Inl (InvalidPasswordError [''password must be at least 8 characters''])
      else if length password > MAX_PASSWORD_LENGTH
        then Inl (InvalidPasswordError [''password must be at most 1024 characters''])
      else if strip password = []
        then Inl (InvalidPasswordError [''password must not be entirely whitespace''])
      else Inr ())"

section \<open>Facts\<close>

lemma with_failure_simps [simp]:
  "ac_id (with_failure a n t s) = ac_id a" "ac_email (with_failure a n t s) = ac_email a"
  "ac_roles (with_failure a n t s) = ac_roles a" "ac_status (with_failure a n t s) = ac_status a"
  "ac_password_hash (with_failure a n t s) = ac_password_hash a"
  "ac_failed_attempts (with_failure a n t s) = ac_failed_attempts a + 1"
  by (simp_all add: with_failure_def Let_def)

lemma with_success_simps [simp]:
  "ac_id (with_success a) = ac_id a" "ac_email (with_success a) = ac_email a"
  "ac_roles (with_success a) = ac_roles a" "ac_status (with_success a) = ac_status a"
  "ac_password_hash (with_success a) = ac_password_hash a"
  "ac_failed_attempts (with_success a) = 0" "ac_locked_until (with_success a) = None"
  by (simp_all add: with_success_def)

lemma with_roles_simps [simp]:
  "ac_id (with_roles a rs n) = ac_id a" "ac_email (with_roles a rs n) = ac_email a"
  "ac_roles (with_roles a rs n) = rs"
  by (simp_all add: with_roles_def)

lemma with_failure_locks:
  assumes "lockout_threshold \<le> ac_failed_attempts a + 1" and "0 < timedelta_f lockout_seconds"
  shows "is_locked (with_failure a now lockout_threshold lockout_seconds) now"
  using assms by (simp add: is_locked_def with_failure_def Let_def)

lemma with_success_unlocked: "\<not> is_locked (with_success a) now"
  by (simp add: is_locked_def)

text \<open>What an address is: no white space, one at-sign, and a dot inside the domain.\<close>

definition address_part :: "string \<Rightarrow> bool" where
  "address_part s \<longleftrightarrow> s \<noteq> [] \<and> (\<forall>c \<in> set s. is_address_char c)"

lemma accepts_EMAIL:
  "accepts EMAIL s \<longleftrightarrow>
     (\<exists>l d t. s = l @ CHR ''@'' # d @ CHR ''.'' # t \<and> address_part l \<and> address_part d \<and> address_part t)"
proof -
  have at: "code_of c = 64 \<longleftrightarrow> c = CHR ''@''" and dot: "code_of c = 46 \<longleftrightarrow> c = CHR ''.''" for c
    using code_of_inj [of c "CHR ''@''"] code_of_inj [of c "CHR ''.''"] by (simp_all add: code_of_def)
  have part: "accepts (RPlus (RChar is_address_char)) s \<longleftrightarrow> address_part s" for s
    unfolding accepts_RPlus_RChar address_part_def ..
  have split: "accepts (RSeq (RPlus (RChar is_address_char)) q) s
      \<longleftrightarrow> (\<exists>a b. s = a @ b \<and> address_part a \<and> accepts q b)" for q s
    unfolding accepts_RSeq [of "RPlus (RChar is_address_char)"] part ..
  show ?thesis
    unfolding EMAIL_def split part at dot accepts_RChar_RSeq [of "\<lambda>c. c = CHR ''@''"]
      accepts_RChar_RSeq [of "\<lambda>c. c = CHR ''.''"]
    by (rule iffI; elim exE conjE; simp; metis)
qed

lemma normalize_email_Inr:
  "normalize_email raw = Inr a \<longleftrightarrow>
     a = lower (strip raw) \<and> accepts EMAIL a \<and> length a \<le> MAX_EMAIL_LENGTH"
proof -
  define n where "n = lower (strip raw)"
  have "n = [] \<or> \<not> is_space (last n)"
    using strip_ends [of raw] unfolding n_def lower_def
    by (cases "strip raw = []") (simp_all add: last_map)
  then have "re_match EMAIL n \<longleftrightarrow> accepts EMAIL n" by (rule re_match_no_newline)
  then show ?thesis
    unfolding normalize_email_def n_def [symmetric] Let_def by auto
qed

lemma normalize_email_idem: "normalize_email raw = Inr a \<Longrightarrow> normalize_email a = Inr a"
  by (auto simp: normalize_email_Inr strip_lower)

lemma check_password_policy_Inr:
  "check_password_policy p = Inr u \<longleftrightarrow>
     8 \<le> length p \<and> length p \<le> 1024 \<and> (\<exists>c \<in> set p. \<not> is_space c)"
proof -
  have "strip p = [] \<longleftrightarrow> (\<forall>c \<in> set p. is_space c)"
    by (auto simp: strip_def dropWhile_eq_Nil_conv dest: set_dropWhileD)
       (metis dropWhile_eq_Nil_conv set_rev hd_dropWhile hd_in_set)
  then show ?thesis
    by (auto simp: check_password_policy_def MIN_PASSWORD_LENGTH_def MAX_PASSWORD_LENGTH_def)
qed

end
