(* ===== verification/Sessions.thy ===== *)
theory Sessions
  imports Accounts
begin

text \<open>
  \<^verbatim>\<open>src/src/keyring_api/domain/sessions.py\<close> and \<^verbatim>\<open>domain/grants.py\<close>,
  \<^verbatim>\<open>domain/delegation.py\<close>: login sessions with their idle and absolute deadlines, the
  single-use tokens behind invites and password resets, and offline grants.
\<close>

section \<open>Sessions\<close>

record session =
  se_id :: string
  se_account_id :: string
  se_token_hash :: string
  se_created_at :: int
  se_last_used_at :: int
  se_expires_at :: int
  se_absolute_expires_at :: int
  se_idle_ttl_seconds :: "int option"

definition is_expired :: "session \<Rightarrow> int \<Rightarrow> bool" where
  "is_expired s now \<longleftrightarrow> now \<ge> se_expires_at s \<or> now \<ge> se_absolute_expires_at s"

text \<open>
  \<open>absolute_expires_at or self.absolute_expires_at\<close>: a datetime is always truthy, so the
  argument is used whenever it is given.
\<close>

definition touched :: "session \<Rightarrow> int \<Rightarrow> int \<Rightarrow> int option \<Rightarrow> session" where
  "touched s now idle_ttl_seconds absolute_expires_at =
     (let ceiling = (case absolute_expires_at of Some t \<Rightarrow> t | None \<Rightarrow> se_absolute_expires_at s);
          expires_at = min (now + timedelta_s idle_ttl_seconds) ceiling
      in s\<lparr>se_last_used_at := now, se_expires_at := expires_at, se_absolute_expires_at := ceiling\<rparr>)"

lemma touched_simps [simp]:
  "se_id (touched s n i c) = se_id s" "se_account_id (touched s n i c) = se_account_id s"
  "se_token_hash (touched s n i c) = se_token_hash s" "se_created_at (touched s n i c) = se_created_at s"
  "se_idle_ttl_seconds (touched s n i c) = se_idle_ttl_seconds s"
  by (simp_all add: touched_def Let_def)

lemma touched_ceiling: "se_expires_at (touched s n i c) \<le> se_absolute_expires_at (touched s n i c)"
  by (simp add: touched_def Let_def)

lemma touched_absolute: "se_absolute_expires_at (touched s n i None) = se_absolute_expires_at s"
  by (simp add: touched_def Let_def)

section \<open>Invites and password resets\<close>

datatype grant_purpose = INVITE | PASSWORD_RESET

record grant =
  gr_id :: string
  gr_purpose :: grant_purpose
  gr_token_hash :: string
  gr_created_at :: int
  gr_expires_at :: int
  gr_email :: "string option"
  gr_account_id :: "string option"
  gr_redeemed_at :: "int option"
  gr_revoked :: bool

text \<open>The constructor, with its \<open>__post_init__\<close> check.\<close>

definition new_grant ::
  "string \<Rightarrow> grant_purpose \<Rightarrow> string \<Rightarrow> int \<Rightarrow> int \<Rightarrow> string option \<Rightarrow> string option \<Rightarrow> grant result" where
  "new_grant gid purpose token_hash created_at expires_at email account_id =
     (if email = None \<and> account_id = None
      then Inl (Unhandled [''a grant must name either an email or an account''])
      else Inr \<lparr>gr_id = gid, gr_purpose = purpose, gr_token_hash = token_hash,
                gr_created_at = created_at, gr_expires_at = expires_at, gr_email = email,
                gr_account_id = account_id, gr_redeemed_at = None, gr_revoked = False\<rparr>)"

definition is_redeemable :: "grant \<Rightarrow> int \<Rightarrow> bool" where
  "is_redeemable g now \<longleftrightarrow> gr_redeemed_at g = None \<and> \<not> gr_revoked g \<and> now < gr_expires_at g"

definition redeemed :: "grant \<Rightarrow> int \<Rightarrow> grant" where
  "redeemed g now = g\<lparr>gr_redeemed_at := Some now\<rparr>"

definition revoked_now :: "grant \<Rightarrow> grant" where
  "revoked_now g = g\<lparr>gr_revoked := True\<rparr>"

lemma redeemed_not_redeemable: "\<not> is_redeemable (redeemed g now) later"
  by (simp add: redeemed_def is_redeemable_def)

lemma revoked_not_redeemable: "\<not> is_redeemable (revoked_now g) later"
  by (simp add: revoked_now_def is_redeemable_def)

lemma redeemed_simps [simp]:
  "gr_id (redeemed g n) = gr_id g" "gr_token_hash (redeemed g n) = gr_token_hash g"
  "gr_purpose (redeemed g n) = gr_purpose g" "gr_account_id (redeemed g n) = gr_account_id g"
  "gr_email (redeemed g n) = gr_email g" "gr_expires_at (redeemed g n) = gr_expires_at g"
  by (simp_all add: redeemed_def)

lemma revoked_now_simps [simp]:
  "gr_id (revoked_now g) = gr_id g" "gr_token_hash (revoked_now g) = gr_token_hash g"
  "gr_purpose (revoked_now g) = gr_purpose g" "gr_account_id (revoked_now g) = gr_account_id g"
  "gr_redeemed_at (revoked_now g) = gr_redeemed_at g"
  by (simp_all add: revoked_now_def)

section \<open>Offline grants\<close>

record offline_grant =
  og_id :: string
  og_account_id :: string
  og_profile :: string
  og_service :: string
  og_audiences :: "string list"
  og_created_at :: int
  og_expires_at :: int
  og_revoked_at :: "int option"

end
