(* ===== verification/Profiles.thy ===== *)
theory Profiles
  imports Accounts
begin

text \<open>
  \<^verbatim>\<open>src/src/keyring_api/domain/profiles.py\<close> and \<^verbatim>\<open>domain/changes.py\<close>: profiles, their
  connections, when a connection is usable and when it is due for a refresh, and the names
  both are addressed by.
\<close>

section \<open>Kinds, statuses, changes\<close>

datatype credential_kind = API_KEY | OAUTH2_AUTHORIZATION_CODE | PASSWORD

definition can_refresh :: "credential_kind \<Rightarrow> bool" where
  "can_refresh k \<longleftrightarrow> k = OAUTH2_AUTHORIZATION_CODE"

datatype connection_status = CONN_ACTIVE | PENDING | EXPIRED | REVOKED

datatype credential_change = STORED | REMOVED

datatype change_origin = PERSON | SERVICE | PROVIDER | ADMINISTRATOR

section \<open>Names\<close>

definition MAX_PROFILE_NAME_LENGTH :: nat where "MAX_PROFILE_NAME_LENGTH = 64"
definition MAX_SERVICE_NAME_LENGTH :: nat where "MAX_SERVICE_NAME_LENGTH = 64"

definition normalize :: "string \<Rightarrow> string \<Rightarrow> nat \<Rightarrow> string result" where
  "normalize raw what limit =
     (let name = lower (strip raw) in
      if name = [] then Inl (InvalidProfileNameError [what, '' must not be empty''])
      else if length name > limit
        then Inl (InvalidProfileNameError [what, '' must be at most 64 characters''])
      else if \<not> re_match NAME name
        then Inl (InvalidProfileNameError [what,
          '' may contain only lowercase letters, digits, dot, dash and underscore, and must start and end with a letter or digit''])
      else Inr name)"

definition normalize_profile_name :: "string \<Rightarrow> string result" where
  "normalize_profile_name raw = normalize raw ''profile name'' MAX_PROFILE_NAME_LENGTH"

definition normalize_service_name :: "string \<Rightarrow> string result" where
  "normalize_service_name raw = normalize raw ''service name'' MAX_SERVICE_NAME_LENGTH"

section \<open>Connections\<close>

record connection =
  co_service :: string
  co_kind :: credential_kind
  co_status :: connection_status
  co_created_at :: int
  co_updated_at :: int
  co_expires_at :: "int option"
  co_scopes :: "string list"
  co_stores_totp_seed :: bool
  co_last_error :: "string option"

definition needs_refresh :: "connection \<Rightarrow> int \<Rightarrow> int \<Rightarrow> bool" where
  "needs_refresh c now margin_seconds =
     (case co_expires_at c of None \<Rightarrow> False | Some t \<Rightarrow> now \<ge> t - timedelta_s margin_seconds)"

definition is_usable :: "connection \<Rightarrow> int \<Rightarrow> bool" where
  "is_usable c now =
     (if co_status c \<noteq> CONN_ACTIVE then False
      else (case co_expires_at c of None \<Rightarrow> True | Some t \<Rightarrow> can_refresh (co_kind c) \<or> now < t))"

definition with_error :: "connection \<Rightarrow> string \<Rightarrow> int \<Rightarrow> connection" where
  "with_error c text now = c\<lparr>co_status := EXPIRED, co_last_error := Some text, co_updated_at := now\<rparr>"

section \<open>Profiles\<close>

record profile_row =
  pr_id :: string
  pr_account_id :: string
  pr_name :: string
  pr_created_at :: int
  pr_updated_at :: int

record profile = profile_row +
  pr_connections :: "connection list"

definition connection_to :: "profile \<Rightarrow> string \<Rightarrow> connection option" where
  "connection_to p service = List.find (\<lambda>c. co_service c = service) (pr_connections p)"

definition with_connection :: "profile \<Rightarrow> connection \<Rightarrow> int \<Rightarrow> profile" where
  "with_connection p c now =
     p\<lparr>pr_connections := filter (\<lambda>x. co_service x \<noteq> co_service c) (pr_connections p) @ [c],
       pr_updated_at := now\<rparr>"

definition without_connection :: "profile \<Rightarrow> string \<Rightarrow> int \<Rightarrow> profile" where
  "without_connection p service now =
     p\<lparr>pr_connections := filter (\<lambda>x. co_service x \<noteq> service) (pr_connections p),
       pr_updated_at := now\<rparr>"

section \<open>Facts\<close>

lemma normalize_Inr:
  "normalize raw what limit = Inr name \<longleftrightarrow>
     name = lower (strip raw) \<and> accepts NAME name \<and> length name \<le> limit"
proof -
  define n where "n = lower (strip raw)"
  have "n = [] \<or> \<not> is_space (last n)"
    using strip_ends [of raw] unfolding n_def lower_def
    by (cases "strip raw = []") (simp_all add: last_map)
  then have "re_match NAME n \<longleftrightarrow> accepts NAME n" by (rule re_match_no_newline)
  then show ?thesis
    unfolding normalize_def n_def [symmetric] Let_def by (auto simp: accepts_NAME)
qed

lemma normalize_idem: "normalize raw what limit = Inr name \<Longrightarrow> normalize name what limit = Inr name"
  by (auto simp: normalize_Inr strip_lower)

lemma find_filter_other:
  "List.find p (filter (\<lambda>x. \<not> q x) xs) = List.find p xs" if "\<And>x. p x \<Longrightarrow> \<not> q x"
  using that by (induction xs) auto

lemma find_filter_none: "List.find p (filter (\<lambda>x. \<not> p x) xs) = None"
  by (simp add: find_None_iff)

lemma connection_to_with_connection:
  "connection_to (with_connection p c now) s = (if s = co_service c then Some c else connection_to p s)"
proof -
  have app: "List.find q (xs @ ys) = (case List.find q xs of None \<Rightarrow> List.find q ys | Some y \<Rightarrow> Some y)"
    for q and xs ys :: "connection list"
    by (induction xs) auto
  show ?thesis
  proof (cases "s = co_service c")
    case True
    have "List.find (\<lambda>x. co_service x = co_service c)
        (filter (\<lambda>x. co_service x \<noteq> co_service c) (pr_connections p)) = None"
      by (rule find_filter_none)
    with True show ?thesis by (simp add: connection_to_def with_connection_def app)
  next
    case False
    then have "List.find (\<lambda>x. co_service x = s)
        (filter (\<lambda>x. co_service x \<noteq> co_service c) (pr_connections p))
        = List.find (\<lambda>x. co_service x = s) (pr_connections p)"
      by (intro find_filter_other) auto
    with False show ?thesis
      by (auto simp: connection_to_def with_connection_def app split: option.splits)
  qed
qed

lemma connection_to_without_connection:
  "connection_to (without_connection p s now) t = (if t = s then None else connection_to p t)"
  by (auto simp: connection_to_def without_connection_def find_None_iff find_filter_other)

lemma with_error_not_usable: "\<not> is_usable (with_error c text now) later"
  by (simp add: with_error_def is_usable_def)

lemma with_error_simps [simp]:
  "co_service (with_error c t n) = co_service c" "co_kind (with_error c t n) = co_kind c"
  "co_status (with_error c t n) = EXPIRED" "co_created_at (with_error c t n) = co_created_at c"
  by (simp_all add: with_error_def)

end
