(* ===== verification/Database.thy ===== *)
theory Database
  imports Rbac Sessions Profiles "HOL-Library.Word"
begin

text \<open>
  The schema of \<^verbatim>\<open>src/src/keyring_api/storage/migrations\<close> after the last migration, as one
  record of tables, with the statements whose constraints matter: an insertion checks its
  primary key, its UNIQUE columns and its foreign keys and raises an integrity error, a
  deletion cascades. A transaction (\<^verbatim>\<open>storage/database.py\<close>) runs on the single worker thread,
  so it is one function from a database to an error (rolled back) or a new database.
  \<open>db_ok\<close> says that every key is unique and every reference resolves, and each statement is
  proved to keep it.
\<close>

section \<open>Rows\<close>

datatype audit_action =
    ACCOUNT_INVITED | ACCOUNT_DELETED | ACCOUNT_DISABLED | ACCOUNT_ENABLED
  | ACCOUNT_SESSIONS_REVOKED | ACCOUNT_PASSWORD_RESET_ISSUED | ROLES_ASSIGNED
  | ROLE_CREATED | ROLE_UPDATED | ROLE_DELETED | PROFILE_DELETED_BY_ADMIN
  | DELEGATION_CREATED | DELEGATION_REVOKED | TOKEN_EXCHANGED

record audit_entry =
  au_entry_id :: string
  au_at :: int
  au_action :: audit_action
  au_actor_id :: string
  au_target_id :: "string option"
  au_detail :: string

type_synonym bytes = "8 word list"

record envelope =
  en_version :: int
  en_wrapped_key :: bytes
  en_key_nonce :: bytes
  en_nonce :: bytes
  en_ciphertext :: bytes

record account_role =
  ar_account_id :: string
  ar_role_name :: string
  ar_position :: nat

record connection_row =
  cr_account_id :: string
  cr_profile_name :: string
  cr_connection :: connection

record secret_row =
  sr_account_id :: string
  sr_profile_name :: string
  sr_service :: string
  sr_envelope :: envelope
  sr_created_at :: int
  sr_updated_at :: int

section \<open>Tables\<close>

record db =
  t_accounts :: "account_row list"
  t_account_roles :: "account_role list"
  t_roles :: "role list"
  t_sessions :: "session list"
  t_grants :: "grant list"
  t_profiles :: "profile_row list"
  t_connections :: "connection_row list"
  t_secrets :: "secret_row list"
  t_offline_grants :: "offline_grant list"
  t_audit :: "(nat \<times> audit_entry) list"
  t_audit_sequence :: nat \<comment> \<open>the AUTOINCREMENT counter\<close>

type_synonym ('z, 'a) dbtxn = "(error, 'z db_scheme, 'a) txn"
type_synonym ('z, 'a) dbop = "(error, 'z db_scheme, 'a) op"

definition empty_db :: db where
  "empty_db = \<lparr>t_accounts = [], t_account_roles = [], t_roles = [], t_sessions = [], t_grants = [],
     t_profiles = [], t_connections = [], t_secrets = [], t_offline_grants = [], t_audit = [],
     t_audit_sequence = 0\<rparr>"

definition IntegrityError :: error where
  "IntegrityError = Unhandled [''IntegrityError'']"

definition account_ids :: "'z db_scheme \<Rightarrow> string set" where
  "account_ids d = ac_id ` set (t_accounts d)"

definition role_ids :: "'z db_scheme \<Rightarrow> string set" where
  "role_ids d = ro_name ` set (t_roles d)"

definition profile_key :: "'r profile_row_scheme \<Rightarrow> string \<times> string" where
  "profile_key p = (pr_account_id p, pr_name p)"

definition profile_keys :: "'z db_scheme \<Rightarrow> (string \<times> string) set" where
  "profile_keys d = profile_key ` set (t_profiles d)"

definition role_key :: "account_role \<Rightarrow> string \<times> string" where
  "role_key r = (ar_account_id r, ar_role_name r)"

definition connection_key :: "connection_row \<Rightarrow> string \<times> string \<times> string" where
  "connection_key c = (cr_account_id c, cr_profile_name c, co_service (cr_connection c))"

definition secret_key :: "secret_row \<Rightarrow> string \<times> string \<times> string" where
  "secret_key s = (sr_account_id s, sr_profile_name s, sr_service s)"

section \<open>Statements with constraints\<close>

definition insert_account :: "account_row \<Rightarrow> 'z db_scheme \<Rightarrow> 'z db_scheme result" where
  "insert_account row d =
     (if list_ex (\<lambda>r. ac_id r = ac_id row \<or> ac_email r = ac_email row) (t_accounts d)
      then Inl IntegrityError else Inr (d\<lparr>t_accounts := t_accounts d @ [row]\<rparr>))"

definition insert_role :: "role \<Rightarrow> 'z db_scheme \<Rightarrow> 'z db_scheme result" where
  "insert_role row d =
     (if list_ex (\<lambda>r. ro_name r = ro_name row) (t_roles d)
      then Inl IntegrityError else Inr (d\<lparr>t_roles := t_roles d @ [row]\<rparr>))"

definition insert_account_role :: "account_role \<Rightarrow> 'z db_scheme \<Rightarrow> 'z db_scheme result" where
  "insert_account_role row d =
     (if list_ex (\<lambda>r. role_key r = role_key row) (t_account_roles d)
         \<or> \<not> list_ex (\<lambda>r. ac_id r = ar_account_id row) (t_accounts d)
         \<or> \<not> list_ex (\<lambda>r. ro_name r = ar_role_name row) (t_roles d)
      then Inl IntegrityError else Inr (d\<lparr>t_account_roles := t_account_roles d @ [row]\<rparr>))"

definition insert_session :: "session \<Rightarrow> 'z db_scheme \<Rightarrow> 'z db_scheme result" where
  "insert_session row d =
     (if list_ex (\<lambda>r. se_id r = se_id row \<or> se_token_hash r = se_token_hash row) (t_sessions d)
         \<or> \<not> list_ex (\<lambda>r. ac_id r = se_account_id row) (t_accounts d)
      then Inl IntegrityError else Inr (d\<lparr>t_sessions := t_sessions d @ [row]\<rparr>))"

definition insert_grant :: "grant \<Rightarrow> 'z db_scheme \<Rightarrow> 'z db_scheme result" where
  "insert_grant row d =
     (if list_ex (\<lambda>r. gr_id r = gr_id row \<or> gr_token_hash r = gr_token_hash row) (t_grants d)
         \<or> (gr_email row = None \<and> gr_account_id row = None)
         \<or> (case gr_account_id row of None \<Rightarrow> False
            | Some a \<Rightarrow> \<not> list_ex (\<lambda>r. ac_id r = a) (t_accounts d))
      then Inl IntegrityError else Inr (d\<lparr>t_grants := t_grants d @ [row]\<rparr>))"

definition insert_profile :: "profile_row \<Rightarrow> 'z db_scheme \<Rightarrow> 'z db_scheme result" where
  "insert_profile row d =
     (if list_ex (\<lambda>r. profile_key r = profile_key row \<or> pr_id r = pr_id row) (t_profiles d)
         \<or> \<not> list_ex (\<lambda>r. ac_id r = pr_account_id row) (t_accounts d)
      then Inl IntegrityError else Inr (d\<lparr>t_profiles := t_profiles d @ [row]\<rparr>))"

definition insert_connection :: "connection_row \<Rightarrow> 'z db_scheme \<Rightarrow> 'z db_scheme result" where
  "insert_connection row d =
     (if list_ex (\<lambda>r. connection_key r = connection_key row) (t_connections d)
         \<or> \<not> list_ex (\<lambda>r. profile_key r = (cr_account_id row, cr_profile_name row)) (t_profiles d)
      then Inl IntegrityError else Inr (d\<lparr>t_connections := t_connections d @ [row]\<rparr>))"

definition insert_secret :: "secret_row \<Rightarrow> 'z db_scheme \<Rightarrow> 'z db_scheme result" where
  "insert_secret row d =
     (if list_ex (\<lambda>r. secret_key r = secret_key row) (t_secrets d)
         \<or> \<not> list_ex (\<lambda>r. ac_id r = sr_account_id row) (t_accounts d)
      then Inl IntegrityError else Inr (d\<lparr>t_secrets := t_secrets d @ [row]\<rparr>))"

definition insert_offline_grant :: "offline_grant \<Rightarrow> 'z db_scheme \<Rightarrow> 'z db_scheme result" where
  "insert_offline_grant row d =
     (if list_ex (\<lambda>r. og_id r = og_id row) (t_offline_grants d)
         \<or> \<not> list_ex (\<lambda>r. profile_key r = (og_account_id row, og_profile row)) (t_profiles d)
      then Inl IntegrityError else Inr (d\<lparr>t_offline_grants := t_offline_grants d @ [row]\<rparr>))"

text \<open>\<open>DELETE FROM profiles\<close>, with the cascade to connections and offline grants.\<close>

definition delete_profiles :: "(profile_row \<Rightarrow> bool) \<Rightarrow> 'z db_scheme \<Rightarrow> 'z db_scheme" where
  "delete_profiles p d =
     (let doomed = map profile_key (select_where p (t_profiles d)) in
      d\<lparr>t_profiles := delete_where p (t_profiles d),
        t_connections := delete_where (\<lambda>c. (cr_account_id c, cr_profile_name c) \<in> set doomed) (t_connections d),
        t_offline_grants := delete_where (\<lambda>g. (og_account_id g, og_profile g) \<in> set doomed) (t_offline_grants d)\<rparr>)"

text \<open>\<open>DELETE FROM accounts WHERE account_id = ?\<close>, with every cascade of the schema.\<close>

definition delete_account_row :: "string \<Rightarrow> 'z db_scheme \<Rightarrow> 'z db_scheme" where
  "delete_account_row aid d =
     (delete_profiles (\<lambda>p. pr_account_id p = aid) d)
       \<lparr>t_accounts := delete_where (\<lambda>a. ac_id a = aid) (t_accounts d),
        t_account_roles := delete_where (\<lambda>r. ar_account_id r = aid) (t_account_roles d),
        t_sessions := delete_where (\<lambda>s. se_account_id s = aid) (t_sessions d),
        t_grants := delete_where (\<lambda>g. gr_account_id g = Some aid) (t_grants d),
        t_secrets := delete_where (\<lambda>s. sr_account_id s = aid) (t_secrets d)\<rparr>"

text \<open>\<open>DELETE FROM roles WHERE name = ?\<close>: ON DELETE RESTRICT.\<close>

definition delete_role_row :: "string \<Rightarrow> 'z db_scheme \<Rightarrow> 'z db_scheme result" where
  "delete_role_row name d =
     (if list_ex (\<lambda>r. ar_role_name r = name) (t_account_roles d) then Inl IntegrityError
      else Inr (d\<lparr>t_roles := delete_where (\<lambda>r. ro_name r = name) (t_roles d)\<rparr>))"

section \<open>Well-formed databases\<close>

definition keys_ok :: "'z db_scheme \<Rightarrow> bool" where
  "keys_ok d \<longleftrightarrow> distinct (map ac_id (t_accounts d)) \<and> distinct (map ac_email (t_accounts d))
     \<and> distinct (map ro_name (t_roles d)) \<and> distinct (map role_key (t_account_roles d))
     \<and> distinct (map se_id (t_sessions d)) \<and> distinct (map se_token_hash (t_sessions d))
     \<and> distinct (map gr_id (t_grants d)) \<and> distinct (map gr_token_hash (t_grants d))
     \<and> distinct (map profile_key (t_profiles d)) \<and> distinct (map pr_id (t_profiles d))
     \<and> distinct (map connection_key (t_connections d)) \<and> distinct (map secret_key (t_secrets d))
     \<and> distinct (map og_id (t_offline_grants d))"

definition refs_ok :: "'z db_scheme \<Rightarrow> bool" where
  "refs_ok d \<longleftrightarrow>
     (\<forall>r \<in> set (t_account_roles d). ar_account_id r \<in> account_ids d \<and> ar_role_name r \<in> role_ids d)
     \<and> (\<forall>s \<in> set (t_sessions d). se_account_id s \<in> account_ids d)
     \<and> (\<forall>g \<in> set (t_grants d). \<forall>a. gr_account_id g = Some a \<longrightarrow> a \<in> account_ids d)
     \<and> (\<forall>p \<in> set (t_profiles d). pr_account_id p \<in> account_ids d)
     \<and> (\<forall>c \<in> set (t_connections d). (cr_account_id c, cr_profile_name c) \<in> profile_keys d)
     \<and> (\<forall>s \<in> set (t_secrets d). sr_account_id s \<in> account_ids d)
     \<and> (\<forall>g \<in> set (t_offline_grants d). (og_account_id g, og_profile g) \<in> profile_keys d)"

definition db_ok :: "'z db_scheme \<Rightarrow> bool" where
  "db_ok d \<longleftrightarrow> keys_ok d \<and> refs_ok d"

lemmas db_defs = db_ok_def keys_ok_def refs_ok_def account_ids_def role_ids_def profile_keys_def

lemmas insert_defs = insert_account_def insert_role_def insert_account_role_def insert_session_def
  insert_grant_def insert_profile_def insert_connection_def insert_secret_def
  insert_offline_grant_def

lemma db_ok_empty: "db_ok empty_db"
  by (simp add: db_defs empty_db_def)

text \<open>A constraint check is a membership test on the keys of the table.\<close>

lemma list_ex_key: "list_ex (\<lambda>r. k r = c) rows \<longleftrightarrow> c \<in> k ` set rows"
  by (auto simp: list_ex_iff)

lemma list_ex_disj: "list_ex (\<lambda>r. p r \<or> q r) rows \<longleftrightarrow> list_ex p rows \<or> list_ex q rows"
  by (auto simp: list_ex_iff)

lemmas constraint_simps = list_ex_key list_ex_disj

lemma insert_account_keys: "keys_ok d \<Longrightarrow> insert_account row d = Inr d' \<Longrightarrow> keys_ok d'"
  by (auto simp: insert_account_def keys_ok_def constraint_simps split: if_splits)

lemma insert_account_refs: "refs_ok d \<Longrightarrow> insert_account row d = Inr d' \<Longrightarrow> refs_ok d'"
  by (auto simp: insert_account_def refs_ok_def account_ids_def role_ids_def profile_keys_def
      constraint_simps split: if_splits)

lemma insert_account_ok: "db_ok d \<Longrightarrow> insert_account row d = Inr d' \<Longrightarrow> db_ok d'"
  using insert_account_keys insert_account_refs by (auto simp: db_ok_def)

lemma insert_role_keys: "keys_ok d \<Longrightarrow> insert_role row d = Inr d' \<Longrightarrow> keys_ok d'"
  by (auto simp: insert_role_def keys_ok_def constraint_simps split: if_splits)

lemma insert_role_refs: "refs_ok d \<Longrightarrow> insert_role row d = Inr d' \<Longrightarrow> refs_ok d'"
  by (auto simp: insert_role_def refs_ok_def account_ids_def role_ids_def profile_keys_def
      constraint_simps split: if_splits)

lemma insert_role_ok: "db_ok d \<Longrightarrow> insert_role row d = Inr d' \<Longrightarrow> db_ok d'"
  using insert_role_keys insert_role_refs by (auto simp: db_ok_def)

lemma insert_account_role_keys: "keys_ok d \<Longrightarrow> insert_account_role row d = Inr d' \<Longrightarrow> keys_ok d'"
  by (auto simp: insert_account_role_def keys_ok_def constraint_simps split: if_splits)

lemma insert_account_role_refs: "refs_ok d \<Longrightarrow> insert_account_role row d = Inr d' \<Longrightarrow> refs_ok d'"
  by (auto simp: insert_account_role_def refs_ok_def account_ids_def role_ids_def profile_keys_def
      constraint_simps split: if_splits)

lemma insert_account_role_ok: "db_ok d \<Longrightarrow> insert_account_role row d = Inr d' \<Longrightarrow> db_ok d'"
  using insert_account_role_keys insert_account_role_refs by (auto simp: db_ok_def)

lemma insert_session_keys: "keys_ok d \<Longrightarrow> insert_session row d = Inr d' \<Longrightarrow> keys_ok d'"
  by (auto simp: insert_session_def keys_ok_def constraint_simps split: if_splits)

lemma insert_session_refs: "refs_ok d \<Longrightarrow> insert_session row d = Inr d' \<Longrightarrow> refs_ok d'"
  by (auto simp: insert_session_def refs_ok_def account_ids_def role_ids_def profile_keys_def
      constraint_simps split: if_splits)

lemma insert_session_ok: "db_ok d \<Longrightarrow> insert_session row d = Inr d' \<Longrightarrow> db_ok d'"
  using insert_session_keys insert_session_refs by (auto simp: db_ok_def)

lemma insert_grant_keys: "keys_ok d \<Longrightarrow> insert_grant row d = Inr d' \<Longrightarrow> keys_ok d'"
  by (auto simp: insert_grant_def keys_ok_def constraint_simps split: if_splits)

lemma insert_grant_refs: "refs_ok d \<Longrightarrow> insert_grant row d = Inr d' \<Longrightarrow> refs_ok d'"
  by (auto simp: insert_grant_def refs_ok_def account_ids_def role_ids_def profile_keys_def
      constraint_simps split: if_splits option.splits)

lemma insert_grant_ok: "db_ok d \<Longrightarrow> insert_grant row d = Inr d' \<Longrightarrow> db_ok d'"
  using insert_grant_keys insert_grant_refs by (auto simp: db_ok_def)

lemma insert_profile_keys: "keys_ok d \<Longrightarrow> insert_profile row d = Inr d' \<Longrightarrow> keys_ok d'"
  by (auto simp: insert_profile_def keys_ok_def constraint_simps split: if_splits)

lemma insert_profile_refs: "refs_ok d \<Longrightarrow> insert_profile row d = Inr d' \<Longrightarrow> refs_ok d'"
  by (auto simp: insert_profile_def refs_ok_def account_ids_def role_ids_def profile_keys_def
      constraint_simps split: if_splits)

lemma insert_profile_ok: "db_ok d \<Longrightarrow> insert_profile row d = Inr d' \<Longrightarrow> db_ok d'"
  using insert_profile_keys insert_profile_refs by (auto simp: db_ok_def)

lemma insert_connection_keys: "keys_ok d \<Longrightarrow> insert_connection row d = Inr d' \<Longrightarrow> keys_ok d'"
  by (auto simp: insert_connection_def keys_ok_def constraint_simps split: if_splits)

lemma insert_connection_refs: "refs_ok d \<Longrightarrow> insert_connection row d = Inr d' \<Longrightarrow> refs_ok d'"
  by (auto simp: insert_connection_def refs_ok_def account_ids_def role_ids_def profile_keys_def
      constraint_simps split: if_splits)

lemma insert_connection_ok: "db_ok d \<Longrightarrow> insert_connection row d = Inr d' \<Longrightarrow> db_ok d'"
  using insert_connection_keys insert_connection_refs by (auto simp: db_ok_def)

lemma insert_secret_keys: "keys_ok d \<Longrightarrow> insert_secret row d = Inr d' \<Longrightarrow> keys_ok d'"
  by (auto simp: insert_secret_def keys_ok_def constraint_simps split: if_splits)

lemma insert_secret_refs: "refs_ok d \<Longrightarrow> insert_secret row d = Inr d' \<Longrightarrow> refs_ok d'"
  by (auto simp: insert_secret_def refs_ok_def account_ids_def role_ids_def profile_keys_def
      constraint_simps split: if_splits)

lemma insert_secret_ok: "db_ok d \<Longrightarrow> insert_secret row d = Inr d' \<Longrightarrow> db_ok d'"
  using insert_secret_keys insert_secret_refs by (auto simp: db_ok_def)

lemma insert_offline_grant_keys: "keys_ok d \<Longrightarrow> insert_offline_grant row d = Inr d' \<Longrightarrow> keys_ok d'"
  by (auto simp: insert_offline_grant_def keys_ok_def constraint_simps split: if_splits)

lemma insert_offline_grant_refs: "refs_ok d \<Longrightarrow> insert_offline_grant row d = Inr d' \<Longrightarrow> refs_ok d'"
  by (auto simp: insert_offline_grant_def refs_ok_def account_ids_def role_ids_def profile_keys_def
      constraint_simps split: if_splits)

lemma insert_offline_grant_ok: "db_ok d \<Longrightarrow> insert_offline_grant row d = Inr d' \<Longrightarrow> db_ok d'"
  using insert_offline_grant_keys insert_offline_grant_refs by (auto simp: db_ok_def)

lemma image_diff_select: "x \<in> k ` S \<Longrightarrow> x \<notin> k ` {r \<in> S. p r} \<Longrightarrow> x \<in> k ` {r \<in> S. \<not> p r}"
  by auto

lemma image_delete_key: "k ` {r \<in> S. k r \<noteq> c} = k ` S - {c}"
  by auto

lemma image_prefix:
  "profile_key ` {p \<in> S. pr_account_id p \<noteq> c} = {x \<in> profile_key ` S. fst x \<noteq> c}"
  "profile_key ` {p \<in> S. pr_account_id p = c} = {x \<in> profile_key ` S. fst x = c}"
proof -
  have fst: "pr_account_id p = fst (profile_key p)" for p by (simp add: profile_key_def)
  show "profile_key ` {p \<in> S. pr_account_id p \<noteq> c} = {x \<in> profile_key ` S. fst x \<noteq> c}"
    unfolding fst by blast
  show "profile_key ` {p \<in> S. pr_account_id p = c} = {x \<in> profile_key ` S. fst x = c}"
    unfolding fst by blast
qed

text \<open>How the foreign key columns are read, one table at a time.\<close>

lemma refs_okI:
  assumes "\<And>r. r \<in> set (t_account_roles d) \<Longrightarrow> ar_account_id r \<in> account_ids d \<and> ar_role_name r \<in> role_ids d"
    and "\<And>s. s \<in> set (t_sessions d) \<Longrightarrow> se_account_id s \<in> account_ids d"
    and "\<And>g a. g \<in> set (t_grants d) \<Longrightarrow> gr_account_id g = Some a \<Longrightarrow> a \<in> account_ids d"
    and "\<And>p. p \<in> set (t_profiles d) \<Longrightarrow> pr_account_id p \<in> account_ids d"
    and "\<And>c. c \<in> set (t_connections d) \<Longrightarrow> (cr_account_id c, cr_profile_name c) \<in> profile_keys d"
    and "\<And>s. s \<in> set (t_secrets d) \<Longrightarrow> sr_account_id s \<in> account_ids d"
    and "\<And>g. g \<in> set (t_offline_grants d) \<Longrightarrow> (og_account_id g, og_profile g) \<in> profile_keys d"
  shows "refs_ok d"
  using assms by (simp add: refs_ok_def)

lemma refs_okD:
  assumes "refs_ok d"
  shows "r \<in> set (t_account_roles d) \<Longrightarrow> ar_account_id r \<in> account_ids d \<and> ar_role_name r \<in> role_ids d"
    and "s \<in> set (t_sessions d) \<Longrightarrow> se_account_id s \<in> account_ids d"
    and "g \<in> set (t_grants d) \<Longrightarrow> gr_account_id g = Some a \<Longrightarrow> a \<in> account_ids d"
    and "p \<in> set (t_profiles d) \<Longrightarrow> pr_account_id p \<in> account_ids d"
    and "c \<in> set (t_connections d) \<Longrightarrow> (cr_account_id c, cr_profile_name c) \<in> profile_keys d"
    and "x \<in> set (t_secrets d) \<Longrightarrow> sr_account_id x \<in> account_ids d"
    and "o' \<in> set (t_offline_grants d) \<Longrightarrow> (og_account_id o', og_profile o') \<in> profile_keys d"
  using assms by (simp_all add: refs_ok_def)

lemma delete_profiles_sel:
  "t_accounts (delete_profiles p d) = t_accounts d"
  "t_account_roles (delete_profiles p d) = t_account_roles d"
  "t_roles (delete_profiles p d) = t_roles d"
  "t_sessions (delete_profiles p d) = t_sessions d"
  "t_grants (delete_profiles p d) = t_grants d"
  "t_secrets (delete_profiles p d) = t_secrets d"
  "t_audit (delete_profiles p d) = t_audit d"
  "t_audit_sequence (delete_profiles p d) = t_audit_sequence d"
  "set (t_profiles (delete_profiles p d)) = {r \<in> set (t_profiles d). \<not> p r}"
  "set (t_connections (delete_profiles p d)) = {c \<in> set (t_connections d).
     (cr_account_id c, cr_profile_name c) \<notin> profile_key ` {r \<in> set (t_profiles d). p r}}"
  "set (t_offline_grants (delete_profiles p d)) = {g \<in> set (t_offline_grants d).
     (og_account_id g, og_profile g) \<notin> profile_key ` {r \<in> set (t_profiles d). p r}}"
  by (simp_all add: delete_profiles_def Let_def table_simps)

lemma delete_account_row_sel:
  "set (t_accounts (delete_account_row aid d)) = {a \<in> set (t_accounts d). ac_id a \<noteq> aid}"
  "set (t_account_roles (delete_account_row aid d)) = {r \<in> set (t_account_roles d). ar_account_id r \<noteq> aid}"
  "set (t_sessions (delete_account_row aid d)) = {s \<in> set (t_sessions d). se_account_id s \<noteq> aid}"
  "set (t_grants (delete_account_row aid d)) = {g \<in> set (t_grants d). gr_account_id g \<noteq> Some aid}"
  "set (t_secrets (delete_account_row aid d)) = {s \<in> set (t_secrets d). sr_account_id s \<noteq> aid}"
  "t_roles (delete_account_row aid d) = t_roles d"
  "t_audit (delete_account_row aid d) = t_audit d"
  "t_audit_sequence (delete_account_row aid d) = t_audit_sequence d"
  "t_profiles (delete_account_row aid d) = t_profiles (delete_profiles (\<lambda>p. pr_account_id p = aid) d)"
  "t_connections (delete_account_row aid d) = t_connections (delete_profiles (\<lambda>p. pr_account_id p = aid) d)"
  "t_offline_grants (delete_account_row aid d) = t_offline_grants (delete_profiles (\<lambda>p. pr_account_id p = aid) d)"
  by (simp_all add: delete_account_row_def table_simps delete_profiles_sel)

lemma delete_profiles_keys:
  "profile_keys (delete_profiles p d) = profile_key ` {r \<in> set (t_profiles d). \<not> p r}"
  by (simp add: profile_keys_def delete_profiles_sel)

lemma delete_profiles_ids:
  "account_ids (delete_profiles p d) = account_ids d" "role_ids (delete_profiles p d) = role_ids d"
  by (simp_all add: account_ids_def role_ids_def delete_profiles_sel)

lemma delete_profiles_refs:
  assumes "refs_ok d"
  shows "refs_ok (delete_profiles p d)"
  by (rule refs_okI)
    (use refs_okD [OF assms] in \<open>simp_all add: delete_profiles_sel delete_profiles_ids
      delete_profiles_keys image_diff_select profile_keys_def\<close>)

lemma delete_profiles_ok:
  assumes "db_ok d"
  shows "db_ok (delete_profiles p d)"
proof -
  have "keys_ok (delete_profiles p d)"
    using assms by (simp add: delete_profiles_def db_ok_def keys_ok_def Let_def table_simps)
  with assms show ?thesis by (simp add: db_ok_def delete_profiles_refs)
qed

lemma delete_account_row_ids:
  "account_ids (delete_account_row aid d) = account_ids d - {aid}"
  "role_ids (delete_account_row aid d) = role_ids d"
  "profile_keys (delete_account_row aid d) = {x \<in> profile_keys d. fst x \<noteq> aid}"
  by (simp_all add: account_ids_def role_ids_def profile_keys_def delete_account_row_sel
      delete_profiles_sel image_delete_key image_prefix)

lemma delete_account_row_refs:
  assumes "refs_ok d"
  shows "refs_ok (delete_account_row aid d)"
  by (rule refs_okI)
    (use refs_okD [OF assms] in \<open>auto simp: delete_account_row_sel delete_account_row_ids
      delete_profiles_sel image_prefix profile_keys_def [symmetric]\<close>)

lemma delete_account_row_ok:
  assumes "db_ok d"
  shows "db_ok (delete_account_row aid d)"
proof -
  let ?e = "delete_profiles (\<lambda>p. pr_account_id p = aid) d"
  have e: "db_ok ?e" using assms by (rule delete_profiles_ok)
  have "keys_ok (delete_account_row aid d)"
    using e assms by (simp add: delete_account_row_def db_ok_def keys_ok_def table_simps)
  with assms show ?thesis by (simp add: db_ok_def delete_account_row_refs)
qed

lemma delete_role_row_ok: "db_ok d \<Longrightarrow> delete_role_row name d = Inr d' \<Longrightarrow> db_ok d'"
  by (fastforce simp: delete_role_row_def db_defs list_ex_iff table_simps split: if_splits)

text \<open>An update that leaves keys and references alone keeps the database well formed.\<close>

lemma update_accounts_ok:
  assumes "db_ok d" and "\<And>r. ac_id (f r) = ac_id r" and "\<And>r. ac_email (f r) = ac_email r"
  shows "db_ok (d\<lparr>t_accounts := update_where p f (t_accounts d)\<rparr>)"
proof -
  have "ac_id ` set (update_where p f rows) = ac_id ` set rows" for rows
    by (metis assms(2) list.set_map map_update_where_same)
  with assms show ?thesis by (simp add: db_defs table_simps)
qed

lemma update_sessions_ok:
  assumes "db_ok d" and "\<And>r. se_id (f r) = se_id r" and "\<And>r. se_token_hash (f r) = se_token_hash r"
    and "\<And>r. se_account_id (f r) = se_account_id r"
  shows "db_ok (d\<lparr>t_sessions := update_where p f (t_sessions d)\<rparr>)"
  using assms by (auto simp: db_defs table_simps set_update_where)

lemma update_grants_ok:
  assumes "db_ok d" and "\<And>r. gr_id (f r) = gr_id r" and "\<And>r. gr_token_hash (f r) = gr_token_hash r"
    and "\<And>r. gr_account_id (f r) = gr_account_id r"
  shows "db_ok (d\<lparr>t_grants := update_where p f (t_grants d)\<rparr>)"
  using assms by (auto simp: db_defs table_simps set_update_where)

lemma update_roles_ok:
  assumes "db_ok d" and "\<And>r. ro_name (f r) = ro_name r"
  shows "db_ok (d\<lparr>t_roles := update_where p f (t_roles d)\<rparr>)"
proof -
  have "ro_name ` set (update_where p f rows) = ro_name ` set rows" for rows
    by (metis assms(2) list.set_map map_update_where_same)
  with assms show ?thesis by (simp add: db_defs table_simps)
qed

lemma update_profiles_ok:
  assumes "db_ok d" and "\<And>r. profile_key (f r) = profile_key r" and "\<And>r. pr_id (f r) = pr_id r"
  shows "db_ok (d\<lparr>t_profiles := update_where p f (t_profiles d)\<rparr>)"
proof -
  have keys: "profile_key ` set (update_where p f rows) = profile_key ` set rows" for rows
    by (metis assms(2) list.set_map map_update_where_same)
  have "pr_account_id (f r) = pr_account_id r" for r
    using assms(2) [of r] by (simp add: profile_key_def)
  then have "\<forall>r \<in> set (update_where p f (t_profiles d)). pr_account_id r \<in> account_ids d"
    using assms(1) by (auto simp: db_ok_def refs_ok_def set_update_where)
  with assms keys show ?thesis by (simp add: db_defs table_simps)
qed

lemma delete_sessions_ok: "db_ok d \<Longrightarrow> db_ok (d\<lparr>t_sessions := delete_where p (t_sessions d)\<rparr>)"
  by (auto simp: db_defs table_simps)

lemma delete_grants_ok: "db_ok d \<Longrightarrow> db_ok (d\<lparr>t_grants := delete_where p (t_grants d)\<rparr>)"
  by (auto simp: db_defs table_simps)

lemma delete_account_roles_ok:
  "db_ok d \<Longrightarrow> db_ok (d\<lparr>t_account_roles := delete_where p (t_account_roles d)\<rparr>)"
  by (auto simp: db_defs table_simps)

lemma delete_connections_ok: "db_ok d \<Longrightarrow> db_ok (d\<lparr>t_connections := delete_where p (t_connections d)\<rparr>)"
  by (auto simp: db_defs table_simps)

lemma delete_secrets_ok: "db_ok d \<Longrightarrow> db_ok (d\<lparr>t_secrets := delete_where p (t_secrets d)\<rparr>)"
  by (auto simp: db_defs table_simps)

text \<open>What the cascade of an account leaves: nothing that names it.\<close>

lemma delete_account_row_gone:
  assumes "db_ok d"
  shows "aid \<notin> account_ids (delete_account_row aid d)"
    and "\<forall>r \<in> set (t_account_roles (delete_account_row aid d)). ar_account_id r \<noteq> aid"
    and "\<forall>s \<in> set (t_sessions (delete_account_row aid d)). se_account_id s \<noteq> aid"
    and "\<forall>g \<in> set (t_grants (delete_account_row aid d)). gr_account_id g \<noteq> Some aid"
    and "\<forall>p \<in> set (t_profiles (delete_account_row aid d)). pr_account_id p \<noteq> aid"
    and "\<forall>c \<in> set (t_connections (delete_account_row aid d)). cr_account_id c \<noteq> aid"
    and "\<forall>s \<in> set (t_secrets (delete_account_row aid d)). sr_account_id s \<noteq> aid"
    and "\<forall>g \<in> set (t_offline_grants (delete_account_row aid d)). og_account_id g \<noteq> aid"
proof -
  show 1: "aid \<notin> account_ids (delete_account_row aid d)"
    by (auto simp: delete_account_row_def account_ids_def table_simps)
  have refs: "refs_ok (delete_account_row aid d)"
    using delete_account_row_ok [OF assms] by (simp add: db_ok_def)
  with 1 show "\<forall>r \<in> set (t_account_roles (delete_account_row aid d)). ar_account_id r \<noteq> aid"
    and "\<forall>s \<in> set (t_sessions (delete_account_row aid d)). se_account_id s \<noteq> aid"
    and "\<forall>g \<in> set (t_grants (delete_account_row aid d)). gr_account_id g \<noteq> Some aid"
    and "\<forall>s \<in> set (t_secrets (delete_account_row aid d)). sr_account_id s \<noteq> aid"
    by (auto simp: refs_ok_def)
  from 1 refs show 2: "\<forall>p \<in> set (t_profiles (delete_account_row aid d)). pr_account_id p \<noteq> aid"
    by (auto simp: refs_ok_def)
  with refs show "\<forall>c \<in> set (t_connections (delete_account_row aid d)). cr_account_id c \<noteq> aid"
    and "\<forall>g \<in> set (t_offline_grants (delete_account_row aid d)). og_account_id g \<noteq> aid"
    by (fastforce simp: refs_ok_def profile_keys_def profile_key_def)+
qed

end
