(* ===== verification/SessionStore.thy ===== *)
theory SessionStore
  imports Database "HOL-Library.Multiset"
begin

text \<open>
  \<^verbatim>\<open>SqlSessionStore\<close> and \<^verbatim>\<open>SqlGrantStore\<close> of \<^verbatim>\<open>src/src/keyring_api/accounts/sql_store.py\<close>:
  sessions, invisible from the instant they expire and capped per account in the transaction
  that adds one, and grants, redeemed by one conditional update. \<open>now\<close> is what the clock of
  the store returns.
\<close>

section \<open>Sessions\<close>

definition session_add :: "session \<Rightarrow> ('z, unit) dbtxn" where
  "session_add s d = (case insert_session s d of Inl e \<Rightarrow> Inl e | Inr d' \<Rightarrow> Inr ((), d'))"

definition session_get_by_token_hash :: "int \<Rightarrow> string \<Rightarrow> 'z db_scheme \<Rightarrow> session option" where
  "session_get_by_token_hash now h d =
     fetch_one (\<lambda>s. se_token_hash s = h \<and> se_expires_at s > now \<and> se_absolute_expires_at s > now)
       (t_sessions d)"

definition session_save :: "session \<Rightarrow> ('z, unit) dbtxn" where
  "session_save s d =
     Inr ((), d\<lparr>t_sessions := update_where (\<lambda>r. se_id r = se_id s)
       (\<lambda>r. r\<lparr>se_last_used_at := se_last_used_at s, se_expires_at := se_expires_at s,
              se_absolute_expires_at := se_absolute_expires_at s\<rparr>) (t_sessions d)\<rparr>)"

definition session_revoke :: "string \<Rightarrow> ('z, bool) dbtxn" where
  "session_revoke sid d =
     Inr (count_where (\<lambda>s. se_id s = sid) (t_sessions d) > 0,
          d\<lparr>t_sessions := delete_where (\<lambda>s. se_id s = sid) (t_sessions d)\<rparr>)"

text \<open>\<open>session_id IS NOT ?\<close>: against NULL every row qualifies.\<close>

definition session_revoke_all :: "string \<Rightarrow> string option \<Rightarrow> ('z, nat) dbtxn" where
  "session_revoke_all aid except_session_id d =
     (let p = (\<lambda>s. se_account_id s = aid \<and> Some (se_id s) \<noteq> except_session_id) in
      Inr (count_where p (t_sessions d), d\<lparr>t_sessions := delete_where p (t_sessions d)\<rparr>))"

definition session_count_for_account :: "int \<Rightarrow> string \<Rightarrow> 'z db_scheme \<Rightarrow> nat" where
  "session_count_for_account now aid d =
     count_where (\<lambda>s. se_account_id s = aid \<and> se_expires_at s > now \<and> se_absolute_expires_at s > now)
       (t_sessions d)"

definition oldest_first :: "session list \<Rightarrow> session list" where
  "oldest_first = sort_key (\<lambda>s. (se_created_at s, se_id s))"

definition session_drop_oldest :: "string \<Rightarrow> ('z, nat) dbtxn" where
  "session_drop_oldest aid d =
     (let mine = select_where (\<lambda>s. se_account_id s = aid) (t_sessions d);
          doomed = map se_id (take 1 (oldest_first mine));
          p = (\<lambda>s. se_id s \<in> set doomed)
      in Inr (count_where p (t_sessions d), d\<lparr>t_sessions := delete_where p (t_sessions d)\<rparr>))"

text \<open>\<open>ORDER BY created_at DESC, session_id DESC LIMIT -1 OFFSET cap\<close>.\<close>

definition session_overflow :: "string \<Rightarrow> nat \<Rightarrow> 'z db_scheme \<Rightarrow> string list" where
  "session_overflow aid cap d =
     map se_id (drop cap (rev (oldest_first (select_where (\<lambda>s. se_account_id s = aid) (t_sessions d)))))"

definition session_add_within_cap :: "session \<Rightarrow> nat \<Rightarrow> ('z, nat) dbtxn" where
  "session_add_within_cap s cap d =
     (case insert_session s d of
        Inl e \<Rightarrow> Inl e
      | Inr d' \<Rightarrow>
          (let p = (\<lambda>r. se_id r \<in> set (session_overflow (se_account_id s) cap d'))
           in Inr (count_where p (t_sessions d'),
                   d'\<lparr>t_sessions := delete_where p (t_sessions d')\<rparr>)))"

definition session_purge_expired :: "int \<Rightarrow> ('z, nat) dbtxn" where
  "session_purge_expired now d =
     (let p = (\<lambda>s. se_expires_at s \<le> now \<or> se_absolute_expires_at s \<le> now) in
      Inr (count_where p (t_sessions d), d\<lparr>t_sessions := delete_where p (t_sessions d)\<rparr>))"

section \<open>Grants\<close>

definition grant_add :: "grant \<Rightarrow> ('z, unit) dbtxn" where
  "grant_add g d = (case insert_grant g d of Inl e \<Rightarrow> Inl e | Inr d' \<Rightarrow> Inr ((), d'))"

definition grant_get_by_token_hash :: "string \<Rightarrow> 'z db_scheme \<Rightarrow> grant option" where
  "grant_get_by_token_hash h d = fetch_one (\<lambda>g. gr_token_hash g = h) (t_grants d)"

text \<open>\<open>UPDATE ... RETURNING\<close>: the rows updated, as they are after the update; the first is read.\<close>

definition grant_redeem :: "string \<Rightarrow> int \<Rightarrow> ('z, grant option) dbtxn" where
  "grant_redeem h now d =
     (let p = (\<lambda>g. gr_token_hash g = h \<and> gr_redeemed_at g = None \<and> \<not> gr_revoked g \<and> gr_expires_at g > now);
          f = (\<lambda>g. g\<lparr>gr_redeemed_at := Some now\<rparr>)
      in Inr (map_option f (fetch_one p (t_grants d)),
              d\<lparr>t_grants := update_where p f (t_grants d)\<rparr>))"

definition grant_revoke_all_for_account :: "string \<Rightarrow> grant_purpose \<Rightarrow> ('z, nat) dbtxn" where
  "grant_revoke_all_for_account aid purpose d =
     (let p = (\<lambda>g. gr_account_id g = Some aid \<and> gr_purpose g = purpose \<and> \<not> gr_revoked g) in
      Inr (count_where p (t_grants d),
           d\<lparr>t_grants := update_where p (\<lambda>g. g\<lparr>gr_revoked := True\<rparr>) (t_grants d)\<rparr>))"

definition grant_purge_expired :: "int \<Rightarrow> ('z, nat) dbtxn" where
  "grant_purge_expired now d =
     (let p = (\<lambda>g. gr_expires_at g \<le> now) in
      Inr (count_where p (t_grants d), d\<lparr>t_grants := delete_where p (t_grants d)\<rparr>))"

section \<open>Well-formedness\<close>

lemma session_add_ok: "db_ok d \<Longrightarrow> session_add s d = Inr (u, d') \<Longrightarrow> db_ok d'"
  by (auto simp: session_add_def split: sum.splits intro: insert_session_ok)

lemma session_save_ok: "db_ok d \<Longrightarrow> session_save s d = Inr (u, d') \<Longrightarrow> db_ok d'"
  by (auto simp: session_save_def intro!: update_sessions_ok)

lemma session_revoke_ok: "db_ok d \<Longrightarrow> session_revoke s d = Inr (u, d') \<Longrightarrow> db_ok d'"
  by (auto simp: session_revoke_def intro: delete_sessions_ok)

lemma session_revoke_all_ok: "db_ok d \<Longrightarrow> session_revoke_all a x d = Inr (u, d') \<Longrightarrow> db_ok d'"
  by (auto simp: session_revoke_all_def Let_def intro: delete_sessions_ok)

lemma session_drop_oldest_ok: "db_ok d \<Longrightarrow> session_drop_oldest a d = Inr (u, d') \<Longrightarrow> db_ok d'"
  by (auto simp: session_drop_oldest_def Let_def intro: delete_sessions_ok)

lemma session_add_within_cap_ok: "db_ok d \<Longrightarrow> session_add_within_cap s c d = Inr (u, d') \<Longrightarrow> db_ok d'"
  by (auto simp: session_add_within_cap_def Let_def split: sum.splits
      intro!: delete_sessions_ok dest: insert_session_ok)

lemma session_purge_expired_ok: "db_ok d \<Longrightarrow> session_purge_expired n d = Inr (u, d') \<Longrightarrow> db_ok d'"
  by (auto simp: session_purge_expired_def Let_def intro: delete_sessions_ok)

lemma grant_add_ok: "db_ok d \<Longrightarrow> grant_add g d = Inr (u, d') \<Longrightarrow> db_ok d'"
  by (auto simp: grant_add_def split: sum.splits intro: insert_grant_ok)

lemma grant_redeem_ok: "db_ok d \<Longrightarrow> grant_redeem h n d = Inr (u, d') \<Longrightarrow> db_ok d'"
  by (auto simp: grant_redeem_def Let_def intro!: update_grants_ok)

lemma grant_revoke_all_ok: "db_ok d \<Longrightarrow> grant_revoke_all_for_account a p d = Inr (u, d') \<Longrightarrow> db_ok d'"
  by (auto simp: grant_revoke_all_for_account_def Let_def intro!: update_grants_ok)

lemma grant_purge_expired_ok: "db_ok d \<Longrightarrow> grant_purge_expired n d = Inr (u, d') \<Longrightarrow> db_ok d'"
  by (auto simp: grant_purge_expired_def Let_def intro: delete_grants_ok)

section \<open>Sessions: what each operation does\<close>

lemma session_get_Some:
  assumes "db_ok d"
  shows "session_get_by_token_hash now h d = Some s \<longleftrightarrow>
     s \<in> set (t_sessions d) \<and> se_token_hash s = h \<and> \<not> is_expired s now"
proof -
  let ?live = "\<lambda>s. se_token_hash s = h \<and> se_expires_at s > now \<and> se_absolute_expires_at s > now"
  have dist: "distinct (map se_token_hash (t_sessions d))" using assms by (simp add: db_ok_def keys_ok_def)
  have "fetch_one ?live rows = Some s \<longleftrightarrow> s \<in> set rows \<and> ?live s"
    if "distinct (map se_token_hash rows)" for rows
    using that by (induction rows) (auto simp: table_simps image_iff)
  from this [OF dist] show ?thesis
    by (auto simp: session_get_by_token_hash_def is_expired_def)
qed

lemma session_get_None:
  "session_get_by_token_hash now h d = None \<longleftrightarrow>
     (\<forall>s \<in> set (t_sessions d). se_token_hash s = h \<longrightarrow> is_expired s now)"
  by (auto simp: session_get_by_token_hash_def table_simps is_expired_def)

lemma session_revoke_all_sessions:
  "session_revoke_all aid exc d = Inr (n, d') \<Longrightarrow>
     set (t_sessions d') = {s \<in> set (t_sessions d). se_account_id s \<noteq> aid \<or> Some (se_id s) = exc}"
  by (auto simp: session_revoke_all_def Let_def table_simps)

lemma session_revoke_sessions:
  "session_revoke sid d = Inr (b, d') \<Longrightarrow> set (t_sessions d') = {s \<in> set (t_sessions d). se_id s \<noteq> sid}"
  by (auto simp: session_revoke_def table_simps)

lemma session_purge_invisible:
  assumes "db_ok d" and "session_purge_expired t d = Inr (n, d')" and "t \<le> now"
  shows "session_get_by_token_hash now h d' = session_get_by_token_hash now h d"
proof -
  have d': "db_ok d'" using assms(1,2) by (rule session_purge_expired_ok)
  have rows: "set (t_sessions d') = {s \<in> set (t_sessions d). \<not> is_expired s t}"
    using assms(2) by (auto simp: session_purge_expired_def Let_def table_simps is_expired_def)
  have "session_get_by_token_hash now h d' = Some s \<longleftrightarrow> session_get_by_token_hash now h d = Some s" for s
    using assms(3) by (auto simp: session_get_Some [OF d'] session_get_Some [OF assms(1)] rows is_expired_def)
  then show ?thesis by (metis not_Some_eq)
qed

section \<open>The session cap\<close>

lemma filter_drop_keys:
  assumes "distinct (map k xs)"
  shows "filter (\<lambda>r. k r \<notin> k ` set (drop n xs)) xs = take n xs"
proof -
  have "distinct (map k (take n xs) @ map k (drop n xs))"
    by (metis append_take_drop_id map_append assms)
  then have "k ` set (take n xs) \<inter> k ` set (drop n xs) = {}" by (simp only: distinct_append set_map)
  then have "filter (\<lambda>r. k r \<notin> k ` set (drop n xs)) (take n xs) = take n xs"
    by (simp add: filter_id_conv) blast
  moreover have "filter (\<lambda>r. k r \<notin> k ` set (drop n xs)) (drop n xs) = []"
    by (auto simp: filter_empty_conv)
  ultimately have "filter (\<lambda>r. k r \<notin> k ` set (drop n xs)) (take n xs @ drop n xs) = take n xs"
    by (simp only: filter_append append_Nil2)
  then show ?thesis by simp
qed

lemma length_oldest_first [simp]: "length (oldest_first xs) = length xs"
  by (simp add: oldest_first_def)

lemma set_oldest_first [simp]: "set (oldest_first xs) = set xs"
  by (simp add: oldest_first_def)

lemma trim_sessions:
  fixes cap :: nat and mine :: "session list"
  assumes "distinct (map se_id mine)"
  defines "newest \<equiv> rev (oldest_first mine)"
  defines "kept \<equiv> filter (\<lambda>r. se_id r \<notin> se_id ` set (drop cap newest)) mine"
  shows "set kept = set (take cap newest)" and "length kept = min cap (length mine)"
proof -
  have perm: "mset newest = mset mine" by (simp add: newest_def oldest_first_def)
  have "mset (map se_id newest) = mset (map se_id mine)" using perm by simp
  then have dist: "distinct (map se_id newest)" using assms(1) by (metis mset_eq_imp_distinct_iff)
  have "mset kept = mset (filter (\<lambda>r. se_id r \<notin> se_id ` set (drop cap newest)) newest)"
    unfolding kept_def by (simp add: perm)
  also have "\<dots> = mset (take cap newest)" by (simp only: filter_drop_keys [OF dist])
  finally have eq: "mset kept = mset (take cap newest)" .
  then show "set kept = set (take cap newest)" by (rule mset_eq_setD)
  show "length kept = min cap (length mine)"
    using mset_eq_length [OF eq] mset_eq_length [OF perm] by simp
qed

lemma distinct_select: "distinct (map k rows) \<Longrightarrow> distinct (map k (select_where p rows))"
  by (simp add: select_where_def distinct_map_filter)

text \<open>After a login the account has at most \<open>cap\<close> sessions: the newest.\<close>

definition sessions_of :: "string \<Rightarrow> 'z db_scheme \<Rightarrow> session list" where
  "sessions_of aid d = select_where (\<lambda>s. se_account_id s = aid) (t_sessions d)"

lemma session_add_within_cap_Inr:
  assumes "db_ok d" and "session_add_within_cap s cap d = Inr (n, d')"
  defines "all \<equiv> sessions_of (se_account_id s) d @ [s]"
  shows "length (sessions_of (se_account_id s) d') = min cap (length all)"
    and "set (sessions_of (se_account_id s) d') = set (take cap (rev (oldest_first all)))"
    and "aid \<noteq> se_account_id s \<Longrightarrow> sessions_of aid d' = sessions_of aid d"
proof -
  from assms(2) obtain d1 where ins: "insert_session s d = Inr d1"
    and d': "d' = d1\<lparr>t_sessions := delete_where
       (\<lambda>r. se_id r \<in> set (session_overflow (se_account_id s) cap d1)) (t_sessions d1)\<rparr>"
    by (auto simp: session_add_within_cap_def Let_def split: sum.splits)
  have rows: "t_sessions d1 = t_sessions d @ [s]"
    using ins by (auto simp: insert_session_def split: if_splits)
  then have mine: "sessions_of (se_account_id s) d1 = all"
    by (simp add: sessions_of_def all_def table_simps) (simp add: select_where_def)
  have d1: "distinct (map se_id (t_sessions d1))"
    using insert_session_ok [OF assms(1) ins] by (simp add: db_ok_def keys_ok_def)
  then have dist: "distinct (map se_id all)"
    using distinct_select mine unfolding sessions_of_def by metis
  have over: "set (session_overflow (se_account_id s) cap d1) = se_id ` set (drop cap (rev (oldest_first all)))"
    using mine by (simp add: session_overflow_def sessions_of_def)
  have kept: "sessions_of aid d' = filter (\<lambda>r. se_id r \<notin> se_id ` set (drop cap (rev (oldest_first all)))) (sessions_of aid d1)" for aid
    by (simp add: d' over sessions_of_def select_where_def delete_where_def conj_commute)
  show "length (sessions_of (se_account_id s) d') = min cap (length all)"
    and "set (sessions_of (se_account_id s) d') = set (take cap (rev (oldest_first all)))"
    unfolding kept mine using trim_sessions [OF dist] by simp_all
  assume other: "aid \<noteq> se_account_id s"
  have "se_id r \<notin> se_id ` set (drop cap (rev (oldest_first all)))" if "r \<in> set (sessions_of aid d1)" for r
  proof
    assume "se_id r \<in> se_id ` set (drop cap (rev (oldest_first all)))"
    then obtain q where q: "q \<in> set all" "se_id q = se_id r"
      by (metis (no_types, lifting) imageE in_set_dropD set_oldest_first set_rev)
    then have "q = r"
      using d1 that mine by (auto simp: distinct_map sessions_of_def table_simps dest: inj_onD)
    with q(1) that other mine show False by (auto simp: sessions_of_def table_simps)
  qed
  then have "sessions_of aid d' = sessions_of aid d1" unfolding kept by (simp add: filter_id_conv)
  also have "\<dots> = sessions_of aid d" using other by (simp add: sessions_of_def rows select_where_def)
  finally show "sessions_of aid d' = sessions_of aid d" .
qed

section \<open>The session port\<close>

text \<open>
  \<^verbatim>\<open>SessionStore\<close> of \<^verbatim>\<open>accounts/store.py\<close>, over an abstract view: the set of stored sessions.
  A lookup sees exactly the unexpired ones; each change is a change of that set.
\<close>

locale session_store =
  fixes ok :: "'s \<Rightarrow> bool"
    and view :: "'s \<Rightarrow> session set"
    and live :: "int \<Rightarrow> string \<Rightarrow> 's \<Rightarrow> session option"
    and add_within_cap :: "session \<Rightarrow> nat \<Rightarrow> (error, 's, nat) txn"
    and save :: "session \<Rightarrow> (error, 's, unit) txn"
    and revoke :: "string \<Rightarrow> (error, 's, bool) txn"
    and revoke_all :: "string \<Rightarrow> string option \<Rightarrow> (error, 's, nat) txn"
    and purge :: "int \<Rightarrow> (error, 's, nat) txn"
  assumes live_view: "ok s \<Longrightarrow> live now h s = Some x \<longleftrightarrow>
      x \<in> view s \<and> se_token_hash x = h \<and> \<not> is_expired x now"
    and add_view: "ok s \<Longrightarrow> add_within_cap x cap s = Inr (n, t) \<Longrightarrow> ok t \<and> view t \<subseteq> insert x (view s)"
    and save_view: "ok s \<Longrightarrow> save y s = Inr (u, t) \<Longrightarrow> ok t \<and> view t =
      (\<lambda>x. if se_id x = se_id y
           then x\<lparr>se_last_used_at := se_last_used_at y, se_expires_at := se_expires_at y,
                  se_absolute_expires_at := se_absolute_expires_at y\<rparr> else x) ` view s"
    and revoke_view: "ok s \<Longrightarrow> revoke sid s = Inr (b, t) \<Longrightarrow> ok t \<and> view t = {x \<in> view s. se_id x \<noteq> sid}"
    and revoke_all_view: "ok s \<Longrightarrow> revoke_all a exc s = Inr (n, t) \<Longrightarrow>
      ok t \<and> view t = {x \<in> view s. se_account_id x \<noteq> a \<or> Some (se_id x) = exc}"
    and purge_view: "ok s \<Longrightarrow> purge now s = Inr (n, t) \<Longrightarrow> ok t \<and> view t = {x \<in> view s. \<not> is_expired x now}"
begin

lemma live_not_expired: "ok s \<Longrightarrow> live now h s = Some x \<Longrightarrow> \<not> is_expired x now"
  by (simp add: live_view)

text \<open>An account signed out everywhere has no live session, whatever the instant.\<close>

lemma revoke_all_live:
  assumes "ok s" and "revoke_all a None s = Inr (n, t)" and "live now h t = Some x"
  shows "se_account_id x \<noteq> a"
proof -
  have "ok t" "view t = {x \<in> view s. se_account_id x \<noteq> a \<or> Some (se_id x) = None}"
    using revoke_all_view [OF assms(1,2)] by auto
  with assms(3) show ?thesis by (simp add: live_view)
qed

lemma revoke_all_except_live:
  assumes "ok s" and "revoke_all a (Some sid) s = Inr (n, t)"
  shows "live now h t = Some x \<longleftrightarrow> live now h s = Some x \<and> (se_account_id x \<noteq> a \<or> se_id x = sid)"
proof -
  have "ok t" "view t = {x \<in> view s. se_account_id x \<noteq> a \<or> Some (se_id x) = Some sid}"
    using revoke_all_view [OF assms] by auto
  then show ?thesis using assms(1) by (auto simp: live_view)
qed

lemma save_accounts:
  assumes "ok s" and "save y s = Inr (u, t)"
  shows "se_account_id ` view t = se_account_id ` view s"
proof -
  have "view t = (\<lambda>x. if se_id x = se_id y
           then x\<lparr>se_last_used_at := se_last_used_at y, se_expires_at := se_expires_at y,
                  se_absolute_expires_at := se_absolute_expires_at y\<rparr> else x) ` view s"
    using save_view [OF assms] by blast
  then show ?thesis by (simp only: image_image) (auto intro!: image_cong)
qed

lemma revoke_live:
  assumes "ok s" and "revoke sid s = Inr (b, t)" and "live now h t = Some x"
  shows "se_id x \<noteq> sid"
proof -
  have "ok t" "view t = {x \<in> view s. se_id x \<noteq> sid}"
    using revoke_view [OF assms(1,2)] by auto
  with assms(3) show ?thesis by (simp add: live_view)
qed

end

lemma session_save_sessions:
  "session_save y d = Inr (u, d') \<Longrightarrow> set (t_sessions d') =
     (\<lambda>x. if se_id x = se_id y
           then x\<lparr>se_last_used_at := se_last_used_at y, se_expires_at := se_expires_at y,
                  se_absolute_expires_at := se_absolute_expires_at y\<rparr> else x) ` set (t_sessions d)"
  by (auto simp: session_save_def set_update_where)

lemma session_add_within_cap_sessions:
  "session_add_within_cap s cap d = Inr (n, d') \<Longrightarrow> set (t_sessions d') \<subseteq> insert s (set (t_sessions d))"
  by (auto simp: session_add_within_cap_def Let_def insert_session_def table_simps split: sum.splits if_splits)

lemma session_purge_sessions:
  "session_purge_expired now d = Inr (n, d') \<Longrightarrow>
     set (t_sessions d') = {s \<in> set (t_sessions d). \<not> is_expired s now}"
  by (auto simp: session_purge_expired_def Let_def table_simps is_expired_def)

interpretation ss: session_store db_ok "\<lambda>d. set (t_sessions d)" session_get_by_token_hash
  session_add_within_cap session_save session_revoke session_revoke_all session_purge_expired
proof (unfold_locales, goal_cases)
  case 1 then show ?case by (rule session_get_Some)
next
  case 2 then show ?case using session_add_within_cap_ok session_add_within_cap_sessions by blast
next
  case 3 then show ?case using session_save_ok session_save_sessions by blast
next
  case 4 then show ?case using session_revoke_ok session_revoke_sessions by blast
next
  case 5 then show ?case using session_revoke_all_ok session_revoke_all_sessions by blast
next
  case 6 then show ?case using session_purge_expired_ok session_purge_sessions by blast
qed

text \<open>
  The single use of a grant: sequences of calls to \<open>SqlGrantStore\<close>, the port they satisfy,
  and the proof that whatever is called in whatever order, one token is redeemed at most
  once unless a grant with the same token hash is added again.
\<close>

datatype grant_call =
    AddGrant grant
  | Redeem string int
  | RevokeAll string grant_purpose
  | PurgeGrants int

text \<open>One call through a port; the answer of \<open>redeem\<close> is kept.\<close>

fun grant_exec ::
  "(grant \<Rightarrow> (error, 's, unit) txn) \<Rightarrow> (string \<Rightarrow> int \<Rightarrow> (error, 's, grant option) txn) \<Rightarrow>
   (string \<Rightarrow> grant_purpose \<Rightarrow> (error, 's, nat) txn) \<Rightarrow> (int \<Rightarrow> (error, 's, nat) txn) \<Rightarrow>
   grant_call \<Rightarrow> (error, 's, grant option) op" where
  "grant_exec add redeem revoke purge (AddGrant g) = andthen (transact (add g)) (\<lambda>_. ret None)"
| "grant_exec add redeem revoke purge (Redeem h now) = transact (redeem h now)"
| "grant_exec add redeem revoke purge (RevokeAll a p) = andthen (transact (revoke a p)) (\<lambda>_. ret None)"
| "grant_exec add redeem revoke purge (PurgeGrants now) = andthen (transact (purge now)) (\<lambda>_. ret None)"

text \<open>How many calls of a run redeemed the token with hash \<open>h\<close>.\<close>

fun redemptions :: "(grant_call \<Rightarrow> (error, 's, grant option) op) \<Rightarrow> string \<Rightarrow> grant_call list \<Rightarrow> 's \<Rightarrow> nat" where
  "redemptions exec h [] s = 0"
| "redemptions exec h (c # cs) s =
     (case exec c s of (r, t) \<Rightarrow>
        (if (\<exists>now. c = Redeem h now) \<and> (\<exists>g. r = Inr (Some g)) then 1 else 0) + redemptions exec h cs t)"

locale grant_store =
  fixes add :: "grant \<Rightarrow> (error, 's, unit) txn"
    and redeem :: "string \<Rightarrow> int \<Rightarrow> (error, 's, grant option) txn"
    and revoke :: "string \<Rightarrow> grant_purpose \<Rightarrow> (error, 's, nat) txn"
    and purge :: "int \<Rightarrow> (error, 's, nat) txn"
    and ok :: "'s \<Rightarrow> bool"
    and usable :: "string \<Rightarrow> 's \<Rightarrow> bool"
  assumes add_usable: "ok s \<Longrightarrow> add g s = Inr (u, t) \<Longrightarrow>
      ok t \<and> (usable h t \<longrightarrow> usable h s \<or> gr_token_hash g = h)"
    and redeem_usable: "ok s \<Longrightarrow> redeem i now s = Inr (r, t) \<Longrightarrow> ok t \<and> (usable h t \<longrightarrow> usable h s)"
    and redeem_spends: "ok s \<Longrightarrow> redeem h now s = Inr (Some g, t) \<Longrightarrow> usable h s \<and> \<not> usable h t"
    and revoke_usable: "ok s \<Longrightarrow> revoke a p s = Inr (n, t) \<Longrightarrow> ok t \<and> (usable h t \<longrightarrow> usable h s)"
    and purge_usable: "ok s \<Longrightarrow> purge now s = Inr (n, t) \<Longrightarrow> ok t \<and> (usable h t \<longrightarrow> usable h s)"
begin

abbreviation exec :: "grant_call \<Rightarrow> (error, 's, grant option) op" where
  "exec \<equiv> grant_exec add redeem revoke purge"

lemma exec_usable:
  assumes "ok s" and "exec c s = (r, t)" and "\<And>g. c = AddGrant g \<Longrightarrow> gr_token_hash g \<noteq> h"
  shows "ok t \<and> (usable h t \<longrightarrow> usable h s)"
proof (cases c)
  case (AddGrant g)
  then show ?thesis using assms add_usable [of s g _ t h]
    by (auto simp: txn_simps split: sum.splits)
next
  case (Redeem i now)
  then show ?thesis using assms redeem_usable [of s i now _ t h]
    by (auto simp: txn_simps split: sum.splits)
next
  case (RevokeAll a p)
  then show ?thesis using assms revoke_usable [of s a p _ t h]
    by (auto simp: txn_simps split: sum.splits)
next
  case (PurgeGrants now)
  then show ?thesis using assms purge_usable [of s now _ t h]
    by (auto simp: txn_simps split: sum.splits)
qed

lemma exec_redeem:
  assumes "ok s" and "exec (Redeem h now) s = (Inr (Some g), t)"
  shows "usable h s" and "\<not> usable h t"
  using assms redeem_spends [of s h now g t] by (auto simp: op_elims)

lemma redemptions_bound:
  assumes "ok s" and "\<And>g. AddGrant g \<in> set cs \<Longrightarrow> gr_token_hash g \<noteq> h"
  shows "redemptions exec h cs s \<le> (if usable h s then 1 else 0)"
  using assms
proof (induction cs arbitrary: s)
  case (Cons c cs)
  obtain r t where rt: "exec c s = (r, t)" by fastforce
  have t: "ok t \<and> (usable h t \<longrightarrow> usable h s)"
    using exec_usable [OF Cons.prems(1) rt, of h] Cons.prems(2) by auto
  have rest: "redemptions exec h cs t \<le> (if usable h t then 1 else 0)"
    using Cons.IH t Cons.prems(2) by simp
  show ?case
  proof (cases "(\<exists>now. c = Redeem h now) \<and> (\<exists>g. r = Inr (Some g))")
    case True
    then have "usable h s \<and> \<not> usable h t" using exec_redeem Cons.prems(1) rt by blast
    with rest rt show ?thesis by simp
  next
    case False
    with rest rt t show ?thesis by (auto split: if_splits)
  qed
qed simp

end

section \<open>The SQL store provides it\<close>

definition grant_usable :: "string \<Rightarrow> 'z db_scheme \<Rightarrow> bool" where
  "grant_usable h d \<longleftrightarrow> (\<exists>g \<in> set (t_grants d). gr_token_hash g = h \<and> gr_redeemed_at g = None \<and> \<not> gr_revoked g)"

lemma grant_redeem_Inr:
  assumes "grant_redeem h now d = Inr (r, d')"
  shows "r = map_option (\<lambda>g. redeemed g now)
           (fetch_one (\<lambda>g. gr_token_hash g = h \<and> is_redeemable g now) (t_grants d))"
    and "d' = d\<lparr>t_grants := update_where (\<lambda>g. gr_token_hash g = h \<and> is_redeemable g now)
           (\<lambda>g. redeemed g now) (t_grants d)\<rparr>"
  using assms by (simp_all add: grant_redeem_def Let_def is_redeemable_def redeemed_def conj_assoc)

text \<open>The grant that comes back is the one stored under the token, marked as used.\<close>

lemma grant_redeem_Some:
  assumes "grant_redeem h now d = Inr (Some g, d')"
  shows "\<exists>x \<in> set (t_grants d). gr_token_hash x = h \<and> is_redeemable x now \<and> g = redeemed x now"
proof -
  obtain x where x: "fetch_one (\<lambda>g. gr_token_hash g = h \<and> is_redeemable g now) (t_grants d) = Some x"
    and g: "g = redeemed x now"
    using grant_redeem_Inr(1) [OF assms, symmetric] unfolding map_option_eq_Some by blast
  have "x \<in> set (t_grants d)" "gr_token_hash x = h \<and> is_redeemable x now"
    using fetch_one_SomeD [OF x] by simp_all
  with g show ?thesis by (intro bexI [of _ x]) simp_all
qed

interpretation gs: grant_store grant_add grant_redeem grant_revoke_all_for_account grant_purge_expired
  db_ok grant_usable
proof (unfold_locales, goal_cases)
  case (1 s g u t h)
  then have "t_grants t = t_grants s @ [g]"
    by (auto simp: grant_add_def insert_grant_def split: sum.splits if_splits)
  with 1 show ?case using grant_add_ok by (auto simp: grant_usable_def)
next
  case (2 s i now r t h)
  then have "db_ok t" by (rule grant_redeem_ok)
  moreover have "grant_usable h t \<longrightarrow> grant_usable h s"
    using grant_redeem_Inr(2) [OF 2(2)] by (auto simp: grant_usable_def set_update_where redeemed_def split: if_splits)
  ultimately show ?case ..
next
  case (3 s h now g t)
  note r = grant_redeem_Inr [OF 3(2)]
  obtain x where x: "x \<in> set (t_grants s)" "gr_token_hash x = h" "is_redeemable x now"
    using grant_redeem_Some [OF 3(2)] by blast
  have "distinct (map gr_token_hash (t_grants s))" using 3(1) by (simp add: db_ok_def keys_ok_def)
  then have "inj_on gr_token_hash (set (t_grants s))" by (simp add: distinct_map)
  then have uniq: "y = x" if "y \<in> set (t_grants s)" "gr_token_hash y = h" for y
    using that x(1,2) by (simp add: inj_on_def)
  have "gr_redeemed_at g' \<noteq> None" if "g' \<in> set (t_grants t)" "gr_token_hash g' = h" for g'
  proof -
    from that(1) have "g' \<in> set (update_where (\<lambda>g. gr_token_hash g = h \<and> is_redeemable g now)
      (\<lambda>g. redeemed g now) (t_grants s))" by (simp add: r(2))
    then show ?thesis
    proof (cases rule: update_whereE)
      case (hit y) then show ?thesis by (simp add: redeemed_def)
    next
      case miss then show ?thesis using uniq [OF miss(1) that(2)] x(2,3) by simp
    qed
  qed
  then have "\<not> grant_usable h t" by (auto simp: grant_usable_def)
  moreover have "grant_usable h s" using x by (auto simp: grant_usable_def is_redeemable_def)
  ultimately show ?case by simp
next
  case (4 s a p n t h)
  then have "db_ok t" by (rule grant_revoke_all_ok)
  moreover have "grant_usable h t \<longrightarrow> grant_usable h s"
    using 4(2) by (auto simp: grant_usable_def grant_revoke_all_for_account_def Let_def set_update_where split: if_splits)
  ultimately show ?case ..
next
  case (5 s now n t h)
  then have "db_ok t" by (rule grant_purge_expired_ok)
  moreover have "grant_usable h t \<longrightarrow> grant_usable h s"
    using 5(2) by (auto simp: grant_usable_def grant_purge_expired_def Let_def table_simps)
  ultimately show ?case ..
qed

lemma grant_revoke_all_unusable:
  assumes "grant_revoke_all_for_account aid purpose d = Inr (n, d')"
    and "g \<in> set (t_grants d')" and "gr_account_id g = Some aid" and "gr_purpose g = purpose"
  shows "\<not> is_redeemable g now"
proof -
  have "g \<in> set (update_where (\<lambda>g. gr_account_id g = Some aid \<and> gr_purpose g = purpose \<and> \<not> gr_revoked g)
      (\<lambda>g. g\<lparr>gr_revoked := True\<rparr>) (t_grants d))"
    using assms(1,2) by (auto simp: grant_revoke_all_for_account_def Let_def)
  then show ?thesis
    by (cases rule: update_whereE) (use assms(3,4) in \<open>auto simp: is_redeemable_def\<close>)
qed

end
