(* ===== verification/AccountStore.thy ===== *)
theory AccountStore
  imports Database
begin

text \<open>
  \<^verbatim>\<open>SqlAccountStore\<close> of \<^verbatim>\<open>src/src/keyring_api/accounts/sql_store.py\<close>: accounts as rows with
  their roles in a side table, one transaction per operation. The rules proved here are the
  ones the module promises: an address belongs to one account, roles keep their order with
  duplicates collapsed, a deletion cascades, and no role change and no deletion leaves the
  deployment without an owner. The port \<open>account_store\<close> states what the services rely on and
  is interpreted on these transactions.
\<close>

section \<open>Rows\<close>

definition row_of_account :: "account \<Rightarrow> account_row" where
  "row_of_account a = \<lparr>ac_id = ac_id a, ac_email = ac_email a, ac_password_hash = ac_password_hash a,
     ac_created_at = ac_created_at a, ac_updated_at = ac_updated_at a, ac_status = ac_status a,
     ac_failed_attempts = ac_failed_attempts a, ac_locked_until = ac_locked_until a\<rparr>"

definition account_of :: "account_row \<Rightarrow> string list \<Rightarrow> account" where
  "account_of row roles = \<lparr>ac_id = ac_id row, ac_email = ac_email row,
     ac_password_hash = ac_password_hash row, ac_created_at = ac_created_at row,
     ac_updated_at = ac_updated_at row, ac_status = ac_status row,
     ac_failed_attempts = ac_failed_attempts row, ac_locked_until = ac_locked_until row,
     ac_roles = roles\<rparr>"

definition roles_of :: "string \<Rightarrow> 'z db_scheme \<Rightarrow> string list" where
  "roles_of aid d =
     map ar_role_name (sort_key ar_position
       (select_where (\<lambda>r. ar_account_id r = aid) (t_account_roles d)))"

definition read_many :: "account_row list \<Rightarrow> 'z db_scheme \<Rightarrow> account list" where
  "read_many rows d = map (\<lambda>row. account_of row (roles_of (ac_id row) d)) rows"

definition read_one :: "(account_row \<Rightarrow> bool) \<Rightarrow> 'z db_scheme \<Rightarrow> account option" where
  "read_one p d =
     (case read_many (select_where p (t_accounts d)) d of [] \<Rightarrow> None | a # _ \<Rightarrow> Some a)"

fun insert_roles :: "string \<Rightarrow> nat \<Rightarrow> string list \<Rightarrow> 'z db_scheme \<Rightarrow> 'z db_scheme result" where
  "insert_roles aid i [] d = Inr d"
| "insert_roles aid i (r # rs) d =
     (case insert_account_role \<lparr>ar_account_id = aid, ar_role_name = r, ar_position = i\<rparr> d of
        Inl e \<Rightarrow> Inl e
      | Inr d' \<Rightarrow> insert_roles aid (i + 1) rs d')"

definition write_roles :: "string \<Rightarrow> string list \<Rightarrow> 'z db_scheme \<Rightarrow> 'z db_scheme result" where
  "write_roles aid roles d =
     (case insert_roles aid 0 (dedup roles)
             (d\<lparr>t_account_roles := delete_where (\<lambda>r. ar_account_id r = aid) (t_account_roles d)\<rparr>) of
        Inl e \<Rightarrow> Inl (RoleNotFoundError [''one of those roles no longer exists''])
      | Inr d' \<Rightarrow> Inr d')"

definition LAST_OWNER :: message where
  "LAST_OWNER = [''this is the last owner; appoint another owner first'']"

definition NO_SUCH_ACCOUNT :: message where
  "NO_SUCH_ACCOUNT = [''no account with that id'']"

definition check_owner_survives ::
  "string \<Rightarrow> bool \<Rightarrow> string list \<Rightarrow> 'z db_scheme \<Rightarrow> unit result" where
  "check_owner_survives aid keeping_owner roles d =
     (if keeping_owner \<or> OWNER \<notin> set roles then Inr ()
      else if count_where (\<lambda>r. ar_role_name r = OWNER \<and> ar_account_id r \<noteq> aid) (t_account_roles d) = 0
        then Inl (LastOwnerError LAST_OWNER)
      else Inr ())"

section \<open>Operations\<close>

definition account_add :: "account \<Rightarrow> ('z, unit) dbtxn" where
  "account_add a d =
     (if list_ex (\<lambda>r. ac_email r = ac_email a) (t_accounts d)
      then Inl (AccountExistsError [''an account already exists for '', py_repr (ac_email a)])
      else case insert_account (row_of_account a) d of
        Inl e \<Rightarrow> Inl e
      | Inr d' \<Rightarrow> (case write_roles (ac_id a) (ac_roles a) d' of
                     Inl e \<Rightarrow> Inl e
                   | Inr d'' \<Rightarrow> Inr ((), d'')))"

definition account_get :: "string \<Rightarrow> 'z db_scheme \<Rightarrow> account option" where
  "account_get aid d = read_one (\<lambda>r. ac_id r = aid) d"

definition account_get_by_email :: "string \<Rightarrow> 'z db_scheme \<Rightarrow> account option" where
  "account_get_by_email email d = read_one (\<lambda>r. ac_email r = email) d"

text \<open>The assignments of the UPDATE statement; \<open>created_at\<close> is not one of them.\<close>

definition saved_row :: "account \<Rightarrow> account_row \<Rightarrow> account_row" where
  "saved_row a r = r\<lparr>ac_email := ac_email a, ac_password_hash := ac_password_hash a,
     ac_updated_at := ac_updated_at a, ac_status := ac_status a,
     ac_failed_attempts := ac_failed_attempts a, ac_locked_until := ac_locked_until a\<rparr>"

definition account_save :: "account \<Rightarrow> ('z, unit) dbtxn" where
  "account_save a d =
     (if list_ex (\<lambda>r. ac_id r = ac_id a) (t_accounts d)
         \<and> list_ex (\<lambda>r. ac_email r = ac_email a \<and> ac_id r \<noteq> ac_id a) (t_accounts d)
      then Inl IntegrityError
      else case write_roles (ac_id a) (ac_roles a)
                  (d\<lparr>t_accounts := update_where (\<lambda>r. ac_id r = ac_id a) (saved_row a) (t_accounts d)\<rparr>) of
        Inl e \<Rightarrow> Inl e
      | Inr d' \<Rightarrow> Inr ((), d'))"

definition account_delete :: "string \<Rightarrow> ('z, bool) dbtxn" where
  "account_delete aid d =
     (if \<not> list_ex (\<lambda>r. ac_id r = aid) (t_accounts d) then Inr (False, d)
      else case check_owner_survives aid False (roles_of aid d) d of
        Inl e \<Rightarrow> Inl e
      | Inr _ \<Rightarrow> Inr (True, delete_account_row aid d))"

definition account_count :: "'z db_scheme \<Rightarrow> nat" where
  "account_count d = length (t_accounts d)"

definition account_list_all :: "'z db_scheme \<Rightarrow> account list" where
  "account_list_all d =
     read_many (sort_key (\<lambda>r. (ac_created_at r, ac_id r)) (t_accounts d)) d"

definition count_holding :: "string \<Rightarrow> 'z db_scheme \<Rightarrow> nat" where
  "count_holding role d = count_where (\<lambda>r. ar_role_name r = role) (t_account_roles d)"

definition account_set_roles :: "string \<Rightarrow> string list \<Rightarrow> int \<Rightarrow> ('z, account) dbtxn" where
  "account_set_roles aid roles now d =
     (case account_get aid d of
        None \<Rightarrow> Inl (AccountNotFoundError NO_SUCH_ACCOUNT)
      | Some current \<Rightarrow>
          (case check_owner_survives aid (OWNER \<in> set roles) (ac_roles current) d of
             Inl e \<Rightarrow> Inl e
           | Inr _ \<Rightarrow>
               (case write_roles aid roles
                       (d\<lparr>t_accounts := update_where (\<lambda>r. ac_id r = aid)
                            (\<lambda>r. r\<lparr>ac_updated_at := now\<rparr>) (t_accounts d)\<rparr>) of
                  Inl e \<Rightarrow> Inl e
                | Inr d' \<Rightarrow> Inr (with_roles current roles now, d'))))"

section \<open>What a write of roles does\<close>

fun role_rows :: "string \<Rightarrow> nat \<Rightarrow> string list \<Rightarrow> account_role list" where
  "role_rows aid i [] = []"
| "role_rows aid i (r # rs) =
     \<lparr>ar_account_id = aid, ar_role_name = r, ar_position = i\<rparr> # role_rows aid (i + 1) rs"

lemma role_rows_account: "x \<in> set (role_rows aid i rs) \<Longrightarrow> ar_account_id x = aid"
  by (induction aid i rs rule: role_rows.induct) auto

lemma map_role_rows [simp]: "map ar_role_name (role_rows aid i rs) = rs"
  by (induction aid i rs rule: role_rows.induct) auto

lemma role_rows_names: "ar_role_name ` set (role_rows aid i rs) = set rs"
  by (metis list.set_map map_role_rows)

lemma role_rows_position: "x \<in> set (role_rows aid i rs) \<Longrightarrow> i \<le> ar_position x"
  by (induction aid i rs rule: role_rows.induct) force+

lemma sorted_role_rows: "sorted (map ar_position (role_rows aid i rs))"
  by (induction aid i rs rule: role_rows.induct) (auto dest: role_rows_position)

lemma select_role_rows:
  "select_where (\<lambda>r. ar_account_id r = b) (role_rows aid i rs) = (if b = aid then role_rows aid i rs else [])"
  by (induction aid i rs rule: role_rows.induct) (auto simp: select_where_def)

lemma insert_roles_Inr:
  assumes "insert_roles aid i rs d = Inr d'"
  shows "d' = d\<lparr>t_account_roles := t_account_roles d @ role_rows aid i rs\<rparr>
    \<and> set rs \<subseteq> role_ids d \<and> (rs \<noteq> [] \<longrightarrow> aid \<in> account_ids d)"
  using assms
proof (induction aid i rs d rule: insert_roles.induct)
  case (2 aid i r rs d)
  let ?row = "\<lparr>ar_account_id = aid, ar_role_name = r, ar_position = i\<rparr>"
  from 2(2) obtain d1 where ins: "insert_account_role ?row d = Inr d1"
    and rec: "insert_roles aid (i + 1) rs d1 = Inr d'"
    by (auto split: sum.splits)
  from ins have d1: "d1 = d\<lparr>t_account_roles := t_account_roles d @ [?row]\<rparr>"
    and "aid \<in> account_ids d" "r \<in> role_ids d"
    by (auto simp: insert_account_role_def constraint_simps account_ids_def role_ids_def split: if_splits)
  with 2(1) [OF ins rec] show ?case by (simp add: account_ids_def role_ids_def)
qed simp

lemma insert_roles_ok: "db_ok d \<Longrightarrow> insert_roles aid i rs d = Inr d' \<Longrightarrow> db_ok d'"
  by (induction aid i rs d rule: insert_roles.induct)
    (auto split: sum.splits dest: insert_account_role_ok)

lemma write_roles_ok: "db_ok d \<Longrightarrow> write_roles aid roles d = Inr d' \<Longrightarrow> db_ok d'"
  by (auto simp: write_roles_def split: sum.splits intro: insert_roles_ok delete_account_roles_ok)

lemma write_roles_Inr:
  assumes "write_roles aid roles d = Inr d'"
  shows "d' = d\<lparr>t_account_roles := delete_where (\<lambda>r. ar_account_id r = aid) (t_account_roles d)
           @ role_rows aid 0 (dedup roles)\<rparr>"
    and "set roles \<subseteq> role_ids d" and "roles \<noteq> [] \<Longrightarrow> aid \<in> account_ids d"
proof -
  have "dedup roles = [] \<longleftrightarrow> roles = []" by (cases roles) simp_all
  then show "d' = d\<lparr>t_account_roles := delete_where (\<lambda>r. ar_account_id r = aid) (t_account_roles d)
           @ role_rows aid 0 (dedup roles)\<rparr>"
    and "set roles \<subseteq> role_ids d" and "roles \<noteq> [] \<Longrightarrow> aid \<in> account_ids d"
    using assms
    by (auto simp: write_roles_def account_ids_def role_ids_def split: sum.splits dest!: insert_roles_Inr)
qed

lemma write_roles_Inl:
  "write_roles aid roles d = Inl e \<Longrightarrow> e = RoleNotFoundError [''one of those roles no longer exists'']"
  by (auto simp: write_roles_def split: sum.splits)

lemma roles_of_write_roles:
  assumes "write_roles aid roles d = Inr d'"
  shows "roles_of b d' = (if b = aid then dedup roles else roles_of b d)"
proof -
  have none: "select_where (\<lambda>r. ar_account_id r = aid)
      (delete_where (\<lambda>r. ar_account_id r = aid) rows) = []" for rows
    by (simp add: select_where_def delete_where_def filter_empty_conv)
  have other: "select_where (\<lambda>r. ar_account_id r = b)
      (delete_where (\<lambda>r. ar_account_id r = aid) rows) = select_where (\<lambda>r. ar_account_id r = b) rows"
    if "b \<noteq> aid" for rows
    using that by (intro select_delete_other) auto
  show ?thesis
    unfolding write_roles_Inr(1) [OF assms] roles_of_def
    by (auto simp: table_simps none other select_role_rows sort_key_id_if_sorted sorted_role_rows)
qed

section \<open>Reading back\<close>

lemma account_of_simps [simp]:
  "ac_id (account_of r rs) = ac_id r" "ac_email (account_of r rs) = ac_email r"
  "ac_roles (account_of r rs) = rs" "ac_status (account_of r rs) = ac_status r"
  "ac_password_hash (account_of r rs) = ac_password_hash r"
  "ac_failed_attempts (account_of r rs) = ac_failed_attempts r"
  "ac_locked_until (account_of r rs) = ac_locked_until r"
  "ac_created_at (account_of r rs) = ac_created_at r" "ac_updated_at (account_of r rs) = ac_updated_at r"
  by (simp_all add: account_of_def)

lemma row_of_account_simps [simp]:
  "ac_id (row_of_account a) = ac_id a" "ac_email (row_of_account a) = ac_email a"
  "account_of (row_of_account a) rs = a\<lparr>ac_roles := rs\<rparr>"
  by (simp_all add: row_of_account_def account_of_def)

lemma saved_row_simps [simp]:
  "ac_id (saved_row a r) = ac_id r" "ac_email (saved_row a r) = ac_email a"
  "ac_created_at (saved_row a r) = ac_created_at r"
  by (simp_all add: saved_row_def)

lemma read_one_fetch:
  "read_one p d = map_option (\<lambda>r. account_of r (roles_of (ac_id r) d)) (fetch_one p (t_accounts d))"
proof -
  have "read_many (select_where p rows) d = [] \<longleftrightarrow> fetch_one p rows = None" for rows
    by (auto simp: read_many_def select_where_def table_simps filter_empty_conv)
  moreover have "(case read_many (select_where p rows) d of [] \<Rightarrow> None | a # _ \<Rightarrow> Some a)
      = map_option (\<lambda>r. account_of r (roles_of (ac_id r) d)) (fetch_one p rows)" for rows
    by (induction rows) (auto simp: read_many_def select_where_def table_simps)
  ultimately show ?thesis by (simp add: read_one_def)
qed

lemma account_get_Some:
  assumes "db_ok d"
  shows "account_get aid d = Some a \<longleftrightarrow>
     (\<exists>r \<in> set (t_accounts d). ac_id r = aid \<and> a = account_of r (roles_of aid d))"
proof -
  have "distinct (map ac_id (t_accounts d))" using assms by (simp add: db_ok_def keys_ok_def)
  from fetch_one_key_iff [OF this, of aid] show ?thesis
    by (auto simp: account_get_def read_one_fetch)
qed

lemma account_get_id: "account_get aid d = Some a \<Longrightarrow> ac_id a = aid"
  by (auto simp: account_get_def read_one_fetch dest: fetch_one_SomeD)

lemma account_get_roles: "account_get aid d = Some a \<Longrightarrow> ac_roles a = roles_of aid d"
  by (auto simp: account_get_def read_one_fetch dest!: fetch_one_SomeD)

lemma account_get_None: "account_get aid d = None \<longleftrightarrow> aid \<notin> account_ids d"
  by (auto simp: account_get_def read_one_fetch table_simps account_ids_def)

lemma account_get_by_email_get:
  assumes "db_ok d" and "account_get_by_email email d = Some a"
  shows "account_get (ac_id a) d = Some a \<and> ac_email a = email"
proof -
  from assms(2) obtain r where "r \<in> set (t_accounts d)" "ac_email r = email"
    "a = account_of r (roles_of (ac_id r) d)"
    by (auto simp: account_get_by_email_def read_one_fetch dest: fetch_one_SomeD)
  with assms(1) show ?thesis by (auto simp: account_get_Some)
qed

section \<open>What each operation does\<close>

lemma roles_of_unchanged:
  "t_account_roles d' = t_account_roles d \<Longrightarrow> roles_of b d' = roles_of b d"
  by (simp add: roles_of_def)

lemma roles_of_no_account:
  assumes "db_ok d" and "aid \<notin> account_ids d"
  shows "roles_of aid d = []"
proof -
  have "\<forall>r \<in> set (t_account_roles d). ar_account_id r \<noteq> aid"
    using refs_okD(1) [of d] assms by (auto simp: db_ok_def)
  then have "select_where (\<lambda>r. ar_account_id r = aid) (t_account_roles d) = []"
    by (simp add: select_where_def filter_empty_conv)
  then show ?thesis by (simp add: roles_of_def)
qed

lemma account_add_Inr:
  assumes "db_ok d" and "account_add a d = Inr (u, d')"
  shows "db_ok d'"
    and "account_get b d' = (if b = ac_id a then Some (a\<lparr>ac_roles := dedup (ac_roles a)\<rparr>) else account_get b d)"
    and "account_get (ac_id a) d = None"
    and "account_get_by_email (ac_email a) d = None"
    and "set (ac_roles a) \<subseteq> role_ids d"
    and "t_accounts d' = t_accounts d @ [row_of_account a]"
proof -
  from assms(2) obtain d1 where d1: "insert_account (row_of_account a) d = Inr d1"
    and d': "write_roles (ac_id a) (ac_roles a) d1 = Inr d'"
    and free: "\<not> list_ex (\<lambda>r. ac_email r = ac_email a) (t_accounts d)"
    by (auto simp: account_add_def split: if_splits sum.splits)
  show "db_ok d'"
    using assms(1) insert_account_ok [OF _ d1] write_roles_ok [OF _ d'] by blast
  have eq1: "d1 = d\<lparr>t_accounts := t_accounts d @ [row_of_account a]\<rparr>"
    and fresh: "ac_id a \<notin> account_ids d"
    using d1 by (auto simp: insert_account_def constraint_simps account_ids_def split: if_splits)
  show "account_get (ac_id a) d = None"
    using fresh by (simp add: account_get_None)
  show "account_get_by_email (ac_email a) d = None"
    using free by (auto simp: account_get_by_email_def read_one_fetch table_simps list_ex_iff)
  show "set (ac_roles a) \<subseteq> role_ids d"
    using write_roles_Inr(2) [OF d'] by (simp add: eq1 role_ids_def)
  show "t_accounts d' = t_accounts d @ [row_of_account a]"
    by (simp add: write_roles_Inr(1) [OF d'] eq1)
  then have get: "account_get b d' = map_option (\<lambda>r. account_of r (roles_of (ac_id r) d'))
      (fetch_one (\<lambda>r. ac_id r = b) (t_accounts d @ [row_of_account a]))"
    by (simp add: account_get_def read_one_fetch)
  have roles: "roles_of b d' = (if b = ac_id a then dedup (ac_roles a) else roles_of b d)" for b
    using roles_of_write_roles [OF d'] by (simp add: eq1 roles_of_unchanged [of "_\<lparr>t_accounts := _\<rparr>" d])
  have none: "fetch_one (\<lambda>r. ac_id r = ac_id a) (t_accounts d) = None"
    using fresh by (auto simp: table_simps account_ids_def image_iff)
  show "account_get b d' = (if b = ac_id a then Some (a\<lparr>ac_roles := dedup (ac_roles a)\<rparr>) else account_get b d)"
    unfolding get
    by (auto simp: table_simps none roles account_get_def read_one_fetch
        split: option.splits dest!: fetch_one_SomeD)
qed

lemma distinct_emails_saved:
  assumes "distinct (map ac_id rows)" and "distinct (map ac_email rows)"
    and "\<And>r. r \<in> set rows \<Longrightarrow> ac_id a \<in> ac_id ` set rows \<Longrightarrow> ac_email r = ac_email a \<Longrightarrow> ac_id r = ac_id a"
  shows "distinct (map ac_email (update_where (\<lambda>r. ac_id r = ac_id a) (saved_row a) rows))"
proof (cases "ac_id a \<in> ac_id ` set rows")
  case False
  then have "update_where (\<lambda>r. ac_id r = ac_id a) (saved_row a) rows = rows"
    by (auto simp: update_where_def image_iff intro!: map_idI)
  with assms(2) show ?thesis by simp
next
  case True
  with assms(3) have e: "ac_id r = ac_id a" if "r \<in> set rows" "ac_email r = ac_email a" for r
    using that by blast
  from assms(1,2) e show ?thesis
  proof (induction rows)
    case (Cons x rows)
    have rest: "ac_email r = ac_email a \<or> r \<in> set rows"
      if "r \<in> set (update_where (\<lambda>r. ac_id r = ac_id a) (saved_row a) rows)" for r
      using that by (auto simp: set_update_where split: if_splits)
    have same: "update_where (\<lambda>r. ac_id r = ac_id a) (saved_row a) rows = rows" if "ac_id x = ac_id a"
      using that Cons.prems(1) by (force simp: update_where_def intro!: map_idI)
    show ?case
    proof (cases "ac_id x = ac_id a")
      case True
      with Cons.prems same show ?thesis by (auto simp: update_where_def image_iff)
    next
      case False
      then have "ac_email x \<noteq> ac_email a" using Cons.prems(3) [of x] by auto
      moreover have "distinct (map ac_email (update_where (\<lambda>r. ac_id r = ac_id a) (saved_row a) rows))"
        using Cons by simp
      ultimately show ?thesis
        using False rest Cons.prems(2) by (fastforce simp: update_where_def)
    qed
  qed (simp add: update_where_def)
qed

lemma account_save_Inr:
  assumes "db_ok d" and "account_save a d = Inr (u, d')"
  shows "db_ok d'"
    and "account_get b d' =
      (if b = ac_id a
       then map_option (\<lambda>old. a\<lparr>ac_created_at := ac_created_at old, ac_roles := dedup (ac_roles a)\<rparr>) (account_get b d)
       else account_get b d)"
    and "set (ac_roles a) \<subseteq> role_ids d"
proof -
  let ?d1 = "d\<lparr>t_accounts := update_where (\<lambda>r. ac_id r = ac_id a) (saved_row a) (t_accounts d)\<rparr>"
  from assms(2) have d': "write_roles (ac_id a) (ac_roles a) ?d1 = Inr d'"
    and free: "ac_id a \<in> account_ids d \<Longrightarrow>
      \<not> list_ex (\<lambda>r. ac_email r = ac_email a \<and> ac_id r \<noteq> ac_id a) (t_accounts d)"
    by (auto simp: account_save_def list_ex_iff account_ids_def split: if_splits sum.splits)
  show roles_exist: "set (ac_roles a) \<subseteq> role_ids d"
    using write_roles_Inr(2) [OF d'] by (simp add: role_ids_def)
  have ids: "map ac_id (update_where (\<lambda>r. ac_id r = ac_id a) (saved_row a) rows) = map ac_id rows" for rows
    by (simp add: table_simps)
  have "db_ok ?d1"
  proof -
    have "distinct (map ac_email (t_accounts ?d1))"
    proof -
      have "distinct (map ac_id (t_accounts d))" "distinct (map ac_email (t_accounts d))"
        using assms(1) by (simp_all add: db_ok_def keys_ok_def)
      moreover have "ac_id r = ac_id a"
        if "r \<in> set (t_accounts d)" "ac_id a \<in> ac_id ` set (t_accounts d)" "ac_email r = ac_email a" for r
        using free that unfolding account_ids_def list_ex_iff by blast
      ultimately have "distinct (map ac_email (update_where (\<lambda>r. ac_id r = ac_id a) (saved_row a) (t_accounts d)))"
        by (rule distinct_emails_saved)
      then show ?thesis by simp
    qed
    then have "keys_ok ?d1"
      using assms(1) by (simp add: db_ok_def keys_ok_def ids)
    moreover have "map ac_id (t_accounts ?d1) = map ac_id (t_accounts d)"
      by (simp add: ids)
    then have "account_ids ?d1 = account_ids d" by (metis account_ids_def list.set_map)
    then have "refs_ok ?d1"
      using assms(1) by (simp add: db_ok_def refs_ok_def role_ids_def profile_keys_def)
    ultimately show ?thesis by (simp add: db_ok_def)
  qed
  then show "db_ok d'" using write_roles_ok [OF _ d'] by blast
  have rows: "t_accounts d' = t_accounts ?d1" by (simp add: write_roles_Inr(1) [OF d'])
  have roles: "roles_of b d' = (if b = ac_id a then dedup (ac_roles a) else roles_of b d)" for b
    using roles_of_write_roles [OF d', of b] by (simp add: roles_of_unchanged [of ?d1 d])
  have "account_of (saved_row a r) rs = a\<lparr>ac_created_at := ac_created_at r, ac_roles := rs\<rparr>"
    if "ac_id r = ac_id a" for r rs
    using that by (simp add: account_of_def saved_row_def)
  then show "account_get b d' =
      (if b = ac_id a
       then map_option (\<lambda>old. a\<lparr>ac_created_at := ac_created_at old, ac_roles := dedup (ac_roles a)\<rparr>) (account_get b d)
       else account_get b d)"
    by (auto simp: account_get_def read_one_fetch rows fetch_key_update roles option.map_comp
        split: option.splits dest!: fetch_one_SomeD intro!: option.map_cong)
qed

lemma select_delete_roles:
  "select_where (\<lambda>r. ar_account_id r = b) (delete_where (\<lambda>r. ar_account_id r = aid) rows)
   = (if b = aid then [] else select_where (\<lambda>r. ar_account_id r = b) rows)"
  by (induction rows) (auto simp: select_where_def delete_where_def)

lemma account_get_delete_row:
  "account_get b (delete_account_row aid d) = (if b = aid then None else account_get b d)"
  by (auto simp: account_get_def read_one_fetch delete_account_row_def fetch_key_delete roles_of_def
      select_delete_roles split: option.splits dest!: fetch_one_SomeD intro!: option.map_cong)

lemma account_delete_Inr:
  assumes "db_ok d" and "account_delete aid d = Inr (existed, d')"
  shows "db_ok d'"
    and "account_get b d' = (if b = aid then None else account_get b d)"
    and "existed \<longleftrightarrow> account_get aid d \<noteq> None"
    and "existed \<Longrightarrow> d' = delete_account_row aid d"
    and "\<not> existed \<Longrightarrow> d' = d"
proof -
  have "existed \<and> aid \<in> account_ids d \<and> d' = delete_account_row aid d
      \<or> \<not> existed \<and> aid \<notin> account_ids d \<and> d' = d"
    using assms(2)
    by (auto simp: account_delete_def list_ex_iff account_ids_def image_iff split: if_splits sum.splits)
  then show "db_ok d'" and "account_get b d' = (if b = aid then None else account_get b d)"
    and "existed \<longleftrightarrow> account_get aid d \<noteq> None"
    and "existed \<Longrightarrow> d' = delete_account_row aid d" and "\<not> existed \<Longrightarrow> d' = d"
    using assms(1) by (auto simp: delete_account_row_ok account_get_delete_row account_get_None
        delete_account_row_ids)
qed

lemma account_set_roles_Inr:
  assumes "db_ok d" and "account_set_roles aid roles now d = Inr (a, d')"
  shows "db_ok d'"
    and "account_get b d' =
      (if b = aid
       then map_option (\<lambda>old. old\<lparr>ac_updated_at := now, ac_roles := dedup roles\<rparr>) (account_get b d)
       else account_get b d)"
    and "\<exists>old. account_get aid d = Some old \<and> a = with_roles old roles now"
    and "set roles \<subseteq> role_ids d"
proof -
  let ?f = "\<lambda>r. r\<lparr>ac_updated_at := now\<rparr> :: account_row"
  let ?d1 = "d\<lparr>t_accounts := update_where (\<lambda>r. ac_id r = aid) ?f (t_accounts d)\<rparr>"
  from assms(2) obtain old where old: "account_get aid d = Some old"
    and d': "write_roles aid roles ?d1 = Inr d'" and a: "a = with_roles old roles now"
    by (auto simp: account_set_roles_def split: option.splits sum.splits)
  show "\<exists>old. account_get aid d = Some old \<and> a = with_roles old roles now"
    using old a by blast
  have "db_ok ?d1" using assms(1) by (rule update_accounts_ok) simp_all
  then show "db_ok d'" using write_roles_ok [OF _ d'] by blast
  show "set roles \<subseteq> role_ids d"
    using write_roles_Inr(2) [OF d'] by (simp add: role_ids_def)
  have rows: "t_accounts d' = t_accounts ?d1" by (simp add: write_roles_Inr(1) [OF d'])
  have roles: "roles_of b d' = (if b = aid then dedup roles else roles_of b d)" for b
    using roles_of_write_roles [OF d', of b] by (simp add: roles_of_unchanged [of ?d1 d])
  have "account_of (?f r) rs = (account_of r rs')\<lparr>ac_updated_at := now, ac_roles := rs\<rparr>" for r rs rs'
    by (simp add: account_of_def)
  then show "account_get b d' =
      (if b = aid
       then map_option (\<lambda>old. old\<lparr>ac_updated_at := now, ac_roles := dedup roles\<rparr>) (account_get b d)
       else account_get b d)"
    by (auto simp: account_get_def read_one_fetch rows fetch_key_update roles option.map_comp
        split: option.splits dest!: fetch_one_SomeD intro!: option.map_cong)
qed

section \<open>Holders of a role\<close>

definition holds :: "string \<Rightarrow> string \<Rightarrow> 'z db_scheme \<Rightarrow> bool" where
  "holds role aid d \<longleftrightarrow> (\<exists>a. account_get aid d = Some a \<and> role \<in> set (ac_roles a))"

lemma set_roles_of: "role \<in> set (roles_of aid d) \<longleftrightarrow>
    (\<exists>r \<in> set (t_account_roles d). ar_account_id r = aid \<and> ar_role_name r = role)"
  by (auto simp: roles_of_def table_simps)

text \<open>A write of existing roles to an existing account succeeds.\<close>

lemma insert_roles_succeeds:
  assumes "set rs \<subseteq> role_ids d" and "aid \<in> account_ids d" and "distinct rs"
    and "\<And>x. x \<in> set (t_account_roles d) \<Longrightarrow> ar_account_id x = aid \<Longrightarrow> ar_role_name x \<notin> set rs"
  shows "\<exists>d'. insert_roles aid i rs d = Inr d'"
  using assms
proof (induction aid i rs d rule: insert_roles.induct)
  case (2 aid i r rs d)
  let ?row = "\<lparr>ar_account_id = aid, ar_role_name = r, ar_position = i\<rparr>"
  let ?d1 = "d\<lparr>t_account_roles := t_account_roles d @ [?row]\<rparr>"
  have "role_key ?row \<notin> role_key ` set (t_account_roles d)"
    using 2(5) by (force simp: role_key_def)
  moreover have "aid \<in> ac_id ` set (t_accounts d)" "r \<in> ro_name ` set (t_roles d)"
    using 2(2,3) by (simp_all add: account_ids_def role_ids_def)
  ultimately have ins: "insert_account_role ?row d = Inr ?d1"
    by (simp add: insert_account_role_def constraint_simps)
  have "\<exists>d'. insert_roles aid (i + 1) rs ?d1 = Inr d'"
  proof (rule 2(1) [OF ins])
    show "set rs \<subseteq> role_ids ?d1" "aid \<in> account_ids ?d1" "distinct rs"
      using 2(2-4) by (simp_all add: role_ids_def account_ids_def)
    show "ar_role_name x \<notin> set rs" if "x \<in> set (t_account_roles ?d1)" "ar_account_id x = aid" for x
    proof (cases "x = ?row")
      case True with 2(4) show ?thesis by simp
    next
      case False
      then have "x \<in> set (t_account_roles d)" using that(1) by simp
      with 2(5) that(2) show ?thesis by simp
    qed
  qed
  then show ?case by (simp add: ins)
qed simp

lemma write_roles_succeeds:
  assumes "set roles \<subseteq> role_ids d" and "aid \<in> account_ids d"
  shows "\<exists>d'. write_roles aid roles d = Inr d'"
proof -
  let ?d1 = "d\<lparr>t_account_roles := delete_where (\<lambda>r. ar_account_id r = aid) (t_account_roles d)\<rparr>"
  have "\<exists>d'. insert_roles aid 0 (dedup roles) ?d1 = Inr d'"
    by (rule insert_roles_succeeds)
      (use assms in \<open>auto simp: role_ids_def account_ids_def table_simps\<close>)
  then show ?thesis by (auto simp: write_roles_def)
qed

lemma roles_of_exist: "db_ok d \<Longrightarrow> set (roles_of aid d) \<subseteq> role_ids d"
  using refs_okD(1) [of d] by (auto simp: set_roles_of db_ok_def)

text \<open>A record read and written back with its address and roles untouched is always stored.\<close>

lemma account_save_succeeds:
  assumes "db_ok d" and "account_get (ac_id a) d = Some old" and "ac_email a = ac_email old"
    and "ac_roles a = ac_roles old"
  shows "\<exists>d'. account_save a d = Inr ((), d')"
proof -
  let ?d1 = "d\<lparr>t_accounts := update_where (\<lambda>r. ac_id r = ac_id a) (saved_row a) (t_accounts d)\<rparr>"
  from assms(1,2) obtain r where r: "r \<in> set (t_accounts d)" "ac_id r = ac_id a" "ac_email r = ac_email old"
    by (auto simp: account_get_Some)
  have "inj_on ac_email (set (t_accounts d))"
    using assms(1) by (simp add: db_ok_def keys_ok_def distinct_map)
  then have "\<not> list_ex (\<lambda>x. ac_email x = ac_email a \<and> ac_id x \<noteq> ac_id a) (t_accounts d)"
    unfolding list_ex_iff using r assms(3) by (metis inj_onD)
  moreover have "map ac_id (t_accounts ?d1) = map ac_id (t_accounts d)" by (simp add: table_simps)
  then have "account_ids ?d1 = account_ids d" by (metis account_ids_def list.set_map)
  moreover have "ac_id a \<in> account_ids d" using assms(2) account_get_None [of "ac_id a" d] by auto
  moreover have "set (ac_roles a) \<subseteq> role_ids ?d1"
    using roles_of_exist [OF assms(1)] account_get_roles [OF assms(2)] assms(4) by (simp add: role_ids_def)
  ultimately show ?thesis
    using write_roles_succeeds [of "ac_roles a" ?d1 "ac_id a"] by (auto simp: account_save_def)
qed

lemma holds_row:
  assumes "db_ok d"
  shows "holds role aid d \<longleftrightarrow> (\<exists>r \<in> set (t_account_roles d). ar_account_id r = aid \<and> ar_role_name r = role)"
proof -
  have "aid \<in> account_ids d" if "r \<in> set (t_account_roles d)" "ar_account_id r = aid" for r
    using refs_okD(1) [of d r] assms that by (auto simp: db_ok_def)
  then show ?thesis
    using account_get_None [of aid d] account_get_roles [of aid d]
    by (auto simp: holds_def simp flip: set_roles_of) (metis not_None_eq set_roles_of)
qed

lemma count_holding_0:
  "db_ok d \<Longrightarrow> count_holding role d = 0 \<longleftrightarrow> (\<forall>aid. \<not> holds role aid d)"
  by (auto simp: count_holding_def table_simps holds_row)

lemma check_owner_survives_Inr:
  assumes "db_ok d"
  shows "check_owner_survives aid keeping roles d = Inr u \<longleftrightarrow>
     keeping \<or> OWNER \<notin> set roles \<or> (\<exists>b. b \<noteq> aid \<and> holds OWNER b d)"
proof -
  have "0 < count_where (\<lambda>r. ar_role_name r = OWNER \<and> ar_account_id r \<noteq> aid) (t_account_roles d)
      \<longleftrightarrow> (\<exists>b. b \<noteq> aid \<and> holds OWNER b d)"
    unfolding count_where_pos holds_row [OF assms] by blast
  then show ?thesis by (auto simp: check_owner_survives_def)
qed

section \<open>The port\<close>

text \<open>
  \<^verbatim>\<open>AccountStore\<close> of \<^verbatim>\<open>accounts/store.py\<close>: what the services may rely on, whatever the adapter.
  The laws are the lookup after each change and the guard of the two operations that can
  take an owner away; the lemmas are what a client gets from them.
\<close>

locale account_store =
  fixes ok :: "'s \<Rightarrow> bool"
    and get :: "string \<Rightarrow> 's \<Rightarrow> account option"
    and add :: "account \<Rightarrow> (error, 's, unit) txn"
    and save :: "account \<Rightarrow> (error, 's, unit) txn"
    and delete :: "string \<Rightarrow> (error, 's, bool) txn"
    and set_roles :: "string \<Rightarrow> string list \<Rightarrow> int \<Rightarrow> (error, 's, account) txn"
  assumes get_id: "get i s = Some a \<Longrightarrow> ac_id a = i"
    and add_get: "ok s \<Longrightarrow> add a s = Inr (u, t) \<Longrightarrow>
      ok t \<and> get (ac_id a) s = None
      \<and> get i t = (if i = ac_id a then Some (a\<lparr>ac_roles := dedup (ac_roles a)\<rparr>) else get i s)"
    and save_get: "ok s \<Longrightarrow> save a s = Inr (u, t) \<Longrightarrow>
      ok t \<and> get i t = (if i = ac_id a
        then map_option (\<lambda>old. a\<lparr>ac_created_at := ac_created_at old, ac_roles := dedup (ac_roles a)\<rparr>) (get i s)
        else get i s)"
    and delete_get: "ok s \<Longrightarrow> delete j s = Inr (b, t) \<Longrightarrow>
      ok t \<and> get i t = (if i = j then None else get i s)"
    and set_roles_get: "ok s \<Longrightarrow> set_roles j roles now s = Inr (a, t) \<Longrightarrow>
      ok t \<and> get i t = (if i = j
        then map_option (\<lambda>old. old\<lparr>ac_updated_at := now, ac_roles := dedup roles\<rparr>) (get i s)
        else get i s)"
    and delete_guard: "ok s \<Longrightarrow> delete j s = Inr (b, t) \<Longrightarrow> get j s = Some a \<Longrightarrow>
      OWNER \<in> set (ac_roles a) \<Longrightarrow> \<exists>i c. i \<noteq> j \<and> get i s = Some c \<and> OWNER \<in> set (ac_roles c)"
    and set_roles_guard: "ok s \<Longrightarrow> set_roles j roles now s = Inr (r, t) \<Longrightarrow> get j s = Some a \<Longrightarrow>
      OWNER \<in> set (ac_roles a) \<Longrightarrow> OWNER \<notin> set roles \<Longrightarrow>
      \<exists>i c. i \<noteq> j \<and> get i s = Some c \<and> OWNER \<in> set (ac_roles c)"
begin

definition owned :: "'s \<Rightarrow> bool" where
  "owned s \<longleftrightarrow> (\<exists>i a. get i s = Some a \<and> OWNER \<in> set (ac_roles a))"

lemma ownedI: "get i s = Some a \<Longrightarrow> OWNER \<in> set (ac_roles a) \<Longrightarrow> owned s"
  by (auto simp: owned_def)

lemma add_owned:
  assumes "ok s" and "owned s" and "add a s = Inr (u, t)"
  shows "owned t"
proof -
  from assms(2) obtain i b where i: "get i s = Some b" "OWNER \<in> set (ac_roles b)"
    by (auto simp: owned_def)
  have none: "get (ac_id a) s = None"
    and new: "get i t = (if i = ac_id a then Some (a\<lparr>ac_roles := dedup (ac_roles a)\<rparr>) else get i s)"
    using add_get [OF assms(1,3)] by blast+
  have "i \<noteq> ac_id a" using none i(1) by (metis option.distinct(1))
  then have "get i t = Some b" using i(1) new by presburger
  then show ?thesis using i(2) by (rule ownedI)
qed

lemma delete_owned:
  assumes "ok s" and "owned s" and "delete j s = Inr (b, t)"
  shows "owned t"
proof -
  from assms(2) obtain i a where i: "get i s = Some a" "OWNER \<in> set (ac_roles a)"
    by (auto simp: owned_def)
  obtain k c where k: "k \<noteq> j" "get k s = Some c" "OWNER \<in> set (ac_roles c)"
  proof (cases "i = j")
    case True
    with i delete_guard [OF assms(1,3), of a] that show ?thesis by blast
  next
    case False
    with i that show ?thesis by blast
  qed
  then have "get k t = Some c" using delete_get [OF assms(1,3), of k] by simp
  then show ?thesis using k(3) by (rule ownedI)
qed

lemma set_roles_owned:
  assumes "ok s" and "owned s" and "set_roles j roles now s = Inr (r, t)"
  shows "owned t"
proof -
  from assms(2) obtain i a where i: "get i s = Some a" "OWNER \<in> set (ac_roles a)"
    by (auto simp: owned_def)
  show ?thesis
  proof (cases "i = j \<and> OWNER \<notin> set roles")
    case True
    then obtain k c where k: "k \<noteq> j" "get k s = Some c" "OWNER \<in> set (ac_roles c)"
      using i set_roles_guard [OF assms(1,3), of a] by blast
    then have "get k t = Some c" using set_roles_get [OF assms(1,3), of k] by simp
    then show ?thesis using k(3) by (rule ownedI)
  next
    case False
    obtain c where "get i t = Some c" "OWNER \<in> set (ac_roles c)"
      using False i set_roles_get [OF assms(1,3), of i] by (cases "i = j") simp_all
    then show ?thesis by (rule ownedI)
  qed
qed

text \<open>A record read and written back with its roles untouched takes no role from anyone.\<close>

lemma save_fresh_roles:
  assumes "ok s" and "get (ac_id a) s = Some old" and "ac_roles a = ac_roles old"
    and "save a s = Inr (u, t)" and "get i t = Some x"
  shows "\<exists>y. get i s = Some y \<and> set (ac_roles x) = set (ac_roles y)"
  using assms save_get [OF assms(1,4), of i] by (auto split: if_splits)

lemma save_fresh_owned:
  assumes "ok s" and "owned s" and "get (ac_id a) s = Some old" and "ac_roles a = ac_roles old"
    and "save a s = Inr (u, t)"
  shows "owned t"
proof -
  from assms(2) obtain i b where i: "get i s = Some b" "OWNER \<in> set (ac_roles b)"
    by (auto simp: owned_def)
  obtain c where "get i t = Some c" "OWNER \<in> set (ac_roles c)"
    using i assms(3,4) save_get [OF assms(1,5), of i] by (cases "i = ac_id a") simp_all
  then show ?thesis by (rule ownedI)
qed

end

interpretation acc: account_store db_ok account_get account_add account_save account_delete account_set_roles
proof (unfold_locales, goal_cases)
  case (1 i s a) then show ?case by (rule account_get_id)
next
  case (2 s a u t i) then show ?case using account_add_Inr(1-3) by blast
next
  case (3 s a u t i) then show ?case using account_save_Inr(1,2) by blast
next
  case (4 s j b t i) then show ?case using account_delete_Inr(1,2) by blast
next
  case (5 s j roles now a t i) then show ?case using account_set_roles_Inr(1,2) by blast
next
  case (6 s j b t a)
  then have "OWNER \<in> set (roles_of j s)" "check_owner_survives j False (roles_of j s) s = Inr ()"
    by (auto simp: account_delete_def account_get_roles list_ex_iff account_get_def read_one_fetch table_simps
        split: if_splits sum.splits dest!: fetch_one_SomeD)
  then show ?case using 6(1) by (auto simp: check_owner_survives_Inr holds_def)
next
  case (7 s j roles now r t a)
  then have "check_owner_survives j (OWNER \<in> set roles) (ac_roles a) s = Inr ()"
    by (auto simp: account_set_roles_def split: sum.splits)
  with 7 show ?case by (auto simp: check_owner_survives_Inr holds_def)
qed

lemma owned_holds: "acc.owned d \<longleftrightarrow> (\<exists>aid. holds OWNER aid d)"
  by (auto simp: acc.owned_def holds_def)

end
