(* ===== verification/RoleStore.thy ===== *)
theory RoleStore
  imports AccountStore
begin

text \<open>
  \<^verbatim>\<open>src/src/keyring_api/accounts/sql_roles.py\<close>: roles as rows, the built-in ones seeded at
  startup. The column that holds the permissions as sorted JSON is modelled as the set it
  encodes.
\<close>

section \<open>Seeding\<close>

text \<open>
  \<open>INSERT ... ON CONFLICT (name) DO UPDATE\<close>: a new row is built in and has no timestamps; an
  existing row keeps its \<open>builtin\<close> flag and its timestamps.
\<close>

definition upsert_builtin :: "role \<Rightarrow> 'z db_scheme \<Rightarrow> 'z db_scheme" where
  "upsert_builtin role d =
     (if list_ex (\<lambda>r. ro_name r = ro_name role) (t_roles d)
      then d\<lparr>t_roles := update_where (\<lambda>r. ro_name r = ro_name role)
             (\<lambda>r. r\<lparr>ro_description := ro_description role, ro_permissions := ro_permissions role\<rparr>) (t_roles d)\<rparr>
      else d\<lparr>t_roles := t_roles d @ [\<lparr>ro_name = ro_name role, ro_permissions = ro_permissions role,
             ro_description = ro_description role, ro_builtin = True, ro_created_at = None,
             ro_updated_at = None\<rparr>]\<rparr>)"

fun seed_roles :: "string list \<Rightarrow> 'z db_scheme \<Rightarrow> 'z db_scheme result" where
  "seed_roles [] d = Inr d"
| "seed_roles (n # ns) d = (case builtin_role n of Inl e \<Rightarrow> Inl e | Inr r \<Rightarrow> seed_roles ns (upsert_builtin r d))"

definition seed_builtin_roles :: "('z, unit) dbtxn" where
  "seed_builtin_roles d =
     (case seed_roles (map fst BUILTIN_ROLES) d of Inl e \<Rightarrow> Inl e | Inr d' \<Rightarrow> Inr ((), d'))"

section \<open>Operations\<close>

definition NO_SUCH_ROLE :: message where
  "NO_SUCH_ROLE = [''no role by that name'']"

definition role_get :: "string \<Rightarrow> 'z db_scheme \<Rightarrow> role option" where
  "role_get name d = fetch_one (\<lambda>r. ro_name r = name) (t_roles d)"

definition role_require :: "string \<Rightarrow> 'z db_scheme \<Rightarrow> role result" where
  "role_require name d =
     (case role_get name d of None \<Rightarrow> Inl (RoleNotFoundError NO_SUCH_ROLE) | Some r \<Rightarrow> Inr r)"

definition role_list_all :: "'z db_scheme \<Rightarrow> role list" where
  "role_list_all d = sort_key (\<lambda>r. (if ro_builtin r then 0 else 1 :: nat, ro_name r)) (t_roles d)"

definition role_add :: "role \<Rightarrow> ('z, unit) dbtxn" where
  "role_add role d =
     (if list_ex (\<lambda>r. ro_name r = ro_name role) (t_roles d)
      then Inl (RoleExistsError [''a role named '', py_repr (ro_name role), '' already exists''])
      else case insert_role role d of Inl e \<Rightarrow> Inl e | Inr d' \<Rightarrow> Inr ((), d'))"

definition role_save :: "role \<Rightarrow> ('z, unit) dbtxn" where
  "role_save role d =
     Inr ((), d\<lparr>t_roles := update_where (\<lambda>r. ro_name r = ro_name role)
       (\<lambda>r. r\<lparr>ro_description := ro_description role, ro_permissions := ro_permissions role,
              ro_updated_at := ro_updated_at role\<rparr>) (t_roles d)\<rparr>)"

definition role_delete :: "string \<Rightarrow> nat \<Rightarrow> ('z, unit) dbtxn" where
  "role_delete name held_by d =
     (case fetch_one (\<lambda>r. ro_name r = name) (t_roles d) of
        None \<Rightarrow> Inl (RoleNotFoundError NO_SUCH_ROLE)
      | Some row \<Rightarrow>
          (if ro_builtin row
           then Inl (InvalidRoleError [py_repr name, '' is a built-in role and cannot be deleted''])
           else let holders = count_where (\<lambda>r. ar_role_name r = name) (t_account_roles d) in
             if holders \<noteq> 0
             then Inl (RoleInUseError [str_nat holders, '' account(s) still hold '', py_repr name, ''; revoke it first''])
             else case delete_role_row name d of Inl e \<Rightarrow> Inl e | Inr d' \<Rightarrow> Inr ((), d')))"

definition role_resolve :: "string list \<Rightarrow> 'z db_scheme \<Rightarrow> permission set" where
  "role_resolve names d =
     (if names = [] then {} else permissions_of (select_where (\<lambda>r. ro_name r \<in> set names) (t_roles d)))"

section \<open>Facts\<close>

lemma role_get_Some:
  assumes "db_ok d"
  shows "role_get name d = Some r \<longleftrightarrow> r \<in> set (t_roles d) \<and> ro_name r = name"
proof -
  have "distinct (map ro_name (t_roles d))" using assms by (simp add: db_ok_def keys_ok_def)
  from fetch_one_key_iff [OF this, of name r] show ?thesis by (simp add: role_get_def)
qed

lemma role_get_name: "role_get name d = Some r \<Longrightarrow> ro_name r = name"
  by (auto simp: role_get_def dest: fetch_one_SomeD)

lemma role_get_None: "role_get name d = None \<longleftrightarrow> name \<notin> role_ids d"
  by (auto simp: role_get_def table_simps role_ids_def)

lemma role_resolve_eq:
  "role_resolve names d = \<Union> (ro_permissions ` {r \<in> set (t_roles d). ro_name r \<in> set names})"
  by (auto simp: role_resolve_def permissions_of_def table_simps)

lemma role_resolve_get:
  assumes "db_ok d"
  shows "role_resolve names d = {p. \<exists>n \<in> set names. \<exists>r. role_get n d = Some r \<and> p \<in> ro_permissions r}"
  by (auto simp: role_resolve_eq role_get_Some [OF assms])

lemma role_add_Inr:
  assumes "db_ok d" and "role_add role d = Inr (u, d')"
  shows "db_ok d'" and "role_get (ro_name role) d = None"
    and "role_get n d' = (if n = ro_name role then Some role else role_get n d)"
    and "d' = d\<lparr>t_roles := t_roles d @ [role]\<rparr>"
proof -
  from assms(2) have ins: "insert_role role d = Inr d'"
    and fresh: "\<not> list_ex (\<lambda>r. ro_name r = ro_name role) (t_roles d)"
    by (auto simp: role_add_def split: if_splits sum.splits)
  show "db_ok d'" using assms(1) ins by (rule insert_role_ok)
  show none: "role_get (ro_name role) d = None"
    using fresh by (auto simp: role_get_None role_ids_def list_ex_iff)
  show eq: "d' = d\<lparr>t_roles := t_roles d @ [role]\<rparr>"
    using ins by (auto simp: insert_role_def split: if_splits)
  show "role_get n d' = (if n = ro_name role then Some role else role_get n d)"
    using none fetch_key_insert [of ro_name role "t_roles d" n] by (simp add: eq role_get_def)
qed

lemma role_save_Inr:
  assumes "role_save role d = Inr (u, d')"
  shows "db_ok d \<Longrightarrow> db_ok d'"
    and "role_get n d' = (if n = ro_name role
           then map_option (\<lambda>r. r\<lparr>ro_description := ro_description role, ro_permissions := ro_permissions role,
                  ro_updated_at := ro_updated_at role\<rparr>) (role_get n d)
           else role_get n d)"
    and "t_accounts d' = t_accounts d" "t_account_roles d' = t_account_roles d"
proof -
  have eq: "d' = d\<lparr>t_roles := update_where (\<lambda>r. ro_name r = ro_name role)
       (\<lambda>r. r\<lparr>ro_description := ro_description role, ro_permissions := ro_permissions role,
              ro_updated_at := ro_updated_at role\<rparr>) (t_roles d)\<rparr>"
    using assms by (simp add: role_save_def)
  show "db_ok d \<Longrightarrow> db_ok d'" unfolding eq by (rule update_roles_ok) simp_all
  show "t_accounts d' = t_accounts d" "t_account_roles d' = t_account_roles d" by (simp_all add: eq)
  show "role_get n d' = (if n = ro_name role
           then map_option (\<lambda>r. r\<lparr>ro_description := ro_description role, ro_permissions := ro_permissions role,
                  ro_updated_at := ro_updated_at role\<rparr>) (role_get n d)
           else role_get n d)"
    by (simp add: eq role_get_def fetch_key_update)
qed

lemma role_delete_Inr:
  assumes "db_ok d" and "role_delete name k d = Inr (u, d')"
  shows "db_ok d'" and "role_get n d' = (if n = name then None else role_get n d)"
    and "\<exists>r. role_get name d = Some r \<and> \<not> ro_builtin r"
    and "\<not> holds name aid d"
    and "d' = d\<lparr>t_roles := delete_where (\<lambda>r. ro_name r = name) (t_roles d)\<rparr>"
proof -
  from assms(2) obtain r where r: "fetch_one (\<lambda>r. ro_name r = name) (t_roles d) = Some r" "\<not> ro_builtin r"
    and free: "count_where (\<lambda>r. ar_role_name r = name) (t_account_roles d) = 0"
    and del: "delete_role_row name d = Inr d'"
    by (auto simp: role_delete_def Let_def split: option.splits if_splits sum.splits)
  show "db_ok d'" using assms(1) del by (rule delete_role_row_ok)
  show eq: "d' = d\<lparr>t_roles := delete_where (\<lambda>r. ro_name r = name) (t_roles d)\<rparr>"
    using del by (auto simp: delete_role_row_def split: if_splits)
  show "\<exists>r. role_get name d = Some r \<and> \<not> ro_builtin r" using r by (auto simp: role_get_def)
  show "\<not> holds name aid d"
    using free assms(1) count_holding_0 [of d name] by (simp add: count_holding_def)
  show "role_get n d' = (if n = name then None else role_get n d)"
    by (simp add: eq role_get_def fetch_key_delete)
qed

section \<open>The port\<close>

text \<open>\<^verbatim>\<open>RoleStore\<close> of \<^verbatim>\<open>accounts/roles.py\<close>.\<close>

locale role_store =
  fixes ok :: "'s \<Rightarrow> bool"
    and get :: "string \<Rightarrow> 's \<Rightarrow> role option"
    and resolve :: "string list \<Rightarrow> 's \<Rightarrow> permission set"
    and add :: "role \<Rightarrow> (error, 's, unit) txn"
    and save :: "role \<Rightarrow> (error, 's, unit) txn"
    and delete :: "string \<Rightarrow> nat \<Rightarrow> (error, 's, unit) txn"
  assumes get_name: "get n s = Some r \<Longrightarrow> ro_name r = n"
    and resolve_get: "ok s \<Longrightarrow> resolve ns s = {p. \<exists>n \<in> set ns. \<exists>r. get n s = Some r \<and> p \<in> ro_permissions r}"
    and add_get: "ok s \<Longrightarrow> add r s = Inr (u, t) \<Longrightarrow>
      ok t \<and> get (ro_name r) s = None \<and> get n t = (if n = ro_name r then Some r else get n s)"
    and save_get: "ok s \<Longrightarrow> save r s = Inr (u, t) \<Longrightarrow>
      ok t \<and> get n t = (if n = ro_name r
        then map_option (\<lambda>x. x\<lparr>ro_description := ro_description r, ro_permissions := ro_permissions r,
               ro_updated_at := ro_updated_at r\<rparr>) (get n s)
        else get n s)"
    and delete_get: "ok s \<Longrightarrow> delete m k s = Inr (u, t) \<Longrightarrow>
      ok t \<and> get n t = (if n = m then None else get n s) \<and> (\<exists>r. get m s = Some r \<and> \<not> ro_builtin r)"
begin

lemma resolve_mono_names: "ok s \<Longrightarrow> set ns \<subseteq> set ms \<Longrightarrow> resolve ns s \<subseteq> resolve ms s"
  by (auto simp: resolve_get)

text \<open>Defining, editing or deleting a role gives nobody more than the role's new permissions.\<close>

lemma add_resolve:
  assumes "ok s" and "add r s = Inr (u, t)"
  shows "resolve ns t \<subseteq> resolve ns s \<union> ro_permissions r"
    and "ro_name r \<notin> set ns \<Longrightarrow> resolve ns t = resolve ns s"
proof -
  have t: "ok t" "get n t = (if n = ro_name r then Some r else get n s)" for n
    using add_get [OF assms, of n] by simp_all
  show "resolve ns t \<subseteq> resolve ns s \<union> ro_permissions r"
    by (auto simp: resolve_get assms(1) t split: if_splits)
  assume "ro_name r \<notin> set ns"
  then have "get n t = get n s" if "n \<in> set ns" for n
    using that t(2) [of n] by auto
  then show "resolve ns t = resolve ns s" by (simp add: resolve_get assms(1) t(1))
qed

lemma save_resolve:
  assumes "ok s" and "save r s = Inr (u, t)"
  shows "resolve ns t \<subseteq> resolve ns s \<union> ro_permissions r"
proof
  fix p
  have t: "ok t" "get n t = (if n = ro_name r
        then map_option (\<lambda>x. x\<lparr>ro_description := ro_description r, ro_permissions := ro_permissions r,
               ro_updated_at := ro_updated_at r\<rparr>) (get n s)
        else get n s)" for n
    using save_get [OF assms, of n] by simp_all
  assume "p \<in> resolve ns t"
  then obtain n x where n: "n \<in> set ns" "get n t = Some x" "p \<in> ro_permissions x"
    by (auto simp: resolve_get t(1))
  show "p \<in> resolve ns s \<union> ro_permissions r"
  proof (cases "n = ro_name r")
    case True
    then obtain y where "get n s = Some y" "x = y\<lparr>ro_description := ro_description r,
        ro_permissions := ro_permissions r, ro_updated_at := ro_updated_at r\<rparr>"
      using n(2) t(2) [of n] by (cases "get n s") simp_all
    with n(3) show ?thesis by simp
  next
    case False with n t(2) [of n] show ?thesis by (auto simp: resolve_get assms(1))
  qed
qed

lemma delete_resolve:
  assumes "ok s" and "delete m k s = Inr (u, t)"
  shows "resolve ns t \<subseteq> resolve ns s"
proof -
  have "ok t" "get n t = (if n = m then None else get n s)" for n
    using delete_get [OF assms, of n] by simp_all
  then show ?thesis by (auto simp: resolve_get assms(1) split: if_splits)
qed

text \<open>A built-in role cannot be deleted.\<close>

lemma delete_builtin: "ok s \<Longrightarrow> get m s = Some r \<Longrightarrow> ro_builtin r \<Longrightarrow> delete m k s \<noteq> Inr (u, t)"
  using delete_get by fastforce

end

interpretation rol: role_store db_ok role_get role_resolve role_add role_save role_delete
proof (unfold_locales, goal_cases)
  case 1 then show ?case by (rule role_get_name)
next
  case 2 then show ?case by (rule role_resolve_get)
next
  case 3 then show ?case using role_add_Inr(1-3) by blast
next
  case 4 then show ?case using role_save_Inr(1,2) by blast
next
  case 5 then show ?case using role_delete_Inr(1-3) by blast
qed

section \<open>Seeding\<close>

lemma upsert_builtin_get:
  "role_get n (upsert_builtin role d) =
     (if n = ro_name role
      then Some (case role_get n d of
          None \<Rightarrow> \<lparr>ro_name = n, ro_permissions = ro_permissions role, ro_description = ro_description role,
                   ro_builtin = True, ro_created_at = None, ro_updated_at = None\<rparr>
        | Some r \<Rightarrow> r\<lparr>ro_description := ro_description role, ro_permissions := ro_permissions role\<rparr>)
      else role_get n d)"
proof (cases "role_get (ro_name role) d")
  case None
  then have "\<not> list_ex (\<lambda>r. ro_name r = ro_name role) (t_roles d)"
    by (auto simp: role_get_None role_ids_def list_ex_iff image_iff)
  moreover have "fetch_one (\<lambda>r. ro_name r = ro_name role) (t_roles d) = None"
    using None by (simp add: role_get_def)
  ultimately show ?thesis
    using None fetch_key_insert [of ro_name "\<lparr>ro_name = ro_name role, ro_permissions = ro_permissions role,
      ro_description = ro_description role, ro_builtin = True, ro_created_at = None, ro_updated_at = None\<rparr>"
      "t_roles d" n]
    by (simp add: upsert_builtin_def role_get_def)
next
  case (Some r)
  then have "list_ex (\<lambda>r. ro_name r = ro_name role) (t_roles d)"
    by (auto simp: role_get_def list_ex_iff dest!: fetch_one_SomeD)
  then show ?thesis using Some by (simp add: upsert_builtin_def role_get_def fetch_key_update)
qed

lemma upsert_builtin_ok: "db_ok d \<Longrightarrow> db_ok (upsert_builtin role d)"
proof (cases "list_ex (\<lambda>r. ro_name r = ro_name role) (t_roles d)")
  case True
  assume "db_ok d"
  with True show ?thesis by (simp add: upsert_builtin_def update_roles_ok)
next
  case False
  assume "db_ok d"
  moreover have "insert_role \<lparr>ro_name = ro_name role, ro_permissions = ro_permissions role,
      ro_description = ro_description role, ro_builtin = True, ro_created_at = None,
      ro_updated_at = None\<rparr> d = Inr (upsert_builtin role d)"
    using False by (simp add: insert_role_def upsert_builtin_def)
  ultimately show ?thesis by (rule insert_role_ok)
qed

end
