(* ===== verification/AuditLog.thy ===== *)
theory AuditLog
  imports Database
begin

text \<open>
  \<^verbatim>\<open>src/src/keyring_api/audit/sql_log.py\<close>: the append-only record of privileged actions,
  trimmed in the transaction that appends. \<open>sequence\<close> is the AUTOINCREMENT key: the counter
  never goes back, so an entry is newer exactly when its number is larger.
\<close>

definition MAX_ENTRIES :: nat where "MAX_ENTRIES = 10000"

definition BREAK_GLASS_ACTOR :: string where "BREAK_GLASS_ACTOR = ''break-glass''"

definition audit_record :: "nat \<Rightarrow> audit_entry \<Rightarrow> ('z, audit_entry) dbtxn" where
  "audit_record max_entries entry d =
     (let sequence = t_audit_sequence d + 1;
          rows = t_audit d @ [(sequence, entry)];
          newest = Max (fst ` set rows)
      in Inr (entry, d\<lparr>t_audit := delete_where (\<lambda>r. int (fst r) \<le> int newest - int max_entries) rows,
                       t_audit_sequence := sequence\<rparr>))"

definition audit_recent :: "nat \<Rightarrow> string option \<Rightarrow> 'z db_scheme \<Rightarrow> audit_entry list" where
  "audit_recent limit actor_id d =
     take limit (map snd (rev (sort_key fst
       (select_where (\<lambda>r. actor_id = None \<or> Some (au_actor_id (snd r)) = actor_id) (t_audit d)))))"

definition audit_count :: "'z db_scheme \<Rightarrow> nat" where
  "audit_count d = length (t_audit d)"

section \<open>The log is ordered, bounded and never loses a recent entry\<close>

definition audit_ok :: "nat \<Rightarrow> 'z db_scheme \<Rightarrow> bool" where
  "audit_ok max_entries d \<longleftrightarrow>
     sorted_wrt (<) (map fst (t_audit d))
     \<and> (\<forall>r \<in> set (t_audit d). fst r \<le> t_audit_sequence d \<and> t_audit_sequence d < fst r + max_entries)"

lemma audit_record_eq:
  assumes "audit_ok max_entries d"
  shows "audit_record max_entries entry d = Inr (entry,
    d\<lparr>t_audit := filter (\<lambda>r. t_audit_sequence d + 1 < fst r + max_entries) (t_audit d @ [(t_audit_sequence d + 1, entry)]),
      t_audit_sequence := t_audit_sequence d + 1\<rparr>)"
proof -
  let ?s = "t_audit_sequence d + 1"
  have "Max (fst ` set (t_audit d @ [(?s, entry)])) = ?s"
    by (rule Max_eqI) (use assms in \<open>auto simp: audit_ok_def intro: le_SucI\<close>)
  moreover have "(int n \<le> int ?s - int max_entries) \<longleftrightarrow> \<not> ?s < n + max_entries" for n :: nat
    by linarith
  ultimately show ?thesis by (simp add: audit_record_def delete_where_def Let_def)
qed

lemma audit_record_ok:
  assumes "audit_ok max_entries d" and "audit_record max_entries entry d = Inr (e, d')"
  shows "audit_ok max_entries d'"
proof -
  have d': "d' = d\<lparr>t_audit := filter (\<lambda>r. t_audit_sequence d + 1 < fst r + max_entries) (t_audit d @ [(t_audit_sequence d + 1, entry)]),
      t_audit_sequence := t_audit_sequence d + 1\<rparr>"
    using assms(2) unfolding audit_record_eq [OF assms(1)] by (auto simp only: sum.inject prod.inject)
  have "sorted_wrt (<) (map fst (t_audit d @ [(t_audit_sequence d + 1, entry)]))"
    using assms(1) by (auto simp: audit_ok_def sorted_wrt_append)
  then have "sorted_wrt (<) (map fst (t_audit d'))"
    unfolding d' sorted_wrt_map by (simp del: filter_append add: sorted_wrt_filter)
  moreover have "\<forall>r \<in> set (t_audit d'). fst r \<le> t_audit_sequence d' \<and> t_audit_sequence d' < fst r + max_entries"
    using assms(1) by (auto simp: d' audit_ok_def)
  ultimately show ?thesis by (simp add: audit_ok_def)
qed

lemma audit_count_bound:
  assumes "audit_ok max_entries d"
  shows "audit_count d \<le> max_entries"
proof -
  let ?k = "map fst (t_audit d)"
  have "distinct ?k" using assms by (simp add: audit_ok_def strict_sorted_iff)
  then have "length ?k = card (set ?k)" by (rule distinct_card [symmetric])
  also have "\<dots> \<le> card {t_audit_sequence d + 1 - max_entries ..< t_audit_sequence d + 1}"
    by (rule card_mono) (use assms in \<open>auto simp: audit_ok_def\<close>)
  also have "\<dots> \<le> max_entries" by simp
  finally show ?thesis by (simp add: audit_count_def)
qed

text \<open>The newest entry is the one just recorded, and earlier ones keep their order.\<close>

lemma audit_recent_sorted:
  assumes "audit_ok max_entries d"
  shows "audit_recent limit None d = take limit (rev (map snd (t_audit d)))"
proof -
  have "sorted (map fst (t_audit d))" using assms by (simp add: audit_ok_def strict_sorted_iff)
  then show ?thesis
    by (simp add: audit_recent_def select_where_def sort_key_id_if_sorted rev_map)
qed

lemma audit_record_recent:
  assumes "audit_ok max_entries d" and "0 < max_entries" and "audit_record max_entries entry d = Inr (e, d')"
  shows "\<exists>older. audit_recent (Suc limit) None d' = entry # older \<and>
    older = take limit (rev (map snd (filter (\<lambda>r. t_audit_sequence d + 1 < fst r + max_entries) (t_audit d))))"
proof -
  have ok: "audit_ok max_entries d'" using assms(1,3) by (rule audit_record_ok)
  have "t_audit d' = filter (\<lambda>r. t_audit_sequence d + 1 < fst r + max_entries) (t_audit d) @ [(t_audit_sequence d + 1, entry)]"
    using assms(2,3) unfolding audit_record_eq [OF assms(1)] by auto
  then show ?thesis unfolding audit_recent_sorted [OF ok] by simp
qed

lemma audit_record_frame:
  "audit_record m entry d = Inr (e, d') \<Longrightarrow> \<exists>rows n. d' = d\<lparr>t_audit := rows, t_audit_sequence := n\<rparr> \<and> e = entry"
  by (auto simp: audit_record_def Let_def)

lemma audit_frame_ok: "db_ok (d\<lparr>t_audit := rows, t_audit_sequence := n\<rparr>) \<longleftrightarrow> db_ok d"
  by (simp add: db_defs)

lemma audit_record_db_ok: "db_ok d \<Longrightarrow> audit_record m entry d = Inr (e, d') \<Longrightarrow> db_ok d'"
  using audit_record_frame [of m entry d e d'] audit_frame_ok by blast

end
