(* ===== verification/RateLimiter.thy ===== *)
theory RateLimiter
  imports Errors "HOL-Library.AList"
begin

text \<open>
  \<^verbatim>\<open>InMemoryRateLimiter\<close> of \<^verbatim>\<open>src/src/keyring_api/accounts/ratelimit.py\<close>: a sliding window of
  attempt timestamps per (scope, caller). The dictionary is an association list in insertion
  order; the monotonic clock and the windows are rationals. The lock makes one call one
  step. The lemmas relate a deque to the history of attempts: it is the newest part of the
  attempts inside the window, so the verdict is the count of them as long as the limit is
  below the cap on the deque.
\<close>

definition MAX_TIMESTAMPS_PER_CALLER :: nat where "MAX_TIMESTAMPS_PER_CALLER = 128"

type_synonym attempts = "((string \<times> string) \<times> rat list) list"

fun evict_before :: "rat \<Rightarrow> rat list \<Rightarrow> rat list" where
  "evict_before cutoff [] = []"
| "evict_before cutoff (t # ts) = (if t \<le> cutoff then evict_before cutoff ts else t # ts)"

text \<open>What \<open>_record\<close> leaves in the deque of one caller, and its verdict.\<close>

definition push_attempt :: "rat \<Rightarrow> rat \<Rightarrow> rat list \<Rightarrow> rat list" where
  "push_attempt now window ts =
     (let ts' = evict_before (now - window) ts @ [now]
      in if length ts' > MAX_TIMESTAMPS_PER_CALLER then tl ts' else ts')"

definition verdict :: "rat \<Rightarrow> rat \<Rightarrow> nat \<Rightarrow> rat list \<Rightarrow> rat option" where
  "verdict now window limit ts =
     (if length ts \<le> limit then None else Some (max (window - (now - hd ts)) 1))"

definition timestamps :: "string \<Rightarrow> string \<Rightarrow> attempts \<Rightarrow> rat list" where
  "timestamps scope caller m = (case map_of m (scope, caller) of None \<Rightarrow> [] | Some ts \<Rightarrow> ts)"

definition limiter_record ::
  "string \<Rightarrow> string \<Rightarrow> rat \<Rightarrow> nat \<Rightarrow> rat \<Rightarrow> attempts \<Rightarrow> rat option \<times> attempts" where
  "limiter_record scope caller now limit window m =
     (let ts = push_attempt now window (timestamps scope caller m)
      in (verdict now window limit ts, AList.update (scope, caller) ts m))"

definition limiter_check ::
  "string \<Rightarrow> string \<Rightarrow> rat \<Rightarrow> nat \<Rightarrow> rat \<Rightarrow> attempts \<Rightarrow> unit result \<times> attempts" where
  "limiter_check scope caller now limit window_seconds m =
     (case limiter_record scope caller now limit window_seconds m of
        (None, m') \<Rightarrow> (Inr (), m')
      | (Some retry_after, m') \<Rightarrow>
          (Inl (RateLimitedError [''too many '', scope, '' attempts; try again later''] retry_after), m'))"

definition limiter_reset :: "string \<Rightarrow> string \<Rightarrow> attempts \<Rightarrow> attempts" where
  "limiter_reset scope caller m = AList.delete (scope, caller) m"

definition limiter_purge_expired :: "rat \<Rightarrow> rat \<Rightarrow> attempts \<Rightarrow> nat \<times> attempts" where
  "limiter_purge_expired now window_seconds m =
     (let cutoff = now - window_seconds;
          doomed = map fst (filter (\<lambda>e. snd e = [] \<or> last (snd e) \<le> cutoff) m)
      in (length doomed, foldr AList.delete doomed m))"

definition tracked_callers :: "attempts \<Rightarrow> nat" where
  "tracked_callers m = length m"

section \<open>One deque\<close>

text \<open>The attempts of a caller, oldest first, and what the deque keeps of them.\<close>

definition in_window :: "rat \<Rightarrow> rat \<Rightarrow> rat list \<Rightarrow> rat list" where
  "in_window now window hist = filter (\<lambda>t. now - window < t) hist"

definition newest :: "nat \<Rightarrow> 'a list \<Rightarrow> 'a list" where
  "newest n xs = drop (length xs - n) xs"

lemma length_newest [simp]: "length (newest n xs) = min n (length xs)"
  by (simp add: newest_def)

lemma newest_append_one: "newest (Suc n) (xs @ [x]) = newest n xs @ [x]"
  by (simp add: newest_def)

lemma newest_all: "length xs \<le> n \<Longrightarrow> newest n xs = xs"
  by (simp add: newest_def)

lemma evict_before_sorted: "sorted ts \<Longrightarrow> evict_before c ts = filter (\<lambda>t. c < t) ts"
proof (induction c ts rule: evict_before.induct)
  case (2 c t ts)
  then show ?case by (cases "t \<le> c") (auto intro!: filter_True [symmetric])
qed simp

lemma newest_Suc_snoc: "newest (Suc n) (xs @ [x]) = newest n xs @ [x]"
  by (simp add: newest_def)

lemma newest_0 [simp]: "newest 0 xs = []"
  by (simp add: newest_def)

lemma filter_newest: "sorted xs \<Longrightarrow> filter (\<lambda>t. (c::rat) < t) (newest n xs) = newest n (filter (\<lambda>t. c < t) xs)"
proof (induction xs arbitrary: n rule: rev_induct)
  case (snoc x xs)
  show ?case
  proof (cases n)
    case (Suc m)
    have xs: "sorted xs" "\<forall>y \<in> set xs. y \<le> x" using snoc.prems by (auto simp: sorted_append)
    show ?thesis
    proof (cases "c < x")
      case True
      then show ?thesis using snoc.IH [OF xs(1), of m] Suc by (simp add: newest_Suc_snoc)
    next
      case False
      have "set (newest m xs) \<subseteq> set xs" by (auto simp: newest_def dest: in_set_dropD)
      moreover have "\<forall>y \<in> set xs. \<not> c < y" using False xs(2) by fastforce
      ultimately have "filter (\<lambda>t. c < t) (newest m xs) = []" "filter (\<lambda>t. c < t) xs = []"
        by (auto simp: filter_empty_conv)
      with False Suc show ?thesis by (simp add: newest_Suc_snoc newest_def)
    qed
  qed simp
qed (simp add: newest_def)

lemma push_newest:
  "(let ts = newest n xs @ [x] in if length ts > n then tl ts else ts) = newest n (xs @ [x])"
proof (cases "length xs < n")
  case True
  then show ?thesis by (simp add: newest_def Let_def)
next
  case False
  then have "newest n xs @ [x] = drop (length xs - n) (xs @ [x])" by (simp add: newest_def)
  then have "tl (newest n xs @ [x]) = drop (Suc (length xs - n)) (xs @ [x])"
    by (simp only: drop_Suc tl_drop)
  also have "\<dots> = newest n (xs @ [x])" using False by (simp add: newest_def Suc_diff_le)
  finally show ?thesis using False by (simp add: Let_def)
qed

text \<open>
  One attempt: if the deque held the newest attempts inside the window of an earlier
  instant, it now holds the newest attempts inside the window of this one.
\<close>

lemma push_attempt_newest:
  assumes "sorted hist" and "t0 \<le> now" and "0 < window"
  shows "push_attempt now window (newest MAX_TIMESTAMPS_PER_CALLER (in_window t0 window hist))
       = newest MAX_TIMESTAMPS_PER_CALLER (in_window now window (hist @ [now]))"
proof -
  let ?M = MAX_TIMESTAMPS_PER_CALLER
  have sorted: "sorted (in_window t0 window hist)"
    using assms(1) by (simp add: in_window_def sorted_filter [of id, simplified])
  then have "sorted (newest ?M (in_window t0 window hist))" by (simp add: newest_def sorted_wrt_drop)
  then have "evict_before (now - window) (newest ?M (in_window t0 window hist))
      = filter (\<lambda>t. now - window < t) (newest ?M (in_window t0 window hist))"
    by (rule evict_before_sorted)
  also have "\<dots> = newest ?M (filter (\<lambda>t. now - window < t) (in_window t0 window hist))"
    by (rule filter_newest [OF sorted])
  also have "filter (\<lambda>t. now - window < t) (in_window t0 window hist) = in_window now window hist"
    using assms(2) by (auto simp: in_window_def intro: filter_cong)
  finally have "push_attempt now window (newest ?M (in_window t0 window hist))
      = newest ?M (in_window now window hist @ [now])"
    unfolding push_attempt_def by (simp only: push_newest)
  also have "in_window now window hist @ [now] = in_window now window (hist @ [now])"
    using assms(3) by (simp add: in_window_def)
  finally show ?thesis .
qed

lemma verdict_newest:
  assumes "limit < MAX_TIMESTAMPS_PER_CALLER"
  shows "verdict now window limit (newest MAX_TIMESTAMPS_PER_CALLER xs) = None \<longleftrightarrow> length xs \<le> limit"
  using assms by (auto simp: verdict_def)

lemma verdict_capped:
  assumes "MAX_TIMESTAMPS_PER_CALLER \<le> limit"
  shows "verdict now window limit (newest MAX_TIMESTAMPS_PER_CALLER xs) = None"
  using assms by (auto simp: verdict_def)

section \<open>Many callers\<close>

lemma timestamps_record:
  "timestamps s c (snd (limiter_record scope caller now limit window m)) =
     (if s = scope \<and> c = caller then push_attempt now window (timestamps scope caller m) else timestamps s c m)"
  by (auto simp: limiter_record_def Let_def timestamps_def update_conv')

lemma limiter_check_record:
  "snd (limiter_check scope caller now limit window m) = snd (limiter_record scope caller now limit window m)"
  "fst (limiter_check scope caller now limit window m) = Inr () \<longleftrightarrow>
     fst (limiter_record scope caller now limit window m) = None"
  by (auto simp: limiter_check_def split: prod.splits option.splits)

lemma timestamps_reset:
  "timestamps s c (limiter_reset scope caller m) = (if s = scope \<and> c = caller then [] else timestamps s c m)"
  by (auto simp: limiter_reset_def timestamps_def delete_conv')

text \<open>
  Attempts of every caller, in the order they arrive: the scope fixes the limit and the
  window, as each scope has its own pair in the settings.
\<close>

fun run_attempts ::
  "(string \<Rightarrow> nat) \<Rightarrow> (string \<Rightarrow> rat) \<Rightarrow> (string \<times> string \<times> rat) list \<Rightarrow> attempts \<Rightarrow> attempts" where
  "run_attempts limit window [] m = m"
| "run_attempts limit window ((scope, caller, now) # es) m =
     run_attempts limit window es (snd (limiter_check scope caller now (limit scope) (window scope) m))"

definition attempts_of :: "string \<Rightarrow> string \<Rightarrow> (string \<times> string \<times> rat) list \<Rightarrow> rat list" where
  "attempts_of scope caller es = map (\<lambda>e. snd (snd e)) (filter (\<lambda>e. fst e = scope \<and> fst (snd e) = caller) es)"

lemma run_attempts_append:
  "run_attempts limit window (es @ fs) m = run_attempts limit window fs (run_attempts limit window es m)"
  by (induction limit window es m rule: run_attempts.induct) auto

lemma attempts_of_snoc:
  "attempts_of s c (es @ [(scope, caller, now)]) =
     (if s = scope \<and> c = caller then attempts_of s c es @ [now] else attempts_of s c es)"
  by (auto simp: attempts_of_def)

lemma sorted_attempts_of:
  "sorted (map (\<lambda>e. snd (snd e)) es) \<Longrightarrow> sorted (attempts_of s c es)"
  unfolding attempts_of_def by (rule sorted_filter)

lemma run_attempts_newest:
  assumes "sorted (map (\<lambda>e. snd (snd e)) es)" and "\<And>s. 0 < window s"
  shows "timestamps s c (run_attempts limit window es []) =
    newest MAX_TIMESTAMPS_PER_CALLER
      (in_window (last (attempts_of s c es)) (window s) (attempts_of s c es))"
  using assms(1)
proof (induction es arbitrary: s c rule: rev_induct)
  case Nil
  then show ?case by (simp add: timestamps_def attempts_of_def in_window_def newest_def)
next
  case (snoc e es)
  obtain scope caller now where e: "e = (scope, caller, now)" by (cases e) auto
  have sorted: "sorted (map (\<lambda>e. snd (snd e)) es)" and le: "\<forall>x \<in> set es. snd (snd x) \<le> now"
    using snoc.prems by (auto simp: sorted_append e)
  let ?h = "attempts_of s c es"
  show ?case
  proof (cases "s = scope \<and> c = caller")
    case True
    have push: "push_attempt now (window s) (newest MAX_TIMESTAMPS_PER_CALLER (in_window (last ?h) (window s) ?h))
        = newest MAX_TIMESTAMPS_PER_CALLER (in_window now (window s) (?h @ [now]))"
    proof (cases "?h = []")
      case True
      have "push_attempt now (window s) (newest MAX_TIMESTAMPS_PER_CALLER (in_window now (window s) ?h))
          = newest MAX_TIMESTAMPS_PER_CALLER (in_window now (window s) (?h @ [now]))"
        by (rule push_attempt_newest [OF sorted_attempts_of [OF sorted] order.refl assms(2)])
      with True show ?thesis by (simp add: in_window_def)
    next
      case False
      then have "last ?h \<in> set ?h" by simp
      then have "last ?h \<le> now" using le unfolding attempts_of_def by auto
      then show ?thesis by (rule push_attempt_newest [OF sorted_attempts_of [OF sorted] _ assms(2)])
    qed
    with True snoc.IH [OF sorted, of s c] show ?thesis
      by (simp add: run_attempts_append e limiter_check_record timestamps_record attempts_of_snoc)
  next
    case False
    then have "timestamps s c (snd (limiter_record scope caller now (limit scope) (window scope) m)) = timestamps s c m" for m
      by (auto simp: timestamps_record)
    with False snoc.IH [OF sorted, of s c] show ?thesis
      by (auto simp: run_attempts_append e limiter_check_record attempts_of_snoc)
  qed
qed

end
