(* ===== verification/Config.thy ===== *)
theory Config
  imports Errors PyText
begin

text \<open>
  \<^verbatim>\<open>src/src/keyring_api/core/config.py\<close>: the settings the services read, and the validators
  that refuse a configuration at startup. Secrets are their text; paths, log settings and
  the parsing of the environment are left to the library that does it. \<open>settings_ok\<close> is what
  a process that started knows about its settings.
\<close>

datatype email_backend = EMAIL_DISABLED | EMAIL_FILE | EMAIL_SMTP

record email_settings =
  es_backend :: email_backend
  es_host :: string
  es_from_address :: string
  es_password :: "string option"
  es_use_starttls :: bool
  es_use_implicit_tls :: bool
  es_link_base_url :: string
  es_max_messages :: nat
  es_window_seconds :: rat

record rate_limit_settings =
  rl_login_attempts :: nat
  rl_login_window_seconds :: rat
  rl_reset_attempts :: nat
  rl_reset_window_seconds :: rat
  rl_invite_attempts :: nat
  rl_invite_window_seconds :: rat

record argon2_settings =
  ag_time_cost :: nat
  ag_memory_cost_kib :: nat
  ag_parallelism :: nat
  ag_hash_length :: nat
  ag_salt_length :: nat

record settings =
  st_session_ttl_seconds :: int
  st_session_absolute_ttl_seconds :: int
  st_invite_ttl_seconds :: int
  st_reset_ttl_seconds :: int
  st_max_sessions_per_account :: int
  st_lockout_threshold :: nat
  st_lockout_seconds :: rat
  st_access_token_ttl_seconds :: int
  st_oauth_state_ttl_seconds :: int
  st_oauth_refresh_margin_seconds :: int
  st_service_tokens :: "(string \<times> string) list"
  st_exchange_audiences :: "(string \<times> string list) list"
  st_offline_grant_max_ttl_seconds :: int
  st_max_offline_grants_per_profile :: nat
  st_settings_api_base_url :: "string option"
  st_settings_api_token :: "string option"
  st_admin_token :: "string option"
  st_max_profiles_per_account :: nat
  st_max_connections_per_profile :: nat
  st_argon2 :: argon2_settings
  st_rate_limit :: rate_limit_settings
  st_email :: email_settings

text \<open>A refused configuration is a \<open>ValueError\<close> with the message.\<close>

definition value_error :: "message \<Rightarrow> unit result" where
  "value_error m = Inl (Unhandled m)"

section \<open>Validators\<close>

definition check_transport :: "email_settings \<Rightarrow> unit result" where
  "check_transport e =
     (if es_backend e \<noteq> EMAIL_SMTP then Inr ()
      else if es_host e = [] \<or> es_from_address e = []
        then value_error [''email backend 'smtp' needs both host and from_address'']
      else if es_use_starttls e \<and> es_use_implicit_tls e
        then value_error [''use_starttls and use_implicit_tls are mutually exclusive'']
      else if es_password e \<noteq> None \<and> \<not> (es_use_starttls e \<or> es_use_implicit_tls e)
        then value_error [''refusing to send SMTP credentials without TLS: enable STARTTLS or implicit TLS'']
      else Inr ())"

definition check_memory_covers_parallelism :: "argon2_settings \<Rightarrow> unit result" where
  "check_memory_covers_parallelism a =
     (let minimum = 8 * ag_parallelism a in
      if ag_memory_cost_kib a < minimum
      then value_error [''memory_cost_kib must be at least 8 KiB per lane ('', str_nat minimum, '' for this parallelism)'']
      else Inr ())"

definition MAX_EXCHANGE_AUDIENCE_CHARS :: nat where "MAX_EXCHANGE_AUDIENCE_CHARS = 128"
definition MIN_SERVICE_TOKEN_CHARS :: nat where "MIN_SERVICE_TOKEN_CHARS = 32"

definition check_exchange_audiences :: "settings \<Rightarrow> unit result" where
  "check_exchange_audiences s =
     (if \<not> set (map fst (st_exchange_audiences s)) \<subseteq> set (map fst (st_service_tokens s))
        then value_error [''exchange_audiences names an unconfigured service'']
      else if list_ex (\<lambda>e. list_ex (\<lambda>name. name = [] \<or> strip name \<noteq> name
                 \<or> length name > MAX_EXCHANGE_AUDIENCE_CHARS) (snd e)) (st_exchange_audiences s)
        then value_error [''exchange audiences must be nonempty exact names up to 128 characters'']
      else Inr ())"

definition check_service_tokens :: "(string \<times> string) list \<Rightarrow> unit result" where
  "check_service_tokens tokens =
     (let secrets = map snd tokens in
      if list_ex (\<lambda>secret. strip secret \<noteq> secret \<or> length secret < MIN_SERVICE_TOKEN_CHARS) secrets
        then value_error [''each service token must be at least 32 characters, with no surrounding whitespace'']
      else if length (remdups secrets) \<noteq> length secrets
        then value_error [''two services share a service token; each needs its own'']
      else Inr ())"

definition check_lifetimes :: "settings \<Rightarrow> unit result" where
  "check_lifetimes s =
     (if st_session_absolute_ttl_seconds s < st_session_ttl_seconds s
        then value_error [''session_absolute_ttl_seconds must be at least session_ttl_seconds'']
      else if st_access_token_ttl_seconds s \<le> st_oauth_refresh_margin_seconds s
        then value_error [''access_token_ttl_seconds must exceed the OAuth refresh margin'']
      else Inr ())"

definition check_settings_api_is_whole :: "settings \<Rightarrow> unit result" where
  "check_settings_api_is_whole s =
     (if (st_settings_api_base_url s = None) \<noteq> (st_settings_api_token s = None)
        then value_error [''settings_api_base_url and settings_api_token must be set together'']
      else Inr ())"

text \<open>The \<open>PositiveInt\<close> and \<open>PositiveFloat\<close> fields.\<close>

definition positive_fields :: "settings \<Rightarrow> bool" where
  "positive_fields s \<longleftrightarrow>
     0 < st_session_ttl_seconds s \<and> 0 < st_session_absolute_ttl_seconds s
     \<and> 0 < st_invite_ttl_seconds s \<and> 0 < st_reset_ttl_seconds s
     \<and> 0 < st_max_sessions_per_account s \<and> 0 < st_lockout_threshold s \<and> 0 < st_lockout_seconds s
     \<and> 0 < st_access_token_ttl_seconds s \<and> 0 < st_oauth_state_ttl_seconds s
     \<and> 0 < st_oauth_refresh_margin_seconds s \<and> 0 < st_offline_grant_max_ttl_seconds s
     \<and> 0 < st_max_offline_grants_per_profile s \<and> 0 < st_max_profiles_per_account s
     \<and> 0 < st_max_connections_per_profile s
     \<and> 0 < ag_time_cost (st_argon2 s) \<and> 0 < ag_memory_cost_kib (st_argon2 s)
     \<and> 0 < ag_parallelism (st_argon2 s) \<and> 0 < ag_hash_length (st_argon2 s) \<and> 0 < ag_salt_length (st_argon2 s)
     \<and> 0 < rl_login_attempts (st_rate_limit s) \<and> 0 < rl_login_window_seconds (st_rate_limit s)
     \<and> 0 < rl_reset_attempts (st_rate_limit s) \<and> 0 < rl_reset_window_seconds (st_rate_limit s)
     \<and> 0 < rl_invite_attempts (st_rate_limit s) \<and> 0 < rl_invite_window_seconds (st_rate_limit s)
     \<and> 0 < es_max_messages (st_email s) \<and> 0 < es_window_seconds (st_email s)"

definition settings_ok :: "settings \<Rightarrow> bool" where
  "settings_ok s \<longleftrightarrow> positive_fields s
     \<and> check_transport (st_email s) = Inr () \<and> check_memory_covers_parallelism (st_argon2 s) = Inr ()
     \<and> check_exchange_audiences s = Inr () \<and> check_service_tokens (st_service_tokens s) = Inr ()
     \<and> check_lifetimes s = Inr () \<and> check_settings_api_is_whole s = Inr ()"

section \<open>Where settings-api is\<close>

definition settings_api :: "settings \<Rightarrow> (string \<times> string) option" where
  "settings_api s =
     (case (st_settings_api_base_url s, st_settings_api_token s) of
        (Some url, Some token) \<Rightarrow> Some (url, token)
      | _ \<Rightarrow> None)"

section \<open>Facts\<close>

lemma settings_api_whole:
  "settings_ok s \<Longrightarrow> settings_api s = None \<longleftrightarrow> st_settings_api_base_url s = None"
  by (auto simp: settings_ok_def check_settings_api_is_whole_def value_error_def settings_api_def
      split: option.splits if_splits)

lemma check_service_tokens_Inr:
  "check_service_tokens tokens = Inr u \<longleftrightarrow>
     distinct (map snd tokens) \<and> (\<forall>t \<in> snd ` set tokens. strip t = t \<and> 32 \<le> length t)"
proof -
  have eq: "length (remdups (map snd tokens)) \<noteq> length (map snd tokens) \<longleftrightarrow> \<not> distinct (map snd tokens)"
    by (metis length_remdups_eq remdups_id_iff_distinct)
  have bad: "list_ex (\<lambda>t. strip t \<noteq> t \<or> length t < MIN_SERVICE_TOKEN_CHARS) (map snd tokens)
      \<longleftrightarrow> \<not> (\<forall>t \<in> snd ` set tokens. strip t = t \<and> 32 \<le> length t)"
    by (auto simp: list_ex_iff MIN_SERVICE_TOKEN_CHARS_def not_le)
  show ?thesis unfolding check_service_tokens_def Let_def eq bad value_error_def by auto
qed

lemma check_transport_tls:
  "check_transport e = Inr u \<Longrightarrow> es_backend e = EMAIL_SMTP \<Longrightarrow> es_password e \<noteq> None \<Longrightarrow>
     es_use_starttls e \<noteq> es_use_implicit_tls e"
  by (auto simp: check_transport_def value_error_def split: if_splits)

end
