(* ===== verification/Preferences.thy ===== *)
theory Preferences
  imports Config
begin

text \<open>
  \<^verbatim>\<open>src/src/keyring_api/core/preferences.py\<close>: what one person has chosen, inside the
  deployment's ceilings. settings-api and its client are not part of this repository: the
  answer of one resolve is a \<open>client_answer\<close>, and one lookup in a resolved namespace is
  \<open>Missing\<close>, a \<open>Present\<close> value or \<open>Refuses\<close> (the entry's own degradation rule).
\<close>

datatype setting = SInt int | SBool bool | SNone | SOther

datatype setting_lookup = Missing | Present setting | Refuses

record resolved_settings =
  rs_entry :: "string \<Rightarrow> setting_lookup"
  rs_stale :: bool

datatype client_answer = Resolved resolved_settings | SettingsUnavailable | SettingsRejected

record preferences =
  pf_session_ttl_seconds :: int
  pf_session_absolute_ttl_seconds :: int
  pf_max_sessions :: int
  pf_email_notifications :: bool
  pf_notify_on_new_session :: bool
  pf_notify_on_credential_change :: bool
  pf_require_reauth :: "bool option"

definition announces_new_sessions :: "preferences \<Rightarrow> bool" where
  "announces_new_sessions p \<longleftrightarrow> pf_email_notifications p \<and> pf_notify_on_new_session p"

definition announces_credential_changes :: "preferences \<Rightarrow> bool" where
  "announces_credential_changes p \<longleftrightarrow> pf_email_notifications p \<and> pf_notify_on_credential_change p"

definition deployment_preferences :: "settings \<Rightarrow> preferences" where
  "deployment_preferences s =
     \<lparr>pf_session_ttl_seconds = st_session_ttl_seconds s,
      pf_session_absolute_ttl_seconds = st_session_absolute_ttl_seconds s,
      pf_max_sessions = st_max_sessions_per_account s,
      pf_email_notifications = True, pf_notify_on_new_session = False,
      pf_notify_on_credential_change = False, pf_require_reauth = Some False\<rparr>"

definition SECONDS_PER_DAY :: int where "SECONDS_PER_DAY = 24 * 3600"
definition SESSION_TTL_DAYS_MIN :: int where "SESSION_TTL_DAYS_MIN = 1"
definition SESSION_TTL_DAYS_MAX :: int where "SESSION_TTL_DAYS_MAX = 90"
definition SESSION_ABSOLUTE_TTL_DAYS_MIN :: int where "SESSION_ABSOLUTE_TTL_DAYS_MIN = 1"
definition SESSION_ABSOLUTE_TTL_DAYS_MAX :: int where "SESSION_ABSOLUTE_TTL_DAYS_MAX = 365"
definition MAX_SESSIONS_MIN :: int where "MAX_SESSIONS_MIN = 1"
definition MAX_SESSIONS_MAX :: int where "MAX_SESSIONS_MAX = 20"

section \<open>Reading one entry\<close>

text \<open>\<open>resolved.get(key, default)\<close>: an exception, or a value.\<close>

definition resolved_get :: "resolved_settings \<Rightarrow> string \<Rightarrow> setting \<Rightarrow> setting option" where
  "resolved_get r key dflt =
     (case rs_entry r key of Missing \<Rightarrow> Some dflt | Present v \<Rightarrow> Some v | Refuses \<Rightarrow> None)"

text \<open>\<open>None\<close> is a raised \<open>SettingsRefused\<close>.\<close>

definition whole_number :: "resolved_settings \<Rightarrow> string \<Rightarrow> int \<Rightarrow> int option option" where
  "whole_number r key minimum =
     (case resolved_get r key SNone of
        None \<Rightarrow> None
      | Some (SInt n) \<Rightarrow> Some (if n \<ge> minimum then Some n else None)
      | Some _ \<Rightarrow> Some None)"

definition switch :: "resolved_settings \<Rightarrow> string \<Rightarrow> bool \<Rightarrow> bool option" where
  "switch r key dflt =
     (case resolved_get r key SNone of
        None \<Rightarrow> None
      | Some (SBool b) \<Rightarrow> Some b
      | Some _ \<Rightarrow> Some dflt)"

definition reauthentication :: "resolved_settings \<Rightarrow> bool option" where
  "reauthentication r =
     (case resolved_get r ''require_reauth_for_credential_changes'' (SBool False) of
        Some (SBool b) \<Rightarrow> Some b
      | _ \<Rightarrow> None)"

definition narrow_ttl :: "int \<Rightarrow> int option \<Rightarrow> int \<Rightarrow> int \<Rightarrow> int" where
  "narrow_ttl deployment chosen_days minimum_days maximum_days =
     (case chosen_days of
        None \<Rightarrow> deployment
      | Some d \<Rightarrow> min deployment (max minimum_days (min d maximum_days) * SECONDS_PER_DAY))"

definition narrow_count :: "int \<Rightarrow> int option \<Rightarrow> int \<Rightarrow> int \<Rightarrow> int" where
  "narrow_count deployment chosen minimum maximum =
     (case chosen of None \<Rightarrow> deployment | Some c \<Rightarrow> min deployment (max minimum (min c maximum)))"

section \<open>Resolving a person\<close>

text \<open>\<open>_apply\<close>, with \<open>None\<close> for a raised \<open>SettingsRefused\<close>; the reads are in the code's order.\<close>

definition apply_settings :: "preferences \<Rightarrow> resolved_settings \<Rightarrow> preferences option" where
  "apply_settings deployment r =
     Option.bind (whole_number r ''session_ttl_days'' 1) (\<lambda>idle_days.
     Option.bind (whole_number r ''session_absolute_ttl_days'' 1) (\<lambda>absolute_days.
     Option.bind (whole_number r ''max_sessions'' 1) (\<lambda>max_sessions.
       let idle = narrow_ttl (pf_session_ttl_seconds deployment) idle_days
                    SESSION_TTL_DAYS_MIN SESSION_TTL_DAYS_MAX;
           absolute = narrow_ttl (pf_session_absolute_ttl_seconds deployment) absolute_days
                    SESSION_ABSOLUTE_TTL_DAYS_MIN SESSION_ABSOLUTE_TTL_DAYS_MAX
       in
       Option.bind (switch r ''email_notifications'' (pf_email_notifications deployment)) (\<lambda>email.
       Option.bind (switch r ''notify_on_new_session'' (pf_notify_on_new_session deployment)) (\<lambda>new_session.
       Option.bind (switch r ''notify_on_credential_change'' (pf_notify_on_credential_change deployment)) (\<lambda>change.
         Some \<lparr>pf_session_ttl_seconds = idle, pf_session_absolute_ttl_seconds = max absolute idle,
               pf_max_sessions = narrow_count (pf_max_sessions deployment) max_sessions
                 MAX_SESSIONS_MIN MAX_SESSIONS_MAX,
               pf_email_notifications = email, pf_notify_on_new_session = new_session,
               pf_notify_on_credential_change = change,
               pf_require_reauth = reauthentication r\<rparr>))))))"

text \<open>\<open>SettingsApiPreferences.for_account\<close> and \<open>DeploymentPreferences.for_account\<close>.\<close>

definition settings_api_preferences :: "settings \<Rightarrow> client_answer \<Rightarrow> preferences result" where
  "settings_api_preferences s answer =
     (case answer of
        SettingsUnavailable \<Rightarrow> Inr ((deployment_preferences s)\<lparr>pf_require_reauth := None\<rparr>)
      | SettingsRejected \<Rightarrow>
          Inl (PreferencesUnavailableError [''settings-api did not accept this service's request for your settings''])
      | Resolved r \<Rightarrow>
          (case apply_settings (deployment_preferences s) r of
             None \<Rightarrow> Inl (PreferencesUnavailableError
               [''one of your settings could not be read from settings-api and must not be guessed''])
           | Some p \<Rightarrow> Inr p))"

text \<open>
  \<open>build_preference_source\<close>: with no settings-api configured everybody gets the deployment's
  values. The client's answer for the account at the moment of the call is an argument.
\<close>

definition for_account :: "settings \<Rightarrow> (string \<Rightarrow> client_answer) \<Rightarrow> string \<Rightarrow> preferences result" where
  "for_account s client account_id =
     (case settings_api s of
        None \<Rightarrow> Inr (deployment_preferences s)
      | Some _ \<Rightarrow> settings_api_preferences s (client account_id))"

section \<open>A person narrows and never raises\<close>

lemma narrow_ttl_le: "narrow_ttl deployment chosen lo hi \<le> deployment"
  by (simp add: narrow_ttl_def split: option.splits)

lemma narrow_count_le: "narrow_count deployment chosen lo hi \<le> deployment"
  by (simp add: narrow_count_def split: option.splits)

lemma narrow_ttl_pos: "0 < deployment \<Longrightarrow> 1 \<le> lo \<Longrightarrow> 0 < narrow_ttl deployment chosen lo hi"
  by (auto simp: narrow_ttl_def SECONDS_PER_DAY_def max_def split: option.splits)

lemma narrow_count_pos: "0 < deployment \<Longrightarrow> 1 \<le> lo \<Longrightarrow> 0 < narrow_count deployment chosen lo hi"
  by (auto simp: narrow_count_def max_def split: option.splits)

text \<open>What every login may assume of its preferences.\<close>

definition within_deployment :: "settings \<Rightarrow> preferences \<Rightarrow> bool" where
  "within_deployment s p \<longleftrightarrow>
     0 < pf_session_ttl_seconds p \<and> pf_session_ttl_seconds p \<le> st_session_ttl_seconds s
     \<and> pf_session_ttl_seconds p \<le> pf_session_absolute_ttl_seconds p
     \<and> pf_session_absolute_ttl_seconds p \<le> st_session_absolute_ttl_seconds s
     \<and> 0 < pf_max_sessions p \<and> pf_max_sessions p \<le> st_max_sessions_per_account s"

lemma settings_lifetimes:
  assumes "settings_ok s"
  shows "0 < st_session_ttl_seconds s" and "st_session_ttl_seconds s \<le> st_session_absolute_ttl_seconds s"
    and "0 < st_max_sessions_per_account s" and "0 < st_session_absolute_ttl_seconds s"
  using assms by (auto simp: settings_ok_def positive_fields_def check_lifetimes_def value_error_def split: if_splits)

lemma apply_settings_within:
  assumes "settings_ok s" and "apply_settings (deployment_preferences s) r = Some p"
  shows "within_deployment s p"
proof -
  note pos = settings_lifetimes [OF assms(1)]
  have lo: "1 \<le> SESSION_TTL_DAYS_MIN" "1 \<le> MAX_SESSIONS_MIN"
    by (simp_all add: SESSION_TTL_DAYS_MIN_def MAX_SESSIONS_MIN_def)
  from assms(2) obtain idle_days absolute_days max_sessions where
    p: "pf_session_ttl_seconds p = narrow_ttl (st_session_ttl_seconds s) idle_days SESSION_TTL_DAYS_MIN SESSION_TTL_DAYS_MAX"
      "pf_session_absolute_ttl_seconds p = max (narrow_ttl (st_session_absolute_ttl_seconds s) absolute_days
         SESSION_ABSOLUTE_TTL_DAYS_MIN SESSION_ABSOLUTE_TTL_DAYS_MAX) (pf_session_ttl_seconds p)"
      "pf_max_sessions p = narrow_count (st_max_sessions_per_account s) max_sessions MAX_SESSIONS_MIN MAX_SESSIONS_MAX"
    by (auto simp: apply_settings_def deployment_preferences_def Let_def bind_eq_Some_conv)
  have "pf_session_ttl_seconds p \<le> st_session_ttl_seconds s" unfolding p(1) by (rule narrow_ttl_le)
  moreover have "narrow_ttl (st_session_absolute_ttl_seconds s) absolute_days
         SESSION_ABSOLUTE_TTL_DAYS_MIN SESSION_ABSOLUTE_TTL_DAYS_MAX \<le> st_session_absolute_ttl_seconds s"
    by (rule narrow_ttl_le)
  moreover have "0 < pf_session_ttl_seconds p" unfolding p(1) by (rule narrow_ttl_pos [OF pos(1) lo(1)])
  moreover have "0 < pf_max_sessions p" unfolding p(3) by (rule narrow_count_pos [OF pos(3) lo(2)])
  moreover have "pf_max_sessions p \<le> st_max_sessions_per_account s"
    unfolding p(3) by (rule narrow_count_le)
  ultimately show ?thesis
    using pos(2) unfolding within_deployment_def p(2) by linarith
qed

lemma deployment_within: "settings_ok s \<Longrightarrow> within_deployment s (deployment_preferences s)"
  using settings_lifetimes [of s] by (simp add: within_deployment_def deployment_preferences_def)

lemma for_account_within:
  assumes "settings_ok s" and "for_account s client aid = Inr p"
  shows "within_deployment s p"
proof -
  have "within_deployment s ((deployment_preferences s)\<lparr>pf_require_reauth := None\<rparr>)"
    using deployment_within [OF assms(1)] by (simp add: within_deployment_def)
  then show ?thesis
    using assms deployment_within [OF assms(1)]
    by (auto simp: for_account_def settings_api_preferences_def
        split: option.splits client_answer.splits dest: apply_settings_within)
qed

text \<open>Re-authentication is switched off only by an answer that says so, or by its absence.\<close>

lemma reauthentication_off:
  "reauthentication r = Some False \<longleftrightarrow>
     rs_entry r ''require_reauth_for_credential_changes'' \<in> {Missing, Present (SBool False)}"
  by (auto simp: reauthentication_def resolved_get_def split: option.splits setting.splits setting_lookup.splits)

end
