(* ===== verification/Sys.thy ===== *)
theory Sys
  imports SessionStore RoleStore AuditLog RateLimiter Preferences
begin

text \<open>
  The state the services share: the database, the rate limiter's dictionary and the outbox,
  with a count of the password verifications performed, which is what the timing of a login
  shows. \<open>env\<close> holds what one call draws from outside: the settings, the clocks, fresh
  tokens and identifiers, and the libraries the code calls (argon2, sha256, settings-api).
  Within one call the clock is read at one instant.
\<close>

section \<open>The outbox\<close>

text \<open>
  \<^verbatim>\<open>notifications/outbox.py\<close>. A message is the template of \<^verbatim>\<open>notifications/templates.py\<close> with its
  arguments; pending messages leave the queue when their task is done.
\<close>

datatype mail =
    InviteMessage string string int string \<comment> \<open>address, token, days, link base\<close>
  | ResetMessage string string int string \<comment> \<open>address, token, minutes, link base\<close>
  | NewSessionMessage string int
  | CredentialChangeMessage string credential_change change_origin int

fun to_address :: "mail \<Rightarrow> string" where
  "to_address (InviteMessage a t n l) = a"
| "to_address (ResetMessage a t n l) = a"
| "to_address (NewSessionMessage a t) = a"
| "to_address (CredentialChangeMessage a c r t) = a"

definition MAX_PENDING :: nat where "MAX_PENDING = 64"

definition outbox_enqueue :: "bool \<Rightarrow> mail \<Rightarrow> mail list \<Rightarrow> bool \<times> mail list" where
  "outbox_enqueue is_enabled m pending =
     (if \<not> is_enabled then (False, pending)
      else if length pending \<ge> MAX_PENDING then (False, pending)
      else (True, pending @ [m]))"

text \<open>\<open>task.add_done_callback(self._pending.discard)\<close>: the i-th pending delivery is done.\<close>

definition outbox_done :: "nat \<Rightarrow> mail list \<Rightarrow> mail list" where
  "outbox_done i pending = take i pending @ drop (Suc i) pending"

lemma outbox_bound:
  "length pending \<le> MAX_PENDING \<Longrightarrow> length (snd (outbox_enqueue b m pending)) \<le> MAX_PENDING"
  by (simp add: outbox_enqueue_def)

section \<open>State and environment\<close>

record sys = db +
  m_attempts :: attempts
  m_outbox :: "mail list"
  m_verifications :: nat

type_synonym ('z, 'a) sysop = "(error, 'z sys_scheme, 'a) op"

definition empty_sys :: sys where
  "empty_sys = db.extend empty_db \<lparr>m_attempts = [], m_outbox = [], m_verifications = 0\<rparr>"

text \<open>What \<open>argon2.PasswordHasher.verify\<close> does: return, or raise one of its two kinds of error.\<close>

datatype verify_outcome = Verified | RaisesArgon2Error | RaisesInvalidHash

record env =
  ev_settings :: settings
  ev_now :: int
  ev_wall_clock :: int \<comment> \<open>the system's own clock, which PyJWT reads\<close>
  ev_monotonic :: rat
  ev_token :: string \<comment> \<open>\<open>new_token()\<close>\<close>
  ev_id :: string \<comment> \<open>a fresh account, session or grant identifier\<close>
  ev_audit_id :: string
  ev_argon2_hash :: "string \<Rightarrow> string"
  ev_argon2_verify :: "string \<Rightarrow> string \<Rightarrow> verify_outcome"
  ev_check_needs_rehash :: "string \<Rightarrow> bool option" \<comment> \<open>\<open>None\<close>: raises \<open>InvalidHashError\<close>\<close>
  ev_dummy_hash :: string
  ev_hash_token :: "string \<Rightarrow> string"
  ev_settings_api :: "string \<Rightarrow> client_answer"
  ev_email_enabled :: bool

section \<open>The hasher\<close>

text \<open>\<^verbatim>\<open>accounts/hashing.py\<close> over the library's answers.\<close>

definition hasher_verify :: "env \<Rightarrow> string \<Rightarrow> string \<Rightarrow> bool" where
  "hasher_verify w stored_hash password =
     (case ev_argon2_verify w stored_hash password of
        Verified \<Rightarrow> True | RaisesArgon2Error \<Rightarrow> False | RaisesInvalidHash \<Rightarrow> False)"

definition hasher_needs_rehash :: "env \<Rightarrow> string \<Rightarrow> bool" where
  "hasher_needs_rehash w stored_hash =
     (case ev_check_needs_rehash w stored_hash of None \<Rightarrow> False | Some b \<Rightarrow> b)"

definition verify_password :: "env \<Rightarrow> string \<Rightarrow> string \<Rightarrow> ('z, bool) sysop" where
  "verify_password w stored_hash password s =
     (Inr (hasher_verify w stored_hash password), s\<lparr>m_verifications := m_verifications s + 1\<rparr>)"

definition verify_dummy :: "env \<Rightarrow> string \<Rightarrow> ('z, bool) sysop" where
  "verify_dummy w password = andthen (verify_password w (ev_dummy_hash w) password) (\<lambda>_. ret False)"

section \<open>Limiter and outbox as operations\<close>

definition check_limit :: "env \<Rightarrow> string \<Rightarrow> string \<Rightarrow> nat \<Rightarrow> rat \<Rightarrow> ('z, unit) sysop" where
  "check_limit w scope caller limit window s =
     (case limiter_check scope caller (ev_monotonic w) limit window (m_attempts s) of
        (r, m) \<Rightarrow> (r, s\<lparr>m_attempts := m\<rparr>))"

definition reset_limit :: "string \<Rightarrow> string \<Rightarrow> ('z, unit) sysop" where
  "reset_limit scope caller s = (Inr (), s\<lparr>m_attempts := limiter_reset scope caller (m_attempts s)\<rparr>)"

definition enqueue :: "env \<Rightarrow> mail \<Rightarrow> ('z, bool) sysop" where
  "enqueue w m s =
     (case outbox_enqueue (ev_email_enabled w) m (m_outbox s) of
        (b, q) \<Rightarrow> (Inr b, s\<lparr>m_outbox := q\<rparr>))"

section \<open>What leaves the database alone\<close>

text \<open>Database predicates do not look at the rest of the state.\<close>

lemma db_ok_rest [simp]:
  "db_ok (s\<lparr>m_attempts := m\<rparr>) = db_ok s" "db_ok (s\<lparr>m_outbox := q\<rparr>) = db_ok s"
  "db_ok (s\<lparr>m_verifications := n\<rparr>) = db_ok s"
  by (simp_all add: db_defs)

lemma account_get_rest [simp]:
  "account_get i (s\<lparr>m_attempts := m\<rparr>) = account_get i s" "account_get i (s\<lparr>m_outbox := q\<rparr>) = account_get i s"
  "account_get i (s\<lparr>m_verifications := n\<rparr>) = account_get i s"
  by (simp_all add: account_get_def read_one_fetch roles_of_def)

lemma keeps_verify_password [keeps_intros]:
  "(\<And>s n. P (s\<lparr>m_verifications := n\<rparr>) = P s) \<Longrightarrow> keeps P (verify_password w h p)"
  by (simp add: keeps_def verify_password_def)

lemma keeps_verify_dummy [keeps_intros]:
  "(\<And>s n. P (s\<lparr>m_verifications := n\<rparr>) = P s) \<Longrightarrow> keeps P (verify_dummy w p)"
  unfolding verify_dummy_def by (intro keeps_intros)

lemma keeps_check_limit [keeps_intros]:
  "(\<And>s m. P (s\<lparr>m_attempts := m\<rparr>) = P s) \<Longrightarrow> keeps P (check_limit w scope c l win)"
  by (simp add: keeps_def check_limit_def split: prod.splits)

lemma keeps_reset_limit [keeps_intros]:
  "(\<And>s m. P (s\<lparr>m_attempts := m\<rparr>) = P s) \<Longrightarrow> keeps P (reset_limit scope c)"
  by (simp add: keeps_def reset_limit_def)

lemma keeps_enqueue [keeps_intros]:
  "(\<And>s q. P (s\<lparr>m_outbox := q\<rparr>) = P s) \<Longrightarrow> keeps P (enqueue w m)"
  by (simp add: keeps_def enqueue_def split: prod.splits)

lemma keeps_db_txns [keeps_intros]:
  "keeps db_ok (transact (account_add a))" "keeps db_ok (transact (account_save a))"
  "keeps db_ok (transact (account_delete i))" "keeps db_ok (transact (account_set_roles i rs now))"
  "keeps db_ok (transact (session_add_within_cap x cap))" "keeps db_ok (transact (session_save x))"
  "keeps db_ok (transact (session_revoke i))" "keeps db_ok (transact (session_revoke_all i e))"
  "keeps db_ok (transact (session_purge_expired now))"
  "keeps db_ok (transact (grant_add g))" "keeps db_ok (transact (grant_redeem h now))"
  "keeps db_ok (transact (grant_revoke_all_for_account i p))"
  "keeps db_ok (transact (grant_purge_expired now))"
  "keeps db_ok (transact (role_add r))" "keeps db_ok (transact (role_save r))"
  "keeps db_ok (transact (role_delete n k))"
  "keeps db_ok (transact (audit_record k entry))"
proof -
  show "keeps db_ok (transact (account_add a))"
    by (rule keeps_transact) (rule account_add_Inr(1))
  show "keeps db_ok (transact (account_save a))"
    by (rule keeps_transact) (rule account_save_Inr(1))
  show "keeps db_ok (transact (account_delete i))"
    by (rule keeps_transact) (rule account_delete_Inr(1))
  show "keeps db_ok (transact (account_set_roles i rs now))"
    by (rule keeps_transact) (rule account_set_roles_Inr(1))
  show "keeps db_ok (transact (session_add_within_cap x cap))"
    by (rule keeps_transact) (rule session_add_within_cap_ok)
  show "keeps db_ok (transact (session_save x))"
    by (rule keeps_transact) (rule session_save_ok)
  show "keeps db_ok (transact (session_revoke i))"
    by (rule keeps_transact) (rule session_revoke_ok)
  show "keeps db_ok (transact (session_revoke_all i e))"
    by (rule keeps_transact) (rule session_revoke_all_ok)
  show "keeps db_ok (transact (session_purge_expired now))"
    by (rule keeps_transact) (rule session_purge_expired_ok)
  show "keeps db_ok (transact (grant_add g))"
    by (rule keeps_transact) (rule grant_add_ok)
  show "keeps db_ok (transact (grant_redeem h now))"
    by (rule keeps_transact) (rule grant_redeem_ok)
  show "keeps db_ok (transact (grant_revoke_all_for_account i p))"
    by (rule keeps_transact) (rule grant_revoke_all_ok)
  show "keeps db_ok (transact (grant_purge_expired now))"
    by (rule keeps_transact) (rule grant_purge_expired_ok)
  show "keeps db_ok (transact (role_add r))"
    by (rule keeps_transact) (rule role_add_Inr(1))
  show "keeps db_ok (transact (role_save r))"
    by (rule keeps_transact) (rule role_save_Inr(1))
  show "keeps db_ok (transact (role_delete n k))"
    by (rule keeps_transact) (rule role_delete_Inr(1))
  show "keeps db_ok (transact (audit_record k entry))"
    by (rule keeps_transact) (rule audit_record_db_ok)
qed

section \<open>What a transaction leaves alone\<close>

text \<open>A transaction on the database leaves the rest of the state as it was.\<close>

definition only_tables :: "'z db_scheme \<Rightarrow> 'z db_scheme \<Rightarrow> bool" where
  "only_tables d d' \<longleftrightarrow> d' = d\<lparr>t_accounts := t_accounts d', t_account_roles := t_account_roles d',
     t_roles := t_roles d', t_sessions := t_sessions d', t_grants := t_grants d',
     t_profiles := t_profiles d', t_connections := t_connections d', t_secrets := t_secrets d',
     t_offline_grants := t_offline_grants d', t_audit := t_audit d',
     t_audit_sequence := t_audit_sequence d'\<rparr>"

lemma only_tables_more: "only_tables d d' \<longleftrightarrow> db.more d' = db.more d"
  unfolding only_tables_def by (rule iffI) (erule ssubst, simp, cases d, cases d', simp)

lemma only_tables_rest:
  fixes s :: "'z sys_scheme"
  assumes "only_tables s t"
  shows "m_attempts t = m_attempts s" "m_outbox t = m_outbox s" "m_verifications t = m_verifications s"
proof -
  note eq = assms [unfolded only_tables_def]
  show "m_attempts t = m_attempts s" by (subst eq) simp
  show "m_outbox t = m_outbox s" by (subst eq) simp
  show "m_verifications t = m_verifications s" by (subst eq) simp
qed

lemma write_roles_more: "write_roles i rs d = Inr d' \<Longrightarrow> db.more d' = db.more d"
  by (drule write_roles_Inr(1)) simp

lemma txn_more:
  "account_add a d = Inr (u, d') \<Longrightarrow> db.more d' = db.more d"
  "account_save a d = Inr (u, d') \<Longrightarrow> db.more d' = db.more d"
  "account_delete i d = Inr (b, d') \<Longrightarrow> db.more d' = db.more d"
  "account_set_roles i rs now d = Inr (c, d') \<Longrightarrow> db.more d' = db.more d"
  "session_add_within_cap x cap d = Inr (k, d') \<Longrightarrow> db.more d' = db.more d"
  "session_save x d = Inr (u, d') \<Longrightarrow> db.more d' = db.more d"
  "session_revoke i d = Inr (b, d') \<Longrightarrow> db.more d' = db.more d"
  "session_revoke_all i e d = Inr (k, d') \<Longrightarrow> db.more d' = db.more d"
  "session_purge_expired now d = Inr (k, d') \<Longrightarrow> db.more d' = db.more d"
  "grant_add g d = Inr (u, d') \<Longrightarrow> db.more d' = db.more d"
  "grant_redeem h now d = Inr (og, d') \<Longrightarrow> db.more d' = db.more d"
  "grant_revoke_all_for_account i p d = Inr (k, d') \<Longrightarrow> db.more d' = db.more d"
  "grant_purge_expired now d = Inr (k, d') \<Longrightarrow> db.more d' = db.more d"
  "role_add r d = Inr (u, d') \<Longrightarrow> db.more d' = db.more d"
  "role_save r d = Inr (u, d') \<Longrightarrow> db.more d' = db.more d"
  "role_delete n k d = Inr (u, d') \<Longrightarrow> db.more d' = db.more d"
  "audit_record k en d = Inr (en', d') \<Longrightarrow> db.more d' = db.more d"
  by (auto simp: account_add_def account_save_def account_delete_def account_set_roles_def
      session_add_within_cap_def session_save_def session_revoke_def session_revoke_all_def
      session_purge_expired_def grant_add_def grant_redeem_def grant_revoke_all_for_account_def
      grant_purge_expired_def role_add_def role_save_def role_delete_def delete_role_row_def
      audit_record_def insert_defs delete_account_row_def delete_profiles_def Let_def
      split: if_splits sum.splits option.splits dest!: write_roles_more)

lemma keeps_rest_txn:
  assumes "\<And>s t. only_tables s t \<Longrightarrow> P t = P s"
    and "\<And>d x d'. t d = Inr (x, d') \<Longrightarrow> db.more d' = db.more d"
  shows "keeps P (transact t)"
  by (rule keeps_transact) (use assms only_tables_more in blast)

lemma keeps_verifications_txns [keeps_intros]:
  fixes k :: nat
  defines "P \<equiv> \<lambda>s :: 'z sys_scheme. m_verifications s = k"
  shows "keeps P (transact (account_add a))" "keeps P (transact (account_save a))"
    "keeps P (transact (account_delete i))" "keeps P (transact (account_set_roles i rs now))"
    "keeps P (transact (session_add_within_cap x cap))" "keeps P (transact (session_save x))"
    "keeps P (transact (session_revoke i))" "keeps P (transact (session_revoke_all i e))"
    "keeps P (transact (session_purge_expired now))" "keeps P (transact (grant_add g))"
    "keeps P (transact (grant_redeem h now))" "keeps P (transact (grant_revoke_all_for_account i p))"
    "keeps P (transact (grant_purge_expired now))"
  unfolding P_def
  by (rule keeps_rest_txn, simp add: only_tables_rest, erule txn_more)+

text \<open>
  Who may do what is decided by three tables. Transactions on sessions, grants and the audit
  log do not touch them.
\<close>

definition access_view :: "'z db_scheme \<Rightarrow> account_row list \<times> account_role list \<times> role list" where
  "access_view d = (t_accounts d, t_account_roles d, t_roles d)"

lemma txn_access:
  "session_add_within_cap x cap d = Inr (k, d') \<Longrightarrow> access_view d' = access_view d"
  "session_save x d = Inr (u, d') \<Longrightarrow> access_view d' = access_view d"
  "session_revoke i d = Inr (b, d') \<Longrightarrow> access_view d' = access_view d"
  "session_revoke_all i e d = Inr (k, d') \<Longrightarrow> access_view d' = access_view d"
  "session_purge_expired now d = Inr (k, d') \<Longrightarrow> access_view d' = access_view d"
  "grant_add g d = Inr (u, d') \<Longrightarrow> access_view d' = access_view d"
  "grant_redeem h now d = Inr (og, d') \<Longrightarrow> access_view d' = access_view d"
  "grant_revoke_all_for_account i p d = Inr (k, d') \<Longrightarrow> access_view d' = access_view d"
  "grant_purge_expired now d = Inr (k, d') \<Longrightarrow> access_view d' = access_view d"
  "audit_record m en d = Inr (en', d') \<Longrightarrow> access_view d' = access_view d"
  by (auto simp: access_view_def session_add_within_cap_def session_save_def session_revoke_def
      session_revoke_all_def session_purge_expired_def grant_add_def grant_redeem_def
      grant_revoke_all_for_account_def grant_purge_expired_def audit_record_def insert_session_def
      insert_grant_def Let_def split: if_splits sum.splits option.splits)

lemma access_view_account_get: "access_view d' = access_view d \<Longrightarrow> account_get i d' = account_get i d"
  by (simp add: access_view_def account_get_def read_one_fetch roles_of_def)

lemma access_view_role_get: "access_view d' = access_view d \<Longrightarrow> role_get n d' = role_get n d"
  by (simp add: access_view_def role_get_def)

lemma access_view_resolve: "access_view d' = access_view d \<Longrightarrow> role_resolve ns d' = role_resolve ns d"
  by (simp add: access_view_def role_resolve_def)

lemma access_view_rest [simp]:
  "access_view (s\<lparr>m_attempts := m\<rparr>) = access_view s" "access_view (s\<lparr>m_outbox := q\<rparr>) = access_view s"
  "access_view (s\<lparr>m_verifications := n\<rparr>) = access_view s"
  by (simp_all add: access_view_def)

lemma keeps_access_txns:
  fixes P :: "'z sys_scheme \<Rightarrow> bool"
  assumes "\<And>s t. db_ok s \<Longrightarrow> db_ok t \<Longrightarrow> access_view t = access_view s \<Longrightarrow> P s \<Longrightarrow> P t"
  shows "keeps (\<lambda>s. db_ok s \<and> P s) (transact (session_add_within_cap x cap))"
    "keeps (\<lambda>s. db_ok s \<and> P s) (transact (session_save x))"
    "keeps (\<lambda>s. db_ok s \<and> P s) (transact (session_revoke i))"
    "keeps (\<lambda>s. db_ok s \<and> P s) (transact (session_revoke_all i e))"
    "keeps (\<lambda>s. db_ok s \<and> P s) (transact (session_purge_expired now))"
    "keeps (\<lambda>s. db_ok s \<and> P s) (transact (grant_add g))"
    "keeps (\<lambda>s. db_ok s \<and> P s) (transact (grant_redeem h now))"
    "keeps (\<lambda>s. db_ok s \<and> P s) (transact (grant_revoke_all_for_account i p))"
    "keeps (\<lambda>s. db_ok s \<and> P s) (transact (grant_purge_expired now))"
    "keeps (\<lambda>s. db_ok s \<and> P s) (transact (audit_record m en))"
  by (rule keeps_transact, elim conjE, frule txn_access,
      blast intro: assms session_add_within_cap_ok session_save_ok session_revoke_ok
        session_revoke_all_ok session_purge_expired_ok grant_add_ok grant_redeem_ok
        grant_revoke_all_ok grant_purge_expired_ok audit_record_db_ok)+

end
