(* ===== verification/AccountService.thy ===== *)
theory AccountService
  imports Sys
begin

text \<open>
  \<^verbatim>\<open>src/src/keyring_api/accounts/service.py\<close>: invites, logins, sessions, passwords and resets.
  Each method is one operation over the shared state, with its guards, its transactions and
  its raises in the order of the code.
\<close>

section \<open>Vocabulary\<close>

definition BAD_CREDENTIALS :: message where
  "BAD_CREDENTIALS = [''email or password is incorrect'']"

definition BAD_GRANT :: message where
  "BAD_GRANT = [''this link is invalid or has expired'']"

definition SCOPE_LOGIN :: string where "SCOPE_LOGIN = ''login''"
definition SCOPE_RESET :: string where "SCOPE_RESET = ''reset''"
definition SCOPE_INVITE :: string where "SCOPE_INVITE = ''invite''"
definition SCOPE_RESET_RECIPIENT :: string where "SCOPE_RESET_RECIPIENT = ''reset-recipient''"

record issued_grant =
  ig_grant_id :: string
  ig_token :: string
  ig_expires_at :: int

record login_result =
  lr_session_id :: string
  lr_account_id :: string
  lr_token :: string
  lr_expires_at :: int

record sweep_result =
  sw_sessions :: nat
  sw_grants :: nat
  sw_rate_limit_records :: nat

section \<open>Shared\<close>

definition may_mail :: "env \<Rightarrow> string \<Rightarrow> ('z, bool) sysop" where
  "may_mail w address =
     handling is_rate_limited (\<lambda>_. ret False)
       (andthen (check_limit w SCOPE_RESET_RECIPIENT (ev_hash_token w address)
                  (es_max_messages (st_email (ev_settings w)))
                  (es_window_seconds (st_email (ev_settings w))))
         (\<lambda>_. ret True))"

definition mint_grant ::
  "env \<Rightarrow> grant_purpose \<Rightarrow> int \<Rightarrow> string option \<Rightarrow> string option \<Rightarrow> ('z, issued_grant) sysop" where
  "mint_grant w purpose ttl_seconds email account_id =
     (let now = ev_now w; token = ev_token w in
      andthen (of_result (new_grant (ev_id w) purpose (ev_hash_token w token) now
                            (now + timedelta_s ttl_seconds) email account_id)) (\<lambda>grant.
      andthen (transact (grant_add grant)) (\<lambda>_.
      ret \<lparr>ig_grant_id = gr_id grant, ig_token = token, ig_expires_at = gr_expires_at grant\<rparr>)))"

definition redeem_token :: "env \<Rightarrow> string \<Rightarrow> grant_purpose \<Rightarrow> ('z, grant) sysop" where
  "redeem_token w token purpose =
     andthen (transact (grant_redeem (ev_hash_token w token) (ev_now w))) (\<lambda>found.
       case found of
         None \<Rightarrow> raise (InvalidGrantError BAD_GRANT)
       | Some grant \<Rightarrow>
           if gr_purpose grant \<noteq> purpose then raise (InvalidGrantError BAD_GRANT) else ret grant)"

section \<open>Invites\<close>

definition issue_invite :: "env \<Rightarrow> string \<Rightarrow> ('z, issued_grant) sysop" where
  "issue_invite w email =
     andthen (of_result (normalize_email email)) (\<lambda>address.
     andthen (reading (account_get_by_email address)) (\<lambda>existing.
     andthen (guard (existing = None) (AccountExistsError [''an account already exists for '', py_repr address])) (\<lambda>_.
     andthen (mint_grant w INVITE (st_invite_ttl_seconds (ev_settings w)) (Some address) None) (\<lambda>grant.
     andthen (enqueue w (InviteMessage address (ig_token grant)
                (round_half_even (of_int (st_invite_ttl_seconds (ev_settings w)) / 86400))
                (es_link_base_url (st_email (ev_settings w))))) (\<lambda>_.
     ret grant)))))"

definition redeem_invite :: "env \<Rightarrow> string \<Rightarrow> string \<Rightarrow> string \<Rightarrow> ('z, account) sysop" where
  "redeem_invite w token password caller =
     (let rl = st_rate_limit (ev_settings w) in
      andthen (check_limit w SCOPE_INVITE caller (rl_invite_attempts rl) (rl_invite_window_seconds rl)) (\<lambda>_.
      andthen (of_result (check_password_policy password)) (\<lambda>_.
      andthen (redeem_token w token INVITE) (\<lambda>grant.
      case gr_email grant of
        None \<Rightarrow> raise (InvalidGrantError BAD_GRANT)
      | Some email \<Rightarrow>
          andthen (reading account_count) (\<lambda>n.
          let now = ev_now w;
              roles = (if n = 0 then [OWNER] else [DEFAULT_ROLE]);
              account = \<lparr>ac_id = ev_id w, ac_email = email, ac_password_hash = ev_argon2_hash w password,
                ac_created_at = now, ac_updated_at = now, ac_status = ACTIVE, ac_failed_attempts = 0,
                ac_locked_until = None, ac_roles = roles\<rparr>
          in
          andthen (transact (account_add account)) (\<lambda>_.
          andthen (reset_limit SCOPE_INVITE caller) (\<lambda>_.
          ret account)))))))"

section \<open>Login\<close>

definition find_for_login :: "string \<Rightarrow> ('z, account option) sysop" where
  "find_for_login email =
     (case normalize_email email of
        Inl _ \<Rightarrow> ret None
      | Inr address \<Rightarrow> reading (account_get_by_email address))"

definition accept_login :: "env \<Rightarrow> account \<Rightarrow> string \<Rightarrow> ('z, account) sysop" where
  "accept_login w account password =
     (let cleared = with_success account;
          upgraded = (if hasher_needs_rehash w (ac_password_hash cleared)
                      then cleared\<lparr>ac_password_hash := ev_argon2_hash w password, ac_updated_at := ev_now w\<rparr>
                      else cleared)
      in andthen (transact (account_save upgraded)) (\<lambda>_. ret upgraded))"

definition open_session :: "env \<Rightarrow> account \<Rightarrow> ('z, login_result) sysop" where
  "open_session w account =
     andthen (of_result (for_account (ev_settings w) (ev_settings_api w) (ac_id account))) (\<lambda>prefs.
     let now = ev_now w; token = ev_token w;
         session = \<lparr>se_id = ev_id w, se_account_id = ac_id account, se_token_hash = ev_hash_token w token,
           se_created_at = now, se_last_used_at = now,
           se_expires_at = now + timedelta_s (pf_session_ttl_seconds prefs),
           se_absolute_expires_at = now + timedelta_s (pf_session_absolute_ttl_seconds prefs),
           se_idle_ttl_seconds = Some (pf_session_ttl_seconds prefs)\<rparr>
     in
     andthen (transact (session_add_within_cap session (nat (pf_max_sessions prefs)))) (\<lambda>_.
     andthen (if announces_new_sessions prefs
              then enqueue w (NewSessionMessage (ac_email account) now) else ret False) (\<lambda>_.
     ret \<lparr>lr_session_id = se_id session, lr_account_id = ac_id account, lr_token = token,
          lr_expires_at = se_expires_at session\<rparr>)))"

definition login :: "env \<Rightarrow> string \<Rightarrow> string \<Rightarrow> string \<Rightarrow> ('z, login_result) sysop" where
  "login w email password caller =
     (let st = ev_settings w; rl = st_rate_limit st; now = ev_now w in
      andthen (check_limit w SCOPE_LOGIN caller (rl_login_attempts rl) (rl_login_window_seconds rl)) (\<lambda>_.
      andthen (find_for_login email) (\<lambda>found.
      case found of
        None \<Rightarrow> andthen (verify_dummy w password) (\<lambda>_. raise (AuthenticationError BAD_CREDENTIALS))
      | Some account \<Rightarrow>
          if is_locked account now \<or> ac_status account \<noteq> ACTIVE
          then andthen (verify_password w (ac_password_hash account) password) (\<lambda>_.
               raise (AuthenticationError BAD_CREDENTIALS))
          else andthen (verify_password w (ac_password_hash account) password) (\<lambda>good.
            if \<not> good
            then andthen (transact (account_save
                   (with_failure account now (st_lockout_threshold st) (st_lockout_seconds st)))) (\<lambda>_.
                 raise (AuthenticationError BAD_CREDENTIALS))
            else andthen (accept_login w account password) (\<lambda>account'.
                 andthen (reset_limit SCOPE_LOGIN caller) (\<lambda>_.
                 open_session w account'))))))"

section \<open>Sessions\<close>

definition resolve_session :: "env \<Rightarrow> string \<Rightarrow> ('z, session) sysop" where
  "resolve_session w token =
     andthen (reading (session_get_by_token_hash (ev_now w) (ev_hash_token w token))) (\<lambda>found.
     case found of
       None \<Rightarrow> raise (AuthenticationError BAD_CREDENTIALS)
     | Some session \<Rightarrow>
         andthen (reading (account_get (se_account_id session))) (\<lambda>account.
         andthen (guard (case account of None \<Rightarrow> False | Some a \<Rightarrow> ac_status a = ACTIVE)
                    (AuthenticationError BAD_CREDENTIALS)) (\<lambda>_.
         let refreshed = touched session (ev_now w)
               (case se_idle_ttl_seconds session of Some n \<Rightarrow> n | None \<Rightarrow> st_session_ttl_seconds (ev_settings w))
               None
         in andthen (transact (session_save refreshed)) (\<lambda>_. ret refreshed))))"

definition logout :: "string \<Rightarrow> ('z, bool) sysop" where
  "logout session_id = transact (session_revoke session_id)"

definition logout_everywhere :: "string \<Rightarrow> ('z, nat) sysop" where
  "logout_everywhere account_id = transact (session_revoke_all account_id None)"

definition set_status :: "env \<Rightarrow> string \<Rightarrow> account_status \<Rightarrow> ('z, unit) sysop" where
  "set_status w account_id status =
     andthen (reading (account_get account_id)) (\<lambda>found.
     case found of
       None \<Rightarrow> ret ()
     | Some account \<Rightarrow>
         transact (account_save (account\<lparr>ac_status := status, ac_updated_at := ev_now w\<rparr>)))"

section \<open>Passwords\<close>

definition set_password :: "env \<Rightarrow> account \<Rightarrow> string \<Rightarrow> string option \<Rightarrow> ('z, unit) sysop" where
  "set_password w account new_password keep_session_id =
     andthen (of_result (check_password_policy new_password)) (\<lambda>_.
     andthen (transact (account_save (account\<lparr>ac_password_hash := ev_argon2_hash w new_password,
                ac_failed_attempts := 0, ac_locked_until := None, ac_updated_at := ev_now w\<rparr>))) (\<lambda>_.
     andthen (transact (session_revoke_all (ac_id account) keep_session_id)) (\<lambda>_.
     andthen (transact (grant_revoke_all_for_account (ac_id account) PASSWORD_RESET)) (\<lambda>_.
     ret ()))))"

definition change_password ::
  "env \<Rightarrow> string \<Rightarrow> string \<Rightarrow> string \<Rightarrow> string option \<Rightarrow> ('z, unit) sysop" where
  "change_password w account_id current_password new_password keep_session_id =
     andthen (reading (account_get account_id)) (\<lambda>found.
     case found of
       None \<Rightarrow> raise (AuthenticationError BAD_CREDENTIALS)
     | Some account \<Rightarrow>
         andthen (verify_password w (ac_password_hash account) current_password) (\<lambda>good.
         if \<not> good then raise (AuthenticationError BAD_CREDENTIALS)
         else set_password w account new_password keep_session_id))"

definition confirm_password :: "env \<Rightarrow> string \<Rightarrow> string \<Rightarrow> ('z, unit) sysop" where
  "confirm_password w account_id password =
     (let st = ev_settings w; now = ev_now w in
      andthen (reading (account_get account_id)) (\<lambda>found.
      case found of
        None \<Rightarrow> andthen (verify_dummy w password) (\<lambda>_. raise (AuthenticationError BAD_CREDENTIALS))
      | Some account \<Rightarrow>
          if is_locked account now \<or> ac_status account \<noteq> ACTIVE
          then andthen (verify_password w (ac_password_hash account) password) (\<lambda>_.
               raise (AuthenticationError BAD_CREDENTIALS))
          else andthen (verify_password w (ac_password_hash account) password) (\<lambda>good.
            if \<not> good
            then andthen (transact (account_save
                   (with_failure account now (st_lockout_threshold st) (st_lockout_seconds st)))) (\<lambda>_.
                 raise (AuthenticationError BAD_CREDENTIALS))
            else if ac_failed_attempts account \<noteq> 0
            then transact (account_save (with_success account))
            else ret ())))"

definition request_password_reset :: "env \<Rightarrow> string \<Rightarrow> string \<Rightarrow> ('z, issued_grant option) sysop" where
  "request_password_reset w email caller =
     (let st = ev_settings w; rl = st_rate_limit st in
      andthen (check_limit w SCOPE_RESET caller (rl_reset_attempts rl) (rl_reset_window_seconds rl)) (\<lambda>_.
      andthen (find_for_login email) (\<lambda>found.
      case found of
        None \<Rightarrow> ret None
      | Some account \<Rightarrow>
          andthen (may_mail w (ac_email account)) (\<lambda>allowed.
          if \<not> allowed then ret None
          else
          andthen (transact (grant_revoke_all_for_account (ac_id account) PASSWORD_RESET)) (\<lambda>_.
          andthen (mint_grant w PASSWORD_RESET (st_reset_ttl_seconds st) None (Some (ac_id account))) (\<lambda>grant.
          andthen (enqueue w (ResetMessage (ac_email account) (ig_token grant)
                     (round_half_even (of_int (st_reset_ttl_seconds st) / 60))
                     (es_link_base_url (st_email st)))) (\<lambda>_.
          ret (Some grant))))))))"

definition issue_reset_for :: "env \<Rightarrow> account \<Rightarrow> ('z, issued_grant) sysop" where
  "issue_reset_for w account =
     (let st = ev_settings w in
      andthen (may_mail w (ac_email account)) (\<lambda>allowed.
      if \<not> allowed
      then raise (RateLimitedError [''that address has been sent too many messages recently'']
                    (es_window_seconds (st_email st)))
      else
      andthen (transact (grant_revoke_all_for_account (ac_id account) PASSWORD_RESET)) (\<lambda>_.
      andthen (mint_grant w PASSWORD_RESET (st_reset_ttl_seconds st) None (Some (ac_id account))) (\<lambda>grant.
      andthen (enqueue w (ResetMessage (ac_email account) (ig_token grant)
                 (round_half_even (of_int (st_reset_ttl_seconds st) / 60))
                 (es_link_base_url (st_email st)))) (\<lambda>_.
      ret grant)))))"

definition redeem_password_reset :: "env \<Rightarrow> string \<Rightarrow> string \<Rightarrow> string \<Rightarrow> ('z, account) sysop" where
  "redeem_password_reset w token new_password caller =
     (let rl = st_rate_limit (ev_settings w) in
      andthen (check_limit w SCOPE_RESET caller (rl_reset_attempts rl) (rl_reset_window_seconds rl)) (\<lambda>_.
      andthen (of_result (check_password_policy new_password)) (\<lambda>_.
      andthen (redeem_token w token PASSWORD_RESET) (\<lambda>grant.
      andthen (case gr_account_id grant of None \<Rightarrow> ret None | Some i \<Rightarrow> reading (account_get i)) (\<lambda>found.
      case found of
        None \<Rightarrow> raise (InvalidGrantError BAD_GRANT)
      | Some account \<Rightarrow>
          andthen (set_password w account new_password None) (\<lambda>_. ret account))))))"

section \<open>Deletion and retention\<close>

definition delete_account :: "string \<Rightarrow> ('z, bool) sysop" where
  "delete_account account_id = transact (account_delete account_id)"

definition purge_limits :: "env \<Rightarrow> rat \<Rightarrow> ('z, nat) sysop" where
  "purge_limits w window s =
     (case limiter_purge_expired (ev_monotonic w) window (m_attempts s) of
        (n, m) \<Rightarrow> (Inr n, s\<lparr>m_attempts := m\<rparr>))"

definition sweep_once :: "env \<Rightarrow> ('z, sweep_result) sysop" where
  "sweep_once w =
     (let rl = st_rate_limit (ev_settings w);
          widest_window = max (max (rl_login_window_seconds rl) (rl_reset_window_seconds rl))
                              (rl_invite_window_seconds rl)
      in
      andthen (transact (session_purge_expired (ev_now w))) (\<lambda>sessions.
      andthen (transact (grant_purge_expired (ev_now w))) (\<lambda>grants.
      andthen (purge_limits w widest_window) (\<lambda>records.
      ret \<lparr>sw_sessions = sessions, sw_grants = grants, sw_rate_limit_records = records\<rparr>))))"

section \<open>Every method keeps the database well formed\<close>

lemma keeps_purge_limits [keeps_intros]:
  "(\<And>s m. P (s\<lparr>m_attempts := m\<rparr>) = P s) \<Longrightarrow> keeps P (purge_limits w win)"
  by (simp add: keeps_def purge_limits_def split: prod.splits)

lemmas account_service_defs = may_mail_def mint_grant_def redeem_token_def issue_invite_def
  redeem_invite_def find_for_login_def accept_login_def open_session_def login_def
  resolve_session_def logout_def logout_everywhere_def set_status_def set_password_def
  change_password_def confirm_password_def request_password_reset_def issue_reset_for_def
  redeem_password_reset_def delete_account_def sweep_once_def

lemma keeps_db_shared [keeps_intros]:
  "keeps db_ok (may_mail w ad)" "keeps db_ok (mint_grant w p t em i)" "keeps db_ok (redeem_token w tok p)"
  "keeps db_ok (find_for_login e)" "keeps db_ok (accept_login w a pw)" "keeps db_ok (open_session w a)"
  "keeps db_ok (set_password w a pw k)"
  unfolding account_service_defs Let_def by (intro keeps_intros db_ok_rest)+

lemma keeps_db_service [keeps_intros]:
  "keeps db_ok (issue_invite w e)" "keeps db_ok (redeem_invite w tok pw c)" "keeps db_ok (login w e pw c)"
  "keeps db_ok (resolve_session w tok)" "keeps db_ok (logout i)" "keeps db_ok (logout_everywhere i)"
  "keeps db_ok (set_status w i st)" "keeps db_ok (change_password w i pw new k)"
  "keeps db_ok (confirm_password w i pw)" "keeps db_ok (request_password_reset w e c)"
  "keeps db_ok (issue_reset_for w a)" "keeps db_ok (redeem_password_reset w tok pw c)"
  "keeps db_ok (delete_account i)" "keeps db_ok (sweep_once w)"
  unfolding account_service_defs Let_def by (intro keeps_intros db_ok_rest)+

end
