(* ===== verification/Login.thy ===== *)
theory Login
  imports AccountService
begin

text \<open>
  What a login does, for \<^verbatim>\<open>AccountService.login\<close> of \<^verbatim>\<open>src/src/keyring_api/accounts/service.py\<close>:
  it is the limiter followed by \<open>authenticate\<close>, it verifies exactly one hash whatever the
  outcome, every refusal is the same error, and a success leaves a cleared account and a
  session inside the cap.
\<close>

section \<open>Reading the shared steps\<close>

lemma check_limit_state:
  "check_limit w scope c l win s = (r, t) \<Longrightarrow> \<exists>m. t = s\<lparr>m_attempts := m\<rparr>"
  by (auto simp: check_limit_def split: prod.splits)

lemma check_limit_error:
  "check_limit w scope c l win s = (Inl e, t) \<Longrightarrow> is_rate_limited e \<and> \<not> is_authentication_error e"
  by (auto simp: check_limit_def limiter_check_def split: prod.splits option.splits)

lemma find_for_login_state: "find_for_login e s = (r, t) \<Longrightarrow> t = s \<and> (\<exists>x. r = Inr x)"
  by (auto simp: find_for_login_def txn_simps split: sum.splits)

lemma find_for_login_Some:
  assumes "db_ok s" and "find_for_login e s = (Inr (Some a), t)"
  shows "account_get (ac_id a) s = Some a" and "normalize_email e = Inr (ac_email a)" and "t = s"
proof -
  obtain address where ad: "normalize_email e = Inr address"
    using assms(2) by (cases "normalize_email e") (simp_all add: find_for_login_def txn_simps)
  with assms(2) have "account_get_by_email address s = Some a \<and> s = t"
    by (auto simp only: find_for_login_def sum.case reading_simp prod.inject sum.inject)
  then have get: "account_get_by_email address s = Some a" and t: "t = s" by blast+
  have "account_get (ac_id a) s = Some a \<and> ac_email a = address"
    by (rule account_get_by_email_get [OF assms(1) get])
  then show "account_get (ac_id a) s = Some a" and "normalize_email e = Inr (ac_email a)"
    using ad by blast+
  show "t = s" by (rule t)
qed

lemma verify_password_eq:
  "verify_password w h p s = (Inr (hasher_verify w h p), s\<lparr>m_verifications := m_verifications s + 1\<rparr>)"
  by (simp add: verify_password_def)

lemma verify_dummy_eq: "verify_dummy w p s = (Inr False, s\<lparr>m_verifications := m_verifications s + 1\<rparr>)"
  by (simp add: verify_dummy_def txn_simps verify_password_def)

section \<open>Login\<close>

text \<open>The login without its limiter: what it does to the account it finds.\<close>

definition authenticate :: "env \<Rightarrow> string \<Rightarrow> string \<Rightarrow> account option \<Rightarrow> ('z, login_result) sysop" where
  "authenticate w password caller found =
     (let st = ev_settings w; now = ev_now w in
      case found of
        None \<Rightarrow> andthen (verify_dummy w password) (\<lambda>_. raise (AuthenticationError BAD_CREDENTIALS))
      | Some account \<Rightarrow>
          if is_locked account now \<or> ac_status account \<noteq> ACTIVE
          then andthen (verify_password w (ac_password_hash account) password) (\<lambda>_.
               raise (AuthenticationError BAD_CREDENTIALS))
          else andthen (verify_password w (ac_password_hash account) password) (\<lambda>good.
            if \<not> good
            then andthen (transact (account_save
                   (with_failure account now (st_lockout_threshold st) (st_lockout_seconds st)))) (\<lambda>_.
                 raise (AuthenticationError BAD_CREDENTIALS))
            else andthen (accept_login w account password) (\<lambda>account'.
                 andthen (reset_limit SCOPE_LOGIN caller) (\<lambda>_.
                 open_session w account'))))"

lemma login_eq:
  "login w email password caller =
     andthen (check_limit w SCOPE_LOGIN caller (rl_login_attempts (st_rate_limit (ev_settings w)))
                (rl_login_window_seconds (st_rate_limit (ev_settings w)))) (\<lambda>_.
     andthen (find_for_login email) (authenticate w password caller))"
  by (rule ext) (simp add: login_def authenticate_def[abs_def] Let_def)

lemma login_cases:
  assumes "login w email password caller s = (r, t)"
  obtains (limited) e where "r = Inl e" "is_rate_limited e" "\<exists>m. t = s\<lparr>m_attempts := m\<rparr>"
  | (answered) m found where "check_limit w SCOPE_LOGIN caller (rl_login_attempts (st_rate_limit (ev_settings w)))
                (rl_login_window_seconds (st_rate_limit (ev_settings w))) s = (Inr (), s\<lparr>m_attempts := m\<rparr>)"
      "find_for_login email (s\<lparr>m_attempts := m\<rparr>) = (Inr found, s\<lparr>m_attempts := m\<rparr>)"
      "authenticate w password caller found (s\<lparr>m_attempts := m\<rparr>) = (r, t)"
proof -
  obtain r1 s1 where c: "check_limit w SCOPE_LOGIN caller (rl_login_attempts (st_rate_limit (ev_settings w)))
                (rl_login_window_seconds (st_rate_limit (ev_settings w))) s = (r1, s1)" by fastforce
  obtain m where s1: "s1 = s\<lparr>m_attempts := m\<rparr>" using check_limit_state [OF c] by blast
  show thesis
  proof (cases r1)
    case (Inl e)
    with assms c have "r = Inl e" "t = s1" by (simp_all add: login_eq txn_simps)
    with Inl c s1 check_limit_error that(1) show thesis by blast
  next
    case (Inr u)
    obtain r2 s2 where f: "find_for_login email s1 = (r2, s2)" by fastforce
    from find_for_login_state [OF f] obtain found where "s2 = s1" "r2 = Inr found" by blast
    with assms c f Inr s1 have "authenticate w password caller found (s\<lparr>m_attempts := m\<rparr>) = (r, t)"
      by (simp add: login_eq txn_simps)
    with c f Inr s1 \<open>s2 = s1\<close> \<open>r2 = Inr found\<close> that(2) show thesis by simp
  qed
qed

text \<open>Every login past the limiter verifies exactly one hash, whatever the outcome.\<close>

lemma keeps_verifications_login:
  fixes k :: nat
  defines "P \<equiv> \<lambda>s :: 'z sys_scheme. m_verifications s = k"
  shows "keeps P (accept_login w a pw)" "keeps P (open_session w a)" "keeps P (reset_limit sc c)"
  unfolding P_def accept_login_def open_session_def Let_def
  by (intro keeps_intros; simp)+

lemma authenticate_cost:
  assumes "authenticate w password caller found s = (r, t)"
  shows "m_verifications t = m_verifications s + 1"
proof -
  let ?n = "m_verifications s + 1"
  let ?P = "\<lambda>s :: 'a sys_scheme. m_verifications s = ?n"
  have rest: "keeps ?P (andthen (transact (account_save a)) (\<lambda>_. raise e))" for a e
    by (intro keeps_intros)
  have accept: "keeps ?P (andthen (accept_login w a password) (\<lambda>account'.
                 andthen (reset_limit SCOPE_LOGIN caller) (\<lambda>_. open_session w account')))" for a
    by (intro keeps_intros keeps_verifications_login)
  show ?thesis
  proof (cases found)
    case None
    with assms show ?thesis by (auto simp: authenticate_def verify_dummy_eq txn_simps)
  next
    case (Some a)
    consider "is_locked a (ev_now w) \<or> ac_status a \<noteq> ACTIVE"
      | "\<not> (is_locked a (ev_now w) \<or> ac_status a \<noteq> ACTIVE)" "\<not> hasher_verify w (ac_password_hash a) password"
      | "\<not> (is_locked a (ev_now w) \<or> ac_status a \<noteq> ACTIVE)" "hasher_verify w (ac_password_hash a) password"
      by blast
    then show ?thesis
    proof cases
      case 1
      with Some assms show ?thesis by (auto simp: authenticate_def verify_password_eq txn_simps)
    next
      case 2
      with Some assms have "andthen (transact (account_save (with_failure a (ev_now w)
          (st_lockout_threshold (ev_settings w)) (st_lockout_seconds (ev_settings w)))))
          (\<lambda>_. raise (AuthenticationError BAD_CREDENTIALS)) (s\<lparr>m_verifications := ?n\<rparr>) = (r, t)"
        by (simp add: authenticate_def verify_password_eq Let_def andthen_simp [of "verify_password _ _ _"])
      from keepsD [OF rest _ this] show ?thesis by simp
    next
      case 3
      with Some assms have "andthen (accept_login w a password) (\<lambda>account'.
                 andthen (reset_limit SCOPE_LOGIN caller) (\<lambda>_. open_session w account'))
          (s\<lparr>m_verifications := ?n\<rparr>) = (r, t)"
        by (simp add: authenticate_def verify_password_eq Let_def andthen_simp [of "verify_password _ _ _"])
      from keepsD [OF accept _ this] show ?thesis by simp
    qed
  qed
qed

section \<open>Refusals\<close>

lemma roles_of_distinct:
  assumes "db_ok d"
  shows "distinct (roles_of aid d)"
proof -
  let ?mine = "select_where (\<lambda>r. ar_account_id r = aid) (t_account_roles d)"
  have "distinct (map role_key ?mine)"
    using assms by (intro distinct_select) (simp add: db_ok_def keys_ok_def)
  moreover have "map role_key ?mine = map (Pair aid) (map ar_role_name ?mine)"
    by (auto simp: role_key_def select_where_def)
  ultimately have "distinct (map (Pair aid) (map ar_role_name ?mine))" by simp
  then have "distinct (map ar_role_name ?mine)" by (simp only: distinct_map)
  moreover have "mset (map ar_role_name (sort_key ar_position ?mine)) = mset (map ar_role_name ?mine)"
    by simp
  ultimately show ?thesis unfolding roles_of_def by (metis mset_eq_imp_distinct_iff)
qed

lemma account_get_dedup: "db_ok d \<Longrightarrow> account_get i d = Some a \<Longrightarrow> dedup (ac_roles a) = ac_roles a"
  using roles_of_distinct [of d i] account_get_roles [of i d a] by (simp add: dedup_distinct)

definition login_account :: "string \<Rightarrow> 'z sys_scheme \<Rightarrow> account option" where
  "login_account email s =
     (case normalize_email email of Inl _ \<Rightarrow> None | Inr address \<Rightarrow> account_get_by_email address s)"

lemma account_get_by_email_rest [simp]:
  "account_get_by_email i (s\<lparr>m_attempts := m\<rparr>) = account_get_by_email i s"
  by (simp add: account_get_by_email_def read_one_fetch roles_of_def)

lemma login_account_rest [simp]: "login_account e (s\<lparr>m_attempts := m\<rparr>) = login_account e s"
  by (simp add: login_account_def split: sum.split)

lemma find_for_login_eq: "find_for_login e s = (Inr (login_account e s), s)"
  by (simp add: find_for_login_def login_account_def txn_simps split: sum.splits)

lemma login_account_get:
  "db_ok s \<Longrightarrow> login_account e s = Some a \<Longrightarrow> account_get (ac_id a) s = Some a"
  using find_for_login_Some(1) [of s e a s] find_for_login_eq [of e s] by simp

definition may_sign_in :: "env \<Rightarrow> string \<Rightarrow> account \<Rightarrow> bool" where
  "may_sign_in w password a \<longleftrightarrow>
     \<not> is_locked a (ev_now w) \<and> ac_status a = ACTIVE \<and> hasher_verify w (ac_password_hash a) password"

lemma save_fresh:
  assumes "db_ok s" and "account_get (ac_id a) s = Some old" and "ac_email a = ac_email old"
    and "ac_roles a = ac_roles old"
  obtains t where "transact (account_save a) s = (Inr (), t)" "db_ok t"
    "\<And>i. account_get i t = (if i = ac_id a then Some (a\<lparr>ac_created_at := ac_created_at old\<rparr>) else account_get i s)"
    "db.more t = db.more s"
proof -
  obtain t where t: "account_save a s = Inr ((), t)" using account_save_succeeds [OF assms] by blast
  note get = account_save_Inr(2) [OF assms(1) t]
  have "dedup (ac_roles a) = ac_roles a"
    using account_get_dedup [OF assms(1,2)] assms(4) by simp
  then have "a\<lparr>ac_created_at := ac_created_at old, ac_roles := dedup (ac_roles a)\<rparr>
      = a\<lparr>ac_created_at := ac_created_at old\<rparr>" by simp
  with get assms(2) have "account_get i t = (if i = ac_id a then Some (a\<lparr>ac_created_at := ac_created_at old\<rparr>) else account_get i s)" for i
    by simp
  then show thesis
    using that t account_save_Inr(1) [OF assms(1) t] txn_more(2) [OF t] by (simp add: transact_Inr)
qed

lemma authenticate_refused:
  assumes "db_ok s"
    and "\<And>a. found = Some a \<Longrightarrow> account_get (ac_id a) s = Some a \<and> \<not> may_sign_in w password a"
  shows "\<exists>t. authenticate w password caller found s = (Inl (AuthenticationError BAD_CREDENTIALS), t)"
proof (cases found)
  case None
  then show ?thesis by (simp add: authenticate_def verify_dummy_eq txn_simps)
next
  case (Some a)
  show ?thesis
  proof (cases "is_locked a (ev_now w) \<or> ac_status a \<noteq> ACTIVE")
    case True
    with Some show ?thesis by (simp add: authenticate_def verify_password_eq txn_simps)
  next
    case False
    then have bad: "\<not> hasher_verify w (ac_password_hash a) password"
      using assms(2) [OF Some] by (auto simp: may_sign_in_def)
    let ?s = "s\<lparr>m_verifications := m_verifications s + 1\<rparr>"
    obtain t where "transact (account_save (with_failure a (ev_now w)
          (st_lockout_threshold (ev_settings w)) (st_lockout_seconds (ev_settings w)))) ?s = (Inr (), t)"
      by (rule save_fresh [of ?s "with_failure a (ev_now w) (st_lockout_threshold (ev_settings w))
            (st_lockout_seconds (ev_settings w))" a]) (use assms(1) assms(2) [OF Some] in simp_all)
    with False bad Some show ?thesis
      by (simp add: authenticate_def verify_password_eq Let_def andthen_simp raise_simp)
  qed
qed

text \<open>
  Past the limiter a login is its second half, run for the account the address names. It costs one
  verification however it ends; without an account that may sign in it is one error, and with one
  the settings of that account are read next.
\<close>

lemma login_past:
  assumes "fst (check_limit w SCOPE_LOGIN caller (rl_login_attempts (st_rate_limit (ev_settings w)))
           (rl_login_window_seconds (st_rate_limit (ev_settings w))) s) = Inr ()"
  obtains m where "login w email password caller s
      = authenticate w password caller (login_account email s) (s\<lparr>m_attempts := m\<rparr>)"
proof -
  obtain r1 s1 where c: "check_limit w SCOPE_LOGIN caller (rl_login_attempts (st_rate_limit (ev_settings w)))
           (rl_login_window_seconds (st_rate_limit (ev_settings w))) s = (r1, s1)" by fastforce
  obtain m where s1: "s1 = s\<lparr>m_attempts := m\<rparr>" using check_limit_state [OF c] by blast
  have "r1 = Inr ()" using c assms by simp
  then have "login w email password caller s = authenticate w password caller (login_account email s1) s1"
    using c by (simp add: login_eq txn_simps find_for_login_eq)
  then show thesis using that s1 by simp
qed

lemma login_cost:
  assumes "fst (check_limit w SCOPE_LOGIN caller (rl_login_attempts (st_rate_limit (ev_settings w)))
           (rl_login_window_seconds (st_rate_limit (ev_settings w))) s) = Inr ()"
  shows "m_verifications (snd (login w email password caller s)) = m_verifications s + 1"
proof -
  obtain m where "login w email password caller s
      = authenticate w password caller (login_account email s) (s\<lparr>m_attempts := m\<rparr>)" by (rule login_past [OF assms])
  then show ?thesis
    using authenticate_cost [of w password caller "login_account email s" "s\<lparr>m_attempts := m\<rparr>"
        "fst (login w email password caller s)" "snd (login w email password caller s)"] by simp
qed

lemma login_refused:
  assumes "db_ok s"
    and "\<And>a. login_account email s = Some a \<Longrightarrow> \<not> may_sign_in w password a"
    and "fst (check_limit w SCOPE_LOGIN caller (rl_login_attempts (st_rate_limit (ev_settings w)))
           (rl_login_window_seconds (st_rate_limit (ev_settings w))) s) = Inr ()"
  shows "fst (login w email password caller s) = Inl (AuthenticationError BAD_CREDENTIALS)"
proof -
  obtain m where lg: "login w email password caller s
      = authenticate w password caller (login_account email s) (s\<lparr>m_attempts := m\<rparr>)" by (rule login_past [OF assms(3)])
  have "\<exists>t. authenticate w password caller (login_account email s) (s\<lparr>m_attempts := m\<rparr>)
      = (Inl (AuthenticationError BAD_CREDENTIALS), t)"
    by (rule authenticate_refused) (use assms(1,2) login_account_get [of s email] in auto)
  then show ?thesis using lg by auto
qed

lemma authenticate_unread:
  assumes "db_ok s" and "account_get (ac_id a) s = Some a" and "may_sign_in w password a"
    and "for_account (ev_settings w) (ev_settings_api w) (ac_id a) = Inl e"
  shows "\<exists>t. authenticate w password caller (Some a) s = (Inl e, t)"
proof -
  define u where "u = (if hasher_needs_rehash w (ac_password_hash (with_success a))
                      then (with_success a)\<lparr>ac_password_hash := ev_argon2_hash w password, ac_updated_at := ev_now w\<rparr>
                      else with_success a)"
  let ?s = "s\<lparr>m_verifications := m_verifications s + 1\<rparr>"
  have u: "ac_id u = ac_id a" "ac_email u = ac_email a" "ac_roles u = ac_roles a" by (simp_all add: u_def)
  obtain t where "transact (account_save u) ?s = (Inr (), t)"
    by (rule save_fresh [of ?s u a]) (use assms(1,2) u in simp_all)
  then have "accept_login w a password ?s = (Inr u, t)"
    unfolding accept_login_def Let_def u_def [symmetric] by (simp add: andthen_simp ret_def)
  then show ?thesis
    using assms(3,4) u(1)
    by (simp add: authenticate_def verify_password_eq may_sign_in_def Let_def andthen_simp [of "verify_password _ _ _"]
        andthen_simp reset_limit_def open_session_def of_result_def)
qed

lemma login_unread:
  assumes "db_ok s" and "login_account email s = Some a" and "may_sign_in w password a"
    and "for_account (ev_settings w) (ev_settings_api w) (ac_id a) = Inl e"
    and "fst (check_limit w SCOPE_LOGIN caller (rl_login_attempts (st_rate_limit (ev_settings w)))
           (rl_login_window_seconds (st_rate_limit (ev_settings w))) s) = Inr ()"
  shows "fst (login w email password caller s) = Inl e"
proof -
  obtain m where lg: "login w email password caller s
      = authenticate w password caller (login_account email s) (s\<lparr>m_attempts := m\<rparr>)" by (rule login_past [OF assms(5)])
  have "\<exists>t. authenticate w password caller (Some a) (s\<lparr>m_attempts := m\<rparr>) = (Inl e, t)"
    by (rule authenticate_unread) (use assms(1,3,4) login_account_get [OF assms(1,2)] in simp_all)
  then show ?thesis using lg assms(2) by auto
qed

text \<open>
  Who holds which role, and that no method of the account service but the redemption of an
  invite and the deletion of an account changes it. The view of a state is the roles of each
  account and the role table; \<open>stable R\<close> is a well-formed state with the view \<open>R\<close>. An account
  is written back with the roles it was read with, which is where the reads of each method
  matter.
\<close>

section \<open>Who holds which role\<close>

definition role_view :: "'z db_scheme \<Rightarrow> (string \<Rightarrow> string list option) \<times> role list" where
  "role_view d = ((\<lambda>i. map_option ac_roles (account_get i d)), t_roles d)"

definition stable :: "(string \<Rightarrow> string list option) \<times> role list \<Rightarrow> 'z sys_scheme \<Rightarrow> bool" where
  "stable R s \<longleftrightarrow> db_ok s \<and> role_view s = R"

definition fresh_in :: "(string \<Rightarrow> string list option) \<times> role list \<Rightarrow> account \<Rightarrow> bool" where
  "fresh_in R a \<longleftrightarrow> fst R (ac_id a) = Some (ac_roles a)"

lemma role_view_access: "access_view t = access_view s \<Longrightarrow> role_view t = role_view s"
  using access_view_account_get [of t s] by (simp add: role_view_def access_view_def)

lemma stable_rest [simp]:
  "stable R (s\<lparr>m_attempts := m\<rparr>) = stable R s" "stable R (s\<lparr>m_outbox := q\<rparr>) = stable R s"
  "stable R (s\<lparr>m_verifications := n\<rparr>) = stable R s"
  by (simp_all add: stable_def role_view_access [of "_\<lparr>m_attempts := _\<rparr>" s]
      role_view_access [of "_\<lparr>m_outbox := _\<rparr>" s] role_view_access [of "_\<lparr>m_verifications := _\<rparr>" s])

lemma keeps_stable_txns [keeps_intros]:
  "keeps (stable R) (transact (session_add_within_cap x cap))"
  "keeps (stable R) (transact (session_save x))"
  "keeps (stable R) (transact (session_revoke i))"
  "keeps (stable R) (transact (session_revoke_all i e))"
  "keeps (stable R) (transact (session_purge_expired now))"
  "keeps (stable R) (transact (grant_add g))"
  "keeps (stable R) (transact (grant_redeem h now))"
  "keeps (stable R) (transact (grant_revoke_all_for_account i p))"
  "keeps (stable R) (transact (grant_purge_expired now))"
  "keeps (stable R) (transact (audit_record m en))"
  unfolding stable_def [abs_def]
  by (rule keeps_access_txns, metis role_view_access)+

lemma fresh_in_get: "stable R s \<Longrightarrow> account_get i s = Some a \<Longrightarrow> fresh_in R a"
  using account_get_id [of i s a] by (auto simp: stable_def fresh_in_def role_view_def)

lemma keeps_stable_save [keeps_intros]:
  assumes "fresh_in R a"
  shows "keeps (stable R) (transact (account_save a))"
proof (rule keeps_transact)
  fix s u t
  assume st: "stable R s" and sv: "account_save a s = Inr (u, t)"
  then have ok: "db_ok s" and R: "role_view s = R" by (simp_all add: stable_def)
  then obtain old where old: "account_get (ac_id a) s = Some old" "ac_roles old = ac_roles a"
    using assms by (auto simp: fresh_in_def role_view_def)
  have "dedup (ac_roles a) = ac_roles a" using account_get_dedup [OF ok old(1)] old(2) by simp
  then have "map_option ac_roles (account_get i t) = map_option ac_roles (account_get i s)" for i
    using account_save_Inr(2) [OF ok sv, of i] old by simp
  moreover have "t_roles t = t_roles s"
  proof -
    obtain d' where "write_roles (ac_id a) (ac_roles a) (s\<lparr>t_accounts := update_where (\<lambda>r. ac_id r = ac_id a)
        (saved_row a) (t_accounts s)\<rparr>) = Inr d'" "t = d'"
      using sv by (auto simp: account_save_def split: if_splits sum.splits)
    then show ?thesis using write_roles_Inr(1) by fastforce
  qed
  ultimately have "role_view t = role_view s" by (simp add: role_view_def)
  then show "stable R t" using account_save_Inr(1) [OF ok sv] R by (simp add: stable_def)
qed

lemma fresh_in_update [simp]:
  "fresh_in R (with_failure a n t l) = fresh_in R a" "fresh_in R (with_success a) = fresh_in R a"
  "fresh_in R (a\<lparr>ac_password_hash := h\<rparr>) = fresh_in R a" "fresh_in R (a\<lparr>ac_updated_at := n\<rparr>) = fresh_in R a"
  "fresh_in R (a\<lparr>ac_status := st\<rparr>) = fresh_in R a" "fresh_in R (a\<lparr>ac_failed_attempts := k\<rparr>) = fresh_in R a"
  "fresh_in R (a\<lparr>ac_locked_until := l'\<rparr>) = fresh_in R a"
  by (simp_all add: fresh_in_def)

lemma keeps_stable_shared [keeps_intros]:
  "keeps (stable R) (may_mail w ad)" "keeps (stable R) (mint_grant w p t em i)"
  "keeps (stable R) (redeem_token w tok p)" "keeps (stable R) (open_session w a)"
  "keeps (stable R) (find_for_login e)"
  unfolding account_service_defs Let_def by (intro keeps_intros stable_rest)+

lemma keeps_stable_accept [keeps_intros]: "fresh_in R a \<Longrightarrow> keeps (stable R) (accept_login w a pw)"
  unfolding accept_login_def Let_def by (intro keeps_intros) simp

lemma keeps_stable_set_password [keeps_intros]: "fresh_in R a \<Longrightarrow> keeps (stable R) (set_password w a pw k)"
  unfolding set_password_def by (intro keeps_intros) simp

text \<open>An account that was read is the stored one.\<close>

definition all_fresh :: "(string \<Rightarrow> string list option) \<times> role list \<Rightarrow> account option \<Rightarrow> bool" where
  "all_fresh R found \<longleftrightarrow> (\<forall>a. found = Some a \<longrightarrow> fresh_in R a)"

lemma yields_account_get: "yields (stable R) (reading (account_get i)) (all_fresh R)"
  by (rule yields_reading) (auto simp: all_fresh_def fresh_in_get)

lemma yields_find_for_login: "yields (stable R) (find_for_login e) (all_fresh R)"
  unfolding yields_def
proof (intro allI impI)
  fix s :: "'a sys_scheme" and r t
  assume st: "stable R s" and f: "find_for_login e s = (r, t)"
  have "fresh_in R a" if "login_account e s = Some a" for a
    using fresh_in_get [OF st] login_account_get [of s e a] that st by (auto simp: stable_def)
  with f st show "stable R t \<and> (\<forall>x. r = Inr x \<longrightarrow> all_fresh R x)"
    by (auto simp: find_for_login_eq all_fresh_def)
qed

lemma keeps_stable_case:
  "all_fresh R found \<Longrightarrow> keeps P m \<Longrightarrow> (\<And>a. fresh_in R a \<Longrightarrow> keeps P (f a)) \<Longrightarrow>
     keeps P (case found of None \<Rightarrow> m | Some a \<Rightarrow> f a)"
  by (cases found) (simp_all add: all_fresh_def)

lemma keeps_read_case:
  assumes "yields (stable R) m (all_fresh R)" and "keeps (stable R) n"
    and "\<And>a. fresh_in R a \<Longrightarrow> keeps (stable R) (f a)"
  shows "keeps (stable R) (andthen m (\<lambda>found. case found of None \<Rightarrow> n | Some a \<Rightarrow> f a))"
  using assms(1) by (rule keeps_andthen_yields) (rule keeps_stable_case [OF _ assms(2,3)])

lemma keeps_stable_login: "keeps (stable R) (login w e pw c)"
  unfolding login_eq
proof (rule keeps_andthen)
  show "keeps (stable R) (andthen (find_for_login e) (authenticate w pw c))"
  proof (rule keeps_andthen_yields [OF yields_find_for_login])
    fix found assume "all_fresh R found"
    then show "keeps (stable R) (authenticate w pw c found)"
      unfolding authenticate_def Let_def
      by (rule keeps_stable_case) (intro keeps_intros stable_rest; simp)+
  qed
qed (intro keeps_intros stable_rest)

lemma keeps_stable_service [keeps_intros]:
  "keeps (stable R) (issue_invite w e)" "keeps (stable R) (resolve_session w tok)"
  "keeps (stable R) (logout i)" "keeps (stable R) (logout_everywhere i)"
  "keeps (stable R) (request_password_reset w e c)" "keeps (stable R) (issue_reset_for w a)"
  "keeps (stable R) (sweep_once w)"
  unfolding account_service_defs Let_def by (intro keeps_intros stable_rest)+

lemma keeps_stable_set_status [keeps_intros]: "keeps (stable R) (set_status w i st)"
  unfolding set_status_def
  by (rule keeps_read_case [OF yields_account_get]) (intro keeps_intros stable_rest; simp)+

lemma keeps_stable_change_password [keeps_intros]: "keeps (stable R) (change_password w i pw new k)"
  unfolding change_password_def
  by (rule keeps_read_case [OF yields_account_get]) (intro keeps_intros stable_rest; simp)+

lemma keeps_stable_confirm_password [keeps_intros]: "keeps (stable R) (confirm_password w i pw)"
  unfolding confirm_password_def Let_def
  by (rule keeps_read_case [OF yields_account_get]) (intro keeps_intros stable_rest; simp)+

lemma yields_reset_account:
  "yields (stable R) (case i of None \<Rightarrow> ret None | Some j \<Rightarrow> reading (account_get j)) (all_fresh R)"
  by (cases i) (simp_all add: yields_account_get yields_ret all_fresh_def)

lemma keeps_stable_redeem_reset [keeps_intros]: "keeps (stable R) (redeem_password_reset w tok pw c)"
  unfolding redeem_password_reset_def Let_def
proof (rule keeps_andthen, intro keeps_intros stable_rest, rule keeps_andthen, intro keeps_intros,
    rule keeps_andthen, intro keeps_intros)
  fix grant
  show "keeps (stable R)
     (andthen (case gr_account_id grant of None \<Rightarrow> ret None | Some i \<Rightarrow> reading (account_get i))
       (\<lambda>found. case found of None \<Rightarrow> raise (InvalidGrantError BAD_GRANT)
         | Some account \<Rightarrow> andthen (set_password w account pw None) (\<lambda>_. ret account)))"
    by (rule keeps_read_case [OF yields_reset_account]) (intro keeps_intros stable_rest; simp)+
qed

declare keeps_stable_login [keeps_intros]

text \<open>As an equation: the view after is the view before.\<close>

lemma keeps_stable_view:
  assumes "\<And>R. keeps (stable R) m" and "db_ok s" and "m s = (r, t)"
  shows "role_view t = role_view s" and "db_ok t"
  using assms keepsD [of "stable (role_view s)" m s r t] by (simp_all add: stable_def)

end
