(* ===== verification/SignIn.thy ===== *)
theory SignIn
  imports Login
begin

text \<open>
  What a successful login leaves behind, for \<^verbatim>\<open>AccountService.login\<close>: the password was the
  right one for an active, unlocked account, its failures are cleared, and its new session is
  stored under the token's hash, within the cap and the lifetimes of the deployment. And what
  the other ways in and out do to sessions and grants.
\<close>

section \<open>A login that succeeds\<close>

text \<open>The session added last is among the newest.\<close>

lemma newest_kept:
  assumes "0 < cap" and "\<And>x. x \<in> set xs \<Longrightarrow> se_created_at x < se_created_at s"
  shows "s \<in> set (take cap (rev (oldest_first (xs @ [s]))))"
proof -
  let ?k = "\<lambda>s :: session. (se_created_at s, se_id s)"
  define L where "L = oldest_first (xs @ [s])"
  have set: "set L = insert s (set xs)" by (simp add: L_def)
  then have ne: "L \<noteq> []" by auto
  have "sorted (map ?k L)" by (simp add: L_def oldest_first_def)
  moreover obtain i where i: "i < length L" "L ! i = s" using set by (metis in_set_conv_nth insertI1)
  ultimately have "?k (L ! i) \<le> ?k (L ! (length L - 1))"
    using sorted_nth_mono [of "map ?k L" i "length L - 1"] ne by simp
  then have "?k s \<le> ?k (last L)" using i(2) ne by (simp add: last_conv_nth)
  moreover have "last L = s \<or> se_created_at (last L) < se_created_at s"
    using set ne assms(2) last_in_set [OF ne] by auto
  ultimately have "last L = s" by auto
  then have "hd (rev L) = s" using ne by (simp add: hd_rev)
  moreover obtain n where "cap = Suc n" using assms(1) gr0_conv_Suc by blast
  ultimately show ?thesis using ne by (cases "rev L") (simp_all add: L_def [symmetric])
qed

lemma account_save_sessions: "account_save a d = Inr (u, d') \<Longrightarrow> t_sessions d' = t_sessions d"
  by (auto simp: account_save_def split: if_splits sum.splits dest!: write_roles_Inr(1))

lemma sessions_of_rest [simp]:
  "sessions_of i (s\<lparr>m_attempts := m\<rparr>) = sessions_of i s" "sessions_of i (s\<lparr>m_outbox := q\<rparr>) = sessions_of i s"
  "sessions_of i (s\<lparr>m_verifications := n\<rparr>) = sessions_of i s"
  by (simp_all add: sessions_of_def)

lemma accept_login_Inr:
  assumes "db_ok s" and "account_get (ac_id a) s = Some a" and "accept_login w a pw s = (Inr b, t)"
  shows "ac_id b = ac_id a" "ac_email b = ac_email a" "db_ok t" "t_sessions t = t_sessions s"
    "\<exists>c. account_get (ac_id a) t = Some c \<and> ac_failed_attempts c = 0 \<and> ac_locked_until c = None
         \<and> ac_status c = ac_status a \<and> ac_roles c = ac_roles a"
proof -
  define u where "u = (if hasher_needs_rehash w (ac_password_hash (with_success a))
                      then (with_success a)\<lparr>ac_password_hash := ev_argon2_hash w pw, ac_updated_at := ev_now w\<rparr>
                      else with_success a)"
  have sv: "account_save u s = Inr ((), t)" and b: "b = u"
    using assms(3) unfolding accept_login_def Let_def u_def [symmetric] by (auto simp: op_elims)
  have u: "ac_id u = ac_id a" "ac_email u = ac_email a" "ac_roles u = ac_roles a" "ac_status u = ac_status a"
    "ac_failed_attempts u = 0" "ac_locked_until u = None"
    by (simp_all add: u_def)
  show "ac_id b = ac_id a" "ac_email b = ac_email a" using u b by simp_all
  show "db_ok t" by (rule account_save_Inr(1) [OF assms(1) sv])
  show "t_sessions t = t_sessions s" by (rule account_save_sessions [OF sv])
  show "\<exists>c. account_get (ac_id a) t = Some c \<and> ac_failed_attempts c = 0 \<and> ac_locked_until c = None
         \<and> ac_status c = ac_status a \<and> ac_roles c = ac_roles a"
    using account_save_Inr(2) [OF assms(1) sv, of "ac_id a"] u assms(2) account_get_dedup [OF assms(1,2)]
    by simp
qed

definition opened_session :: "env \<Rightarrow> string \<Rightarrow> preferences \<Rightarrow> session" where
  "opened_session w aid prefs = \<lparr>se_id = ev_id w, se_account_id = aid, se_token_hash = ev_hash_token w (ev_token w),
     se_created_at = ev_now w, se_last_used_at = ev_now w,
     se_expires_at = ev_now w + timedelta_s (pf_session_ttl_seconds prefs),
     se_absolute_expires_at = ev_now w + timedelta_s (pf_session_absolute_ttl_seconds prefs),
     se_idle_ttl_seconds = Some (pf_session_ttl_seconds prefs)\<rparr>"

lemma open_session_Inr:
  assumes "open_session w a s = (Inr res, t)"
  obtains prefs n s1 m where "for_account (ev_settings w) (ev_settings_api w) (ac_id a) = Inr prefs"
    "session_add_within_cap (opened_session w (ac_id a) prefs) (nat (pf_max_sessions prefs)) s = Inr (n, s1)"
    "t = s1\<lparr>m_outbox := m\<rparr>"
    "res = \<lparr>lr_session_id = ev_id w, lr_account_id = ac_id a, lr_token = ev_token w,
            lr_expires_at = ev_now w + timedelta_s (pf_session_ttl_seconds prefs)\<rparr>"
proof -
  obtain prefs where prefs: "for_account (ev_settings w) (ev_settings_api w) (ac_id a) = Inr prefs"
    using assms by (auto simp: open_session_def op_elims)
  obtain n s1 where add: "session_add_within_cap (opened_session w (ac_id a) prefs) (nat (pf_max_sessions prefs)) s = Inr (n, s1)"
    and rest: "andthen (if announces_new_sessions prefs then enqueue w (NewSessionMessage (ac_email a) (ev_now w)) else ret False)
      (\<lambda>_. ret \<lparr>lr_session_id = ev_id w, lr_account_id = ac_id a, lr_token = ev_token w,
            lr_expires_at = ev_now w + timedelta_s (pf_session_ttl_seconds prefs)\<rparr>) s1 = (Inr res, t)"
    using assms unfolding open_session_def prefs opened_session_def [symmetric] Let_def
    by (simp only: andthen_Inr [of "of_result _"] andthen_Inr [of "transact _"] of_result_Inr transact_Inr) 
      (auto simp: opened_session_def)
  show thesis
  proof (rule that [OF prefs add])
    show "t = s1\<lparr>m_outbox := m_outbox t\<rparr>"
      using rest by (auto simp: txn_simps enqueue_def split: if_splits prod.splits)
    show "res = \<lparr>lr_session_id = ev_id w, lr_account_id = ac_id a, lr_token = ev_token w,
            lr_expires_at = ev_now w + timedelta_s (pf_session_ttl_seconds prefs)\<rparr>"
      using rest by (auto simp: txn_simps enqueue_def split: if_splits prod.splits)
  qed
qed

lemma authenticate_Inr:
  assumes "db_ok s" and "\<And>a. found = Some a \<Longrightarrow> account_get (ac_id a) s = Some a"
    and "authenticate w pw caller found s = (Inr res, t)"
  obtains a b u m where "found = Some a" "may_sign_in w pw a"
    "accept_login w a pw (s\<lparr>m_verifications := m_verifications s + 1\<rparr>) = (Inr b, u)"
    "open_session w b (u\<lparr>m_attempts := m\<rparr>) = (Inr res, t)"
proof (cases found)
  case None
  with assms(3) show thesis by (simp add: authenticate_def verify_dummy_eq txn_simps)
next
  case (Some a)
  let ?s = "s\<lparr>m_verifications := m_verifications s + 1\<rparr>"
  show thesis
  proof (cases "may_sign_in w pw a")
    case False
    with assms(1,2) Some have "\<exists>t. authenticate w pw caller found s = (Inl (AuthenticationError BAD_CREDENTIALS), t)"
      by (intro authenticate_refused) auto
    with assms(3) show thesis by auto
  next
    case True
    with Some assms(3) have "andthen (accept_login w a pw) (\<lambda>b.
        andthen (reset_limit SCOPE_LOGIN caller) (\<lambda>_. open_session w b)) ?s = (Inr res, t)"
      by (simp add: authenticate_def verify_password_eq may_sign_in_def Let_def andthen_simp [of "verify_password _ _ _"])
    then obtain b u where "accept_login w a pw ?s = (Inr b, u)"
      and "andthen (reset_limit SCOPE_LOGIN caller) (\<lambda>_. open_session w b) u = (Inr res, t)"
      by (simp only: andthen_Inr [of "accept_login _ _ _"]) blast
    moreover from this(2) have "open_session w b (u\<lparr>m_attempts := limiter_reset SCOPE_LOGIN caller (m_attempts u)\<rparr>) = (Inr res, t)"
      by (simp add: andthen_simp reset_limit_def)
    ultimately show thesis using that [OF Some True] by blast
  qed
qed

lemma login_Inr:
  assumes "db_ok s" and "login w email pw caller s = (Inr res, t)"
  obtains a prefs n u m q where "login_account email s = Some a" "may_sign_in w pw a"
    "for_account (ev_settings w) (ev_settings_api w) (ac_id a) = Inr prefs"
    "db_ok u" "t_sessions u = t_sessions s"
    "\<exists>c. account_get (ac_id a) u = Some c \<and> ac_failed_attempts c = 0 \<and> ac_locked_until c = None \<and> ac_roles c = ac_roles a"
    "session_add_within_cap (opened_session w (ac_id a) prefs) (nat (pf_max_sessions prefs))
       (u\<lparr>m_attempts := m\<rparr>) = Inr (n, t\<lparr>m_outbox := q\<rparr>)"
    "res = \<lparr>lr_session_id = ev_id w, lr_account_id = ac_id a, lr_token = ev_token w,
            lr_expires_at = ev_now w + timedelta_s (pf_session_ttl_seconds prefs)\<rparr>"
  using assms(2)
proof (cases rule: login_cases)
  case (limited e)
  then show thesis by simp
next
  case (answered m0 found)
  let ?s = "s\<lparr>m_attempts := m0\<rparr>"
  have found: "found = login_account email s" using answered(2) by (simp add: find_for_login_eq)
  have fresh: "account_get (ac_id a) ?s = Some a" if "found = Some a" for a
    using that assms(1) login_account_get [of s email a] by (simp add: found)
  have ok: "db_ok ?s" using assms(1) by simp
  from ok fresh answered(3) obtain a b u m where a: "found = Some a" "may_sign_in w pw a"
    and acc: "accept_login w a pw (?s\<lparr>m_verifications := m_verifications ?s + 1\<rparr>) = (Inr b, u)"
    and op: "open_session w b (u\<lparr>m_attempts := m\<rparr>) = (Inr res, t)"
    by (rule authenticate_Inr)
  note accepted = accept_login_Inr [OF _ _ acc]
  from op obtain prefs n s1 q where prefs: "for_account (ev_settings w) (ev_settings_api w) (ac_id b) = Inr prefs"
    and add: "session_add_within_cap (opened_session w (ac_id b) prefs) (nat (pf_max_sessions prefs))
      (u\<lparr>m_attempts := m\<rparr>) = Inr (n, s1)" and t: "t = s1\<lparr>m_outbox := q\<rparr>"
    and res: "res = \<lparr>lr_session_id = ev_id w, lr_account_id = ac_id b, lr_token = ev_token w,
            lr_expires_at = ev_now w + timedelta_s (pf_session_ttl_seconds prefs)\<rparr>"
    by (rule open_session_Inr)
  have "s1 = t\<lparr>m_outbox := m_outbox s1\<rparr>" using t by simp
  with add have add': "session_add_within_cap (opened_session w (ac_id b) prefs) (nat (pf_max_sessions prefs))
      (u\<lparr>m_attempts := m\<rparr>) = Inr (n, t\<lparr>m_outbox := m_outbox s1\<rparr>)" by simp
  have ver: "db_ok (?s\<lparr>m_verifications := m_verifications ?s + 1\<rparr>)"
    "account_get (ac_id a) (?s\<lparr>m_verifications := m_verifications ?s + 1\<rparr>) = Some a"
    using ok fresh [OF a(1)] by simp_all
  have id: "ac_id b = ac_id a" using accepted(1) [OF ver] .
  obtain c where c: "account_get (ac_id a) u = Some c" "ac_failed_attempts c = 0" "ac_locked_until c = None"
      "ac_roles c = ac_roles a" using accepted(5) [OF ver] by blast
  show thesis
    by (rule that [OF _ a(2) prefs [unfolded id] accepted(3) [OF ver] _ _ add' [unfolded id] res [unfolded id]])
      (use a found accepted(4) [OF ver] c in auto)
qed

lemma session_add_accounts:
  "session_add_within_cap x cap d = Inr (n, d') \<Longrightarrow> account_get i d' = account_get i d"
  using txn_access(1) by (rule access_view_account_get)

text \<open>What the account of a successful login looks like, and what its token opens.\<close>

lemma login_account_cleared:
  assumes "db_ok s" and "login w email pw caller s = (Inr res, t)"
  shows "\<exists>a c. login_account email s = Some a \<and> may_sign_in w pw a \<and> lr_account_id res = ac_id a
     \<and> account_get (ac_id a) t = Some c \<and> ac_failed_attempts c = 0 \<and> ac_locked_until c = None \<and> ac_roles c = ac_roles a"
  using assms
proof (rule login_Inr)
  fix a prefs n and u :: "'a sys_scheme" and m q
  assume a: "login_account email s = Some a" "may_sign_in w pw a"
    and c: "\<exists>c. account_get (ac_id a) u = Some c \<and> ac_failed_attempts c = 0 \<and> ac_locked_until c = None \<and> ac_roles c = ac_roles a"
    and add: "session_add_within_cap (opened_session w (ac_id a) prefs) (nat (pf_max_sessions prefs))
       (u\<lparr>m_attempts := m\<rparr>) = Inr (n, t\<lparr>m_outbox := q\<rparr>)"
    and res: "res = \<lparr>lr_session_id = ev_id w, lr_account_id = ac_id a, lr_token = ev_token w,
            lr_expires_at = ev_now w + timedelta_s (pf_session_ttl_seconds prefs)\<rparr>"
  from c obtain c where "account_get (ac_id a) u = Some c" "ac_failed_attempts c = 0" "ac_locked_until c = None" "ac_roles c = ac_roles a"
    by blast
  moreover have "account_get (ac_id a) t = account_get (ac_id a) u"
    using session_add_accounts [OF add, of "ac_id a"] by simp
  ultimately show ?thesis using a res by auto
qed

lemma login_sessions:
  assumes "db_ok s" and "settings_ok (ev_settings w)" and "login w email pw caller s = (Inr res, t)"
  shows "length (sessions_of (lr_account_id res) t) \<le> nat (st_max_sessions_per_account (ev_settings w))"
    and "lr_expires_at res \<le> ev_now w + timedelta_s (st_session_ttl_seconds (ev_settings w))"
    and "i \<noteq> lr_account_id res \<Longrightarrow> sessions_of i t = sessions_of i s"
    and "x \<in> set (sessions_of (lr_account_id res) t) \<Longrightarrow> x \<notin> set (sessions_of (lr_account_id res) s)
      \<Longrightarrow> se_token_hash x = ev_hash_token w (lr_token res) \<and> se_expires_at x = lr_expires_at res
        \<and> se_absolute_expires_at x \<le> ev_now w + timedelta_s (st_session_absolute_ttl_seconds (ev_settings w))"
    and "\<forall>x \<in> set (sessions_of (lr_account_id res) s). se_created_at x < ev_now w \<Longrightarrow>
      \<exists>x. session_get_by_token_hash (ev_now w) (ev_hash_token w (lr_token res)) t = Some x
        \<and> se_account_id x = lr_account_id res \<and> se_expires_at x = lr_expires_at res
        \<and> se_absolute_expires_at x \<le> ev_now w + timedelta_s (st_session_absolute_ttl_seconds (ev_settings w))"
proof -
  obtain a :: account and prefs n and u :: "'a sys_scheme" and m q where
    prefs: "for_account (ev_settings w) (ev_settings_api w) (ac_id a) = Inr prefs"
    and u: "db_ok u" "t_sessions u = t_sessions s"
    and add: "session_add_within_cap (opened_session w (ac_id a) prefs) (nat (pf_max_sessions prefs))
       (u\<lparr>m_attempts := m\<rparr>) = Inr (n, t\<lparr>m_outbox := q\<rparr>)"
    and res: "res = \<lparr>lr_session_id = ev_id w, lr_account_id = ac_id a, lr_token = ev_token w,
            lr_expires_at = ev_now w + timedelta_s (pf_session_ttl_seconds prefs)\<rparr>"
    by (rule login_Inr [OF assms(1,3)])
  let ?x = "opened_session w (ac_id a) prefs"
  note within = for_account_within [OF assms(2) prefs, unfolded within_deployment_def]
  have ok: "db_ok (u\<lparr>m_attempts := m\<rparr>)" using u(1) by simp
  have old: "sessions_of i u = sessions_of i s" for i
    by (simp add: sessions_of_def u(2))
  note cap = session_add_within_cap_Inr [OF ok add]
  have ids: "se_account_id ?x = ac_id a" by (simp add: opened_session_def)
  show "length (sessions_of (lr_account_id res) t) \<le> nat (st_max_sessions_per_account (ev_settings w))"
    using cap(1) within by (simp add: ids res) linarith
  show "lr_expires_at res \<le> ev_now w + timedelta_s (st_session_ttl_seconds (ev_settings w))"
    using within by (simp add: res timedelta_s_def)
  show "sessions_of i t = sessions_of i s" if "i \<noteq> lr_account_id res"
    using cap(3) [of i] that by (simp add: ids res old)
  show "se_token_hash x = ev_hash_token w (lr_token res) \<and> se_expires_at x = lr_expires_at res
        \<and> se_absolute_expires_at x \<le> ev_now w + timedelta_s (st_session_absolute_ttl_seconds (ev_settings w))"
    if "x \<in> set (sessions_of (lr_account_id res) t)" "x \<notin> set (sessions_of (lr_account_id res) s)" for x
  proof -
    have "x \<in> set (sessions_of (ac_id a) s @ [?x])"
      using that(1) cap(2) by (auto simp: ids old res dest!: in_set_takeD)
    then have "x = ?x" using that(2) by (simp add: res)
    then show ?thesis using within by (simp add: res opened_session_def timedelta_s_def)
  qed
  show "\<exists>x. session_get_by_token_hash (ev_now w) (ev_hash_token w (lr_token res)) t = Some x
        \<and> se_account_id x = lr_account_id res \<and> se_expires_at x = lr_expires_at res
        \<and> se_absolute_expires_at x \<le> ev_now w + timedelta_s (st_session_absolute_ttl_seconds (ev_settings w))"
    if earlier: "\<forall>x \<in> set (sessions_of (lr_account_id res) s). se_created_at x < ev_now w"
  proof -
    have "?x \<in> set (take (nat (pf_max_sessions prefs)) (rev (oldest_first (sessions_of (ac_id a) s @ [?x]))))"
      by (rule newest_kept) (use within earlier in \<open>simp_all add: res opened_session_def\<close>)
    then have "?x \<in> set (sessions_of (ac_id a) t)" using cap(2) by (simp add: ids old)
    then have "?x \<in> set (t_sessions t)" by (simp add: sessions_of_def table_simps)
    moreover have "db_ok (t\<lparr>m_outbox := q\<rparr>)" using session_add_within_cap_ok [OF ok add] .
    ultimately have "session_get_by_token_hash (ev_now w) (ev_hash_token w (ev_token w)) t = Some ?x"
      using within ss.live_view [of t "ev_now w" "ev_hash_token w (ev_token w)" ?x]
      by (simp add: opened_session_def is_expired_def timedelta_s_def)
    then show ?thesis using ids within by (simp add: res opened_session_def timedelta_s_def)
  qed
qed

section \<open>What a new password ends\<close>

lemma grant_revoke_all_sessions: "grant_revoke_all_for_account i p d = Inr (n, d') \<Longrightarrow> t_sessions d' = t_sessions d"
  by (auto simp: grant_revoke_all_for_account_def Let_def)

text \<open>
  Setting a password ends every session of the account but the one it keeps, and no reset
  outstanding for it can be redeemed afterwards.
\<close>

lemma set_password_Inr:
  assumes "db_ok s" and "set_password w a pw keep s = (Inr u, t)"
  shows "session_get_by_token_hash now h t = Some x \<Longrightarrow> se_account_id x = ac_id a \<Longrightarrow> Some (se_id x) = keep"
    and "g \<in> set (t_grants t) \<Longrightarrow> gr_account_id g = Some (ac_id a) \<Longrightarrow> gr_purpose g = PASSWORD_RESET
      \<Longrightarrow> \<not> is_redeemable g now"
    and "check_password_policy pw = Inr ()"
proof -
  from assms(2) obtain u1 s1 n1 s2 n2 where
    sv: "account_save (a\<lparr>ac_password_hash := ev_argon2_hash w pw,
                ac_failed_attempts := 0, ac_locked_until := None, ac_updated_at := ev_now w\<rparr>) s = Inr (u1, s1)"
    and rev: "session_revoke_all (ac_id a) keep s1 = Inr (n1, s2)"
    and gra: "grant_revoke_all_for_account (ac_id a) PASSWORD_RESET s2 = Inr (n2, t)"
    and pol: "check_password_policy pw = Inr ()"
    unfolding set_password_def by (auto simp: op_elims)
  have ok1: "db_ok s1" by (rule account_save_Inr(1) [OF assms(1) sv])
  have ok2: "db_ok s2" by (rule session_revoke_all_ok [OF ok1 rev])
  have ok: "db_ok t" by (rule grant_revoke_all_ok [OF ok2 gra])
  show "check_password_policy pw = Inr ()" by (rule pol)
  show "\<not> is_redeemable g now" if "g \<in> set (t_grants t)" "gr_account_id g = Some (ac_id a)" "gr_purpose g = PASSWORD_RESET"
    by (rule grant_revoke_all_unusable [OF gra that])
  assume live: "session_get_by_token_hash now h t = Some x" and mine: "se_account_id x = ac_id a"
  from live have "x \<in> set (t_sessions s2)"
    using session_get_Some [OF ok] grant_revoke_all_sessions [OF gra] by simp
  then show "Some (se_id x) = keep" using session_revoke_all_sessions [OF rev] mine by simp
qed

section \<open>What a token opens\<close>

lemma resolve_session_Inr:
  assumes "db_ok s" and "resolve_session w token s = (Inr x, t)"
  shows "\<exists>y a. y \<in> set (t_sessions s) \<and> se_token_hash y = ev_hash_token w token \<and> \<not> is_expired y (ev_now w)
      \<and> account_get (se_account_id y) s = Some a \<and> ac_status a = ACTIVE
      \<and> se_id x = se_id y \<and> se_account_id x = se_account_id y
      \<and> se_absolute_expires_at x = se_absolute_expires_at y \<and> se_expires_at x \<le> se_absolute_expires_at x"
proof -
  from assms(2) obtain y where live: "session_get_by_token_hash (ev_now w) (ev_hash_token w token) s = Some y"
    by (cases "session_get_by_token_hash (ev_now w) (ev_hash_token w token) s") (auto simp: resolve_session_def txn_simps)
  then obtain a where a: "account_get (se_account_id y) s = Some a"
    using assms(2) by (cases "account_get (se_account_id y) s") (auto simp: resolve_session_def txn_simps)
  from live a assms(2) have act: "ac_status a = ACTIVE"
    by (auto simp: resolve_session_def txn_simps split: if_splits)
  with live a assms(2) obtain i where "x = touched y (ev_now w) i None"
    by (auto simp: resolve_session_def Let_def txn_simps split: sum.splits)
  moreover have "y \<in> set (t_sessions s) \<and> se_token_hash y = ev_hash_token w token \<and> \<not> is_expired y (ev_now w)"
    using ss.live_view [OF assms(1)] live by blast
  ultimately show ?thesis using a act touched_ceiling [of y "ev_now w" i None]
    by (intro exI [of _ y] exI [of _ a]) (simp add: touched_absolute)
qed

end
