(* ===== verification/AdminService.thy ===== *)
theory AdminService
  imports Login
begin

text \<open>
  \<^verbatim>\<open>src/src/keyring_api/admin/service.py\<close>: administrative operations over accounts, roles and
  the audit log, each with its guards in the order of the code: the permission first, then
  the target, then the rule that nobody acts on or grants above themselves.
\<close>

section \<open>Actors and guards\<close>

record actor =
  at_account_id :: string
  at_permissions :: "permission set"
  at_is_break_glass :: bool

definition actor_has :: "actor \<Rightarrow> permission \<Rightarrow> bool" where
  "actor_has actor p \<longleftrightarrow> p \<in> at_permissions actor"

definition require :: "actor \<Rightarrow> permission \<Rightarrow> ('z, unit) sysop" where
  "require actor p =
     guard (p \<in> at_permissions actor)
       (InsufficientPermissionError [''this action requires the '', py_repr (permission_value p), '' permission''])"

definition require_account :: "string \<Rightarrow> ('z, account) sysop" where
  "require_account account_id =
     andthen (reading (account_get account_id)) (\<lambda>found.
     case found of
       None \<Rightarrow> raise (AccountNotFoundError NO_SUCH_ACCOUNT)
     | Some account \<Rightarrow> ret account)"

definition check_can_act_on :: "actor \<Rightarrow> account \<Rightarrow> ('z, unit) sysop" where
  "check_can_act_on actor target =
     (if at_is_break_glass actor \<or> ac_id target = at_account_id actor then ret ()
      else andthen (reading (role_resolve (ac_roles target))) (\<lambda>held_by_target.
        let excess = held_by_target - at_permissions actor in
        guard (excess = {}) (InsufficientPermissionError
          [''you cannot act on an account that holds permissions you do not: '', permission_names excess])))"

definition check_grantable :: "actor \<Rightarrow> permission set \<Rightarrow> ('z, unit) sysop" where
  "check_grantable actor permissions =
     (if at_is_break_glass actor then ret ()
      else of_result (check_can_grant (at_permissions actor) permissions))"

definition check_description :: "string \<Rightarrow> ('z, unit) sysop" where
  "check_description description =
     guard (length description \<le> MAX_ROLE_DESCRIPTION_LENGTH)
       (InvalidRoleError [''description must be at most 200 characters''])"

definition record_action ::
  "env \<Rightarrow> actor \<Rightarrow> audit_action \<Rightarrow> string option \<Rightarrow> string \<Rightarrow> ('z, unit) sysop" where
  "record_action w actor action target_id detail =
     andthen (transact (audit_record MAX_ENTRIES
       \<lparr>au_entry_id = ev_audit_id w, au_at = ev_now w, au_action = action,
        au_actor_id = (if at_is_break_glass actor then BREAK_GLASS_ACTOR else at_account_id actor),
        au_target_id = target_id, au_detail = detail\<rparr>)) (\<lambda>_. ret ())"

section \<open>Reading\<close>

definition admin_list_accounts :: "actor \<Rightarrow> ('z, account list) sysop" where
  "admin_list_accounts actor =
     andthen (require actor ACCOUNTS_READ) (\<lambda>_. reading account_list_all)"

definition admin_get_account :: "actor \<Rightarrow> string \<Rightarrow> ('z, account) sysop" where
  "admin_get_account actor account_id =
     andthen (require actor ACCOUNTS_READ) (\<lambda>_. require_account account_id)"

definition admin_read_audit :: "actor \<Rightarrow> nat \<Rightarrow> ('z, audit_entry list) sysop" where
  "admin_read_audit actor limit =
     andthen (require actor AUDIT_READ) (\<lambda>_. reading (audit_recent limit None))"

definition admin_list_roles :: "actor \<Rightarrow> ('z, role list) sysop" where
  "admin_list_roles actor = andthen (require actor ROLES_READ) (\<lambda>_. reading role_list_all)"

section \<open>Acting on accounts\<close>

definition admin_invite :: "env \<Rightarrow> actor \<Rightarrow> string \<Rightarrow> ('z, issued_grant) sysop" where
  "admin_invite w actor email =
     andthen (require actor ACCOUNTS_INVITE) (\<lambda>_.
     andthen (issue_invite w email) (\<lambda>grant.
     andthen (record_action w actor ACCOUNT_INVITED None (''grant '' @ ig_grant_id grant)) (\<lambda>_.
     ret grant)))"

definition admin_set_status :: "env \<Rightarrow> actor \<Rightarrow> string \<Rightarrow> account_status \<Rightarrow> ('z, account) sysop" where
  "admin_set_status w actor account_id status =
     andthen (require actor ACCOUNTS_DISABLE) (\<lambda>_.
     andthen (require_account account_id) (\<lambda>account.
     andthen (check_can_act_on actor account) (\<lambda>_.
     andthen (set_status w account_id status) (\<lambda>_.
     andthen (if status \<noteq> ACTIVE then logout_everywhere account_id else ret 0) (\<lambda>_.
     andthen (record_action w actor (if status = ACTIVE then ACCOUNT_ENABLED else ACCOUNT_DISABLED)
                (Some account_id) []) (\<lambda>_.
     andthen (reading (account_get account_id)) (\<lambda>updated.
     ret (case updated of Some a \<Rightarrow> a | None \<Rightarrow> account))))))))"

definition admin_revoke_sessions :: "env \<Rightarrow> actor \<Rightarrow> string \<Rightarrow> ('z, nat) sysop" where
  "admin_revoke_sessions w actor account_id =
     andthen (require actor ACCOUNTS_REVOKE_SESSIONS) (\<lambda>_.
     andthen (require_account account_id) (\<lambda>account.
     andthen (check_can_act_on actor account) (\<lambda>_.
     andthen (logout_everywhere account_id) (\<lambda>revoked.
     andthen (record_action w actor ACCOUNT_SESSIONS_REVOKED (Some account_id)
                (str_nat revoked @ '' session(s)'')) (\<lambda>_.
     ret revoked)))))"

definition admin_issue_password_reset :: "env \<Rightarrow> actor \<Rightarrow> string \<Rightarrow> ('z, issued_grant) sysop" where
  "admin_issue_password_reset w actor account_id =
     andthen (require actor ACCOUNTS_RESET_PASSWORD) (\<lambda>_.
     andthen (require_account account_id) (\<lambda>account.
     andthen (check_can_act_on actor account) (\<lambda>_.
     andthen (issue_reset_for w account) (\<lambda>grant.
     andthen (record_action w actor ACCOUNT_PASSWORD_RESET_ISSUED (Some account_id) []) (\<lambda>_.
     ret grant)))))"

definition admin_delete_account :: "env \<Rightarrow> actor \<Rightarrow> string \<Rightarrow> ('z, unit) sysop" where
  "admin_delete_account w actor account_id =
     andthen (require actor ACCOUNTS_DELETE) (\<lambda>_.
     andthen (require_account account_id) (\<lambda>account.
     andthen (check_can_act_on actor account) (\<lambda>_.
     andthen (delete_account account_id) (\<lambda>_.
     record_action w actor ACCOUNT_DELETED (Some account_id) []))))"

section \<open>Roles\<close>

definition create_role ::
  "env \<Rightarrow> actor \<Rightarrow> string \<Rightarrow> string list \<Rightarrow> string \<Rightarrow> ('z, role) sysop" where
  "create_role w actor name permissions description =
     andthen (require actor ROLES_WRITE) (\<lambda>_.
     andthen (of_result (normalize_role_name name)) (\<lambda>role_name.
     andthen (of_result (parse_permissions permissions)) (\<lambda>wanted.
     andthen (check_grantable actor wanted) (\<lambda>_.
     andthen (check_description description) (\<lambda>_.
     andthen (reading (role_get role_name)) (\<lambda>existing.
     andthen (guard (existing = None)
                (RoleExistsError [''a role named '', py_repr role_name, '' already exists''])) (\<lambda>_.
     let now = ev_now w;
         role = \<lparr>ro_name = role_name, ro_permissions = wanted, ro_description = description,
                 ro_builtin = False, ro_created_at = Some now, ro_updated_at = Some now\<rparr>
     in
     andthen (transact (role_add role)) (\<lambda>_.
     andthen (record_action w actor ROLE_CREATED None (''role '' @ py_repr role_name)) (\<lambda>_.
     ret role)))))))))"

definition update_role ::
  "env \<Rightarrow> actor \<Rightarrow> string \<Rightarrow> string list \<Rightarrow> string \<Rightarrow> ('z, role) sysop" where
  "update_role w actor name permissions description =
     andthen (require actor ROLES_WRITE) (\<lambda>_.
     andthen (of_result (normalize_role_name name)) (\<lambda>role_name.
     andthen (reading (role_require role_name)) (\<lambda>found.
     andthen (of_result found) (\<lambda>role.
     andthen (guard (\<not> ro_builtin role)
                (InvalidRoleError [py_repr (ro_name role), '' is a built-in role and cannot be edited''])) (\<lambda>_.
     andthen (of_result (parse_permissions permissions)) (\<lambda>wanted.
     andthen (check_grantable actor wanted) (\<lambda>_.
     andthen (check_description description) (\<lambda>_.
     let updated = with_permissions role wanted description (ev_now w) in
     andthen (transact (role_save updated)) (\<lambda>_.
     andthen (record_action w actor ROLE_UPDATED None (''role '' @ py_repr (ro_name role))) (\<lambda>_.
     ret updated))))))))))"

definition delete_role :: "env \<Rightarrow> actor \<Rightarrow> string \<Rightarrow> ('z, unit) sysop" where
  "delete_role w actor name =
     andthen (require actor ROLES_WRITE) (\<lambda>_.
     andthen (of_result (normalize_role_name name)) (\<lambda>role_name.
     andthen (reading (count_holding role_name)) (\<lambda>held_by.
     andthen (transact (role_delete role_name held_by)) (\<lambda>_.
     record_action w actor ROLE_DELETED None (''role '' @ py_repr role_name)))))"

text \<open>The names normalised in order; the first one refused is raised.\<close>

fun normalize_all :: "string list \<Rightarrow> string list result" where
  "normalize_all [] = Inr []"
| "normalize_all (n # ns) =
     (case normalize_role_name n of
        Inl e \<Rightarrow> Inl e
      | Inr m \<Rightarrow> (case normalize_all ns of Inl e \<Rightarrow> Inl e | Inr ms \<Rightarrow> Inr (m # ms)))"

text \<open>The loop that resolves each role and accumulates its permissions.\<close>

fun granted_permissions :: "string list \<Rightarrow> permission set \<Rightarrow> 'z db_scheme \<Rightarrow> permission set result" where
  "granted_permissions [] granted d = Inr granted"
| "granted_permissions (name # names) granted d =
     (case role_get name d of
        None \<Rightarrow> Inl (RoleNotFoundError [''no role named '', py_repr name])
      | Some role \<Rightarrow> granted_permissions names (granted \<union> ro_permissions role) d)"

definition set_account_roles :: "env \<Rightarrow> actor \<Rightarrow> string \<Rightarrow> string list \<Rightarrow> ('z, account) sysop" where
  "set_account_roles w actor account_id roles =
     andthen (require actor ROLES_ASSIGN) (\<lambda>_.
     andthen (require_account account_id) (\<lambda>account.
     andthen (of_result (normalize_all roles)) (\<lambda>names.
     let wanted = dedup names in
     andthen (guard (length wanted \<le> MAX_ROLES_PER_ACCOUNT)
                (InvalidRoleError [''an account may hold at most 16 roles''])) (\<lambda>_.
     andthen (reading (granted_permissions wanted {})) (\<lambda>resolved.
     andthen (of_result resolved) (\<lambda>granted.
     andthen (check_grantable actor granted) (\<lambda>_.
     andthen (transact (account_set_roles (ac_id account) wanted (ev_now w))) (\<lambda>updated.
     andthen (record_action w actor ROLES_ASSIGNED (Some account_id)
                (''roles '' @ (if wanted = [] then ''(none)'' else join '', '' wanted))) (\<lambda>_.
     ret updated)))))))))"

section \<open>Every method keeps the database well formed\<close>

lemmas admin_guard_defs = require_def require_account_def check_can_act_on_def check_grantable_def
  check_description_def record_action_def

lemmas admin_defs = admin_list_accounts_def admin_get_account_def admin_read_audit_def
  admin_list_roles_def admin_invite_def admin_set_status_def admin_revoke_sessions_def
  admin_issue_password_reset_def admin_delete_account_def create_role_def update_role_def
  delete_role_def set_account_roles_def

lemma keeps_guards [keeps_intros]:
  "keeps P (require actor p)" "keeps P (require_account i)" "keeps P (check_can_act_on actor a)"
  "keeps P (check_grantable actor ps)" "keeps P (check_description d)"
  unfolding admin_guard_defs Let_def by (intro keeps_intros)+

lemma keeps_db_record [keeps_intros]: "keeps db_ok (record_action w actor a t d)"
  unfolding record_action_def by (intro keeps_intros)

lemma keeps_db_admin:
  "keeps db_ok (admin_list_accounts actor)" "keeps db_ok (admin_get_account actor i)"
  "keeps db_ok (admin_read_audit actor l)" "keeps db_ok (admin_list_roles actor)"
  "keeps db_ok (admin_invite w actor e)" "keeps db_ok (admin_set_status w actor i st)"
  "keeps db_ok (admin_revoke_sessions w actor i)" "keeps db_ok (admin_issue_password_reset w actor i)"
  "keeps db_ok (admin_delete_account w actor i)" "keeps db_ok (create_role w actor n ps ds)"
  "keeps db_ok (update_role w actor n ps ds)" "keeps db_ok (delete_role w actor n)"
  "keeps db_ok (set_account_roles w actor i rs)"
  unfolding admin_defs Let_def by (intro keeps_intros)+

end
