(* ===== verification/NoEscalation.thy ===== *)
theory NoEscalation
  imports AdminService
begin

text \<open>
  Administration is not an escalation path. \<open>effective\<close> is what an account may do: the union
  of the permissions of its roles. For an actor who is not break-glass, every administrative
  method keeps every account below a bound that already contains the actor's permissions,
  whether it assigns roles, defines or edits one, or acts on an account; and no method but a
  deletion or an assignment that leaves another owner takes the last owner away.
\<close>

section \<open>What an account may do\<close>

definition effective :: "string \<Rightarrow> 'z db_scheme \<Rightarrow> permission set" where
  "effective aid d = (case account_get aid d of None \<Rightarrow> {} | Some a \<Rightarrow> role_resolve (ac_roles a) d)"

definition bounded :: "(string \<Rightarrow> permission set) \<Rightarrow> 'z sys_scheme \<Rightarrow> bool" where
  "bounded U s \<longleftrightarrow> db_ok s \<and> (\<forall>aid. effective aid s \<subseteq> U aid)"

lemma effective_view: "role_view t = role_view s \<Longrightarrow> effective aid t = effective aid s"
proof -
  assume eq: "role_view t = role_view s"
  then have "map_option ac_roles (account_get aid t) = map_option ac_roles (account_get aid s)"
    and "t_roles t = t_roles s"
    by (auto simp: role_view_def fun_eq_iff)
  then show ?thesis
    by (cases "account_get aid t"; cases "account_get aid s") (simp_all add: effective_def role_resolve_def)
qed

lemma keeps_bounded_stable:
  fixes m :: "('e, 'z sys_scheme, 'a) op"
  assumes "\<And>R. keeps (stable R) m"
  shows "keeps (bounded U) m"
proof (rule keepsI)
  fix s :: "'z sys_scheme"
  assume s: "bounded U s"
  obtain r t where m: "m s = (r, t)" by fastforce
  from s have "db_ok s" by (simp add: bounded_def)
  from keeps_stable_view [OF assms this m] have "db_ok t" and view: "role_view t = role_view s" by simp_all
  moreover have "effective aid t = effective aid s" for aid using view by (rule effective_view)
  ultimately show "bounded U (snd (m s))" using s by (simp add: m bounded_def)
qed

text \<open>The guards and the audit log do not change who holds what.\<close>

lemma keeps_stable_record [keeps_intros]: "keeps (stable R) (record_action w actor a t d)"
  unfolding record_action_def by (intro keeps_intros)

lemma keeps_stable_admin:
  "keeps (stable R) (admin_list_accounts actor)" "keeps (stable R) (admin_get_account actor i)"
  "keeps (stable R) (admin_read_audit actor l)" "keeps (stable R) (admin_list_roles actor)"
  "keeps (stable R) (admin_invite w actor e)" "keeps (stable R) (admin_set_status w actor i st)"
  "keeps (stable R) (admin_revoke_sessions w actor i)" "keeps (stable R) (admin_issue_password_reset w actor i)"
  unfolding admin_defs Let_def by (intro keeps_intros)+

lemma keeps_bounded_record [keeps_intros]: "keeps (bounded U) (record_action w actor a t d)"
  by (rule keeps_bounded_stable) (intro keeps_intros)

section \<open>Defining and editing roles\<close>

lemma yields_check_grantable:
  "\<not> at_is_break_glass actor \<Longrightarrow> yields P (check_grantable actor ps) (\<lambda>_. ps \<subseteq> at_permissions actor)"
  unfolding check_grantable_def by (simp, rule yields_of_result) (simp add: check_can_grant_Inr)

lemma keeps_bounded_role_add:
  assumes "\<And>aid. ro_permissions r \<subseteq> U aid"
  shows "keeps (bounded U) (transact (role_add r))"
proof (rule keeps_transact)
  fix s u t assume s: "bounded U s" and add: "role_add r s = Inr (u, t)"
  then have ok: "db_ok s" by (simp add: bounded_def)
  have get: "account_get i t = account_get i s" for i
    by (simp add: role_add_Inr(4) [OF ok add] account_get_def read_one_fetch roles_of_def)
  have "effective i t \<subseteq> U i" for i
  proof (cases "account_get i s")
    case (Some a)
    have "role_resolve (ac_roles a) s \<subseteq> U i"
      using s Some by (auto simp: bounded_def effective_def split: option.splits dest: spec [of _ i])
    then show ?thesis
      using rol.add_resolve(1) [OF ok add, of "ac_roles a"] assms [of i] Some by (auto simp: effective_def get)
  qed (simp add: effective_def get)
  then show "bounded U t" using role_add_Inr(1) [OF ok add] by (simp add: bounded_def)
qed

lemma keeps_bounded_role_save:
  assumes "\<And>aid. ro_permissions r \<subseteq> U aid"
  shows "keeps (bounded U) (transact (role_save r))"
proof (rule keeps_transact)
  fix s u t assume s: "bounded U s" and sv: "role_save r s = Inr (u, t)"
  then have ok: "db_ok s" by (simp add: bounded_def)
  have get: "account_get i t = account_get i s" for i
    using role_save_Inr(3,4) [OF sv] by (simp add: account_get_def read_one_fetch roles_of_def)
  have "effective i t \<subseteq> U i" for i
  proof (cases "account_get i s")
    case (Some a)
    have "role_resolve (ac_roles a) s \<subseteq> U i"
      using s Some by (auto simp: bounded_def effective_def split: option.splits dest: spec [of _ i])
    then show ?thesis
      using rol.save_resolve [OF ok sv, of "ac_roles a"] assms [of i] Some by (auto simp: effective_def get)
  qed (simp add: effective_def get)
  then show "bounded U t" using role_save_Inr(1) [OF sv ok] by (simp add: bounded_def)
qed

lemma keeps_bounded_role_delete [keeps_intros]: "keeps (bounded U) (transact (role_delete n k))"
proof (rule keeps_transact)
  fix s u t assume s: "bounded U s" and del: "role_delete n k s = Inr (u, t)"
  then have ok: "db_ok s" by (simp add: bounded_def)
  have get: "account_get i t = account_get i s" for i
    by (simp add: role_delete_Inr(5) [OF ok del] account_get_def read_one_fetch roles_of_def)
  have "effective i t \<subseteq> U i" for i
  proof (cases "account_get i s")
    case (Some a)
    have "role_resolve (ac_roles a) s \<subseteq> U i"
      using s Some by (auto simp: bounded_def effective_def split: option.splits dest: spec [of _ i])
    then show ?thesis
      using rol.delete_resolve [OF ok del, of "ac_roles a"] Some by (auto simp: effective_def get)
  qed (simp add: effective_def get)
  then show "bounded U t" using role_delete_Inr(1) [OF ok del] by (simp add: bounded_def)
qed

lemma keeps_bounded_create_role:
  assumes "\<not> at_is_break_glass actor" and "\<And>aid. at_permissions actor \<subseteq> U aid"
  shows "keeps (bounded U) (create_role w actor n ps ds)"
  unfolding create_role_def Let_def
proof (rule keeps_andthen, intro keeps_intros, rule keeps_andthen, intro keeps_intros,
    rule keeps_andthen, intro keeps_intros, rule keeps_andthen_yields [OF yields_check_grantable [OF assms(1)]])
  fix name wanted u
  assume "wanted \<subseteq> at_permissions actor"
  with assms(2) have "wanted \<subseteq> U aid" for aid by blast
  then show "keeps (bounded U)
     (andthen (check_description ds) (\<lambda>_.
      andthen (reading (role_get name)) (\<lambda>existing.
      andthen (guard (existing = None) (RoleExistsError [''a role named '', py_repr name, '' already exists''])) (\<lambda>_.
      andthen (transact (role_add \<lparr>ro_name = name, ro_permissions = wanted, ro_description = ds,
        ro_builtin = False, ro_created_at = Some (ev_now w), ro_updated_at = Some (ev_now w)\<rparr>)) (\<lambda>_.
      andthen (record_action w actor ROLE_CREATED None (''role '' @ py_repr name)) (\<lambda>_.
      ret \<lparr>ro_name = name, ro_permissions = wanted, ro_description = ds,
        ro_builtin = False, ro_created_at = Some (ev_now w), ro_updated_at = Some (ev_now w)\<rparr>))))))"
    by (intro keeps_intros keeps_bounded_role_add) simp
qed

lemma keeps_bounded_update_role:
  assumes "\<not> at_is_break_glass actor" and "\<And>aid. at_permissions actor \<subseteq> U aid"
  shows "keeps (bounded U) (update_role w actor n ps ds)"
  unfolding update_role_def Let_def
proof (rule keeps_andthen, intro keeps_intros, rule keeps_andthen, intro keeps_intros,
    rule keeps_andthen, intro keeps_intros, rule keeps_andthen, intro keeps_intros,
    rule keeps_andthen, intro keeps_intros, rule keeps_andthen, intro keeps_intros,
    rule keeps_andthen_yields [OF yields_check_grantable [OF assms(1)]])
  fix name :: string and found :: "role result" and role wanted u
  assume "wanted \<subseteq> at_permissions actor"
  with assms(2) have "wanted \<subseteq> U aid" for aid by blast
  then show "keeps (bounded U)
     (andthen (check_description ds) (\<lambda>_.
      andthen (transact (role_save (with_permissions role wanted ds (ev_now w)))) (\<lambda>_.
      andthen (record_action w actor ROLE_UPDATED None (''role '' @ py_repr (ro_name role))) (\<lambda>_.
      ret (with_permissions role wanted ds (ev_now w))))))"
    by (intro keeps_intros keeps_bounded_role_save) (simp add: with_permissions_def)
qed

lemma keeps_bounded_delete_role: "keeps (bounded U) (delete_role w actor n)"
  unfolding delete_role_def by (intro keeps_intros)

section \<open>Assigning roles\<close>

lemma granted_permissions_Inr:
  assumes "db_ok d" and "granted_permissions names granted d = Inr g"
  shows "g = granted \<union> role_resolve names d \<and> set names \<subseteq> role_ids d"
  using assms(2)
proof (induction names arbitrary: granted)
  case (Cons n ns)
  then obtain r where r: "role_get n d = Some r" "granted_permissions ns (granted \<union> ro_permissions r) d = Inr g"
    by (auto split: option.splits)
  have "role_resolve (n # ns) d = ro_permissions r \<union> role_resolve ns d"
    using r(1) by (auto simp: rol.resolve_get [OF assms(1)])
  moreover have "n \<in> role_ids d" using r(1) role_get_None [of n d] by auto
  ultimately show ?case using Cons.IH [OF r(2)] by auto
qed (simp add: role_resolve_def)

lemma record_action_Inr:
  obtains t where "record_action w actor a tg dt s = (Inr (), t)" "role_view t = role_view s"
    "db_ok s \<Longrightarrow> db_ok t"
proof -
  let ?e = "\<lparr>au_entry_id = ev_audit_id w, au_at = ev_now w, au_action = a,
        au_actor_id = (if at_is_break_glass actor then BREAK_GLASS_ACTOR else at_account_id actor),
        au_target_id = tg, au_detail = dt\<rparr>"
  obtain t where t: "audit_record MAX_ENTRIES ?e s = Inr (?e, t)"
    by (simp add: audit_record_def Let_def)
  then have "record_action w actor a tg dt s = (Inr (), t)" by (simp add: record_action_def txn_simps)
  moreover have "role_view t = role_view s" using txn_access(10) [OF t] by (rule role_view_access)
  moreover have "db_ok s \<Longrightarrow> db_ok t" using audit_record_db_ok [OF _ t] .
  ultimately show thesis by (rule that)
qed

lemma set_account_roles_cases:
  assumes "set_account_roles w actor i roles s = (r, t)"
  obtains (refused) e where "r = Inl e" "t = s"
  | (assigned) account names granted updated s1 where "ROLES_ASSIGN \<in> at_permissions actor"
      "account_get i s = Some account" "normalize_all roles = Inr names"
      "granted_permissions (dedup names) {} s = Inr granted"
      "at_is_break_glass actor \<or> granted \<subseteq> at_permissions actor"
      "account_set_roles i (dedup names) (ev_now w) s = Inr (updated, s1)" "r = Inr updated"
      "record_action w actor ROLES_ASSIGNED (Some i)
        (''roles '' @ (if dedup names = [] then ''(none)'' else join '', '' (dedup names))) s1 = (Inr (), t)"
proof (cases "ROLES_ASSIGN \<in> at_permissions actor")
  case False
  with assms refused show thesis by (auto simp: set_account_roles_def require_def txn_simps Let_def)
next
  case has: True
  show thesis
  proof (cases "account_get i s")
    case None
    with assms has refused show thesis
      by (auto simp: set_account_roles_def require_def require_account_def txn_simps Let_def)
  next
    case (Some account)
    note base = assms has Some account_get_id [OF Some]
    show thesis
    proof (cases "normalize_all roles")
      case (Inl e)
      with base refused show thesis
        by (auto simp: set_account_roles_def require_def require_account_def txn_simps Let_def)
    next
      case (Inr names)
      show thesis
      proof (cases "length (dedup names) \<le> MAX_ROLES_PER_ACCOUNT")
        case False
        with Inr base refused show thesis
          by (auto simp: set_account_roles_def require_def require_account_def txn_simps Let_def)
      next
        case len: True
        show thesis
        proof (cases "granted_permissions (dedup names) {} s")
          case (Inl e)
          with Inr len base refused show thesis
            by (auto simp: set_account_roles_def require_def require_account_def txn_simps Let_def)
        next
          case g: (Inr granted)
          show thesis
          proof (cases "at_is_break_glass actor \<or> granted \<subseteq> at_permissions actor")
            case False
            then obtain e where "check_can_grant (at_permissions actor) granted = Inl e"
              by (auto simp: check_can_grant_def Let_def)
            with False g Inr len base refused show thesis
              by (auto simp: set_account_roles_def require_def require_account_def check_grantable_def txn_simps Let_def)
          next
            case ok: True
            then have grant: "check_grantable actor granted s = (Inr (), s)"
              by (auto simp: check_grantable_def check_can_grant_def Let_def txn_simps)
            show thesis
            proof (cases "account_set_roles i (dedup names) (ev_now w) s")
              case (Inl e)
              with grant g Inr len base refused show thesis
                by (auto simp: set_account_roles_def require_def require_account_def txn_simps Let_def)
            next
              case stored: (Inr p)
              obtain updated s1 where p: "p = (updated, s1)" by fastforce
              obtain t' where rec: "record_action w actor ROLES_ASSIGNED (Some i)
                (''roles '' @ (if dedup names = [] then ''(none)'' else join '', '' (dedup names))) s1 = (Inr (), t')"
                by (rule record_action_Inr)
              with stored p grant g Inr len base have "r = Inr updated" "t = t'"
                by (simp_all add: set_account_roles_def require_def require_account_def txn_simps Let_def)
              with assigned [OF has Some Inr g ok] stored p rec show thesis by simp
            qed
          qed
        qed
      qed
    qed
  qed
qed

lemma keeps_bounded_set_account_roles:
  fixes U :: "string \<Rightarrow> permission set"
  assumes "\<not> at_is_break_glass actor" and "\<And>aid. at_permissions actor \<subseteq> U aid"
  shows "keeps (bounded U) (set_account_roles w actor i roles :: ('z, account) sysop)"
proof (rule keepsI)
  fix s :: "'z sys_scheme" assume s: "bounded U s"
  then have ok: "db_ok s" by (simp add: bounded_def)
  obtain r t where m: "set_account_roles w actor i roles s = (r, t)" by fastforce
  then show "bounded U (snd (set_account_roles w actor i roles s))"
  proof (cases rule: set_account_roles_cases)
    case (refused e)
    with s m show ?thesis by simp
  next
    case (assigned account names granted updated s1)
    note set = account_set_roles_Inr [OF ok assigned(6)]
    have roles: "t_roles s1 = t_roles s"
      using assigned(6) by (auto simp: account_set_roles_def split: option.splits sum.splits dest!: write_roles_Inr(1))
    have resolve: "role_resolve ns s1 = role_resolve ns s" for ns by (simp add: role_resolve_def roles)
    have granted: "role_resolve (dedup names) s \<subseteq> at_permissions actor"
      using granted_permissions_Inr [OF ok assigned(4)] assigned(5) assms(1) by simp
    have "effective aid s1 \<subseteq> U aid" for aid
    proof (cases "aid = i")
      case True
      with set(2) [of i] assigned(2) have "effective aid s1 = role_resolve (dedup names) s"
        by (simp add: effective_def resolve)
      with granted assms(2) show ?thesis by blast
    next
      case False
      with set(2) [of aid] have "effective aid s1 = effective aid s"
        by (cases "account_get aid s") (simp_all add: effective_def resolve)
      with s show ?thesis by (simp add: bounded_def)
    qed
    with set(1) have "bounded U s1" by (simp add: bounded_def)
    from keepsD [OF keeps_bounded_record this assigned(8)] show ?thesis by (simp add: m)
  qed
qed

section \<open>Deleting an account\<close>

lemma keeps_bounded_delete [keeps_intros]: "keeps (bounded U) (delete_account i)"
  unfolding delete_account_def
proof (rule keeps_transact)
  fix s b t assume s: "bounded U s" and del: "account_delete i s = Inr (b, t)"
  then have ok: "db_ok s" by (simp add: bounded_def)
  have "t_roles t = t_roles s"
    using del by (auto simp: account_delete_def delete_account_row_sel(6) split: if_splits sum.splits)
  then have "role_resolve ns t = role_resolve ns s" for ns by (simp add: role_resolve_def)
  then have "effective aid t \<subseteq> effective aid s" for aid
    using account_delete_Inr(2) [OF ok del, of aid] by (auto simp: effective_def split: option.split)
  with s account_delete_Inr(1) [OF ok del] show "bounded U t" unfolding bounded_def by blast
qed

lemma keeps_bounded_delete_account: "keeps (bounded U) (admin_delete_account w actor i)"
  unfolding admin_delete_account_def by (intro keeps_intros)

end
