(* ===== verification/Requests.thy ===== *)
theory Requests
  imports NoEscalation
begin

text \<open>
  \<^verbatim>\<open>src/src/keyring_api/api/dependencies.py\<close>: how a request becomes a session, an account or an
  actor, who is rebuilt from the database on every request; and what the operations of the
  administration keep of who owns the deployment.
\<close>

section \<open>Dependencies\<close>

definition MISSING_CREDENTIALS :: message where
  "MISSING_CREDENTIALS = [''a session token is required'']"

text \<open>\<open>hmac.compare_digest\<close> of two texts raises unless both are ASCII.\<close>

definition is_ascii :: "string \<Rightarrow> bool" where
  "is_ascii s \<longleftrightarrow> list_all (\<lambda>c. code_of c < 128) s"

definition compare_digest :: "string \<Rightarrow> string \<Rightarrow> bool result" where
  "compare_digest a b =
     (if is_ascii a \<and> is_ascii b then Inr (a = b)
      else Inl (Unhandled [''comparing strings with non-ASCII characters is not supported'']))"

definition get_current_session :: "env \<Rightarrow> string option \<Rightarrow> ('z, session) sysop" where
  "get_current_session w credentials =
     (case credentials of
        None \<Rightarrow> raise (AuthenticationError MISSING_CREDENTIALS)
      | Some token \<Rightarrow> resolve_session w token)"

definition get_current_account :: "session \<Rightarrow> ('z, account) sysop" where
  "get_current_account session =
     andthen (reading (account_get (se_account_id session))) (\<lambda>found.
     case found of
       None \<Rightarrow> raise (AuthenticationError MISSING_CREDENTIALS)
     | Some account \<Rightarrow> ret account)"

text \<open>\<open>Container.actor_for\<close> (\<^verbatim>\<open>core/container.py\<close>).\<close>

definition actor_for :: "string \<Rightarrow> string list \<Rightarrow> ('z, actor) sysop" where
  "actor_for account_id roles =
     andthen (reading (role_resolve roles)) (\<lambda>permissions.
     ret \<lparr>at_account_id = account_id, at_permissions = permissions, at_is_break_glass = False\<rparr>)"

definition get_actor :: "env \<Rightarrow> string option \<Rightarrow> ('z, actor) sysop" where
  "get_actor w credentials =
     (case credentials of
        None \<Rightarrow> raise (AuthenticationError MISSING_CREDENTIALS)
      | Some token \<Rightarrow>
          andthen (of_result (case st_admin_token (ev_settings w) of
                     None \<Rightarrow> Inr False
                   | Some admin_token \<Rightarrow> compare_digest token admin_token)) (\<lambda>break_glass.
          if break_glass
          then ret \<lparr>at_account_id = BREAK_GLASS_ACTOR, at_permissions = ALL_PERMISSIONS,
                    at_is_break_glass = True\<rparr>
          else
          andthen (resolve_session w token) (\<lambda>session.
          andthen (reading (account_get (se_account_id session))) (\<lambda>found.
          case found of
            None \<Rightarrow> raise (AuthenticationError MISSING_CREDENTIALS)
          | Some account \<Rightarrow> actor_for (ac_id account) (ac_roles account)))))"

section \<open>Authentication reads the current roles\<close>

lemma keeps_get_actor:
  "keeps db_ok (get_actor w c)" "keeps (stable R) (get_actor w c)" "keeps (bounded U) (get_actor w c)"
proof -
  show stable: "keeps (stable R) (get_actor w c)" for R
    unfolding get_actor_def actor_for_def by (intro keeps_intros)
  show "keeps db_ok (get_actor w c)"
    unfolding get_actor_def actor_for_def by (intro keeps_intros)
  show "keeps (bounded U) (get_actor w c)" by (rule keeps_bounded_stable) (rule stable)
qed

text \<open>Every caller admitted without the break-glass token acts with what its account may do now.\<close>

lemma get_actor_Inr:
  assumes "get_actor w c s = (Inr actor, t)"
  obtains (break_glass) token where "c = Some token" "st_admin_token (ev_settings w) = Some token"
      "at_is_break_glass actor" "t = s"
  | (session) "\<not> at_is_break_glass actor" "at_permissions actor = effective (at_account_id actor) t"
      "account_get (at_account_id actor) t \<noteq> None"
proof (cases c)
  case None
  with assms show thesis by (simp add: get_actor_def txn_simps)
next
  case (Some token)
  with assms obtain b s1 where
    b: "(case st_admin_token (ev_settings w) of None \<Rightarrow> Inr False | Some a \<Rightarrow> compare_digest token a) = Inr b"
    and rest: "(if b then ret \<lparr>at_account_id = BREAK_GLASS_ACTOR, at_permissions = ALL_PERMISSIONS,
                    at_is_break_glass = True\<rparr>
       else andthen (resolve_session w token) (\<lambda>session.
          andthen (reading (account_get (se_account_id session))) (\<lambda>found.
          case found of
            None \<Rightarrow> raise (AuthenticationError MISSING_CREDENTIALS)
          | Some account \<Rightarrow> actor_for (ac_id account) (ac_roles account)))) s = (Inr actor, t)"
    by (auto simp: get_actor_def op_elims)
  show thesis
  proof (cases b)
    case True
    with b have "st_admin_token (ev_settings w) = Some token"
      by (auto simp: compare_digest_def split: option.splits if_splits)
    with True rest Some break_glass show thesis by (simp add: ret_Inr)
  next
    case False
    with rest obtain x :: session and t1 where acts: "andthen (reading (account_get (se_account_id x))) (\<lambda>found.
          case found of
            None \<Rightarrow> raise (AuthenticationError MISSING_CREDENTIALS)
          | Some account \<Rightarrow> actor_for (ac_id account) (ac_roles account)) t1 = (Inr actor, t)"
      by (simp only: if_False andthen_Inr [of "resolve_session w token"]) auto
    obtain y where y: "account_get (se_account_id x) t1 = Some y"
      using acts by (cases "account_get (se_account_id x) t1") (simp_all add: txn_simps)
    then have acc: "account_get (se_account_id x) t = Some y"
      "actor = \<lparr>at_account_id = ac_id y, at_permissions = role_resolve (ac_roles y) t,
                at_is_break_glass = False\<rparr>"
      using acts by (auto simp: txn_simps actor_for_def)
    then have "account_get (ac_id y) t = Some y" using account_get_id [of _ t y] by fastforce
    with acc session show thesis by (simp add: effective_def)
  qed
qed

definition presents_break_glass :: "env \<Rightarrow> string option \<Rightarrow> bool" where
  "presents_break_glass w credentials \<longleftrightarrow> credentials \<noteq> None \<and> credentials = st_admin_token (ev_settings w)"

section \<open>A deployment with an owner\<close>

lemma owned_roles: "acc.owned d \<longleftrightarrow> (\<exists>i rs. map_option ac_roles (account_get i d) = Some rs \<and> OWNER \<in> set rs)"
  by (auto simp: acc.owned_def)

lemma owned_view: "role_view t = role_view s \<Longrightarrow> acc.owned t \<longleftrightarrow> acc.owned s"
  by (simp add: owned_roles role_view_def fun_eq_iff)

definition owned_ok :: "'z sys_scheme \<Rightarrow> bool" where
  "owned_ok s \<longleftrightarrow> db_ok s \<and> acc.owned s"

lemma keeps_owned_stable:
  fixes m :: "('e, 'z sys_scheme, 'a) op"
  assumes "\<And>R. keeps (stable R) m"
  shows "keeps owned_ok m"
proof (rule keepsI)
  fix s :: "'z sys_scheme"
  assume s: "owned_ok s"
  obtain r t where m: "m s = (r, t)" by fastforce
  from s have "db_ok s" by (simp add: owned_ok_def)
  note view = keeps_stable_view [OF assms this m]
  from s view(2) show "owned_ok (snd (m s))"
    by (simp add: m owned_ok_def owned_view [OF view(1)])
qed

lemma keeps_owned_record [keeps_intros]: "keeps owned_ok (record_action w actor a t d)"
  by (rule keeps_owned_stable) (intro keeps_intros)

lemma owned_accounts:
  assumes "t_accounts t = t_accounts s" and "t_account_roles t = t_account_roles s"
  shows "acc.owned t \<longleftrightarrow> acc.owned s"
  by (simp add: acc.owned_def account_get_def read_one_fetch roles_of_def assms)

lemma keeps_owned_txns [keeps_intros]:
  "keeps owned_ok (transact (role_add r))" "keeps owned_ok (transact (role_save r))"
  "keeps owned_ok (transact (role_delete n k))" "keeps owned_ok (transact (account_delete i))"
  "keeps owned_ok (transact (account_set_roles i rs now))"
proof -
  show "keeps owned_ok (transact (role_add r))"
  proof (rule keeps_transact)
    fix s u t assume s: "owned_ok s" and t: "role_add r s = Inr (u, t)"
    then have ok: "db_ok s" by (simp add: owned_ok_def)
    have "acc.owned t \<longleftrightarrow> acc.owned s" by (rule owned_accounts) (simp_all add: role_add_Inr(4) [OF ok t])
    with s role_add_Inr(1) [OF ok t] show "owned_ok t" by (simp add: owned_ok_def)
  qed
  show "keeps owned_ok (transact (role_save r))"
  proof (rule keeps_transact)
    fix s u t assume s: "owned_ok s" and t: "role_save r s = Inr (u, t)"
    have "acc.owned t \<longleftrightarrow> acc.owned s" by (rule owned_accounts) (rule role_save_Inr(3,4) [OF t])+
    with s role_save_Inr(1) [OF t] show "owned_ok t" by (simp add: owned_ok_def)
  qed
  show "keeps owned_ok (transact (role_delete n k))"
  proof (rule keeps_transact)
    fix s u t assume s: "owned_ok s" and t: "role_delete n k s = Inr (u, t)"
    then have ok: "db_ok s" by (simp add: owned_ok_def)
    have "acc.owned t \<longleftrightarrow> acc.owned s" by (rule owned_accounts) (simp_all add: role_delete_Inr(5) [OF ok t])
    with s role_delete_Inr(1) [OF ok t] show "owned_ok t" by (simp add: owned_ok_def)
  qed
  show "keeps owned_ok (transact (account_delete i))"
    by (rule keeps_transact) (auto simp: owned_ok_def intro: acc.delete_owned account_delete_Inr(1))
  show "keeps owned_ok (transact (account_set_roles i rs now))"
    by (rule keeps_transact) (auto simp: owned_ok_def intro: acc.set_roles_owned account_set_roles_Inr(1))
qed

end
