(* ===== verification/AdminGuards.thy ===== *)
theory AdminGuards
  imports Requests
begin

text \<open>
  The guards of \<^verbatim>\<open>src/src/keyring_api/admin/service.py\<close> and its audit trail: what the check of who
  may act on whom refuses, and when an operation leaves exactly one entry in the audit log if it
  succeeds and none if it is refused.
\<close>

section \<open>Nobody acts upwards\<close>

lemma check_can_act_on_refused:
  assumes "\<not> at_is_break_glass actor" and "ac_id target \<noteq> at_account_id actor"
    and "\<not> role_resolve (ac_roles target) s \<subseteq> at_permissions actor"
  shows "\<exists>m. check_can_act_on actor target s = (Inl (InsufficientPermissionError m), s)"
  using assms by (simp add: check_can_act_on_def Let_def txn_simps)

section \<open>The audit trail\<close>

definition audit_view :: "'z db_scheme \<Rightarrow> (nat \<times> audit_entry) list \<times> nat" where
  "audit_view d = (t_audit d, t_audit_sequence d)"

lemma audit_view_rest [simp]:
  "audit_view (s\<lparr>m_attempts := m\<rparr>) = audit_view s" "audit_view (s\<lparr>m_outbox := q\<rparr>) = audit_view s"
  "audit_view (s\<lparr>m_verifications := n\<rparr>) = audit_view s"
  by (simp_all add: audit_view_def)

lemma write_roles_audit: "write_roles i rs d = Inr d' \<Longrightarrow> audit_view d' = audit_view d"
  by (drule write_roles_Inr(1)) (simp add: audit_view_def)

lemma txn_audit:
  "account_add a d = Inr (u, d') \<Longrightarrow> audit_view d' = audit_view d"
  "account_save a d = Inr (u, d') \<Longrightarrow> audit_view d' = audit_view d"
  "account_delete i d = Inr (b, d') \<Longrightarrow> audit_view d' = audit_view d"
  "account_set_roles i rs now d = Inr (c, d') \<Longrightarrow> audit_view d' = audit_view d"
  "session_revoke_all i e d = Inr (k, d') \<Longrightarrow> audit_view d' = audit_view d"
  "grant_add g d = Inr (u, d') \<Longrightarrow> audit_view d' = audit_view d"
  "grant_revoke_all_for_account i p d = Inr (k, d') \<Longrightarrow> audit_view d' = audit_view d"
  "role_add r d = Inr (u, d') \<Longrightarrow> audit_view d' = audit_view d"
  "role_save r d = Inr (u, d') \<Longrightarrow> audit_view d' = audit_view d"
  "role_delete n k d = Inr (u, d') \<Longrightarrow> audit_view d' = audit_view d"
  by (auto simp: audit_view_def account_add_def account_save_def account_delete_def account_set_roles_def
      session_revoke_all_def grant_add_def grant_revoke_all_for_account_def
      role_add_def role_save_def role_delete_def delete_role_row_def
      insert_defs delete_account_row_def delete_profiles_def Let_def
      split: if_splits sum.splits option.splits dest!: write_roles_audit)

definition audited :: "(nat \<times> audit_entry) list \<times> nat \<Rightarrow> 'z sys_scheme \<Rightarrow> bool" where
  "audited V s \<longleftrightarrow> audit_view s = V"

lemma audited_rest [simp]:
  "audited V (s\<lparr>m_attempts := m\<rparr>) = audited V s" "audited V (s\<lparr>m_outbox := q\<rparr>) = audited V s"
  "audited V (s\<lparr>m_verifications := n\<rparr>) = audited V s"
  by (simp_all add: audited_def)

lemma keeps_audited_txns [keeps_intros]:
  "keeps (audited V) (transact (account_save a))" "keeps (audited V) (transact (account_delete i))"
  "keeps (audited V) (transact (account_set_roles i rs now))"
  "keeps (audited V) (transact (session_revoke_all i e))" "keeps (audited V) (transact (grant_add g))"
  "keeps (audited V) (transact (grant_revoke_all_for_account i p))"
  "keeps (audited V) (transact (role_add r))" "keeps (audited V) (transact (role_save r))"
  "keeps (audited V) (transact (role_delete n k))"
  unfolding audited_def by (rule keeps_transact, drule txn_audit, simp)+

lemma keeps_audited_service [keeps_intros]:
  "keeps (audited V) (issue_invite w e)" "keeps (audited V) (set_status w i st)"
  "keeps (audited V) (logout_everywhere i)" "keeps (audited V) (issue_reset_for w a)"
  "keeps (audited V) (delete_account i)"
  unfolding account_service_defs Let_def by (intro keeps_intros audited_rest)+

lemma audit_ok_view: "audit_view t = audit_view s \<Longrightarrow> audit_ok k t = audit_ok k s"
  by (simp add: audit_ok_def audit_view_def)

text \<open>
  One more entry: the log as it is after the transaction that appends and trims.
\<close>

definition appended :: "audit_entry \<Rightarrow> 'y db_scheme \<Rightarrow> 'z db_scheme \<Rightarrow> bool" where
  "appended e s t \<longleftrightarrow> t_audit_sequence t = t_audit_sequence s + 1
     \<and> t_audit t = filter (\<lambda>r. t_audit_sequence s + 1 < fst r + MAX_ENTRIES)
         (t_audit s @ [(t_audit_sequence s + 1, e)])"

lemma appended_view:
  "audit_view s' = audit_view s \<Longrightarrow> audit_view t' = audit_view t \<Longrightarrow> appended e s' t' = appended e s t"
  by (simp add: appended_def audit_view_def)

lemma appended_ok:
  assumes "audit_ok MAX_ENTRIES s" and "appended e s t"
  shows "audit_ok MAX_ENTRIES t"
proof -
  let ?t = "s\<lparr>t_audit := t_audit t, t_audit_sequence := t_audit_sequence t\<rparr>"
  have "audit_record MAX_ENTRIES e s = Inr (e, ?t)"
    using audit_record_eq [OF assms(1), of e] assms(2) by (simp add: appended_def)
  from audit_record_ok [OF assms(1) this] show ?thesis by (simp add: audit_ok_def)
qed

text \<open>
  An operation is logged when a success appends exactly one entry, satisfying the assertion,
  and a refusal appends none.
\<close>

definition logged :: "(audit_entry \<Rightarrow> bool) \<Rightarrow> ('z, 'a) sysop \<Rightarrow> bool" where
  "logged A m \<longleftrightarrow> (\<forall>s r t. audit_ok MAX_ENTRIES s \<longrightarrow> m s = (r, t) \<longrightarrow>
     (case r of Inl e \<Rightarrow> audit_view t = audit_view s | Inr x \<Rightarrow> \<exists>e. A e \<and> appended e s t))"

definition never_raises :: "('z, 'a) sysop \<Rightarrow> bool" where
  "never_raises m \<longleftrightarrow> (\<forall>s. \<exists>x t. m s = (Inr x, t) \<and> audit_view t = audit_view s)"

lemma keeps_audited_view: "(\<And>V. keeps (audited V) m) \<Longrightarrow> m s = (r, t) \<Longrightarrow> audit_view t = audit_view s"
  using keepsD [of "audited (audit_view s)" m s r t] by (simp add: audited_def)

lemma logged_pre:
  assumes "\<And>V. keeps (audited V) m" and "\<And>x. logged A (f x)"
  shows "logged A (andthen m f)"
  unfolding logged_def
proof (intro allI impI)
  fix s r t assume ok: "audit_ok MAX_ENTRIES s" and eq: "andthen m f s = (r, t)"
  obtain r1 s1 where m: "m s = (r1, s1)" by fastforce
  note view = keeps_audited_view [OF assms(1) m]
  show "case r of Inl e \<Rightarrow> audit_view t = audit_view s | Inr x \<Rightarrow> \<exists>e. A e \<and> appended e s t"
  proof (cases r1)
    case (Inl e)
    with eq m have "r = Inl e \<and> t = s1" by (auto simp: txn_simps)
    with view show ?thesis by simp
  next
    case (Inr x)
    with eq m have run: "f x s1 = (r, t)" by (simp add: txn_simps)
    have "audit_ok MAX_ENTRIES s1" using ok audit_ok_view [OF view] by simp
    with assms(2) [of x] run have "case r of Inl e \<Rightarrow> audit_view t = audit_view s1 | Inr x \<Rightarrow> \<exists>e. A e \<and> appended e s1 t"
      unfolding logged_def by blast
    then show ?thesis using view by (cases r) (simp_all only: sum.case appended_view [OF view refl])
  qed
qed

lemma logged_post:
  assumes "logged A m" and "\<And>x. never_raises (f x)"
  shows "logged A (andthen m f)"
  unfolding logged_def
proof (intro allI impI)
  fix s r t assume ok: "audit_ok MAX_ENTRIES s" and eq: "andthen m f s = (r, t)"
  obtain r1 s1 where m: "m s = (r1, s1)" by fastforce
  with assms(1) ok have l: "case r1 of Inl e \<Rightarrow> audit_view s1 = audit_view s | Inr x \<Rightarrow> \<exists>e. A e \<and> appended e s s1"
    unfolding logged_def by blast
  show "case r of Inl e \<Rightarrow> audit_view t = audit_view s | Inr x \<Rightarrow> \<exists>e. A e \<and> appended e s t"
  proof (cases r1)
    case (Inl e)
    with eq m have "r = Inl e \<and> t = s1" by (auto simp: txn_simps)
    with l Inl show ?thesis by simp
  next
    case (Inr x)
    obtain y t' where f: "f x s1 = (Inr y, t')" "audit_view t' = audit_view s1"
      using assms(2) [of x] unfolding never_raises_def by blast
    with Inr eq m have "r = Inr y \<and> t = t'" by (auto simp: txn_simps)
    with l Inr f(2) show ?thesis using appended_view [OF refl f(2)] by auto
  qed
qed

definition entry_of :: "env \<Rightarrow> actor \<Rightarrow> audit_action \<Rightarrow> string option \<Rightarrow> string \<Rightarrow> audit_entry" where
  "entry_of w actor a tg d = \<lparr>au_entry_id = ev_audit_id w, au_at = ev_now w, au_action = a,
        au_actor_id = (if at_is_break_glass actor then BREAK_GLASS_ACTOR else at_account_id actor),
        au_target_id = tg, au_detail = d\<rparr>"

lemma logged_record:
  assumes "A (entry_of w actor a tg d)"
  shows "logged A (record_action w actor a tg d)"
  unfolding logged_def
proof (intro allI impI)
  fix s :: "'a sys_scheme" and r t
  assume ok: "audit_ok MAX_ENTRIES s" and eq: "record_action w actor a tg d s = (r, t)"
  then have "r = Inr ()" and "appended (entry_of w actor a tg d) s t"
    by (auto simp: entry_of_def record_action_def txn_simps audit_record_eq appended_def)
  with assms show "case r of Inl e \<Rightarrow> audit_view t = audit_view s | Inr x \<Rightarrow> \<exists>e. A e \<and> appended e s t"
    by auto
qed

lemma logged_then:
  assumes "A (entry_of w actor a tg d)" and "\<And>x. never_raises (f x)"
  shows "logged A (andthen (record_action w actor a tg d) f)"
  using logged_record [of A, OF assms(1)] assms(2) by (rule logged_post)

lemma never_raises_rules:
  "never_raises (ret x)" "never_raises (reading g)"
  by (simp_all add: never_raises_def txn_simps)

lemma never_raises_andthen:
  assumes "never_raises m" and "\<And>y. never_raises (f y)"
  shows "never_raises (andthen m f)"
  unfolding never_raises_def
proof
  fix s
  obtain y u where m: "m s = (Inr y, u)" "audit_view u = audit_view s"
    using assms(1) unfolding never_raises_def by blast
  obtain x t where "f y u = (Inr x, t)" "audit_view t = audit_view u"
    using assms(2) unfolding never_raises_def by blast
  with m show "\<exists>x t. andthen m f s = (Inr x, t) \<and> audit_view t = audit_view s"
    by (simp add: andthen_Inr)
qed

text \<open>An entry that names the action, who acted (the operator under a name of its own), on what, and when.\<close>

definition recorded :: "env \<Rightarrow> actor \<Rightarrow> audit_action \<Rightarrow> string option \<Rightarrow> audit_entry \<Rightarrow> bool" where
  "recorded w actor a target e \<longleftrightarrow> au_action e = a \<and> au_target_id e = target \<and> au_at e = ev_now w
     \<and> au_actor_id e = (if at_is_break_glass actor then BREAK_GLASS_ACTOR else at_account_id actor)"

lemma recorded_entry: "recorded w actor a target (entry_of w actor a target d)"
  by (simp add: recorded_def entry_of_def)

end
