(* ===== verification/Sample.thy ===== *)
theory Sample
  imports AdminGuards SignIn
begin

text \<open>
  One small deployment on which the theorems are applied: four accounts (an owner, an
  administrator, an auditor and a member), the built-in roles and one custom role, a live
  session for each of the first two, an invite and a password reset outstanding. The library
  functions are instantiated with concrete ones: a hash is the text marked with a letter, and
  a password verifies against exactly its own hash.
\<close>

definition sample_rate_limit :: rate_limit_settings where
  "sample_rate_limit = \<lparr>rl_login_attempts = 2, rl_login_window_seconds = 300, rl_reset_attempts = 5,
     rl_reset_window_seconds = 900, rl_invite_attempts = 5, rl_invite_window_seconds = 900\<rparr>"

definition sample_email :: email_settings where
  "sample_email = \<lparr>es_backend = EMAIL_DISABLED, es_host = [], es_from_address = [], es_password = None,
     es_use_starttls = True, es_use_implicit_tls = False, es_link_base_url = ''https://k'',
     es_max_messages = 3, es_window_seconds = 3600\<rparr>"

definition sample_settings :: settings where
  "sample_settings = \<lparr>st_session_ttl_seconds = 1209600, st_session_absolute_ttl_seconds = 7776000,
     st_invite_ttl_seconds = 604800, st_reset_ttl_seconds = 3600, st_max_sessions_per_account = 2,
     st_lockout_threshold = 3, st_lockout_seconds = 900, st_access_token_ttl_seconds = 900,
     st_oauth_state_ttl_seconds = 600, st_oauth_refresh_margin_seconds = 60,
     st_service_tokens = [(''mail'', ''0123456789abcdef0123456789abcdef'')],
     st_exchange_audiences = [], st_offline_grant_max_ttl_seconds = 2592000,
     st_max_offline_grants_per_profile = 2, st_settings_api_base_url = None,
     st_settings_api_token = None, st_admin_token = Some ''break'', st_max_profiles_per_account = 2,
     st_max_connections_per_profile = 2,
     st_argon2 = \<lparr>ag_time_cost = 3, ag_memory_cost_kib = 65536, ag_parallelism = 4,
       ag_hash_length = 32, ag_salt_length = 16\<rparr>,
     st_rate_limit = sample_rate_limit, st_email = sample_email\<rparr>"

definition sample_env :: env where
  "sample_env = \<lparr>ev_settings = sample_settings, ev_now = 1000, ev_wall_clock = 1000, ev_monotonic = 10, ev_token = ''tok'',
     ev_id = ''new'', ev_audit_id = ''au'', ev_argon2_hash = (\<lambda>p. CHR ''h'' # p),
     ev_argon2_verify = (\<lambda>h p. if h = CHR ''h'' # p then Verified else RaisesArgon2Error),
     ev_check_needs_rehash = (\<lambda>h. Some False), ev_dummy_hash = ''h'',
     ev_hash_token = (\<lambda>t. CHR ''t'' # t), ev_settings_api = (\<lambda>i. SettingsUnavailable),
     ev_email_enabled = False\<rparr>"

definition sample_account :: "string \<Rightarrow> string \<Rightarrow> account_row" where
  "sample_account i email = \<lparr>ac_id = i, ac_email = email, ac_password_hash = CHR ''h'' # i, ac_created_at = 1,
     ac_updated_at = 1, ac_status = ACTIVE, ac_failed_attempts = 0, ac_locked_until = None\<rparr>"

definition sample_role :: "string \<Rightarrow> permission set \<Rightarrow> bool \<Rightarrow> role" where
  "sample_role n ps b = \<lparr>ro_name = n, ro_permissions = ps, ro_description = [], ro_builtin = b,
     ro_created_at = None, ro_updated_at = None\<rparr>"

definition sample_session :: "string \<Rightarrow> string \<Rightarrow> session" where
  "sample_session i aid = \<lparr>se_id = i, se_account_id = aid, se_token_hash = CHR ''t'' # i, se_created_at = 1,
     se_last_used_at = 1, se_expires_at = 2000, se_absolute_expires_at = 9000, se_idle_ttl_seconds = None\<rparr>"

definition sample_grant :: "string \<Rightarrow> grant_purpose \<Rightarrow> string option \<Rightarrow> string option \<Rightarrow> grant" where
  "sample_grant i p email aid = \<lparr>gr_id = i, gr_purpose = p, gr_token_hash = CHR ''t'' # i, gr_created_at = 1,
     gr_expires_at = 5000, gr_email = email, gr_account_id = aid, gr_redeemed_at = None, gr_revoked = False\<rparr>"

definition sample_roles :: "role list" where
  "sample_roles = [sample_role OWNER ALL_PERMISSIONS True,
     sample_role ADMIN {ACCOUNTS_READ, ACCOUNTS_INVITE, ROLES_READ, ROLES_WRITE, ROLES_ASSIGN} True,
     sample_role AUDITOR {ACCOUNTS_READ, AUDIT_READ} True, sample_role MEMBER {} True,
     sample_role ''reader'' {ACCOUNTS_READ} False]"

definition sample_state :: sys where
  "sample_state = \<lparr>t_accounts = [sample_account ''o'' ''o@k.io'', sample_account ''a'' ''a@k.io'',
       sample_account ''u'' ''u@k.io'', sample_account ''m'' ''m@k.io''],
     t_account_roles = [\<lparr>ar_account_id = ''o'', ar_role_name = OWNER, ar_position = 0\<rparr>,
       \<lparr>ar_account_id = ''a'', ar_role_name = ADMIN, ar_position = 0\<rparr>,
       \<lparr>ar_account_id = ''u'', ar_role_name = AUDITOR, ar_position = 0\<rparr>,
       \<lparr>ar_account_id = ''m'', ar_role_name = MEMBER, ar_position = 0\<rparr>],
     t_roles = sample_roles,
     t_sessions = [sample_session ''so'' ''o'', sample_session ''sa'' ''a''],
     t_grants = [sample_grant ''gi'' INVITE (Some ''n@k.io'') None,
       sample_grant ''gr'' PASSWORD_RESET None (Some ''m'')],
     t_profiles = [], t_connections = [], t_secrets = [], t_offline_grants = [], t_audit = [],
     t_audit_sequence = 0, m_attempts = [], m_outbox = [], m_verifications = 0\<rparr>"

lemmas sample_defs = sample_rate_limit_def sample_email_def sample_settings_def sample_env_def
  sample_account_def sample_role_def sample_session_def sample_grant_def sample_roles_def sample_state_def

lemma sample_ok: "db_ok sample_state"
  by (simp add: db_defs sample_defs role_names role_key_def)

lemma sample_owned: "owned_ok sample_state"
  using sample_ok
  by (auto simp: owned_ok_def acc.owned_def account_get_def read_one_fetch fetch_one_def roles_of_def
      select_where_def sample_defs account_of_def intro!: exI [of _ "''o''"])

lemma sample_settings_ok: "settings_ok sample_settings"
  by (simp add: settings_ok_def positive_fields_def check_transport_def check_memory_covers_parallelism_def
      check_exchange_audiences_def check_service_tokens_def check_lifetimes_def
      check_settings_api_is_whole_def sample_defs MIN_SERVICE_TOKEN_CHARS_def strip_def text_eval)

section \<open>Evaluation\<close>

text \<open>What it takes to compute the services on the sample.\<close>

lemmas limit_eval = check_limit_def limiter_check_def limiter_record_def push_attempt_def verdict_def
  MAX_TIMESTAMPS_PER_CALLER_def timestamps_def reset_limit_def limiter_reset_def

lemma permissions_of_eval:
  "permissions_of [] = {}" "permissions_of (r # rs) = ro_permissions r \<union> permissions_of rs"
  by (simp_all add: permissions_of_def)

lemmas store_eval = account_get_def account_get_by_email_def read_one_fetch fetch_one_def roles_of_def
  select_where_def update_where_def delete_where_def count_where_def account_of_def account_save_def
  saved_row_def write_roles_def insert_account_role_def role_key_def insert_session_def
  session_add_within_cap_def session_overflow_def oldest_first_def session_get_by_token_hash_def
  session_revoke_all_def session_save_def grant_redeem_def grant_revoke_all_for_account_def
  account_count_def account_add_def insert_account_def row_of_account_def role_get_def role_resolve_def
  count_holding_def permissions_of_eval

lemmas service_eval = login_def authenticate_def find_for_login_def accept_login_def open_session_def
  with_success_def is_locked_def hasher_verify_def hasher_needs_rehash_def verify_password_def
  for_account_def settings_api_def deployment_preferences_def announces_new_sessions_def
  timedelta_s_def resolve_session_def set_password_def redeem_invite_def redeem_token_def
  touched_def txn_simps Let_def

lemma sample_member_email: "normalize_email ''m@k.io'' = Inr ''m@k.io''"
  by code_simp

lemma sample_unknown_email: "normalize_email ''x@k.io'' = Inr ''x@k.io''"
  by code_simp

lemma sample_policy: "check_password_policy ''long enough'' = Inr ()"
  by (simp add: check_password_policy_Inr is_space_def code_of_def)

lemmas sample_eval = limit_eval store_eval service_eval sample_defs role_names sample_member_email
  sample_unknown_email sample_policy

end
