(* ===== verification/AccountProperties.thy ===== *)
theory AccountProperties
  imports SignIn Sample
begin

text \<open>
  What the account service promises: how a login refuses and what it opens, how long a token
  lives, what a new password ends, and how often a grant can be redeemed. Each property is
  applied to the sample deployment.
\<close>

section \<open>Signing in\<close>





text \<open>C4: A login that succeeds was made with the right password for an account that exists,
  is active and is not locked, and leaves that account with its failure count cleared, its
  lock lifted and its roles untouched.\<close>

theorem login_success_sound:
  assumes "db_ok s" and "login w email password caller s = (Inr res, t)"
  shows "\<exists>a c. login_account email s = Some a \<and> may_sign_in w password a \<and> lr_account_id res = ac_id a
     \<and> account_get (ac_id a) t = Some c \<and> ac_failed_attempts c = 0 \<and> ac_locked_until c = None
     \<and> ac_roles c = ac_roles a"
  by (rule login_account_cleared [OF assms])

lemma sample_known:
  "login_account ''m@k.io'' sample_state = Some (account_of (sample_account ''m'' ''m@k.io'') [MEMBER])"
proof -
  have "normalize_email ''m@k.io'' = Inr ''m@k.io''" by code_simp
  then show ?thesis
    by (simp add: login_account_def account_get_by_email_def read_one_fetch fetch_one_def roles_of_def
        select_where_def account_of_def sample_defs)
qed

lemma sample_login:
  "login sample_env ''m@k.io'' ''m'' ''ip'' sample_state =
    (Inr \<lparr>lr_session_id = ''new'', lr_account_id = ''m'', lr_token = ''tok'', lr_expires_at = 1209600001000\<rparr>,
     snd (login sample_env ''m@k.io'' ''m'' ''ip'' sample_state))"
proof -
  have "fst (login sample_env ''m@k.io'' ''m'' ''ip'' sample_state) =
    Inr \<lparr>lr_session_id = ''new'', lr_account_id = ''m'', lr_token = ''tok'', lr_expires_at = 1209600001000\<rparr>"
    by (simp add: sample_eval)
  then show ?thesis by (metis prod.collapse)
qed

theorem login_success_sound_witness:
  "\<exists>a c. login_account ''m@k.io'' sample_state = Some a \<and> may_sign_in sample_env ''m'' a \<and> ''m'' = ac_id a
     \<and> account_get (ac_id a) (snd (login sample_env ''m@k.io'' ''m'' ''ip'' sample_state)) = Some c
     \<and> ac_failed_attempts c = 0 \<and> ac_locked_until c = None \<and> ac_roles c = ac_roles a"
  using login_success_sound [OF sample_ok sample_login] by simp



section \<open>Tokens\<close>

text \<open>C12: A token is resolved only to a session that has not expired, stored under the hash of
  that token, of an account that exists and is active; using it slides the idle deadline but
  never past the absolute one, which does not move.\<close>

theorem resolve_session_sound:
  assumes "db_ok s" and "resolve_session w token s = (Inr x, t)"
  shows "\<exists>y a. y \<in> set (t_sessions s) \<and> se_token_hash y = ev_hash_token w token \<and> \<not> is_expired y (ev_now w)
      \<and> account_get (se_account_id y) s = Some a \<and> ac_status a = ACTIVE
      \<and> se_id x = se_id y \<and> se_account_id x = se_account_id y
      \<and> se_absolute_expires_at x = se_absolute_expires_at y \<and> se_expires_at x \<le> se_absolute_expires_at x"
  by (rule resolve_session_Inr [OF assms])

theorem resolve_session_sound_witness:
  "\<exists>x t y. resolve_session sample_env ''so'' sample_state = (Inr x, t) \<and> y \<in> set (t_sessions sample_state)
     \<and> se_id x = se_id y \<and> \<not> is_expired y 1000 \<and> se_expires_at x \<le> se_absolute_expires_at y"
proof -
  obtain x t where r: "resolve_session sample_env ''so'' sample_state = (Inr x, t)"
    by (simp add: sample_eval)
  from resolve_session_sound [OF sample_ok r] r show ?thesis by (auto simp: sample_env_def)
qed

text \<open>C6: Setting a password, which every change and every reset goes through, leaves no live
  session of the account but the one it was told to keep and no password reset that could
  still be redeemed, and only accepts a password that satisfies the policy.\<close>

theorem set_password_ends_access:
  assumes "db_ok s" and "set_password w a password keep s = (Inr u, t)"
  shows "(\<forall>now h x. session_get_by_token_hash now h t = Some x \<and> se_account_id x = ac_id a \<longrightarrow> Some (se_id x) = keep)
    \<and> (\<forall>g \<in> set (t_grants t). gr_account_id g = Some (ac_id a) \<and> gr_purpose g = PASSWORD_RESET
        \<longrightarrow> (\<forall>now. \<not> is_redeemable g now))
    \<and> check_password_policy password = Inr ()"
  using set_password_Inr [OF assms] by blast

theorem set_password_ends_access_witness:
  "\<exists>t. set_password sample_env (account_of (sample_account ''m'' ''m@k.io'') [MEMBER]) ''long enough'' None sample_state = (Inr (), t)
    \<and> (\<forall>g \<in> set (t_grants t). gr_account_id g = Some ''m'' \<and> gr_purpose g = PASSWORD_RESET \<longrightarrow> (\<forall>now. \<not> is_redeemable g now))"
proof -
  have run: "set_password sample_env (account_of (sample_account ''m'' ''m@k.io'') [MEMBER]) ''long enough'' None sample_state
    = (Inr (), snd (set_password sample_env (account_of (sample_account ''m'' ''m@k.io'') [MEMBER]) ''long enough'' None sample_state))"
    by (simp add: sample_eval)
  from set_password_ends_access [OF sample_ok run] run show ?thesis
    by (auto simp: sample_account_def)
qed

section \<open>Grants\<close>

text \<open>C7: Whatever sequence of additions, redemptions, revocations and purges runs on the grant
  store, in whatever order and at whatever instants, the token with one hash is redeemed at
  most once, unless a grant with that hash is added again; and not even once when it is
  already spent, revoked or absent.\<close>

theorem grant_redeemed_once:
  assumes "db_ok d" and "\<And>g. AddGrant g \<in> set calls \<Longrightarrow> gr_token_hash g \<noteq> h"
  shows "redemptions (grant_exec grant_add grant_redeem grant_revoke_all_for_account grant_purge_expired) h calls d
     \<le> (if grant_usable h d then 1 else 0)"
  by (rule gs.redemptions_bound [OF assms])

theorem grant_redeemed_once_witness:
  "redemptions (grant_exec grant_add grant_redeem grant_revoke_all_for_account grant_purge_expired) ''tgi''
     [Redeem ''tgi'' 1000, RevokeAll ''m'' PASSWORD_RESET, Redeem ''tgi'' 1001] sample_state \<le> 1
   \<and> redemptions (grant_exec grant_add grant_redeem grant_revoke_all_for_account grant_purge_expired) ''tgi''
     [Redeem ''tgi'' 1000, RevokeAll ''m'' PASSWORD_RESET, Redeem ''tgi'' 1001] sample_state = 1"
  using grant_redeemed_once [OF sample_ok, of "[Redeem ''tgi'' 1000, RevokeAll ''m'' PASSWORD_RESET, Redeem ''tgi'' 1001]" "''tgi''"]
  by (auto simp: sample_eval is_redeemable_def split: if_splits)

end
