(* ===== verification/ProfileStore.thy ===== *)
theory ProfileStore
  imports Database
begin

text \<open>
  \<^verbatim>\<open>SqlProfileStore\<close> of \<^verbatim>\<open>src/src/keyring_api/profiles/sql_store.py\<close>: profiles in one table, their
  connections in another, every statement keyed by the account. The JSON column of scopes is
  the list it encodes. The port the credential service relies on reads one connection at a
  time: each write changes exactly the one it names.
\<close>

section \<open>Reading\<close>

definition connections_of :: "string \<Rightarrow> string \<Rightarrow> 'z db_scheme \<Rightarrow> connection list" where
  "connections_of aid name d =
     sort_key (\<lambda>c. (co_created_at c, co_service c))
       (map cr_connection (select_where (\<lambda>r. cr_account_id r = aid \<and> cr_profile_name r = name) (t_connections d)))"

definition profile_of :: "profile_row \<Rightarrow> connection list \<Rightarrow> profile" where
  "profile_of row connections =
     \<lparr>pr_id = pr_id row, pr_account_id = pr_account_id row, pr_name = pr_name row,
      pr_created_at = pr_created_at row, pr_updated_at = pr_updated_at row,
      pr_connections = connections\<rparr>"

definition profile_read_many :: "profile_row list \<Rightarrow> 'z db_scheme \<Rightarrow> profile list" where
  "profile_read_many rows d = map (\<lambda>r. profile_of r (connections_of (pr_account_id r) (pr_name r) d)) rows"

definition profile_read_one :: "(profile_row \<Rightarrow> bool) \<Rightarrow> 'z db_scheme \<Rightarrow> profile option" where
  "profile_read_one p d =
     (case profile_read_many (select_where p (t_profiles d)) d of [] \<Rightarrow> None | x # _ \<Rightarrow> Some x)"

definition profile_get :: "string \<Rightarrow> string \<Rightarrow> 'z db_scheme \<Rightarrow> profile option" where
  "profile_get aid name d = profile_read_one (\<lambda>r. pr_account_id r = aid \<and> pr_name r = name) d"

definition profile_list_for_account :: "string \<Rightarrow> 'z db_scheme \<Rightarrow> profile list" where
  "profile_list_for_account aid d =
     profile_read_many (sort_key (\<lambda>r. (pr_created_at r, pr_name r))
       (select_where (\<lambda>r. pr_account_id r = aid) (t_profiles d))) d"

definition profile_count_for_account :: "string \<Rightarrow> 'z db_scheme \<Rightarrow> nat" where
  "profile_count_for_account aid d = count_where (\<lambda>r. pr_account_id r = aid) (t_profiles d)"

definition all_profiles :: "'z db_scheme \<Rightarrow> profile list" where
  "all_profiles d = profile_read_many (t_profiles d) d"

section \<open>Writing\<close>

definition check_connection_cap :: "string \<Rightarrow> string \<Rightarrow> string \<Rightarrow> nat \<Rightarrow> 'z db_scheme \<Rightarrow> unit result" where
  "check_connection_cap aid name service cap d =
     (let held = count_where (\<lambda>r. cr_account_id r = aid \<and> cr_profile_name r = name) (t_connections d);
          replacing = list_ex (\<lambda>r. connection_key r = (aid, name, service)) (t_connections d)
      in if \<not> replacing \<and> held \<ge> cap
         then Inl (LimitExceededError [''at most '', str_nat cap, '' connections per profile''])
         else Inr ())"

text \<open>\<open>ON CONFLICT DO UPDATE\<close> sets every column but the key and \<open>created_at\<close>.\<close>

definition upsert_connection :: "string \<Rightarrow> string \<Rightarrow> connection \<Rightarrow> 'z db_scheme \<Rightarrow> 'z db_scheme result" where
  "upsert_connection aid name item d =
     (if list_ex (\<lambda>r. connection_key r = (aid, name, co_service item)) (t_connections d)
      then Inr (d\<lparr>t_connections := update_where (\<lambda>r. connection_key r = (aid, name, co_service item))
             (\<lambda>r. r\<lparr>cr_connection := item\<lparr>co_created_at := co_created_at (cr_connection r)\<rparr>\<rparr>) (t_connections d)\<rparr>)
      else insert_connection \<lparr>cr_account_id = aid, cr_profile_name = name, cr_connection = item\<rparr> d)"

fun upsert_all :: "string \<Rightarrow> string \<Rightarrow> connection list \<Rightarrow> 'z db_scheme \<Rightarrow> 'z db_scheme result" where
  "upsert_all aid name [] d = Inr d"
| "upsert_all aid name (c # cs) d =
     (case upsert_connection aid name c d of Inl e \<Rightarrow> Inl e | Inr d' \<Rightarrow> upsert_all aid name cs d')"

definition profile_add :: "profile \<Rightarrow> nat \<Rightarrow> ('z, unit) dbtxn" where
  "profile_add p cap d =
     (if list_ex (\<lambda>r. pr_account_id r = pr_account_id p \<and> pr_name r = pr_name p) (t_profiles d)
        then Inl (ProfileExistsError [''a profile named '', py_repr (pr_name p), '' already exists''])
      else if count_where (\<lambda>r. pr_account_id r = pr_account_id p) (t_profiles d) \<ge> cap
        then Inl (LimitExceededError [''at most '', str_nat cap, '' profiles per account''])
      else case insert_profile \<lparr>pr_id = pr_id p, pr_account_id = pr_account_id p, pr_name = pr_name p,
                  pr_created_at = pr_created_at p, pr_updated_at = pr_updated_at p\<rparr> d of
             Inl e \<Rightarrow> Inl e
           | Inr d' \<Rightarrow> (case upsert_all (pr_account_id p) (pr_name p) (pr_connections p) d' of
                          Inl e \<Rightarrow> Inl e | Inr d'' \<Rightarrow> Inr ((), d'')))"

definition PROFILE_VANISHED :: message where
  "PROFILE_VANISHED = [''the profile this connection belongs to no longer exists'']"

definition touch_profile :: "string \<Rightarrow> string \<Rightarrow> int \<Rightarrow> 'z db_scheme \<Rightarrow> 'z db_scheme" where
  "touch_profile aid name now d =
     d\<lparr>t_profiles := update_where (\<lambda>r. profile_key r = (aid, name)) (\<lambda>r. r\<lparr>pr_updated_at := now\<rparr>) (t_profiles d)\<rparr>"

definition conn_get :: "string \<Rightarrow> string \<Rightarrow> string \<Rightarrow> 'z db_scheme \<Rightarrow> connection option" where
  "conn_get aid name service d =
     map_option cr_connection (fetch_one (\<lambda>r. connection_key r = (aid, name, service)) (t_connections d))"

definition put_connection ::
  "string \<Rightarrow> string \<Rightarrow> connection \<Rightarrow> nat \<Rightarrow> int \<Rightarrow> ('z, connection) dbtxn" where
  "put_connection aid name connection cap now d =
     (if \<not> list_ex (\<lambda>r. profile_key r = (aid, name)) (t_profiles d)
        then Inl (ProfileNotFoundError PROFILE_VANISHED)
      else case check_connection_cap aid name (co_service connection) cap (touch_profile aid name now d) of
             Inl e \<Rightarrow> Inl e
           | Inr _ \<Rightarrow> (case upsert_connection aid name connection (touch_profile aid name now d) of
                          Inl e \<Rightarrow> Inl e
                        | Inr d' \<Rightarrow> (case conn_get aid name (co_service connection) d' of
                                       None \<Rightarrow> Inl (Unhandled [''TypeError''])
                                     | Some stored \<Rightarrow> Inr (stored, d'))))"

definition remove_connection :: "string \<Rightarrow> string \<Rightarrow> string \<Rightarrow> int \<Rightarrow> ('z, bool) dbtxn" where
  "remove_connection aid name service now d =
     (let gone = count_where (\<lambda>r. connection_key r = (aid, name, service)) (t_connections d);
          d' = d\<lparr>t_connections := delete_where (\<lambda>r. connection_key r = (aid, name, service)) (t_connections d)\<rparr>
      in Inr (gone > 0, if gone > 0 then touch_profile aid name now d' else d'))"

definition profile_delete :: "string \<Rightarrow> string \<Rightarrow> ('z, bool) dbtxn" where
  "profile_delete aid name d =
     (let p = (\<lambda>r. pr_account_id r = aid \<and> pr_name r = name) in
      Inr (count_where p (t_profiles d) > 0, delete_profiles p d))"

section \<open>Facts\<close>

lemma key_eq: "profile_key r = (aid, name) \<longleftrightarrow> pr_account_id r = aid \<and> pr_name r = name"
  by (simp add: profile_key_def)

lemma profile_of_simps [simp]:
  "pr_id (profile_of r cs) = pr_id r" "pr_account_id (profile_of r cs) = pr_account_id r"
  "pr_name (profile_of r cs) = pr_name r" "pr_connections (profile_of r cs) = cs"
  by (simp_all add: profile_of_def)

lemma profile_get_fetch:
  "profile_get aid name d =
     map_option (\<lambda>r. profile_of r (connections_of aid name d)) (fetch_one (\<lambda>r. profile_key r = (aid, name)) (t_profiles d))"
proof -
  have "(case map f (filter p rows) of [] \<Rightarrow> None | x # _ \<Rightarrow> Some x) = map_option f (List.find p rows)"
    for f :: "profile_row \<Rightarrow> profile" and p rows
    by (induction rows) auto
  then have eq: "profile_get aid name d = map_option (\<lambda>r. profile_of r (connections_of (pr_account_id r) (pr_name r) d))
      (fetch_one (\<lambda>r. profile_key r = (aid, name)) (t_profiles d))"
    by (simp add: profile_get_def profile_read_one_def profile_read_many_def select_where_def fetch_one_def key_eq)
  show ?thesis
  proof (cases "fetch_one (\<lambda>r. profile_key r = (aid, name)) (t_profiles d)")
    case (Some r)
    then have "pr_account_id r = aid \<and> pr_name r = name" by (auto simp: key_eq dest: fetch_one_SomeD)
    with Some eq show ?thesis by simp
  qed (simp add: eq)
qed

lemma profile_get_key:
  "profile_get aid name d = Some p \<Longrightarrow> pr_account_id p = aid \<and> pr_name p = name"
  by (auto simp: profile_get_fetch key_eq dest: fetch_one_SomeD)

lemma profile_get_None: "profile_get aid name d = None \<longleftrightarrow> (aid, name) \<notin> profile_keys d"
  by (auto simp: profile_get_fetch table_simps profile_keys_def image_iff)

lemma conn_get_Some:
  assumes "db_ok d"
  shows "conn_get aid name service d = Some c \<longleftrightarrow>
    (\<exists>r \<in> set (t_connections d). connection_key r = (aid, name, service) \<and> cr_connection r = c)"
proof -
  have "distinct (map connection_key (t_connections d))" using assms by (simp add: db_ok_def keys_ok_def)
  from fetch_one_key_iff [OF this, of "(aid, name, service)"] show ?thesis
    by (auto simp: conn_get_def)
qed

lemma conn_get_service: "conn_get aid name service d = Some c \<Longrightarrow> co_service c = service"
  by (auto simp: conn_get_def connection_key_def dest: fetch_one_SomeD)

text \<open>A profile shows exactly the stored connections.\<close>

lemma connection_to_get:
  assumes "db_ok d" and "profile_get aid name d = Some p"
  shows "connection_to p service = conn_get aid name service d"
proof -
  have cs: "set (pr_connections p) = {cr_connection r | r. r \<in> set (t_connections d) \<and> cr_account_id r = aid \<and> cr_profile_name r = name}"
    using assms(2) by (auto simp: profile_get_fetch connections_of_def table_simps)
  show ?thesis
  proof (cases "connection_to p service")
    case None
    then have "conn_get aid name service d = None"
      using cs by (auto simp: connection_to_def find_None_iff conn_get_def table_simps connection_key_def)
    with None show ?thesis by simp
  next
    case (Some c)
    then have "c \<in> set (pr_connections p)" "co_service c = service"
      by (auto simp: connection_to_def find_Some_iff)
    then have "conn_get aid name service d = Some c"
      using cs by (auto simp: conn_get_Some [OF assms(1)] connection_key_def)
    with Some show ?thesis by simp
  qed
qed

lemma conn_get_profile:
  "db_ok d \<Longrightarrow> conn_get aid name service d = Some c \<Longrightarrow> (aid, name) \<in> profile_keys d"
  by (fastforce simp: conn_get_Some connection_key_def db_ok_def dest: refs_okD(5))

lemma touch_profile_sel [simp]:
  "t_connections (touch_profile a n now d) = t_connections d" "t_secrets (touch_profile a n now d) = t_secrets d"
  "t_accounts (touch_profile a n now d) = t_accounts d" "t_offline_grants (touch_profile a n now d) = t_offline_grants d"
  "conn_get a' n' s (touch_profile a n now d) = conn_get a' n' s d"
  "profile_keys (touch_profile a n now d) = profile_keys d"
proof -
  have "map profile_key (update_where p (\<lambda>r. r\<lparr>pr_updated_at := now\<rparr>) rows) = map profile_key rows" for p and rows :: "profile_row list"
    by (rule map_update_where_same) (simp add: profile_key_def)
  then have "profile_key ` set (update_where p (\<lambda>r. r\<lparr>pr_updated_at := now\<rparr>) rows) = profile_key ` set rows" for p and rows :: "profile_row list"
    by (metis list.set_map)
  then show "profile_keys (touch_profile a n now d) = profile_keys d"
    by (simp add: touch_profile_def profile_keys_def)
qed (simp_all add: touch_profile_def conn_get_def)

lemma touch_profile_ok: "db_ok d \<Longrightarrow> db_ok (touch_profile a n now d)"
  unfolding touch_profile_def by (rule update_profiles_ok) (simp_all add: profile_key_def)

lemma update_connections_ok:
  assumes "db_ok d" and "\<And>r. p r \<Longrightarrow> connection_key (f r) = connection_key r"
  shows "db_ok (d\<lparr>t_connections := update_where p f (t_connections d)\<rparr>)"
proof -
  have keys: "map connection_key (update_where p f rows) = map connection_key rows" for rows
    by (simp add: update_where_def assms(2))
  have "(cr_account_id r, cr_profile_name r) \<in> profile_keys d" if "r \<in> set (update_where p f (t_connections d))" for r
    using that assms
    by (elim update_whereE) (fastforce simp: db_ok_def connection_key_def dest: refs_okD(5))+
  then show ?thesis using assms(1) by (simp add: db_defs keys)
qed

lemma upsert_connection_Inr:
  assumes "db_ok d" and "upsert_connection aid name item d = Inr d'"
  shows "db_ok d'"
    and "conn_get a n s d' = (if (a, n, s) = (aid, name, co_service item)
      then Some (case conn_get aid name (co_service item) d of
                   None \<Rightarrow> item | Some old \<Rightarrow> item\<lparr>co_created_at := co_created_at old\<rparr>)
      else conn_get a n s d)"
    and "d' = d\<lparr>t_connections := t_connections d'\<rparr>"
    and "count_where (\<lambda>r. cr_account_id r = a \<and> cr_profile_name r = n) (t_connections d') =
      count_where (\<lambda>r. cr_account_id r = a \<and> cr_profile_name r = n) (t_connections d)
      + (if (a, n) = (aid, name) \<and> conn_get aid name (co_service item) d = None then 1 else 0)"
proof -
  let ?k = "(aid, name, co_service item)"
  let ?new = "\<lparr>cr_account_id = aid, cr_profile_name = name, cr_connection = item\<rparr>"
  let ?f = "\<lambda>r. r\<lparr>cr_connection := item\<lparr>co_created_at := co_created_at (cr_connection r)\<rparr>\<rparr>"
  have key: "connection_key ?new = ?k" by (simp add: connection_key_def)
  have "db_ok d' \<and> (\<forall>a n s. conn_get a n s d' = (if (a, n, s) = ?k
      then Some (case conn_get aid name (co_service item) d of
                   None \<Rightarrow> item | Some old \<Rightarrow> item\<lparr>co_created_at := co_created_at old\<rparr>)
      else conn_get a n s d)) \<and> d' = d\<lparr>t_connections := t_connections d'\<rparr>
      \<and> (\<forall>a n. count_where (\<lambda>r. cr_account_id r = a \<and> cr_profile_name r = n) (t_connections d') =
      count_where (\<lambda>r. cr_account_id r = a \<and> cr_profile_name r = n) (t_connections d)
      + (if (a, n) = (aid, name) \<and> conn_get aid name (co_service item) d = None then 1 else 0))"
  proof (cases "list_ex (\<lambda>r. connection_key r = ?k) (t_connections d)")
    case True
    then have d': "d' = d\<lparr>t_connections := update_where (\<lambda>r. connection_key r = ?k) ?f (t_connections d)\<rparr>"
      using assms(2) by (simp add: upsert_connection_def)
    have f: "connection_key (?f r) = ?k" if "connection_key r = ?k" for r
      using that by (simp add: connection_key_def)
    obtain old where old: "fetch_one (\<lambda>r. connection_key r = ?k) (t_connections d) = Some old"
      using True by (cases "fetch_one (\<lambda>r. connection_key r = ?k) (t_connections d)")
        (auto simp: table_simps list_ex_iff)
    have get: "fetch_one (\<lambda>r. connection_key r = k) (update_where (\<lambda>r. connection_key r = ?k) ?f rows) =
        (if k = ?k then map_option ?f (fetch_one (\<lambda>r. connection_key r = k) rows)
         else fetch_one (\<lambda>r. connection_key r = k) rows)" for k rows
      using f by (induction rows) (auto simp: fetch_one_def update_where_def)
    have cnt: "count_where (\<lambda>r. cr_account_id r = a \<and> cr_profile_name r = n) (update_where p ?f rows) =
        count_where (\<lambda>r. cr_account_id r = a \<and> cr_profile_name r = n) rows" for a n p rows
      by (induction rows) (auto simp: count_where_def update_where_def)
    have "db_ok d'" unfolding d' by (rule update_connections_ok [OF assms(1)]) (simp add: f)
    moreover have "conn_get a n s d' = (if (a, n, s) = ?k
      then Some (case conn_get aid name (co_service item) d of
                   None \<Rightarrow> item | Some old \<Rightarrow> item\<lparr>co_created_at := co_created_at old\<rparr>)
      else conn_get a n s d)" for a n s
      using old by (auto simp: conn_get_def d' get)
    ultimately show ?thesis using old by (simp add: d' cnt conn_get_def)
  next
    case False
    then have ins: "insert_connection ?new d = Inr d'"
      using assms(2) by (simp add: upsert_connection_def)
    have none: "fetch_one (\<lambda>r. connection_key r = ?k) (t_connections d) = None"
      using False by (auto simp: table_simps list_ex_iff)
    have d': "d' = d\<lparr>t_connections := t_connections d @ [?new]\<rparr>"
      using ins by (auto simp: insert_connection_def split: if_splits)
    have "db_ok d'" by (rule insert_connection_ok [OF assms(1) ins])
    moreover have "conn_get a n s d' = (if (a, n, s) = ?k
      then Some (case conn_get aid name (co_service item) d of
                   None \<Rightarrow> item | Some old \<Rightarrow> item\<lparr>co_created_at := co_created_at old\<rparr>)
      else conn_get a n s d)" for a n s
      using none fetch_key_insert [of connection_key ?new "t_connections d" "(a, n, s)"]
      by (auto simp: conn_get_def d' key)
    ultimately show ?thesis using none by (simp add: d' conn_get_def count_where_def)
  qed
  then show "db_ok d'"
    and "conn_get a n s d' = (if (a, n, s) = (aid, name, co_service item)
      then Some (case conn_get aid name (co_service item) d of
                   None \<Rightarrow> item | Some old \<Rightarrow> item\<lparr>co_created_at := co_created_at old\<rparr>)
      else conn_get a n s d)"
    and "d' = d\<lparr>t_connections := t_connections d'\<rparr>"
    and "count_where (\<lambda>r. cr_account_id r = a \<and> cr_profile_name r = n) (t_connections d') =
      count_where (\<lambda>r. cr_account_id r = a \<and> cr_profile_name r = n) (t_connections d)
      + (if (a, n) = (aid, name) \<and> conn_get aid name (co_service item) d = None then 1 else 0)"
    by blast+
qed

lemma check_connection_cap_Inr:
  assumes "check_connection_cap aid name service cap d = Inr u" and "conn_get aid name service d = None"
  shows "count_where (\<lambda>r. cr_account_id r = aid \<and> cr_profile_name r = name) (t_connections d) < cap"
  using assms by (auto simp: check_connection_cap_def Let_def conn_get_def table_simps list_ex_iff split: if_splits)

lemma put_connection_Inr:
  assumes "db_ok d" and "put_connection aid name c cap now d = Inr (st, d')"
  shows "db_ok d'"
    and "conn_get a n s d' = (if (a, n, s) = (aid, name, co_service c) then Some st else conn_get a n s d)"
    and "st = (case conn_get aid name (co_service c) d of
                   None \<Rightarrow> c | Some old \<Rightarrow> c\<lparr>co_created_at := co_created_at old\<rparr>)"
    and "(aid, name) \<in> profile_keys d" and "profile_keys d' = profile_keys d"
    and "d' = (touch_profile aid name now d)\<lparr>t_connections := t_connections d'\<rparr>"
    and "conn_get aid name (co_service c) d = None \<Longrightarrow>
      count_where (\<lambda>r. cr_account_id r = aid \<and> cr_profile_name r = name) (t_connections d) < cap"
    and "count_where (\<lambda>r. cr_account_id r = a \<and> cr_profile_name r = n) (t_connections d') =
      count_where (\<lambda>r. cr_account_id r = a \<and> cr_profile_name r = n) (t_connections d)
      + (if (a, n) = (aid, name) \<and> conn_get aid name (co_service c) d = None then 1 else 0)"
proof -
  let ?t = "touch_profile aid name now d"
  from assms(2) have here: "list_ex (\<lambda>r. profile_key r = (aid, name)) (t_profiles d)"
    and cap: "check_connection_cap aid name (co_service c) cap ?t = Inr ()"
    and up: "upsert_connection aid name c ?t = Inr d'"
    and st: "conn_get aid name (co_service c) d' = Some st"
    by (auto simp: put_connection_def split: if_splits sum.splits option.splits)
  have t: "db_ok ?t" using assms(1) by (rule touch_profile_ok)
  note ups = upsert_connection_Inr [OF t up]
  show "db_ok d'" by (rule ups(1))
  show st': "st = (case conn_get aid name (co_service c) d of
                   None \<Rightarrow> c | Some old \<Rightarrow> c\<lparr>co_created_at := co_created_at old\<rparr>)"
    using ups(2) [of aid name "co_service c"] st by simp
  show "conn_get a n s d' = (if (a, n, s) = (aid, name, co_service c) then Some st else conn_get a n s d)"
    using ups(2) [of a n s] st' by simp
  show "(aid, name) \<in> profile_keys d" using here unfolding list_ex_iff profile_keys_def by (metis imageI)
  show frame: "d' = ?t\<lparr>t_connections := t_connections d'\<rparr>" by (rule ups(3))
  have "profile_keys d' = profile_keys ?t" by (subst frame) (simp add: profile_keys_def)
  then show "profile_keys d' = profile_keys d" by simp
  show "count_where (\<lambda>r. cr_account_id r = aid \<and> cr_profile_name r = name) (t_connections d) < cap"
    if "conn_get aid name (co_service c) d = None"
    using check_connection_cap_Inr [OF cap] that by simp
  show "count_where (\<lambda>r. cr_account_id r = a \<and> cr_profile_name r = n) (t_connections d') =
      count_where (\<lambda>r. cr_account_id r = a \<and> cr_profile_name r = n) (t_connections d)
      + (if (a, n) = (aid, name) \<and> conn_get aid name (co_service c) d = None then 1 else 0)"
    using ups(4) [of a n] by simp
qed

lemma remove_connection_Inr:
  assumes "db_ok d" and "remove_connection aid name service now d = Inr (b, d')"
  shows "db_ok d'" and "conn_get a n s d' = (if (a, n, s) = (aid, name, service) then None else conn_get a n s d)"
    and "profile_keys d' = profile_keys d" and "b \<longleftrightarrow> conn_get aid name service d \<noteq> None"
    and "t_secrets d' = t_secrets d"
proof -
  let ?e = "d\<lparr>t_connections := delete_where (\<lambda>r. connection_key r = (aid, name, service)) (t_connections d)\<rparr>"
  have d': "d' = (if b then touch_profile aid name now ?e else ?e)"
    and b: "b \<longleftrightarrow> count_where (\<lambda>r. connection_key r = (aid, name, service)) (t_connections d) > 0"
    using assms(2) by (auto simp: remove_connection_def Let_def)
  have e: "db_ok ?e" by (rule delete_connections_ok [OF assms(1)])
  then show "db_ok d'" by (simp add: d' touch_profile_ok)
  show "conn_get a n s d' = (if (a, n, s) = (aid, name, service) then None else conn_get a n s d)"
    by (auto simp: d' conn_get_def fetch_key_delete)
  show "profile_keys d' = profile_keys d" by (simp add: d') (simp add: profile_keys_def)
  show "b \<longleftrightarrow> conn_get aid name service d \<noteq> None"
    by (auto simp: b count_where_pos conn_get_def table_simps)
  show "t_secrets d' = t_secrets d" by (simp add: d')
qed

lemma profile_delete_Inr:
  assumes "db_ok d" and "profile_delete aid name d = Inr (b, d')"
  shows "db_ok d'" and "conn_get a n s d' = (if (a, n) = (aid, name) then None else conn_get a n s d)"
    and "profile_keys d' = profile_keys d - {(aid, name)}" and "b \<longleftrightarrow> (aid, name) \<in> profile_keys d"
    and "t_secrets d' = t_secrets d"
    and "\<forall>g \<in> set (t_offline_grants d'). (og_account_id g, og_profile g) \<noteq> (aid, name)"
proof -
  let ?p = "\<lambda>r. pr_account_id r = aid \<and> pr_name r = name"
  have d': "d' = delete_profiles ?p d" and b: "b \<longleftrightarrow> count_where ?p (t_profiles d) > 0"
    using assms(2) by (auto simp: profile_delete_def Let_def)
  show ok: "db_ok d'" using assms(1) by (simp add: d' delete_profiles_ok)
  show keys: "profile_keys d' = profile_keys d - {(aid, name)}"
    unfolding d' delete_profiles_keys by (auto simp: profile_keys_def profile_key_def)
  show "b \<longleftrightarrow> (aid, name) \<in> profile_keys d"
    by (auto simp: b count_where_pos profile_keys_def profile_key_def image_iff)
  show "t_secrets d' = t_secrets d" by (simp add: d' delete_profiles_sel)
  show "\<forall>g \<in> set (t_offline_grants d'). (og_account_id g, og_profile g) \<noteq> (aid, name)"
    using ok keys by (auto simp: db_ok_def dest: refs_okD(7))
  have gone: "(a, n) \<noteq> (aid, name) \<or> conn_get a n s d' = None"
    using conn_get_profile [OF ok, of a n s] keys by (cases "conn_get a n s d'") auto
  have "profile_key ` {r \<in> set (t_profiles d). ?p r} \<subseteq> {(aid, name)}" by (auto simp: profile_key_def)
  then have kept: "r \<in> set (t_connections d') \<longleftrightarrow> r \<in> set (t_connections d)"
    if "(cr_account_id r, cr_profile_name r) \<noteq> (aid, name)" for r
    using that by (auto simp: d' delete_profiles_sel)
  show "conn_get a n s d' = (if (a, n) = (aid, name) then None else conn_get a n s d)"
  proof (cases "(a, n) = (aid, name)")
    case True with gone show ?thesis by auto
  next
    case False
    have "conn_get a n s d' = Some c \<longleftrightarrow> conn_get a n s d = Some c" for c
      using kept False by (auto simp: conn_get_Some [OF ok] conn_get_Some [OF assms(1)] connection_key_def)
    then have "conn_get a n s d' = conn_get a n s d" by (metis option.exhaust)
    with False show ?thesis by (simp only: if_False)
  qed
qed

lemma upsert_all_Inr:
  assumes "db_ok d" and "upsert_all aid name cs d = Inr d'"
  shows "db_ok d' \<and> profile_keys d' = profile_keys d \<and> t_secrets d' = t_secrets d
    \<and> ((a, n) \<noteq> (aid, name) \<longrightarrow> conn_get a n s d' = conn_get a n s d)
    \<and> t_profiles d' = t_profiles d"
  using assms
proof (induction cs arbitrary: d)
  case (Cons c cs)
  then obtain e where e: "upsert_connection aid name c d = Inr e" "upsert_all aid name cs e = Inr d'"
    by (auto split: sum.splits)
  note up = upsert_connection_Inr [OF Cons.prems(1) e(1)]
  have frame: "t_profiles e = t_profiles d" "t_secrets e = t_secrets d"
    by (subst up(3), simp)+
  then have "profile_keys e = profile_keys d" by (simp add: profile_keys_def)
  with frame Cons.IH [OF up(1) e(2)] up(2) [of a n s] show ?case by auto
qed simp

lemma profile_add_Inr:
  assumes "db_ok d" and "profile_add p cap d = Inr (u, d')"
  shows "db_ok d'" and "profile_keys d' = insert (pr_account_id p, pr_name p) (profile_keys d)"
    and "(pr_account_id p, pr_name p) \<notin> profile_keys d"
    and "(a, n) \<noteq> (pr_account_id p, pr_name p) \<Longrightarrow> conn_get a n s d' = conn_get a n s d"
    and "profile_count_for_account (pr_account_id p) d < cap"
    and "profile_count_for_account a d' = profile_count_for_account a d + (if a = pr_account_id p then 1 else 0)"
    and "t_secrets d' = t_secrets d"
proof -
  let ?row = "\<lparr>pr_id = pr_id p, pr_account_id = pr_account_id p, pr_name = pr_name p,
                  pr_created_at = pr_created_at p, pr_updated_at = pr_updated_at p\<rparr>"
  from assms(2) obtain e where new: "\<not> list_ex (\<lambda>r. pr_account_id r = pr_account_id p \<and> pr_name r = pr_name p) (t_profiles d)"
    and cap: "count_where (\<lambda>r. pr_account_id r = pr_account_id p) (t_profiles d) < cap"
    and ins: "insert_profile ?row d = Inr e"
    and ups: "upsert_all (pr_account_id p) (pr_name p) (pr_connections p) e = Inr d'"
    by (auto simp: profile_add_def split: if_splits sum.splits)
  have e: "db_ok e" by (rule insert_profile_ok [OF assms(1) ins])
  have rows: "e = d\<lparr>t_profiles := t_profiles d @ [?row]\<rparr>"
    using ins by (auto simp: insert_profile_def split: if_splits)
  note all = upsert_all_Inr [OF e ups]
  show "db_ok d'" and "t_secrets d' = t_secrets d" using all rows by auto
  have "profile_keys e = insert (pr_account_id p, pr_name p) (profile_keys d)"
    by (auto simp: rows profile_keys_def profile_key_def)
  then show "profile_keys d' = insert (pr_account_id p, pr_name p) (profile_keys d)" using all by simp
  show "(pr_account_id p, pr_name p) \<notin> profile_keys d"
    using new by (auto simp: profile_keys_def profile_key_def list_ex_iff)
  show "conn_get a n s d' = conn_get a n s d" if "(a, n) \<noteq> (pr_account_id p, pr_name p)"
    using all that rows by (auto simp: conn_get_def)
  show "profile_count_for_account (pr_account_id p) d < cap" using cap by (simp add: profile_count_for_account_def)
  show "profile_count_for_account a d' = profile_count_for_account a d + (if a = pr_account_id p then 1 else 0)"
    using all by (simp add: profile_count_for_account_def rows count_where_def)
qed

section \<open>The profile port\<close>

text \<open>
  \<^verbatim>\<open>ProfileStore\<close> of \<^verbatim>\<open>profiles/store.py\<close>: which profiles exist, and one connection per profile and
  service. Writes name one connection or one profile, and change nothing else.
\<close>

locale profile_store =
  fixes ok :: "'s \<Rightarrow> bool"
    and has :: "string \<Rightarrow> string \<Rightarrow> 's \<Rightarrow> bool"
    and conn :: "string \<Rightarrow> string \<Rightarrow> string \<Rightarrow> 's \<Rightarrow> connection option"
    and put :: "string \<Rightarrow> string \<Rightarrow> connection \<Rightarrow> nat \<Rightarrow> int \<Rightarrow> (error, 's, connection) txn"
    and remove :: "string \<Rightarrow> string \<Rightarrow> string \<Rightarrow> int \<Rightarrow> (error, 's, bool) txn"
    and delete :: "string \<Rightarrow> string \<Rightarrow> (error, 's, bool) txn"
  assumes conn_has: "ok s \<Longrightarrow> conn a n v s \<noteq> None \<Longrightarrow> has a n s"
    and put_conn: "ok s \<Longrightarrow> put a n c cap now s = Inr (st, t) \<Longrightarrow> ok t \<and> has a n s \<and>
      conn a' n' v t = (if (a', n', v) = (a, n, co_service c) then Some st else conn a' n' v s)"
    and put_stored: "ok s \<Longrightarrow> put a n c cap now s = Inr (st, t) \<Longrightarrow>
      st = (case conn a n (co_service c) s of None \<Rightarrow> c | Some old \<Rightarrow> c\<lparr>co_created_at := co_created_at old\<rparr>)"
    and remove_conn: "ok s \<Longrightarrow> remove a n v now s = Inr (b, t) \<Longrightarrow> ok t \<and> (b \<longleftrightarrow> conn a n v s \<noteq> None) \<and>
      conn a' n' v' t = (if (a', n', v') = (a, n, v) then None else conn a' n' v' s)"
    and delete_conn: "ok s \<Longrightarrow> delete a n s = Inr (b, t) \<Longrightarrow> ok t \<and> (b \<longleftrightarrow> has a n s) \<and> \<not> has a n t \<and>
      conn a' n' v t = (if (a', n') = (a, n) then None else conn a' n' v s)"
begin

text \<open>Nothing done to one account's profiles shows in another's.\<close>

lemma isolated:
  assumes "ok s" and "b \<noteq> a"
  shows "put a n c cap now s = Inr (st, t) \<Longrightarrow> conn b m v t = conn b m v s"
    and "remove a n u now s = Inr (r, t) \<Longrightarrow> conn b m v t = conn b m v s"
    and "delete a n s = Inr (r, t) \<Longrightarrow> conn b m v t = conn b m v s"
  using put_conn [OF assms(1), of a n c cap now st t b m v] remove_conn [OF assms(1), of a n u now r t b m v]
    delete_conn [OF assms(1), of a n r t b m v] assms(2) by auto

text \<open>A replaced connection keeps the instant it was first connected.\<close>

lemma put_created:
  assumes "ok s" and "put a n c cap now s = Inr (st, t)" and "conn a n (co_service c) s = Some old"
  shows "conn a n (co_service c) t = Some (c\<lparr>co_created_at := co_created_at old\<rparr>)"
  using put_conn [OF assms(1,2), of a n "co_service c"] put_stored [OF assms(1,2)] assms(3) by simp

lemma put_missing: "ok s \<Longrightarrow> \<not> has a n s \<Longrightarrow> put a n c cap now s \<noteq> Inr (st, t)"
  using put_conn [of s a n c cap now st t a n v] by auto

lemma put_service: "ok s \<Longrightarrow> put a n c cap now s = Inr (st, t) \<Longrightarrow> co_service st = co_service c"
  using put_stored [of s a n c cap now st t] by (auto split: option.splits)

end

interpretation ps: profile_store db_ok "\<lambda>a n d. (a, n) \<in> profile_keys d" conn_get put_connection
  remove_connection profile_delete
proof (unfold_locales, goal_cases)
  case (1 s a n v) then show ?case using conn_get_profile [of s a n v] by blast
next
  case (2 s a n c cap now st t a' n' v) then show ?case using put_connection_Inr(1,4) [OF 2] put_connection_Inr(2) [OF 2, of a' n' v] by blast
next
  case (3 s a n c cap now st t) then show ?case by (rule put_connection_Inr(3))
next
  case (4 s a n v now b t a' n' v') then show ?case using remove_connection_Inr(1,4) [OF 4] remove_connection_Inr(2) [OF 4, of a' n' v'] by blast
next
  case (5 s a n b t a' n' v)
  then show ?case using profile_delete_Inr(1,3,4) [OF 5] profile_delete_Inr(2) [OF 5, of a' n' v] by blast
qed

end
