(* ===== verification/SecretStore.thy ===== *)
theory SecretStore
  imports Database
begin

text \<open>
  \<^verbatim>\<open>src/src/keyring_api/secrets/envelope.py\<close> and \<^verbatim>\<open>secrets/sql.py\<close>: a secret is a JSON object,
  encrypted under a fresh data key which the master key wraps, and stored in one row per
  account, profile and service. AES-GCM and the JSON encoding are functions of the record
  \<open>vault\<close>; what the code relies on (that decryption undoes encryption and parsing undoes
  printing) is \<open>vault_faithful\<close>.
\<close>

section \<open>Secrets\<close>

text \<open>The members of a JSON object that the code tells apart; a Python bool is also an int.\<close>

datatype json = JNull | JBool bool | JInt int | JStr string | JOther string

type_synonym secret = "(string \<times> json) list"

definition secret_field :: "secret \<Rightarrow> string \<Rightarrow> json option" where
  "secret_field s k = map_of s k"

fun as_str :: "json option \<Rightarrow> string option" where
  "as_str (Some (JStr t)) = Some t"
| "as_str x = None"

fun as_int :: "json option \<Rightarrow> int option" where
  "as_int (Some (JInt n)) = Some n"
| "as_int (Some (JBool b)) = Some (if b then 1 else 0)"
| "as_int x = None"

section \<open>Envelopes\<close>

record vault =
  va_master :: "bytes option"
  va_data_key :: bytes \<comment> \<open>\<open>os.urandom\<close>: fresh for each envelope\<close>
  va_key_nonce :: bytes
  va_payload_nonce :: bytes
  va_encrypt :: "bytes \<Rightarrow> bytes \<Rightarrow> bytes \<Rightarrow> bytes"
  va_decrypt :: "bytes \<Rightarrow> bytes \<Rightarrow> bytes \<Rightarrow> bytes option" \<comment> \<open>\<open>None\<close>: it raises\<close>
  va_dumps :: "secret \<Rightarrow> bytes"
  va_loads :: "bytes \<Rightarrow> secret option" \<comment> \<open>\<open>None\<close>: it raises\<close>

definition ENVELOPE_VERSION :: int where "ENVELOPE_VERSION = 1"

definition UNREADABLE :: message where
  "UNREADABLE = [''stored credential material could not be read'']"

definition SEALED_MESSAGE :: message where
  "SEALED_MESSAGE = [''the credential vault is sealed: set KEYRING_MASTER_KEY'']"

definition require_master :: "vault \<Rightarrow> bytes result" where
  "require_master v = (case va_master v of None \<Rightarrow> Inl (VaultSealedError SEALED_MESSAGE) | Some k \<Rightarrow> Inr k)"

definition seal :: "vault \<Rightarrow> bytes \<Rightarrow> secret \<Rightarrow> envelope" where
  "seal v master secret =
     \<lparr>en_version = ENVELOPE_VERSION,
      en_wrapped_key = va_encrypt v master (va_key_nonce v) (va_data_key v),
      en_key_nonce = va_key_nonce v, en_nonce = va_payload_nonce v,
      en_ciphertext = va_encrypt v (va_data_key v) (va_payload_nonce v) (va_dumps v secret)\<rparr>"

definition open_envelope :: "vault \<Rightarrow> bytes \<Rightarrow> envelope \<Rightarrow> secret result" where
  "open_envelope v master e =
     (case va_decrypt v master (en_key_nonce e) (en_wrapped_key e) of
        None \<Rightarrow> Inl (CredentialUnavailableError UNREADABLE)
      | Some data_key \<Rightarrow>
          (case va_decrypt v data_key (en_nonce e) (en_ciphertext e) of
             None \<Rightarrow> Inl (CredentialUnavailableError UNREADABLE)
           | Some plaintext \<Rightarrow>
               (case va_loads v plaintext of
                  None \<Rightarrow> Inl (CredentialUnavailableError UNREADABLE)
                | Some decoded \<Rightarrow> Inr decoded)))"

text \<open>What the libraries document.\<close>

definition vault_faithful :: "vault \<Rightarrow> secret \<Rightarrow> bool" where
  "vault_faithful v s \<longleftrightarrow> (\<forall>k n p. va_decrypt v k n (va_encrypt v k n p) = Some p)
     \<and> va_loads v (va_dumps v s) = Some s"

lemma open_seal: "vault_faithful v s \<Longrightarrow> open_envelope v master (seal v master s) = Inr s"
  by (simp add: vault_faithful_def open_envelope_def seal_def)

text \<open>What was sealed under other draws of the same libraries opens too.\<close>

definition same_libraries :: "vault \<Rightarrow> vault \<Rightarrow> bool" where
  "same_libraries v u \<longleftrightarrow> va_encrypt u = va_encrypt v \<and> va_decrypt u = va_decrypt v
     \<and> va_dumps u = va_dumps v \<and> va_loads u = va_loads v"

lemma open_seal_later:
  "vault_faithful v s \<Longrightarrow> same_libraries v u \<Longrightarrow> open_envelope u master (seal v master s) = Inr s"
  by (simp add: vault_faithful_def open_envelope_def seal_def same_libraries_def)

lemma open_envelope_error:
  "open_envelope v master e = Inl x \<Longrightarrow> x = CredentialUnavailableError UNREADABLE"
  by (auto simp: open_envelope_def split: option.splits)

section \<open>The store\<close>

definition envelope_get :: "string \<Rightarrow> string \<Rightarrow> string \<Rightarrow> 'z db_scheme \<Rightarrow> envelope option" where
  "envelope_get aid name service d =
     map_option sr_envelope (fetch_one (\<lambda>r. secret_key r = (aid, name, service)) (t_secrets d))"

definition secret_get :: "vault \<Rightarrow> string \<Rightarrow> string \<Rightarrow> string \<Rightarrow> 'z db_scheme \<Rightarrow> secret option result" where
  "secret_get v aid name service d =
     (case require_master v of
        Inl e \<Rightarrow> Inl e
      | Inr master \<Rightarrow>
          (case envelope_get aid name service d of
             None \<Rightarrow> Inr None
           | Some e \<Rightarrow> (case open_envelope v master e of Inl x \<Rightarrow> Inl x | Inr s \<Rightarrow> Inr (Some s))))"

definition upsert_secret :: "string \<Rightarrow> string \<Rightarrow> string \<Rightarrow> envelope \<Rightarrow> int \<Rightarrow> 'z db_scheme \<Rightarrow> 'z db_scheme result" where
  "upsert_secret aid name service e now d =
     (if list_ex (\<lambda>r. secret_key r = (aid, name, service)) (t_secrets d)
      then Inr (d\<lparr>t_secrets := update_where (\<lambda>r. secret_key r = (aid, name, service))
             (\<lambda>r. r\<lparr>sr_envelope := e, sr_updated_at := now\<rparr>) (t_secrets d)\<rparr>)
      else insert_secret \<lparr>sr_account_id = aid, sr_profile_name = name, sr_service = service,
             sr_envelope = e, sr_created_at = now, sr_updated_at = now\<rparr> d)"

definition secret_put :: "vault \<Rightarrow> int \<Rightarrow> string \<Rightarrow> string \<Rightarrow> string \<Rightarrow> secret \<Rightarrow> ('z, unit) dbtxn" where
  "secret_put v now aid name service secret d =
     (case require_master v of
        Inl e \<Rightarrow> Inl e
      | Inr master \<Rightarrow>
          (case upsert_secret aid name service (seal v master secret) now d of
             Inl e \<Rightarrow> Inl e | Inr d' \<Rightarrow> Inr ((), d')))"

definition secret_delete :: "string \<Rightarrow> string \<Rightarrow> string \<Rightarrow> ('z, bool) dbtxn" where
  "secret_delete aid name service d =
     Inr (count_where (\<lambda>r. secret_key r = (aid, name, service)) (t_secrets d) > 0,
          d\<lparr>t_secrets := delete_where (\<lambda>r. secret_key r = (aid, name, service)) (t_secrets d)\<rparr>)"

definition secret_delete_profile :: "string \<Rightarrow> string \<Rightarrow> ('z, nat) dbtxn" where
  "secret_delete_profile aid name d =
     (let p = (\<lambda>r. sr_account_id r = aid \<and> sr_profile_name r = name) in
      Inr (count_where p (t_secrets d), d\<lparr>t_secrets := delete_where p (t_secrets d)\<rparr>))"

section \<open>Facts\<close>

lemma update_secrets_ok:
  assumes "db_ok d" and "\<And>r. p r \<Longrightarrow> secret_key (f r) = secret_key r"
  shows "db_ok (d\<lparr>t_secrets := update_where p f (t_secrets d)\<rparr>)"
proof -
  have keys: "map secret_key (update_where p f rows) = map secret_key rows" for rows
    by (simp add: update_where_def assms(2))
  have "sr_account_id r \<in> account_ids d" if "r \<in> set (update_where p f (t_secrets d))" for r
    using that assms by (elim update_whereE) (fastforce simp: db_ok_def secret_key_def dest: refs_okD(6))+
  then show ?thesis using assms(1) by (simp add: db_defs keys)
qed

lemma upsert_secret_Inr:
  assumes "db_ok d" and "upsert_secret aid name service e now d = Inr d'"
  shows "db_ok d' \<and> envelope_get a n s d' = (if (a, n, s) = (aid, name, service) then Some e else envelope_get a n s d)
    \<and> d' = d\<lparr>t_secrets := t_secrets d'\<rparr>"
proof (cases "list_ex (\<lambda>r. secret_key r = (aid, name, service)) (t_secrets d)")
  case True
  let ?f = "\<lambda>r. r\<lparr>sr_envelope := e, sr_updated_at := now\<rparr>"
  have d': "d' = d\<lparr>t_secrets := update_where (\<lambda>r. secret_key r = (aid, name, service)) ?f (t_secrets d)\<rparr>"
    using True assms(2) by (simp add: upsert_secret_def)
  have f: "secret_key (?f r) = secret_key r" for r by (simp add: secret_key_def)
  obtain old where "fetch_one (\<lambda>r. secret_key r = (aid, name, service)) (t_secrets d) = Some old"
    using True by (cases "fetch_one (\<lambda>r. secret_key r = (aid, name, service)) (t_secrets d)")
      (auto simp: table_simps list_ex_iff)
  moreover have "db_ok d'" unfolding d' by (rule update_secrets_ok [OF assms(1)]) (rule f)
  ultimately show ?thesis
    using fetch_key_update [of secret_key ?f, OF f] by (simp add: d' envelope_get_def)
next
  case False
  let ?new = "\<lparr>sr_account_id = aid, sr_profile_name = name, sr_service = service,
             sr_envelope = e, sr_created_at = now, sr_updated_at = now\<rparr>"
  have ins: "insert_secret ?new d = Inr d'" using False assms(2) by (simp add: upsert_secret_def)
  have d': "d' = d\<lparr>t_secrets := t_secrets d @ [?new]\<rparr>"
    using ins by (auto simp: insert_secret_def split: if_splits)
  have key: "secret_key ?new = (aid, name, service)" by (simp add: secret_key_def)
  have "fetch_one (\<lambda>r. secret_key r = secret_key ?new) (t_secrets d) = None"
    using False by (auto simp: table_simps list_ex_iff key)
  from fetch_key_insert [OF this, of "(a, n, s)"] have
    "envelope_get a n s d' = (if (a, n, s) = (aid, name, service) then Some e else envelope_get a n s d)"
    by (simp add: d' envelope_get_def key)
  then show ?thesis using insert_secret_ok [OF assms(1) ins] by (simp add: d')
qed

lemma secret_put_Inr:
  assumes "db_ok d" and "secret_put v now aid name service secret d = Inr (u, d')"
  shows "db_ok d'" and "\<exists>master. va_master v = Some master \<and> envelope_get aid name service d' = Some (seal v master secret)"
    and "(a, n, s) \<noteq> (aid, name, service) \<Longrightarrow> envelope_get a n s d' = envelope_get a n s d"
    and "d' = d\<lparr>t_secrets := t_secrets d'\<rparr>"
proof -
  from assms(2) obtain master where m: "va_master v = Some master"
    and up: "upsert_secret aid name service (seal v master secret) now d = Inr d'"
    by (auto simp: secret_put_def require_master_def split: option.splits sum.splits)
  note ups = upsert_secret_Inr [OF assms(1) up]
  show "db_ok d'" using ups by blast
  show "\<exists>master. va_master v = Some master \<and> envelope_get aid name service d' = Some (seal v master secret)"
    using m ups [of aid name service] by simp
  show "(a, n, s) \<noteq> (aid, name, service) \<Longrightarrow> envelope_get a n s d' = envelope_get a n s d"
    using ups [of a n s] by (auto split: if_splits)
  show "d' = d\<lparr>t_secrets := t_secrets d'\<rparr>" using ups by blast
qed

lemma secret_get_put:
  assumes "db_ok d" and "vault_faithful v secret" and "secret_put v now aid name service secret d = Inr (u, d')"
  shows "secret_get v aid name service d' = Inr (Some secret)"
  using secret_put_Inr(2) [OF assms(1,3)] open_seal [OF assms(2)]
  by (auto simp: secret_get_def require_master_def)

lemma secret_delete_Inr:
  assumes "db_ok d" and "secret_delete aid name service d = Inr (b, d')"
  shows "db_ok d'" and "envelope_get a n s d' = (if (a, n, s) = (aid, name, service) then None else envelope_get a n s d)"
    and "d' = d\<lparr>t_secrets := t_secrets d'\<rparr>" and "b \<longleftrightarrow> envelope_get aid name service d \<noteq> None"
proof -
  have d': "d' = d\<lparr>t_secrets := delete_where (\<lambda>r. secret_key r = (aid, name, service)) (t_secrets d)\<rparr>"
    and b: "b \<longleftrightarrow> count_where (\<lambda>r. secret_key r = (aid, name, service)) (t_secrets d) > 0"
    using assms(2) by (auto simp: secret_delete_def)
  show "db_ok d'" unfolding d' by (rule delete_secrets_ok [OF assms(1)])
  show "envelope_get a n s d' = (if (a, n, s) = (aid, name, service) then None else envelope_get a n s d)"
    by (auto simp: d' envelope_get_def fetch_key_delete)
  show "d' = d\<lparr>t_secrets := t_secrets d'\<rparr>" by (simp add: d')
  show "b \<longleftrightarrow> envelope_get aid name service d \<noteq> None"
    by (auto simp: b count_where_pos envelope_get_def table_simps)
qed

lemma secret_delete_profile_Inr:
  assumes "db_ok d" and "secret_delete_profile aid name d = Inr (k, d')"
  shows "db_ok d'" and "envelope_get a n s d' = (if (a, n) = (aid, name) then None else envelope_get a n s d)"
    and "d' = d\<lparr>t_secrets := t_secrets d'\<rparr>"
proof -
  have d': "d' = d\<lparr>t_secrets := delete_where (\<lambda>r. sr_account_id r = aid \<and> sr_profile_name r = name) (t_secrets d)\<rparr>"
    using assms(2) by (simp add: secret_delete_profile_def Let_def)
  show "db_ok d'" unfolding d' by (rule delete_secrets_ok [OF assms(1)])
  have "fetch_one (\<lambda>r. secret_key r = (a, n, s)) (delete_where (\<lambda>r. sr_account_id r = aid \<and> sr_profile_name r = name) rows)
      = (if (a, n) = (aid, name) then None else fetch_one (\<lambda>r. secret_key r = (a, n, s)) rows)" for rows
    by (induction rows) (auto simp: fetch_one_def delete_where_def secret_key_def)
  then show "envelope_get a n s d' = (if (a, n) = (aid, name) then None else envelope_get a n s d)"
    by (simp add: d' envelope_get_def)
  show "d' = d\<lparr>t_secrets := t_secrets d'\<rparr>" by (simp add: d')
qed

section \<open>The secret port\<close>

text \<open>\<^verbatim>\<open>SecretStore\<close> of \<^verbatim>\<open>secrets/base.py\<close>: which envelope is behind each address.\<close>

locale secret_store =
  fixes ok :: "'s \<Rightarrow> bool"
    and held :: "string \<Rightarrow> string \<Rightarrow> string \<Rightarrow> 's \<Rightarrow> envelope option"
    and put :: "string \<Rightarrow> string \<Rightarrow> string \<Rightarrow> secret \<Rightarrow> (error, 's, unit) txn"
    and delete :: "string \<Rightarrow> string \<Rightarrow> string \<Rightarrow> (error, 's, bool) txn"
    and delete_profile :: "string \<Rightarrow> string \<Rightarrow> (error, 's, nat) txn"
  assumes put_at: "ok s \<Longrightarrow> put a n v x s = Inr (u, t) \<Longrightarrow> ok t \<and> held a n v t \<noteq> None \<and>
      ((a', n', v') \<noteq> (a, n, v) \<longrightarrow> held a' n' v' t = held a' n' v' s)"
    and delete_at: "ok s \<Longrightarrow> delete a n v s = Inr (b, t) \<Longrightarrow> ok t \<and> (b \<longleftrightarrow> held a n v s \<noteq> None) \<and>
      held a' n' v' t = (if (a', n', v') = (a, n, v) then None else held a' n' v' s)"
    and delete_profile_at: "ok s \<Longrightarrow> delete_profile a n s = Inr (k, t) \<Longrightarrow> ok t \<and>
      held a' n' v' t = (if (a', n') = (a, n) then None else held a' n' v' s)"
begin

lemma isolated:
  assumes "ok s" and "b \<noteq> a"
  shows "put a n v x s = Inr (u, t) \<Longrightarrow> held b m w t = held b m w s"
    and "delete a n v s = Inr (r, t) \<Longrightarrow> held b m w t = held b m w s"
    and "delete_profile a n s = Inr (k, t) \<Longrightarrow> held b m w t = held b m w s"
  using put_at [OF assms(1), of a n v x u t b m w] delete_at [OF assms(1), of a n v r t b m w]
    delete_profile_at [OF assms(1), of a n k t b m w] assms(2) by auto

end

interpretation sec: secret_store db_ok envelope_get "secret_put v now" secret_delete secret_delete_profile
  for v now
proof (unfold_locales, goal_cases)
  case (1 s a n x xa u t a' n' v')
  then show ?case using secret_put_Inr(1,2) [OF 1] secret_put_Inr(3) [OF 1, of a' n' v'] by fastforce
next
  case (2 s a n v b t a' n' v')
  then show ?case using secret_delete_Inr(1,4) [OF 2] secret_delete_Inr(2) [OF 2, of a' n' v'] by blast
next
  case (3 s a n k t a' n' v')
  then show ?case using secret_delete_profile_Inr(1) [OF 3] secret_delete_profile_Inr(2) [OF 3, of a' n' v'] by blast
qed

end
