(* ===== verification/OAuth.thy ===== *)
theory OAuth
  imports Sys ProfileStore SecretStore
begin

text \<open>
  The OAuth side: providers (\<^verbatim>\<open>credentials/providers.py\<close>), the state parameter bound to one flow
  and redeemed once (\<^verbatim>\<open>credentials/state.py\<close>), and what the token endpoint's answers become
  (\<^verbatim>\<open>credentials/oauth_client.py\<close>).
\<close>

section \<open>Providers\<close>

record oauth_provider =
  op_service :: string
  op_authorize_url :: string
  op_token_url :: string
  op_client_id :: string
  op_client_secret :: string
  op_scopes :: "string list"
  op_audience :: "string option"

text \<open>\<open>urllib.parse.urlencode\<close>: \<open>quote_plus\<close> of each name and text, over UTF-8.\<close>

definition utf8 :: "char \<Rightarrow> nat list" where
  "utf8 c = (if code_of c < 128 then [code_of c] else [192 + code_of c div 64, 128 + code_of c mod 64])"

definition is_unreserved :: "char \<Rightarrow> bool" where
  "is_unreserved c \<longleftrightarrow> (48 \<le> code_of c \<and> code_of c \<le> 57) \<or> (65 \<le> code_of c \<and> code_of c \<le> 90)
     \<or> (97 \<le> code_of c \<and> code_of c \<le> 122) \<or> c \<in> set ''_.-~''"

definition upper_hex :: "nat \<Rightarrow> char" where
  "upper_hex n = char_of (if n < 10 then 48 + n else 55 + n)"

definition quote_plus :: "string \<Rightarrow> string" where
  "quote_plus s = concat (map (\<lambda>c. if is_unreserved c then [c] else if c = CHR '' '' then ''+''
     else concat (map (\<lambda>b. [CHR ''%'', upper_hex (b div 16), upper_hex (b mod 16)]) (utf8 c))) s)"

definition urlencode :: "(string \<times> string) list \<Rightarrow> string" where
  "urlencode kvs = join ''&'' (map (\<lambda>kv. quote_plus (fst kv) @ ''='' @ quote_plus (snd kv)) kvs)"

definition authorization_url :: "oauth_provider \<Rightarrow> string \<Rightarrow> string \<Rightarrow> string" where
  "authorization_url p redirect_uri state =
     op_authorize_url p @ ''?'' @ urlencode
       ([(''response_type'', ''code''), (''client_id'', op_client_id p), (''redirect_uri'', redirect_uri),
         (''state'', state), (''access_type'', ''offline'')]
        @ (if op_scopes p \<noteq> [] then [(''scope'', join '' '' (op_scopes p))] else [])
        @ (case op_audience p of None \<Rightarrow> [] | Some a \<Rightarrow> [(''audience'', a)]))"

section \<open>Flows\<close>

record flow_binding =
  fb_account_id :: string
  fb_profile :: string
  fb_service :: string
  fb_kind :: credential_kind
  fb_redirect_uri :: string

record oauth_flow =
  of_binding :: flow_binding
  of_expires_at :: int

definition is_live :: "oauth_flow \<Rightarrow> int \<Rightarrow> bool" where
  "is_live f now \<longleftrightarrow> now < of_expires_at f"

text \<open>The dictionary of the store, under the hash of the state.\<close>

type_synonym flows = "(string \<times> oauth_flow) list"

definition flow_issue :: "string \<Rightarrow> flow_binding \<Rightarrow> int \<Rightarrow> int \<Rightarrow> flows \<Rightarrow> flows" where
  "flow_issue h binding ttl_seconds now fs =
     AList.update h \<lparr>of_binding = binding, of_expires_at = now + timedelta_s ttl_seconds\<rparr> fs"

definition flow_redeem :: "string \<Rightarrow> int \<Rightarrow> flows \<Rightarrow> oauth_flow option \<times> flows" where
  "flow_redeem h now fs =
     (case map_of fs h of
        None \<Rightarrow> (None, AList.delete h fs)
      | Some f \<Rightarrow> (if is_live f now then Some f else None, AList.delete h fs))"

definition flow_purge_expired :: "int \<Rightarrow> flows \<Rightarrow> nat \<times> flows" where
  "flow_purge_expired now fs =
     (length (filter (\<lambda>kf. \<not> is_live (snd kf) now) fs), filter (\<lambda>kf. is_live (snd kf) now) fs)"

lemma flow_redeem_once: "fst (flow_redeem h later (snd (flow_redeem h now fs))) = None"
  by (simp add: flow_redeem_def delete_conv' split: option.split)

lemma flow_redeem_other: "k \<noteq> h \<Longrightarrow> map_of (snd (flow_redeem h now fs)) k = map_of fs k"
  by (simp add: flow_redeem_def delete_conv' split: option.split)

lemma flow_redeem_Some:
  "fst (flow_redeem h now fs) = Some f \<Longrightarrow> map_of fs h = Some f \<and> now < of_expires_at f"
  by (simp add: flow_redeem_def is_live_def split: option.splits if_splits)

lemma flow_issue_redeem:
  "now < at' + timedelta_s ttl \<Longrightarrow> fst (flow_redeem h now (flow_issue h b ttl at' fs)) =
     Some \<lparr>of_binding = b, of_expires_at = at' + timedelta_s ttl\<rparr>"
  by (simp add: flow_redeem_def flow_issue_def is_live_def update_conv')

section \<open>The token endpoint\<close>

text \<open>What comes back from one POST: no answer, or a status and a body.\<close>

datatype token_body = NotJson | NotObject | JsonObject secret

datatype token_response = Unreachable | Answered int token_body

definition DEFAULT_EXPIRES_IN_SECONDS :: int where "DEFAULT_EXPIRES_IN_SECONDS = 3600"

definition is_digit :: "char \<Rightarrow> bool" where
  "is_digit c \<longleftrightarrow> (48 \<le> code_of c \<and> code_of c \<le> 57) \<or> code_of c \<in> {178, 179, 185}"

fun int_of_digits :: "int \<Rightarrow> string \<Rightarrow> int option" where
  "int_of_digits acc [] = Some acc"
| "int_of_digits acc (c # cs) =
     (if 48 \<le> code_of c \<and> code_of c \<le> 57 then int_of_digits (acc * 10 + int (code_of c) - 48) cs else None)"

text \<open>
  \<open>str.isdigit\<close> holds of the three superscript digits too, on which \<open>int\<close> raises \<open>ValueError\<close>.
\<close>

definition expires_in_of :: "secret \<Rightarrow> int result" where
  "expires_in_of body =
     (let raw = secret_field body ''expires_in'' in
      case as_int raw of
        Some n \<Rightarrow> Inr (if n > 0 then n else DEFAULT_EXPIRES_IN_SECONDS)
      | None \<Rightarrow>
          (case as_str raw of
             Some t \<Rightarrow>
               if t \<noteq> [] \<and> list_all is_digit t
               then (case int_of_digits 0 t of
                       None \<Rightarrow> Inl (Unhandled [''invalid literal for int() with base 10''])
                     | Some n \<Rightarrow> Inr (if n > 0 then n else DEFAULT_EXPIRES_IN_SECONDS))
               else Inr DEFAULT_EXPIRES_IN_SECONDS
           | None \<Rightarrow> Inr DEFAULT_EXPIRES_IN_SECONDS))"

definition normalize_response :: "string \<Rightarrow> token_body \<Rightarrow> secret result" where
  "normalize_response service body =
     (case body of
        NotJson \<Rightarrow> Inl (CredentialUnavailableError [service, '' returned a token response that is not JSON''])
      | NotObject \<Rightarrow> Inl (CredentialUnavailableError [service, '' returned no access token''])
      | JsonObject b \<Rightarrow>
          (case as_str (secret_field b ''access_token'') of
             None \<Rightarrow> Inl (CredentialUnavailableError [service, '' returned no access token''])
           | Some token \<Rightarrow>
               (case expires_in_of b of
                  Inl e \<Rightarrow> Inl e
                | Inr n \<Rightarrow> Inr (
                    [(''access_token'', JStr token),
                     (''token_type'', case secret_field b ''token_type'' of None \<Rightarrow> JStr ''Bearer'' | Some t \<Rightarrow> t),
                     (''expires_in'', JInt n)]
                    @ (case as_str (secret_field b ''refresh_token'') of None \<Rightarrow> [] | Some t \<Rightarrow> [(''refresh_token'', JStr t)])
                    @ (case as_str (secret_field b ''scope'') of None \<Rightarrow> [] | Some t \<Rightarrow> [(''scope'', JStr t)])))))"

definition error_code :: "int \<Rightarrow> token_body \<Rightarrow> string" where
  "error_code status body =
     (let fallback = ''HTTP '' @ str_nat (nat status) in
      case body of
        JsonObject b \<Rightarrow> (case as_str (secret_field b ''error'') of Some t \<Rightarrow> t | None \<Rightarrow> fallback)
      | _ \<Rightarrow> fallback)"

definition post_answer :: "string \<Rightarrow> token_response \<Rightarrow> secret result" where
  "post_answer service response =
     (case response of
        Unreachable \<Rightarrow> Inl (CredentialUnavailableError [''could not reach the '', service, '' token endpoint''])
      | Answered status body \<Rightarrow>
          if status \<ge> 400
          then Inl (CredentialUnavailableError [service, '' refused the request ('', error_code status body,
                 ''); the connection must be re-authorised''])
          else normalize_response service body)"

text \<open>What is posted, to \<open>op_token_url\<close>.\<close>

definition token_form :: "oauth_provider \<Rightarrow> (string \<times> string) list \<Rightarrow> (string \<times> string) list" where
  "token_form p form = form @ [(''client_id'', op_client_id p), (''client_secret'', op_client_secret p)]"

definition exchange_form :: "oauth_provider \<Rightarrow> string \<Rightarrow> string \<Rightarrow> (string \<times> string) list" where
  "exchange_form p code redirect_uri =
     token_form p [(''grant_type'', ''authorization_code''), (''code'', code), (''redirect_uri'', redirect_uri)]"

definition refresh_form :: "oauth_provider \<Rightarrow> string \<Rightarrow> (string \<times> string) list" where
  "refresh_form p refresh_token =
     token_form p [(''grant_type'', ''refresh_token''), (''refresh_token'', refresh_token)]"

text \<open>\<open>setdefault\<close>: a provider that sends no new refresh token means the old one is kept.\<close>

definition refresh_answer :: "string \<Rightarrow> string \<Rightarrow> token_response \<Rightarrow> secret result" where
  "refresh_answer service refresh_token response =
     (case post_answer service response of
        Inl e \<Rightarrow> Inl e
      | Inr renewed \<Rightarrow>
          Inr (if secret_field renewed ''refresh_token'' = None
               then renewed @ [(''refresh_token'', JStr refresh_token)] else renewed))"

lemma expires_in_pos: "expires_in_of b = Inr n \<Longrightarrow> 0 < n"
  by (auto simp: expires_in_of_def Let_def DEFAULT_EXPIRES_IN_SECONDS_def split: option.splits if_splits)

lemma normalize_response_Inr:
  assumes "normalize_response service body = Inr s"
  obtains token ty n rest where "0 < n"
    "s = (''access_token'', JStr token) # (''token_type'', ty) # (''expires_in'', JInt n) # rest"
proof (cases body)
  case (JsonObject b)
  with assms obtain token where t: "as_str (secret_field b ''access_token'') = Some token"
    by (cases "as_str (secret_field b ''access_token'')") (simp_all add: normalize_response_def)
  with assms JsonObject obtain n where n: "expires_in_of b = Inr n"
    by (cases "expires_in_of b") (simp_all add: normalize_response_def)
  from assms JsonObject t n obtain ty rest where
    "(''access_token'', JStr token) # (''token_type'', ty) # (''expires_in'', JInt n) # rest = s"
    by (simp add: normalize_response_def)
  from that [OF expires_in_pos [OF n] sym [OF this]] show thesis .
qed (use assms in \<open>simp_all add: normalize_response_def\<close>)

lemma post_answer_Inr:
  assumes "post_answer service response = Inr s"
  obtains status body where "response = Answered status body" "status < 400" "normalize_response service body = Inr s"
  using assms by (auto simp: post_answer_def split: token_response.splits if_splits)

lemma post_answer_token:
  assumes "post_answer service response = Inr s"
  shows "(\<exists>t. as_str (secret_field s ''access_token'') = Some t) \<and> (\<exists>n. as_int (secret_field s ''expires_in'') = Some n \<and> 0 < n)"
  using assms
proof (rule post_answer_Inr)
  fix status body assume "normalize_response service body = Inr s"
  then show ?thesis by (rule normalize_response_Inr) (simp add: secret_field_def)
qed

lemma refresh_answer_keeps_token:
  assumes "refresh_answer service token response = Inr s"
  shows "secret_field s ''refresh_token'' \<noteq> None"
  using assms by (auto simp: refresh_answer_def secret_field_def map_add_def split: sum.splits if_splits)

section \<open>The state of the process\<close>

record vsys = sys +
  m_flows :: flows

type_synonym ('z, 'a) vop = "(error, 'z vsys_scheme, 'a) op"

definition issue_state :: "env \<Rightarrow> flow_binding \<Rightarrow> int \<Rightarrow> ('z, string) vop" where
  "issue_state w binding ttl_seconds s =
     (Inr (ev_token w),
      s\<lparr>m_flows := flow_issue (ev_hash_token w (ev_token w)) binding ttl_seconds (ev_now w) (m_flows s)\<rparr>)"

definition redeem_state :: "env \<Rightarrow> string \<Rightarrow> ('z, oauth_flow option) vop" where
  "redeem_state w state s =
     (case flow_redeem (ev_hash_token w state) (ev_now w) (m_flows s) of
        (f, fs) \<Rightarrow> (Inr f, s\<lparr>m_flows := fs\<rparr>))"

definition purge_states :: "env \<Rightarrow> ('z, nat) vop" where
  "purge_states w s = (case flow_purge_expired (ev_now w) (m_flows s) of (n, fs) \<Rightarrow> (Inr n, s\<lparr>m_flows := fs\<rparr>))"

text \<open>
  A call to a provider's token endpoint is a network round trip during which other requests
  run: it is an operation of its own, which may answer anything and leave any state that
  those requests can leave.
\<close>

record 'z token_endpoint =
  te_exchange_code :: "oauth_provider \<Rightarrow> string \<Rightarrow> string \<Rightarrow> (error, 'z vsys_scheme, secret) op"
  te_refresh :: "oauth_provider \<Rightarrow> string \<Rightarrow> (error, 'z vsys_scheme, secret) op"

end
