(* ===== verification/CredentialService.thy ===== *)
theory CredentialService
  imports OAuth
begin

text \<open>
  \<^verbatim>\<open>src/src/keyring_api/credentials/service.py\<close>: profiles, their connections and the credentials
  behind them. Every method takes the account. A renewal and a code exchange call the token
  endpoint in the middle, where anything other requests do may happen; the lock that makes
  renewals of one grant take turns is a restriction on what that may be.
\<close>

section \<open>Vocabulary\<close>

definition NO_SUCH_PROFILE :: message where "NO_SUCH_PROFILE = [''no profile by that name'']"
definition NO_SUCH_CONNECTION :: message where
  "NO_SUCH_CONNECTION = [''this profile is not connected to that service'']"
definition PROFILE_GONE :: message where
  "PROFILE_GONE = [''the profile this authorization was for no longer exists'']"

record authorization =
  au_url :: string
  au_expires_at :: int

text \<open>What the service is configured with besides the settings.\<close>

type_synonym providers = "(string \<times> oauth_provider) list"

section \<open>Profiles\<close>

definition create_profile :: "env \<Rightarrow> string \<Rightarrow> string \<Rightarrow> ('z, profile) vop" where
  "create_profile w account_id name =
     andthen (of_result (normalize_profile_name name)) (\<lambda>normalized.
     let now = ev_now w;
         profile = \<lparr>pr_id = ev_id w, pr_account_id = account_id, pr_name = normalized,
                    pr_created_at = now, pr_updated_at = now, pr_connections = []\<rparr>
     in andthen (transact (profile_add profile (st_max_profiles_per_account (ev_settings w)))) (\<lambda>_.
        ret profile))"

definition list_profiles :: "string \<Rightarrow> ('z, profile list) vop" where
  "list_profiles account_id = reading (profile_list_for_account account_id)"

definition get_profile :: "string \<Rightarrow> string \<Rightarrow> ('z, profile) vop" where
  "get_profile account_id name =
     andthen (of_result (normalize_profile_name name)) (\<lambda>normalized.
     andthen (reading (profile_get account_id normalized)) (\<lambda>found.
     case found of
       None \<Rightarrow> raise (ProfileNotFoundError NO_SUCH_PROFILE)
     | Some profile \<Rightarrow> ret profile))"

definition delete_profile :: "string \<Rightarrow> string \<Rightarrow> ('z, bool) vop" where
  "delete_profile account_id name =
     andthen (of_result (normalize_profile_name name)) (\<lambda>normalized.
     andthen (transact (profile_delete account_id normalized)) (\<lambda>deleted.
     if \<not> deleted then ret False
     else andthen (transact (secret_delete_profile account_id normalized)) (\<lambda>_. ret True)))"

section \<open>Internals\<close>

definition require_unsealed :: "vault \<Rightarrow> ('z, unit) vop" where
  "require_unsealed v = guard (va_master v \<noteq> None) (VaultSealedError SEALED_MESSAGE)"

definition provider_for :: "providers \<Rightarrow> string \<Rightarrow> ('z, oauth_provider) vop" where
  "provider_for ps service =
     (case map_of ps service of
        None \<Rightarrow> raise (CredentialUnavailableError [''no OAuth provider is configured for that service: '', service])
      | Some p \<Rightarrow> ret p)"

text \<open>\<open>_put_connection\<close>: a profile that has vanished is reported as a connection not found.\<close>

definition service_put_connection :: "env \<Rightarrow> profile \<Rightarrow> connection \<Rightarrow> int \<Rightarrow> ('z, connection) vop" where
  "service_put_connection w profile c now =
     handling is_profile_not_found (\<lambda>_. raise (ConnectionNotFoundError PROFILE_GONE))
       (transact (put_connection (pr_account_id profile) (pr_name profile) c
          (st_max_connections_per_profile (ev_settings w)) now))"

definition record_failure :: "env \<Rightarrow> profile \<Rightarrow> connection \<Rightarrow> string \<Rightarrow> ('z, unit) vop" where
  "record_failure w profile c reason =
     (let now = ev_now w in
      andthen (service_put_connection w profile (with_error c reason now) now) (\<lambda>_. ret ()))"

definition granted_scopes :: "secret \<Rightarrow> oauth_provider \<Rightarrow> string list" where
  "granted_scopes secret provider =
     (case as_str (secret_field secret ''scope'') of
        Some granted \<Rightarrow> if granted \<noteq> [] then split_ws granted else op_scopes provider
      | None \<Rightarrow> op_scopes provider)"

definition store_oauth_secret ::
  "env \<Rightarrow> vault \<Rightarrow> profile \<Rightarrow> string \<Rightarrow> secret \<Rightarrow> oauth_provider \<Rightarrow> ('z, connection) vop" where
  "store_oauth_secret w v profile service secret provider =
     andthen (require_unsealed v) (\<lambda>_.
     let now = ev_now w;
         c = \<lparr>co_service = service, co_kind = OAUTH2_AUTHORIZATION_CODE, co_status = CONN_ACTIVE,
              co_created_at = now, co_updated_at = now,
              co_expires_at = map_option (\<lambda>n. now + timedelta_s n) (as_int (secret_field secret ''expires_in'')),
              co_scopes = granted_scopes secret provider, co_stores_totp_seed = False, co_last_error = None\<rparr>
     in
     andthen (service_put_connection w profile c now) (\<lambda>stored.
     andthen (transact (secret_put v now (pr_account_id profile) (pr_name profile) service secret)) (\<lambda>_.
     ret stored)))"

definition load ::
  "vault \<Rightarrow> string \<Rightarrow> string \<Rightarrow> string \<Rightarrow> ('z, profile \<times> connection \<times> secret) vop" where
  "load v account_id profile_name service_name =
     andthen (get_profile account_id profile_name) (\<lambda>profile.
     andthen (of_result (normalize_service_name service_name)) (\<lambda>service.
     case connection_to profile service of
       None \<Rightarrow> raise (ConnectionNotFoundError NO_SUCH_CONNECTION)
     | Some c \<Rightarrow>
         if co_status c = PENDING
         then raise (CredentialUnavailableError [''the '', service, '' connection was never completed; authorize it again''])
         else
         andthen (reading (secret_get v account_id (pr_name profile) service)) (\<lambda>answer.
         andthen (of_result answer) (\<lambda>found.
         case found of
           None \<Rightarrow> raise (CredentialUnavailableError [''the '', service, '' credential is missing from the vault''])
         | Some secret \<Rightarrow> ret (profile, c, secret)))))"

section \<open>Storing credentials\<close>

definition put_direct_credential ::
  "env \<Rightarrow> vault \<Rightarrow> string \<Rightarrow> string \<Rightarrow> string \<Rightarrow> credential_kind \<Rightarrow> secret \<Rightarrow> bool \<Rightarrow> ('z, connection) vop" where
  "put_direct_credential w v account_id profile_name service_name kind secret stores_totp_seed =
     andthen (get_profile account_id profile_name) (\<lambda>profile.
     andthen (of_result (normalize_service_name service_name)) (\<lambda>service.
     andthen (require_unsealed v) (\<lambda>_.
     let now = ev_now w;
         c = \<lparr>co_service = service, co_kind = kind, co_status = CONN_ACTIVE, co_created_at = now,
              co_updated_at = now, co_expires_at = None, co_scopes = [],
              co_stores_totp_seed = stores_totp_seed, co_last_error = None\<rparr>
     in
     andthen (service_put_connection w profile c now) (\<lambda>stored.
     andthen (transact (secret_put v now account_id (pr_name profile) service secret)) (\<lambda>_.
     ret stored)))))"

definition begin_authorization ::
  "env \<Rightarrow> providers \<Rightarrow> string \<Rightarrow> string \<Rightarrow> string \<Rightarrow> string \<Rightarrow> ('z, authorization) vop" where
  "begin_authorization w ps account_id profile_name service_name redirect_uri =
     (let ttl = st_oauth_state_ttl_seconds (ev_settings w) in
      andthen (get_profile account_id profile_name) (\<lambda>profile.
      andthen (of_result (normalize_service_name service_name)) (\<lambda>service.
      andthen (provider_for ps service) (\<lambda>provider.
      andthen (issue_state w \<lparr>fb_account_id = account_id, fb_profile = pr_name profile, fb_service = service,
                 fb_kind = OAUTH2_AUTHORIZATION_CODE, fb_redirect_uri = redirect_uri\<rparr> ttl) (\<lambda>state.
      let now = ev_now w;
          existing = connection_to profile service;
          pending = \<lparr>co_service = service, co_kind = OAUTH2_AUTHORIZATION_CODE, co_status = PENDING,
                     co_created_at = now, co_updated_at = now, co_expires_at = None, co_scopes = [],
                     co_stores_totp_seed = False, co_last_error = None\<rparr>
      in
      andthen (if (case existing of None \<Rightarrow> True | Some c \<Rightarrow> \<not> is_usable c now)
               then andthen (service_put_connection w profile pending now) (\<lambda>_. ret ())
               else ret ()) (\<lambda>_.
      ret \<lparr>au_url = authorization_url provider redirect_uri state, au_expires_at = now + timedelta_s ttl\<rparr>))))))"

definition redeem_authorization :: "env \<Rightarrow> string \<Rightarrow> ('z, flow_binding) vop" where
  "redeem_authorization w state =
     andthen (redeem_state w state) (\<lambda>flow.
     case flow of
       None \<Rightarrow> raise (InvalidOAuthStateError [''this authorization link is invalid or has expired''])
     | Some f \<Rightarrow> ret (of_binding f))"

definition finish_authorization ::
  "env \<Rightarrow> vault \<Rightarrow> providers \<Rightarrow> 'z token_endpoint \<Rightarrow> flow_binding \<Rightarrow> string \<Rightarrow> ('z, connection) vop" where
  "finish_authorization w v ps te binding code =
     andthen (reading (profile_get (fb_account_id binding) (fb_profile binding))) (\<lambda>found.
     case found of
       None \<Rightarrow> raise (InvalidOAuthStateError PROFILE_GONE)
     | Some profile \<Rightarrow>
         andthen (provider_for ps (fb_service binding)) (\<lambda>provider.
         andthen (te_exchange_code te provider code (fb_redirect_uri binding)) (\<lambda>secret.
         store_oauth_secret w v profile (fb_service binding) secret provider)))"

definition complete_authorization ::
  "env \<Rightarrow> vault \<Rightarrow> providers \<Rightarrow> 'z token_endpoint \<Rightarrow> string \<Rightarrow> string \<Rightarrow> ('z, connection) vop" where
  "complete_authorization w v ps te state code =
     andthen (redeem_authorization w state) (\<lambda>binding. finish_authorization w v ps te binding code)"

section \<open>Producing credentials\<close>

definition renew ::
  "env \<Rightarrow> vault \<Rightarrow> providers \<Rightarrow> 'z token_endpoint \<Rightarrow> profile \<Rightarrow> connection \<Rightarrow> secret \<Rightarrow> ('z, secret) vop" where
  "renew w v ps te profile c secret =
     (case as_str (secret_field secret ''refresh_token'') of
        None \<Rightarrow> andthen (record_failure w profile c ''no refresh token was stored'') (\<lambda>_.
          raise (CredentialUnavailableError [''the '', co_service c,
            '' connection cannot be renewed without anyone present; it must be authorised again'']))
      | Some refresh_token \<Rightarrow>
        if refresh_token = []
        then andthen (record_failure w profile c ''no refresh token was stored'') (\<lambda>_.
          raise (CredentialUnavailableError [''the '', co_service c,
            '' connection cannot be renewed without anyone present; it must be authorised again'']))
        else
        andthen (provider_for ps (co_service c)) (\<lambda>provider.
        andthen (handling is_credential_unavailable
                   (\<lambda>e. andthen (record_failure w profile c (snd (problem_of e))) (\<lambda>_. raise e))
                   (te_refresh te provider refresh_token)) (\<lambda>renewed.
        andthen (reading (profile_get (pr_account_id profile) (pr_name profile))) (\<lambda>still_there.
        andthen (guard (case still_there of None \<Rightarrow> False | Some p \<Rightarrow> connection_to p (co_service c) \<noteq> None)
                   (ConnectionNotFoundError [''the '', co_service c, '' connection was removed while it was being renewed'']))
          (\<lambda>_.
        andthen (store_oauth_secret w v profile (co_service c) renewed provider) (\<lambda>_.
        ret renewed))))))"

definition refresh ::
  "env \<Rightarrow> vault \<Rightarrow> providers \<Rightarrow> 'z token_endpoint \<Rightarrow> profile \<Rightarrow> connection \<Rightarrow> secret \<Rightarrow> ('z, secret) vop" where
  "refresh w v ps te profile c secret =
     andthen (reading (secret_get v (pr_account_id profile) (pr_name profile) (co_service c))) (\<lambda>answer.
     andthen (of_result answer) (\<lambda>stored.
     case stored of
       Some x \<Rightarrow>
         if secret_field x ''access_token'' \<noteq> secret_field secret ''access_token'' then ret x
         else renew w v ps te profile c secret
     | None \<Rightarrow> renew w v ps te profile c secret))"

datatype http_credential =
    ApiKeyCredential secret
  | OAuth2Credential secret bool profile connection \<comment> \<open>whether a renewal is due, and of what\<close>

definition resolve_http_auth ::
  "env \<Rightarrow> vault \<Rightarrow> string \<Rightarrow> string \<Rightarrow> string \<Rightarrow> ('z, http_credential) vop" where
  "resolve_http_auth w v account_id profile_name service_name =
     andthen (load v account_id profile_name service_name) (\<lambda>(profile, c, secret).
     case co_kind c of
       API_KEY \<Rightarrow> ret (ApiKeyCredential secret)
     | OAUTH2_AUTHORIZATION_CODE \<Rightarrow>
         ret (OAuth2Credential secret
           (needs_refresh c (ev_now w) (st_oauth_refresh_margin_seconds (ev_settings w))) profile c)
     | PASSWORD \<Rightarrow> raise (CredentialUnavailableError [''the '', co_service c,
         '' credential is a form login, not an HTTP credential'']))"

definition resolve_form_secrets :: "vault \<Rightarrow> string \<Rightarrow> string \<Rightarrow> string \<Rightarrow> ('z, secret) vop" where
  "resolve_form_secrets v account_id profile_name service_name =
     andthen (load v account_id profile_name service_name) (\<lambda>(_, c, secret).
     andthen (guard (co_kind c = PASSWORD)
       (CredentialUnavailableError [''the '', co_service c, '' credential is not a form login''])) (\<lambda>_.
     ret secret))"

definition revoke_connection :: "env \<Rightarrow> string \<Rightarrow> string \<Rightarrow> string \<Rightarrow> ('z, bool) vop" where
  "revoke_connection w account_id profile_name service_name =
     andthen (get_profile account_id profile_name) (\<lambda>profile.
     andthen (of_result (normalize_service_name service_name)) (\<lambda>service.
     if connection_to profile service = None then ret False
     else
     andthen (transact (secret_delete account_id (pr_name profile) service)) (\<lambda>_.
     andthen (transact (remove_connection account_id (pr_name profile) service (ev_now w))) (\<lambda>_.
     ret True))))"

definition sweep_states :: "env \<Rightarrow> ('z, nat) vop" where
  "sweep_states w = purge_states w"

section \<open>Every method keeps the database well formed\<close>

lemma db_ok_flows [simp]: "db_ok (s\<lparr>m_flows := fs\<rparr>) = db_ok s"
  by (simp add: db_defs)

lemma keeps_db_vault_txns [keeps_intros]:
  "keeps db_ok (transact (profile_add p cap))" "keeps db_ok (transact (profile_delete a n))"
  "keeps db_ok (transact (put_connection a n c k now))" "keeps db_ok (transact (remove_connection a n v now))"
  "keeps db_ok (transact (secret_put u now a n v x))" "keeps db_ok (transact (secret_delete a n v))"
  "keeps db_ok (transact (secret_delete_profile a n))"
proof -
  show "keeps db_ok (transact (profile_add p cap))" by (rule keeps_transact) (rule profile_add_Inr(1))
  show "keeps db_ok (transact (profile_delete a n))" by (rule keeps_transact) (rule profile_delete_Inr(1))
  show "keeps db_ok (transact (put_connection a n c k now))" by (rule keeps_transact) (rule put_connection_Inr(1))
  show "keeps db_ok (transact (remove_connection a n v now))" by (rule keeps_transact) (rule remove_connection_Inr(1))
  show "keeps db_ok (transact (secret_put u now a n v x))" by (rule keeps_transact) (rule secret_put_Inr(1))
  show "keeps db_ok (transact (secret_delete a n v))" by (rule keeps_transact) (rule secret_delete_Inr(1))
  show "keeps db_ok (transact (secret_delete_profile a n))" by (rule keeps_transact) (rule secret_delete_profile_Inr(1))
qed

lemma keeps_states [keeps_intros]:
  assumes "\<And>s fs. P (s\<lparr>m_flows := fs\<rparr>) = P s"
  shows "keeps P (issue_state w b t)" "keeps P (redeem_state w st)" "keeps P (purge_states w)"
  using assms by (simp_all add: keeps_def issue_state_def redeem_state_def purge_states_def split: prod.splits)

lemmas vault_internal_defs = get_profile_def require_unsealed_def provider_for_def
  service_put_connection_def record_failure_def store_oauth_secret_def load_def

lemma keeps_reads [keeps_intros]:
  "keeps P (get_profile a n)" "keeps P (require_unsealed v)" "keeps P (provider_for ps sv)"
  "keeps P (load v a n sv)"
  unfolding vault_internal_defs by (intro keeps_intros)+

lemma keeps_db_internal [keeps_intros]:
  "keeps db_ok (service_put_connection w p c now)" "keeps db_ok (record_failure w p c r)"
  "keeps db_ok (store_oauth_secret w v p sv x pv)"
  unfolding vault_internal_defs Let_def by (intro keeps_intros)+

lemmas credential_defs = create_profile_def list_profiles_def delete_profile_def
  put_direct_credential_def begin_authorization_def redeem_authorization_def
  finish_authorization_def complete_authorization_def renew_def refresh_def resolve_http_auth_def
  resolve_form_secrets_def revoke_connection_def sweep_states_def

lemma keeps_case_kind [keeps_intros]:
  "keeps P m \<Longrightarrow> keeps P n \<Longrightarrow> keeps P q \<Longrightarrow>
    keeps P (case k of API_KEY \<Rightarrow> m | OAUTH2_AUTHORIZATION_CODE \<Rightarrow> n | PASSWORD \<Rightarrow> q)"
  by (cases k) simp_all

lemma keeps_db_credentials:
  "keeps db_ok (create_profile w a n)" "keeps db_ok (list_profiles a)" "keeps db_ok (delete_profile a n)"
  "keeps db_ok (put_direct_credential w v a n sv k x t)" "keeps db_ok (begin_authorization w ps a n sv uri)"
  "keeps db_ok (redeem_authorization w st)" "keeps db_ok (resolve_http_auth w v a n sv)"
  "keeps db_ok (resolve_form_secrets v a n sv)" "keeps db_ok (revoke_connection w a n sv)"
  "keeps db_ok (sweep_states w)"
  unfolding credential_defs Let_def by (intro keeps_intros db_ok_flows)+

lemma keeps_db_network:
  assumes "\<And>p t. keeps db_ok (te_refresh te p t)" and "\<And>p c u. keeps db_ok (te_exchange_code te p c u)"
  shows "keeps db_ok (renew w v ps te p c x)" "keeps db_ok (refresh w v ps te p c x)"
    "keeps db_ok (finish_authorization w v ps te b code)" "keeps db_ok (complete_authorization w v ps te st code)"
  unfolding credential_defs Let_def by (intro keeps_intros db_ok_flows assms)+

end
