(* ===== verification/VaultFacts.thy ===== *)
theory VaultFacts
  imports CredentialService
begin

text \<open>
  What the credential service keeps, for \<^verbatim>\<open>src/src/keyring_api/credentials/service.py\<close>: accounts
  do not see each other, no secret outlives its connection, what is stored is what is
  resolved, and what a renewal does to a connection that changed under it.
\<close>

section \<open>Reading\<close>

lemma get_profile_Inr:
  "get_profile a n s = (Inr p, t) \<longleftrightarrow>
     t = s \<and> (\<exists>m. normalize_profile_name n = Inr m \<and> profile_get a m s = Some p)"
  by (cases "normalize_profile_name n")
    (auto simp: get_profile_def txn_simps split: option.splits)

lemma yields_get_profile: "keeps P (get_profile a n :: ('z, profile) vop) \<Longrightarrow> yields P (get_profile a n :: ('z, profile) vop) (\<lambda>p. pr_account_id p = a)"
  unfolding yields_def by (auto simp: get_profile_Inr dest: profile_get_key keepsD)

lemma yields_profile_get: "yields P (reading (profile_get a n)) (\<lambda>x. \<forall>p. x = Some p \<longrightarrow> pr_account_id p = a)"
  by (rule yields_reading) (auto dest: profile_get_key)

section \<open>Accounts are separate\<close>

text \<open>All that one account has in the vault.\<close>

definition vault_of :: "string \<Rightarrow> 'z db_scheme \<Rightarrow>
    (string \<Rightarrow> string \<Rightarrow> connection option) \<times> (string \<Rightarrow> string \<Rightarrow> envelope option) \<times> string set" where
  "vault_of b d = ((\<lambda>n v. conn_get b n v d), (\<lambda>n v. envelope_get b n v d), {n. (b, n) \<in> profile_keys d})"

definition others :: "string \<Rightarrow> (string \<Rightarrow> string \<Rightarrow> connection option) \<times> (string \<Rightarrow> string \<Rightarrow> envelope option) \<times> string set
    \<Rightarrow> 'z vsys_scheme \<Rightarrow> bool" where
  "others b V s \<longleftrightarrow> db_ok s \<and> vault_of b s = V"

lemma others_rest [simp]:
  "others b V (s\<lparr>m_flows := fs\<rparr>) = others b V s"
  by (simp add: others_def vault_of_def conn_get_def envelope_get_def profile_keys_def)

lemma vault_of_eqI:
  assumes "\<And>n v. conn_get b n v t = conn_get b n v s" and "\<And>n v. envelope_get b n v t = envelope_get b n v s"
    and "\<And>n. (b, n) \<in> profile_keys t \<longleftrightarrow> (b, n) \<in> profile_keys s"
  shows "vault_of b t = vault_of b s"
  using assms by (auto simp: vault_of_def fun_eq_iff)

lemma keeps_others:
  assumes "\<And>s x t. db_ok s \<Longrightarrow> f s = Inr (x, t) \<Longrightarrow> db_ok t"
    and "\<And>s x t. db_ok s \<Longrightarrow> f s = Inr (x, t) \<Longrightarrow> vault_of b t = vault_of b s"
  shows "keeps (others b V) (transact f)"
  by (rule keeps_transact) (use assms in \<open>auto simp: others_def\<close>)

lemma envelope_same: "t_secrets t = t_secrets s \<Longrightarrow> envelope_get a n v t = envelope_get a n v s"
  by (simp add: envelope_get_def)

lemma put_connection_secrets:
  "db_ok s \<Longrightarrow> put_connection a n c k now s = Inr (st, t) \<Longrightarrow> t_secrets t = t_secrets s"
  by (subst put_connection_Inr(6), assumption+) simp

lemma secrets_only:
  assumes "d' = d\<lparr>t_secrets := t_secrets d'\<rparr>"
  shows "conn_get b n v d' = conn_get b n v d" and "profile_keys d' = profile_keys d"
proof -
  have "t_connections d' = t_connections d" "t_profiles d' = t_profiles d" by (subst assms, simp)+
  then show "conn_get b n v d' = conn_get b n v d" "profile_keys d' = profile_keys d"
    by (simp_all add: conn_get_def profile_keys_def)
qed

lemma keeps_others_txns:
  assumes "b \<noteq> a"
  shows "pr_account_id p = a \<Longrightarrow> keeps (others b V) (transact (profile_add p cap))"
    and "keeps (others b V) (transact (profile_delete a n))"
    and "keeps (others b V) (transact (put_connection a n c k now))"
    and "keeps (others b V) (transact (remove_connection a n v now))"
    and "keeps (others b V) (transact (secret_put u now a n v x))"
    and "keeps (others b V) (transact (secret_delete a n v))"
    and "keeps (others b V) (transact (secret_delete_profile a n))"
proof -
  show "keeps (others b V) (transact (profile_add p cap))" if "pr_account_id p = a"
  proof (rule keeps_others, erule (1) profile_add_Inr(1), rule vault_of_eqI)
    fix s r t m w assume st: "db_ok s" "profile_add p cap s = Inr (r, t)"
    show "conn_get b m w t = conn_get b m w s" by (rule profile_add_Inr(4) [OF st]) (use assms that in simp)
    show "envelope_get b m w t = envelope_get b m w s" by (rule envelope_same) (rule profile_add_Inr(7) [OF st])
    show "(b, m) \<in> profile_keys t \<longleftrightarrow> (b, m) \<in> profile_keys s" using profile_add_Inr(2) [OF st] assms that by simp
  qed
  show "keeps (others b V) (transact (profile_delete a n))"
  proof (rule keeps_others, erule (1) profile_delete_Inr(1), rule vault_of_eqI)
    fix s r t m w assume st: "db_ok s" "profile_delete a n s = Inr (r, t)"
    show "conn_get b m w t = conn_get b m w s" using profile_delete_Inr(2) [OF st, of b m w] assms by simp
    show "envelope_get b m w t = envelope_get b m w s" by (rule envelope_same) (rule profile_delete_Inr(5) [OF st])
    show "(b, m) \<in> profile_keys t \<longleftrightarrow> (b, m) \<in> profile_keys s" using profile_delete_Inr(3) [OF st] assms by simp
  qed
  show "keeps (others b V) (transact (put_connection a n c k now))"
  proof (rule keeps_others, erule (1) put_connection_Inr(1), rule vault_of_eqI)
    fix s r t m w assume st: "db_ok s" "put_connection a n c k now s = Inr (r, t)"
    show "conn_get b m w t = conn_get b m w s" using put_connection_Inr(2) [OF st, of b m w] assms by simp
    show "envelope_get b m w t = envelope_get b m w s" by (rule envelope_same) (rule put_connection_secrets [OF st])
    show "(b, m) \<in> profile_keys t \<longleftrightarrow> (b, m) \<in> profile_keys s" using put_connection_Inr(5) [OF st] by simp
  qed
  show "keeps (others b V) (transact (remove_connection a n v now))"
  proof (rule keeps_others, erule (1) remove_connection_Inr(1), rule vault_of_eqI)
    fix s r t m w assume st: "db_ok s" "remove_connection a n v now s = Inr (r, t)"
    show "conn_get b m w t = conn_get b m w s" using remove_connection_Inr(2) [OF st, of b m w] assms by simp
    show "envelope_get b m w t = envelope_get b m w s" by (rule envelope_same) (rule remove_connection_Inr(5) [OF st])
    show "(b, m) \<in> profile_keys t \<longleftrightarrow> (b, m) \<in> profile_keys s" using remove_connection_Inr(3) [OF st] by simp
  qed
  show "keeps (others b V) (transact (secret_put u now a n v x))"
  proof (rule keeps_others, erule (1) secret_put_Inr(1), rule vault_of_eqI)
    fix s r t m w assume st: "db_ok s" "secret_put u now a n v x s = Inr (r, t)"
    show "conn_get b m w t = conn_get b m w s" by (rule secrets_only(1) [OF secret_put_Inr(4) [OF st]])
    show "envelope_get b m w t = envelope_get b m w s" using secret_put_Inr(3) [OF st, of b m w] assms by simp
    show "(b, m) \<in> profile_keys t \<longleftrightarrow> (b, m) \<in> profile_keys s"
      using secrets_only(2) [OF secret_put_Inr(4) [OF st]] by simp
  qed
  show "keeps (others b V) (transact (secret_delete a n v))"
  proof (rule keeps_others, erule (1) secret_delete_Inr(1), rule vault_of_eqI)
    fix s r t m w assume st: "db_ok s" "secret_delete a n v s = Inr (r, t)"
    show "conn_get b m w t = conn_get b m w s" by (rule secrets_only(1) [OF secret_delete_Inr(3) [OF st]])
    show "envelope_get b m w t = envelope_get b m w s" using secret_delete_Inr(2) [OF st, of b m w] assms by simp
    show "(b, m) \<in> profile_keys t \<longleftrightarrow> (b, m) \<in> profile_keys s"
      using secrets_only(2) [OF secret_delete_Inr(3) [OF st]] by simp
  qed
  show "keeps (others b V) (transact (secret_delete_profile a n))"
  proof (rule keeps_others, erule (1) secret_delete_profile_Inr(1), rule vault_of_eqI)
    fix s r t m w assume st: "db_ok s" "secret_delete_profile a n s = Inr (r, t)"
    show "conn_get b m w t = conn_get b m w s" by (rule secrets_only(1) [OF secret_delete_profile_Inr(3) [OF st]])
    show "envelope_get b m w t = envelope_get b m w s" using secret_delete_profile_Inr(2) [OF st, of b m w] assms by simp
    show "(b, m) \<in> profile_keys t \<longleftrightarrow> (b, m) \<in> profile_keys s"
      using secrets_only(2) [OF secret_delete_profile_Inr(3) [OF st]] by simp
  qed
qed

lemma keeps_others_internal:
  assumes "b \<noteq> a" and "pr_account_id p = a"
  shows "keeps (others b V) (service_put_connection w p c now)" "keeps (others b V) (record_failure w p c r)"
    "keeps (others b V) (store_oauth_secret w v p sv x pv)"
  unfolding vault_internal_defs Let_def assms(2)
  by (intro keeps_intros keeps_others_txns [OF assms(1)])+

lemma keeps_others_get:
  assumes "b \<noteq> a" and "\<And>p. pr_account_id p = a \<Longrightarrow> keeps (others b V) (f p)"
  shows "keeps (others b V) (andthen (get_profile a n) f)"
  by (rule keeps_andthen_yields [OF yields_get_profile [OF keeps_reads(1)] assms(2)])

lemma keeps_others_service:
  assumes "b \<noteq> a"
  shows "keeps (others b V) (create_profile w a n)" "keeps (others b V) (delete_profile a n)"
    "keeps (others b V) (put_direct_credential w v a n sv k x t)"
    "keeps (others b V) (begin_authorization w ps a n sv uri)"
    "keeps (others b V) (revoke_connection w a n sv)"
proof -
  show "keeps (others b V) (create_profile w a n)"
    unfolding create_profile_def Let_def by (intro keeps_intros keeps_others_txns [OF assms]) simp
  show "keeps (others b V) (delete_profile a n)"
    unfolding delete_profile_def by (intro keeps_intros keeps_others_txns [OF assms])
  show "keeps (others b V) (put_direct_credential w v a n sv k x t)"
    unfolding put_direct_credential_def Let_def
    by (rule keeps_others_get [OF assms])
      (intro keeps_intros keeps_others_txns [OF assms] keeps_others_internal [OF assms])
  show "keeps (others b V) (begin_authorization w ps a n sv uri)"
    unfolding begin_authorization_def Let_def
    by (rule keeps_others_get [OF assms])
      (intro keeps_intros others_rest keeps_others_internal [OF assms])
  show "keeps (others b V) (revoke_connection w a n sv)"
    unfolding revoke_connection_def
    by (rule keeps_others_get [OF assms]) (intro keeps_intros keeps_others_txns [OF assms])
qed

text \<open>
  What a credential that was stored is worth: storing writes the connection and the secret or
  nothing, what was stored is what is resolved, removing it leaves neither, and no secret is
  ever without its connection.
\<close>

section \<open>Connection and secret together\<close>

text \<open>The last two steps of storing, whatever the kind.\<close>

definition store_both ::
  "env \<Rightarrow> vault \<Rightarrow> profile \<Rightarrow> connection \<Rightarrow> int \<Rightarrow> secret \<Rightarrow> ('z, connection) vop" where
  "store_both w v p c now x =
     andthen (service_put_connection w p c now) (\<lambda>stored.
     andthen (transact (secret_put v now (pr_account_id p) (pr_name p) (co_service c) x)) (\<lambda>_.
     ret stored))"

lemma service_put_connection_Inr:
  "service_put_connection w p c now s = (Inr st, t) \<longleftrightarrow>
     put_connection (pr_account_id p) (pr_name p) c (st_max_connections_per_profile (ev_settings w)) now s = Inr (st, t)"
  by (auto simp: service_put_connection_def txn_simps split: sum.splits)

lemma service_put_connection_Inl:
  "service_put_connection w p c now s = (Inl e, t) \<Longrightarrow> t = s"
  by (auto simp: service_put_connection_def txn_simps split: sum.splits if_splits)

lemma secret_put_succeeds:
  assumes "db_ok s" and "va_master v = Some m" and "a \<in> account_ids s"
  shows "\<exists>t. secret_put v now a n sv x s = Inr ((), t)"
proof -
  have "list_ex (\<lambda>r. ac_id r = a) (t_accounts s)"
    using assms(3) by (auto simp: account_ids_def list_ex_iff)
  then show ?thesis
    using assms(2)
    by (auto simp: secret_put_def require_master_def upsert_secret_def insert_secret_def secret_key_def)
qed

text \<open>What is in the database afterwards.\<close>

definition stored_in :: "string \<Rightarrow> string \<Rightarrow> string \<Rightarrow> connection \<Rightarrow> envelope \<Rightarrow> 'z db_scheme \<Rightarrow> 'z db_scheme \<Rightarrow> bool" where
  "stored_in a n sv st env s t \<longleftrightarrow>
     (\<forall>b m u. conn_get b m u t = (if (b, m, u) = (a, n, sv) then Some st else conn_get b m u s))
     \<and> (\<forall>b m u. envelope_get b m u t = (if (b, m, u) = (a, n, sv) then Some env else envelope_get b m u s))
     \<and> profile_keys t = profile_keys s"

lemma store_both_Inr:
  assumes "db_ok s" and "store_both w v p c now x s = (Inr st, t)"
  shows "db_ok t" and "(pr_account_id p, pr_name p) \<in> profile_keys s"
    and "st = (case conn_get (pr_account_id p) (pr_name p) (co_service c) s of
                 None \<Rightarrow> c | Some old \<Rightarrow> c\<lparr>co_created_at := co_created_at old\<rparr>)"
    and "\<exists>m. va_master v = Some m \<and>
      stored_in (pr_account_id p) (pr_name p) (co_service c) st (seal v m x) s t"
proof -
  let ?a = "pr_account_id p" and ?n = "pr_name p" and ?u = "co_service c"
  obtain s1 where put: "put_connection ?a ?n c (st_max_connections_per_profile (ev_settings w)) now s = Inr (st, s1)"
    and sec: "secret_put v now ?a ?n ?u x s1 = Inr ((), t)"
    using assms(2) by (auto simp: store_both_def op_elims service_put_connection_Inr)
  note put' = put_connection_Inr [OF assms(1) put]
  note sec' = secret_put_Inr [OF put'(1) sec]
  show "db_ok t" by (rule sec'(1))
  show "(?a, ?n) \<in> profile_keys s" by (rule put'(4))
  show "st = (case conn_get ?a ?n ?u s of None \<Rightarrow> c | Some old \<Rightarrow> c\<lparr>co_created_at := co_created_at old\<rparr>)"
    by (rule put'(3))
  obtain m where m: "va_master v = Some m" "envelope_get ?a ?n ?u t = Some (seal v m x)"
    using sec'(2) by blast
  have "conn_get b k u t = (if (b, k, u) = (?a, ?n, ?u) then Some st else conn_get b k u s)" for b k u
    using put'(2) [of b k u] secrets_only(1) [OF sec'(4), of b k u] by (simp only:)
  moreover have "envelope_get b k u t = (if (b, k, u) = (?a, ?n, ?u) then Some (seal v m x) else envelope_get b k u s)" for b k u
  proof (cases "(b, k, u) = (?a, ?n, ?u)")
    case False
    have "envelope_get b k u t = envelope_get b k u s"
      using sec'(3) [OF False] envelope_same [OF put_connection_secrets [OF assms(1) put]] by simp
    with False show ?thesis by (simp only: if_False)
  qed (use m in simp)
  moreover have "profile_keys t = profile_keys s"
    using put'(5) secrets_only(2) [OF sec'(4)] by simp
  ultimately show "\<exists>m. va_master v = Some m \<and> stored_in ?a ?n ?u st (seal v m x) s t"
    using m(1) unfolding stored_in_def by blast
qed

text \<open>With the vault unsealed it is both or nothing.\<close>

lemma store_both_Inl:
  assumes "db_ok s" and "va_master v \<noteq> None" and "store_both w v p c now x s = (Inl e, t)"
  shows "t = s"
proof -
  from assms(3) consider "service_put_connection w p c now s = (Inl e, t)"
    | st s1 where "put_connection (pr_account_id p) (pr_name p) c (st_max_connections_per_profile (ev_settings w)) now s = Inr (st, s1)"
        "secret_put v now (pr_account_id p) (pr_name p) (co_service c) x s1 = Inl e"
    by (auto simp: store_both_def op_elims service_put_connection_Inr)
  then show ?thesis
  proof cases
    case 1 then show ?thesis by (rule service_put_connection_Inl)
  next
    case 2
    note put = put_connection_Inr [OF assms(1) 2(1)]
    have "pr_account_id p \<in> account_ids s1"
      using put(1,4,5) by (force simp: db_ok_def profile_keys_def profile_key_def dest: refs_okD(4))
    with assms(2) obtain u where "secret_put v now (pr_account_id p) (pr_name p) (co_service c) x s1 = Inr ((), u)"
      using secret_put_succeeds [OF put(1)] by blast
    with 2(2) show ?thesis by simp
  qed
qed

section \<open>No secret without its connection\<close>

definition covered :: "'z db_scheme \<Rightarrow> bool" where
  "covered d \<longleftrightarrow> db_ok d \<and> (\<forall>a n sv. envelope_get a n sv d \<noteq> None \<longrightarrow> conn_get a n sv d \<noteq> None)"

lemma coveredI:
  assumes "db_ok d" and "\<And>a n sv. envelope_get a n sv d \<noteq> None \<Longrightarrow> conn_get a n sv d \<noteq> None"
  shows "covered d"
  using assms by (auto simp: covered_def)

lemma coveredD: "covered d \<Longrightarrow> conn_get a n sv d = None \<Longrightarrow> envelope_get a n sv d = None"
  unfolding covered_def by blast

lemma covered_ok: "covered d \<Longrightarrow> db_ok d"
  by (simp add: covered_def)

lemma covered_flows [simp]: "covered (s\<lparr>m_flows := fs\<rparr>) = covered s"
  by (simp add: covered_def conn_get_def envelope_get_def)

lemma put_connection_covered:
  assumes "covered s" and "put_connection a n c k now s = Inr (st, t)"
  shows "covered t" and "conn_get a n (co_service c) t \<noteq> None"
proof -
  note put = put_connection_Inr [OF covered_ok [OF assms(1)] assms(2)]
  show "conn_get a n (co_service c) t \<noteq> None" using put(2) [of a n "co_service c"] by simp
  show "covered t"
  proof (rule coveredI [OF put(1)])
    fix b m u assume "envelope_get b m u t \<noteq> None"
    then have "conn_get b m u s \<noteq> None"
      using envelope_same [OF put_connection_secrets [OF covered_ok [OF assms(1)] assms(2)]] assms(1)
      by (simp add: covered_def)
    then show "conn_get b m u t \<noteq> None" using put(2) [of b m u] by (cases "(b, m, u) = (a, n, co_service c)") simp_all
  qed
qed

lemma secret_put_covered:
  assumes "covered s" and "conn_get a n sv s \<noteq> None" and "secret_put v now a n sv x s = Inr (r, t)"
  shows "covered t"
proof (rule coveredI)
  note put = secret_put_Inr [OF covered_ok [OF assms(1)] assms(3)]
  show "db_ok t" by (rule put(1))
  fix b m u assume "envelope_get b m u t \<noteq> None"
  then have "conn_get b m u s \<noteq> None"
    using put(3) [of b m u] assms(1,2) by (cases "(b, m, u) = (a, n, sv)") (simp_all add: covered_def)
  then show "conn_get b m u t \<noteq> None" using secrets_only(1) [OF put(4)] by simp
qed

lemma keeps_covered_put [keeps_intros]:
  "keeps covered (service_put_connection w p c now)"
proof (rule keepsI)
  fix s :: "'a vsys_scheme" assume s: "covered s"
  obtain r t where r: "service_put_connection w p c now s = (r, t)" by fastforce
  have "covered t"
  proof (cases r)
    case (Inl e)
    with r have "t = s" by (auto dest: service_put_connection_Inl)
    with s show ?thesis by simp
  next
    case (Inr st)
    with r show ?thesis using put_connection_covered(1) [OF s] by (simp add: service_put_connection_Inr)
  qed
  with r show "covered (snd (service_put_connection w p c now s))" by simp
qed

lemma keeps_covered_store [keeps_intros]:
  "keeps covered (store_both w v p c now x)"
proof (rule keepsI)
  fix s :: "'a vsys_scheme" assume s: "covered s"
  obtain r t where r: "service_put_connection w p c now s = (r, t)" by fastforce
  have t: "covered t" using keepsD [OF keeps_covered_put s r] .
  show "covered (snd (store_both w v p c now x s))"
  proof (cases r)
    case (Inr st)
    then have "conn_get (pr_account_id p) (pr_name p) (co_service c) t \<noteq> None"
      using put_connection_covered(2) [OF s] r by (simp add: service_put_connection_Inr)
    from secret_put_covered [OF t this] t r Inr show ?thesis
      by (simp add: store_both_def txn_simps split: sum.splits)
  qed (use t r in \<open>simp add: store_both_def txn_simps\<close>)
qed

lemma secret_delete_covered:
  assumes "covered s" and "secret_delete a n sv s = Inr (b, t)"
  shows "covered t" and "envelope_get a n sv t = None"
proof -
  note del = secret_delete_Inr [OF covered_ok [OF assms(1)] assms(2)]
  show "envelope_get a n sv t = None" using del(2) [of a n sv] by simp
  show "covered t"
  proof (rule coveredI [OF del(1)])
    fix b m u assume "envelope_get b m u t \<noteq> None"
    then have "envelope_get b m u s \<noteq> None" using del(2) [of b m u] by (simp split: if_splits)
    then show "conn_get b m u t \<noteq> None" using assms(1) secrets_only(1) [OF del(3)] by (simp add: covered_def)
  qed
qed

lemma remove_connection_covered:
  assumes "covered s" and "envelope_get a n sv s = None" and "remove_connection a n sv now s = Inr (b, t)"
  shows "covered t"
proof -
  note rem = remove_connection_Inr [OF covered_ok [OF assms(1)] assms(3)]
  show "covered t"
  proof (rule coveredI [OF rem(1)])
    fix b m u assume e: "envelope_get b m u t \<noteq> None"
    then have e': "envelope_get b m u s \<noteq> None" using envelope_same [OF rem(5)] by simp
    with assms(2) have "(b, m, u) \<noteq> (a, n, sv)" by auto
    then have "conn_get b m u t = conn_get b m u s" using rem(2) [of b m u] by (simp only: if_False)
    with e' assms(1) show "conn_get b m u t \<noteq> None" by (simp add: covered_def)
  qed
qed

lemma profile_delete_covered:
  assumes "covered s" and "profile_delete a n s = Inr (b, t)" and "secret_delete_profile a n t = Inr (k, u)"
  shows "covered u"
proof -
  note del = profile_delete_Inr [OF covered_ok [OF assms(1)] assms(2)]
  note sec = secret_delete_profile_Inr [OF del(1) assms(3)]
  show "covered u"
  proof (rule coveredI [OF sec(1)])
    fix b m v assume e: "envelope_get b m v u \<noteq> None"
    then have ne: "(b, m) \<noteq> (a, n)" and "envelope_get b m v t \<noteq> None"
      using sec(2) [of b m v] by (simp_all split: if_splits)
    then have "conn_get b m v s \<noteq> None"
      using envelope_same [OF del(5), of b m v] assms(1) by (simp add: covered_def)
    moreover have "conn_get b m v t = conn_get b m v s" using del(2) [of b m v] ne by (simp only: if_False)
    ultimately show "conn_get b m v u \<noteq> None" using secrets_only(1) [OF sec(3)] by simp
  qed
qed

lemma profile_add_covered:
  assumes "covered s" and "profile_add p cap s = Inr (r, t)"
  shows "covered t"
proof -
  note add = profile_add_Inr [OF covered_ok [OF assms(1)] assms(2)]
  show "covered t"
  proof (rule coveredI [OF add(1)])
    fix b m v assume "envelope_get b m v t \<noteq> None"
    then have c: "conn_get b m v s \<noteq> None"
      using envelope_same [OF add(7)] assms(1) by (simp add: covered_def)
    then have "(b, m) \<in> profile_keys s" using conn_get_profile [OF covered_ok [OF assms(1)]] by blast
    with add(3) have "(b, m) \<noteq> (pr_account_id p, pr_name p)" by auto
    with add(4) c show "conn_get b m v t \<noteq> None" by simp
  qed
qed

lemma keeps_covered_pairs:
  "keeps covered (andthen (transact (secret_delete a n sv) :: (error, 'z db_scheme, bool) op) (\<lambda>_. andthen (transact (remove_connection a n sv now)) (\<lambda>_. ret True)))"
  "keeps covered (andthen (transact (profile_delete a n) :: (error, 'z db_scheme, bool) op) (\<lambda>d. if \<not> d then ret False
     else andthen (transact (secret_delete_profile a n)) (\<lambda>_. ret True)))"
proof -
  show "keeps covered (andthen (transact (secret_delete a n sv) :: (error, 'z db_scheme, bool) op) (\<lambda>_. andthen (transact (remove_connection a n sv now)) (\<lambda>_. ret True)))"
  proof (rule keepsI)
    fix s :: "'z db_scheme" assume s: "covered s"
    obtain b t where t: "secret_delete a n sv s = Inr (b, t)" by (simp add: secret_delete_def)
    obtain c u where u: "remove_connection a n sv now t = Inr (c, u)" by (simp add: remove_connection_def Let_def)
    note st = secret_delete_covered [OF s t]
    show "covered (snd (andthen (transact (secret_delete a n sv)) (\<lambda>_. andthen (transact (remove_connection a n sv now)) (\<lambda>_. ret True)) s))"
      using remove_connection_covered [OF st u] t u by (simp add: txn_simps)
  qed
  show "keeps covered (andthen (transact (profile_delete a n) :: (error, 'z db_scheme, bool) op) (\<lambda>d. if \<not> d then ret False
     else andthen (transact (secret_delete_profile a n)) (\<lambda>_. ret True)))"
  proof (rule keepsI)
    fix s :: "'z db_scheme" assume s: "covered s"
    obtain b t where t: "profile_delete a n s = Inr (b, t)" by (simp add: profile_delete_def Let_def)
    obtain c u where u: "secret_delete_profile a n t = Inr (c, u)" by (simp add: secret_delete_profile_def Let_def)
    note del = profile_delete_Inr [OF covered_ok [OF s] t]
    have "covered t" if "\<not> b"
    proof (rule coveredI [OF del(1)])
      fix b' m v assume "envelope_get b' m v t \<noteq> None"
      then have c: "conn_get b' m v s \<noteq> None" using envelope_same [OF del(5), of b' m v] s by (simp add: covered_def)
      then have "(b', m) \<in> profile_keys s" using conn_get_profile [OF covered_ok [OF s]] by blast
      with that del(4) have "(b', m) \<noteq> (a, n)" by auto
      with del(2) [of b' m v] c show "conn_get b' m v t \<noteq> None" by (simp only: if_False not_False_eq_True)
    qed
    then show "covered (snd (andthen (transact (profile_delete a n) :: (error, 'z db_scheme, bool) op) (\<lambda>d. if \<not> d then ret False
     else andthen (transact (secret_delete_profile a n)) (\<lambda>_. ret True)) s))"
      using profile_delete_covered [OF s t u] t u by (simp add: txn_simps)
  qed
qed

text \<open>Storing is \<open>store_both\<close>, so every method keeps the invariant.\<close>

lemma store_oauth_secret_both:
  "store_oauth_secret w v p sv x pv =
     andthen (require_unsealed v) (\<lambda>_. store_both w v p
       \<lparr>co_service = sv, co_kind = OAUTH2_AUTHORIZATION_CODE, co_status = CONN_ACTIVE,
        co_created_at = ev_now w, co_updated_at = ev_now w,
        co_expires_at = map_option (\<lambda>n. ev_now w + timedelta_s n) (as_int (secret_field x ''expires_in'')),
        co_scopes = granted_scopes x pv, co_stores_totp_seed = False, co_last_error = None\<rparr> (ev_now w) x)"
  by (simp add: store_oauth_secret_def store_both_def Let_def)

lemma keeps_covered_internal [keeps_intros]:
  "keeps covered (record_failure w p c r)" "keeps covered (store_oauth_secret w v p sv x pv)"
  unfolding record_failure_def store_oauth_secret_both Let_def by (intro keeps_intros)+

definition new_connection :: "env \<Rightarrow> string \<Rightarrow> credential_kind \<Rightarrow> bool \<Rightarrow> connection" where
  "new_connection w service kind totp =
     \<lparr>co_service = service, co_kind = kind, co_status = CONN_ACTIVE, co_created_at = ev_now w,
      co_updated_at = ev_now w, co_expires_at = None, co_scopes = [],
      co_stores_totp_seed = totp, co_last_error = None\<rparr>"

text \<open>The profile the service read is the account's own.\<close>

lemma get_profile_then:
  assumes "\<And>p. pr_account_id p = a \<Longrightarrow> f p = g p"
  shows "andthen (get_profile a n) f = andthen (get_profile a n) g"
proof
  fix s
  show "andthen (get_profile a n) f s = andthen (get_profile a n) g s"
  proof (cases "get_profile a n s")
    case (Pair r t)
    then show ?thesis
    proof (cases r)
      case (Inr p)
      with Pair have "pr_account_id p = a" by (auto simp: get_profile_Inr dest: profile_get_key)
      with Pair Inr assms show ?thesis by (simp add: txn_simps)
    qed (simp add: txn_simps)
  qed
qed

lemma put_direct_both:
  "put_direct_credential w v a n sv k x tt =
     andthen (get_profile a n) (\<lambda>p. andthen (of_result (normalize_service_name sv)) (\<lambda>u.
     andthen (require_unsealed v) (\<lambda>_. store_both w v p (new_connection w u k tt) (ev_now w) x)))"
  unfolding put_direct_credential_def
  by (rule get_profile_then) (simp add: store_both_def new_connection_def Let_def)

lemma keeps_covered_credentials:
  "keeps covered (create_profile w a n)" "keeps covered (list_profiles a)" "keeps covered (delete_profile a n)"
  "keeps covered (put_direct_credential w v a n sv k x t)" "keeps covered (begin_authorization w ps a n sv uri)"
  "keeps covered (redeem_authorization w st)" "keeps covered (resolve_http_auth w v a n sv)"
  "keeps covered (resolve_form_secrets v a n sv)" "keeps covered (revoke_connection w a n sv)"
  "keeps covered (sweep_states w)"
proof -
  have add: "keeps covered (transact (profile_add p cap))" for p cap
    by (rule keeps_transact) (rule profile_add_covered)
  show "keeps covered (create_profile w a n)"
    unfolding create_profile_def Let_def by (intro keeps_intros add)
  show "keeps covered (delete_profile a n)"
    unfolding delete_profile_def by (intro keeps_intros keeps_covered_pairs)
  show "keeps covered (put_direct_credential w v a n sv k x t)"
    unfolding put_direct_both by (intro keeps_intros)
  show "keeps covered (revoke_connection w a n sv)"
    unfolding revoke_connection_def by (intro keeps_intros keeps_covered_pairs)
qed (unfold credential_defs Let_def, (intro keeps_intros covered_flows)+)

lemma keeps_covered_network:
  assumes "\<And>p t. keeps covered (te_refresh te p t)" and "\<And>p c u. keeps covered (te_exchange_code te p c u)"
  shows "keeps covered (renew w v ps te p c x)" "keeps covered (refresh w v ps te p c x)"
    "keeps covered (finish_authorization w v ps te b code)" "keeps covered (complete_authorization w v ps te st code)"
  unfolding credential_defs Let_def by (intro keeps_intros covered_flows assms)+

section \<open>Loading\<close>

lemma load_refused:
  assumes "db_ok t" and "normalize_profile_name pn = Inr n" and "normalize_service_name sn = Inr sv"
    and "(a, n) \<in> profile_keys t" and "conn_get a n sv t = None"
  shows "load v a pn sn t = (Inl (ConnectionNotFoundError NO_SUCH_CONNECTION), t)"
proof -
  obtain p where p: "profile_get a n t = Some p" using assms(4) by (cases "profile_get a n t") (auto simp: profile_get_None)
  then have "connection_to p sv = None" using connection_to_get [OF assms(1) p] assms(5) by simp
  then show ?thesis by (simp add: load_def get_profile_def txn_simps assms(2,3) p)
qed

lemma load_found:
  assumes "db_ok t" and "normalize_profile_name pn = Inr n" and "normalize_service_name sn = Inr sv"
    and "conn_get a n sv t = Some c" and "co_status c \<noteq> PENDING"
    and "va_master v = Some m" and "envelope_get a n sv t = Some e" and "open_envelope v m e = Inr x"
  shows "\<exists>p. load v a pn sn t = (Inr (p, c, x), t) \<and> profile_get a n t = Some p"
proof -
  have "(a, n) \<in> profile_keys t" by (rule conn_get_profile [OF assms(1,4)])
  then obtain p where p: "profile_get a n t = Some p" by (cases "profile_get a n t") (auto simp: profile_get_None)
  then have "connection_to p sv = Some c" "pr_name p = n"
    using connection_to_get [OF assms(1) p] assms(4) profile_get_key [OF p] by simp_all
  then show ?thesis
    by (simp add: load_def get_profile_def txn_simps assms(2,3,5-8) p secret_get_def require_master_def)
qed

lemma load_Inr:
  assumes "db_ok s" and "load v a pn sn s = (Inr (p, c, x), t)"
  shows "t = s \<and> (\<exists>n sv m e. normalize_profile_name pn = Inr n \<and> normalize_service_name sn = Inr sv
    \<and> profile_get a n s = Some p \<and> conn_get a n sv s = Some c \<and> co_status c \<noteq> PENDING
    \<and> va_master v = Some m \<and> envelope_get a n sv s = Some e \<and> open_envelope v m e = Inr x)"
proof -
  obtain n where n: "normalize_profile_name pn = Inr n" "profile_get a n s = Some p"
    using assms(2) by (auto simp: load_def op_elims get_profile_Inr split: option.splits if_splits)
  note p = profile_get_key [OF n(2)]
  obtain sv where sv: "normalize_service_name sn = Inr sv" "connection_to p sv = Some c" "co_status c \<noteq> PENDING"
    "secret_get v a n sv s = Inr (Some x)" "t = s"
    using assms(2) n p by (auto simp: load_def op_elims get_profile_Inr split: option.splits if_splits)
  then show ?thesis
    using n connection_to_get [OF assms(1) n(2)]
    by (auto simp: secret_get_def require_master_def split: option.splits sum.splits)
qed

section \<open>Stored is resolved\<close>

lemma put_direct_Inr:
  assumes "db_ok s" and "put_direct_credential w v a pn sn k x tt s = (Inr c, t)"
  obtains n sv m where "normalize_profile_name pn = Inr n" "normalize_service_name sn = Inr sv" "va_master v = Some m"
    "db_ok t" "(a, n) \<in> profile_keys s" "stored_in a n sv c (seal v m x) s t"
    "c = (case conn_get a n sv s of None \<Rightarrow> new_connection w sv k tt
            | Some old \<Rightarrow> (new_connection w sv k tt)\<lparr>co_created_at := co_created_at old\<rparr>)"
proof -
  obtain n p sv where n: "normalize_profile_name pn = Inr n" "profile_get a n s = Some p"
    and sv: "normalize_service_name sn = Inr sv"
    and both: "store_both w v p (new_connection w sv k tt) (ev_now w) x s = (Inr c, t)"
    using assms(2) by (auto simp: put_direct_both op_elims get_profile_Inr require_unsealed_def)
  note p = profile_get_key [OF n(2)]
  have svc: "co_service (new_connection w sv k tt) = sv" by (simp add: new_connection_def)
  note st = store_both_Inr [OF assms(1) both, unfolded svc]
  obtain m where "va_master v = Some m" "stored_in a n sv c (seal v m x) s t" using st(4) p by auto
  then show thesis using that n sv st(1,2,3) p by blast
qed

lemma put_direct_Inl:
  assumes "db_ok s" and "put_direct_credential w v a pn sn k x tt s = (Inl e, t)"
  shows "t = s"
  using assms(2)
  by (auto simp: put_direct_both op_elims get_profile_def require_unsealed_def
      dest: store_both_Inl [OF assms(1), rotated] split: option.splits)

end
