(* ===== verification/Renewal.thy ===== *)
theory Renewal
  imports VaultFacts
begin

text \<open>
  Revoking, renewing and authorising: what is left after each, when the provider answers, when
  it refuses, and when the connection was removed while the answer was on its way.
\<close>

section \<open>Revoking\<close>

lemma get_profile_Some:
  "normalize_profile_name pn = Inr n \<Longrightarrow> profile_get a n s = Some p \<Longrightarrow> get_profile a pn s = (Inr p, s)"
  by (simp add: get_profile_Inr)

lemma revoke_connection_Inr:
  assumes "db_ok s" and "revoke_connection w a pn sn s = (Inr b, t)"
  shows "db_ok t \<and> (\<exists>n sv. normalize_profile_name pn = Inr n \<and> normalize_service_name sn = Inr sv
    \<and> (a, n) \<in> profile_keys s \<and> (b \<longleftrightarrow> conn_get a n sv s \<noteq> None) \<and> (\<not> b \<longrightarrow> t = s)
    \<and> (b \<longrightarrow> (\<forall>a' n' sv'. conn_get a' n' sv' t = (if (a', n', sv') = (a, n, sv) then None else conn_get a' n' sv' s)
        \<and> envelope_get a' n' sv' t = (if (a', n', sv') = (a, n, sv) then None else envelope_get a' n' sv' s))
        \<and> profile_keys t = profile_keys s))"
proof -
  obtain n p sv where n: "normalize_profile_name pn = Inr n" "profile_get a n s = Some p"
    and sv: "normalize_service_name sn = Inr sv"
    using assms(2) by (auto simp: revoke_connection_def op_elims get_profile_Inr)
  note p = profile_get_key [OF n(2)]
  have key: "(a, n) \<in> profile_keys s" using n(2) profile_get_None [of a n s] by auto
  have conn: "connection_to p sv = conn_get a n sv s" by (rule connection_to_get [OF assms(1) n(2)])
  show ?thesis
  proof (cases "conn_get a n sv s = None")
    case True
    with assms(2) have "\<not> b \<and> t = s" by (simp add: revoke_connection_def txn_simps get_profile_Some [OF n] sv conn)
    with True n sv key assms(1) show ?thesis by blast
  next
    case False
    obtain b1 s1 where s1: "secret_delete a n sv s = Inr (b1, s1)" by (simp add: secret_delete_def)
    obtain b2 s2 where s2: "remove_connection a n sv (ev_now w) s1 = Inr (b2, s2)"
      by (simp add: remove_connection_def Let_def)
    from assms(2) False have bt: "b" "t = s2"
      by (auto simp: revoke_connection_def txn_simps get_profile_Some [OF n] sv conn p s1 s2)
    note del = secret_delete_Inr [OF assms(1) s1]
    note rem = remove_connection_Inr [OF del(1) s2]
    have "conn_get a' n' sv' t = (if (a', n', sv') = (a, n, sv) then None else conn_get a' n' sv' s)" for a' n' sv'
      using rem(2) [of a' n' sv'] secrets_only(1) [OF del(3), of a' n' sv'] bt(2) by (simp only:)
    moreover have "envelope_get a' n' sv' t = (if (a', n', sv') = (a, n, sv) then None else envelope_get a' n' sv' s)" for a' n' sv'
      using del(2) [of a' n' sv'] envelope_same [OF rem(5), of a' n' sv'] bt(2) by (simp only:)
    moreover have "profile_keys t = profile_keys s" using rem(3) secrets_only(2) [OF del(3)] bt(2) by simp
    ultimately show ?thesis using n sv key rem(1) bt False by blast
  qed
qed

section \<open>Failures\<close>

text \<open>A recorded failure is a connection write: it needs the profile, not the connection.\<close>

lemma record_failure_Inr:
  assumes "db_ok s" and "record_failure w p c r s = (Inr u, t)"
  shows "db_ok t" and "envelope_get a n sv t = envelope_get a n sv s"
    and "\<exists>st. (\<forall>a n sv. conn_get a n sv t =
      (if (a, n, sv) = (pr_account_id p, pr_name p, co_service c) then Some st else conn_get a n sv s))
      \<and> co_status st = EXPIRED \<and> co_last_error st = Some r"
proof -
  obtain st where put: "put_connection (pr_account_id p) (pr_name p) (with_error c r (ev_now w))
      (st_max_connections_per_profile (ev_settings w)) (ev_now w) s = Inr (st, t)"
    using assms(2) by (auto simp: record_failure_def Let_def op_elims service_put_connection_Inr)
  note put' = put_connection_Inr [OF assms(1) put, unfolded with_error_simps]
  show "db_ok t" by (rule put'(1))
  show "envelope_get a n sv t = envelope_get a n sv s"
    by (rule envelope_same [OF put_connection_secrets [OF assms(1) put]])
  have "co_status st = EXPIRED \<and> co_last_error st = Some r"
    by (subst (1 2) put'(3)) (simp add: with_error_def split: option.split)
  then show "\<exists>st. (\<forall>a n sv. conn_get a n sv t =
      (if (a, n, sv) = (pr_account_id p, pr_name p, co_service c) then Some st else conn_get a n sv s))
      \<and> co_status st = EXPIRED \<and> co_last_error st = Some r"
    using put'(2) by blast
qed

lemma put_connection_succeeds:
  assumes "db_ok s" and "(a, n) \<in> profile_keys s"
    and "conn_get a n (co_service c) s \<noteq> None \<or>
      count_where (\<lambda>r. cr_account_id r = a \<and> cr_profile_name r = n) (t_connections s) < cap"
  shows "\<exists>st t. put_connection a n c cap now s = Inr (st, t)"
proof -
  let ?t = "touch_profile a n now s"
  have here: "list_ex (\<lambda>r. profile_key r = (a, n)) (t_profiles s)"
    using assms(2) by (auto simp: list_ex_iff profile_keys_def)
  have keys: "list_ex (\<lambda>r. connection_key r = (a, n, co_service c)) (t_connections s) \<longleftrightarrow> conn_get a n (co_service c) s \<noteq> None"
    by (auto simp: conn_get_def list_ex_iff table_simps)
  have cap: "check_connection_cap a n (co_service c) cap ?t = Inr ()"
    using assms(3) keys by (auto simp: check_connection_cap_def Let_def)
  have "list_ex (\<lambda>r. profile_key r = (a, n)) (t_profiles ?t)"
    using here touch_profile_sel(6) [of a n now s] by (auto simp: list_ex_iff profile_keys_def) (metis imageE imageI)
  then obtain u where up: "upsert_connection a n c ?t = Inr u"
    by (cases "list_ex (\<lambda>r. connection_key r = (a, n, co_service c)) (t_connections s)")
      (auto simp: upsert_connection_def insert_connection_def connection_key_def)
  have "conn_get a n (co_service c) u \<noteq> None"
    using upsert_connection_Inr(2) [OF touch_profile_ok [OF assms(1)] up, of a n "co_service c"] by simp
  then show ?thesis using here cap up by (auto simp: put_connection_def)
qed

section \<open>Renewing\<close>

definition refresh_token_of :: "secret \<Rightarrow> string option" where
  "refresh_token_of x = (case as_str (secret_field x ''refresh_token'') of
     Some r \<Rightarrow> (if r = [] then None else Some r) | None \<Rightarrow> None)"

lemma renew_asks:
  assumes "refresh_token_of x = Some r" and "map_of ps (co_service c) = Some pv" and "te_refresh te pv r s = (ans, s1)"
  shows "renew w v ps te p c x s = (case ans of
      Inl e \<Rightarrow> (if is_credential_unavailable e
        then andthen (record_failure w p c (snd (problem_of e))) (\<lambda>_. raise e) s1 else (Inl e, s1))
    | Inr y \<Rightarrow> (if (case profile_get (pr_account_id p) (pr_name p) s1 of None \<Rightarrow> False
                       | Some q \<Rightarrow> connection_to q (co_service c) \<noteq> None)
        then andthen (store_oauth_secret w v p (co_service c) y pv) (\<lambda>_. ret y) s1
        else (Inl (ConnectionNotFoundError [''the '', co_service c, '' connection was removed while it was being renewed'']), s1)))"
proof -
  have tok: "as_str (secret_field x ''refresh_token'') = Some r" "r \<noteq> []"
    using assms(1) by (auto simp: refresh_token_of_def split: option.splits if_splits)
  show ?thesis
  proof (cases ans)
    case (Inl e)
    then show ?thesis using assms(3)
      by (simp add: renew_def tok provider_for_def assms(2) txn_simps split: sum.split prod.split)
  next
    case (Inr y)
    then show ?thesis using assms(3)
      by (simp add: renew_def tok provider_for_def assms(2) txn_simps)
  qed
qed

lemma still_there_iff:
  assumes "db_ok s"
  shows "(case profile_get a n s of None \<Rightarrow> False | Some q \<Rightarrow> connection_to q sv \<noteq> None) \<longleftrightarrow> conn_get a n sv s \<noteq> None"
proof (cases "profile_get a n s")
  case None
  then have "conn_get a n sv s = None"
    using conn_get_profile [OF assms, of a n sv] by (cases "conn_get a n sv s") (auto simp: profile_get_None)
  with None show ?thesis by simp
next
  case (Some q)
  then show ?thesis using connection_to_get [OF assms Some] by simp
qed

text \<open>The connection after a grant was obtained or renewed.\<close>

definition grant_connection :: "env \<Rightarrow> string \<Rightarrow> secret \<Rightarrow> oauth_provider \<Rightarrow> connection" where
  "grant_connection w sv x pv =
     \<lparr>co_service = sv, co_kind = OAUTH2_AUTHORIZATION_CODE, co_status = CONN_ACTIVE,
      co_created_at = ev_now w, co_updated_at = ev_now w,
      co_expires_at = map_option (\<lambda>n. ev_now w + timedelta_s n) (as_int (secret_field x ''expires_in'')),
      co_scopes = granted_scopes x pv, co_stores_totp_seed = False, co_last_error = None\<rparr>"

lemma grant_connection_simps [simp]:
  "co_service (grant_connection w sv x pv) = sv" "co_status (grant_connection w sv x pv) = CONN_ACTIVE"
  "co_kind (grant_connection w sv x pv) = OAUTH2_AUTHORIZATION_CODE"
  by (simp_all add: grant_connection_def)

lemma store_oauth_secret_Inr:
  assumes "db_ok s" and "store_oauth_secret w v p sv x pv s = (Inr st, t)"
  shows "db_ok t" and "(pr_account_id p, pr_name p) \<in> profile_keys s"
    and "\<exists>m. va_master v = Some m \<and> stored_in (pr_account_id p) (pr_name p) sv st (seal v m x) s t"
    and "st = (case conn_get (pr_account_id p) (pr_name p) sv s of None \<Rightarrow> grant_connection w sv x pv
            | Some old \<Rightarrow> (grant_connection w sv x pv)\<lparr>co_created_at := co_created_at old\<rparr>)"
proof -
  have both: "store_both w v p (grant_connection w sv x pv) (ev_now w) x s = (Inr st, t)"
    using assms(2) by (auto simp: store_oauth_secret_both grant_connection_def op_elims require_unsealed_def)
  note st = store_both_Inr [OF assms(1) both, unfolded grant_connection_simps]
  show "db_ok t" "(pr_account_id p, pr_name p) \<in> profile_keys s"
    "\<exists>m. va_master v = Some m \<and> stored_in (pr_account_id p) (pr_name p) sv st (seal v m x) s t"
    "st = (case conn_get (pr_account_id p) (pr_name p) sv s of None \<Rightarrow> grant_connection w sv x pv
            | Some old \<Rightarrow> (grant_connection w sv x pv)\<lparr>co_created_at := co_created_at old\<rparr>)"
    by (rule st)+
qed

lemma store_oauth_secret_Inl:
  assumes "db_ok s" and "store_oauth_secret w v p sv x pv s = (Inl e, t)"
  shows "t = s"
  using assms(2)
  by (auto simp: store_oauth_secret_both op_elims require_unsealed_def
      dest: store_both_Inl [OF assms(1), rotated])

lemma renew_Inr:
  assumes "refresh_token_of x = Some r" and "map_of ps (co_service c) = Some pv"
    and "te_refresh te pv r s = (ans, s1)" and "db_ok s1" and "renew w v ps te p c x s = (Inr y, t)"
  shows "ans = Inr y \<and> conn_get (pr_account_id p) (pr_name p) (co_service c) s1 \<noteq> None
    \<and> (\<exists>st. store_oauth_secret w v p (co_service c) y pv s1 = (Inr st, t))"
  using assms(5) unfolding renew_asks [OF assms(1-3)]
  by (auto simp: still_there_iff [OF assms(4)] op_elims split: sum.splits if_splits)

lemma renew_answered:
  assumes "refresh_token_of x = Some r" and "map_of ps (co_service c) = Some pv"
    and "te_refresh te pv r s = (Inr y, s1)" and "db_ok s1" and "renew w v ps te p c x s = (Inl e, t)"
  shows "t = s1"
  using assms(5) unfolding renew_asks [OF assms(1-3)]
  by (auto simp: op_elims dest: store_oauth_secret_Inl [OF assms(4)] split: if_splits)

lemma renew_removed:
  assumes "refresh_token_of x = Some r" and "map_of ps (co_service c) = Some pv"
    and "te_refresh te pv r s = (Inr y, s1)" and "db_ok s1"
    and "conn_get (pr_account_id p) (pr_name p) (co_service c) s1 = None"
  shows "renew w v ps te p c x s =
    (Inl (ConnectionNotFoundError [''the '', co_service c, '' connection was removed while it was being renewed'']), s1)"
  using assms(5) still_there_iff [OF assms(4), of "co_service c" "pr_account_id p" "pr_name p"]
  by (simp add: renew_asks [OF assms(1-3)])

lemma renew_failed:
  assumes "refresh_token_of x = Some r" and "map_of ps (co_service c) = Some pv"
    and "te_refresh te pv r s = (Inl (CredentialUnavailableError msg), s1)" and "db_ok s1"
    and "(pr_account_id p, pr_name p) \<in> profile_keys s1"
    and "conn_get (pr_account_id p) (pr_name p) (co_service c) s1 \<noteq> None \<or>
      count_where (\<lambda>r. cr_account_id r = pr_account_id p \<and> cr_profile_name r = pr_name p) (t_connections s1)
        < st_max_connections_per_profile (ev_settings w)"
  shows "\<exists>st t. renew w v ps te p c x s = (Inl (CredentialUnavailableError msg), t) \<and> db_ok t
    \<and> (\<forall>a n sv. envelope_get a n sv t = envelope_get a n sv s1)
    \<and> (\<forall>a n sv. conn_get a n sv t =
      (if (a, n, sv) = (pr_account_id p, pr_name p, co_service c) then Some st else conn_get a n sv s1))
    \<and> co_status st = EXPIRED"
proof -
  let ?e = "CredentialUnavailableError msg"
  let ?c = "with_error c (snd (problem_of ?e)) (ev_now w)"
  obtain st t where "put_connection (pr_account_id p) (pr_name p) ?c (st_max_connections_per_profile (ev_settings w))
      (ev_now w) s1 = Inr (st, t)"
    using put_connection_succeeds [OF assms(4,5), of ?c "st_max_connections_per_profile (ev_settings w)" "ev_now w"] assms(6)
    unfolding with_error_simps by blast
  then have rec: "record_failure w p c (snd (problem_of ?e)) s1 = (Inr (), t)"
    by (simp add: record_failure_def Let_def op_elims service_put_connection_Inr)
  have "renew w v ps te p c x s = (Inl ?e, t)"
    by (simp add: renew_asks [OF assms(1-3)] txn_simps rec)
  then show ?thesis using record_failure_Inr [OF assms(4) rec] by blast
qed

section \<open>Authorising\<close>

lemma issue_state_simp [txn_simps]:
  "issue_state w b ttl s = (Inr (ev_token w),
     s\<lparr>m_flows := flow_issue (ev_hash_token w (ev_token w)) b ttl (ev_now w) (m_flows s)\<rparr>)"
  by (simp add: issue_state_def)

lemma redeem_state_simp [txn_simps]:
  "redeem_state w st s = (Inr (fst (flow_redeem (ev_hash_token w st) (ev_now w) (m_flows s))),
     s\<lparr>m_flows := snd (flow_redeem (ev_hash_token w st) (ev_now w) (m_flows s))\<rparr>)"
  by (simp add: redeem_state_def split: prod.split)

definition INVALID_STATE :: error where
  "INVALID_STATE = InvalidOAuthStateError [''this authorization link is invalid or has expired'']"

lemma redeem_authorization_unknown:
  "map_of (m_flows s) (ev_hash_token w st) = None \<Longrightarrow>
     redeem_authorization w st s = (Inl INVALID_STATE, s)"
proof -
  assume none: "map_of (m_flows s) (ev_hash_token w st) = None"
  then have "AList.delete (ev_hash_token w st) (m_flows s) = m_flows s"
    by (intro delete_id) (simp add: map_of_eq_None_iff)
  with none show ?thesis
    by (simp add: redeem_authorization_def txn_simps flow_redeem_def INVALID_STATE_def)
qed

lemma redeem_authorization_forgets:
  "map_of (m_flows (snd (redeem_authorization w st s))) (ev_hash_token w st) = None"
  by (simp add: redeem_authorization_def txn_simps flow_redeem_def delete_conv' split: option.split)

lemma redeem_authorization_Inr:
  "redeem_authorization w st s = (Inr b, t) \<Longrightarrow>
     \<exists>f. map_of (m_flows s) (ev_hash_token w st) = Some f \<and> ev_now w < of_expires_at f \<and> b = of_binding f
       \<and> t = s\<lparr>m_flows := AList.delete (ev_hash_token w st) (m_flows s)\<rparr>"
  by (auto simp: redeem_authorization_def txn_simps flow_redeem_def is_live_def split: option.splits if_splits)

lemma finish_authorization_Inr:
  assumes "db_ok s" and "finish_authorization w v ps te b code s = (Inr st, t)"
  shows "\<exists>p pv x u. profile_get (fb_account_id b) (fb_profile b) s = Some p \<and> map_of ps (fb_service b) = Some pv
    \<and> te_exchange_code te pv code (fb_redirect_uri b) s = (Inr x, u)
    \<and> store_oauth_secret w v p (fb_service b) x pv u = (Inr st, t)
    \<and> pr_account_id p = fb_account_id b \<and> pr_name p = fb_profile b"
proof -
  obtain p where p: "profile_get (fb_account_id b) (fb_profile b) s = Some p"
    using assms(2) by (auto simp: finish_authorization_def op_elims split: option.splits)
  obtain pv where pv: "map_of ps (fb_service b) = Some pv"
    using assms(2) p by (auto simp: finish_authorization_def op_elims provider_for_def split: option.splits)
  obtain r u where r: "te_exchange_code te pv code (fb_redirect_uri b) s = (r, u)" by fastforce
  from assms(2) obtain x where "r = Inr x" "store_oauth_secret w v p (fb_service b) x pv u = (Inr st, t)"
    by (cases r) (auto simp: finish_authorization_def txn_simps provider_for_def p pv r)
  with p pv r profile_get_key [OF p] show ?thesis by blast
qed

lemma begin_authorization_Inr:
  assumes "db_ok s" and "begin_authorization w ps a pn sn uri s = (Inr au, t)"
  obtains n sv pv where "normalize_profile_name pn = Inr n" "normalize_service_name sn = Inr sv" "map_of ps sv = Some pv"
    "au_url au = authorization_url pv uri (ev_token w)"
    "map_of (m_flows t) (ev_hash_token w (ev_token w)) = Some \<lparr>of_binding = \<lparr>fb_account_id = a, fb_profile = n,
       fb_service = sv, fb_kind = OAUTH2_AUTHORIZATION_CODE, fb_redirect_uri = uri\<rparr>, of_expires_at = au_expires_at au\<rparr>"
    "\<And>c. conn_get a n sv s = Some c \<Longrightarrow> is_usable c (ev_now w) \<Longrightarrow> t = s\<lparr>m_flows := m_flows t\<rparr>"
    "\<And>a' n' sv'. envelope_get a' n' sv' t = envelope_get a' n' sv' s"
    "\<And>a' n' sv'. (a', n', sv') \<noteq> (a, n, sv) \<Longrightarrow> conn_get a' n' sv' t = conn_get a' n' sv' s"
proof -
  obtain n p sv where n: "normalize_profile_name pn = Inr n" "profile_get a n s = Some p" and sv: "normalize_service_name sn = Inr sv"
    using assms(2) by (auto simp: begin_authorization_def Let_def op_elims get_profile_Inr)
  obtain pv where pv: "map_of ps sv = Some pv"
    using assms(2)
    by (cases "map_of ps sv") (auto simp: begin_authorization_def Let_def txn_simps get_profile_Some [OF n] sv provider_for_def)
  note p = profile_get_key [OF n(2)]
  define b where "b = \<lparr>fb_account_id = a, fb_profile = n, fb_service = sv, fb_kind = OAUTH2_AUTHORIZATION_CODE, fb_redirect_uri = uri\<rparr>"
  define ttl where "ttl = st_oauth_state_ttl_seconds (ev_settings w)"
  define s1 where "s1 = s\<lparr>m_flows := flow_issue (ev_hash_token w (ev_token w)) b ttl (ev_now w) (m_flows s)\<rparr>"
  define c where "c = \<lparr>co_service = sv, co_kind = OAUTH2_AUTHORIZATION_CODE, co_status = PENDING, co_created_at = ev_now w,
     co_updated_at = ev_now w, co_expires_at = None, co_scopes = [], co_stores_totp_seed = False, co_last_error = None\<rparr>"
  have conn: "connection_to p sv = conn_get a n sv s" by (rule connection_to_get [OF assms(1) n(2)])
  have rest: "db_ok s1" "\<And>a n sv. conn_get a n sv s1 = conn_get a n sv s" "t_secrets s1 = t_secrets s"
    using assms(1) by (simp_all add: s1_def conn_get_def)
  let ?put = "(case conn_get a n sv s of None \<Rightarrow> True | Some c \<Rightarrow> \<not> is_usable c (ev_now w))"
  have ttl_def': "st_oauth_state_ttl_seconds (ev_settings w) = ttl" by (simp add: ttl_def)
  have run: "begin_authorization w ps a pn sn uri s =
      andthen (if ?put then andthen (service_put_connection w p c (ev_now w)) (\<lambda>_. ret ()) else ret ())
        (\<lambda>_. ret \<lparr>au_url = authorization_url pv uri (ev_token w), au_expires_at = ev_now w + timedelta_s ttl\<rparr>) s1"
    unfolding begin_authorization_def Let_def ttl_def'
    by (simp add: andthen_simp reading_simp of_result_simp issue_state_simp get_profile_Some [OF n] sv provider_for_def pv ret_simp conn p
        flip: b_def c_def s1_def)
  have au: "au = \<lparr>au_url = authorization_url pv uri (ev_token w), au_expires_at = ev_now w + timedelta_s ttl\<rparr>"
    and step: "(if ?put then andthen (service_put_connection w p c (ev_now w)) (\<lambda>_. ret ()) else ret ()) s1 = (Inr (), t)"
    using assms(2) unfolding run by (auto simp: op_elims)
  show thesis
  proof (cases ?put)
    case False
    then have t: "t = s1" using step by (simp add: txn_simps)
    show thesis
      by (rule that [OF n(1) sv pv])
        (simp_all add: au t, simp_all add: s1_def flow_issue_def b_def ttl_def update_conv' envelope_get_def conn_get_def)
  next
    case True
    then obtain st where put: "put_connection a n c (st_max_connections_per_profile (ev_settings w)) (ev_now w) s1 = Inr (st, t)"
      using step p by (auto simp: op_elims service_put_connection_Inr)
    have flows: "m_flows t = m_flows s1"
      by (subst put_connection_Inr(6) [OF rest(1) put]) (simp add: touch_profile_def)
    show thesis
    proof (rule that [OF n(1) sv pv])
      show "au_url au = authorization_url pv uri (ev_token w)" by (simp add: au)
      show "map_of (m_flows t) (ev_hash_token w (ev_token w)) = Some \<lparr>of_binding = \<lparr>fb_account_id = a, fb_profile = n,
         fb_service = sv, fb_kind = OAUTH2_AUTHORIZATION_CODE, fb_redirect_uri = uri\<rparr>, of_expires_at = au_expires_at au\<rparr>"
        by (simp add: au flows) (simp add: s1_def flow_issue_def b_def update_conv')
      show "t = s\<lparr>m_flows := m_flows t\<rparr>" if "conn_get a n sv s = Some c'" "is_usable c' (ev_now w)" for c'
        using True that by simp
      show "envelope_get a' n' sv' t = envelope_get a' n' sv' s" for a' n' sv'
        using put_connection_secrets [OF rest(1) put] rest(3) by (intro envelope_same) simp
      show "conn_get a' n' sv' t = conn_get a' n' sv' s" if "(a', n', sv') \<noteq> (a, n, sv)" for a' n' sv'
        using put_connection_Inr(2) [OF rest(1) put, of a' n' sv'] that rest(2) by (auto simp: c_def split: if_splits)
    qed
  qed
qed

end
