(* ===== verification/CredentialChanges.thy ===== *)
theory CredentialChanges
  imports AccountService Renewal
begin

text \<open>
  \<^verbatim>\<open>src/src/keyring_api/credentials/changes.py\<close>: the policy around every change of a stored
  credential that somebody asks for. The owner's settings decide whether the password is
  needed again and whether the owner is told.
\<close>

section \<open>Who asks\<close>

definition SEND_YOUR_PASSWORD :: message where
  "SEND_YOUR_PASSWORD = [''this account asks for its password before a stored credential changes: send current_password with the request'']"

definition SERVICES_CANNOT :: message where
  "SERVICES_CANNOT = [''this account asks for its password before a stored credential changes, and a service cannot give it: the person must make this change with their own session'']"

definition NOT_GUESSED :: message where
  "NOT_GUESSED = [''one of your settings could not be read from settings-api and must not be guessed'']"

record requester =
  rq_origin :: change_origin
  rq_password :: "string option"

definition by_person :: "string option \<Rightarrow> requester" where
  "by_person password = \<lparr>rq_origin = PERSON, rq_password = password\<rparr>"

definition by_service :: requester where
  "by_service = \<lparr>rq_origin = SERVICE, rq_password = None\<rparr>"

definition by_administrator :: requester where
  "by_administrator = \<lparr>rq_origin = ADMINISTRATOR, rq_password = None\<rparr>"

section \<open>Admitting and announcing\<close>

definition admit :: "env \<Rightarrow> string \<Rightarrow> requester \<Rightarrow> ('z, preferences) vop" where
  "admit w account_id requester =
     andthen (of_result (for_account (ev_settings w) (ev_settings_api w) account_id)) (\<lambda>preferences.
     if rq_origin requester = ADMINISTRATOR then ret preferences
     else case rq_password requester of
       Some password \<Rightarrow> andthen (confirm_password w account_id password) (\<lambda>_. ret preferences)
     | None \<Rightarrow>
         (case pf_require_reauth preferences of
            None \<Rightarrow> raise (PreferencesUnavailableError NOT_GUESSED)
          | Some required \<Rightarrow>
              if required
              then raise (ReauthenticationRequiredError
                     (if rq_origin requester = SERVICE then SERVICES_CANNOT else SEND_YOUR_PASSWORD))
              else ret preferences))"

definition announce ::
  "env \<Rightarrow> string \<Rightarrow> preferences \<Rightarrow> credential_change \<Rightarrow> change_origin \<Rightarrow> ('z, unit) vop" where
  "announce w account_id preferences change origin =
     andthen (if announces_credential_changes preferences then reading (account_get account_id) else ret None) (\<lambda>found.
     case found of
       None \<Rightarrow> ret ()
     | Some account \<Rightarrow>
         andthen (enqueue w (CredentialChangeMessage (ac_email account) change origin (ev_now w))) (\<lambda>_. ret ()))"

section \<open>Changes\<close>

definition store_direct ::
  "env \<Rightarrow> vault \<Rightarrow> string \<Rightarrow> string \<Rightarrow> string \<Rightarrow> credential_kind \<Rightarrow> secret \<Rightarrow> bool \<Rightarrow> requester
    \<Rightarrow> ('z, connection) vop" where
  "store_direct w v account_id profile_name service_name kind secret stores_totp_seed requester =
     andthen (admit w account_id requester) (\<lambda>preferences.
     andthen (put_direct_credential w v account_id profile_name service_name kind secret stores_totp_seed) (\<lambda>c.
     andthen (announce w account_id preferences STORED (rq_origin requester)) (\<lambda>_.
     ret c)))"

definition change_begin_authorization ::
  "env \<Rightarrow> providers \<Rightarrow> string \<Rightarrow> string \<Rightarrow> string \<Rightarrow> string \<Rightarrow> requester \<Rightarrow> ('z, authorization) vop" where
  "change_begin_authorization w ps account_id profile_name service_name redirect_uri requester =
     andthen (admit w account_id requester) (\<lambda>_.
     begin_authorization w ps account_id profile_name service_name redirect_uri)"

definition change_complete_authorization ::
  "env \<Rightarrow> vault \<Rightarrow> providers \<Rightarrow> 'z token_endpoint \<Rightarrow> string \<Rightarrow> string \<Rightarrow> ('z, connection) vop" where
  "change_complete_authorization w v ps te state code =
     andthen (redeem_authorization w state) (\<lambda>binding.
     andthen (of_result (for_account (ev_settings w) (ev_settings_api w) (fb_account_id binding))) (\<lambda>preferences.
     andthen (finish_authorization w v ps te binding code) (\<lambda>c.
     andthen (announce w (fb_account_id binding) preferences STORED PROVIDER) (\<lambda>_.
     ret c))))"

definition change_remove_connection ::
  "env \<Rightarrow> string \<Rightarrow> string \<Rightarrow> string \<Rightarrow> requester \<Rightarrow> ('z, bool) vop" where
  "change_remove_connection w account_id profile_name service_name requester =
     andthen (admit w account_id requester) (\<lambda>preferences.
     andthen (revoke_connection w account_id profile_name service_name) (\<lambda>removed.
     andthen (if removed then announce w account_id preferences REMOVED (rq_origin requester) else ret ()) (\<lambda>_.
     ret removed)))"

definition remove_profile :: "env \<Rightarrow> string \<Rightarrow> string \<Rightarrow> requester \<Rightarrow> ('z, bool) vop" where
  "remove_profile w account_id name requester =
     andthen (handling is_profile_not_found (\<lambda>_. ret None)
       (andthen (get_profile account_id name) (\<lambda>p. ret (Some p)))) (\<lambda>found.
     case found of
       None \<Rightarrow> ret False
     | Some profile \<Rightarrow>
         andthen (if pr_connections profile \<noteq> []
                  then andthen (admit w account_id requester) (\<lambda>p. ret (Some p)) else ret None) (\<lambda>preferences.
         andthen (delete_profile account_id name) (\<lambda>removed.
         andthen (case preferences of
                    None \<Rightarrow> ret ()
                  | Some p \<Rightarrow> if removed then announce w account_id p REMOVED (rq_origin requester) else ret ()) (\<lambda>_.
         ret removed))))"

lemmas change_defs = store_direct_def change_begin_authorization_def change_complete_authorization_def
  change_remove_connection_def remove_profile_def

section \<open>What admitting does\<close>

lemma db_ok_keeps_confirm: "keeps db_ok (confirm_password w i pw)"
  by (rule keeps_db_service)

text \<open>Confirming a password writes the account and nothing of the vault.\<close>

definition vault_tables :: "'z db_scheme \<Rightarrow> profile_row list \<times> connection_row list \<times> secret_row list \<times> offline_grant list" where
  "vault_tables d = (t_profiles d, t_connections d, t_secrets d, t_offline_grants d)"

lemma vault_tables_rest [simp]:
  "vault_tables (s\<lparr>m_attempts := m\<rparr>) = vault_tables s" "vault_tables (s\<lparr>m_outbox := q\<rparr>) = vault_tables s"
  "vault_tables (s\<lparr>m_verifications := n\<rparr>) = vault_tables s" "vault_tables (u\<lparr>m_flows := fs\<rparr>) = vault_tables u"
  by (simp_all add: vault_tables_def)

lemma vault_tables_views:
  assumes "vault_tables t = vault_tables s"
  shows "conn_get a n sv t = conn_get a n sv s" "envelope_get a n sv t = envelope_get a n sv s"
    "profile_keys t = profile_keys s" "profile_get a n t = profile_get a n s"
  using assms
  by (simp_all add: vault_tables_def conn_get_def envelope_get_def profile_keys_def profile_get_fetch connections_of_def)

lemma account_save_vault: "account_save a d = Inr (u, d') \<Longrightarrow> vault_tables d' = vault_tables d"
  by (auto simp: account_save_def vault_tables_def split: if_splits sum.splits dest!: write_roles_Inr(1))

lemma keeps_vault_tables_confirm:
  "keeps (\<lambda>s. vault_tables s = V) (confirm_password w i pw)"
proof -
  have save: "keeps (\<lambda>s :: 'z sys_scheme. vault_tables s = V) (transact (account_save a))" for a
    by (rule keeps_transact) (simp add: account_save_vault)
  show ?thesis unfolding confirm_password_def Let_def by (intro keeps_intros save) simp_all
qed

lemma account_save_more: "account_save a d = Inr (u, d') \<Longrightarrow> db.more d' = db.more d"
  by (rule txn_more(2))

lemma keeps_flows_confirm:
  fixes V :: flows
  shows "keeps (\<lambda>s. m_flows s = V) (confirm_password w i pw :: ('z, unit) vop)"
proof -
  have save: "keeps (\<lambda>s :: 'z vsys_scheme. m_flows s = V) (transact (account_save a))" for a
  proof (rule keeps_transact)
    fix s :: "'z vsys_scheme" and x t assume s: "m_flows s = V" "account_save a s = Inr (x, t)"
    then have "only_tables s t" by (simp add: only_tables_more txn_more(2))
    then have "m_flows t = m_flows s" unfolding only_tables_def by (rule ssubst) simp
    with s show "m_flows t = V" by simp
  qed
  have rest: "m_flows (s\<lparr>m_verifications := n\<rparr>) = m_flows s" for s :: "'z vsys_scheme" and n by simp
  show ?thesis unfolding confirm_password_def Let_def by (intro keeps_intros save) (simp_all add: rest)
qed

text \<open>Somebody may change this account's credentials.\<close>

definition knows_password :: "env \<Rightarrow> string \<Rightarrow> string \<Rightarrow> 'z db_scheme \<Rightarrow> bool" where
  "knows_password w account_id password d =
     (case account_get account_id d of
        None \<Rightarrow> False
      | Some a \<Rightarrow> \<not> is_locked a (ev_now w) \<and> ac_status a = ACTIVE \<and> hasher_verify w (ac_password_hash a) password)"

definition admitted :: "env \<Rightarrow> string \<Rightarrow> requester \<Rightarrow> 'z db_scheme \<Rightarrow> bool" where
  "admitted w account_id requester d =
     (case for_account (ev_settings w) (ev_settings_api w) account_id of
        Inl e \<Rightarrow> False
      | Inr prefs \<Rightarrow>
          rq_origin requester = ADMINISTRATOR \<or>
          (case rq_password requester of
             Some password \<Rightarrow> knows_password w account_id password d
           | None \<Rightarrow> pf_require_reauth prefs = Some False))"

lemma confirm_password_knows:
  "confirm_password w i pw s = (Inr u, t) \<Longrightarrow> knows_password w i pw s"
  by (auto simp: confirm_password_def Let_def verify_dummy_def verify_password_def knows_password_def op_elims
      split: option.splits if_splits)

lemma admit_Inr:
  assumes "admit w a r s = (Inr prefs, t)"
  shows "admitted w a r s" and "for_account (ev_settings w) (ev_settings_api w) a = Inr prefs"
proof -
  show pr: "for_account (ev_settings w) (ev_settings_api w) a = Inr prefs"
    using assms by (auto simp: admit_def op_elims split: if_splits option.splits)
  show "admitted w a r s"
    using assms
    by (auto simp: admit_def op_elims admitted_def pr dest!: confirm_password_knows split: if_splits option.splits)
qed

lemma admit_keeps:
  "keeps (\<lambda>s. vault_tables s = V) (admit w a r)" "keeps db_ok (admit w a r)" "keeps (\<lambda>s. m_flows s = fs) (admit w a r)"
  unfolding admit_def
  by (intro keeps_intros keeps_vault_tables_confirm db_ok_keeps_confirm keeps_flows_confirm)+

lemma announce_keeps:
  "keeps (\<lambda>s. vault_tables s = V) (announce w a p c r)" "keeps db_ok (announce w a p c r)"
  "keeps (\<lambda>s. m_flows s = fs) (announce w a p c r)"
  unfolding announce_def by (intro keeps_intros | simp)+

text \<open>A refused change leaves every credential as it was.\<close>

lemma admit_vault:
  "vault_tables (snd (admit w a r s)) = vault_tables s" "m_flows (snd (admit w a r s)) = m_flows s"
  "db_ok s \<Longrightarrow> db_ok (snd (admit w a r s))"
  by (rule admit_keeps(1) [unfolded keeps_def, rule_format, OF refl],
    rule admit_keeps(3) [unfolded keeps_def, rule_format, OF refl],
    rule admit_keeps(2) [unfolded keeps_def, rule_format])

lemma not_admitted_Inl:
  assumes "\<not> admitted w a r s"
  obtains e t where "admit w a r s = (Inl e, t)"
  using admit_Inr(1) [of w a r s] assms by (metis old.sum.exhaust surj_pair)

lemma gated:
  assumes "\<not> admitted w a r s"
  shows "vault_tables (snd (andthen (admit w a r) f s)) = vault_tables s"
    and "m_flows (snd (andthen (admit w a r) f s)) = m_flows s"
    and "\<exists>e. fst (andthen (admit w a r) f s) = Inl e"
proof -
  obtain e t where t: "admit w a r s = (Inl e, t)" by (rule not_admitted_Inl [OF assms])
  then have "vault_tables t = vault_tables s" "m_flows t = m_flows s"
    using admit_vault(1,2) [of w a r s] by simp_all
  with t show "vault_tables (snd (andthen (admit w a r) f s)) = vault_tables s"
    "m_flows (snd (andthen (admit w a r) f s)) = m_flows s"
    "\<exists>e. fst (andthen (admit w a r) f s) = Inl e"
    by (simp_all add: txn_simps)
qed

end
