(* ===== verification/Kinds.thy ===== *)
theory Kinds
  imports CredentialService "HOL-Library.Word"
begin

unbundle bit_operations_syntax

text \<open>
  \<^verbatim>\<open>src/src/keyring_api/credentials/kinds.py\<close> and \<^verbatim>\<open>credentials/totp.py\<close>: what a stored secret
  becomes when it is used: a header, a query parameter or the fields of a login form with the
  one-time code of the moment. HMAC-SHA1 is an argument.
\<close>

section \<open>Reading a secret\<close>

text \<open>Python truth of a member; \<open>JOther\<close> holds the JSON text of a float, a list or an object.\<close>

fun truthy :: "json option \<Rightarrow> bool" where
  "truthy None = False"
| "truthy (Some JNull) = False"
| "truthy (Some (JBool b)) = b"
| "truthy (Some (JInt n)) = (n \<noteq> 0)"
| "truthy (Some (JStr t)) = (t \<noteq> [])"
| "truthy (Some (JOther t)) = (t \<notin> {''[]'', ''{}'', ''0.0'', ''-0.0''})"

definition field_or :: "secret \<Rightarrow> string \<Rightarrow> string \<Rightarrow> json" where
  "field_or s k d = (case secret_field s k of None \<Rightarrow> JStr d | Some x \<Rightarrow> x)"

definition require_field :: "secret \<Rightarrow> string \<Rightarrow> string result" where
  "require_field s field =
     (case as_str (secret_field s field) of
        Some t \<Rightarrow> (if t = [] then Inl (CredentialUnavailableError [''stored credential is missing '', py_repr field])
                   else Inr t)
      | None \<Rightarrow> Inl (CredentialUnavailableError [''stored credential is missing '', py_repr field]))"

section \<open>Header templates\<close>

text \<open>
  \<open>template.format(value=value)\<close>. A field that is more than a name (a conversion, a format
  specification, an attribute or an index) is left to \<open>special\<close>, which stands for the rest of
  \<open>str.format\<close>.
\<close>

datatype format_outcome =
    Formatted string
  | RaisesLookup \<comment> \<open>\<open>IndexError\<close>, \<open>KeyError\<close> or \<open>ValueError\<close>\<close>
  | RaisesOther \<comment> \<open>\<open>AttributeError\<close> or \<open>TypeError\<close>, from \<open>{value.x}\<close> and \<open>{value[x]}\<close>\<close>

definition emit :: "string \<Rightarrow> format_outcome option \<Rightarrow> format_outcome option" where
  "emit t r = (case r of Some (Formatted u) \<Rightarrow> Some (Formatted (t @ u)) | x \<Rightarrow> x)"

function format_plain :: "string \<Rightarrow> string \<Rightarrow> format_outcome option" where
  "format_plain key [] = Some (Formatted [])"
| "format_plain key (c # cs) =
     (if c = CHR ''{'' then
        (if cs \<noteq> [] \<and> hd cs = CHR ''{'' then emit ''{'' (format_plain key (tl cs))
         else let name = takeWhile (\<lambda>d. d \<noteq> CHR ''}'') cs; rest = dropWhile (\<lambda>d. d \<noteq> CHR ''}'') cs in
           if list_ex (\<lambda>d. d \<in> set ''{!:.['') name then None
           else if rest = [] then Some RaisesLookup
           else if name \<noteq> ''value'' then Some RaisesLookup
           else emit key (format_plain key (tl rest)))
      else if c = CHR ''}'' then
        (if cs \<noteq> [] \<and> hd cs = CHR ''}'' then emit ''}'' (format_plain key (tl cs))
         else Some RaisesLookup)
      else emit [c] (format_plain key cs))"
  by pat_completeness auto
termination
proof (relation "measure (length \<circ> snd)", goal_cases)
  case (3 key c cs x xa)
  then have "length xa \<le> length cs" by (simp add: length_dropWhile_le)
  then show ?case by simp
qed auto

definition py_format :: "(string \<Rightarrow> string \<Rightarrow> format_outcome) \<Rightarrow> string \<Rightarrow> string \<Rightarrow> format_outcome" where
  "py_format special template key =
     (case format_plain key template of None \<Rightarrow> special template key | Some r \<Rightarrow> r)"

definition apply_template :: "(string \<Rightarrow> string \<Rightarrow> format_outcome) \<Rightarrow> string \<Rightarrow> string \<Rightarrow> string result" where
  "apply_template special template key =
     (case py_format special template key of
        Formatted t \<Rightarrow> Inr t
      | RaisesLookup \<Rightarrow> Inl (CredentialUnavailableError [''stored credential has a malformed header template''])
      | RaisesOther \<Rightarrow> Inl (Unhandled [''AttributeError or TypeError'']))"

section \<open>API keys\<close>

definition BEARER_HEADER :: string where "BEARER_HEADER = ''Authorization''"
definition DEFAULT_API_KEY_HEADER :: string where "DEFAULT_API_KEY_HEADER = ''Authorization''"
definition DEFAULT_API_KEY_TEMPLATE :: string where "DEFAULT_API_KEY_TEMPLATE = ''Bearer {value}''"

definition api_key_headers :: "(string \<Rightarrow> string \<Rightarrow> format_outcome) \<Rightarrow> secret \<Rightarrow> (string \<times> string) list result" where
  "api_key_headers special s =
     (case (field_or s ''header'' DEFAULT_API_KEY_HEADER, field_or s ''template'' DEFAULT_API_KEY_TEMPLATE) of
        (JStr header, JStr template) \<Rightarrow>
          if truthy (secret_field s ''in_query'') then Inr []
          else (case require_field s ''api_key'' of
                  Inl e \<Rightarrow> Inl e
                | Inr key \<Rightarrow> (case apply_template special template key of
                                Inl e \<Rightarrow> Inl e | Inr t \<Rightarrow> Inr [(header, t)]))
      | _ \<Rightarrow> Inl (CredentialUnavailableError [''stored credential has a malformed header configuration'']))"

definition api_key_query_params :: "secret \<Rightarrow> (string \<times> string) list result" where
  "api_key_query_params s =
     (if \<not> truthy (secret_field s ''in_query'') then Inr []
      else (case field_or s ''query_name'' ''api_key'' of
              JStr name \<Rightarrow> (case require_field s ''api_key'' of Inl e \<Rightarrow> Inl e | Inr key \<Rightarrow> Inr [(name, key)])
            | _ \<Rightarrow> Inl (CredentialUnavailableError [''stored credential has a malformed query parameter name''])))"

section \<open>OAuth\<close>

definition bearer_headers :: "secret \<Rightarrow> (string \<times> string) list result" where
  "bearer_headers s =
     (case field_or s ''token_type'' ''Bearer'' of
        JStr token_type \<Rightarrow>
          (case require_field s ''access_token'' of
             Inl e \<Rightarrow> Inl e | Inr t \<Rightarrow> Inr [(BEARER_HEADER, token_type @ '' '' @ t)])
      | _ \<Rightarrow> Inl (CredentialUnavailableError [''stored credential has a malformed token type'']))"

text \<open>\<open>headers()\<close> of either HTTP credential; a token that is due is renewed first.\<close>

definition credential_headers ::
  "(string \<Rightarrow> string \<Rightarrow> format_outcome) \<Rightarrow> env \<Rightarrow> vault \<Rightarrow> providers \<Rightarrow> 'z token_endpoint \<Rightarrow> http_credential
    \<Rightarrow> ('z, (string \<times> string) list) vop" where
  "credential_headers special w v ps te credential =
     (case credential of
        ApiKeyCredential s \<Rightarrow> of_result (api_key_headers special s)
      | OAuth2Credential s due profile c \<Rightarrow>
          andthen (if due then refresh w v ps te profile c s else ret s) (\<lambda>current.
          of_result (bearer_headers current)))"

definition credential_query_params :: "http_credential \<Rightarrow> (string \<times> string) list result" where
  "credential_query_params credential =
     (case credential of ApiKeyCredential s \<Rightarrow> api_key_query_params s | OAuth2Credential s d p c \<Rightarrow> Inr [])"

section \<open>One-time codes\<close>

definition DEFAULT_DIGITS :: nat where "DEFAULT_DIGITS = 6"
definition DEFAULT_PERIOD_SECONDS :: nat where "DEFAULT_PERIOD_SECONDS = 30"

text \<open>\<open>str.upper\<close> below 256: one letter becomes two, and two leave the range and stay non-ASCII.\<close>

definition upper_char :: "char \<Rightarrow> string" where
  "upper_char c =
     (let n = code_of c in
      if 97 \<le> n \<and> n \<le> 122 then [char_of (n - 32)]
      else if n = 223 then ''SS''
      else if 224 \<le> n \<and> n \<le> 254 \<and> n \<noteq> 247 then [char_of (n - 32)]
      else [c])"

definition upper :: "string \<Rightarrow> string" where
  "upper s = concat (map upper_char s)"

definition b32_digit :: "char \<Rightarrow> nat option" where
  "b32_digit c =
     (let n = code_of c in
      if 65 \<le> n \<and> n \<le> 90 then Some (n - 65)
      else if 50 \<le> n \<and> n \<le> 55 then Some (n - 24)
      else None)"

text \<open>One quantum of at most eight digits, read as a number.\<close>

fun b32_number :: "nat \<Rightarrow> string \<Rightarrow> nat option" where
  "b32_number acc [] = Some acc"
| "b32_number acc (c # cs) = (case b32_digit c of None \<Rightarrow> None | Some d \<Rightarrow> b32_number (acc * 32 + d) cs)"

definition to_bytes_5 :: "nat \<Rightarrow> bytes" where
  "to_bytes_5 n = map (\<lambda>i. word_of_nat (n div 256 ^ i)) [4, 3, 2, 1, 0]"

function b32_quanta :: "string \<Rightarrow> (bytes list \<times> nat) option" where
  "b32_quanta [] = Some ([], 0)"
| "b32_quanta (c # cs) =
     (case b32_number 0 (take 8 (c # cs)) of
        None \<Rightarrow> None
      | Some acc \<Rightarrow>
          (case b32_quanta (drop 8 (c # cs)) of
             None \<Rightarrow> None
           | Some (qs, last_acc) \<Rightarrow> Some (to_bytes_5 acc # qs, if qs = [] then acc else last_acc)))"
  by pat_completeness auto
termination by (relation "measure length") auto

text \<open>
  \<open>base64.b32decode(padded, casefold=True)\<close>; \<open>None\<close>: it raises \<open>binascii.Error\<close> or
  \<open>ValueError\<close>. The last quantum is shifted by the padding and cut.
\<close>

definition b32decode :: "string \<Rightarrow> bytes option" where
  "b32decode padded =
     (if list_ex (\<lambda>c. code_of c \<ge> 128) padded then None
      else if length padded mod 8 \<noteq> 0 then None
      else
        let body = rev (dropWhile (\<lambda>c. c = CHR ''='') (rev (upper padded)));
            padchars = length padded - length body
        in case b32_quanta body of
             None \<Rightarrow> None
           | Some (qs, acc) \<Rightarrow>
               if padchars \<notin> {0, 1, 3, 4, 6} then None
               else if padchars \<noteq> 0 \<and> qs \<noteq> []
               then Some (concat (butlast qs)
                      @ take ((43 - 5 * padchars) div 8) (to_bytes_5 (acc * 32 ^ padchars)))
               else Some (concat qs))"

definition decode_seed :: "string \<Rightarrow> bytes option" where
  "decode_seed seed =
     (let cleaned = upper (filter (\<lambda>c. c \<noteq> CHR ''-'') (filter (\<lambda>c. c \<noteq> CHR '' '') seed)) in
      b32decode (cleaned @ replicate (nat ((- int (length cleaned)) mod 8)) CHR ''=''))"

text \<open>\<open>struct.pack(">Q", counter)\<close> raises \<open>struct.error\<close> outside 64 bits.\<close>

definition pack_Q :: "nat \<Rightarrow> bytes" where
  "pack_Q n = map (\<lambda>i. word_of_nat (n div 256 ^ i)) [7, 6, 5, 4, 3, 2, 1, 0]"

definition unpack_I :: "bytes \<Rightarrow> 32 word" where
  "unpack_I bs = foldl (\<lambda>acc b. push_bit 8 acc OR ucast b) 0 bs"

definition zfill :: "nat \<Rightarrow> string \<Rightarrow> string" where
  "zfill k t = replicate (k - length t) CHR ''0'' @ t"

definition truncated :: "bytes \<Rightarrow> 32 word" where
  "truncated digest =
     (let offset = unat (last digest AND 0x0F) in
      unpack_I (take 4 (drop offset digest)) AND 0x7FFFFFFF)"

definition totp_code :: "(bytes \<Rightarrow> bytes \<Rightarrow> bytes) \<Rightarrow> string \<Rightarrow> rat \<Rightarrow> string result option" where
  "totp_code hmac_sha1 seed unix_time =
     (case decode_seed seed of
        None \<Rightarrow> None \<comment> \<open>raises \<open>ValueError\<close>\<close>
      | Some key \<Rightarrow>
          let counter = \<lfloor>unix_time / of_nat DEFAULT_PERIOD_SECONDS\<rfloor> in
          if counter < 0 \<or> counter \<ge> 2 ^ 64 then Some (Inl (Unhandled [''struct.error'']))
          else Some (Inr (zfill DEFAULT_DIGITS
                 (str_nat (unat (truncated (hmac_sha1 key (pack_Q (nat counter)))) mod 10 ^ DEFAULT_DIGITS)))))"

section \<open>Form logins\<close>

definition password_fields :: "(bytes \<Rightarrow> bytes \<Rightarrow> bytes) \<Rightarrow> secret \<Rightarrow> rat \<Rightarrow> (string \<times> string) list result" where
  "password_fields hmac_sha1 s unix_time =
     (case require_field s ''username'' of
        Inl e \<Rightarrow> Inl e
      | Inr username \<Rightarrow>
          (case require_field s ''password'' of
             Inl e \<Rightarrow> Inl e
           | Inr password \<Rightarrow>
               (case as_str (secret_field s ''totp_seed'') of
                  None \<Rightarrow> Inr [(''username'', username), (''password'', password)]
                | Some seed \<Rightarrow>
                    if seed = [] then Inr [(''username'', username), (''password'', password)]
                    else (case totp_code hmac_sha1 seed unix_time of
                            None \<Rightarrow> Inl (CredentialUnavailableError [''stored TOTP seed could not be used''])
                          | Some (Inl e) \<Rightarrow> Inl e
                          | Some (Inr code) \<Rightarrow>
                              Inr [(''username'', username), (''password'', password), (''totp'', code)]))))"

section \<open>Facts\<close>

lemma format_plain_text:
  "list_all (\<lambda>c. c \<notin> set ''{}'') t \<Longrightarrow> format_plain key (t @ u) = emit t (format_plain key u)"
proof (induction t)
  case Nil
  show ?case by (cases "format_plain key u") (simp_all add: emit_def split: format_outcome.split)
next
  case (Cons c t)
  then show ?case by (auto simp: emit_def split: option.splits format_outcome.splits)
qed

text \<open>The shape the API accepts: one \<open>{value}\<close> and no other brace.\<close>

lemma template_applied:
  assumes "list_all (\<lambda>c. c \<notin> set ''{}'') pre" and "list_all (\<lambda>c. c \<notin> set ''{}'') post"
  shows "apply_template special (pre @ ''{value}'' @ post) key = Inr (pre @ key @ post)"
proof -
  have "format_plain key post = Some (Formatted post)"
    using format_plain_text [OF assms(2), of key "[]"] by (simp add: emit_def)
  then have "format_plain key (''{value}'' @ post) = Some (Formatted (key @ post))"
    by (simp add: emit_def)
  then show ?thesis
    by (simp add: apply_template_def py_format_def format_plain_text [OF assms(1)] emit_def)
qed

lemma str_nat_digits: "n < 10 ^ k \<Longrightarrow> 0 < k \<Longrightarrow> length (str_nat n) \<le> k \<and> list_all (\<lambda>c. 48 \<le> code_of c \<and> code_of c \<le> 57) (str_nat n)"
proof (induction n arbitrary: k rule: str_nat.induct)
  case (1 n)
  show ?case
  proof (cases "n < 10")
    case True
    then show ?thesis using 1(3) by (simp add: str_nat.simps [of n] code_of_char_of)
  next
    case False
    then obtain j where k: "k = Suc j" "0 < j" using 1(2,3) by (cases k; cases "k = 1") auto
    have "n div 10 < 10 ^ j" using 1(2) k(1) by (simp add: less_mult_imp_div_less)
    from 1(1) [OF False this k(2)] show ?thesis using False k(1)
      by (simp add: str_nat.simps [of n] code_of_char_of)
  qed
qed

lemma totp_code_digits:
  assumes "totp_code h seed t = Some (Inr code)"
  shows "length code = DEFAULT_DIGITS \<and> list_all (\<lambda>c. 48 \<le> code_of c \<and> code_of c \<le> 57) code"
proof -
  obtain n where "code = zfill DEFAULT_DIGITS (str_nat (n mod 10 ^ DEFAULT_DIGITS))"
    using assms by (auto simp: totp_code_def Let_def split: option.splits if_splits)
  moreover have "n mod 10 ^ DEFAULT_DIGITS < 10 ^ DEFAULT_DIGITS" "0 < DEFAULT_DIGITS"
    by (simp_all add: DEFAULT_DIGITS_def)
  note str_nat_digits [OF this]
  ultimately show ?thesis by (auto simp: zfill_def list_all_iff code_of_def)
qed

text \<open>The four bytes are inside a digest of twenty.\<close>

lemma truncation_in_range:
  assumes "length digest = 20"
  shows "length (take 4 (drop (unat (last digest AND 0x0F :: 8 word)) digest)) = 4"
proof -
  have "last digest AND 0x0F \<le> (0x0F :: 8 word)" by (rule word_and_le1)
  then have "unat (last digest AND 0x0F :: 8 word) \<le> 15" by (simp add: word_le_nat_alt)
  with assms show ?thesis by simp
qed

end
