(* ===== verification/VaultRequests.thy ===== *)
theory VaultRequests
  imports CredentialChanges Kinds
begin

text \<open>
  The handlers of \<^verbatim>\<open>api/routers/profiles.py\<close>, \<^verbatim>\<open>oauth.py\<close> and \<^verbatim>\<open>internal.py\<close> over the credential
  services, once the caller is known, and sequences of requests by any accounts.
\<close>

section \<open>Storing an API key or a form login\<close>

record api_key_request =
  ak_api_key :: string
  ak_header :: string
  ak_template :: string
  ak_in_query :: bool
  ak_query_name :: string
  ak_current_password :: "string option"

text \<open>The bounds and the pattern of \<open>PutApiKeyRequest\<close>: \<open>^[^{}]*\{value\}[^{}]*$\<close>.\<close>

definition template_pattern :: "string \<Rightarrow> bool" where
  "template_pattern t =
     (let pre = takeWhile (\<lambda>c. c \<notin> set ''{}'') t; rest = dropWhile (\<lambda>c. c \<notin> set ''{}'') t in
      take 7 rest = ''{value}'' \<and> list_all (\<lambda>c. c \<notin> set ''{}'') (drop 7 rest))"

text \<open>\<open>current_password_field\<close>: the password entered again, when it is sent.\<close>

definition valid_confirmation :: "string option \<Rightarrow> bool" where
  "valid_confirmation password =
     (case password of None \<Rightarrow> True | Some p \<Rightarrow> 1 \<le> length p \<and> length p \<le> MAX_PASSWORD_LENGTH)"

definition valid_api_key_request :: "api_key_request \<Rightarrow> bool" where
  "valid_api_key_request b \<longleftrightarrow>
     1 \<le> length (ak_api_key b) \<and> length (ak_api_key b) \<le> 4096 \<and> length (ak_header b) \<le> 64
     \<and> length (ak_template b) \<le> 128 \<and> template_pattern (ak_template b) \<and> length (ak_query_name b) \<le> 64
     \<and> valid_confirmation (ak_current_password b)"

definition api_key_secret :: "api_key_request \<Rightarrow> secret" where
  "api_key_secret b =
     [(''api_key'', JStr (ak_api_key b)), (''header'', JStr (ak_header b)), (''template'', JStr (ak_template b)),
      (''in_query'', JBool (ak_in_query b)), (''query_name'', JStr (ak_query_name b))]"

definition put_api_key ::
  "env \<Rightarrow> vault \<Rightarrow> string \<Rightarrow> string \<Rightarrow> string \<Rightarrow> api_key_request \<Rightarrow> ('z, connection) vop" where
  "put_api_key w v account_id name service body =
     store_direct w v account_id name service API_KEY (api_key_secret body) False
       (by_person (ak_current_password body))"

record password_request =
  pw_username :: string
  pw_password :: string
  pw_totp_seed :: "string option"
  pw_current_password :: "string option"

definition valid_password_request :: "password_request \<Rightarrow> bool" where
  "valid_password_request b \<longleftrightarrow>
     1 \<le> length (pw_username b) \<and> length (pw_username b) \<le> 512 \<and> 1 \<le> length (pw_password b)
     \<and> length (pw_password b) \<le> 1024
     \<and> (case pw_totp_seed b of None \<Rightarrow> True | Some seed \<Rightarrow> length seed \<le> 512)
     \<and> valid_confirmation (pw_current_password b)"

definition password_secret :: "password_request \<Rightarrow> secret" where
  "password_secret b =
     [(''username'', JStr (pw_username b)), (''password'', JStr (pw_password b))]
     @ (case pw_totp_seed b of None \<Rightarrow> [] | Some seed \<Rightarrow> if seed = [] then [] else [(''totp_seed'', JStr seed)])"

definition put_password ::
  "env \<Rightarrow> vault \<Rightarrow> string \<Rightarrow> string \<Rightarrow> string \<Rightarrow> password_request \<Rightarrow> ('z, connection) vop" where
  "put_password w v account_id name service body =
     store_direct w v account_id name service PASSWORD (password_secret body)
       (case pw_totp_seed body of None \<Rightarrow> False | Some seed \<Rightarrow> seed \<noteq> [])
       (by_person (pw_current_password body))"

section \<open>The other handlers\<close>

definition delete_profile_route :: "env \<Rightarrow> string \<Rightarrow> string \<Rightarrow> string option \<Rightarrow> ('z, unit) vop" where
  "delete_profile_route w account_id name password =
     andthen (remove_profile w account_id name (by_person password)) (\<lambda>removed.
     guard removed (ProfileNotFoundError NO_SUCH_PROFILE))"

definition delete_connection :: "env \<Rightarrow> string \<Rightarrow> string \<Rightarrow> string \<Rightarrow> string option \<Rightarrow> ('z, unit) vop" where
  "delete_connection w account_id name service password =
     andthen (change_remove_connection w account_id name service (by_person password)) (\<lambda>removed.
     guard removed (ConnectionNotFoundError NO_SUCH_CONNECTION))"

definition authorize_connection ::
  "env \<Rightarrow> providers \<Rightarrow> string \<Rightarrow> string \<Rightarrow> string \<Rightarrow> string \<Rightarrow> string option \<Rightarrow> ('z, authorization) vop" where
  "authorize_connection w ps redirect_uri account_id name service password =
     change_begin_authorization w ps account_id name service redirect_uri (by_person password)"

record resolved_credential =
  rc_service :: string
  rc_headers :: "(string \<times> string) list"
  rc_query_params :: "(string \<times> string) list"
  rc_expires_at :: "int option"

definition resolve_credential ::
  "(string \<Rightarrow> string \<Rightarrow> format_outcome) \<Rightarrow> env \<Rightarrow> vault \<Rightarrow> providers \<Rightarrow> 'z token_endpoint \<Rightarrow> string
    \<Rightarrow> string \<Rightarrow> string \<Rightarrow> ('z, resolved_credential) vop" where
  "resolve_credential special w v ps te account_id name service =
     andthen (resolve_http_auth w v account_id name service) (\<lambda>credential.
     andthen (credential_headers special w v ps te credential) (\<lambda>headers.
     andthen (of_result (credential_query_params credential)) (\<lambda>params.
     andthen (case credential of
                ApiKeyCredential s \<Rightarrow> ret None
              | OAuth2Credential s d p c \<Rightarrow>
                  andthen (get_profile account_id name) (\<lambda>record.
                  ret (case connection_to record service of None \<Rightarrow> None | Some now \<Rightarrow> co_expires_at now)))
       (\<lambda>expires_at.
     ret \<lparr>rc_service = service, rc_headers = headers, rc_query_params = params, rc_expires_at = expires_at\<rparr>))))"

definition resolve_form ::
  "(bytes \<Rightarrow> bytes \<Rightarrow> bytes) \<Rightarrow> rat \<Rightarrow> vault \<Rightarrow> string \<Rightarrow> string \<Rightarrow> string \<Rightarrow> ('z, (string \<times> string) list) vop" where
  "resolve_form hmac_sha1 unix_time v account_id name service =
     andthen (resolve_form_secrets v account_id name service) (\<lambda>s.
     of_result (password_fields hmac_sha1 s unix_time))"

section \<open>Sequences of requests\<close>

record 'z world =
  wo_env :: env
  wo_vault :: vault
  wo_providers :: providers
  wo_endpoint :: "'z token_endpoint"
  wo_special :: "string \<Rightarrow> string \<Rightarrow> format_outcome"
  wo_hmac_sha1 :: "bytes \<Rightarrow> bytes \<Rightarrow> bytes"
  wo_unix_time :: rat

datatype vault_request =
    CreateProfile string string
  | DeleteProfile string string "string option"
  | PutApiKey string string string api_key_request
  | PutPassword string string string password_request
  | Authorize string string string string "string option"
  | Callback string string
  | DeleteConnection string string string "string option"
  | ResolveCredential string string string
  | ResolveForm string string string
  | SweepStates

fun handle_vault :: "'z world \<Rightarrow> vault_request \<Rightarrow> ('z, unit) vop" where
  "handle_vault u (CreateProfile a n) = andthen (create_profile (wo_env u) a n) (\<lambda>_. ret ())"
| "handle_vault u (DeleteProfile a n pw) = delete_profile_route (wo_env u) a n pw"
| "handle_vault u (PutApiKey a n sv b) =
     andthen (guard (valid_api_key_request b) (Unhandled [''422''])) (\<lambda>_.
     andthen (put_api_key (wo_env u) (wo_vault u) a n sv b) (\<lambda>_. ret ()))"
| "handle_vault u (PutPassword a n sv b) =
     andthen (guard (valid_password_request b) (Unhandled [''422''])) (\<lambda>_.
     andthen (put_password (wo_env u) (wo_vault u) a n sv b) (\<lambda>_. ret ()))"
| "handle_vault u (Authorize a n sv uri pw) =
     andthen (authorize_connection (wo_env u) (wo_providers u) uri a n sv pw) (\<lambda>_. ret ())"
| "handle_vault u (Callback st code) =
     andthen (change_complete_authorization (wo_env u) (wo_vault u) (wo_providers u) (wo_endpoint u) st code) (\<lambda>_. ret ())"
| "handle_vault u (DeleteConnection a n sv pw) = delete_connection (wo_env u) a n sv pw"
| "handle_vault u (ResolveCredential a n sv) =
     andthen (resolve_credential (wo_special u) (wo_env u) (wo_vault u) (wo_providers u) (wo_endpoint u) a n sv) (\<lambda>_. ret ())"
| "handle_vault u (ResolveForm a n sv) =
     andthen (resolve_form (wo_hmac_sha1 u) (wo_unix_time u) (wo_vault u) a n sv) (\<lambda>_. ret ())"
| "handle_vault u SweepStates = andthen (sweep_states (wo_env u)) (\<lambda>_. ret ())"

fun vault_run :: "('z world \<times> vault_request) list \<Rightarrow> 'z vsys_scheme \<Rightarrow> 'z vsys_scheme" where
  "vault_run [] s = s"
| "vault_run ((u, q) # qs) s = vault_run qs (snd (handle_vault u q s))"

lemma vault_run_keeps:
  assumes "\<And>u q. (u, q) \<in> set qs \<Longrightarrow> keeps P (handle_vault u q)" and "P s"
  shows "P (vault_run qs s)"
  using assms
proof (induction qs arbitrary: s)
  case (Cons uq qs)
  obtain u q where uq: "uq = (u, q)" by fastforce
  have "P (snd (handle_vault u q s))" using Cons.prems uq by (auto simp: keeps_def)
  then have "P (vault_run qs (snd (handle_vault u q s)))" using Cons.prems(1) by (intro Cons.IH) auto
  then show ?case by (simp add: uq)
qed simp

section \<open>No request leaves a secret without its connection\<close>

lemma vault_tables_covered:
  assumes "vault_tables t = vault_tables s" and "covered s" and "db_ok t"
  shows "covered t"
  using assms by (auto simp: covered_def vault_tables_views [OF assms(1)])

lemma keeps_covered_frame:
  fixes m :: "('e, 'z db_scheme, 'a) op"
  assumes "\<And>V. keeps (\<lambda>s. vault_tables s = V) m" and "keeps db_ok m"
  shows "keeps covered m"
proof (rule keepsI)
  fix s :: "'z db_scheme" assume s: "covered s"
  show "covered (snd (m s))"
  proof (rule vault_tables_covered [OF _ s])
    show "vault_tables (snd (m s)) = vault_tables s" using assms(1) [of "vault_tables s"] by (simp add: keeps_def)
    show "db_ok (snd (m s))" using assms(2) covered_ok [OF s] by (simp add: keeps_def)
  qed
qed

lemma keeps_covered_gate [keeps_intros]:
  "keeps covered (admit w a r)" "keeps covered (announce w a p c g)"
  by (rule keeps_covered_frame, rule admit_keeps(1) announce_keeps(1), rule admit_keeps(2) announce_keeps(2))+

lemma keeps_covered_changes:
  "keeps covered (store_direct w v a n sv k x tt r)" "keeps covered (change_begin_authorization w ps a n sv uri r)"
  "keeps covered (change_remove_connection w a n sv r)" "keeps covered (remove_profile w a n r)"
  unfolding change_defs Let_def by (intro keeps_intros keeps_covered_credentials)+

lemma keeps_covered_complete:
  assumes "\<And>p c u. keeps covered (te_exchange_code te p c u)"
  shows "keeps covered (change_complete_authorization w v ps te st code)"
  unfolding change_defs finish_authorization_def Let_def
  by (intro keeps_intros keeps_covered_credentials assms)

lemma keeps_case_credential [keeps_intros]:
  "(\<And>s. keeps P (f s)) \<Longrightarrow> (\<And>s d p c. keeps P (g s d p c)) \<Longrightarrow>
    keeps P (case x of ApiKeyCredential s \<Rightarrow> f s | OAuth2Credential s d p c \<Rightarrow> g s d p c)"
  by (cases x) simp_all

lemma keeps_covered_handle:
  assumes "\<And>p t. keeps covered (te_refresh (wo_endpoint u) p t)"
    and "\<And>p c r. keeps covered (te_exchange_code (wo_endpoint u) p c r)"
  shows "keeps covered (handle_vault u q)"
proof (cases q)
  case (ResolveCredential a n sv)
  show ?thesis
    unfolding ResolveCredential handle_vault.simps resolve_credential_def credential_headers_def
    by (intro keeps_intros keeps_covered_credentials keeps_covered_network assms)
next
  case (Callback st code)
  show ?thesis
    unfolding Callback handle_vault.simps by (intro keeps_intros keeps_covered_complete assms)
qed (simp_all only: handle_vault.simps delete_profile_route_def put_api_key_def put_password_def
      authorize_connection_def delete_connection_def resolve_form_def,
    (intro keeps_intros keeps_covered_credentials keeps_covered_changes)+)

end
