(* ===== verification/VaultGuarantees.thy ===== *)
theory VaultGuarantees
  imports VaultRequests
begin

text \<open>
  The guarantees of \<^verbatim>\<open>credentials/service.py\<close> carried through the policy of
  \<^verbatim>\<open>credentials/changes.py\<close> and the handlers: what a request that succeeded did, what a request
  of another account cannot do, and which links can still be redeemed.
\<close>

section \<open>What a successful change did\<close>

lemma admit_state:
  assumes "db_ok s" and "admit w a r s = (Inr prefs, t)"
  shows "db_ok t" "vault_tables t = vault_tables s" "m_flows t = m_flows s"
  using admit_vault(1,2) [of w a r s] admit_vault(3) [OF assms(1), of w a r] assms(2) by simp_all

lemma announce_state:
  assumes "db_ok s" and "announce w a p c g s = (r, t)"
  shows "db_ok t" "vault_tables t = vault_tables s" "m_flows t = m_flows s"
  using keepsD [OF announce_keeps(1) [of "vault_tables s"] refl assms(2)] keepsD [OF announce_keeps(2) assms(1,2)]
    keepsD [OF announce_keeps(3) [of "m_flows s"] refl assms(2)] by simp_all

lemma store_direct_Inr:
  assumes "db_ok s" and "store_direct w v a pn sn k x tt r s = (Inr c, t)"
  obtains n sv m where "normalize_profile_name pn = Inr n" "normalize_service_name sn = Inr sv" "va_master v = Some m"
    "db_ok t" "admitted w a r s" "stored_in a n sv c (seal v m x) s t"
    "c = (case conn_get a n sv s of None \<Rightarrow> new_connection w sv k tt
            | Some old \<Rightarrow> (new_connection w sv k tt)\<lparr>co_created_at := co_created_at old\<rparr>)"
proof -
  obtain prefs s1 s2 u where ad: "admit w a r s = (Inr prefs, s1)"
    and put: "put_direct_credential w v a pn sn k x tt s1 = (Inr c, s2)"
    and an: "announce w a prefs STORED (rq_origin r) s2 = (Inr u, t)"
    using assms(2) by (auto simp: store_direct_def op_elims)
  note ad' = admit_state [OF assms(1) ad]
  obtain n sv m where n: "normalize_profile_name pn = Inr n" "normalize_service_name sn = Inr sv" "va_master v = Some m"
    "db_ok s2" "stored_in a n sv c (seal v m x) s1 s2"
    "c = (case conn_get a n sv s1 of None \<Rightarrow> new_connection w sv k tt
            | Some old \<Rightarrow> (new_connection w sv k tt)\<lparr>co_created_at := co_created_at old\<rparr>)"
    by (rule put_direct_Inr [OF ad'(1) put])
  note an' = announce_state [OF n(4) an]
  note v1 = vault_tables_views [OF ad'(2)] and v2 = vault_tables_views [OF an'(2)]
  have "stored_in a n sv c (seal v m x) s t" using n(5) by (simp add: stored_in_def v1 v2)
  with n v1 an'(1) admit_Inr(1) [OF ad] that show thesis by simp
qed

lemma stored_in_here:
  assumes "stored_in a n sv st e s t"
  shows "conn_get a n sv t = Some st" "envelope_get a n sv t = Some e"
  using assms by (simp_all add: stored_in_def)

lemma new_connection_simps [simp]:
  "co_status (new_connection w sv k tt) = CONN_ACTIVE" "co_kind (new_connection w sv k tt) = k"
  "co_expires_at (new_connection w sv k tt) = None"
  by (simp_all add: new_connection_def)

text \<open>What was stored directly is what the next reader loads.\<close>

lemma stored_then_loaded:
  assumes "db_ok s" and "store_direct w v a pn sn k x tt r s = (Inr c, t)"
    and "vault_faithful v x" and "same_libraries v u" and "va_master u = va_master v"
  shows "\<exists>p. load u a pn sn t = (Inr (p, c, x), t)" and "co_kind c = k" and "db_ok t"
proof -
  obtain n sv m where st: "normalize_profile_name pn = Inr n" "normalize_service_name sn = Inr sv" "va_master v = Some m"
    "db_ok t" "stored_in a n sv c (seal v m x) s t"
    "c = (case conn_get a n sv s of None \<Rightarrow> new_connection w sv k tt
            | Some old \<Rightarrow> (new_connection w sv k tt)\<lparr>co_created_at := co_created_at old\<rparr>)"
    by (rule store_direct_Inr [OF assms(1,2)])
  have c: "co_status c = CONN_ACTIVE" "co_kind c = k" using st(6) by (simp_all split: option.splits)
  have m: "va_master u = Some m" using st(3) assms(5) by simp
  from load_found [OF st(4,1,2) stored_in_here(1) [OF st(5)] _ m stored_in_here(2) [OF st(5)]
      open_seal_later [OF assms(3,4)]] c
  show "\<exists>p. load u a pn sn t = (Inr (p, c, x), t)" by auto
  show "co_kind c = k" "db_ok t" by (fact c st)+
qed

lemma change_remove_connection_Inr:
  assumes "db_ok s" and "change_remove_connection w a pn sn r s = (Inr True, t)"
  shows "db_ok t \<and> admitted w a r s \<and> (\<exists>n sv. normalize_profile_name pn = Inr n \<and> normalize_service_name sn = Inr sv
    \<and> (a, n) \<in> profile_keys t \<and> (\<forall>a' n' sv'. conn_get a' n' sv' t = (if (a', n', sv') = (a, n, sv) then None else conn_get a' n' sv' s)
        \<and> envelope_get a' n' sv' t = (if (a', n', sv') = (a, n, sv) then None else envelope_get a' n' sv' s)))"
proof -
  obtain prefs s1 s2 u where ad: "admit w a r s = (Inr prefs, s1)"
    and rem: "revoke_connection w a pn sn s1 = (Inr True, s2)"
    and an: "announce w a prefs REMOVED (rq_origin r) s2 = (Inr u, t)"
    using assms(2) by (auto simp: change_remove_connection_def op_elims split: if_splits)
  note ad' = admit_state [OF assms(1) ad]
  obtain n sv where nn: "normalize_profile_name pn = Inr n" "normalize_service_name sn = Inr sv"
    and key: "(a, n) \<in> profile_keys s1" "profile_keys s2 = profile_keys s1"
    and gone: "\<forall>a' n' sv'. conn_get a' n' sv' s2 = (if (a', n', sv') = (a, n, sv) then None else conn_get a' n' sv' s1)
        \<and> envelope_get a' n' sv' s2 = (if (a', n', sv') = (a, n, sv) then None else envelope_get a' n' sv' s1)"
    and ok: "db_ok s2"
    using revoke_connection_Inr [OF ad'(1) rem] by auto
  note an' = announce_state [OF ok an]
  note v1 = vault_tables_views [OF ad'(2)] and v2 = vault_tables_views [OF an'(2)]
  show ?thesis
    using nn key gone an'(1) admit_Inr(1) [OF ad] by (simp only: v1 v2 simp_thms) blast
qed

lemma change_complete_Inr:
  assumes "db_ok s" and "change_complete_authorization w v ps te st code s = (Inr c, t)"
  obtains f p pv x s1 u s2 where "map_of (m_flows s) (ev_hash_token w st) = Some f" "ev_now w < of_expires_at f"
    "s1 = s\<lparr>m_flows := AList.delete (ev_hash_token w st) (m_flows s)\<rparr>" "db_ok s1"
    "map_of ps (fb_service (of_binding f)) = Some pv"
    "te_exchange_code te pv code (fb_redirect_uri (of_binding f)) s1 = (Inr x, u)"
    "store_oauth_secret w v p (fb_service (of_binding f)) x pv u = (Inr c, s2)"
    "pr_account_id p = fb_account_id (of_binding f)" "pr_name p = fb_profile (of_binding f)"
    "db_ok s2 \<longrightarrow> vault_tables t = vault_tables s2 \<and> db_ok t"
proof -
  obtain b s1 prefs s2 y where red: "redeem_authorization w st s = (Inr b, s1)"
    and fin: "finish_authorization w v ps te b code s1 = (Inr c, s2)"
    and an: "announce w (fb_account_id b) prefs STORED PROVIDER s2 = (Inr y, t)"
    using assms(2) by (auto simp: change_complete_authorization_def op_elims)
  obtain f where f: "map_of (m_flows s) (ev_hash_token w st) = Some f" "ev_now w < of_expires_at f" "b = of_binding f"
    "s1 = s\<lparr>m_flows := AList.delete (ev_hash_token w st) (m_flows s)\<rparr>"
    using redeem_authorization_Inr [OF red] by blast
  have ok: "db_ok s1" using f(4) assms(1) by simp
  obtain p pv x u where "map_of ps (fb_service b) = Some pv"
    "te_exchange_code te pv code (fb_redirect_uri b) s1 = (Inr x, u)"
    "store_oauth_secret w v p (fb_service b) x pv u = (Inr c, s2)"
    "pr_account_id p = fb_account_id b" "pr_name p = fb_profile b"
    using finish_authorization_Inr [OF ok fin] by blast
  moreover have "db_ok s2 \<longrightarrow> vault_tables t = vault_tables s2 \<and> db_ok t"
    using announce_state [OF _ an] by blast
  ultimately show thesis using that f ok by blast
qed

section \<open>Requests of other accounts\<close>

fun asks_for :: "vault_request \<Rightarrow> string option" where
  "asks_for (CreateProfile a n) = Some a"
| "asks_for (DeleteProfile a n pw) = Some a"
| "asks_for (PutApiKey a n sv b) = Some a"
| "asks_for (PutPassword a n sv b) = Some a"
| "asks_for (Authorize a n sv uri pw) = Some a"
| "asks_for (Callback st code) = None"
| "asks_for (DeleteConnection a n sv pw) = Some a"
| "asks_for (ResolveCredential a n sv) = Some a"
| "asks_for (ResolveForm a n sv) = Some a"
| "asks_for SweepStates = None"

lemma keeps_others_frame:
  fixes m :: "('e, 'z vsys_scheme, 'a) op"
  assumes "\<And>U. keeps (\<lambda>s. vault_tables s = U) m" and "keeps db_ok m"
  shows "keeps (others b V) m"
proof (rule keepsI)
  fix s :: "'z vsys_scheme" assume s: "others b V s"
  have "vault_tables (snd (m s)) = vault_tables s" using assms(1) [of "vault_tables s"] by (simp add: keeps_def)
  note v = vault_tables_views [OF this]
  have "vault_of b (snd (m s)) = vault_of b s" by (rule vault_of_eqI) (simp_all only: v)
  moreover have "db_ok (snd (m s))" using assms(2) s by (simp add: keeps_def others_def)
  ultimately show "others b V (snd (m s))" using s by (simp add: others_def)
qed

lemma keeps_others_gate:
  "keeps (others b V) (admit w a r)" "keeps (others b V) (announce w a p c g)"
  by (rule keeps_others_frame, rule admit_keeps(1) announce_keeps(1), rule admit_keeps(2) announce_keeps(2))+

lemma keeps_others_changes:
  assumes "b \<noteq> a"
  shows "keeps (others b V) (store_direct w v a n sv k x tt r)"
    "keeps (others b V) (change_begin_authorization w ps a n sv uri r)"
    "keeps (others b V) (change_remove_connection w a n sv r)" "keeps (others b V) (remove_profile w a n r)"
  unfolding change_defs Let_def
  by (intro keeps_intros keeps_others_gate keeps_others_service [OF assms])+

text \<open>A renewal writes under the account of the profile that was loaded.\<close>

lemma keeps_others_renew:
  assumes "b \<noteq> a" and "pr_account_id p = a" and "\<And>q t. keeps (others b V) (te_refresh te q t)"
  shows "keeps (others b V) (refresh w v ps te p c x)"
  unfolding refresh_def renew_def
  by (intro keeps_intros assms(3), (rule keeps_others_internal [OF assms(1,2)])+)

lemma resolve_http_auth_account:
  assumes "resolve_http_auth w v a n sv s = (Inr (OAuth2Credential x d p c), t)"
  shows "pr_account_id p = a"
proof -
  obtain q c' y u where q: "load v a n sv s = (Inr (q, c', y), u)"
    using assms by (auto simp: resolve_http_auth_def op_elims)
  with assms have "q = p" by (cases "co_kind c'") (auto simp: resolve_http_auth_def txn_simps)
  with q obtain m where "profile_get a m s = Some p"
    by (auto simp: load_def op_elims get_profile_Inr split: option.splits if_splits)
  then show ?thesis using profile_get_key by blast
qed

lemma yields_resolve:
  "yields P (resolve_http_auth w v a n sv) (\<lambda>x. \<forall>s d p c. x = OAuth2Credential s d p c \<longrightarrow> pr_account_id p = a)"
proof -
  have keep: "keeps P (resolve_http_auth w v a n sv)"
    unfolding resolve_http_auth_def by (intro keeps_intros)
  show ?thesis
    unfolding yields_def using keepsD [OF keep] resolve_http_auth_account by blast
qed

lemma keeps_others_handle:
  assumes "asks_for q = Some a" and "b \<noteq> a" and "\<And>p t. keeps (others b V) (te_refresh (wo_endpoint u) p t)"
  shows "keeps (others b V) (handle_vault u q)"
proof (cases q)
  case (ResolveCredential a' n sv)
  then have "a' = a" using assms(1) by simp
  have "keeps (others b V) (credential_headers f w v ps (wo_endpoint u) x)"
    if "\<forall>s d p c. x = OAuth2Credential s d p c \<longrightarrow> pr_account_id p = a" for f w v ps x
  proof (cases x)
    case (ApiKeyCredential s)
    show ?thesis unfolding credential_headers_def ApiKeyCredential by (simp add: keeps_of_result)
  next
    case (OAuth2Credential s d p c)
    with that have "pr_account_id p = a" by blast
    then show ?thesis unfolding credential_headers_def OAuth2Credential http_credential.case
      by (intro keeps_intros keeps_others_renew [OF assms(2) _ assms(3)])
  qed
  note headers = this
  show ?thesis
    unfolding ResolveCredential handle_vault.simps resolve_credential_def \<open>a' = a\<close>
  proof (rule keeps_andthen [OF keeps_andthen_yields [OF yields_resolve]], rule keeps_andthen)
    show "keeps (others b V) (credential_headers f w v ps (wo_endpoint u) x)"
      if "\<forall>s d p c. x = OAuth2Credential s d p c \<longrightarrow> pr_account_id p = a" for f w v ps x
      by (rule headers [OF that])
  qed (intro keeps_intros)+
next
  case (ResolveForm a' n sv)
  show ?thesis
    unfolding ResolveForm handle_vault.simps resolve_form_def resolve_form_secrets_def by (intro keeps_intros)
next
  case (CreateProfile a' n)
  with assms(1) have "a' = a" by simp
  then show ?thesis
    unfolding CreateProfile handle_vault.simps by (intro keeps_intros keeps_others_service(1)) (simp add: assms(2))
next
  case (DeleteProfile a' n pw)
  with assms(1) have "a' = a" by simp
  then show ?thesis unfolding DeleteProfile handle_vault.simps delete_profile_route_def
    by (intro keeps_intros keeps_others_changes(4)) (simp add: assms(2))
next
  case (PutApiKey a' n sv body)
  with assms(1) have "a' = a" by simp
  then show ?thesis unfolding PutApiKey handle_vault.simps put_api_key_def
    by (intro keeps_intros keeps_others_changes(1)) (simp add: assms(2))
next
  case (PutPassword a' n sv body)
  with assms(1) have "a' = a" by simp
  then show ?thesis unfolding PutPassword handle_vault.simps put_password_def
    by (intro keeps_intros keeps_others_changes(1)) (simp add: assms(2))
next
  case (Authorize a' n sv uri pw)
  with assms(1) have "a' = a" by simp
  then show ?thesis unfolding Authorize handle_vault.simps authorize_connection_def
    by (intro keeps_intros keeps_others_changes(2)) (simp add: assms(2))
next
  case (DeleteConnection a' n sv pw)
  with assms(1) have "a' = a" by simp
  then show ?thesis unfolding DeleteConnection handle_vault.simps delete_connection_def
    by (intro keeps_intros keeps_others_changes(3)) (simp add: assms(2))
qed (use assms(1) in simp_all)

section \<open>Links that were used\<close>

lemma keeps_flows_frame:
  "(\<And>fs. keeps (\<lambda>s. m_flows s = fs) m) \<Longrightarrow> keeps (\<lambda>s. P (m_flows s)) m"
  by (auto simp: keeps_def)

lemma vault_txn_more:
  "profile_add p cap d = Inr (u, d') \<Longrightarrow> db.more d' = db.more d"
  "profile_delete a n d = Inr (b, d') \<Longrightarrow> db.more d' = db.more d"
  "put_connection a n c k now d = Inr (st, d') \<Longrightarrow> db.more d' = db.more d"
  "remove_connection a n sv now d = Inr (b, d') \<Longrightarrow> db.more d' = db.more d"
  "secret_put v now a n sv x d = Inr (u, d') \<Longrightarrow> db.more d' = db.more d"
  "secret_delete a n sv d = Inr (b, d') \<Longrightarrow> db.more d' = db.more d"
  "secret_delete_profile a n d = Inr (k', d') \<Longrightarrow> db.more d' = db.more d"
proof -
  have up: "upsert_connection a n c d = Inr e \<Longrightarrow> db.more e = db.more d" for a n c e and d :: "'z db_scheme"
    by (auto simp: upsert_connection_def insert_connection_def split: if_splits)
  have ups: "upsert_all a n cs d = Inr e \<Longrightarrow> db.more e = db.more d" for a n cs e and d :: "'z db_scheme"
    by (induction cs arbitrary: d) (auto split: sum.splits dest: up)
  have touch: "db.more (touch_profile a n now d) = db.more d" for a n now and d :: "'z db_scheme"
    by (simp add: touch_profile_def)
  show "profile_add p cap d = Inr (u, d') \<Longrightarrow> db.more d' = db.more d"
    by (auto simp: profile_add_def insert_profile_def split: if_splits sum.splits dest!: ups)
  show "profile_delete a n d = Inr (b, d') \<Longrightarrow> db.more d' = db.more d"
    by (auto simp: profile_delete_def delete_profiles_def Let_def)
  show "put_connection a n c k now d = Inr (st, d') \<Longrightarrow> db.more d' = db.more d"
    by (auto simp: put_connection_def touch split: if_splits sum.splits option.splits dest!: up)
  show "remove_connection a n sv now d = Inr (b, d') \<Longrightarrow> db.more d' = db.more d"
    by (auto simp: remove_connection_def Let_def touch)
  show "secret_put v now a n sv x d = Inr (u, d') \<Longrightarrow> db.more d' = db.more d"
    by (auto simp: secret_put_def upsert_secret_def insert_secret_def split: if_splits sum.splits)
  show "secret_delete a n sv d = Inr (b, d') \<Longrightarrow> db.more d' = db.more d"
    by (auto simp: secret_delete_def)
  show "secret_delete_profile a n d = Inr (k', d') \<Longrightarrow> db.more d' = db.more d"
    by (auto simp: secret_delete_profile_def Let_def)
qed

text \<open>No flow is outstanding under this hash.\<close>

definition no_flow :: "string \<Rightarrow> 'z vsys_scheme \<Rightarrow> bool" where
  "no_flow h s \<longleftrightarrow> map_of (m_flows s) h = None"

lemma no_flow_rest [simp]:
  "no_flow h (s\<lparr>m_attempts := m\<rparr>) = no_flow h s" "no_flow h (s\<lparr>m_outbox := q\<rparr>) = no_flow h s"
  "no_flow h (s\<lparr>m_verifications := n\<rparr>) = no_flow h s"
  by (simp_all add: no_flow_def)

lemma keeps_no_flow_txn:
  fixes t :: "'z vsys_scheme \<Rightarrow> error + ('a \<times> 'z vsys_scheme)"
  assumes "\<And>d x d'. t d = Inr (x, d') \<Longrightarrow> db.more d' = db.more d"
  shows "keeps (no_flow h) (transact t)"
proof (rule keeps_transact)
  fix s :: "'z vsys_scheme" and x s' assume s: "no_flow h s" "t s = Inr (x, s')"
  then have "only_tables s s'" using assms by (simp add: only_tables_more)
  then have "m_flows s' = m_flows s" unfolding only_tables_def by (rule ssubst) simp
  with s show "no_flow h s'" by (simp add: no_flow_def)
qed

lemma keeps_no_flow_txns:
  "keeps (no_flow h) (transact (profile_add p cap))" "keeps (no_flow h) (transact (profile_delete a n))"
  "keeps (no_flow h) (transact (put_connection a n c k now))" "keeps (no_flow h) (transact (remove_connection a n sv now))"
  "keeps (no_flow h) (transact (secret_put v now a n sv x))" "keeps (no_flow h) (transact (secret_delete a n sv))"
  "keeps (no_flow h) (transact (secret_delete_profile a n))"
  by (rule keeps_no_flow_txn, erule vault_txn_more)+

lemma keeps_no_flow_states:
  "ev_hash_token w (ev_token w) \<noteq> h \<Longrightarrow> keeps (no_flow h) (issue_state w b t)"
  "keeps (no_flow h) (redeem_state w st)" "keeps (no_flow h) (purge_states w)"
proof -
  show "ev_hash_token w (ev_token w) \<noteq> h \<Longrightarrow> keeps (no_flow h) (issue_state w b t)"
    by (auto simp: keeps_def no_flow_def issue_state_def flow_issue_def update_conv')
  show "keeps (no_flow h) (redeem_state w st)"
    by (auto simp: keeps_def no_flow_def redeem_state_simp flow_redeem_def delete_conv' split: option.split)
  have "map_of (filter p fs) h = None" if "map_of fs h = None" for p and fs :: flows
    using that by (auto simp: map_of_eq_None_iff)
  then show "keeps (no_flow h) (purge_states w)"
    by (auto simp: keeps_def no_flow_def purge_states_def flow_purge_expired_def)
qed

lemma keeps_no_flow_gate:
  "keeps (no_flow h) (admit w a r)" "keeps (no_flow h) (announce w a p c g)"
  unfolding no_flow_def
  by (rule keeps_flows_frame, rule admit_keeps(3) announce_keeps(3))+

lemmas keeps_no_flow = keeps_no_flow_txns keeps_no_flow_states keeps_no_flow_gate

lemma keeps_no_flow_handle:
  assumes "ev_hash_token (wo_env u) (ev_token (wo_env u)) \<noteq> h"
    and "\<And>p t. keeps (no_flow h) (te_refresh (wo_endpoint u) p t)"
    and "\<And>p c r. keeps (no_flow h) (te_exchange_code (wo_endpoint u) p c r)"
  shows "keeps (no_flow h) (handle_vault u q)"
  by (cases q) (simp_all only: handle_vault.simps delete_profile_route_def put_api_key_def put_password_def
      authorize_connection_def delete_connection_def resolve_form_def resolve_credential_def credential_headers_def
      change_defs credential_defs vault_internal_defs Let_def,
    (intro keeps_intros keeps_no_flow assms)+)

text \<open>After a callback no flow is outstanding under the hash of its state.\<close>

lemma callback_forgets:
  assumes "\<And>p c r. keeps (no_flow (ev_hash_token (wo_env u0) st)) (te_exchange_code (wo_endpoint u0) p c r)"
  shows "no_flow (ev_hash_token (wo_env u0) st) (snd (handle_vault u0 (Callback st code) s))"
proof -
  let ?h = "ev_hash_token (wo_env u0) st" and ?s1 = "snd (redeem_authorization (wo_env u0) st s)"
  have "no_flow ?h ?s1" unfolding no_flow_def by (rule redeem_authorization_forgets)
  have rest: "keeps (no_flow ?h) (andthen (of_result r) (\<lambda>prefs. andthen (finish_authorization (wo_env u0) (wo_vault u0) (wo_providers u0) (wo_endpoint u0) b code)
      (\<lambda>c. andthen (announce (wo_env u0) a prefs STORED PROVIDER) (\<lambda>_. ret c))))" for r b a
    unfolding finish_authorization_def store_oauth_secret_def vault_internal_defs Let_def
    by (intro keeps_intros keeps_no_flow assms(1))
  show "no_flow ?h (snd (handle_vault u0 (Callback st code) s))"
  proof -
    obtain r t where r: "redeem_authorization (wo_env u0) st s = (r, t)" by fastforce
    with \<open>no_flow ?h ?s1\<close> have t: "no_flow ?h t" by simp
    show ?thesis
    proof (cases r)
      case (Inl e)
      with r t show ?thesis by (simp add: change_complete_authorization_def andthen_simp)
    next
      case (Inr b)
      define m where "m = andthen (of_result (for_account (ev_settings (wo_env u0)) (ev_settings_api (wo_env u0)) (fb_account_id b)))
        (\<lambda>prefs. andthen (finish_authorization (wo_env u0) (wo_vault u0) (wo_providers u0) (wo_endpoint u0) b code)
          (\<lambda>c. andthen (announce (wo_env u0) (fb_account_id b) prefs STORED PROVIDER) (\<lambda>_. ret c)))"
      have "handle_vault u0 (Callback st code) s = andthen m (\<lambda>_. ret ()) t"
        by (simp only: handle_vault.simps change_complete_authorization_def andthen_assoc m_def)
          (simp add: andthen_simp r Inr)
      moreover have "keeps (no_flow ?h) (andthen m (\<lambda>_. ret ()))"
        unfolding m_def by (rule keeps_andthen, rule rest, rule keeps_ret)
      then have "no_flow ?h (snd (andthen m (\<lambda>_. ret ()) t))" using t unfolding keeps_def by blast
      ultimately show ?thesis by (rule ssubst)
    qed
  qed
qed

section \<open>Caps\<close>

definition connections_in :: "string \<Rightarrow> string \<Rightarrow> 'z db_scheme \<Rightarrow> nat" where
  "connections_in a n d = count_where (\<lambda>r. cr_account_id r = a \<and> cr_profile_name r = n) (t_connections d)"

definition within_caps :: "settings \<Rightarrow> 'z db_scheme \<Rightarrow> bool" where
  "within_caps st d \<longleftrightarrow> db_ok d \<and> (\<forall>a. profile_count_for_account a d \<le> st_max_profiles_per_account st)
     \<and> (\<forall>a n. connections_in a n d \<le> st_max_connections_per_profile st)"

lemma within_caps_frame:
  assumes "within_caps st s" and "db_ok t" and "t_profiles t = t_profiles s" and "t_connections t = t_connections s"
  shows "within_caps st t"
  using assms by (simp add: within_caps_def connections_in_def profile_count_for_account_def)

lemma within_caps_less:
  assumes "within_caps st s" and "db_ok t" and "\<And>a. profile_count_for_account a t \<le> profile_count_for_account a s"
    and "\<And>a n. connections_in a n t \<le> connections_in a n s"
  shows "within_caps st t"
  using assms unfolding within_caps_def by (meson le_trans)

lemma count_where_delete: "count_where p (delete_where q rows) \<le> count_where p rows"
  by (induction rows) (auto simp: count_where_def delete_where_def)

lemma count_where_update:
  "(\<And>r. p (f r) = p r) \<Longrightarrow> count_where p (update_where q f rows) = count_where p rows"
  by (induction rows) (auto simp: count_where_def update_where_def)

lemma put_connection_profiles:
  assumes "db_ok s" and "put_connection a n c k now s = Inr (st, t)"
  shows "profile_count_for_account b t = profile_count_for_account b s"
  by (subst put_connection_Inr(6) [OF assms])
    (simp add: profile_count_for_account_def touch_profile_def count_where_update)

lemma keeps_caps_txns:
  "pr_connections p = [] \<Longrightarrow> keeps (within_caps st) (transact (profile_add p (st_max_profiles_per_account st)))"
  "keeps (within_caps st) (transact (profile_delete a n))"
  "keeps (within_caps st) (transact (put_connection a n c (st_max_connections_per_profile st) now))"
  "keeps (within_caps st) (transact (remove_connection a n sv now))"
  "keeps (within_caps st) (transact (secret_put v now a n sv x))" "keeps (within_caps st) (transact (secret_delete a n sv))"
  "keeps (within_caps st) (transact (secret_delete_profile a n))"
proof -
  show "keeps (within_caps st) (transact (profile_add p (st_max_profiles_per_account st)))" if "pr_connections p = []"
  proof (rule keeps_transact)
    fix s t :: "'z db_scheme" and u
    assume s: "within_caps st s" and add: "profile_add p (st_max_profiles_per_account st) s = Inr (u, t)"
    then have ok: "db_ok s" by (simp add: within_caps_def)
    note add' = profile_add_Inr [OF ok add]
    have "t_connections t = t_connections s"
      using add that by (auto simp: profile_add_def insert_profile_def split: if_splits)
    moreover have "profile_count_for_account a t \<le> st_max_profiles_per_account st" for a
      using add'(5) add'(6) [of a] s by (auto simp: within_caps_def)
    ultimately show "within_caps st t" using s add'(1) by (simp add: within_caps_def connections_in_def)
  qed
  show "keeps (within_caps st) (transact (profile_delete a n))"
  proof (rule keeps_transact)
    fix s t :: "'z db_scheme" and b
    assume s: "within_caps st s" and del: "profile_delete a n s = Inr (b, t)"
    show "within_caps st t"
      by (rule within_caps_less [OF s profile_delete_Inr(1) [OF _ del]])
        (use s del in \<open>auto simp: within_caps_def profile_delete_def delete_profiles_def Let_def connections_in_def
          profile_count_for_account_def count_where_delete\<close>)
  qed
  show "keeps (within_caps st) (transact (put_connection a n c (st_max_connections_per_profile st) now))"
  proof (rule keeps_transact)
    fix s t :: "'z db_scheme" and k
    assume s: "within_caps st s" and put: "put_connection a n c (st_max_connections_per_profile st) now s = Inr (k, t)"
    then have ok: "db_ok s" by (simp add: within_caps_def)
    note put' = put_connection_Inr [OF ok put]
    have "connections_in b m t \<le> st_max_connections_per_profile st" for b m
    proof (cases "(b, m) = (a, n) \<and> conn_get a n (co_service c) s = None")
      case True
      then show ?thesis using put'(7) put'(8) [of b m] by (simp add: connections_in_def)
    next
      case False
      then have "connections_in b m t = connections_in b m s" using put'(8) [of b m] by (auto simp: connections_in_def)
      then show ?thesis using s by (simp add: within_caps_def)
    qed
    then show "within_caps st t"
      using s put'(1) put_connection_profiles [OF ok put] by (simp add: within_caps_def)
  qed
  show "keeps (within_caps st) (transact (remove_connection a n sv now))"
  proof (rule keeps_transact)
    fix s t :: "'z db_scheme" and b
    assume s: "within_caps st s" and rem: "remove_connection a n sv now s = Inr (b, t)"
    show "within_caps st t"
      by (rule within_caps_less [OF s remove_connection_Inr(1) [OF _ rem]])
        (use s rem in \<open>auto simp: within_caps_def remove_connection_def touch_profile_def Let_def connections_in_def
          profile_count_for_account_def count_where_delete count_where_update split: if_splits\<close>)
  qed
  have sec: "keeps (within_caps st) (transact f)"
    if "\<And>s r t. db_ok s \<Longrightarrow> f s = Inr (r, t) \<Longrightarrow> db_ok t \<and> t = s\<lparr>t_secrets := t_secrets t\<rparr>"
    for f :: "('z, 'x) dbtxn"
  proof (rule keeps_transact)
    fix s t :: "'z db_scheme" and r
    assume s: "within_caps st s" and f: "f s = Inr (r, t)"
    then have ok: "db_ok s" by (simp add: within_caps_def)
    have t: "db_ok t" and frame: "t = s\<lparr>t_secrets := t_secrets t\<rparr>" using that [OF ok f] by blast+
    have "t_profiles t = t_profiles s" "t_connections t = t_connections s" by (subst frame, simp)+
    with t show "within_caps st t" by (rule within_caps_frame [OF s])
  qed
  show "keeps (within_caps st) (transact (secret_put v now a n sv x))"
    by (rule sec) (use secret_put_Inr(1,4) in blast)
  show "keeps (within_caps st) (transact (secret_delete a n sv))"
    by (rule sec) (use secret_delete_Inr(1,3) in blast)
  show "keeps (within_caps st) (transact (secret_delete_profile a n))"
    by (rule sec) (use secret_delete_profile_Inr(1,3) in blast)
qed

lemma within_caps_flows [simp]: "within_caps st (s\<lparr>m_flows := fs\<rparr>) = within_caps st s"
  by (simp add: within_caps_def profile_count_for_account_def connections_in_def)

lemma keeps_caps_gate:
  "keeps (within_caps st) (admit w a r)" "keeps (within_caps st) (announce w a p c g)"
proof -
  have frame: "keeps (within_caps st) m"
    if "\<And>V. keeps (\<lambda>s. vault_tables s = V) m" "keeps db_ok m" for m :: "('z, 'x) vop"
  proof (rule keepsI)
    fix s :: "'z vsys_scheme" assume s: "within_caps st s"
    have "vault_tables (snd (m s)) = vault_tables s" using that(1) [of "vault_tables s"] by (simp add: keeps_def)
    moreover have "db_ok (snd (m s))" using that(2) s by (simp add: keeps_def within_caps_def)
    ultimately show "within_caps st (snd (m s))"
      by (intro within_caps_frame [OF s]) (simp_all add: vault_tables_def)
  qed
  show "keeps (within_caps st) (admit w a r)" "keeps (within_caps st) (announce w a p c g)"
    by (rule frame, rule admit_keeps(1) announce_keeps(1), rule admit_keeps(2) announce_keeps(2))+
qed

lemma keeps_caps_handle:
  assumes "ev_settings (wo_env u) = st"
    and "\<And>p t. keeps (within_caps st) (te_refresh (wo_endpoint u) p t)"
    and "\<And>p c r. keeps (within_caps st) (te_exchange_code (wo_endpoint u) p c r)"
  shows "keeps (within_caps st) (handle_vault u q)"
  unfolding assms(1) [symmetric]
  by (cases q) (simp_all only: handle_vault.simps delete_profile_route_def put_api_key_def put_password_def
      authorize_connection_def delete_connection_def resolve_form_def resolve_credential_def credential_headers_def
      change_defs credential_defs vault_internal_defs Let_def,
    (intro keeps_intros keeps_caps_txns keeps_caps_gate within_caps_flows assms(2,3) [folded assms(1)]
      | simp only: profile.select_convs)+)

end
