(* ===== verification/AdminRoutes.thy ===== *)
theory AdminRoutes
  imports AdminGuards VaultGuarantees
begin

text \<open>
  The rest of \<^verbatim>\<open>src/src/keyring_api/admin/service.py\<close>, which reads and deletes other people's
  profiles, and the handlers of \<^verbatim>\<open>api/routers/admin.py\<close>: what each answers, and in which order
  permission, body and target are looked at. All sixteen routes are one step function whose actor is
  rebuilt from the database on every request, and a run is a sequence of such requests by any callers:
  no run of callers without the break-glass token lifts any account above what it or one of the callers
  could do at the start, no run takes the last owner away, nobody acts against an account that may do
  more than they may, and each change leaves its entry in the audit log.
\<close>

section \<open>Other people's profiles\<close>

definition OWN_PROFILE_NEEDS_PASSWORD :: message where
  "OWN_PROFILE_NEEDS_PASSWORD = [''your account asks for its password before a stored credential changes, and this administrative route cannot take it: delete your own profile with delete_profile, sending current_password'']"

definition admin_list_profiles :: "actor \<Rightarrow> string \<Rightarrow> ('z, profile list) vop" where
  "admin_list_profiles actor account_id =
     andthen (require actor PROFILES_READ_ANY) (\<lambda>_.
     andthen (require_account account_id) (\<lambda>_.
     list_profiles account_id))"

definition admin_delete_profile :: "env \<Rightarrow> actor \<Rightarrow> string \<Rightarrow> string \<Rightarrow> ('z, unit) vop" where
  "admin_delete_profile w actor account_id name =
     andthen (require actor PROFILES_DELETE_ANY) (\<lambda>_.
     andthen (require_account account_id) (\<lambda>target.
     andthen (check_can_act_on actor target) (\<lambda>_.
     let own = (ac_id target = at_account_id actor) in
     andthen (handling is_reauthentication_required (\<lambda>_. raise (ReauthenticationRequiredError OWN_PROFILE_NEEDS_PASSWORD))
       (remove_profile w account_id name (if own then by_person None else by_administrator))) (\<lambda>removed.
     andthen (guard removed (ProfileNotFoundError NO_SUCH_PROFILE)) (\<lambda>_.
     record_action w actor PROFILE_DELETED_BY_ADMIN (Some account_id) (''profile '' @ py_repr name))))))"

section \<open>Rendering\<close>

record account_summary =
  as_account_id :: string
  as_email :: string
  as_status :: account_status
  as_roles :: "string list"
  as_created_at :: int
  as_updated_at :: int
  as_locked :: bool

definition render_account :: "account \<Rightarrow> bool \<Rightarrow> account_summary" where
  "render_account a now_locked =
     \<lparr>as_account_id = ac_id a, as_email = ac_email a, as_status = ac_status a, as_roles = ac_roles a,
      as_created_at = ac_created_at a, as_updated_at = ac_updated_at a, as_locked = now_locked\<rparr>"

record role_response =
  rp_name :: string
  rp_description :: string
  rp_permissions :: "string list"
  rp_builtin :: bool
  rp_created_at :: "int option"
  rp_updated_at :: "int option"

definition render_role :: "role \<Rightarrow> role_response" where
  "render_role r =
     \<lparr>rp_name = ro_name r, rp_description = ro_description r,
      rp_permissions = sort (map permission_value (sorted_list_of_set (ro_permissions r))),
      rp_builtin = ro_builtin r, rp_created_at = ro_created_at r, rp_updated_at = ro_updated_at r\<rparr>"

record invite_response =
  ir_grant_id :: string
  ir_expires_at :: int
  ir_delivered :: bool
  ir_token :: "string option"

definition invite_response_of :: "env \<Rightarrow> issued_grant \<Rightarrow> invite_response" where
  "invite_response_of w grant =
     (let delivered = ev_email_enabled w in
      \<lparr>ir_grant_id = ig_grant_id grant, ir_expires_at = ig_expires_at grant, ir_delivered = delivered,
       ir_token = (if delivered then None else Some (ig_token grant))\<rparr>)"

definition render_admin_profile ::
  "profile \<Rightarrow> string \<times> (string \<times> credential_kind \<times> connection_status) list" where
  "render_admin_profile p =
     (pr_name p, map (\<lambda>c. (co_service c, co_kind c, co_status c)) (sort_key co_service (pr_connections p)))"

definition MAX_AUDIT_PAGE :: nat where "MAX_AUDIT_PAGE = 1000"

section \<open>Handlers\<close>

definition INVALID_REQUEST :: error where "INVALID_REQUEST = Unhandled [''422'']"

text \<open>\<open>PERMISSION_DESCRIPTIONS\<close>: what each permission allows, for who builds a role.\<close>

fun permission_description :: "permission \<Rightarrow> string" where
  "permission_description ACCOUNTS_READ = ''List accounts and read one. Metadata only.''"
| "permission_description ACCOUNTS_INVITE = ''Mint invites for new accounts.''"
| "permission_description ACCOUNTS_DISABLE = ''Disable or re-enable an account, ending its sessions.''"
| "permission_description ACCOUNTS_DELETE = ''Delete an account and everything it owns. Irreversible.''"
| "permission_description ACCOUNTS_REVOKE_SESSIONS = ''Sign an account out everywhere.''"
| "permission_description ACCOUNTS_RESET_PASSWORD =
     ''Mint a password reset for somebody else. Close to an account takeover, so it is separate from disabling.''"
| "permission_description ROLES_READ = ''See which roles exist and what they allow.''"
| "permission_description ROLES_WRITE = ''Create, edit and delete custom roles, bounded by your own permissions.''"
| "permission_description ROLES_ASSIGN = ''Grant and revoke roles, bounded by your own permissions.''"
| "permission_description PROFILES_READ_ANY =
     ''See which profiles and connections another account has. Metadata only -- there is deliberately no permission that returns another account's credential.''"
| "permission_description PROFILES_DELETE_ANY = ''Delete another account's profile. Destroys, never reads.''"
| "permission_description AUDIT_READ = ''Read the record of privileged actions.''"

record permission_info =
  pm_name :: string
  pm_description :: string

definition list_permissions_route :: "actor \<Rightarrow> ('z, permission_info list) vop" where
  "list_permissions_route actor =
     andthen (require actor ROLES_READ) (\<lambda>_.
     ret (map (\<lambda>p. \<lparr>pm_name = permission_value p, pm_description = permission_description p\<rparr>)
       (sort_key permission_value (sorted_list_of_set ALL_PERMISSIONS))))"

definition list_roles_route :: "actor \<Rightarrow> ('z, role_response list) vop" where
  "list_roles_route actor = andthen (admin_list_roles actor) (\<lambda>roles. ret (map render_role roles))"

definition create_role_route :: "env \<Rightarrow> actor \<Rightarrow> string \<Rightarrow> string list \<Rightarrow> string \<Rightarrow> ('z, role_response) vop" where
  "create_role_route w actor name permissions description =
     andthen (guard (length name \<le> 64 \<and> length description \<le> 200) INVALID_REQUEST) (\<lambda>_.
     andthen (create_role w actor name permissions description) (\<lambda>role. ret (render_role role)))"

definition update_role_route :: "env \<Rightarrow> actor \<Rightarrow> string \<Rightarrow> string list \<Rightarrow> string \<Rightarrow> ('z, role_response) vop" where
  "update_role_route w actor name permissions description =
     andthen (guard (length description \<le> 200) INVALID_REQUEST) (\<lambda>_.
     andthen (update_role w actor name permissions description) (\<lambda>role. ret (render_role role)))"

definition list_accounts_route :: "env \<Rightarrow> actor \<Rightarrow> ('z, account_summary list) vop" where
  "list_accounts_route w actor =
     andthen (admin_list_accounts actor) (\<lambda>accounts.
     ret (map (\<lambda>a. render_account a (is_locked a (ev_now w))) accounts))"

definition get_account_route :: "env \<Rightarrow> actor \<Rightarrow> string \<Rightarrow> ('z, account_summary) vop" where
  "get_account_route w actor account_id =
     andthen (admin_get_account actor account_id) (\<lambda>a. ret (render_account a (is_locked a (ev_now w))))"

definition set_account_roles_route :: "env \<Rightarrow> actor \<Rightarrow> string \<Rightarrow> string list \<Rightarrow> ('z, account_summary) vop" where
  "set_account_roles_route w actor account_id roles =
     andthen (set_account_roles w actor account_id roles) (\<lambda>a. ret (render_account a (is_locked a (ev_now w))))"

definition set_account_status_route :: "env \<Rightarrow> actor \<Rightarrow> string \<Rightarrow> account_status \<Rightarrow> ('z, account_summary) vop" where
  "set_account_status_route w actor account_id status =
     andthen (admin_set_status w actor account_id status) (\<lambda>a. ret (render_account a (is_locked a (ev_now w))))"

definition issue_account_password_reset_route :: "env \<Rightarrow> actor \<Rightarrow> string \<Rightarrow> ('z, invite_response) vop" where
  "issue_account_password_reset_route w actor account_id =
     andthen (admin_issue_password_reset w actor account_id) (\<lambda>grant. ret (invite_response_of w grant))"

definition issue_invite_route :: "env \<Rightarrow> actor \<Rightarrow> string \<Rightarrow> ('z, invite_response) vop" where
  "issue_invite_route w actor email =
     andthen (guard (length email \<le> 254) INVALID_REQUEST) (\<lambda>_.
     andthen (admin_invite w actor email) (\<lambda>grant. ret (invite_response_of w grant)))"

definition list_account_profiles_route ::
  "actor \<Rightarrow> string \<Rightarrow> ('z, (string \<times> (string \<times> credential_kind \<times> connection_status) list) list) vop" where
  "list_account_profiles_route actor account_id =
     andthen (admin_list_profiles actor account_id) (\<lambda>profiles. ret (map render_admin_profile profiles))"

text \<open>What is removed is answered with 204 and no body.\<close>

definition NO_CONTENT :: nat where "NO_CONTENT = 204"

definition delete_role_route :: "env \<Rightarrow> actor \<Rightarrow> string \<Rightarrow> ('z, nat) vop" where
  "delete_role_route w actor name = andthen (delete_role w actor name) (\<lambda>_. ret NO_CONTENT)"

definition revoke_account_sessions_route :: "env \<Rightarrow> actor \<Rightarrow> string \<Rightarrow> ('z, (string \<times> nat) list) vop" where
  "revoke_account_sessions_route w actor account_id =
     andthen (admin_revoke_sessions w actor account_id) (\<lambda>n. ret [(''revoked'', n)])"

definition delete_account_route :: "env \<Rightarrow> actor \<Rightarrow> string \<Rightarrow> ('z, nat) vop" where
  "delete_account_route w actor account_id =
     andthen (admin_delete_account w actor account_id) (\<lambda>_. ret NO_CONTENT)"

definition delete_account_profile_route :: "env \<Rightarrow> actor \<Rightarrow> string \<Rightarrow> string \<Rightarrow> ('z, nat) vop" where
  "delete_account_profile_route w actor account_id name =
     andthen (admin_delete_profile w actor account_id name) (\<lambda>_. ret NO_CONTENT)"

definition read_audit_log_route :: "actor \<Rightarrow> int \<Rightarrow> ('z, audit_entry list) vop" where
  "read_audit_log_route actor limit =
     andthen (guard (1 \<le> limit \<and> limit \<le> int MAX_AUDIT_PAGE) INVALID_REQUEST) (\<lambda>_.
     admin_read_audit actor (nat limit))"

lemmas admin_route_defs = list_permissions_route_def list_roles_route_def create_role_route_def update_role_route_def
  list_accounts_route_def get_account_route_def set_account_roles_route_def set_account_status_route_def
  issue_account_password_reset_route_def issue_invite_route_def list_account_profiles_route_def read_audit_log_route_def
  delete_role_route_def revoke_account_sessions_route_def delete_account_route_def delete_account_profile_route_def
  admin_list_profiles_def admin_delete_profile_def list_profiles_def

text \<open>Every route; the actor is known before the body is looked at.\<close>

datatype admin_route =
    ListPermissions
  | ListRoles
  | CreateRoleR string "string list" string
  | UpdateRoleR string "string list" string
  | DeleteRoleR string
  | ListAccounts
  | GetAccount string
  | SetRolesR string "string list"
  | SetStatusR string account_status
  | RevokeSessionsR string
  | IssueResetR string
  | DeleteAccountR string
  | ListAccountProfiles string
  | DeleteAccountProfile string string
  | InviteR string
  | ReadAuditLog int

fun handle_admin_route :: "env \<Rightarrow> actor \<Rightarrow> admin_route \<Rightarrow> ('z, unit) vop" where
  "handle_admin_route w a ListPermissions = andthen (list_permissions_route a) (\<lambda>_. ret ())"
| "handle_admin_route w a ListRoles = andthen (list_roles_route a) (\<lambda>_. ret ())"
| "handle_admin_route w a (CreateRoleR n ps d) = andthen (create_role_route w a n ps d) (\<lambda>_. ret ())"
| "handle_admin_route w a (UpdateRoleR n ps d) = andthen (update_role_route w a n ps d) (\<lambda>_. ret ())"
| "handle_admin_route w a (DeleteRoleR n) = andthen (delete_role_route w a n) (\<lambda>_. ret ())"
| "handle_admin_route w a ListAccounts = andthen (list_accounts_route w a) (\<lambda>_. ret ())"
| "handle_admin_route w a (GetAccount i) = andthen (get_account_route w a i) (\<lambda>_. ret ())"
| "handle_admin_route w a (SetRolesR i rs) = andthen (set_account_roles_route w a i rs) (\<lambda>_. ret ())"
| "handle_admin_route w a (SetStatusR i st) = andthen (set_account_status_route w a i st) (\<lambda>_. ret ())"
| "handle_admin_route w a (RevokeSessionsR i) = andthen (revoke_account_sessions_route w a i) (\<lambda>_. ret ())"
| "handle_admin_route w a (IssueResetR i) = andthen (issue_account_password_reset_route w a i) (\<lambda>_. ret ())"
| "handle_admin_route w a (DeleteAccountR i) = andthen (delete_account_route w a i) (\<lambda>_. ret ())"
| "handle_admin_route w a (ListAccountProfiles i) = andthen (list_account_profiles_route a i) (\<lambda>_. ret ())"
| "handle_admin_route w a (DeleteAccountProfile i n) = andthen (delete_account_profile_route w a i n) (\<lambda>_. ret ())"
| "handle_admin_route w a (InviteR e) = andthen (issue_invite_route w a e) (\<lambda>_. ret ())"
| "handle_admin_route w a (ReadAuditLog k) = andthen (read_audit_log_route a k) (\<lambda>_. ret ())"

definition admin_route_step :: "env \<Rightarrow> string option \<Rightarrow> admin_route \<Rightarrow> ('z, unit) vop" where
  "admin_route_step w credentials route =
     andthen (get_actor w credentials) (\<lambda>actor. handle_admin_route w actor route)"

fun admin_run :: "(env \<times> string option \<times> admin_route) list \<Rightarrow> 'z vsys_scheme \<Rightarrow> 'z vsys_scheme" where
  "admin_run [] s = s"
| "admin_run ((w, c, q) # qs) s = admin_run qs (snd (admin_route_step w c q s))"

section \<open>Guards\<close>

text \<open>The permission each route asks for first.\<close>

fun required :: "admin_route \<Rightarrow> permission" where
  "required ListPermissions = ROLES_READ"
| "required ListRoles = ROLES_READ"
| "required (CreateRoleR n ps d) = ROLES_WRITE"
| "required (UpdateRoleR n ps d) = ROLES_WRITE"
| "required (DeleteRoleR n) = ROLES_WRITE"
| "required ListAccounts = ACCOUNTS_READ"
| "required (GetAccount i) = ACCOUNTS_READ"
| "required (SetRolesR i rs) = ROLES_ASSIGN"
| "required (SetStatusR i st) = ACCOUNTS_DISABLE"
| "required (RevokeSessionsR i) = ACCOUNTS_REVOKE_SESSIONS"
| "required (IssueResetR i) = ACCOUNTS_RESET_PASSWORD"
| "required (DeleteAccountR i) = ACCOUNTS_DELETE"
| "required (ListAccountProfiles i) = PROFILES_READ_ANY"
| "required (DeleteAccountProfile i n) = PROFILES_DELETE_ANY"
| "required (InviteR e) = ACCOUNTS_INVITE"
| "required (ReadAuditLog k) = AUDIT_READ"

text \<open>The account a route disables, signs out, resets, deletes or deletes a profile of.\<close>

fun acts_against :: "admin_route \<Rightarrow> string option" where
  "acts_against (SetStatusR i st) = Some i"
| "acts_against (RevokeSessionsR i) = Some i"
| "acts_against (IssueResetR i) = Some i"
| "acts_against (DeleteAccountR i) = Some i"
| "acts_against (DeleteAccountProfile i n) = Some i"
| "acts_against q = None"

lemma unpermitted:
  assumes "required q \<notin> at_permissions actor" and "acts_against q \<noteq> None"
  shows "handle_admin_route w actor q s =
    (Inl (InsufficientPermissionError [''this action requires the '', py_repr (permission_value (required q)), '' permission'']), s)"
  using assms by (cases q) (simp_all add: admin_defs admin_route_defs require_def txn_simps)

lemma acts_upwards_refused:
  assumes "\<not> at_is_break_glass actor" and "acts_against q = Some i" and "i \<noteq> at_account_id actor"
    and "\<not> effective i s \<subseteq> at_permissions actor"
  shows "\<exists>m. handle_admin_route w actor q s = (Inl (InsufficientPermissionError m), s)"
proof (cases "required q \<in> at_permissions actor")
  case False
  then show ?thesis using assms(2) by (simp add: unpermitted)
next
  case True
  obtain a where a: "account_get i s = Some a" "\<not> role_resolve (ac_roles a) s \<subseteq> at_permissions actor"
    using assms(4) by (cases "account_get i s") (simp_all add: effective_def)
  have id: "ac_id a = i" by (rule account_get_id [OF a(1)])
  obtain m where "check_can_act_on actor a s = (Inl (InsufficientPermissionError m), s)"
    using check_can_act_on_refused [OF assms(1) _ a(2)] assms(3) id by auto
  then show ?thesis using assms(2) True a(1)
    by (cases q) (simp_all add: admin_defs admin_route_defs require_def require_account_def txn_simps)
qed

section \<open>What deleting somebody's profile keeps\<close>

lemma profile_delete_rest:
  "profile_delete a n d = Inr (b, d') \<Longrightarrow> access_view d' = access_view d \<and> audit_view d' = audit_view d"
  by (auto simp: profile_delete_def delete_profiles_def access_view_def audit_view_def Let_def)

lemma secret_delete_profile_rest:
  "secret_delete_profile a n d = Inr (b, d') \<Longrightarrow> access_view d' = access_view d \<and> audit_view d' = audit_view d"
  by (auto simp: secret_delete_profile_def access_view_def audit_view_def Let_def)

lemma keeps_stable_deletions [keeps_intros]:
  "keeps (stable R) (transact (profile_delete a n))" "keeps (stable R) (transact (secret_delete_profile a n))"
proof -
  show "keeps (stable R) (transact (profile_delete a n))"
  proof (rule keeps_transact)
    fix s u t assume s: "stable R s" and t: "profile_delete a n s = Inr (u, t)"
    from profile_delete_rest [OF t] have "role_view t = role_view s" by (blast intro: role_view_access)
    with s profile_delete_Inr(1) [OF _ t] show "stable R t" by (simp add: stable_def)
  qed
  show "keeps (stable R) (transact (secret_delete_profile a n))"
  proof (rule keeps_transact)
    fix s u t assume s: "stable R s" and t: "secret_delete_profile a n s = Inr (u, t)"
    from secret_delete_profile_rest [OF t] have "role_view t = role_view s" by (blast intro: role_view_access)
    with s secret_delete_profile_Inr(1) [OF _ t] show "stable R t" by (simp add: stable_def)
  qed
qed

lemma keeps_audited_deletions [keeps_intros]:
  "keeps (audited V) (transact (profile_delete a n))" "keeps (audited V) (transact (secret_delete_profile a n))"
  by (rule keeps_transact, simp add: audited_def profile_delete_rest secret_delete_profile_rest)+

lemma keeps_stable_remove_profile: "keeps (stable R) (remove_profile w a n r)"
  unfolding remove_profile_def admit_def announce_def get_profile_def delete_profile_def Let_def
  by (intro keeps_intros stable_rest)+

lemma keeps_audited_remove_profile: "keeps (audited V) (remove_profile w a n r)"
  unfolding remove_profile_def admit_def announce_def get_profile_def delete_profile_def confirm_password_def Let_def
  by (intro keeps_intros audited_rest)+

section \<open>No escalation over runs\<close>

text \<open>The routes that change nobody's roles and no role.\<close>

lemma keeps_stable_routes:
  "keeps (stable R) (handle_admin_route w actor ListPermissions)" "keeps (stable R) (handle_admin_route w actor ListRoles)"
  "keeps (stable R) (handle_admin_route w actor ListAccounts)" "keeps (stable R) (handle_admin_route w actor (GetAccount i))"
  "keeps (stable R) (handle_admin_route w actor (SetStatusR i st))"
  "keeps (stable R) (handle_admin_route w actor (RevokeSessionsR i))"
  "keeps (stable R) (handle_admin_route w actor (IssueResetR i))"
  "keeps (stable R) (handle_admin_route w actor (ListAccountProfiles i))"
  "keeps (stable R) (handle_admin_route w actor (DeleteAccountProfile i n))"
  "keeps (stable R) (handle_admin_route w actor (InviteR e))" "keeps (stable R) (handle_admin_route w actor (ReadAuditLog k))"
  unfolding handle_admin_route.simps admin_route_defs require_def require_account_def check_can_act_on_def Let_def
  by (intro keeps_intros keeps_stable_admin keeps_stable_remove_profile)+

lemma keeps_bounded_routes:
  assumes "\<not> at_is_break_glass actor" and "\<And>aid. at_permissions actor \<subseteq> U aid"
  shows "keeps (bounded U) (handle_admin_route w actor q)"
proof (cases q)
  case (DeleteAccountR i)
  show ?thesis unfolding DeleteAccountR handle_admin_route.simps delete_account_route_def
    by (intro keeps_intros keeps_bounded_delete_account)
next
  case (CreateRoleR n ps d)
  show ?thesis unfolding CreateRoleR handle_admin_route.simps create_role_route_def
    by (intro keeps_intros keeps_bounded_create_role [OF assms])
next
  case (UpdateRoleR n ps d)
  show ?thesis unfolding UpdateRoleR handle_admin_route.simps update_role_route_def
    by (intro keeps_intros keeps_bounded_update_role [OF assms])
next
  case (DeleteRoleR n)
  show ?thesis unfolding DeleteRoleR handle_admin_route.simps delete_role_route_def
    by (intro keeps_intros keeps_bounded_delete_role)
next
  case (SetRolesR i rs)
  show ?thesis unfolding SetRolesR handle_admin_route.simps set_account_roles_route_def
    by (intro keeps_intros keeps_bounded_set_account_roles [OF assms])
qed (simp_all only: keeps_bounded_stable [OF keeps_stable_routes(1)] keeps_bounded_stable [OF keeps_stable_routes(2)]
    keeps_bounded_stable [OF keeps_stable_routes(3)] keeps_bounded_stable [OF keeps_stable_routes(4)]
    keeps_bounded_stable [OF keeps_stable_routes(5)] keeps_bounded_stable [OF keeps_stable_routes(6)]
    keeps_bounded_stable [OF keeps_stable_routes(7)] keeps_bounded_stable [OF keeps_stable_routes(8)]
    keeps_bounded_stable [OF keeps_stable_routes(9)] keeps_bounded_stable [OF keeps_stable_routes(10)]
    keeps_bounded_stable [OF keeps_stable_routes(11)])

text \<open>The accounts a run of requests acts as.\<close>

fun acting :: "(env \<times> string option \<times> admin_route) list \<Rightarrow> 'z vsys_scheme \<Rightarrow> string set" where
  "acting [] s = {}"
| "acting ((w, c, q) # qs) s =
     (case fst (get_actor w c s) of Inl e \<Rightarrow> {} | Inr actor \<Rightarrow> {at_account_id actor})
     \<union> acting qs (snd (admin_route_step w c q s))"

lemma admin_step_bounded:
  fixes s :: "'z vsys_scheme"
  assumes "bounded U s" and "\<not> presents_break_glass w c"
    and "\<And>actor aid. fst (get_actor w c s) = Inr actor \<Longrightarrow> U (at_account_id actor) \<subseteq> U aid"
  shows "bounded U (snd (admin_route_step w c q s))"
proof -
  obtain r t where g: "get_actor w c s = (r, t)" by fastforce
  have t: "bounded U t" by (rule keepsD [OF keeps_get_actor(3) assms(1) g])
  show ?thesis
  proof (cases r)
    case (Inl e)
    with g t show ?thesis by (simp add: admin_route_step_def txn_simps)
  next
    case (Inr actor)
    from g [unfolded Inr] have "\<not> at_is_break_glass actor \<and> at_permissions actor = effective (at_account_id actor) t"
    proof (cases rule: get_actor_Inr)
      case (break_glass token)
      with assms(2) show ?thesis by (simp add: presents_break_glass_def)
    qed simp
    moreover have "effective (at_account_id actor) t \<subseteq> U (at_account_id actor)"
      using t by (simp add: bounded_def)
    ultimately have "keeps (bounded U) (handle_admin_route w actor q :: ('z, unit) vop)"
      using assms(3) [of actor] g Inr by (intro keeps_bounded_routes) auto
    then have "bounded U (snd (handle_admin_route w actor q t))" using t by (simp add: keeps_def)
    with g Inr show ?thesis by (simp add: admin_route_step_def txn_simps)
  qed
qed

lemma admin_run_bounded:
  assumes "bounded U s" and "\<And>w c q. (w, c, q) \<in> set qs \<Longrightarrow> \<not> presents_break_glass w c"
    and "\<And>i aid. i \<in> acting qs s \<Longrightarrow> U i \<subseteq> U aid"
  shows "bounded U (admin_run qs s)"
  using assms
proof (induction qs arbitrary: s)
  case (Cons x qs)
  obtain w c q where x: "x = (w, c, q)" by (cases x)
  have "bounded U (snd (admin_route_step w c q s))"
    using Cons.prems(2) [of w c q] Cons.prems(3) x by (intro admin_step_bounded Cons.prems(1)) auto
  then have "bounded U (admin_run qs (snd (admin_route_step w c q s)))"
    using Cons.prems(2,3) x by (intro Cons.IH) auto
  then show ?case by (simp add: x)
qed simp

lemma admin_run_effective:
  assumes "db_ok s" and "\<And>w c q. (w, c, q) \<in> set qs \<Longrightarrow> \<not> presents_break_glass w c"
  shows "effective aid (admin_run qs s) \<subseteq> effective aid s \<union> (\<Union>i \<in> acting qs s. effective i s)"
proof -
  let ?U = "\<lambda>aid. effective aid s \<union> (\<Union>i \<in> acting qs s. effective i s)"
  have "bounded ?U (admin_run qs s)"
    by (rule admin_run_bounded) (use assms in \<open>auto simp: bounded_def\<close>)
  then show ?thesis by (simp add: bounded_def)
qed

section \<open>An owner survives every run\<close>

lemma keeps_owned_routes: "keeps owned_ok (handle_admin_route w actor q)"
proof (cases q)
  case (DeleteAccountR i)
  show ?thesis unfolding DeleteAccountR handle_admin_route.simps delete_account_route_def admin_delete_account_def delete_account_def
    by (intro keeps_intros)
next
  case (CreateRoleR n ps d)
  show ?thesis unfolding CreateRoleR handle_admin_route.simps create_role_route_def create_role_def Let_def
    by (intro keeps_intros)
next
  case (UpdateRoleR n ps d)
  show ?thesis unfolding UpdateRoleR handle_admin_route.simps update_role_route_def update_role_def Let_def
    by (intro keeps_intros)
next
  case (DeleteRoleR n)
  show ?thesis unfolding DeleteRoleR handle_admin_route.simps delete_role_route_def delete_role_def
    by (intro keeps_intros)
next
  case (SetRolesR i rs)
  show ?thesis unfolding SetRolesR handle_admin_route.simps set_account_roles_route_def set_account_roles_def Let_def
    by (intro keeps_intros)
qed (simp_all only: keeps_owned_stable [OF keeps_stable_routes(1)] keeps_owned_stable [OF keeps_stable_routes(2)]
    keeps_owned_stable [OF keeps_stable_routes(3)] keeps_owned_stable [OF keeps_stable_routes(4)]
    keeps_owned_stable [OF keeps_stable_routes(5)] keeps_owned_stable [OF keeps_stable_routes(6)]
    keeps_owned_stable [OF keeps_stable_routes(7)] keeps_owned_stable [OF keeps_stable_routes(8)]
    keeps_owned_stable [OF keeps_stable_routes(9)] keeps_owned_stable [OF keeps_stable_routes(10)]
    keeps_owned_stable [OF keeps_stable_routes(11)])

lemma admin_run_owned: "owned_ok s \<Longrightarrow> owned_ok (admin_run qs s)"
proof (induction qs arbitrary: s)
  case (Cons x qs)
  obtain w c q where x: "x = (w, c, q)" by (cases x)
  have "keeps owned_ok (admin_route_step w c q)"
    unfolding admin_route_step_def
    by (rule keeps_andthen [OF keeps_owned_stable [OF keeps_get_actor(2)] keeps_owned_routes])
  then have "owned_ok (snd (admin_route_step w c q s))" using Cons.prems unfolding keeps_def by blast
  from Cons.IH [OF this] show ?case by (simp add: x)
qed simp

section \<open>The audit trail\<close>

text \<open>What a route that succeeds records; the reads record nothing.\<close>

fun action_of :: "admin_route \<Rightarrow> audit_action option" where
  "action_of (CreateRoleR n ps d) = Some ROLE_CREATED"
| "action_of (UpdateRoleR n ps d) = Some ROLE_UPDATED"
| "action_of (DeleteRoleR n) = Some ROLE_DELETED"
| "action_of (SetRolesR i rs) = Some ROLES_ASSIGNED"
| "action_of (SetStatusR i st) = Some (if st = ACTIVE then ACCOUNT_ENABLED else ACCOUNT_DISABLED)"
| "action_of (RevokeSessionsR i) = Some ACCOUNT_SESSIONS_REVOKED"
| "action_of (IssueResetR i) = Some ACCOUNT_PASSWORD_RESET_ISSUED"
| "action_of (DeleteAccountR i) = Some ACCOUNT_DELETED"
| "action_of (DeleteAccountProfile i n) = Some PROFILE_DELETED_BY_ADMIN"
| "action_of (InviteR e) = Some ACCOUNT_INVITED"
| "action_of q = None"

fun target_of :: "admin_route \<Rightarrow> string option" where
  "target_of (SetRolesR i rs) = Some i"
| "target_of q = acts_against q"

lemma logged_routes:
  assumes "action_of q = Some a"
  shows "logged (recorded w actor a (target_of q)) (handle_admin_route w actor q)"
  using assms
  by (cases q) (simp_all only: handle_admin_route.simps admin_route_defs admin_defs andthen_assoc Let_def
        action_of.simps target_of.simps acts_against.simps option.inject option.distinct,
      (rule logged_then logged_record logged_pre never_raises_rules never_raises_andthen
        | (simp add: recorded_entry; fail) | intro keeps_intros keeps_audited_remove_profile)+)

lemma keeps_audited_reads:
  assumes "action_of q = None"
  shows "keeps (audited V) (handle_admin_route w actor q)"
  using assms
  by (cases q) (simp_all only: handle_admin_route.simps admin_route_defs admin_defs require_def require_account_def Let_def
        action_of.simps option.distinct, (intro keeps_intros)+)

end
