(* ===== verification/VaultSample.thy ===== *)
theory VaultSample
  imports VaultGuarantees Sample
begin

text \<open>
  A vault in the sample deployment: the member has a profile with a connection by API key and
  one by OAuth, the owner has one of the same name. Encryption puts the key in front, JSON
  text is a codebook, and the provider answers with a fixed token.
\<close>

section \<open>Secrets\<close>

definition sample_body :: api_key_request where
  "sample_body = \<lparr>ak_api_key = ''K'', ak_header = ''X-Key'', ak_template = ''Bearer {value}'',
     ak_in_query = False, ak_query_name = ''api_key'', ak_current_password = Some ''m''\<rparr>"

definition sample_login_form :: password_request where
  "sample_login_form = \<lparr>pw_username = ''me'', pw_password = ''pw'', pw_totp_seed = None, pw_current_password = None\<rparr>"

definition sample_token :: "string \<Rightarrow> secret" where
  "sample_token t = [(''access_token'', JStr t), (''token_type'', JStr ''Bearer''), (''expires_in'', JInt 3600),
     (''refresh_token'', JStr ''rt'')]"

definition sample_vault :: vault where
  "sample_vault = \<lparr>va_master = Some [1], va_data_key = [2], va_key_nonce = [3], va_payload_nonce = [4],
     va_encrypt = (\<lambda>k n p. k @ p),
     va_decrypt = (\<lambda>k n c. if take (length k) c = k then Some (drop (length k) c) else None),
     va_dumps = (\<lambda>s. if s = api_key_secret sample_body then [1] else if s = password_secret sample_login_form then [2]
       else if s = sample_token ''old'' then [3] else [4]),
     va_loads = (\<lambda>p. if p = [1] then Some (api_key_secret sample_body) else if p = [2] then Some (password_secret sample_login_form)
       else if p = [3] then Some (sample_token ''old'') else Some (sample_token ''fresh''))\<rparr>"

lemma sample_faithful:
  "vault_faithful sample_vault (api_key_secret sample_body)" "vault_faithful sample_vault (password_secret sample_login_form)"
  "vault_faithful sample_vault (sample_token ''fresh'')"
  by (simp_all add: vault_faithful_def sample_vault_def api_key_secret_def password_secret_def sample_body_def
      sample_login_form_def sample_token_def)

section \<open>State\<close>

definition sample_profile :: "string \<Rightarrow> string \<Rightarrow> profile_row" where
  "sample_profile a n = \<lparr>pr_id = a @ n, pr_account_id = a, pr_name = n, pr_created_at = 1, pr_updated_at = 1\<rparr>"

definition sample_connection :: "string \<Rightarrow> credential_kind \<Rightarrow> int option \<Rightarrow> connection" where
  "sample_connection sv k e = \<lparr>co_service = sv, co_kind = k, co_status = CONN_ACTIVE, co_created_at = 1,
     co_updated_at = 1, co_expires_at = e, co_scopes = [], co_stores_totp_seed = False, co_last_error = None\<rparr>"

definition sample_secret_row :: "string \<Rightarrow> string \<Rightarrow> string \<Rightarrow> secret \<Rightarrow> secret_row" where
  "sample_secret_row a n sv x = \<lparr>sr_account_id = a, sr_profile_name = n, sr_service = sv,
     sr_envelope = seal sample_vault [1] x, sr_created_at = 1, sr_updated_at = 1\<rparr>"

definition sample_binding :: flow_binding where
  "sample_binding = \<lparr>fb_account_id = ''m'', fb_profile = ''work'', fb_service = ''music'',
     fb_kind = OAUTH2_AUTHORIZATION_CODE, fb_redirect_uri = ''https://k/cb''\<rparr>"

definition sample_vault_state :: vsys where
  "sample_vault_state = \<lparr>t_accounts = t_accounts sample_state, t_account_roles = t_account_roles sample_state,
     t_roles = sample_roles, t_sessions = [], t_grants = [],
     t_profiles = [sample_profile ''m'' ''work'', sample_profile ''o'' ''work''],
     t_connections = [\<lparr>cr_account_id = ''m'', cr_profile_name = ''work'', cr_connection = sample_connection ''music'' OAUTH2_AUTHORIZATION_CODE (Some 900)\<rparr>,
       \<lparr>cr_account_id = ''o'', cr_profile_name = ''work'', cr_connection = sample_connection ''mail'' API_KEY None\<rparr>],
     t_secrets = [sample_secret_row ''m'' ''work'' ''music'' (sample_token ''old''),
       sample_secret_row ''o'' ''work'' ''mail'' (api_key_secret sample_body)],
     t_offline_grants = [], t_audit = [], t_audit_sequence = 0, m_attempts = [], m_outbox = [], m_verifications = 0,
     m_flows = [(''tst'', \<lparr>of_binding = sample_binding, of_expires_at = 2000\<rparr>)]\<rparr>"

definition sample_provider :: oauth_provider where
  "sample_provider = \<lparr>op_service = ''music'', op_authorize_url = ''https://p/a'', op_token_url = ''https://p/t'',
     op_client_id = ''c'', op_client_secret = ''s'', op_scopes = [''read''], op_audience = None\<rparr>"

definition sample_providers :: providers where
  "sample_providers = [(''music'', sample_provider)]"

definition sample_endpoint :: "unit token_endpoint" where
  "sample_endpoint = \<lparr>te_exchange_code = (\<lambda>p c u. ret (sample_token ''fresh'')), te_refresh = (\<lambda>p t. ret (sample_token ''fresh''))\<rparr>"

definition sample_world :: "unit world" where
  "sample_world = \<lparr>wo_env = sample_env, wo_vault = sample_vault, wo_providers = sample_providers,
     wo_endpoint = sample_endpoint, wo_special = (\<lambda>t k. RaisesLookup), wo_hmac_sha1 = (\<lambda>k m. replicate 20 0),
     wo_unix_time = 1000\<rparr>"

lemmas vault_sample_defs = sample_profile_def sample_connection_def sample_secret_row_def sample_vault_state_def
  sample_defs

lemma sample_vault_ok: "db_ok sample_vault_state"
  by (simp add: db_defs vault_sample_defs role_names role_key_def connection_key_def secret_key_def profile_key_def)

lemma sample_covered: "covered sample_vault_state"
proof (rule coveredI [OF sample_vault_ok])
  fix a n sv assume "envelope_get a n sv sample_vault_state \<noteq> None"
  then have "(a, n, sv) \<in> {(''m'', ''work'', ''music''), (''o'', ''work'', ''mail'')}"
    by (auto simp: envelope_get_def fetch_one_def vault_sample_defs secret_key_def split: if_splits)
  then show "conn_get a n sv sample_vault_state \<noteq> None"
    by (auto simp: conn_get_def fetch_one_def vault_sample_defs connection_key_def)
qed

lemma sample_endpoint_keeps: "keeps P (te_refresh sample_endpoint p t)" "keeps P (te_exchange_code sample_endpoint p c r)"
  by (simp_all add: sample_endpoint_def keeps_ret)

lemma sample_names:
  "normalize_profile_name ''work'' = Inr ''work''" "normalize_service_name ''mail'' = Inr ''mail''"
  "normalize_service_name ''music'' = Inr ''music''" "normalize_profile_name ''Work'' = Inr ''work''"
  "normalize_service_name ''Music '' = Inr ''music''"
  by code_simp+

section \<open>Evaluation\<close>

lemmas vault_store_eval = profile_get_fetch connections_of_def put_connection_def check_connection_cap_def
  upsert_connection_def insert_connection_def touch_profile_def conn_get_def remove_connection_def
  secret_put_def secret_get_def upsert_secret_def insert_secret_def secret_delete_def envelope_get_def
  require_master_def fetch_one_def select_where_def update_where_def delete_where_def count_where_def
  connection_key_def profile_key_def secret_key_def connection_to_def

lemmas vault_service_eval = store_direct_def admit_def announce_def confirm_password_def put_direct_credential_def
  get_profile_def require_unsealed_def service_put_connection_def announces_credential_changes_def
  change_remove_connection_def revoke_connection_def by_person_def

lemmas vault_eval = vault_store_eval vault_service_eval service_eval store_eval vault_sample_defs sample_names
  role_names

end
