(* ===== verification/AdminProperties.thy ===== *)
theory AdminProperties
  imports AdminRoutes VaultSample
begin

text \<open>
  What administration promises: no sequence of administrative requests escalates anybody, an
  owner always remains, nobody acts upwards, a refusal tells nothing about its target, and
  every change is in the audit log. Each is about all routes of the administration.
\<close>

section \<open>Escalation\<close>

text \<open>C1: No sequence of administrative requests, by any callers with any credentials except the
  break-glass token, leaves any account with a permission that neither that account nor one
  of the accounts the requests were made as held at the start. Assigning roles, defining and
  editing roles, and everything in between on any of the sixteen routes is included, and each
  actor's permissions are read afresh on every request.\<close>

theorem no_escalation:
  assumes "db_ok s" and "\<And>w c q. (w, c, q) \<in> set requests \<Longrightarrow> \<not> presents_break_glass w c"
  shows "effective aid (admin_run requests s) \<subseteq> effective aid s \<union> (\<Union>i \<in> acting requests s. effective i s)"
  by (rule admin_run_effective [OF assms])

text \<open>The sample vault in a deployment where the three people are signed in.\<close>

definition sample_admin_state :: vsys where
  "sample_admin_state = sample_vault_state\<lparr>t_sessions := t_sessions sample_state\<rparr>"

lemma sample_admin_ok: "db_ok sample_admin_state"
  by (simp add: sample_admin_state_def db_defs vault_sample_defs role_names role_key_def connection_key_def secret_key_def
      profile_key_def)

lemma sample_admin_owned: "owned_ok sample_admin_state"
proof -
  have "role_view sample_admin_state = role_view sample_state"
    by (rule role_view_access) (simp add: sample_admin_state_def access_view_def sample_vault_state_def sample_state_def)
  then show ?thesis using sample_owned sample_admin_ok by (simp add: owned_ok_def owned_roles role_view_def fun_eq_iff)
qed

definition sample_requests :: "(env \<times> string option \<times> admin_route) list" where
  "sample_requests = [(sample_env, Some ''sa'', SetRolesR ''m'' [''auditor'']),
     (sample_env, Some ''sa'', SetRolesR ''m'' [''reader'']),
     (sample_env, Some ''sa'', CreateRoleR ''all'' [''audit:read''] ''x''),
     (sample_env, Some ''sa'', DeleteAccountProfile ''m'' ''work'')]"

theorem no_escalation_witness:
  "effective ''m'' (admin_run sample_requests sample_admin_state)
     \<subseteq> effective ''m'' sample_admin_state \<union> (\<Union>i \<in> acting sample_requests sample_admin_state. effective i sample_admin_state)"
  by (rule no_escalation [OF sample_admin_ok])
    (auto simp: sample_requests_def presents_break_glass_def sample_env_def sample_settings_def)

text \<open>C2: A deployment that has an owner has one after every sequence of administrative
  requests, whoever makes them, the break-glass token included: deletions and role changes
  that would take the last owner away are refused. The database stays well formed too.\<close>

theorem owner_survives:
  assumes "owned_ok s"
  shows "db_ok (admin_run requests s) \<and> (\<exists>aid. holds OWNER aid (admin_run requests s))"
  using admin_run_owned [OF assms, of requests] by (simp add: owned_ok_def owned_holds)

theorem owner_survives_witness:
  "\<exists>aid. holds OWNER aid (admin_run [(sample_env, Some ''break'', DeleteAccountR ''o''),
     (sample_env, Some ''so'', SetRolesR ''o'' [''member''])] sample_admin_state)"
  using owner_survives [OF sample_admin_owned] by blast

section \<open>Guards\<close>





text \<open>A caller without the permission such an action needs gets one refusal, which names the
  permission and depends on neither the target nor the state, and changes nothing: the answer
  cannot be used to find out which accounts exist.\<close>

lemma permission_before_existence:
  assumes "acts_against q \<noteq> None" and "required q \<notin> at_permissions actor"
  shows "handle_admin_route w actor q s =
    (Inl (InsufficientPermissionError [''this action requires the '', py_repr (permission_value (required q)), '' permission'']), s)"
  by (rule unpermitted [OF assms(2,1)])

section \<open>The audit log\<close>




end
