(* ===== verification/Times.thy ===== *)
theory Times
  imports Errors
begin

text \<open>
  \<^verbatim>\<open>src/src/keyring_api/storage/times.py\<close>: how an aware datetime becomes a text column and
  comes back. A datetime is the tuple of fields the Python object holds; the only zone the
  program creates is UTC, so awareness is a flag. \<open>instant_of\<close> is the number of
  microseconds the fields denote, by the day count of the standard library. The two theorems
  the stores rest on are here: the column order is the chronological order, and reading back
  what was written gives the same datetime. The other theories therefore hold instants as
  integers (microseconds) and compare those.
\<close>

section \<open>Datetimes\<close>

record datetime =
  dt_year :: nat
  dt_month :: nat
  dt_day :: nat
  dt_hour :: nat
  dt_minute :: nat
  dt_second :: nat
  dt_microsecond :: nat
  dt_aware :: bool

definition is_leap :: "nat \<Rightarrow> bool" where
  "is_leap y \<longleftrightarrow> y mod 4 = 0 \<and> (y mod 100 \<noteq> 0 \<or> y mod 400 = 0)"

fun days_in_month :: "nat \<Rightarrow> nat \<Rightarrow> nat" where
  "days_in_month y m =
     (if m = 2 then (if is_leap y then 29 else 28)
      else if m \<in> {4, 6, 9, 11} then 30 else 31)"

definition days_before_year :: "nat \<Rightarrow> int" where
  "days_before_year y =
     (let n = int y - 1 in n * 365 + n div 4 - n div 100 + n div 400)"

definition days_before_month :: "nat \<Rightarrow> nat \<Rightarrow> int" where
  "days_before_month y m = (\<Sum>k \<in> {1..<m}. int (days_in_month y k))"

definition ordinal :: "datetime \<Rightarrow> int" where
  "ordinal d = days_before_year (dt_year d) + days_before_month (dt_year d) (dt_month d) + int (dt_day d)"

definition time_of_day :: "datetime \<Rightarrow> int" where
  "time_of_day d =
     ((int (dt_hour d) * 60 + int (dt_minute d)) * 60 + int (dt_second d)) * 1000000
       + int (dt_microsecond d)"

definition instant_of :: "datetime \<Rightarrow> int" where
  "instant_of d = ordinal d * 86400000000 + time_of_day d"

text \<open>What the \<open>datetime\<close> constructor accepts.\<close>

definition valid :: "datetime \<Rightarrow> bool" where
  "valid d \<longleftrightarrow> 1 \<le> dt_year d \<and> dt_year d \<le> 9999 \<and> 1 \<le> dt_month d \<and> dt_month d \<le> 12
     \<and> 1 \<le> dt_day d \<and> dt_day d \<le> days_in_month (dt_year d) (dt_month d)
     \<and> dt_hour d < 24 \<and> dt_minute d < 60 \<and> dt_second d < 60 \<and> dt_microsecond d < 1000000"

type_synonym fields = "nat \<times> nat \<times> nat \<times> nat \<times> nat \<times> nat \<times> nat"

definition fields_of :: "datetime \<Rightarrow> fields" where
  "fields_of d = (dt_year d, dt_month d, dt_day d, dt_hour d, dt_minute d, dt_second d, dt_microsecond d)"

section \<open>The column\<close>

text \<open>Decimal numbers of a fixed width.\<close>

fun dec :: "nat \<Rightarrow> nat \<Rightarrow> string" where
  "dec 0 n = []"
| "dec (Suc w) n = dec w (n div 10) @ [char_of (48 + n mod 10)]"

definition digit_of :: "char \<Rightarrow> nat option" where
  "digit_of c = (let k = of_char c in if 48 \<le> k \<and> k \<le> 57 then Some (k - 48) else None)"

fun undec :: "nat \<Rightarrow> string \<Rightarrow> nat option" where
  "undec acc [] = Some acc"
| "undec acc (c # s) = (case digit_of c of None \<Rightarrow> None | Some k \<Rightarrow> undec (acc * 10 + k) s)"

text \<open>\<open>isoformat(timespec="microseconds")\<close> of a UTC datetime.\<close>

definition isoformat :: "datetime \<Rightarrow> string" where
  "isoformat d =
     dec 4 (dt_year d) @ ''-'' @ dec 2 (dt_month d) @ ''-'' @ dec 2 (dt_day d) @ ''T''
     @ dec 2 (dt_hour d) @ '':'' @ dec 2 (dt_minute d) @ '':'' @ dec 2 (dt_second d) @ ''.''
     @ dec 6 (dt_microsecond d) @ ''+00:00''"

definition to_column :: "datetime \<Rightarrow> string result" where
  "to_column d =
     (if \<not> dt_aware d
      then Inl (Unhandled [''refusing to store a naive datetime: it has no unambiguous instant''])
      else Inr (isoformat d))"

text \<open>
  \<open>datetime.fromisoformat\<close> on the one shape \<open>to_column\<close> writes; the other shapes the
  standard library accepts are never in a column.
\<close>

definition from_column :: "string \<Rightarrow> datetime result" where
  "from_column raw =
     (let num = (\<lambda>i w. undec 0 (take w (drop i raw)));
          sep = (\<lambda>i. take 1 (drop i raw))
      in if length raw = 32 \<and> sep 4 = ''-'' \<and> sep 7 = ''-'' \<and> sep 10 = ''T'' \<and> sep 13 = '':''
            \<and> sep 16 = '':'' \<and> sep 19 = ''.'' \<and> drop 26 raw = ''+00:00''
         then (case (num 0 4, num 5 2, num 8 2, num 11 2, num 14 2, num 17 2, num 20 6) of
                 (Some y, Some mo, Some d, Some h, Some mi, Some s, Some us) \<Rightarrow>
                   (let r = \<lparr>dt_year = y, dt_month = mo, dt_day = d, dt_hour = h, dt_minute = mi,
                             dt_second = s, dt_microsecond = us, dt_aware = True\<rparr>
                    in if valid r then Inr r else Inl (Unhandled [''Invalid isoformat string'']))
               | _ \<Rightarrow> Inl (Unhandled [''Invalid isoformat string'']))
         else Inl (Unhandled [''Invalid isoformat string'']))"

definition to_column_optional :: "datetime option \<Rightarrow> string option result" where
  "to_column_optional v =
     (case v of None \<Rightarrow> Inr None
      | Some d \<Rightarrow> (case to_column d of Inl e \<Rightarrow> Inl e | Inr s \<Rightarrow> Inr (Some s)))"

definition from_column_optional :: "string option \<Rightarrow> datetime option result" where
  "from_column_optional raw =
     (case raw of None \<Rightarrow> Inr None
      | Some s \<Rightarrow> (case from_column s of Inl e \<Rightarrow> Inl e | Inr d \<Rightarrow> Inr (Some d)))"

section \<open>Decimal numbers\<close>

lemma length_dec [simp]: "length (dec w n) = w"
  by (induction w arbitrary: n) auto

lemma digit_char: "k < 10 \<Longrightarrow> (of_char (char_of (48 + k) :: char) :: nat) = 48 + k"
  by simp

lemma dec_less:
  "n < 10 ^ w \<Longrightarrow> m < 10 ^ w \<Longrightarrow> (dec w n < dec w m \<longleftrightarrow> n < m) \<and> (dec w n = dec w m \<longleftrightarrow> n = m)"
proof (induction w arbitrary: n m)
  case 0
  then show ?case by simp
next
  case (Suc w)
  have IH: "(dec w (n div 10) < dec w (m div 10) \<longleftrightarrow> n div 10 < m div 10)
      \<and> (dec w (n div 10) = dec w (m div 10) \<longleftrightarrow> n div 10 = m div 10)"
    using Suc.prems by (intro Suc.IH) auto
  have digit: "[char_of (48 + n mod 10) :: char] < [char_of (48 + m mod 10)] \<longleftrightarrow> n mod 10 < m mod 10"
    by (simp add: less_char_def digit_char)
  have same: "(char_of (48 + n mod 10) :: char) = char_of (48 + m mod 10) \<longleftrightarrow> n mod 10 = m mod 10"
    by (metis digit_char add_left_cancel mod_less_divisor zero_less_numeral)
  have "a * 10 + b < c * 10 + d \<longleftrightarrow> a < c \<or> (a = c \<and> b < d)" if "b < 10" "d < 10" for a b c d :: nat
    using that by linarith
  from this [of "n mod 10" "m mod 10" "n div 10" "m div 10"]
  have "n < m \<longleftrightarrow> n div 10 < m div 10 \<or> (n div 10 = m div 10 \<and> n mod 10 < m mod 10)"
    by simp
  moreover have "n = m \<longleftrightarrow> n div 10 = m div 10 \<and> n mod 10 = m mod 10"
    by (metis div_mult_mod_eq)
  ultimately show ?case
    using IH digit same by (simp add: append_less_append)
qed

lemma undec_append: "undec acc (s @ t) = (case undec acc s of None \<Rightarrow> None | Some k \<Rightarrow> undec k t)"
  by (induction s arbitrary: acc) (auto split: option.splits)

lemma undec_dec: "n < 10 ^ w \<Longrightarrow> undec acc (dec w n) = Some (acc * 10 ^ w + n)"
proof (induction w arbitrary: n)
  case (Suc w)
  have "digit_of (char_of (48 + n mod 10)) = Some (n mod 10)"
    by (simp add: digit_of_def Let_def)
  moreover have "undec acc (dec w (n div 10)) = Some (acc * 10 ^ w + n div 10)"
    using Suc.prems by (intro Suc.IH) auto
  ultimately show ?case by (simp add: undec_append algebra_simps)
qed simp

section \<open>The calendar is monotone\<close>

lemma div_pred:
  fixes n k :: int
  assumes "0 < k"
  shows "n div k = (n - 1) div k + (if n mod k = 0 then 1 else 0)"
proof (cases "n mod k = 0")
  case True
  then have "n = k * (n div k)" by (metis add.right_neutral mult_div_mod_eq)
  then have "n - 1 = k * (n div k - 1) + (k - 1)" by (simp add: right_diff_distrib)
  then have "(n - 1) div k = n div k - 1"
    using assms by (intro int_div_pos_eq [of _ _ _ "k - 1"]) auto
  with True show ?thesis by simp
next
  case False
  with assms have "0 < n mod k" by (simp add: order_less_le)
  then have "(n - 1) div k = n div k"
    using assms pos_mod_bound [OF assms, of n]
    by (intro int_div_pos_eq [of _ _ _ "n mod k - 1"]) auto
  with False show ?thesis by simp
qed

lemma days_before_year_Suc:
  "days_before_year (Suc y) = days_before_year y + (if is_leap y then 366 else 365)"
proof -
  have m: "int y mod 4 = 0 \<longleftrightarrow> y mod 4 = 0" "int y mod 100 = 0 \<longleftrightarrow> y mod 100 = 0"
    "int y mod 400 = 0 \<longleftrightarrow> y mod 400 = 0"
    using of_nat_mod [of y 4, where ?'a = int] of_nat_mod [of y 100, where ?'a = int]
      of_nat_mod [of y 400, where ?'a = int] by (metis of_nat_eq_0_iff of_nat_numeral)+
  have d4: "int y div 4 = (int y - 1) div 4 + (if y mod 4 = 0 then 1 else 0)"
    by (subst div_pred) (simp_all only: m zero_less_numeral)
  have d100: "int y div 100 = (int y - 1) div 100 + (if y mod 100 = 0 then 1 else 0)"
    by (subst div_pred) (simp_all only: m zero_less_numeral)
  have d400: "int y div 400 = (int y - 1) div 400 + (if y mod 400 = 0 then 1 else 0)"
    by (subst div_pred) (simp_all only: m zero_less_numeral)
  have sub: "y mod 400 = 0 \<Longrightarrow> y mod 100 = 0" "y mod 100 = 0 \<Longrightarrow> y mod 4 = 0"
    using dvd_trans [of 100 400 y] dvd_trans [of 4 100 y] by (simp_all add: mod_eq_0_iff_dvd)
  have next_year: "days_before_year (Suc y) = int y * 365 + int y div 4 - int y div 100 + int y div 400"
    by (simp add: days_before_year_def Let_def)
  have this_year: "days_before_year y
      = (int y - 1) * 365 + (int y - 1) div 4 - (int y - 1) div 100 + (int y - 1) div 400"
    by (simp add: days_before_year_def Let_def)
  have leap: "(if is_leap y then 366 else 365 :: int)
      = 365 + (if y mod 4 = 0 then 1 else 0) - (if y mod 100 = 0 then 1 else 0)
        + (if y mod 400 = 0 then 1 else 0)"
    using sub by (simp add: is_leap_def)
  show ?thesis
    unfolding next_year this_year leap d4 d100 d400 by simp
qed

lemma days_before_year_less: "y < y' \<Longrightarrow> days_before_year y + 365 + (if is_leap y then 1 else 0) \<le> days_before_year y'"
  by (induction y' rule: nat_induct) (auto simp: less_Suc_eq days_before_year_Suc)

lemma days_before_month_Suc:
  "1 \<le> m \<Longrightarrow> days_before_month y (Suc m) = days_before_month y m + int (days_in_month y m)"
  by (simp add: days_before_month_def atLeastLessThanSuc)

lemma days_before_month_less:
  "1 \<le> m \<Longrightarrow> m < m' \<Longrightarrow> days_before_month y m + int (days_in_month y m) \<le> days_before_month y m'"
  by (induction m' rule: nat_induct) (auto simp: less_Suc_eq days_before_month_Suc simp del: days_in_month.simps)

lemma days_before_month_nonneg: "0 \<le> days_before_month y m"
  by (simp add: days_before_month_def sum_nonneg)

lemma days_in_year:
  assumes "m \<le> 12" and "1 \<le> m"
  shows "days_before_month y m + int (days_in_month y m) \<le> 365 + (if is_leap y then 1 else 0)"
proof -
  have "days_before_month y m + int (days_in_month y m) \<le> days_before_month y 13"
    using assms by (intro days_before_month_less) auto
  also have "days_before_month y 13 = 365 + (if is_leap y then 1 else 0)"
    by (simp add: days_before_month_def numeral_eq_Suc atLeastLessThanSuc)
  finally show ?thesis .
qed

text \<open>A date later in the order of its fields has a larger day number.\<close>

lemma ordinal_less:
  assumes "valid d" and "valid e"
    and "(dt_year d, dt_month d, dt_day d) < (dt_year e, dt_month e, dt_day e)"
  shows "ordinal d < ordinal e"
proof -
  have in_year: "days_before_month (dt_year d) (dt_month d) + int (dt_day d)
      \<le> 365 + (if is_leap (dt_year d) then 1 else 0)"
    using assms(1) days_in_year [of "dt_month d" "dt_year d"]
    by (simp add: valid_def del: days_in_month.simps)
  from assms(3) consider (year) "dt_year d < dt_year e"
    | (month) "dt_year d = dt_year e" "dt_month d < dt_month e"
    | (day) "dt_year d = dt_year e" "dt_month d = dt_month e" "dt_day d < dt_day e"
    unfolding pair_less by blast
  then show ?thesis
  proof cases
    case year
    then show ?thesis
      using days_before_year_less [OF year] in_year assms(2)
        days_before_month_nonneg [of "dt_year e" "dt_month e"]
      by (simp add: ordinal_def valid_def split: if_splits)
  next
    case month
    with assms(1,2) days_before_month_less [OF _ month(2), of "dt_year d"] show ?thesis
      by (simp add: ordinal_def valid_def del: days_in_month.simps)
  next
    case day
    then show ?thesis by (simp add: ordinal_def)
  qed
qed

lemma time_of_day_bounds: "valid d \<Longrightarrow> 0 \<le> time_of_day d \<and> time_of_day d < 86400000000"
  by (auto simp: valid_def time_of_day_def)

lemma time_of_day_less:
  assumes "valid d" and "valid e"
    and "(dt_hour d, dt_minute d, dt_second d, dt_microsecond d)
         < (dt_hour e, dt_minute e, dt_second e, dt_microsecond e)"
  shows "time_of_day d < time_of_day e"
  using assms by (auto simp: pair_less valid_def time_of_day_def
      simp del: less_prod_simp days_in_month.simps)

lemma instant_less:
  assumes "valid d" and "valid e" and "fields_of d < fields_of e"
  shows "instant_of d < instant_of e"
proof -
  from assms(3) consider (date) "(dt_year d, dt_month d, dt_day d) < (dt_year e, dt_month e, dt_day e)"
    | (time) "(dt_year d, dt_month d, dt_day d) = (dt_year e, dt_month e, dt_day e)"
        "(dt_hour d, dt_minute d, dt_second d, dt_microsecond d)
         < (dt_hour e, dt_minute e, dt_second e, dt_microsecond e)"
    unfolding fields_of_def pair_less prod.inject by blast
  then show ?thesis
  proof cases
    case date
    then have "ordinal d < ordinal e" by (rule ordinal_less [OF assms(1,2)])
    then show ?thesis
      using time_of_day_bounds [OF assms(1)] time_of_day_bounds [OF assms(2)]
      by (simp add: instant_of_def)
  next
    case time
    then show ?thesis
      using time_of_day_less [OF assms(1,2) time(2)]
      by (simp add: instant_of_def ordinal_def)
  qed
qed

lemma instant_less_iff:
  assumes "valid d" and "valid e"
  shows "instant_of d < instant_of e \<longleftrightarrow> fields_of d < fields_of e"
    and "instant_of d = instant_of e \<longleftrightarrow> fields_of d = fields_of e"
proof -
  have "fields_of d = fields_of e \<Longrightarrow> instant_of d = instant_of e"
    by (simp add: fields_of_def instant_of_def ordinal_def time_of_day_def)
  then show "instant_of d < instant_of e \<longleftrightarrow> fields_of d < fields_of e"
    and "instant_of d = instant_of e \<longleftrightarrow> fields_of d = fields_of e"
    using instant_less [OF assms] instant_less [OF assms(2,1)]
    by (metis linorder_less_linear order_less_irrefl order_less_asym)+
qed

section \<open>The column order and the round trip\<close>

lemma isoformat_less:
  assumes "valid d" and "valid e"
  shows "isoformat d < isoformat e \<longleftrightarrow> fields_of d < fields_of e"
proof -
  have dec4: "n < 10000 \<Longrightarrow> m < 10000 \<Longrightarrow> (dec 4 n < dec 4 m \<longleftrightarrow> n < m) \<and> (dec 4 n = dec 4 m \<longleftrightarrow> n = m)"
    and dec2: "n < 100 \<Longrightarrow> m < 100 \<Longrightarrow> (dec 2 n < dec 2 m \<longleftrightarrow> n < m) \<and> (dec 2 n = dec 2 m \<longleftrightarrow> n = m)"
    and dec6: "n < 1000000 \<Longrightarrow> m < 1000000 \<Longrightarrow> (dec 6 n < dec 6 m \<longleftrightarrow> n < m) \<and> (dec 6 n = dec 6 m \<longleftrightarrow> n = m)"
    for n m
    using dec_less [of n 4 m] dec_less [of n 2 m] dec_less [of n 6 m] by simp_all
  have bounds: "valid x \<Longrightarrow> dt_year x < 10000 \<and> dt_month x < 100 \<and> dt_day x < 100 \<and> dt_hour x < 100
      \<and> dt_minute x < 100 \<and> dt_second x < 100 \<and> dt_microsecond x < 1000000" for x
    by (auto simp: valid_def split: if_splits)
  note b = bounds [OF assms(1)] bounds [OF assms(2)]
  have block: "length a = length b \<Longrightarrow> a @ c # x < b @ c # y \<longleftrightarrow> a < b \<or> (a = b \<and> x < y)"
    for a b x y :: string and c
    by (simp add: append_less_append)
  show ?thesis
    unfolding isoformat_def fields_of_def pair_less append_Cons append_Nil
    using b by (simp only: block length_dec dec4 dec2 dec6 order.irrefl simp_thms)
qed

text \<open>The text order of the columns is the order of the instants they denote.\<close>

lemma to_column_order:
  assumes "valid d" and "valid e" and "dt_aware d" and "dt_aware e"
  shows "\<exists>s t. to_column d = Inr s \<and> to_column e = Inr t
    \<and> (s < t \<longleftrightarrow> instant_of d < instant_of e) \<and> (s = t \<longleftrightarrow> instant_of d = instant_of e)"
proof -
  have "isoformat d < isoformat e \<longleftrightarrow> instant_of d < instant_of e"
    and "isoformat e < isoformat d \<longleftrightarrow> instant_of e < instant_of d"
    using assms by (simp_all add: isoformat_less instant_less_iff)
  then have "isoformat d = isoformat e \<longleftrightarrow> instant_of d = instant_of e"
    by (metis linorder_less_linear order_less_irrefl)
  then show ?thesis
    using assms \<open>isoformat d < isoformat e \<longleftrightarrow> instant_of d < instant_of e\<close>
    by (simp add: to_column_def)
qed

lemma length_isoformat: "length (isoformat d) = 32"
  by (simp add: isoformat_def)

lemma isoformat_slices:
  "take 4 (isoformat d) = dec 4 (dt_year d)"
  "take 2 (drop 5 (isoformat d)) = dec 2 (dt_month d)"
  "take 2 (drop 8 (isoformat d)) = dec 2 (dt_day d)"
  "take 2 (drop 11 (isoformat d)) = dec 2 (dt_hour d)"
  "take 2 (drop 14 (isoformat d)) = dec 2 (dt_minute d)"
  "take 2 (drop 17 (isoformat d)) = dec 2 (dt_second d)"
  "take 6 (drop 20 (isoformat d)) = dec 6 (dt_microsecond d)"
  "drop 26 (isoformat d) = ''+00:00''"
  "take 1 (drop 4 (isoformat d)) = ''-''" "take 1 (drop 7 (isoformat d)) = ''-''"
  "take 1 (drop 10 (isoformat d)) = ''T''" "take 1 (drop 13 (isoformat d)) = '':''"
  "take 1 (drop 16 (isoformat d)) = '':''" "take 1 (drop 19 (isoformat d)) = ''.''"
  by (simp_all add: isoformat_def)

text \<open>A stored datetime reads back as itself.\<close>

lemma from_to_column:
  assumes "valid d" and "dt_aware d" and "to_column d = Inr s"
  shows "from_column s = Inr d"
proof -
  from assms have s: "s = isoformat d" by (simp add: to_column_def)
  have b: "dt_year d < 10000" "dt_month d < 100" "dt_day d < 100" "dt_hour d < 100"
      "dt_minute d < 100" "dt_second d < 100" "dt_microsecond d < 1000000"
    using assms(1) by (auto simp: valid_def split: if_splits)
  note u = undec_dec [of "dt_year d" 4 0] undec_dec [of "dt_month d" 2 0]
    undec_dec [of "dt_day d" 2 0] undec_dec [of "dt_hour d" 2 0] undec_dec [of "dt_minute d" 2 0]
    undec_dec [of "dt_second d" 2 0] undec_dec [of "dt_microsecond d" 6 0]
  have "\<lparr>dt_year = dt_year d, dt_month = dt_month d, dt_day = dt_day d, dt_hour = dt_hour d,
      dt_minute = dt_minute d, dt_second = dt_second d, dt_microsecond = dt_microsecond d,
      dt_aware = True\<rparr> = d"
    using assms(2) by simp
  then show ?thesis
    unfolding s from_column_def Let_def
    using b u assms(1) by (simp add: isoformat_slices length_isoformat del: One_nat_def)
qed

end
