(* ===== verification/Outbox.thy ===== *)
theory Outbox
  imports Sys
begin

text \<open>
  \<^verbatim>\<open>src/src/keyring_api/notifications/outbox.py\<close> with its tasks, and the shutdown of
  \<^verbatim>\<open>core/container.py\<close> that drains it. The services see only which messages are pending
  (\<open>outbox_enqueue\<close>); here each message is a task with a fate.
\<close>

section \<open>Tasks\<close>

datatype fate = Sent | NotSent | Cancelled

record outbox =
  ob_pending :: "(nat \<times> mail) list"
  ob_next :: nat
  ob_settled :: "(nat \<times> mail \<times> fate) list"

definition empty_outbox :: outbox where
  "empty_outbox = \<lparr>ob_pending = [], ob_next = 0, ob_settled = []\<rparr>"

definition ob_enqueue :: "bool \<Rightarrow> mail \<Rightarrow> outbox \<Rightarrow> bool \<times> outbox" where
  "ob_enqueue is_enabled m b =
     (if \<not> is_enabled then (False, b)
      else if length (ob_pending b) \<ge> MAX_PENDING then (False, b)
      else (True, b\<lparr>ob_pending := ob_pending b @ [(ob_next b, m)], ob_next := Suc (ob_next b)\<rparr>))"

text \<open>A task is done and its callback discards it; a sender reports success and never raises.\<close>

definition ob_finish :: "nat \<Rightarrow> bool \<Rightarrow> outbox \<Rightarrow> outbox" where
  "ob_finish i ok b =
     (case map_of (ob_pending b) i of
        None \<Rightarrow> b
      | Some m \<Rightarrow> b\<lparr>ob_pending := filter (\<lambda>(j, m). j \<noteq> i) (ob_pending b),
                    ob_settled := ob_settled b @ [(i, m, if ok then Sent else NotSent)]\<rparr>)"

definition DRAIN_TIMEOUT_SECONDS :: rat where "DRAIN_TIMEOUT_SECONDS = 10"

text \<open>
  The seconds each pending task still needs and what it will report; \<open>None\<close> never ends. A task
  that has not ended when the timeout fires is cancelled with the gather that waits for it.
\<close>

definition fate_of :: "(rat \<times> bool) option \<Rightarrow> fate" where
  "fate_of r =
     (case r of
        None \<Rightarrow> Cancelled
      | Some (t, ok) \<Rightarrow> if t < DRAIN_TIMEOUT_SECONDS then (if ok then Sent else NotSent) else Cancelled)"

definition wait_of :: "(rat \<times> bool) option \<Rightarrow> rat" where
  "wait_of r = (case r of None \<Rightarrow> DRAIN_TIMEOUT_SECONDS | Some (t, ok) \<Rightarrow> min t DRAIN_TIMEOUT_SECONDS)"

definition settle :: "(nat \<Rightarrow> (rat \<times> bool) option) \<Rightarrow> (nat \<times> mail) list \<Rightarrow> (nat \<times> mail \<times> fate) list" where
  "settle needs pending = map (\<lambda>(i, m). (i, m, fate_of (needs i))) pending"

definition drain :: "(nat \<Rightarrow> (rat \<times> bool) option) \<Rightarrow> outbox \<Rightarrow> rat \<times> outbox" where
  "drain needs b =
     (if ob_pending b = [] then (0, b)
      else (fold max (map (\<lambda>(i, m). wait_of (needs i)) (ob_pending b)) 0,
            b\<lparr>ob_pending := [], ob_settled := ob_settled b @ settle needs (ob_pending b)\<rparr>))"

datatype outbox_event = Enqueue bool mail | Finish nat bool

fun outbox_run :: "outbox_event list \<Rightarrow> outbox \<Rightarrow> outbox" where
  "outbox_run [] b = b"
| "outbox_run (Enqueue en m # es) b = outbox_run es (snd (ob_enqueue en m b))"
| "outbox_run (Finish i ok # es) b = outbox_run es (ob_finish i ok b)"

section \<open>What becomes of a message\<close>

text \<open>Every message that was accepted is either pending or settled, once.\<close>

definition outbox_ok :: "outbox \<Rightarrow> bool" where
  "outbox_ok b \<longleftrightarrow> length (ob_pending b) \<le> MAX_PENDING
     \<and> distinct (map fst (ob_pending b) @ map fst (ob_settled b))
     \<and> set (map fst (ob_pending b) @ map fst (ob_settled b)) = {..< ob_next b}"

lemma outbox_ok_empty: "outbox_ok empty_outbox"
  by (simp add: outbox_ok_def empty_outbox_def)

lemma outbox_ok_enqueue: "outbox_ok b \<Longrightarrow> outbox_ok (snd (ob_enqueue en m b))"
proof -
  assume b: "outbox_ok b"
  then have "ob_next b \<notin> set (map fst (ob_pending b) @ map fst (ob_settled b))" by (simp only: outbox_ok_def) simp
  with b show ?thesis by (auto simp: outbox_ok_def ob_enqueue_def)
qed

lemma outbox_ok_finish: "outbox_ok b \<Longrightarrow> outbox_ok (ob_finish i ok b)"
proof (cases "map_of (ob_pending b) i")
  case (Some m)
  assume b: "outbox_ok b"
  have i: "i \<in> fst ` set (ob_pending b)" using Some by (metis domI dom_map_of_conv_image_fst)
  have f: "fst ` set (filter (\<lambda>(j, m). j \<noteq> i) (ob_pending b)) = fst ` set (ob_pending b) - {i}"
    "map fst (filter (\<lambda>(j, m). j \<noteq> i) xs) = filter (\<lambda>j. j \<noteq> i) (map fst xs)" for xs :: "(nat \<times> mail) list"
    by (auto simp: filter_map o_def case_prod_unfold)
  have "length (filter (\<lambda>(j, m). j \<noteq> i) (ob_pending b)) \<le> MAX_PENDING"
    using b order_trans [OF length_filter_le] unfolding outbox_ok_def by blast
  moreover have "{..<ob_next b} = insert i (fst ` set (ob_pending b) - {i} \<union> fst ` set (ob_settled b))"
    using b i by (auto simp: outbox_ok_def)
  moreover have "i \<notin> fst ` set (ob_settled b)" using b i by (auto simp: outbox_ok_def)
  ultimately show ?thesis using b f(1) by (auto simp: outbox_ok_def ob_finish_def Some f(2))
qed (simp add: ob_finish_def)

lemma outbox_ok_run: "outbox_ok b \<Longrightarrow> outbox_ok (outbox_run es b)"
  by (induction es b rule: outbox_run.induct) (simp_all add: outbox_ok_enqueue outbox_ok_finish)

lemma outbox_ok_drain: "outbox_ok b \<Longrightarrow> outbox_ok (snd (drain needs b)) \<and> ob_pending (snd (drain needs b)) = []"
proof -
  assume b: "outbox_ok b"
  have fsts: "map fst (settle needs xs) = map fst xs" for xs by (induction xs) (auto simp: settle_def)
  have sets: "fst ` set (settle needs xs) = fst ` set xs" for xs using arg_cong [OF fsts, of set] by simp
  have "set (map fst (ob_settled b) @ map fst (ob_pending b)) = {..<ob_next b}"
    "distinct (map fst (ob_settled b) @ map fst (ob_pending b))" using b by (auto simp: outbox_ok_def)
  then have "outbox_ok (b\<lparr>ob_pending := [], ob_settled := ob_settled b @ settle needs (ob_pending b)\<rparr>)"
    by (simp add: outbox_ok_def fsts sets)
  with b show ?thesis by (simp add: drain_def)
qed

lemma fold_max_le: "(\<And>x. x \<in> set xs \<Longrightarrow> x \<le> k) \<Longrightarrow> a \<le> k \<Longrightarrow> fold max xs a \<le> (k :: rat)"
  by (induction xs arbitrary: a) simp_all

lemma drain_bounded: "fst (drain needs b) \<le> DRAIN_TIMEOUT_SECONDS"
  by (auto simp: drain_def wait_of_def intro!: fold_max_le split: option.split)
    (simp_all add: DRAIN_TIMEOUT_SECONDS_def)

lemma drain_sends:
  assumes "(i, m) \<in> set (ob_pending b)" and "needs i = Some (t, True)" and "t < DRAIN_TIMEOUT_SECONDS"
  shows "(i, m, Sent) \<in> set (ob_settled (snd (drain needs b)))"
  using assms by (force simp: drain_def settle_def fate_of_def)

text \<open>The list of pending messages is all the services can see of it.\<close>

lemma outbox_abstracts:
  "(fst (ob_enqueue en m b), map snd (ob_pending (snd (ob_enqueue en m b)))) = outbox_enqueue en m (map snd (ob_pending b))"
  by (simp add: ob_enqueue_def outbox_enqueue_def)

lemma filter_other_keys: "i \<notin> fst ` set xs \<Longrightarrow> filter (\<lambda>(j, m). j \<noteq> i) xs = xs"
  by (induction xs) auto

lemma finish_abstracts:
  assumes "distinct (map fst (ob_pending b))" and "k < length (ob_pending b)" and "fst (ob_pending b ! k) = i"
  shows "map snd (ob_pending (ob_finish i ok b)) = outbox_done k (map snd (ob_pending b))"
proof -
  let ?xs = "ob_pending b"
  have split: "?xs = take k ?xs @ (i, snd (?xs ! k)) # drop (Suc k) ?xs"
    using id_take_nth_drop [OF assms(2)] assms(3) by (metis prod.collapse)
  then have "distinct (map fst (take k ?xs @ (i, snd (?xs ! k)) # drop (Suc k) ?xs))" using assms(1) by metis
  then have out: "i \<notin> fst ` set (take k ?xs)" "i \<notin> fst ` set (drop (Suc k) ?xs)" by auto
  have "filter (\<lambda>(j, m). j \<noteq> i) ?xs = filter (\<lambda>(j, m). j \<noteq> i) (take k ?xs @ (i, snd (?xs ! k)) # drop (Suc k) ?xs)"
    using split by metis
  also have "\<dots> = take k ?xs @ drop (Suc k) ?xs" using out by (simp add: filter_other_keys)
  finally have f: "filter (\<lambda>(j, m). j \<noteq> i) ?xs = take k ?xs @ drop (Suc k) ?xs" .
  have "map_of ?xs i = Some (snd (?xs ! k))"
    using assms by (metis map_of_eq_Some_iff nth_mem prod.collapse)
  then show ?thesis by (simp add: ob_finish_def outbox_done_def f take_map drop_map)
qed

section \<open>Shutting down\<close>

text \<open>The parts a container closes, in order; each may raise.\<close>

datatype part = Sweeper | OutboxDrain | Sender | PreferenceClient | TokenClient | DatabasePart

fun close_until :: "(part \<Rightarrow> error option) \<Rightarrow> part list \<Rightarrow> part list \<times> error option" where
  "close_until raises [] = ([], None)"
| "close_until raises (p # ps) =
     (case raises p of
        Some e \<Rightarrow> ([p], Some e)
      | None \<Rightarrow> (case close_until raises ps of (done, r) \<Rightarrow> (p # done, r)))"

definition container_aclose :: "bool \<Rightarrow> (part \<Rightarrow> error option) \<Rightarrow> part list \<times> error option" where
  "container_aclose sweeping raises =
     (let (before, stopped) = (if sweeping then close_until raises [Sweeper] else ([], None)) in
      case stopped of
        Some e \<Rightarrow> (before, Some e)
      | None \<Rightarrow>
          (let (closed, failed) = close_until raises [OutboxDrain, Sender, PreferenceClient, TokenClient];
               final = raises DatabasePart
           in (before @ closed @ [DatabasePart], case final of Some e \<Rightarrow> Some e | None \<Rightarrow> failed)))"

text \<open>A cancelled sweeper raises nothing else, so the database is closed whatever the others do, and last.\<close>

lemma close_until_subset: "set (fst (close_until raises ps)) \<subseteq> set ps"
  by (induction ps) (auto split: option.splits prod.splits)

lemma database_closed_last:
  assumes "raises Sweeper = None"
  shows "\<exists>before. fst (container_aclose sweeping raises) = before @ [DatabasePart] \<and> DatabasePart \<notin> set before"
proof -
  let ?c = "close_until raises [OutboxDrain, Sender, PreferenceClient, TokenClient]"
  let ?s = "if sweeping then [Sweeper] else []"
  have "fst (container_aclose sweeping raises) = (?s @ fst ?c) @ [DatabasePart]"
    unfolding container_aclose_def Let_def using assms by (simp split: prod.split del: close_until.simps(2)) (simp add: assms)
  moreover have "DatabasePart \<notin> set (?s @ fst ?c)"
    using close_until_subset [of raises "[OutboxDrain, Sender, PreferenceClient, TokenClient]"] by auto
  ultimately show ?thesis by blast
qed

lemma outbox_drained_first:
  assumes "raises Sweeper = None"
  shows "OutboxDrain \<in> set (fst (container_aclose sweeping raises))"
  using assms by (auto simp: container_aclose_def Let_def split: prod.split option.split)

text \<open>
  But the wait for the sweeper is not inside the block that closes the database: a sweeper that
  ended with an exception of its own raises it there, and nothing else is closed.
\<close>

lemma dead_sweeper_keeps_database_open:
  "raises Sweeper = Some e \<Longrightarrow> container_aclose True raises = ([Sweeper], Some e)"
  by (simp add: container_aclose_def)

end
