(* ===== verification/PlatformProperties.thy ===== *)
theory PlatformProperties
  imports Sample Times Outbox
begin

text \<open>
  What the parts under the services promise: the limiter, the preferences, the vocabularies
  of addresses, names, passwords and permissions, the column format of instants, and the
  configuration.
\<close>

section \<open>The rate limiter\<close>

text \<open>C13: For a limit below the number of timestamps the limiter remembers, its sliding window
  is exact: after any sequence of recorded attempts in time order, the next attempt of a
  caller is admitted exactly when at most \<open>limit\<close> attempts of that caller in that scope,
  itself included, lie in the window ending now, although only the newest timestamps are
  kept and other callers' attempts are interleaved.\<close>

theorem limiter_exact:
  assumes "sorted (map (\<lambda>e. snd (snd e)) (es @ [(scope, caller, now)]))" and "\<And>s. 0 < window s"
    and "limit scope < MAX_TIMESTAMPS_PER_CALLER"
  shows "fst (limiter_check scope caller now (limit scope) (window scope) (run_attempts limit window es [])) = Inr ()
    \<longleftrightarrow> length (in_window now (window scope) (attempts_of scope caller (es @ [(scope, caller, now)]))) \<le> limit scope"
proof -
  let ?m = "run_attempts limit window es []"
  have "timestamps scope caller (run_attempts limit window (es @ [(scope, caller, now)]) [])
      = newest MAX_TIMESTAMPS_PER_CALLER (in_window now (window scope) (attempts_of scope caller (es @ [(scope, caller, now)])))"
    using run_attempts_newest [OF assms(1,2), of scope caller] by (simp add: attempts_of_snoc)
  then have "push_attempt now (window scope) (timestamps scope caller ?m)
      = newest MAX_TIMESTAMPS_PER_CALLER (in_window now (window scope) (attempts_of scope caller (es @ [(scope, caller, now)])))"
    by (simp add: run_attempts_append timestamps_record limiter_check_record)
  then show ?thesis
    using verdict_newest [OF assms(3)] by (simp add: limiter_check_record limiter_record_def Let_def)
qed

theorem limiter_exact_witness:
  "fst (limiter_check ''login'' ''ip'' 3 2 60 (run_attempts (\<lambda>_. 2) (\<lambda>_. 60)
       [(''login'', ''ip'', 1), (''login'', ''other'', 2), (''login'', ''ip'', 2)] [])) = Inr ()
    \<longleftrightarrow> length (in_window 3 60 (attempts_of ''login'' ''ip''
       ([(''login'', ''ip'', 1), (''login'', ''other'', 2), (''login'', ''ip'', 2)] @ [(''login'', ''ip'', 3)]))) \<le> 2"
  by (rule limiter_exact) (simp_all add: MAX_TIMESTAMPS_PER_CALLER_def)

text \<open>For a limit of 128 or more, which the configuration accepts, the limiter never refuses
  anybody, however many attempts are made: it counts the timestamps it kept, and it keeps
  at most 128.\<close>

lemma limiter_large_limit_never_refuses:
  assumes "sorted (map (\<lambda>e. snd (snd e)) (es @ [(scope, caller, now)]))" and "\<And>s. 0 < window s"
    and "MAX_TIMESTAMPS_PER_CALLER \<le> limit scope"
  shows "fst (limiter_check scope caller now (limit scope) (window scope) (run_attempts limit window es [])) = Inr ()"
proof -
  let ?m = "run_attempts limit window es []"
  have "timestamps scope caller (run_attempts limit window (es @ [(scope, caller, now)]) [])
      = newest MAX_TIMESTAMPS_PER_CALLER (in_window now (window scope) (attempts_of scope caller (es @ [(scope, caller, now)])))"
    using run_attempts_newest [OF assms(1,2), of scope caller] by (simp add: attempts_of_snoc)
  then have "push_attempt now (window scope) (timestamps scope caller ?m)
      = newest MAX_TIMESTAMPS_PER_CALLER (in_window now (window scope) (attempts_of scope caller (es @ [(scope, caller, now)])))"
    by (simp add: run_attempts_append timestamps_record limiter_check_record)
  then show ?thesis
    using verdict_capped [OF assms(3)] by (simp add: limiter_check_record limiter_record_def Let_def)
qed

lemma limiter_large_limit_never_refuses_witness:
  "fst (limiter_check ''login'' ''ip'' 1 200 60 (run_attempts (\<lambda>_. 200) (\<lambda>_. 60) (replicate 1000 (''login'', ''ip'', 1)) [])) = Inr ()"
  by (rule limiter_large_limit_never_refuses [of _ _ _ _ "\<lambda>_. 60" "\<lambda>_. 200"])
    (simp_all add: MAX_TIMESTAMPS_PER_CALLER_def sorted_append)

section \<open>Preferences\<close>

text \<open>Whatever the settings service answers, the preferences in force for an account never
  exceed the deployment: lifetimes and the number of sessions are positive and at most the
  deployment's, and the idle lifetime is at most the absolute one.\<close>

lemma preferences_only_narrow:
  assumes "settings_ok s" and "for_account s client aid = Inr p"
  shows "0 < pf_session_ttl_seconds p \<and> pf_session_ttl_seconds p \<le> st_session_ttl_seconds s
     \<and> pf_session_ttl_seconds p \<le> pf_session_absolute_ttl_seconds p
     \<and> pf_session_absolute_ttl_seconds p \<le> st_session_absolute_ttl_seconds s
     \<and> 0 < pf_max_sessions p \<and> pf_max_sessions p \<le> st_max_sessions_per_account s"
  using for_account_within [OF assms] by (simp add: within_deployment_def)

lemma preferences_only_narrow_witness:
  "\<exists>p. for_account sample_settings (\<lambda>i. SettingsUnavailable) ''m'' = Inr p \<and> pf_max_sessions p \<le> 2"
proof -
  obtain p where p: "for_account sample_settings (\<lambda>i. SettingsUnavailable) ''m'' = Inr p"
    by (simp add: for_account_def settings_api_def sample_settings_def)
  from preferences_only_narrow [OF sample_settings_ok p] p show ?thesis by (auto simp: sample_settings_def)
qed

text \<open>The requirement to repeat the password before a credential changes is switched off only
  by a stored false or by an entry that was never set; an answer that refuses to say, or
  carries anything else, leaves it unknown and so in force.\<close>

lemma reauthentication_never_guessed_off:
  "reauthentication r = Some False \<longleftrightarrow>
    rs_entry r ''require_reauth_for_credential_changes'' \<in> {Missing, Present (SBool False)}"
  by (rule reauthentication_off)

section \<open>Vocabularies\<close>

text \<open>An address is accepted exactly when, trimmed and lowercased, it is one local part, an
  at-sign and a domain with an inner dot, each non-empty and free of white space and further
  at-signs, of at most 254 characters; and accepting it again changes nothing.\<close>

lemma normalize_email_characterised:
  "normalize_email raw = Inr a \<longleftrightarrow> a = lower (strip raw) \<and> length a \<le> MAX_EMAIL_LENGTH
     \<and> (\<exists>l d t. a = l @ CHR ''@'' # d @ CHR ''.'' # t \<and> address_part l \<and> address_part d \<and> address_part t)
     \<and> normalize_email a = Inr a"
  using normalize_email_idem [of raw a] normalize_email_Inr [of raw a] accepts_EMAIL [of a] by blast

text \<open>A profile or service name is accepted exactly when, trimmed and lowercased, it is
  non-empty, within its limit, made of lowercase letters, digits, dots, dashes and
  underscores, and begins and ends with a letter or digit; accepting it again changes
  nothing. So two names that differ only in case or in surrounding white space are one.\<close>

lemma normalize_name_characterised:
  "normalize raw what limit = Inr name \<longleftrightarrow> name = lower (strip raw) \<and> name \<noteq> [] \<and> length name \<le> limit
     \<and> (\<forall>c \<in> set name. is_name_char c) \<and> is_alnum_lower (hd name) \<and> is_alnum_lower (last name)
     \<and> normalize name what limit = Inr name"
  using normalize_idem [of raw what limit name] normalize_Inr [of raw what limit name] accepts_NAME [of name] by blast

lemma normalize_name_characterised_witness:
  "normalize '' Work '' ''profile name'' 64 = Inr ''work'' \<and> normalize ''work'' ''profile name'' 64 = Inr ''work''"
proof -
  have "normalize '' Work '' ''profile name'' 64 = Inr ''work''" by code_simp
  with normalize_name_characterised [of "'' Work ''" "''profile name''" 64 "''work''"] show ?thesis by blast
qed

text \<open>A password is accepted exactly when it has between 8 and 1024 characters and is not all
  white space.\<close>

lemma password_policy_characterised:
  "check_password_policy p = Inr () \<longleftrightarrow> 8 \<le> length p \<and> length p \<le> 1024 \<and> (\<exists>c \<in> set p. \<not> is_space c)"
  by (rule check_password_policy_Inr)

text \<open>A list of permission names is accepted exactly when every name is one of the
  vocabulary, and then it means exactly the permissions named: an unknown name is refused,
  never dropped.\<close>

lemma parse_permissions_exact:
  "parse_permissions names = Inr ps \<longleftrightarrow>
     (\<forall>v \<in> set names. \<exists>p. v = permission_value p) \<and> ps = {p. permission_value p \<in> set names}"
  by (rule parse_permissions_Inr)

lemma parse_permissions_exact_witness:
  "parse_permissions [''audit:read'', ''audit:read''] = Inr {AUDIT_READ}"
proof -
  have "p = AUDIT_READ" if "permission_value p = ''audit:read''" for p
    using that by (cases p) simp_all
  moreover have "\<exists>p. ''audit:read'' = permission_value p"
    by (rule exI [of _ AUDIT_READ]) simp
  ultimately show ?thesis unfolding parse_permissions_exact by auto
qed

section \<open>Instants in columns\<close>

text \<open>Two aware instants written to text columns compare as texts exactly as they compare as
  instants, so an index or a comparison in SQL orders them correctly for every year from 1 to
  9999 and every microsecond.\<close>

lemma column_order_is_time_order:
  assumes "valid d" and "valid e" and "dt_aware d" and "dt_aware e"
  shows "\<exists>s t. to_column d = Inr s \<and> to_column e = Inr t
    \<and> (s < t \<longleftrightarrow> instant_of d < instant_of e) \<and> (s = t \<longleftrightarrow> instant_of d = instant_of e)"
  by (rule to_column_order [OF assms])

definition sample_instant :: "nat \<Rightarrow> datetime" where
  "sample_instant y = \<lparr>dt_year = y, dt_month = 2, dt_day = 28, dt_hour = 23, dt_minute = 59, dt_second = 59,
     dt_microsecond = 999999, dt_aware = True\<rparr>"

lemma sample_instant_valid: "1 \<le> y \<Longrightarrow> y \<le> 9999 \<Longrightarrow> valid (sample_instant y)"
  by (simp add: sample_instant_def valid_def)

lemma column_order_is_time_order_witness:
  "\<exists>s t. to_column (sample_instant 999) = Inr s \<and> to_column (sample_instant 1000) = Inr t
    \<and> (s < t \<longleftrightarrow> instant_of (sample_instant 999) < instant_of (sample_instant 1000))"
proof -
  have "dt_aware (sample_instant y)" for y by (simp add: sample_instant_def)
  then show ?thesis
    using column_order_is_time_order [OF sample_instant_valid [of 999] sample_instant_valid [of 1000]] by auto
qed

text \<open>Reading back a column written from an aware instant gives exactly that instant; a
  naive one is refused before it is written.\<close>

lemma column_round_trip:
  assumes "valid d" and "to_column d = Inr s"
  shows "from_column s = Inr d \<and> dt_aware d"
proof -
  have "dt_aware d" using assms(2) by (auto simp: to_column_def split: if_splits)
  then show ?thesis using from_to_column [OF assms(1) _ assms(2)] by simp
qed

lemma column_round_trip_witness:
  "\<exists>s. to_column (sample_instant 2024) = Inr s \<and> from_column s = Inr (sample_instant 2024)"
proof -
  have s: "to_column (sample_instant 2024) = Inr (isoformat (sample_instant 2024))"
    by (simp only: to_column_def) (simp add: sample_instant_def)
  from column_round_trip [OF sample_instant_valid [of 2024] s] show ?thesis using s by simp
qed

section \<open>Mail\<close>

text \<open>Every message the outbox accepted is settled exactly once, sent, failed or cancelled, by the time a
  shutdown has drained it; at most 64 messages wait at any moment, and draining takes at most ten
  seconds even if a delivery never ends.\<close>

lemma every_message_settles:
  "ob_pending (snd (drain needs (outbox_run es empty_outbox))) = []
   \<and> distinct (map fst (ob_settled (snd (drain needs (outbox_run es empty_outbox)))))
   \<and> set (map fst (ob_settled (snd (drain needs (outbox_run es empty_outbox)))))
      = {..< ob_next (snd (drain needs (outbox_run es empty_outbox)))}
   \<and> length (ob_pending (outbox_run es empty_outbox)) \<le> MAX_PENDING
   \<and> fst (drain needs (outbox_run es empty_outbox)) \<le> DRAIN_TIMEOUT_SECONDS"
proof -
  let ?b = "outbox_run es empty_outbox"
  have b: "outbox_ok ?b" by (rule outbox_ok_run [OF outbox_ok_empty])
  have d: "outbox_ok (snd (drain needs ?b))" "ob_pending (snd (drain needs ?b)) = []"
    using outbox_ok_drain [OF b] by blast+
  from d(1) have "distinct (map fst (ob_settled (snd (drain needs ?b))))
      \<and> set (map fst (ob_settled (snd (drain needs ?b)))) = {..< ob_next (snd (drain needs ?b))}"
    unfolding outbox_ok_def d(2) by simp
  with b d(2) drain_bounded [of needs ?b] show ?thesis unfolding outbox_ok_def by blast
qed

section \<open>Configuration\<close>

text \<open>A service-token table is accepted exactly when no two services share a token and every
  token is at least 32 characters with no white space around it.\<close>

lemma service_tokens_accepted:
  "check_service_tokens tokens = Inr () \<longleftrightarrow>
     distinct (map snd tokens) \<and> (\<forall>t \<in> snd ` set tokens. strip t = t \<and> 32 \<le> length t)"
  by (rule check_service_tokens_Inr)

lemma service_tokens_accepted_witness:
  "check_service_tokens [(''mail'', replicate 32 CHR ''a''), (''chat'', replicate 32 CHR ''b'')] = Inr ()"
  unfolding service_tokens_accepted
  by (auto simp: strip_no_space is_space_def code_of_def)

end
