(* ===== verification/VaultProperties.thy ===== *)
theory VaultProperties
  imports VaultSample
begin

text \<open>
  What the credential side promises: what is stored is what is attached, only its owner can
  change it and only as the owner's settings allow, removing it leaves nothing, a renewal
  meets a removal, and a consent link works once and for the connection it was made for.
\<close>

section \<open>From the form to the header\<close>

lemma template_pattern_shape:
  assumes "template_pattern t"
  obtains pre post where "t = pre @ ''{value}'' @ post" "list_all (\<lambda>c. c \<notin> set ''{}'') pre" "list_all (\<lambda>c. c \<notin> set ''{}'') post"
proof -
  let ?pre = "takeWhile (\<lambda>c. c \<notin> set ''{}'') t" and ?rest = "dropWhile (\<lambda>c. c \<notin> set ''{}'') t"
  have split: "?pre @ take 7 ?rest @ drop 7 ?rest = t" by simp
  have shape: "take 7 ?rest = ''{value}''" "list_all (\<lambda>c. c \<notin> set ''{}'') (drop 7 ?rest)"
    using assms by (simp_all add: template_pattern_def Let_def)
  have "list_all (\<lambda>c. c \<notin> set ''{}'') ?pre" by (auto simp: list_all_iff dest: set_takeWhileD)
  from that [OF _ this shape(2)] split shape(1) show thesis by metis
qed

lemma api_key_headers_stored:
  assumes "valid_api_key_request b" and "\<not> ak_in_query b" and "ak_template b = pre @ ''{value}'' @ post"
    and "list_all (\<lambda>c. c \<notin> set ''{}'') pre" "list_all (\<lambda>c. c \<notin> set ''{}'') post"
  shows "api_key_headers f (api_key_secret b) = Inr [(ak_header b, pre @ ak_api_key b @ post)]"
    "api_key_query_params (api_key_secret b) = Inr []"
proof -
  have "ak_api_key b \<noteq> []" using assms(1) by (auto simp: valid_api_key_request_def)
  then show "api_key_headers f (api_key_secret b) = Inr [(ak_header b, pre @ ak_api_key b @ post)]"
    "api_key_query_params (api_key_secret b) = Inr []"
    using assms(2) template_applied [OF assms(4,5)]
    by (simp_all add: api_key_headers_def api_key_query_params_def api_key_secret_def field_or_def secret_field_def
        require_field_def assms(3))
qed

lemma stored_key_resolves:
  assumes "db_ok s" and "valid_api_key_request b" and "\<not> ak_in_query b"
    and "vault_faithful v (api_key_secret b)" and "same_libraries v v'" and "va_master v' = va_master v"
    and "put_api_key w v a n sv b s = (Inr c, t)"
  shows "\<exists>pre post. ak_template b = pre @ ''{value}'' @ post
    \<and> resolve_credential f w' v' ps te a n sv t =
        (Inr \<lparr>rc_service = sv, rc_headers = [(ak_header b, pre @ ak_api_key b @ post)],
              rc_query_params = [], rc_expires_at = None\<rparr>, t)"
proof -
  obtain pre post where shape: "ak_template b = pre @ ''{value}'' @ post"
    "list_all (\<lambda>c. c \<notin> set ''{}'') pre" "list_all (\<lambda>c. c \<notin> set ''{}'') post"
    using assms(2) by (auto simp: valid_api_key_request_def elim: template_pattern_shape)
  note st = stored_then_loaded [OF assms(1) assms(7) [unfolded put_api_key_def] assms(4-6)]
  obtain p where "load v' a n sv t = (Inr (p, c, api_key_secret b), t)" using st(1) by blast
  with st(2) have "resolve_http_auth w' v' a n sv t = (Inr (ApiKeyCredential (api_key_secret b)), t)"
    by (simp add: resolve_http_auth_def txn_simps)
  then show ?thesis
    using shape by (auto simp: resolve_credential_def credential_headers_def credential_query_params_def txn_simps
        api_key_headers_stored [OF assms(2,3) shape])
qed

text \<open>An API key that a valid request stored is what a later resolution attaches: one header
  with the name of the request, holding the template with the key in the place of its one
  field, and no query parameter; the resolution changes nothing. The key may be read by a
  later process with other random draws as long as the libraries and the master key are the
  same.\<close>

lemma stored_key_is_attached:
  assumes "db_ok s" and "valid_api_key_request b" and "\<not> ak_in_query b"
    and "vault_faithful v (api_key_secret b)" and "same_libraries v v'" and "va_master v' = va_master v"
    and "put_api_key w v a n sv b s = (Inr c, t)"
  shows "\<exists>pre post. ak_template b = pre @ ''{value}'' @ post
    \<and> resolve_credential f w' v' ps te a n sv t =
        (Inr \<lparr>rc_service = sv, rc_headers = [(ak_header b, pre @ ak_api_key b @ post)],
              rc_query_params = [], rc_expires_at = None\<rparr>, t)"
  by (rule stored_key_resolves [OF assms])

lemma sample_put_key:
  "put_api_key sample_env sample_vault ''m'' ''work'' ''mail'' sample_body sample_vault_state =
     (Inr (sample_connection ''mail'' API_KEY None\<lparr>co_created_at := 1000, co_updated_at := 1000\<rparr>),
      snd (put_api_key sample_env sample_vault ''m'' ''work'' ''mail'' sample_body sample_vault_state))"
  by (simp add: put_api_key_def vault_eval sample_body_def sample_vault_def)

lemma stored_key_is_attached_witness:
  "\<exists>pre post. ak_template sample_body = pre @ ''{value}'' @ post
    \<and> resolve_credential (\<lambda>t k. RaisesLookup) sample_env sample_vault sample_providers sample_endpoint ''m'' ''work'' ''mail''
        (snd (put_api_key sample_env sample_vault ''m'' ''work'' ''mail'' sample_body sample_vault_state)) =
        (Inr \<lparr>rc_service = ''mail'', rc_headers = [(ak_header sample_body, pre @ ak_api_key sample_body @ post)],
              rc_query_params = [], rc_expires_at = None\<rparr>,
         snd (put_api_key sample_env sample_vault ''m'' ''work'' ''mail'' sample_body sample_vault_state))"
  by (rule stored_key_is_attached [OF sample_vault_ok _ _ sample_faithful(1) _ refl sample_put_key])
    (simp_all add: sample_body_def valid_api_key_request_def valid_confirmation_def MAX_PASSWORD_LENGTH_def template_pattern_def same_libraries_def)

lemma stored_login_is_typed_parts:
  assumes "db_ok s" and "pw_username b \<noteq> []" and "pw_password b \<noteq> []"
    and "vault_faithful v (password_secret b)" and "same_libraries v v'" and "va_master v' = va_master v"
    and "put_password w v a n sv b s = (Inr c, t)"
  shows "resolve_form h now v' a n sv t =
    (case pw_totp_seed b of
       None \<Rightarrow> (Inr [(''username'', pw_username b), (''password'', pw_password b)], t)
     | Some seed \<Rightarrow>
         if seed = [] then (Inr [(''username'', pw_username b), (''password'', pw_password b)], t)
         else (case totp_code h seed now of
                 None \<Rightarrow> (Inl (CredentialUnavailableError [''stored TOTP seed could not be used'']), t)
               | Some (Inl e) \<Rightarrow> (Inl e, t)
               | Some (Inr code) \<Rightarrow>
                   (Inr [(''username'', pw_username b), (''password'', pw_password b), (''totp'', code)], t)))"
    and "totp_code h seed now = Some (Inr code) \<Longrightarrow>
      length code = 6 \<and> (\<forall>d \<in> set code. 48 \<le> code_of d \<and> code_of d \<le> 57)"
proof -
  note st = stored_then_loaded [OF assms(1) assms(7) [unfolded put_password_def] assms(4-6)]
  obtain p where "load v' a n sv t = (Inr (p, c, password_secret b), t)" using st(1) by blast
  with st(2) have "resolve_form_secrets v' a n sv t = (Inr (password_secret b), t)"
    by (simp add: resolve_form_secrets_def txn_simps)
  then show "resolve_form h now v' a n sv t =
    (case pw_totp_seed b of
       None \<Rightarrow> (Inr [(''username'', pw_username b), (''password'', pw_password b)], t)
     | Some seed \<Rightarrow>
         if seed = [] then (Inr [(''username'', pw_username b), (''password'', pw_password b)], t)
         else (case totp_code h seed now of
                 None \<Rightarrow> (Inl (CredentialUnavailableError [''stored TOTP seed could not be used'']), t)
               | Some (Inl e) \<Rightarrow> (Inl e, t)
               | Some (Inr code) \<Rightarrow>
                   (Inr [(''username'', pw_username b), (''password'', pw_password b), (''totp'', code)], t)))"
    using assms(2,3)
    by (simp add: resolve_form_def txn_simps password_fields_def password_secret_def require_field_def secret_field_def
        split: option.split sum.split)
  show "totp_code h seed now = Some (Inr code) \<Longrightarrow>
      length code = 6 \<and> (\<forall>d \<in> set code. 48 \<le> code_of d \<and> code_of d \<le> 57)"
    by (drule totp_code_digits) (simp add: DEFAULT_DIGITS_def list_all_iff)
qed

text \<open>A form login that was stored is typed back exactly: the user name and the password, and
  with a seed the code of the moment, which is always six decimal digits; a seed that cannot be
  decoded is refused as an unusable credential.\<close>

lemma stored_login_is_typed:
  assumes "db_ok s" and "pw_username b \<noteq> []" and "pw_password b \<noteq> []"
    and "vault_faithful v (password_secret b)" and "same_libraries v v'" and "va_master v' = va_master v"
    and "put_password w v a n sv b s = (Inr c, t)"
  shows "resolve_form h now v' a n sv t =
    (case pw_totp_seed b of
       None \<Rightarrow> (Inr [(''username'', pw_username b), (''password'', pw_password b)], t)
     | Some seed \<Rightarrow>
         if seed = [] then (Inr [(''username'', pw_username b), (''password'', pw_password b)], t)
         else (case totp_code h seed now of
                 None \<Rightarrow> (Inl (CredentialUnavailableError [''stored TOTP seed could not be used'']), t)
               | Some (Inl e) \<Rightarrow> (Inl e, t)
               | Some (Inr code) \<Rightarrow>
                   (Inr [(''username'', pw_username b), (''password'', pw_password b), (''totp'', code)], t)))
    \<and> (\<forall>seed code. totp_code h seed now = Some (Inr code) \<longrightarrow>
          length code = 6 \<and> (\<forall>d \<in> set code. 48 \<le> code_of d \<and> code_of d \<le> 57))"
  using stored_login_is_typed_parts [OF assms] by blast


lemma sample_put_login:
  "put_password sample_env sample_vault ''m'' ''work'' ''mail'' sample_login_form sample_vault_state =
     (Inr (sample_connection ''mail'' PASSWORD None\<lparr>co_created_at := 1000, co_updated_at := 1000\<rparr>),
      snd (put_password sample_env sample_vault ''m'' ''work'' ''mail'' sample_login_form sample_vault_state))"
  by (simp add: put_password_def vault_eval sample_login_form_def sample_vault_def)

lemma stored_login_is_typed_witness:
  "fst (resolve_form (\<lambda>k m. replicate 20 0) 1000 sample_vault ''m'' ''work'' ''mail''
     (snd (put_password sample_env sample_vault ''m'' ''work'' ''mail'' sample_login_form sample_vault_state)))
   = Inr [(''username'', ''me''), (''password'', ''pw'')]"
  by (subst conjunct1 [OF stored_login_is_typed [OF sample_vault_ok _ _ sample_faithful(2) _ refl sample_put_login]])
    (simp_all add: sample_login_form_def same_libraries_def)

section \<open>Who may change a credential\<close>

lemma refused_change_changes_nothing_parts:
  assumes "\<not> admitted w a r s"
  shows "vault_tables (snd (store_direct w v a n sv k x tt r s)) = vault_tables s
      \<and> (\<exists>e. fst (store_direct w v a n sv k x tt r s) = Inl e)"
    and "vault_tables (snd (change_begin_authorization w ps a n sv uri r s)) = vault_tables s
      \<and> m_flows (snd (change_begin_authorization w ps a n sv uri r s)) = m_flows s
      \<and> (\<exists>e. fst (change_begin_authorization w ps a n sv uri r s) = Inl e)"
    and "vault_tables (snd (change_remove_connection w a n sv r s)) = vault_tables s
      \<and> (\<exists>e. fst (change_remove_connection w a n sv r s) = Inl e)"
    and "get_profile a n s = (Inr p, s) \<Longrightarrow> pr_connections p \<noteq> [] \<Longrightarrow>
      vault_tables (snd (remove_profile w a n r s)) = vault_tables s
      \<and> (\<exists>e. fst (remove_profile w a n r s) = Inl e)"
proof -
  note gate = gated [OF assms]
  show "vault_tables (snd (store_direct w v a n sv k x tt r s)) = vault_tables s
      \<and> (\<exists>e. fst (store_direct w v a n sv k x tt r s) = Inl e)"
    unfolding store_direct_def using gate(1,3) by blast
  show "vault_tables (snd (change_begin_authorization w ps a n sv uri r s)) = vault_tables s
      \<and> m_flows (snd (change_begin_authorization w ps a n sv uri r s)) = m_flows s
      \<and> (\<exists>e. fst (change_begin_authorization w ps a n sv uri r s) = Inl e)"
    unfolding change_begin_authorization_def using gate by blast
  show "vault_tables (snd (change_remove_connection w a n sv r s)) = vault_tables s
      \<and> (\<exists>e. fst (change_remove_connection w a n sv r s) = Inl e)"
    unfolding change_remove_connection_def using gate(1,3) by blast
  show "vault_tables (snd (remove_profile w a n r s)) = vault_tables s \<and> (\<exists>e. fst (remove_profile w a n r s) = Inl e)"
    if p: "get_profile a n s = (Inr p, s)" "pr_connections p \<noteq> []"
  proof -
    obtain f where "remove_profile w a n r s = andthen (admit w a r) f s"
      unfolding remove_profile_def using p by (simp add: andthen_simp handling_simp ret_simp andthen_assoc)
    then show ?thesis using gated(1,3) [OF assms, of f] by simp
  qed
qed

text \<open>C17: A change that the owner's settings do not admit changes no profile, connection, secret
  or outstanding consent, and raises: not with the password wrong or the account locked or
  disabled, not without a password when the account asks for it or when the setting cannot be
  read, and never because a service asked.\<close>

theorem refused_change_changes_nothing:
  assumes "\<not> admitted w a r s"
  shows "vault_tables (snd (store_direct w v a n sv k x tt r s)) = vault_tables s
      \<and> (\<exists>e. fst (store_direct w v a n sv k x tt r s) = Inl e)
    \<and> vault_tables (snd (change_begin_authorization w ps a n sv uri r s)) = vault_tables s
      \<and> m_flows (snd (change_begin_authorization w ps a n sv uri r s)) = m_flows s
      \<and> (\<exists>e. fst (change_begin_authorization w ps a n sv uri r s) = Inl e)
    \<and> vault_tables (snd (change_remove_connection w a n sv r s)) = vault_tables s
      \<and> (\<exists>e. fst (change_remove_connection w a n sv r s) = Inl e)
    \<and> (\<forall>p. get_profile a n s = (Inr p, s) \<and> pr_connections p \<noteq> [] \<longrightarrow>
      vault_tables (snd (remove_profile w a n r s)) = vault_tables s
      \<and> (\<exists>e. fst (remove_profile w a n r s) = Inl e))"
  by (simp add: refused_change_changes_nothing_parts [OF assms])


lemma sample_not_admitted: "\<not> admitted sample_env ''m'' (by_person (Some ''guess'')) sample_vault_state"
  by (simp add: admitted_def by_person_def knows_password_def vault_eval)

theorem refused_change_changes_nothing_witness:
  "vault_tables (snd (store_direct sample_env sample_vault ''m'' ''work'' ''mail'' API_KEY (api_key_secret sample_body) False
      (by_person (Some ''guess'')) sample_vault_state)) = vault_tables sample_vault_state
    \<and> (\<exists>e. fst (store_direct sample_env sample_vault ''m'' ''work'' ''mail'' API_KEY (api_key_secret sample_body) False
      (by_person (Some ''guess'')) sample_vault_state) = Inl e)"
  by (intro conjI refused_change_changes_nothing [OF sample_not_admitted, THEN conjunct1]
      refused_change_changes_nothing [OF sample_not_admitted, THEN conjunct2, THEN conjunct1])



section \<open>What removing leaves\<close>

text \<open>C19: After any sequence of requests by any accounts every secret in the vault belongs to a
  connection of its profile, and the database is well formed: no request leaves a credential
  that its owner cannot see.\<close>

theorem no_hidden_secret:
  assumes "covered s"
    and "\<And>u q p t. (u, q) \<in> set qs \<Longrightarrow> keeps covered (te_refresh (wo_endpoint u) p t)"
    and "\<And>u q p c r. (u, q) \<in> set qs \<Longrightarrow> keeps covered (te_exchange_code (wo_endpoint u) p c r)"
    and "envelope_get a n sv (vault_run qs s) \<noteq> None"
  shows "db_ok (vault_run qs s) \<and> conn_get a n sv (vault_run qs s) \<noteq> None \<and> (a, n) \<in> profile_keys (vault_run qs s)"
proof -
  have cov: "covered (vault_run qs s)"
    by (rule vault_run_keeps [OF keeps_covered_handle [OF assms(2,3)] assms(1)])
  then have "conn_get a n sv (vault_run qs s) \<noteq> None" using assms(4) by (auto simp: covered_def)
  then show ?thesis using cov conn_get_profile [OF covered_ok [OF cov]] by (auto simp: covered_def)
qed

lemma sample_music_left:
  "envelope_get ''m'' ''work'' ''music'' (vault_run [(sample_world, SweepStates)] sample_vault_state) \<noteq> None"
  by (simp add: sample_world_def sweep_states_def purge_states_def flow_purge_expired_def is_live_def vault_eval)

theorem no_hidden_secret_witness:
  "db_ok (vault_run [(sample_world, SweepStates)] sample_vault_state)
    \<and> conn_get ''m'' ''work'' ''music'' (vault_run [(sample_world, SweepStates)] sample_vault_state) \<noteq> None
    \<and> (''m'', ''work'') \<in> profile_keys (vault_run [(sample_world, SweepStates)] sample_vault_state)"
  by (rule no_hidden_secret [OF sample_covered _ _ sample_music_left]) (simp_all add: sample_world_def sample_endpoint_keeps)






section \<open>Renewing\<close>




definition sample_member_profile :: profile where
  "sample_member_profile = profile_of (sample_profile ''m'' ''work'') [sample_connection ''music'' OAUTH2_AUTHORIZATION_CODE (Some 900)]"

definition sample_music :: connection where
  "sample_music = sample_connection ''music'' OAUTH2_AUTHORIZATION_CODE (Some 900)"

lemma sample_music_sel:
  "pr_account_id sample_member_profile = ''m''" "pr_name sample_member_profile = ''work''" "co_service sample_music = ''music''"
  "refresh_token_of (sample_token ''old'') = Some ''rt''" "map_of sample_providers ''music'' = Some sample_provider"
  by (simp_all add: sample_member_profile_def sample_music_def sample_profile_def sample_connection_def
      refresh_token_of_def sample_token_def secret_field_def sample_providers_def)

text \<open>An endpoint during whose answer the owner removes the connection.\<close>

definition racing_endpoint :: "(error + secret) \<Rightarrow> unit token_endpoint" where
  "racing_endpoint answer = sample_endpoint\<lparr>te_refresh := (\<lambda>p t s. (answer,
     snd (revoke_connection sample_env ''m'' ''work'' ''music'' s)))\<rparr>"

definition sample_after_removal :: vsys where
  "sample_after_removal = snd (revoke_connection sample_env ''m'' ''work'' ''music'' sample_vault_state)"

lemma sample_removal:
  "db_ok sample_after_removal" "conn_get ''m'' ''work'' ''music'' sample_after_removal = None"
  "(''m'', ''work'') \<in> profile_keys sample_after_removal" "t_connections sample_after_removal = [
    \<lparr>cr_account_id = ''o'', cr_profile_name = ''work'', cr_connection = sample_connection ''mail'' API_KEY None\<rparr>]"
proof -
  have "revoke_connection sample_env ''m'' ''work'' ''music'' sample_vault_state = (Inr True, sample_after_removal)"
    unfolding sample_after_removal_def by (simp add: vault_eval)
  from revoke_connection_Inr [OF sample_vault_ok this]
  show "db_ok sample_after_removal" "conn_get ''m'' ''work'' ''music'' sample_after_removal = None"
    "(''m'', ''work'') \<in> profile_keys sample_after_removal"
    using sample_names by auto
  show "t_connections sample_after_removal = [
    \<lparr>cr_account_id = ''o'', cr_profile_name = ''work'', cr_connection = sample_connection ''mail'' API_KEY None\<rparr>]"
    unfolding sample_after_removal_def by (simp add: vault_eval)
qed


text \<open>C22: When the provider refuses a renewal the error is passed on, every secret is kept and the
  connection is marked expired. But the mark is written without looking whether the connection
  is still there: a connection that its owner removed while the provider was answering is
  listed again, without a credential, although the renewal that succeeds takes care not to
  bring it back.\<close>

theorem failed_renewal_marks_and_revives:
  assumes "refresh_token_of x = Some r" and "map_of ps (co_service c) = Some pv"
    and "te_refresh te pv r s = (Inl (CredentialUnavailableError msg), s1)" and "db_ok s1"
    and "(pr_account_id p, pr_name p) \<in> profile_keys s1"
    and "conn_get (pr_account_id p) (pr_name p) (co_service c) s1 \<noteq> None \<or>
      connections_in (pr_account_id p) (pr_name p) s1 < st_max_connections_per_profile (ev_settings w)"
  shows "\<exists>st t. renew w v ps te p c x s = (Inl (CredentialUnavailableError msg), t)
    \<and> (\<forall>a n sv. envelope_get a n sv t = envelope_get a n sv s1)
    \<and> conn_get (pr_account_id p) (pr_name p) (co_service c) t = Some st \<and> co_status st = EXPIRED"
proof -
  obtain st t where t: "renew w v ps te p c x s = (Inl (CredentialUnavailableError msg), t)"
    "\<forall>a n sv. envelope_get a n sv t = envelope_get a n sv s1" "co_status st = EXPIRED"
    "\<forall>a n sv. conn_get a n sv t =
      (if (a, n, sv) = (pr_account_id p, pr_name p, co_service c) then Some st else conn_get a n sv s1)"
    using renew_failed [OF assms(1-5), of w v] assms(6) unfolding connections_in_def by blast
  then have "conn_get (pr_account_id p) (pr_name p) (co_service c) t = Some st" by simp
  with t(1-3) show ?thesis by blast
qed

theorem failed_renewal_marks_and_revives_witness:
  "conn_get ''m'' ''work'' ''music'' sample_after_removal = None \<and>
   (\<exists>st t. renew sample_env sample_vault sample_providers (racing_endpoint (Inl (CredentialUnavailableError [])))
      sample_member_profile sample_music (sample_token ''old'') sample_vault_state = (Inl (CredentialUnavailableError []), t)
    \<and> conn_get ''m'' ''work'' ''music'' t = Some st \<and> co_status st = EXPIRED)"
proof -
  have te: "te_refresh (racing_endpoint (Inl (CredentialUnavailableError []))) sample_provider ''rt'' sample_vault_state =
    (Inl (CredentialUnavailableError []), sample_after_removal)"
    by (simp add: racing_endpoint_def sample_after_removal_def)
  have "connections_in ''m'' ''work'' sample_after_removal < st_max_connections_per_profile (ev_settings sample_env)"
    by (simp add: connections_in_def sample_removal(4) count_where_def sample_defs)
  then show ?thesis
    using failed_renewal_marks_and_revives [of "sample_token ''old''" "''rt''" sample_providers sample_music sample_provider,
        OF _ _ te sample_removal(1), of sample_member_profile sample_env sample_vault]
    by (auto simp: sample_music_sel sample_removal(2,3))
qed

text \<open>Of two callers that hold the same expiring token only the first asks the provider: the
  second, whose turn comes when a token other than the one it holds is stored, returns the
  stored one, calls nothing and writes nothing.\<close>

lemma renewals_take_turns:
  assumes "secret_get v (pr_account_id p) (pr_name p) (co_service c) s = Inr (Some y)"
    and "secret_field y ''access_token'' \<noteq> secret_field x ''access_token''"
  shows "refresh w v ps te p c x s = (Inr y, s)"
  using assms by (simp add: refresh_def txn_simps)

lemma sample_stored_old: "secret_get sample_vault ''m'' ''work'' ''music'' sample_vault_state = Inr (Some (sample_token ''old''))"
proof -
  have "envelope_get ''m'' ''work'' ''music'' sample_vault_state = Some (seal sample_vault [1] (sample_token ''old''))"
    by (simp add: envelope_get_def fetch_one_def vault_sample_defs secret_key_def)
  moreover have "vault_faithful sample_vault (sample_token ''old'')"
    by (simp add: vault_faithful_def sample_vault_def api_key_secret_def password_secret_def sample_body_def
        sample_login_form_def sample_token_def)
  ultimately show ?thesis
    by (simp add: secret_get_def require_master_def open_seal) (simp add: sample_vault_def open_seal)
qed

lemma renewals_take_turns_witness:
  "refresh sample_env sample_vault sample_providers sample_endpoint sample_member_profile sample_music (sample_token ''older'')
     sample_vault_state = (Inr (sample_token ''old''), sample_vault_state)"
  by (rule renewals_take_turns) (simp_all add: sample_music_sel sample_stored_old, simp add: sample_token_def secret_field_def)

section \<open>Consent\<close>

text \<open>C23: A callback that succeeds redeems a consent that was begun and has not expired, and
  stores the tokens under the account, the profile and the service that consent was begun for,
  whoever sends the callback; no other connection or secret changes after the exchange.\<close>

theorem consent_binds:
  assumes "db_ok s" and "change_complete_authorization w v ps te st code s = (Inr c, t)"
    and "\<And>pv uri x u s1. te_exchange_code te pv code uri s1 = (Inr x, u) \<Longrightarrow> db_ok s1 \<Longrightarrow> db_ok u"
  shows "\<exists>f pv x s1 u m. map_of (m_flows s) (ev_hash_token w st) = Some f \<and> ev_now w < of_expires_at f
    \<and> map_of ps (fb_service (of_binding f)) = Some pv
    \<and> te_exchange_code te pv code (fb_redirect_uri (of_binding f)) s1 = (Inr x, u)
    \<and> stored_in (fb_account_id (of_binding f)) (fb_profile (of_binding f)) (fb_service (of_binding f)) c (seal v m x) u t
    \<and> co_status c = CONN_ACTIVE \<and> va_master v = Some m"
proof -
  obtain f p pv x s1 u s2 where f: "map_of (m_flows s) (ev_hash_token w st) = Some f" "ev_now w < of_expires_at f"
    and "s1 = s\<lparr>m_flows := AList.delete (ev_hash_token w st) (m_flows s)\<rparr>" and ok: "db_ok s1" and pv: "map_of ps (fb_service (of_binding f)) = Some pv"
    and ex: "te_exchange_code te pv code (fb_redirect_uri (of_binding f)) s1 = (Inr x, u)"
    and sto: "store_oauth_secret w v p (fb_service (of_binding f)) x pv u = (Inr c, s2)"
    and p: "pr_account_id p = fb_account_id (of_binding f)" "pr_name p = fb_profile (of_binding f)"
    and t: "db_ok s2 \<longrightarrow> vault_tables t = vault_tables s2 \<and> db_ok t"
    by (rule change_complete_Inr [OF assms(1,2)])
  note sto' = store_oauth_secret_Inr [OF assms(3) [OF ex ok] sto]
  obtain m where m: "va_master v = Some m"
    "stored_in (pr_account_id p) (pr_name p) (fb_service (of_binding f)) c (seal v m x) u s2" using sto'(3) by blast
  note tv = vault_tables_views [OF conjunct1 [OF mp [OF t sto'(1)]]]
  have "stored_in (fb_account_id (of_binding f)) (fb_profile (of_binding f)) (fb_service (of_binding f)) c (seal v m x) u t"
    using m(2) by (simp add: stored_in_def tv p)
  moreover have "co_status c = CONN_ACTIVE" using sto'(4) by (simp split: option.splits)
  ultimately show ?thesis using f pv ex m(1) by blast
qed

definition sample_granted :: connection where
  "sample_granted = sample_connection ''music'' OAUTH2_AUTHORIZATION_CODE (Some (1000 + timedelta_s 3600))
     \<lparr>co_updated_at := 1000, co_scopes := [''read'']\<rparr>"

lemma sample_callback:
  "change_complete_authorization sample_env sample_vault sample_providers sample_endpoint ''st'' ''code'' sample_vault_state =
     (Inr sample_granted,
      snd (change_complete_authorization sample_env sample_vault sample_providers sample_endpoint ''st'' ''code'' sample_vault_state))"
  by (simp add: change_complete_authorization_def redeem_authorization_def redeem_state_simp flow_redeem_def is_live_def
      finish_authorization_def provider_for_def sample_providers_def sample_endpoint_def store_oauth_secret_def
      granted_scopes_def sample_token_def secret_field_def sample_provider_def sample_binding_def sample_granted_def vault_eval sample_vault_def)

theorem consent_binds_witness:
  "\<exists>f pv x s1 u m. map_of (m_flows sample_vault_state) (ev_hash_token sample_env ''st'') = Some f
    \<and> ev_now sample_env < of_expires_at f \<and> map_of sample_providers (fb_service (of_binding f)) = Some pv
    \<and> te_exchange_code sample_endpoint pv ''code'' (fb_redirect_uri (of_binding f)) s1 = (Inr x, u)
    \<and> stored_in (fb_account_id (of_binding f)) (fb_profile (of_binding f)) (fb_service (of_binding f))
        sample_granted
        (seal sample_vault m x) u
        (snd (change_complete_authorization sample_env sample_vault sample_providers sample_endpoint ''st'' ''code'' sample_vault_state))
    \<and> co_status sample_granted = CONN_ACTIVE
    \<and> va_master sample_vault = Some m"
  by (rule consent_binds [OF sample_vault_ok sample_callback]) (simp add: sample_endpoint_def txn_simps)

text \<open>A consent link works once: after a callback with its state, whatever its outcome and
  whatever requests follow that draw other tokens, a second callback with it is refused as
  invalid and changes nothing.\<close>

lemma consent_link_works_once:
  assumes "\<And>u q. (u, q) \<in> set qs \<Longrightarrow> ev_hash_token (wo_env u) (ev_token (wo_env u)) \<noteq> ev_hash_token w st"
    and "\<And>u p t. u \<in> insert u0 (fst ` set qs) \<Longrightarrow> keeps (no_flow (ev_hash_token w st)) (te_refresh (wo_endpoint u) p t)"
    and "\<And>u p c r. u \<in> insert u0 (fst ` set qs) \<Longrightarrow> keeps (no_flow (ev_hash_token w st)) (te_exchange_code (wo_endpoint u) p c r)"
    and "wo_env u0 = w"
  shows "change_complete_authorization w v ps te st code' (vault_run qs (snd (handle_vault u0 (Callback st code) s))) =
    (Inl INVALID_STATE, vault_run qs (snd (handle_vault u0 (Callback st code) s)))"
proof -
  let ?h = "ev_hash_token w st"
  have "no_flow ?h (snd (handle_vault u0 (Callback st code) s))"
    unfolding assms(4) [symmetric] by (rule callback_forgets) (unfold assms(4), rule assms(3), simp)
  moreover have "keeps (no_flow ?h) (handle_vault u q)" if q: "(u, q) \<in> set qs" for u q
  proof -
    have u: "u \<in> insert u0 (fst ` set qs)" using q by force
    show ?thesis by (rule keeps_no_flow_handle [OF assms(1) [OF q] assms(2) [OF u] assms(3) [OF u]])
  qed
  ultimately have "no_flow ?h (vault_run qs (snd (handle_vault u0 (Callback st code) s)))"
    by (rule vault_run_keeps [rotated])
  then show ?thesis
    by (simp only: change_complete_authorization_def andthen_simp redeem_authorization_unknown no_flow_def)
      (simp only: prod.case sum.case)
qed

lemma consent_link_works_once_witness:
  "change_complete_authorization sample_env sample_vault sample_providers sample_endpoint ''st'' ''code''
     (vault_run [(sample_world, SweepStates)] (snd (handle_vault sample_world (Callback ''st'' ''code'') sample_vault_state))) =
    (Inl INVALID_STATE,
     vault_run [(sample_world, SweepStates)] (snd (handle_vault sample_world (Callback ''st'' ''code'') sample_vault_state)))"
  by (rule consent_link_works_once) (simp_all add: sample_world_def sample_endpoint_keeps sample_env_def)

lemma consent_begins_quietly_parts:
  assumes "db_ok s" and "begin_authorization w ps a n sv uri s = (Inr au, t)"
    and "normalize_profile_name n = Inr m" and "normalize_service_name sv = Inr x"
  shows "\<exists>pv. map_of ps x = Some pv \<and> au_url au = authorization_url pv uri (ev_token w)
    \<and> map_of (m_flows t) (ev_hash_token w (ev_token w)) = Some \<lparr>of_binding = \<lparr>fb_account_id = a, fb_profile = m,
       fb_service = x, fb_kind = OAUTH2_AUTHORIZATION_CODE, fb_redirect_uri = uri\<rparr>, of_expires_at = au_expires_at au\<rparr>"
    and "conn_get a m x s = Some c \<Longrightarrow> is_usable c (ev_now w) \<Longrightarrow> t = s\<lparr>m_flows := m_flows t\<rparr>"
    and "envelope_get b m' x' t = envelope_get b m' x' s"
    and "(b, m', x') \<noteq> (a, m, x) \<Longrightarrow> conn_get b m' x' t = conn_get b m' x' s"
proof -
  obtain m1 x1 pv where b: "normalize_profile_name n = Inr m1" "normalize_service_name sv = Inr x1" "map_of ps x1 = Some pv"
    "au_url au = authorization_url pv uri (ev_token w)"
    "map_of (m_flows t) (ev_hash_token w (ev_token w)) = Some \<lparr>of_binding = \<lparr>fb_account_id = a, fb_profile = m1,
       fb_service = x1, fb_kind = OAUTH2_AUTHORIZATION_CODE, fb_redirect_uri = uri\<rparr>, of_expires_at = au_expires_at au\<rparr>"
    "\<And>c. conn_get a m1 x1 s = Some c \<Longrightarrow> is_usable c (ev_now w) \<Longrightarrow> t = s\<lparr>m_flows := m_flows t\<rparr>"
    "\<And>a' n' sv'. envelope_get a' n' sv' t = envelope_get a' n' sv' s"
    "\<And>a' n' sv'. (a', n', sv') \<noteq> (a, m1, x1) \<Longrightarrow> conn_get a' n' sv' t = conn_get a' n' sv' s"
    by (rule begin_authorization_Inr [OF assms(1,2)]) (rule that)
  have mx: "m1 = m" "x1 = x" using assms(3,4) b(1,2) by simp_all
  show "\<exists>pv. map_of ps x = Some pv \<and> au_url au = authorization_url pv uri (ev_token w)
    \<and> map_of (m_flows t) (ev_hash_token w (ev_token w)) = Some \<lparr>of_binding = \<lparr>fb_account_id = a, fb_profile = m,
       fb_service = x, fb_kind = OAUTH2_AUTHORIZATION_CODE, fb_redirect_uri = uri\<rparr>, of_expires_at = au_expires_at au\<rparr>"
    using b(3-5) mx by blast
  show "conn_get a m x s = Some c \<Longrightarrow> is_usable c (ev_now w) \<Longrightarrow> t = s\<lparr>m_flows := m_flows t\<rparr>"
    using b(6) mx by blast
  show "envelope_get b m' x' t = envelope_get b m' x' s" by (rule b(7))
  show "(b, m', x') \<noteq> (a, m, x) \<Longrightarrow> conn_get b m' x' t = conn_get b m' x' s" using b(8) mx by blast
qed

text \<open>Beginning a consent hands out a link to the configured provider with the fresh state in
  it, bound to the caller's own profile and service until the link expires, keeps every secret,
  and leaves a connection that still works exactly as it is; only a connection that is absent
  or unusable is shown as pending.\<close>

lemma consent_begins_quietly:
  assumes "db_ok s" and "begin_authorization w ps a n sv uri s = (Inr au, t)"
    and "normalize_profile_name n = Inr m" and "normalize_service_name sv = Inr x"
  shows "(\<exists>pv. map_of ps x = Some pv \<and> au_url au = authorization_url pv uri (ev_token w)
    \<and> map_of (m_flows t) (ev_hash_token w (ev_token w)) = Some \<lparr>of_binding = \<lparr>fb_account_id = a, fb_profile = m,
       fb_service = x, fb_kind = OAUTH2_AUTHORIZATION_CODE, fb_redirect_uri = uri\<rparr>, of_expires_at = au_expires_at au\<rparr>)
    \<and> (\<forall>c. conn_get a m x s = Some c \<longrightarrow> is_usable c (ev_now w) \<longrightarrow> t = s\<lparr>m_flows := m_flows t\<rparr>)
    \<and> (\<forall>b m' x'. envelope_get b m' x' t = envelope_get b m' x' s
      \<and> ((b, m', x') \<noteq> (a, m, x) \<longrightarrow> conn_get b m' x' t = conn_get b m' x' s))"
  using consent_begins_quietly_parts [OF assms] by blast


lemma sample_begin:
  "begin_authorization sample_env sample_providers ''m'' ''work'' ''music'' ''https://k/cb'' sample_vault_state =
     (Inr \<lparr>au_url = authorization_url sample_provider ''https://k/cb'' ''tok'', au_expires_at = 1000 + timedelta_s 600\<rparr>,
      snd (begin_authorization sample_env sample_providers ''m'' ''work'' ''music'' ''https://k/cb'' sample_vault_state))"
  by (simp add: begin_authorization_def issue_state_simp provider_for_def sample_providers_def is_usable_def can_refresh_def
      vault_eval)

lemma consent_begins_quietly_witness:
  "\<exists>pv. map_of sample_providers ''music'' = Some pv \<and> authorization_url sample_provider ''https://k/cb'' ''tok'' =
      authorization_url pv ''https://k/cb'' (ev_token sample_env)"
  using consent_begins_quietly [OF sample_vault_ok sample_begin sample_names(1,3)] by auto

section \<open>Caps\<close>

text \<open>C29: However requests follow each other, no account has more profiles and no profile more
  connections than the deployment allows.\<close>

theorem caps_hold:
  assumes "within_caps st s" and "\<And>u q. (u, q) \<in> set qs \<Longrightarrow> ev_settings (wo_env u) = st"
    and "\<And>u p t. u \<in> fst ` set qs \<Longrightarrow> keeps (within_caps st) (te_refresh (wo_endpoint u) p t)"
    and "\<And>u p c r. u \<in> fst ` set qs \<Longrightarrow> keeps (within_caps st) (te_exchange_code (wo_endpoint u) p c r)"
  shows "profile_count_for_account a (vault_run qs s) \<le> st_max_profiles_per_account st
    \<and> connections_in a n (vault_run qs s) \<le> st_max_connections_per_profile st"
proof -
  have "keeps (within_caps st) (handle_vault u q)" if q: "(u, q) \<in> set qs" for u q
  proof -
    have u: "u \<in> fst ` set qs" using q by force
    show ?thesis by (rule keeps_caps_handle [OF assms(2) [OF q] assms(3) [OF u] assms(4) [OF u]])
  qed
  then have "within_caps st (vault_run qs s)" using assms(1) by (rule vault_run_keeps)
  then show ?thesis by (simp add: within_caps_def)
qed

lemma sample_caps: "within_caps sample_settings sample_vault_state"
  unfolding within_caps_def
  by (intro conjI sample_vault_ok; simp add: profile_count_for_account_def connections_in_def count_where_def vault_sample_defs)

theorem caps_hold_witness:
  "profile_count_for_account ''m'' (vault_run [(sample_world, CreateProfile ''m'' ''home'')] sample_vault_state)
      \<le> st_max_profiles_per_account sample_settings
    \<and> connections_in ''m'' ''work'' (vault_run [(sample_world, CreateProfile ''m'' ''home'')] sample_vault_state)
      \<le> st_max_connections_per_profile sample_settings"
  by (rule caps_hold [OF sample_caps]) (auto simp: sample_world_def sample_endpoint_keeps sample_env_def)

end
