(* ===== verification/DelegationStore.thy ===== *)
theory DelegationStore
  imports ProfileStore
begin

text \<open>
  \<^verbatim>\<open>src/src/keyring_api/profiles/sql_delegations.py\<close>: offline grants. Every lookup by a person names
  the account and the profile; the lookup of an exchange names the service. The port is
  \<^verbatim>\<open>profiles/delegations.py\<close>.
\<close>

section \<open>Statements\<close>

definition delegation_add :: "offline_grant \<Rightarrow> nat \<Rightarrow> int \<Rightarrow> ('z, unit) dbtxn" where
  "delegation_add grant cap now d =
     (if \<not> list_ex (\<lambda>r. pr_account_id r = og_account_id grant \<and> pr_name r = og_profile grant) (t_profiles d)
      then Inl (ProfileNotFoundError [''no profile of that name''])
      else if count_where (\<lambda>g. og_account_id g = og_account_id grant \<and> og_profile g = og_profile grant
                \<and> og_revoked_at g = None \<and> og_expires_at g > now) (t_offline_grants d) \<ge> cap
      then Inl (LimitExceededError [''the offline grant limit for this profile was reached''])
      else (case insert_offline_grant (grant\<lparr>og_revoked_at := None\<rparr>) d of
              Inl e \<Rightarrow> Inl e
            | Inr d' \<Rightarrow> Inr ((), d')))"

definition delegation_for_exchange :: "string \<Rightarrow> string \<Rightarrow> 'z db_scheme \<Rightarrow> offline_grant option" where
  "delegation_for_exchange grant_id service d =
     fetch_one (\<lambda>g. og_id g = grant_id \<and> og_service g = service) (t_offline_grants d)"

definition delegation_list_for_profile :: "string \<Rightarrow> string \<Rightarrow> 'z db_scheme \<Rightarrow> offline_grant list" where
  "delegation_list_for_profile account_id profile d =
     sort_key (\<lambda>g. (og_created_at g, og_id g))
       (select_where (\<lambda>g. og_account_id g = account_id \<and> og_profile g = profile) (t_offline_grants d))"

definition revoked_at :: "int \<Rightarrow> offline_grant \<Rightarrow> offline_grant" where
  "revoked_at now g =
     g\<lparr>og_revoked_at := (case og_revoked_at g of None \<Rightarrow> Some now | Some t \<Rightarrow> Some t)\<rparr>"

definition delegation_revoke :: "string \<Rightarrow> string \<Rightarrow> string \<Rightarrow> int \<Rightarrow> ('z, bool) dbtxn" where
  "delegation_revoke account_id profile grant_id now d =
     (let hit = (\<lambda>g. og_account_id g = account_id \<and> og_profile g = profile \<and> og_id g = grant_id);
          rows = count_where hit (t_offline_grants d)
      in Inr (rows > 0, d\<lparr>t_offline_grants := update_where hit (revoked_at now) (t_offline_grants d)\<rparr>))"

section \<open>One grant at a time\<close>

definition offline_grant_of :: "string \<Rightarrow> 'z db_scheme \<Rightarrow> offline_grant option" where
  "offline_grant_of i d = fetch_one (\<lambda>g. og_id g = i) (t_offline_grants d)"

lemma revoked_at_simps [simp]:
  "og_id (revoked_at now g) = og_id g" "og_account_id (revoked_at now g) = og_account_id g"
  "og_profile (revoked_at now g) = og_profile g" "og_service (revoked_at now g) = og_service g"
  "og_audiences (revoked_at now g) = og_audiences g" "og_created_at (revoked_at now g) = og_created_at g"
  "og_expires_at (revoked_at now g) = og_expires_at g" "og_revoked_at (revoked_at now g) \<noteq> None"
  by (simp_all add: revoked_at_def split: option.split)

lemma revoked_at_Some [simp]: "\<exists>t. og_revoked_at (revoked_at now g) = Some t"
  by (simp add: revoked_at_def split: option.split)

lemma grants_distinct: "db_ok d \<Longrightarrow> distinct (map og_id (t_offline_grants d))"
  by (simp add: db_ok_def keys_ok_def)

lemma offline_grant_of_Some:
  "db_ok d \<Longrightarrow> offline_grant_of i d = Some g \<longleftrightarrow> g \<in> set (t_offline_grants d) \<and> og_id g = i"
  unfolding offline_grant_of_def by (rule fetch_one_key_iff) (rule grants_distinct)

lemma offline_grant_profile:
  "db_ok d \<Longrightarrow> offline_grant_of i d = Some g \<Longrightarrow> (og_account_id g, og_profile g) \<in> profile_keys d"
  by (auto simp: offline_grant_of_Some db_ok_def dest: refs_okD(7))

lemma for_exchange_Some:
  assumes "db_ok d"
  shows "delegation_for_exchange i sv d = Some g \<longleftrightarrow> offline_grant_of i d = Some g \<and> og_service g = sv"
proof
  assume "delegation_for_exchange i sv d = Some g"
  then show "offline_grant_of i d = Some g \<and> og_service g = sv"
    using fetch_one_SomeD [of _ "t_offline_grants d" g]
    by (auto simp: delegation_for_exchange_def offline_grant_of_Some [OF assms] dest!: fetch_one_SomeD)
next
  assume g: "offline_grant_of i d = Some g \<and> og_service g = sv"
  then have "g \<in> set (t_offline_grants d)" "og_id g = i" by (simp_all add: offline_grant_of_Some [OF assms])
  then obtain g' where g': "delegation_for_exchange i sv d = Some g'"
    using g by (cases "delegation_for_exchange i sv d") (auto simp: delegation_for_exchange_def table_simps)
  then have "offline_grant_of i d = Some g'"
    by (auto simp: delegation_for_exchange_def offline_grant_of_Some [OF assms] dest!: fetch_one_SomeD)
  with g g' show "delegation_for_exchange i sv d = Some g" by simp
qed

lemma set_list_for_profile:
  assumes "db_ok d"
  shows "g \<in> set (delegation_list_for_profile a n d) \<longleftrightarrow>
    offline_grant_of (og_id g) d = Some g \<and> og_account_id g = a \<and> og_profile g = n"
  by (auto simp: delegation_list_for_profile_def table_simps offline_grant_of_Some [OF assms])

definition unrevoked_grants :: "string \<Rightarrow> string \<Rightarrow> int \<Rightarrow> 'z db_scheme \<Rightarrow> nat" where
  "unrevoked_grants a n now d = count_where (\<lambda>g. og_account_id g = a \<and> og_profile g = n
     \<and> og_revoked_at g = None \<and> og_expires_at g > now) (t_offline_grants d)"

lemma delegation_add_Inr:
  assumes "db_ok d" and "delegation_add g cap now d = Inr (u, d')"
  shows "db_ok d'" and "d' = d\<lparr>t_offline_grants := t_offline_grants d @ [g\<lparr>og_revoked_at := None\<rparr>]\<rparr>"
    and "offline_grant_of i d' = (if i = og_id g then Some (g\<lparr>og_revoked_at := None\<rparr>) else offline_grant_of i d)"
    and "offline_grant_of (og_id g) d = None" and "(og_account_id g, og_profile g) \<in> profile_keys d"
    and "unrevoked_grants (og_account_id g) (og_profile g) now d < cap"
proof -
  have ins: "insert_offline_grant (g\<lparr>og_revoked_at := None\<rparr>) d = Inr d'"
    and few: "unrevoked_grants (og_account_id g) (og_profile g) now d < cap"
    using assms(2) by (auto simp: delegation_add_def unrevoked_grants_def split: if_splits sum.splits)
  show "db_ok d'" by (rule insert_offline_grant_ok [OF assms(1) ins])
  show eq: "d' = d\<lparr>t_offline_grants := t_offline_grants d @ [g\<lparr>og_revoked_at := None\<rparr>]\<rparr>"
    using ins by (auto simp: insert_offline_grant_def split: if_splits)
  show new: "offline_grant_of (og_id g) d = None"
    using ins by (auto simp: insert_offline_grant_def offline_grant_of_def table_simps list_ex_iff split: if_splits)
  show "offline_grant_of i d' = (if i = og_id g then Some (g\<lparr>og_revoked_at := None\<rparr>) else offline_grant_of i d)"
    using new unfolding offline_grant_of_def eq
    by (cases "fetch_one (\<lambda>g. og_id g = i) (t_offline_grants d)")
      (auto simp: fetch_one_append fetch_one_Cons fetch_one_Nil)
  show "(og_account_id g, og_profile g) \<in> profile_keys d"
    using ins by (auto simp: insert_offline_grant_def profile_keys_def list_ex_iff image_iff split: if_splits) metis
  show "unrevoked_grants (og_account_id g) (og_profile g) now d < cap" by (rule few)
qed

lemma revoke_grants_ok:
  assumes "db_ok d"
  shows "db_ok (d\<lparr>t_offline_grants := update_where p (revoked_at now) (t_offline_grants d)\<rparr>)"
proof -
  have "map og_id (update_where p (revoked_at now) rows) = map og_id rows" for rows
    by (simp add: update_where_def)
  moreover have "\<forall>g \<in> set (update_where p (revoked_at now) (t_offline_grants d)). (og_account_id g, og_profile g) \<in> profile_keys d"
    using assms by (auto simp: set_update_where db_ok_def dest: refs_okD(7))
  ultimately show ?thesis using assms by (simp add: db_defs)
qed

lemma delegation_revoke_Inr:
  assumes "db_ok d" and "delegation_revoke a n i now d = Inr (b, d')"
  shows "db_ok d'" and "b \<longleftrightarrow> (\<exists>g. offline_grant_of i d = Some g \<and> og_account_id g = a \<and> og_profile g = n)"
    and "offline_grant_of j d' = (if j = i \<and> b then map_option (revoked_at now) (offline_grant_of i d) else offline_grant_of j d)"
    and "t_profiles d' = t_profiles d"
proof -
  let ?hit = "\<lambda>g. og_account_id g = a \<and> og_profile g = n \<and> og_id g = i"
  have d': "d' = d\<lparr>t_offline_grants := update_where ?hit (revoked_at now) (t_offline_grants d)\<rparr>"
    and b: "b \<longleftrightarrow> count_where ?hit (t_offline_grants d) > 0"
    using assms(2) by (auto simp: delegation_revoke_def Let_def)
  show ok: "db_ok d'" unfolding d' by (rule revoke_grants_ok [OF assms(1)])
  show found: "b \<longleftrightarrow> (\<exists>g. offline_grant_of i d = Some g \<and> og_account_id g = a \<and> og_profile g = n)"
    by (auto simp: b count_where_pos offline_grant_of_Some [OF assms(1)])
  show "t_profiles d' = t_profiles d" by (simp add: d')
  have "offline_grant_of j d' = Some x \<longleftrightarrow>
     (if j = i \<and> b then map_option (revoked_at now) (offline_grant_of i d) else offline_grant_of j d) = Some x" for x
  proof (cases "j = i \<and> b")
    case True
    with found obtain g where g: "offline_grant_of i d = Some g" "?hit g"
      by (auto simp: offline_grant_of_Some [OF assms(1)])
    then have "revoked_at now g \<in> set (t_offline_grants d')" "og_id (revoked_at now g) = i"
      by (auto simp: d' set_update_where image_iff offline_grant_of_Some [OF assms(1)] intro!: bexI [of _ g])
    then have "offline_grant_of j d' = Some (revoked_at now g)" using True by (simp add: offline_grant_of_Some [OF ok])
    with g True show ?thesis by auto
  next
    case False
    then have other: "\<not> ?hit g" if "g \<in> set (t_offline_grants d)" "og_id g = j" for g
      using that found by (auto simp: offline_grant_of_Some [OF assms(1)])
    have "x \<in> set (t_offline_grants d') \<and> og_id x = j \<longleftrightarrow> x \<in> set (t_offline_grants d) \<and> og_id x = j"
    proof
      assume x: "x \<in> set (t_offline_grants d') \<and> og_id x = j"
      then have "x \<in> set (update_where ?hit (revoked_at now) (t_offline_grants d))" by (simp add: d')
      then show "x \<in> set (t_offline_grants d) \<and> og_id x = j"
        by (cases rule: update_whereE) (use x other in auto)
    next
      assume x: "x \<in> set (t_offline_grants d) \<and> og_id x = j"
      with other show "x \<in> set (t_offline_grants d') \<and> og_id x = j"
        by (auto simp: d' set_update_where image_iff intro!: bexI [of _ x])
    qed
    with False show ?thesis by (simp only: offline_grant_of_Some [OF ok] offline_grant_of_Some [OF assms(1)] if_False)
  qed
  then show "offline_grant_of j d' = (if j = i \<and> b then map_option (revoked_at now) (offline_grant_of i d) else offline_grant_of j d)"
    by (metis option.exhaust)
qed

section \<open>The port\<close>

locale delegation_store =
  fixes ok :: "'s \<Rightarrow> bool"
    and grant :: "string \<Rightarrow> 's \<Rightarrow> offline_grant option"
    and lookup :: "string \<Rightarrow> string \<Rightarrow> 's \<Rightarrow> offline_grant option"
    and add :: "offline_grant \<Rightarrow> nat \<Rightarrow> int \<Rightarrow> (error, 's, unit) txn"
    and revoke :: "string \<Rightarrow> string \<Rightarrow> string \<Rightarrow> int \<Rightarrow> (error, 's, bool) txn"
  assumes lookup_grant: "ok s \<Longrightarrow> lookup i sv s = Some g \<longleftrightarrow> grant i s = Some g \<and> og_service g = sv"
    and add_grant: "ok s \<Longrightarrow> add g cap now s = Inr (u, t) \<Longrightarrow> ok t \<and> grant (og_id g) s = None \<and>
      grant i t = (if i = og_id g then Some (g\<lparr>og_revoked_at := None\<rparr>) else grant i s)"
    and revoke_grant: "ok s \<Longrightarrow> revoke a n i now s = Inr (b, t) \<Longrightarrow> ok t \<and>
      (b \<longleftrightarrow> (\<exists>g. grant i s = Some g \<and> og_account_id g = a \<and> og_profile g = n)) \<and>
      grant j t = (if j = i \<and> b then map_option (revoked_at now) (grant i s) else grant j s)"
begin

definition spent :: "string \<Rightarrow> 's \<Rightarrow> bool" where
  "spent i s \<longleftrightarrow> (\<forall>g. grant i s = Some g \<longrightarrow> og_revoked_at g \<noteq> None)"

lemma lookup_spent: "ok s \<Longrightarrow> spent i s \<Longrightarrow> lookup i sv s = Some g \<Longrightarrow> og_revoked_at g \<noteq> None"
  by (simp add: spent_def lookup_grant)

text \<open>A revoked grant stays revoked, and adding cannot bring its handle back.\<close>

lemma revoke_spends:
  "ok s \<Longrightarrow> revoke a n i now s = Inr (True, t) \<Longrightarrow> spent i t"
  using revoke_grant [of s a n i now True t i] by (auto simp: spent_def)

lemma revoke_keeps_spent: "ok s \<Longrightarrow> revoke a n j now s = Inr (b, t) \<Longrightarrow> spent i s \<Longrightarrow> spent i t"
  using revoke_grant [of s a n j now b t i] by (auto simp: spent_def split: if_splits)

lemma add_keeps_spent:
  "ok s \<Longrightarrow> add g cap now s = Inr (u, t) \<Longrightarrow> og_id g \<noteq> i \<Longrightarrow> spent i s \<Longrightarrow> spent i t"
  using add_grant [of s g cap now u t i] by (auto simp: spent_def)

lemma add_not_revoked: "ok s \<Longrightarrow> grant i s \<noteq> None \<Longrightarrow> add g cap now s = Inr (u, t) \<Longrightarrow> og_id g \<noteq> i"
  using add_grant [of s g cap now u t i] by auto

text \<open>The first instant of revocation is the one that stays.\<close>

lemma revoke_twice:
  assumes "ok s" and "revoke a n i now s = Inr (b, t)" and "grant i s = Some g" and "og_revoked_at g = Some r"
  shows "grant i t = Some g"
proof -
  have "revoked_at now g = g" using assms(4) by (cases g) (simp add: revoked_at_def)
  then show ?thesis using revoke_grant [OF assms(1,2), of i] assms(3) by (auto split: if_splits)
qed

end

interpretation dl: delegation_store db_ok offline_grant_of delegation_for_exchange delegation_add delegation_revoke
proof (unfold_locales, goal_cases)
  case (1 s i sv g) then show ?case by (rule for_exchange_Some)
next
  case (2 s g cap now u t i)
  then show ?case using delegation_add_Inr(1,4) [OF 2] delegation_add_Inr(3) [OF 2, of i] by blast
next
  case (3 s a n i now b t j)
  then show ?case using delegation_revoke_Inr(1,2) [OF 3] delegation_revoke_Inr(3) [OF 3, of j] by blast
qed

end
