(* ===== verification/ServiceTokens.thy ===== *)
theory ServiceTokens
  imports Config
begin

text \<open>
  \<^verbatim>\<open>src/clients/python/keyring_client/service_tokens.py\<close> and \<^verbatim>\<open>errors.py\<close>: which service a static
  bearer token belongs to. The number of comparisons made is an answer too, because it is what
  the time of a call shows.
\<close>

section \<open>The errors of the client library\<close>

datatype client_error =
    ClientAuthenticationError message
  | KeyringUnreachableError message
  | KeyringRejectedError message
  | CredentialNotFoundError message
  | ClientCredentialUnavailableError message
  | ClientValueError message

definition BAD_SERVICE :: message where "BAD_SERVICE = [''service credentials were not accepted'']"

section \<open>Building\<close>

definition check_service_token :: "string \<Rightarrow> client_error + string" where
  "check_service_token token =
     (if strip token \<noteq> token
        then Inl (ClientValueError [''a service token must not have surrounding whitespace''])
      else if length token < MIN_SERVICE_TOKEN_CHARS
        then Inl (ClientValueError [''a service token must be at least '', str_nat MIN_SERVICE_TOKEN_CHARS, '' characters''])
      else Inr token)"

fun check_each :: "string list \<Rightarrow> client_error + unit" where
  "check_each [] = Inr ()"
| "check_each (token # tokens) = (case check_service_token token of Inl e \<Rightarrow> Inl e | Inr _ \<Rightarrow> check_each tokens)"

definition service_authenticator :: "(string \<times> string) list \<Rightarrow> client_error + (string \<times> string) list" where
  "service_authenticator tokens =
     (case check_each (map snd tokens) of
        Inl e \<Rightarrow> Inl e
      | Inr _ \<Rightarrow>
          if card (set (map snd tokens)) \<noteq> length tokens
          then Inl (ClientValueError [''two services share a service token; each needs its own''])
          else Inr tokens)"

definition configured :: "(string \<times> string) list \<Rightarrow> string list" where
  "configured tokens = sort (map fst tokens)"

section \<open>Identifying\<close>

text \<open>The loop, which does not stop at a match, with the comparisons it made.\<close>

fun compare_all :: "string \<Rightarrow> (string \<times> string) list \<Rightarrow> string option \<times> nat \<Rightarrow> string option \<times> nat" where
  "compare_all candidate [] m = m"
| "compare_all candidate ((name, token) # rest) (matched, n) =
     compare_all candidate rest (if candidate = token then Some name else matched, n + 1)"

definition identify :: "(string \<times> string) list \<Rightarrow> string option \<Rightarrow> (client_error + string) \<times> nat" where
  "identify tokens presented =
     (case presented of
        None \<Rightarrow> (Inl (ClientAuthenticationError BAD_SERVICE), 0)
      | Some candidate \<Rightarrow>
          if candidate = [] then (Inl (ClientAuthenticationError BAD_SERVICE), 0)
          else (case compare_all candidate tokens (None, 0) of (matched, n) \<Rightarrow>
            (case matched of None \<Rightarrow> Inl (ClientAuthenticationError BAD_SERVICE) | Some name \<Rightarrow> Inr name, n)))"

definition BEARER_PREFIX :: string where "BEARER_PREFIX = ''Bearer ''"

definition identify_authorization ::
  "(string \<times> string) list \<Rightarrow> string option \<Rightarrow> (client_error + string) \<times> nat" where
  "identify_authorization tokens authorization =
     (case authorization of
        None \<Rightarrow> (Inl (ClientAuthenticationError BAD_SERVICE), 0)
      | Some header \<Rightarrow>
          if take (length BEARER_PREFIX) header \<noteq> BEARER_PREFIX
          then (Inl (ClientAuthenticationError BAD_SERVICE), 0)
          else identify tokens (Some (drop (length BEARER_PREFIX) header)))"

section \<open>Facts\<close>

lemma check_each_Inr:
  "check_each tokens = Inr u \<longleftrightarrow> (\<forall>t \<in> set tokens. strip t = t \<and> 32 \<le> length t)"
  by (induction tokens) (auto simp: check_service_token_def MIN_SERVICE_TOKEN_CHARS_def split: sum.splits if_splits)

text \<open>What the settings validator accepts can be built.\<close>

lemma service_authenticator_Inr:
  "service_authenticator tokens = Inr ts \<longleftrightarrow> ts = tokens \<and> check_service_tokens tokens = Inr ()"
proof -
  have "card (set (map snd tokens)) = length tokens \<longleftrightarrow> distinct (map snd tokens)"
    by (metis card_distinct distinct_card length_map)
  then have "service_authenticator tokens = Inr ts \<longleftrightarrow>
      ts = tokens \<and> distinct (map snd tokens) \<and> check_each (map snd tokens) = Inr ()"
    by (cases "check_each (map snd tokens)") (auto simp: service_authenticator_def)
  then show ?thesis by (auto simp: check_service_tokens_Inr check_each_Inr)
qed

lemma compare_all_count: "snd (compare_all c tokens (m, n)) = n + length tokens"
  by (induction tokens arbitrary: m n) auto

text \<open>Which service the loop ends with: the last that matches.\<close>

lemma compare_all_last:
  "fst (compare_all c tokens (m, n)) =
     (case rev (filter (\<lambda>e. snd e = c) tokens) of [] \<Rightarrow> m | e # _ \<Rightarrow> Some (fst e))"
  by (induction tokens arbitrary: m n) (auto split: list.splits)

lemma compare_all_Some:
  assumes "fst (compare_all c tokens (None, n)) = Some name"
  shows "(name, c) \<in> set tokens"
proof -
  obtain e es where e: "rev (filter (\<lambda>e. snd e = c) tokens) = e # es" "name = fst e"
    using assms by (auto simp: compare_all_last split: list.splits)
  then have "e \<in> set (filter (\<lambda>e. snd e = c) tokens)" by (metis list.set_intros(1) set_rev)
  with e(2) show ?thesis by auto
qed

lemma compare_all_found:
  assumes "distinct (map snd tokens)" and "(name, c) \<in> set tokens"
  shows "fst (compare_all c tokens (None, n)) = Some name"
proof (cases "fst (compare_all c tokens (None, n))")
  case None
  then have "filter (\<lambda>e. snd e = c) tokens = []" by (auto simp: compare_all_last split: list.splits)
  with assms(2) show ?thesis by (auto simp: filter_empty_conv)
next
  case (Some x)
  then have "(x, c) \<in> set tokens" by (rule compare_all_Some)
  with assms have "(x, c) = (name, c)" unfolding distinct_map by (metis inj_onD snd_conv)
  then have "x = name" by simp
  with Some show ?thesis by simp
qed

lemma identify_Inr:
  assumes "check_service_tokens tokens = Inr ()"
  shows "fst (identify tokens presented) = Inr name \<longleftrightarrow>
    (\<exists>token. presented = Some token \<and> (name, token) \<in> set tokens)"
proof (cases presented)
  case (Some c)
  have d: "distinct (map snd tokens)" and long: "(name, c) \<in> set tokens \<Longrightarrow> c \<noteq> []"
    using assms by (fastforce simp: check_service_tokens_Inr)+
  have "fst (identify tokens presented) = Inr name \<longleftrightarrow>
      c \<noteq> [] \<and> fst (compare_all c tokens (None, 0)) = Some name"
    by (auto simp: identify_def Some split: prod.splits option.splits)
  also have "\<dots> \<longleftrightarrow> (name, c) \<in> set tokens"
    using compare_all_Some compare_all_found [OF d] long by blast
  finally show ?thesis by (simp add: Some)
qed (simp add: identify_def)

text \<open>Every text that is compared is compared with every configured token.\<close>

lemma identify_count:
  "snd (identify tokens (Some c)) = (if c = [] then 0 else length tokens)"
  using compare_all_count [of c tokens None 0] by (auto simp: identify_def split: prod.splits)

end
