(* ===== verification/Signing.thy ===== *)
theory Signing
  imports Sys
begin

text \<open>
  \<^verbatim>\<open>src/src/keyring_api/accounts/signing.py\<close>: short-lived signed tokens. PyJWT is a pair of
  functions: one signs a set of claims, the other returns the claims of a token whose
  signature under the published key and the pinned algorithm is good and which carries every
  required claim. What \<open>jwt.decode\<close> compares (issuer, audience, and, since nothing turns that off, the
  moment of issue with the clock of the system) and the expiry, which the code checks against the
  clock it was given, are written out.
\<close>

section \<open>Tokens\<close>

definition BAD_TOKEN :: message where "BAD_TOKEN = [''the token was not accepted'']"

record claims =
  cl_iss :: string
  cl_sub :: string
  cl_aud :: string
  cl_iat :: int
  cl_exp :: int

record verified_token =
  vt_account_id :: string
  vt_expires_at :: int

record signer =
  sg_issuer :: string
  sg_encode :: "claims \<Rightarrow> string"
  sg_decode :: "string \<Rightarrow> claims option" \<comment> \<open>\<open>None\<close>: \<open>InvalidTokenError\<close>\<close>

text \<open>\<open>int(t.timestamp())\<close>, which drops the fraction towards zero.\<close>

definition int_seconds :: "int \<Rightarrow> int" where
  "int_seconds t = (if 0 \<le> t then t div 1000000 else - ((- t) div 1000000))"

definition claims_of :: "signer \<Rightarrow> int \<Rightarrow> string \<Rightarrow> string \<Rightarrow> int \<Rightarrow> claims" where
  "claims_of g now account_id audience ttl_seconds =
     \<lparr>cl_iss = sg_issuer g, cl_sub = account_id, cl_aud = audience, cl_iat = int_seconds now,
      cl_exp = int_seconds (now + timedelta_s ttl_seconds)\<rparr>"

definition issue :: "signer \<Rightarrow> int \<Rightarrow> string \<Rightarrow> string \<Rightarrow> int \<Rightarrow> string" where
  "issue g now account_id audience ttl_seconds = sg_encode g (claims_of g now account_id audience ttl_seconds)"

definition verify_access :: "signer \<Rightarrow> int \<Rightarrow> int \<Rightarrow> string \<Rightarrow> string \<Rightarrow> verified_token result" where
  "verify_access g wall now token audience =
     (case sg_decode g token of
        None \<Rightarrow> Inl (AuthenticationError BAD_TOKEN)
      | Some c \<Rightarrow>
          if cl_aud c \<noteq> audience \<or> cl_iss c \<noteq> sg_issuer g \<or> wall < timedelta_s (cl_iat c)
          then Inl (AuthenticationError BAD_TOKEN)
          else if now \<ge> timedelta_s (cl_exp c) then Inl (AuthenticationError BAD_TOKEN)
          else Inr \<lparr>vt_account_id = cl_sub c, vt_expires_at = timedelta_s (cl_exp c)\<rparr>)"

definition verify :: "signer \<Rightarrow> int \<Rightarrow> int \<Rightarrow> string \<Rightarrow> string \<Rightarrow> string result" where
  "verify g wall now token audience =
     (case verify_access g wall now token audience of Inl e \<Rightarrow> Inl e | Inr c \<Rightarrow> Inr (vt_account_id c))"

section \<open>Published keys\<close>

text \<open>\<open>_b64url\<close>: the big-endian bytes of a positive number in URL-safe base 64, unpadded.\<close>

function big_endian :: "nat \<Rightarrow> nat list" where
  "big_endian n = (if n = 0 then [] else big_endian (n div 256) @ [n mod 256])"
  by pat_completeness auto
termination by (relation "measure id") auto

declare big_endian.simps [simp del]

definition b64_char :: "nat \<Rightarrow> char" where
  "b64_char n = char_of
     (if n < 26 then 65 + n else if n < 52 then 71 + n else if n < 62 then n - 4 else if n = 62 then 45 else 95)"

fun b64_groups :: "nat list \<Rightarrow> string" where
  "b64_groups (a # b # c # rest) =
     map b64_char [a div 4, a mod 4 * 16 + b div 16, b mod 16 * 4 + c div 64, c mod 64] @ b64_groups rest"
| "b64_groups [a, b] = map b64_char [a div 4, a mod 4 * 16 + b div 16, b mod 16 * 4]"
| "b64_groups [a] = map b64_char [a div 4, a mod 4 * 16]"
| "b64_groups [] = []"

definition b64url :: "nat \<Rightarrow> string" where
  "b64url n = b64_groups (big_endian n)"

text \<open>The key id is the start of a hash of the two public numbers.\<close>

definition thumbprint :: "(string \<Rightarrow> string) \<Rightarrow> nat \<Rightarrow> nat \<Rightarrow> string" where
  "thumbprint sha256_hex n e = take 16 (sha256_hex (str_nat n @ '':'' @ str_nat e))"

definition jwk :: "(string \<Rightarrow> string) \<Rightarrow> nat \<Rightarrow> nat \<Rightarrow> (string \<times> string) list" where
  "jwk sha256_hex n e =
     [(''kty'', ''RSA''), (''use'', ''sig''), (''alg'', ''RS256''), (''kid'', thumbprint sha256_hex n e),
      (''n'', b64url n), (''e'', b64url e)]"

section \<open>Facts\<close>

text \<open>
  What is relied on of the library: a token it made for claims gives those claims back, to whoever
  compares them. Its own comparisons are those of \<open>verify_access\<close>.
\<close>

definition signs :: "signer \<Rightarrow> bool" where
  "signs g \<longleftrightarrow> (\<forall>c. sg_decode g (sg_encode g c) = Some c)"

lemma int_seconds_le: "0 \<le> t \<Longrightarrow> timedelta_s (int_seconds t) \<le> t"
  by (simp add: int_seconds_def timedelta_s_def)

lemma int_seconds_add: "0 \<le> t \<Longrightarrow> 0 \<le> n \<Longrightarrow> int_seconds (t + timedelta_s n) = int_seconds t + n"
  by (simp add: int_seconds_def timedelta_s_def)

lemma verify_issued:
  assumes "signs g"
  shows "verify_access g wall later (issue g now a aud ttl) aud' =
    (if aud' = aud \<and> timedelta_s (int_seconds now) \<le> wall \<and> later < timedelta_s (int_seconds (now + timedelta_s ttl))
     then Inr \<lparr>vt_account_id = a, vt_expires_at = timedelta_s (int_seconds (now + timedelta_s ttl))\<rparr>
     else Inl (AuthenticationError BAD_TOKEN))"
  using assms by (auto simp: signs_def verify_access_def issue_def claims_of_def)

lemma verify_access_Inr:
  "verify_access g wall now t aud = Inr v \<Longrightarrow>
     \<exists>c. sg_decode g t = Some c \<and> cl_aud c = aud \<and> cl_iss c = sg_issuer g \<and> timedelta_s (cl_iat c) \<le> wall
       \<and> now < timedelta_s (cl_exp c) \<and> v = \<lparr>vt_account_id = cl_sub c, vt_expires_at = timedelta_s (cl_exp c)\<rparr>"
  by (auto simp: verify_access_def not_less split: option.splits if_splits)

text \<open>The encoded number can be read back.\<close>

definition b64_digit :: "char \<Rightarrow> nat" where
  "b64_digit c = (let n = code_of c in
     if n = 45 then 62 else if n = 95 then 63 else if n < 58 then n + 4 else if n < 91 then n - 65 else n - 71)"

lemma b64_digit_char: "n < 64 \<Longrightarrow> b64_digit (b64_char n) = n"
  by (auto simp: b64_digit_def b64_char_def code_of_char_of Let_def)

fun unb64_groups :: "string \<Rightarrow> nat list" where
  "unb64_groups (p # q # r # s # rest) =
     (b64_digit p * 4 + b64_digit q div 16) # (b64_digit q mod 16 * 16 + b64_digit r div 4)
       # (b64_digit r mod 4 * 64 + b64_digit s) # unb64_groups rest"
| "unb64_groups [p, q, r] = [b64_digit p * 4 + b64_digit q div 16, b64_digit q mod 16 * 16 + b64_digit r div 4]"
| "unb64_groups [p, q] = [b64_digit p * 4 + b64_digit q div 16]"
| "unb64_groups xs = []"

lemma unb64_b64: "\<forall>b \<in> set bs. b < 256 \<Longrightarrow> unb64_groups (b64_groups bs) = bs"
proof (induction bs rule: b64_groups.induct)
  case (1 a b c rest)
  have "a div 4 < 64" "a mod 4 * 16 + b div 16 < 64" "b mod 16 * 4 + c div 64 < 64" "c mod 64 < 64"
    using 1(2) by auto
  moreover have "b div 16 < 16" "c div 64 < 4" using 1(2) by auto
  then have "b div 16 div 16 = 0" "b div 16 mod 16 = b div 16" "c div 64 div 4 = 0" "c div 64 mod 4 = c div 64"
    by simp_all
  ultimately show ?case using 1 by (simp add: b64_digit_char)
next
  case (2 a b)
  have "a div 4 < 64" "a mod 4 * 16 + b div 16 < 64" "b mod 16 * 4 < 64" using 2 by auto
  moreover have "b div 16 < 16" using 2 by auto
  then have "b div 16 div 16 = 0" "b div 16 mod 16 = b div 16" by simp_all
  ultimately show ?case using 2 by (simp add: b64_digit_char)
next
  case (3 a)
  have "a div 4 < 64" "a mod 4 * 16 < 64" using 3 by auto
  then show ?case using 3 by (simp add: b64_digit_char)
qed simp

definition from_big_endian :: "nat list \<Rightarrow> nat" where
  "from_big_endian bs = foldl (\<lambda>acc b. acc * 256 + b) 0 bs"

lemma from_big_endian: "from_big_endian (big_endian n) = n"
proof (induction n rule: big_endian.induct)
  case (1 n)
  then show ?case by (subst big_endian.simps) (simp add: from_big_endian_def)
qed

lemma big_endian_bytes: "b \<in> set (big_endian n) \<Longrightarrow> b < 256"
proof (induction n rule: big_endian.induct)
  case (1 n)
  then show ?case by (subst (asm) (2) big_endian.simps) (auto split: if_splits)
qed

lemma b64url_read: "from_big_endian (unb64_groups (b64url n)) = n"
  by (simp add: b64url_def unb64_b64 big_endian_bytes from_big_endian)

lemma b64url_length: "length (b64url n) mod 4 \<noteq> 1"
proof -
  have "length (b64_groups bs) mod 4 \<noteq> 1" for bs
    by (induction bs rule: b64_groups.induct) auto
  then show ?thesis by (simp add: b64url_def)
qed

end
