(* ===== verification/Delegation.thy ===== *)
theory Delegation
  imports DelegationStore VaultGuarantees ServiceTokens Signing
begin

text \<open>
  \<^verbatim>\<open>src/src/keyring_api/credentials/delegation.py\<close>: offline grants and the exchange of authority
  for a token of one audience, and the handlers of \<^verbatim>\<open>api/routers/delegation.py\<close> with the two
  dependencies of \<^verbatim>\<open>api/routers/internal.py\<close> that say which service calls and for whom. The account
  is always the subject of the user token or the holder of the grant, never a parameter.
\<close>

section \<open>The service\<close>

definition BAD_DELEGATION :: message where "BAD_DELEGATION = [''the delegation was not accepted'']"

record exchanged_token =
  xt_token :: string
  xt_expires_in :: int
  xt_expires_at :: int

definition audiences_of :: "settings \<Rightarrow> string \<Rightarrow> string list" where
  "audiences_of st service = (case map_of (st_exchange_audiences st) service of None \<Rightarrow> [] | Some names \<Rightarrow> names)"

definition delegation_allow :: "settings \<Rightarrow> string \<Rightarrow> string list \<Rightarrow> unit result" where
  "delegation_allow st service audiences =
     (if audiences = [] \<or> \<not> set audiences \<subseteq> set (audiences_of st service)
      then Inl (InsufficientPermissionError [''the service may not exchange for that audience''])
      else Inr ())"

definition delegation_profile :: "string \<Rightarrow> string \<Rightarrow> ('z, unit) sysop" where
  "delegation_profile account_id profile =
     andthen (reading (profile_get account_id profile)) (\<lambda>found.
     guard (found \<noteq> None) (ProfileNotFoundError [''no profile of that name'']))"

definition delegation_record :: "env \<Rightarrow> audit_action \<Rightarrow> string \<Rightarrow> string \<Rightarrow> string \<Rightarrow> ('z, unit) sysop" where
  "delegation_record w action actor_id target_id detail =
     andthen (transact (audit_record MAX_ENTRIES
       \<lparr>au_entry_id = ev_audit_id w, au_at = ev_now w, au_action = action, au_actor_id = actor_id,
        au_target_id = Some target_id, au_detail = detail\<rparr>)) (\<lambda>_. ret ())"

definition delegation_create ::
  "env \<Rightarrow> string \<Rightarrow> string \<Rightarrow> string \<Rightarrow> string list \<Rightarrow> int \<Rightarrow> string option \<Rightarrow> ('z, offline_grant) sysop" where
  "delegation_create w account_id profile service audiences ttl_seconds created_by =
     andthen (delegation_profile account_id profile) (\<lambda>_.
     andthen (of_result (delegation_allow (ev_settings w) service audiences)) (\<lambda>_.
     let now = ev_now w;
         grant = \<lparr>og_id = ''dgt_'' @ ev_token w, og_account_id = account_id, og_profile = profile,
                  og_service = service, og_audiences = sort (remdups audiences), og_created_at = now,
                  og_expires_at = now + timedelta_s (min ttl_seconds (st_offline_grant_max_ttl_seconds (ev_settings w))),
                  og_revoked_at = None\<rparr>
     in
     andthen (transact (delegation_add grant (st_max_offline_grants_per_profile (ev_settings w)) now)) (\<lambda>_.
     andthen (delegation_record w DELEGATION_CREATED account_id account_id
       (''offline grant '' @ og_id grant @ (case created_by of None \<Rightarrow> [] | Some s \<Rightarrow> '' created by '' @ s))) (\<lambda>_.
     ret grant))))"

definition delegation_list :: "string \<Rightarrow> string \<Rightarrow> ('z, offline_grant list) sysop" where
  "delegation_list account_id profile =
     andthen (delegation_profile account_id profile) (\<lambda>_.
     reading (delegation_list_for_profile account_id profile))"

definition NO_SUCH_GRANT :: message where "NO_SUCH_GRANT = [''no offline grant with that id'']"

definition delegation_revoke_grant :: "env \<Rightarrow> string \<Rightarrow> string \<Rightarrow> string \<Rightarrow> ('z, unit) sysop" where
  "delegation_revoke_grant w account_id profile grant_id =
     andthen (delegation_profile account_id profile) (\<lambda>_.
     andthen (transact (delegation_revoke account_id profile grant_id (ev_now w))) (\<lambda>revoked.
     andthen (guard revoked (ProfileNotFoundError NO_SUCH_GRANT)) (\<lambda>_.
     delegation_record w DELEGATION_REVOKED account_id account_id (''offline grant '' @ grant_id))))"

definition revoke_for_service :: "env \<Rightarrow> string \<Rightarrow> string \<Rightarrow> string \<Rightarrow> string \<Rightarrow> ('z, unit) sysop" where
  "revoke_for_service w account_id profile grant_id service =
     andthen (delegation_profile account_id profile) (\<lambda>_.
     andthen (reading (delegation_list_for_profile account_id profile)) (\<lambda>grants.
     let held = List.find (\<lambda>g. og_id g = grant_id \<and> og_service g = service) grants in
     andthen (if held = None then ret False
              else transact (delegation_revoke account_id profile grant_id (ev_now w))) (\<lambda>revoked.
     andthen (guard revoked (ProfileNotFoundError NO_SUCH_GRANT)) (\<lambda>_.
     delegation_record w DELEGATION_REVOKED account_id account_id
       (''offline grant '' @ grant_id @ '' revoked by '' @ service)))))"

text \<open>The account and the deadline of what is exchanged: a user token for this service, or a grant.\<close>

definition authority ::
  "env \<Rightarrow> signer \<Rightarrow> string \<Rightarrow> string \<Rightarrow> string option \<Rightarrow> string option \<Rightarrow> ('z, string \<times> int) sysop" where
  "authority w g service audience user_token grant_id =
     (case user_token of
        Some t \<Rightarrow>
          andthen (of_result (verify_access g (ev_wall_clock w) (ev_now w) t service)) (\<lambda>claims.
          ret (vt_account_id claims, vt_expires_at claims))
      | None \<Rightarrow>
          andthen (reading (delegation_for_exchange (case grant_id of None \<Rightarrow> ''None'' | Some i \<Rightarrow> i) service)) (\<lambda>found.
          case found of
            None \<Rightarrow> raise (AuthenticationError BAD_DELEGATION)
          | Some grant \<Rightarrow>
              if og_revoked_at grant \<noteq> None \<or> audience \<notin> set (og_audiences grant)
              then raise (AuthenticationError BAD_DELEGATION)
              else ret (og_account_id grant, og_expires_at grant)))"

definition exchange ::
  "env \<Rightarrow> signer \<Rightarrow> string \<Rightarrow> string \<Rightarrow> int \<Rightarrow> string option \<Rightarrow> string option \<Rightarrow> ('z, exchanged_token) sysop" where
  "exchange w g service audience ttl_seconds user_token grant_id =
     andthen (guard ((user_token = None) \<noteq> (grant_id = None)) (AuthenticationError BAD_DELEGATION)) (\<lambda>_.
     andthen (of_result (delegation_allow (ev_settings w) service [audience])) (\<lambda>_.
     andthen (authority w g service audience user_token grant_id) (\<lambda>(account_id, deadline).
     andthen (reading (account_get account_id)) (\<lambda>found.
     andthen (guard (case found of None \<Rightarrow> False | Some account \<Rightarrow> ac_status account = ACTIVE)
                (AuthenticationError BAD_DELEGATION)) (\<lambda>_.
     let now = ev_now w;
         ttl = min ttl_seconds (min (st_access_token_ttl_seconds (ev_settings w)) (int_seconds (deadline - now)))
     in
     andthen (guard (0 < ttl) (AuthenticationError BAD_DELEGATION)) (\<lambda>_.
     andthen (delegation_record w TOKEN_EXCHANGED (''service:'' @ service) account_id
       (''audience '' @ audience @ ''; grant ''
          @ (case grant_id of None \<Rightarrow> ''foreground'' | Some i \<Rightarrow> if i = [] then ''foreground'' else i))) (\<lambda>_.
     ret \<lparr>xt_token = issue g now account_id audience ttl, xt_expires_in = ttl,
          xt_expires_at = (now + timedelta_s ttl) div 1000000 * 1000000\<rparr>)))))))"

lemmas delegation_defs = delegation_profile_def delegation_create_def delegation_list_def
  delegation_revoke_grant_def revoke_for_service_def authority_def exchange_def

section \<open>Who calls, and for whom\<close>

definition BAD_USER_TOKEN :: message where "BAD_USER_TOKEN = [''the user token was not accepted'']"

definition calling_service :: "settings \<Rightarrow> string option \<Rightarrow> string result" where
  "calling_service st credentials =
     (case credentials of
        None \<Rightarrow> Inl (AuthenticationError BAD_SERVICE)
      | Some token \<Rightarrow>
          (case fst (identify (st_service_tokens st) (Some token)) of
             Inl e \<Rightarrow> Inl (AuthenticationError BAD_SERVICE)
           | Inr service \<Rightarrow> Inr service))"

definition acting_for :: "signer \<Rightarrow> int \<Rightarrow> int \<Rightarrow> string \<Rightarrow> string option \<Rightarrow> string result" where
  "acting_for g wall now service user_token =
     (case user_token of
        None \<Rightarrow> Inl (AuthenticationError BAD_USER_TOKEN)
      | Some t \<Rightarrow> verify g wall now t service)"

section \<open>Requests\<close>

text \<open>The pattern \<open>^[A-Za-z0-9][A-Za-z0-9._:-]*$\<close> and the bounds of the bodies.\<close>

definition is_alnum :: "char \<Rightarrow> bool" where
  "is_alnum c \<longleftrightarrow> is_upper c \<or> is_alnum_lower c"

definition valid_audience :: "string \<Rightarrow> bool" where
  "valid_audience a \<longleftrightarrow> 1 \<le> length a \<and> length a \<le> 128
     \<and> (case a of [] \<Rightarrow> False | c # cs \<Rightarrow> is_alnum c \<and> list_all (\<lambda>d. is_alnum d \<or> d \<in> set ''._:-'') cs)"

record exchange_request =
  xr_audience :: string
  xr_ttl_seconds :: int
  xr_grant_id :: "string option"

definition valid_exchange_request :: "exchange_request \<Rightarrow> bool" where
  "valid_exchange_request b \<longleftrightarrow> valid_audience (xr_audience b) \<and> 1 \<le> xr_ttl_seconds b \<and> xr_ttl_seconds b \<le> 86400
     \<and> (case xr_grant_id b of None \<Rightarrow> True | Some i \<Rightarrow> 1 \<le> length i \<and> length i \<le> 128)"

record delegated_grant_request =
  dg_audiences :: "string list"
  dg_ttl_seconds :: int

definition valid_delegated_grant_request :: "'x delegated_grant_request_scheme \<Rightarrow> bool" where
  "valid_delegated_grant_request b \<longleftrightarrow> 1 \<le> length (dg_audiences b) \<and> length (dg_audiences b) \<le> 100
     \<and> list_all valid_audience (dg_audiences b) \<and> 1 \<le> dg_ttl_seconds b \<and> dg_ttl_seconds b \<le> 31536000"

record grant_request = delegated_grant_request +
  gq_service :: string

definition valid_grant_request :: "grant_request \<Rightarrow> bool" where
  "valid_grant_request b \<longleftrightarrow> valid_audience (gq_service b) \<and> valid_delegated_grant_request b"

text \<open>A body is validated once the dependencies of its handler are resolved.\<close>

definition UNPROCESSABLE :: error where "UNPROCESSABLE = Unhandled [''422'']"

definition exchange_user_token ::
  "env \<Rightarrow> signer \<Rightarrow> string option \<Rightarrow> string option \<Rightarrow> exchange_request \<Rightarrow> ('z, exchanged_token) sysop" where
  "exchange_user_token w g credentials user_token body =
     andthen (of_result (calling_service (ev_settings w) credentials)) (\<lambda>service.
     andthen (guard (valid_exchange_request body) UNPROCESSABLE) (\<lambda>_.
     exchange w g service (xr_audience body) (xr_ttl_seconds body) user_token (xr_grant_id body)))"

definition create_offline_grant :: "env \<Rightarrow> string \<Rightarrow> string \<Rightarrow> grant_request \<Rightarrow> ('z, offline_grant) sysop" where
  "create_offline_grant w account_id name body =
     andthen (guard (valid_grant_request body) UNPROCESSABLE) (\<lambda>_.
     delegation_create w account_id name (gq_service body) (dg_audiences body) (dg_ttl_seconds body) None)"

text \<open>The calls a service makes for a person: both credentials first.\<close>

definition on_behalf ::
  "env \<Rightarrow> signer \<Rightarrow> string option \<Rightarrow> string option \<Rightarrow> (string \<Rightarrow> string \<Rightarrow> ('z, 'a) sysop) \<Rightarrow> ('z, 'a) sysop" where
  "on_behalf w g credentials user_token f =
     andthen (of_result (calling_service (ev_settings w) credentials)) (\<lambda>service.
     andthen (of_result (acting_for g (ev_wall_clock w) (ev_now w) service user_token)) (\<lambda>account_id.
     f service account_id))"

definition describe_delegated_profile :: "string \<Rightarrow> string \<Rightarrow> ('z, profile) vop" where
  "describe_delegated_profile name account_id =
     andthen (reading (account_get account_id)) (\<lambda>found.
     andthen (guard (case found of None \<Rightarrow> False | Some account \<Rightarrow> ac_status account = ACTIVE)
                (AuthenticationError BAD_USER_TOKEN)) (\<lambda>_.
     get_profile account_id name))"

definition authorize_delegated_connection ::
  "env \<Rightarrow> providers \<Rightarrow> string \<Rightarrow> string \<Rightarrow> string \<Rightarrow> string \<Rightarrow> ('z, authorization) vop" where
  "authorize_delegated_connection w ps redirect_uri name connection account_id =
     change_begin_authorization w ps account_id name connection redirect_uri by_service"

definition delete_delegated_connection :: "env \<Rightarrow> string \<Rightarrow> string \<Rightarrow> string \<Rightarrow> ('z, unit) vop" where
  "delete_delegated_connection w name connection account_id =
     andthen (change_remove_connection w account_id name connection by_service) (\<lambda>removed.
     guard removed (ConnectionNotFoundError NO_SUCH_CONNECTION))"

definition create_delegated_grant ::
  "env \<Rightarrow> string \<Rightarrow> delegated_grant_request \<Rightarrow> string \<Rightarrow> string \<Rightarrow> ('z, offline_grant) sysop" where
  "create_delegated_grant w name body service account_id =
     andthen (guard (valid_delegated_grant_request body) UNPROCESSABLE) (\<lambda>_.
     delegation_create w account_id name service (dg_audiences body) (dg_ttl_seconds body) (Some service))"

definition revoke_delegated_grant :: "env \<Rightarrow> string \<Rightarrow> string \<Rightarrow> string \<Rightarrow> string \<Rightarrow> ('z, unit) sysop" where
  "revoke_delegated_grant w name grant_id service account_id =
     revoke_for_service w account_id name grant_id service"

lemmas delegation_route_defs = exchange_user_token_def create_offline_grant_def on_behalf_def
  describe_delegated_profile_def authorize_delegated_connection_def delete_delegated_connection_def
  create_delegated_grant_def revoke_delegated_grant_def

text \<open>Credentials of a person's own session have been resolved to the account before.\<close>

datatype delegation_request =
    CreateGrant string string grant_request
  | ListGrants string string
  | RevokeGrant string string string
  | ExchangeToken "string option" "string option" exchange_request
  | DescribeDelegated "string option" "string option" string
  | AuthorizeDelegated "string option" "string option" string string string
  | DeleteDelegated "string option" "string option" string string
  | CreateDelegated "string option" "string option" string delegated_grant_request
  | RevokeDelegated "string option" "string option" string string

fun handle_delegation :: "'z world \<Rightarrow> signer \<Rightarrow> delegation_request \<Rightarrow> ('z, unit) vop" where
  "handle_delegation u g (CreateGrant a n b) = andthen (create_offline_grant (wo_env u) a n b) (\<lambda>_. ret ())"
| "handle_delegation u g (ListGrants a n) = andthen (delegation_list a n) (\<lambda>_. ret ())"
| "handle_delegation u g (RevokeGrant a n i) = delegation_revoke_grant (wo_env u) a n i"
| "handle_delegation u g (ExchangeToken c t b) = andthen (exchange_user_token (wo_env u) g c t b) (\<lambda>_. ret ())"
| "handle_delegation u g (DescribeDelegated c t n) =
     andthen (on_behalf (wo_env u) g c t (\<lambda>sv a. describe_delegated_profile n a)) (\<lambda>_. ret ())"
| "handle_delegation u g (AuthorizeDelegated c t n k uri) =
     andthen (on_behalf (wo_env u) g c t (\<lambda>sv a. authorize_delegated_connection (wo_env u) (wo_providers u) uri n k a)) (\<lambda>_. ret ())"
| "handle_delegation u g (DeleteDelegated c t n k) =
     on_behalf (wo_env u) g c t (\<lambda>sv a. delete_delegated_connection (wo_env u) n k a)"
| "handle_delegation u g (CreateDelegated c t n b) =
     andthen (on_behalf (wo_env u) g c t (\<lambda>sv a. create_delegated_grant (wo_env u) n b sv a)) (\<lambda>_. ret ())"
| "handle_delegation u g (RevokeDelegated c t n i) =
     on_behalf (wo_env u) g c t (\<lambda>sv a. revoke_delegated_grant (wo_env u) n i sv a)"

end
