(* ===== verification/DelegationFacts.thy ===== *)
theory DelegationFacts
  imports Delegation
begin

text \<open>
  What delegation guarantees: the outcome of an exchange on each branch, when one succeeds, who a
  service can act for, and the bound on outstanding grants.
\<close>

section \<open>Steps\<close>

lemma delegation_profile_Inr:
  "delegation_profile a n s = (Inr u, t) \<longleftrightarrow> t = s \<and> profile_get a n s \<noteq> None"
  by (auto simp: delegation_profile_def op_elims)

lemma delegation_profile_state: "snd (delegation_profile a n s) = s"
  by (simp add: delegation_profile_def txn_simps)

lemma delegation_allow_Inr:
  "delegation_allow st sv auds = Inr u \<longleftrightarrow> auds \<noteq> [] \<and> set auds \<subseteq> set (audiences_of st sv)"
  by (auto simp: delegation_allow_def)

lemma authority_state: "snd (authority w g sv aud tok i s) = s"
  by (auto simp: authority_def txn_simps split: option.splits sum.splits)

definition authorizes ::
  "env \<Rightarrow> signer \<Rightarrow> string \<Rightarrow> string \<Rightarrow> string option \<Rightarrow> string option \<Rightarrow> 'z db_scheme \<Rightarrow> string \<Rightarrow> int \<Rightarrow> bool" where
  "authorizes w g sv aud tok i d account_id deadline \<longleftrightarrow>
     (case tok of
        Some t \<Rightarrow> verify_access g (ev_wall_clock w) (ev_now w) t sv = Inr \<lparr>vt_account_id = account_id, vt_expires_at = deadline\<rparr>
      | None \<Rightarrow> (\<exists>j gr. i = Some j \<and> delegation_for_exchange j sv d = Some gr \<and> og_revoked_at gr = None
                \<and> aud \<in> set (og_audiences gr) \<and> og_account_id gr = account_id \<and> og_expires_at gr = deadline))"

lemma authority_Inr:
  assumes "(tok = None) \<noteq> (i = None)"
  shows "authority w g sv aud tok i s = (Inr (a, dl), t) \<longleftrightarrow> t = s \<and> authorizes w g sv aud tok i s a dl"
proof (cases tok)
  case (Some x)
  have eq: "v = \<lparr>vt_account_id = a, vt_expires_at = dl\<rparr> \<longleftrightarrow> vt_account_id v = a \<and> vt_expires_at v = dl" for v :: verified_token
    by (cases v) auto
  show ?thesis unfolding authority_def authorizes_def Some
    by (auto simp: op_elims eq)
next
  case None
  with assms obtain j where "i = Some j" by auto
  with None show ?thesis
    by (auto simp: authority_def authorizes_def op_elims split: option.splits if_splits)
qed

lemma delegation_record_Inr:
  "\<exists>t. delegation_record w k a b d s = (Inr (), t)"
  by (simp add: delegation_record_def txn_simps audit_record_def Let_def)

lemma delegation_record_frame:
  "delegation_record w k a b d s = (r, t) \<Longrightarrow> \<exists>rows n. t = s\<lparr>t_audit := rows, t_audit_sequence := n\<rparr> \<and> r = Inr ()"
  by (auto simp: delegation_record_def txn_simps audit_record_def Let_def)

section \<open>Exchanges\<close>

definition exchange_ttl :: "env \<Rightarrow> int \<Rightarrow> int \<Rightarrow> int" where
  "exchange_ttl w ttl deadline =
     min ttl (min (st_access_token_ttl_seconds (ev_settings w)) (int_seconds (deadline - ev_now w)))"

definition exchanged :: "env \<Rightarrow> signer \<Rightarrow> string \<Rightarrow> string \<Rightarrow> int \<Rightarrow> exchanged_token" where
  "exchanged w g account_id aud k =
     \<lparr>xt_token = issue g (ev_now w) account_id aud k, xt_expires_in = k,
      xt_expires_at = (ev_now w + timedelta_s k) div 1000000 * 1000000\<rparr>"

definition active_account :: "string \<Rightarrow> 'z db_scheme \<Rightarrow> bool" where
  "active_account a d \<longleftrightarrow> (\<exists>x. account_get a d = Some x \<and> ac_status x = ACTIVE)"

text \<open>Exactly when an exchange answers, and with what.\<close>

lemma exchange_iff:
  "(\<exists>t. exchange w g sv aud ttl tok i s = (Inr x, t)) \<longleftrightarrow>
     (tok = None) \<noteq> (i = None) \<and> aud \<in> set (audiences_of (ev_settings w) sv) \<and>
     (\<exists>a dl. authorizes w g sv aud tok i s a dl \<and> active_account a s \<and> 0 < exchange_ttl w ttl dl
        \<and> x = exchanged w g a aud (exchange_ttl w ttl dl))"
proof (cases "(tok = None) \<noteq> (i = None)")
  case False
  then show ?thesis by (simp add: exchange_def txn_simps)
next
  case True
  note one = this
  show ?thesis
  proof (cases "aud \<in> set (audiences_of (ev_settings w) sv)")
    case False
    then show ?thesis using one by (simp add: exchange_def txn_simps delegation_allow_def)
  next
    case True
    then have allow: "delegation_allow (ev_settings w) sv [aud] = Inr ()" by (simp add: delegation_allow_def)
    obtain r where r: "authority w g sv aud tok i s = (r, s)"
      using authority_state [of w g sv aud tok i s] by (cases "authority w g sv aud tok i s") auto
    have iff: "authorizes w g sv aud tok i s a dl \<longleftrightarrow> r = Inr (a, dl)" for a dl
      using authority_Inr [OF one, of w g sv aud s a dl s] r by auto
    show ?thesis
    proof (cases r)
      case (Inl e)
      then show ?thesis using one True by (simp add: exchange_def txn_simps allow r iff)
    next
      case (Inr p)
      obtain a dl where p: "p = (a, dl)" by fastforce
      have guard: "(case account_get a s of None \<Rightarrow> False | Some account \<Rightarrow> ac_status account = ACTIVE) \<longleftrightarrow> active_account a s"
        by (simp add: active_account_def split: option.split)
      have rest: "(\<exists>t. andthen (delegation_record w k b c d) (\<lambda>_. ret y) s = (Inr x, t)) \<longleftrightarrow> x = y" for k b c d y
        using delegation_record_Inr [of w k b c d s] by (auto simp: op_elims)
      have "(\<exists>t. exchange w g sv aud ttl tok i s = (Inr x, t)) \<longleftrightarrow>
          active_account a s \<and> 0 < exchange_ttl w ttl dl \<and> x = exchanged w g a aud (exchange_ttl w ttl dl)"
        unfolding exchange_def using one
        by (simp add: andthen_simp [of "guard _ _"] andthen_simp [of "of_result _"] andthen_simp [of "reading _"]
            andthen_simp [of "authority _ _ _ _ _ _"] guard_simp of_result_simp reading_simp allow r Inr p guard Let_def
            rest exchange_ttl_def [symmetric] exchanged_def [symmetric] raise_simp
            del: list.simps append.simps)
          (auto simp: exchange_ttl_def)
      then show ?thesis using one True by (simp add: iff Inr p)
    qed
  qed
qed

text \<open>An exchange writes one audit entry and nothing else.\<close>

lemma exchange_frame:
  assumes "exchange w g sv aud ttl tok i s = (r, t)"
  shows "\<exists>rows n. t = s\<lparr>t_audit := rows, t_audit_sequence := n\<rparr>"
proof -
  have self: "\<exists>rows n. s = s\<lparr>t_audit := rows, t_audit_sequence := n\<rparr>"
    by (intro exI [of _ "t_audit s"] exI [of _ "t_audit_sequence s"]) simp
  define P where "P t \<longleftrightarrow> (\<exists>rows n. t = s\<lparr>t_audit := rows, t_audit_sequence := n\<rparr>)" for t
  have "keeps P (delegation_record w k a b d)" for k a b d
  proof (rule keepsI)
    fix t assume "P t"
    then obtain rows n where t: "t = s\<lparr>t_audit := rows, t_audit_sequence := n\<rparr>" by (auto simp: P_def)
    obtain r u where "delegation_record w k a b d t = (r, u)" by fastforce
    with delegation_record_frame [of w k a b d t r u] t show "P (snd (delegation_record w k a b d t))"
      by (auto simp: P_def)
  qed
  then have "keeps P (exchange w g sv aud ttl tok i)"
    unfolding exchange_def authority_def Let_def by (intro keeps_intros)
  from keepsD [OF this _ assms] self show ?thesis by (simp add: P_def)
qed

lemma exchanged_expiry:
  assumes "0 \<le> ev_now w" and "0 < exchange_ttl w ttl dl" and x_def: "x = exchanged w g a aud (exchange_ttl w ttl dl)"
  shows "xt_expires_at x \<le> dl" "xt_expires_in x \<le> ttl"
    "xt_expires_in x \<le> st_access_token_ttl_seconds (ev_settings w)" "ev_now w + timedelta_s (xt_expires_in x) \<le> dl"
proof -
  let ?k = "exchange_ttl w ttl dl"
  have k: "?k \<le> ttl" "?k \<le> st_access_token_ttl_seconds (ev_settings w)" "?k \<le> int_seconds (dl - ev_now w)"
    by (simp_all add: exchange_ttl_def)
  then have pos: "0 < int_seconds (dl - ev_now w)" using assms(2) by simp
  then have "0 \<le> dl - ev_now w" by (auto simp: int_seconds_def split: if_splits)
  then have "timedelta_s (int_seconds (dl - ev_now w)) \<le> dl - ev_now w" by (rule int_seconds_le)
  moreover have "timedelta_s ?k \<le> timedelta_s (int_seconds (dl - ev_now w))" using k(3) by (simp add: timedelta_s_def)
  ultimately show within: "ev_now w + timedelta_s (xt_expires_in x) \<le> dl"
    by (simp add: x_def exchanged_def)
  have "xt_expires_at x \<le> ev_now w + timedelta_s ?k"
    using pos_mod_sign [of 1000000 "ev_now w + timedelta_s ?k"]
    by (simp add: x_def exchanged_def minus_mod_eq_div_mult [symmetric])
  with within show "xt_expires_at x \<le> dl" by (simp add: x_def exchanged_def)
  show "xt_expires_in x \<le> ttl" "xt_expires_in x \<le> st_access_token_ttl_seconds (ev_settings w)"
    using k by (simp_all add: x_def exchanged_def)
qed

text \<open>The token that comes back is good for exactly its audience, account and lifetime.\<close>

lemma exchanged_verifies:
  assumes "signs g" and "0 \<le> ev_now w" and "0 \<le> k"
  shows "verify_access g wall later (xt_token (exchanged w g a aud k)) aud' =
    (if aud' = aud \<and> timedelta_s (int_seconds (ev_now w)) \<le> wall \<and> later < xt_expires_at (exchanged w g a aud k)
     then Inr \<lparr>vt_account_id = a, vt_expires_at = xt_expires_at (exchanged w g a aud k)\<rparr>
     else Inl (AuthenticationError BAD_TOKEN))"
proof -
  have "timedelta_s (int_seconds (ev_now w + timedelta_s k)) = (ev_now w + timedelta_s k) div 1000000 * 1000000"
    using assms(2,3) by (simp add: int_seconds_def timedelta_s_def)
  then show ?thesis using verify_issued [OF assms(1), of wall later "ev_now w" a aud k aud'] by (simp add: exchanged_def)
qed

section \<open>Grants\<close>

lemma delegation_create_Inr:
  assumes "db_ok s" and "delegation_create w a n sv auds ttl by s = (Inr gr, t)"
  shows "db_ok t" and "set auds \<subseteq> set (audiences_of (ev_settings w) sv)" and "auds \<noteq> []"
    and "gr = \<lparr>og_id = ''dgt_'' @ ev_token w, og_account_id = a, og_profile = n, og_service = sv,
      og_audiences = sort (remdups auds), og_created_at = ev_now w,
      og_expires_at = ev_now w + timedelta_s (min ttl (st_offline_grant_max_ttl_seconds (ev_settings w))), og_revoked_at = None\<rparr>"
    and "offline_grant_of i t = (if i = og_id gr then Some gr else offline_grant_of i s)"
    and "unrevoked_grants a n (ev_now w) s < st_max_offline_grants_per_profile (ev_settings w)"
    and "\<exists>rows k. t = s\<lparr>t_offline_grants := t_offline_grants s @ [gr], t_audit := rows, t_audit_sequence := k\<rparr>"
proof -
  let ?g = "\<lparr>og_id = ''dgt_'' @ ev_token w, og_account_id = a, og_profile = n, og_service = sv,
      og_audiences = sort (remdups auds), og_created_at = ev_now w,
      og_expires_at = ev_now w + timedelta_s (min ttl (st_offline_grant_max_ttl_seconds (ev_settings w))), og_revoked_at = None\<rparr>"
  from assms(2) obtain u s1 d where allow: "delegation_allow (ev_settings w) sv auds = Inr u" and gr: "gr = ?g"
    and add: "delegation_add ?g (st_max_offline_grants_per_profile (ev_settings w)) (ev_now w) s = Inr ((), s1)"
    and rec: "delegation_record w DELEGATION_CREATED a a d s1 = (Inr (), t)"
    by (auto simp: delegation_create_def Let_def op_elims delegation_profile_Inr)
  show "gr = ?g" by (rule gr)
  show "set auds \<subseteq> set (audiences_of (ev_settings w) sv)" "auds \<noteq> []" using allow by (simp_all add: delegation_allow_Inr)
  note ad = delegation_add_Inr [OF assms(1) add]
  obtain rows k where t: "t = s1\<lparr>t_audit := rows, t_audit_sequence := k\<rparr>"
    using delegation_record_frame [OF rec] by blast
  show "db_ok t" using ad(1) by (simp add: t audit_frame_ok)
  show "offline_grant_of i t = (if i = og_id gr then Some gr else offline_grant_of i s)"
    using ad(3) [of i] by (simp add: t gr offline_grant_of_def)
  show "unrevoked_grants a n (ev_now w) s < st_max_offline_grants_per_profile (ev_settings w)" using ad(6) by simp
  show "\<exists>rows k. t = s\<lparr>t_offline_grants := t_offline_grants s @ [gr], t_audit := rows, t_audit_sequence := k\<rparr>"
    using ad(2) by (auto simp: t gr)
qed

text \<open>When consent can be recorded, it is.\<close>

lemma delegation_create_succeeds:
  assumes "db_ok s" and "(a, n) \<in> profile_keys s" and "auds \<noteq> []" "set auds \<subseteq> set (audiences_of (ev_settings w) sv)"
    and "offline_grant_of (''dgt_'' @ ev_token w) s = None"
    and "unrevoked_grants a n (ev_now w) s < st_max_offline_grants_per_profile (ev_settings w)"
  shows "\<exists>gr t. delegation_create w a n sv auds ttl by s = (Inr gr, t)"
proof -
  have here: "list_ex (\<lambda>r. pr_account_id r = a \<and> pr_name r = n) (t_profiles s)"
    using assms(2) by (auto simp: profile_keys_def profile_key_def list_ex_iff)
  then have "profile_get a n s \<noteq> None"
    using here by (auto simp: profile_get_fetch table_simps list_ex_iff profile_key_def split: option.split)
  moreover have "list_ex (\<lambda>r. profile_key r = (a, n)) (t_profiles s)"
    using here unfolding list_ex_iff profile_key_def by blast
  moreover have "\<not> list_ex (\<lambda>r. og_id r = ''dgt_'' @ ev_token w) (t_offline_grants s)"
    using assms(5) by (auto simp: offline_grant_of_def table_simps list_ex_iff)
  moreover have "delegation_allow (ev_settings w) sv auds = Inr ()"
    using assms(3,4) by (simp add: delegation_allow_def)
  ultimately show ?thesis
    using here assms(6)
    by (auto simp: delegation_create_def delegation_profile_def txn_simps Let_def delegation_add_def
        insert_offline_grant_def unrevoked_grants_def delegation_record_def audit_record_def)
qed

lemma delegation_revoke_grant_Inr:
  assumes "db_ok s" and "delegation_revoke_grant w a n i s = (Inr u, t)"
  shows "db_ok t" and "\<exists>g. offline_grant_of i s = Some g \<and> og_account_id g = a \<and> og_profile g = n"
    and "dl.spent i t"
proof -
  from assms(2) obtain s1 d where rv: "delegation_revoke a n i (ev_now w) s = Inr (True, s1)"
    and rec: "delegation_record w DELEGATION_REVOKED a a d s1 = (Inr (), t)"
    by (auto simp: delegation_revoke_grant_def op_elims delegation_profile_Inr)
  obtain rows k where t: "t = s1\<lparr>t_audit := rows, t_audit_sequence := k\<rparr>"
    using delegation_record_frame [OF rec] by blast
  note r = delegation_revoke_Inr [OF assms(1) rv]
  show "db_ok t" using r(1) by (simp add: t audit_frame_ok)
  show "\<exists>g. offline_grant_of i s = Some g \<and> og_account_id g = a \<and> og_profile g = n" using r(2) by simp
  have "dl.spent i s1" by (rule dl.revoke_spends [OF assms(1) rv])
  then show "dl.spent i t" by (simp add: t dl.spent_def offline_grant_of_def)
qed

end
