(* ===== verification/AccountRoutes.thy ===== *)
theory AccountRoutes
  imports Requests Signing
begin

text \<open>
  The handlers of \<^verbatim>\<open>src/src/keyring_api/api/routers/auth.py\<close> with the bounds of their bodies
  (\<^verbatim>\<open>api/schemas/auth.py\<close>): from the headers of a request to its answer.
\<close>

section \<open>Bodies\<close>

text \<open>\<open>caller_of\<close>: the address of the connection, which rate limits count against.\<close>

definition UNKNOWN_CALLER :: string where "UNKNOWN_CALLER = ''unknown''"

definition caller_of :: "string option \<Rightarrow> string" where
  "caller_of host = (case host of None \<Rightarrow> UNKNOWN_CALLER | Some h \<Rightarrow> h)"

definition valid_login_request :: "string \<Rightarrow> string \<Rightarrow> bool" where
  "valid_login_request email password \<longleftrightarrow>
     length email \<le> 254 \<and> 1 \<le> length password \<and> length password \<le> MAX_PASSWORD_LENGTH"

definition valid_password_field :: "string \<Rightarrow> bool" where
  "valid_password_field p \<longleftrightarrow> MIN_PASSWORD_LENGTH \<le> length p \<and> length p \<le> MAX_PASSWORD_LENGTH"

definition valid_change_password :: "string \<Rightarrow> string \<Rightarrow> bool" where
  "valid_change_password current new \<longleftrightarrow>
     1 \<le> length current \<and> length current \<le> MAX_PASSWORD_LENGTH \<and> valid_password_field new"

definition valid_redemption :: "string \<Rightarrow> string \<Rightarrow> bool" where
  "valid_redemption token password \<longleftrightarrow> length token \<le> 512 \<and> valid_password_field password"

definition INVALID_BODY :: error where "INVALID_BODY = Unhandled [''422'']"

section \<open>Answers\<close>

record session_response =
  sp_session_id :: string
  sp_token :: string
  sp_expires_at :: int

record account_response =
  ap_account_id :: string
  ap_email :: string
  ap_created_at :: int

record service_token_response =
  sv_token :: string
  sv_expires_in :: int

definition account_response_of :: "account \<Rightarrow> account_response" where
  "account_response_of a = \<lparr>ap_account_id = ac_id a, ap_email = ac_email a, ap_created_at = ac_created_at a\<rparr>"

definition RESET_ACKNOWLEDGEMENT :: string where
  "RESET_ACKNOWLEDGEMENT = ''if that address has an account, a reset link has been sent''"

section \<open>Handlers\<close>

definition current_account :: "env \<Rightarrow> string option \<Rightarrow> ('z, account) sysop" where
  "current_account w credentials =
     andthen (get_current_session w credentials) (\<lambda>session. get_current_account session)"

definition login_route :: "env \<Rightarrow> string \<Rightarrow> string \<Rightarrow> string option \<Rightarrow> ('z, session_response) sysop" where
  "login_route w email password host =
     andthen (guard (valid_login_request email password) INVALID_BODY) (\<lambda>_.
     andthen (login w email password (caller_of host)) (\<lambda>result.
     ret \<lparr>sp_session_id = lr_session_id result, sp_token = lr_token result, sp_expires_at = lr_expires_at result\<rparr>))"

definition logout_route :: "env \<Rightarrow> string option \<Rightarrow> ('z, unit) sysop" where
  "logout_route w credentials =
     andthen (get_current_session w credentials) (\<lambda>session.
     andthen (logout (se_id session)) (\<lambda>_. ret ()))"

definition logout_everywhere_route :: "env \<Rightarrow> string option \<Rightarrow> ('z, nat) sysop" where
  "logout_everywhere_route w credentials =
     andthen (current_account w credentials) (\<lambda>account. logout_everywhere (ac_id account))"

definition me_route :: "env \<Rightarrow> string option \<Rightarrow> ('z, account_response) sysop" where
  "me_route w credentials = andthen (current_account w credentials) (\<lambda>account. ret (account_response_of account))"

definition redeem_invite_route :: "env \<Rightarrow> string \<Rightarrow> string \<Rightarrow> string option \<Rightarrow> ('z, account_response) sysop" where
  "redeem_invite_route w token password host =
     andthen (guard (valid_redemption token password) INVALID_BODY) (\<lambda>_.
     andthen (redeem_invite w token password (caller_of host)) (\<lambda>account.
     ret (account_response_of account)))"

definition change_password_route :: "env \<Rightarrow> string option \<Rightarrow> string \<Rightarrow> string \<Rightarrow> ('z, unit) sysop" where
  "change_password_route w credentials current new =
     andthen (get_current_session w credentials) (\<lambda>session.
     andthen (guard (valid_change_password current new) INVALID_BODY) (\<lambda>_.
     change_password w (se_account_id session) current new (Some (se_id session))))"

definition request_reset_route :: "env \<Rightarrow> string \<Rightarrow> string option \<Rightarrow> ('z, string) sysop" where
  "request_reset_route w email host =
     andthen (guard (length email \<le> 254) INVALID_BODY) (\<lambda>_.
     andthen (request_password_reset w email (caller_of host)) (\<lambda>_.
     ret RESET_ACKNOWLEDGEMENT))"

definition redeem_reset_route :: "env \<Rightarrow> string \<Rightarrow> string \<Rightarrow> string option \<Rightarrow> ('z, unit) sysop" where
  "redeem_reset_route w token password host =
     andthen (guard (valid_redemption token password) INVALID_BODY) (\<lambda>_.
     andthen (redeem_password_reset w token password (caller_of host)) (\<lambda>_. ret ()))"

definition issue_service_token :: "env \<Rightarrow> signer \<Rightarrow> string option \<Rightarrow> string \<Rightarrow> ('z, service_token_response) sysop" where
  "issue_service_token w g credentials audience =
     andthen (current_account w credentials) (\<lambda>account.
     andthen (guard (1 \<le> length audience \<and> length audience \<le> 128) INVALID_BODY) (\<lambda>_.
     let ttl = st_access_token_ttl_seconds (ev_settings w) in
     ret \<lparr>sv_token = issue g (ev_now w) (ac_id account) audience ttl, sv_expires_in = ttl\<rparr>))"

lemmas account_route_defs = current_account_def login_route_def logout_route_def logout_everywhere_route_def
  me_route_def redeem_invite_route_def change_password_route_def request_reset_route_def redeem_reset_route_def
  issue_service_token_def get_current_session_def get_current_account_def

datatype account_request =
    LogIn string string "string option"
  | LogOut "string option"
  | LogOutEverywhere "string option"
  | DescribeMe "string option"
  | RedeemInvite string string "string option"
  | ChangePassword "string option" string string
  | RequestReset string "string option"
  | RedeemReset string string "string option"
  | IssueServiceToken "string option" string
  | Sweep

fun handle_account :: "env \<Rightarrow> signer \<Rightarrow> account_request \<Rightarrow> ('z, unit) sysop" where
  "handle_account w g (LogIn e p h) = andthen (login_route w e p h) (\<lambda>_. ret ())"
| "handle_account w g (LogOut c) = logout_route w c"
| "handle_account w g (LogOutEverywhere c) = andthen (logout_everywhere_route w c) (\<lambda>_. ret ())"
| "handle_account w g (DescribeMe c) = andthen (me_route w c) (\<lambda>_. ret ())"
| "handle_account w g (RedeemInvite t p h) = andthen (redeem_invite_route w t p h) (\<lambda>_. ret ())"
| "handle_account w g (ChangePassword c p n) = change_password_route w c p n"
| "handle_account w g (RequestReset e h) = andthen (request_reset_route w e h) (\<lambda>_. ret ())"
| "handle_account w g (RedeemReset t p h) = redeem_reset_route w t p h"
| "handle_account w g (IssueServiceToken c a) = andthen (issue_service_token w g c a) (\<lambda>_. ret ())"
| "handle_account w g Sweep = andthen (sweep_once w) (\<lambda>_. ret ())"

section \<open>Facts\<close>

lemma keeps_db_account_request: "keeps db_ok (handle_account w g q)"
  by (cases q) (simp_all only: handle_account.simps account_route_defs Let_def, (intro keeps_intros)+)

text \<open>Whether an address has an account cannot be read off the answer to a reset request.\<close>

lemma reset_request_answer:
  "request_reset_route w email host s = (Inr x, t) \<Longrightarrow> x = RESET_ACKNOWLEDGEMENT"
  by (auto simp: request_reset_route_def op_elims)

text \<open>A service token names the account of the session, and nothing a caller can choose.\<close>

lemma issue_service_token_Inr:
  assumes "issue_service_token w g c aud s = (Inr x, t)"
  shows "\<exists>token session u account. c = Some token \<and> resolve_session w token s = (Inr session, u)
    \<and> account_get (se_account_id session) u = Some account \<and> t = u
    \<and> x = \<lparr>sv_token = issue g (ev_now w) (ac_id account) aud (st_access_token_ttl_seconds (ev_settings w)),
            sv_expires_in = st_access_token_ttl_seconds (ev_settings w)\<rparr>"
  using assms
  by (auto simp: issue_service_token_def current_account_def get_current_session_def get_current_account_def op_elims Let_def
      split: option.splits)

end
