(* ===== verification/Application.thy ===== *)
theory Application
  imports DelegationFacts AccountRoutes AdminRoutes
begin

text \<open>
  The whole service: every request of every router as one step, sequences of requests by anybody,
  and what holds after all of them. A guarantee about the vault is stated once as an interface:
  what leaves the vault alone keeps it, and so do the requests that write there.
\<close>

section \<open>Requests\<close>

datatype app_request =
    AccountRequest account_request
  | AdminRequest "string option" admin_route
  | VaultRequest vault_request
  | DelegationRequest delegation_request

fun handle_app :: "'z world \<Rightarrow> signer \<Rightarrow> app_request \<Rightarrow> ('z, unit) vop" where
  "handle_app u g (AccountRequest q) = handle_account (wo_env u) g q"
| "handle_app u g (AdminRequest c q) = admin_route_step (wo_env u) c q"
| "handle_app u g (VaultRequest q) = handle_vault u q"
| "handle_app u g (DelegationRequest q) = handle_delegation u g q"

fun app_run :: "('z world \<times> signer \<times> app_request) list \<Rightarrow> 'z vsys_scheme \<Rightarrow> 'z vsys_scheme" where
  "app_run [] s = s"
| "app_run ((u, g, q) # qs) s = app_run qs (snd (handle_app u g q s))"

lemma app_run_keeps:
  assumes "\<And>u g q. (u, g, q) \<in> set qs \<Longrightarrow> keeps P (handle_app u g q)" and "P s"
  shows "P (app_run qs s)"
  using assms
proof (induction qs arbitrary: s)
  case (Cons e qs)
  obtain u g q where e: "e = (u, g, q)" by (cases e)
  have "P (snd (handle_app u g q s))" using Cons.prems e by (auto simp: keeps_def)
  then have "P (app_run qs (snd (handle_app u g q s)))" using Cons.prems(1) by (intro Cons.IH) auto
  then show ?case by (simp add: e)
qed simp

section \<open>What leaves the vault alone\<close>

definition frozen :: "profile_row list \<times> connection_row list \<times> secret_row list \<times> offline_grant list \<Rightarrow> 'z db_scheme \<Rightarrow> bool" where
  "frozen V s \<longleftrightarrow> vault_tables s = V"

lemma frozen_rest [simp]:
  "frozen V (s\<lparr>m_attempts := m\<rparr>) = frozen V s" "frozen V (s\<lparr>m_outbox := q\<rparr>) = frozen V s"
  "frozen V (s\<lparr>m_verifications := n\<rparr>) = frozen V s"
  by (simp_all add: frozen_def)

lemma write_roles_vault: "write_roles i rs d = Inr d' \<Longrightarrow> vault_tables d' = vault_tables d"
  by (drule write_roles_Inr(1)) (simp add: vault_tables_def)

lemma txn_vault:
  "account_add a d = Inr (u, d') \<Longrightarrow> vault_tables d' = vault_tables d"
  "account_save a d = Inr (u, d') \<Longrightarrow> vault_tables d' = vault_tables d"
  "account_set_roles i rs now d = Inr (c, d') \<Longrightarrow> vault_tables d' = vault_tables d"
  "session_add_within_cap x cap d = Inr (k, d') \<Longrightarrow> vault_tables d' = vault_tables d"
  "session_save x d = Inr (u, d') \<Longrightarrow> vault_tables d' = vault_tables d"
  "session_revoke i d = Inr (b, d') \<Longrightarrow> vault_tables d' = vault_tables d"
  "session_revoke_all i e d = Inr (k, d') \<Longrightarrow> vault_tables d' = vault_tables d"
  "session_purge_expired now d = Inr (k, d') \<Longrightarrow> vault_tables d' = vault_tables d"
  "grant_add g d = Inr (u, d') \<Longrightarrow> vault_tables d' = vault_tables d"
  "grant_redeem h now d = Inr (og, d') \<Longrightarrow> vault_tables d' = vault_tables d"
  "grant_revoke_all_for_account i p d = Inr (k, d') \<Longrightarrow> vault_tables d' = vault_tables d"
  "grant_purge_expired now d = Inr (k, d') \<Longrightarrow> vault_tables d' = vault_tables d"
  "role_add r d = Inr (u, d') \<Longrightarrow> vault_tables d' = vault_tables d"
  "role_save r d = Inr (u, d') \<Longrightarrow> vault_tables d' = vault_tables d"
  "role_delete n k d = Inr (u, d') \<Longrightarrow> vault_tables d' = vault_tables d"
  "audit_record k en d = Inr (en', d') \<Longrightarrow> vault_tables d' = vault_tables d"
  by (auto simp: account_add_def account_save_def account_set_roles_def
      session_add_within_cap_def session_save_def session_revoke_def session_revoke_all_def
      session_purge_expired_def grant_add_def grant_redeem_def grant_revoke_all_for_account_def
      grant_purge_expired_def role_add_def role_save_def role_delete_def delete_role_row_def
      audit_record_def insert_defs Let_def vault_tables_def
      split: if_splits sum.splits option.splits dest!: write_roles_vault)

lemma keeps_frozen_txns [keeps_intros]:
  "keeps (frozen V) (transact (account_add a))" "keeps (frozen V) (transact (account_save a))"
  "keeps (frozen V) (transact (account_set_roles i rs now))"
  "keeps (frozen V) (transact (session_add_within_cap x cap))" "keeps (frozen V) (transact (session_save x))"
  "keeps (frozen V) (transact (session_revoke i))" "keeps (frozen V) (transact (session_revoke_all i e))"
  "keeps (frozen V) (transact (session_purge_expired now))"
  "keeps (frozen V) (transact (grant_add g))" "keeps (frozen V) (transact (grant_redeem h now))"
  "keeps (frozen V) (transact (grant_revoke_all_for_account i p))"
  "keeps (frozen V) (transact (grant_purge_expired now))"
  "keeps (frozen V) (transact (role_add r))" "keeps (frozen V) (transact (role_save r))"
  "keeps (frozen V) (transact (role_delete n k))" "keeps (frozen V) (transact (audit_record k' entry))"
  unfolding frozen_def
  by (rule keeps_transact, drule txn_vault, simp)+

lemma keeps_frozen_service [keeps_intros]:
  "keeps (frozen V) (issue_invite w e)" "keeps (frozen V) (redeem_invite w tok pw c)" "keeps (frozen V) (login w e pw c)"
  "keeps (frozen V) (resolve_session w tok)" "keeps (frozen V) (logout i)" "keeps (frozen V) (logout_everywhere i)"
  "keeps (frozen V) (set_status w i st)" "keeps (frozen V) (change_password w i pw new k)"
  "keeps (frozen V) (request_password_reset w e c)" "keeps (frozen V) (issue_reset_for w a)"
  "keeps (frozen V) (redeem_password_reset w tok pw c)" "keeps (frozen V) (sweep_once w)"
  unfolding account_service_defs Let_def by (intro keeps_intros frozen_rest)+

lemma keeps_frozen_account_request: "keeps (frozen V) (handle_account w g q)"
  by (cases q) (simp_all only: handle_account.simps account_route_defs Let_def, (intro keeps_intros)+)

lemma keeps_frozen_record [keeps_intros]:
  "keeps (frozen V) (record_action w actor k t d)" "keeps (frozen V) (delegation_record w k a b d)"
  unfolding record_action_def delegation_record_def by (intro keeps_intros)+

lemma keeps_frozen_actor [keeps_intros]: "keeps (frozen V) (get_actor w c)"
  unfolding get_actor_def actor_for_def by (intro keeps_intros)

lemma keeps_frozen_admin [keeps_intros]:
  "keeps (frozen V) (admin_list_accounts actor)" "keeps (frozen V) (admin_get_account actor i)"
  "keeps (frozen V) (admin_read_audit actor l)" "keeps (frozen V) (admin_list_roles actor)"
  "keeps (frozen V) (admin_invite w actor e)" "keeps (frozen V) (admin_set_status w actor i st)"
  "keeps (frozen V) (admin_revoke_sessions w actor i)" "keeps (frozen V) (admin_issue_password_reset w actor i)"
  "keeps (frozen V) (create_role w actor n ps ds)"
  "keeps (frozen V) (update_role w actor n ps ds)" "keeps (frozen V) (delete_role w actor n)"
  "keeps (frozen V) (set_account_roles w actor i rs)"
  unfolding admin_defs Let_def by (intro keeps_intros)+

lemma keeps_db_admin_actor: "keeps db_ok (get_actor w c)"
  by (rule keeps_get_actor(1))

section \<open>A guarantee about the vault\<close>

locale vault_guarantee =
  fixes P :: "'z vsys_scheme \<Rightarrow> bool"
    and admissible :: "'z world \<Rightarrow> bool"
  assumes well_formed: "P s \<Longrightarrow> db_ok s"
    and frame: "P s \<Longrightarrow> vault_tables t = vault_tables s \<Longrightarrow> db_ok t \<Longrightarrow> P t"
    and account_deleted: "P s \<Longrightarrow> account_delete i s = Inr (b, t) \<Longrightarrow> P t"
    and profile_removed: "keeps P (remove_profile w a n r)"
    and vault_kept: "admissible u \<Longrightarrow> keeps P (handle_vault u q)"
    and delegation_kept: "admissible u \<Longrightarrow> keeps P (handle_delegation u g d)"
begin

lemma keeps_frame:
  fixes m :: "('e, 'z vsys_scheme, 'a) op"
  assumes "\<And>V. keeps (frozen V) m" and "keeps db_ok m"
  shows "keeps P m"
proof (rule keepsI)
  fix s :: "'z vsys_scheme" assume s: "P s"
  have "vault_tables (snd (m s)) = vault_tables s"
    using assms(1) [of "vault_tables s"] by (simp add: keeps_def frozen_def)
  moreover have "db_ok (snd (m s))" using assms(2) well_formed [OF s] by (simp add: keeps_def)
  ultimately show "P (snd (m s))" by (rule frame [OF s])
qed

lemma keeps_record: "keeps P (record_action w actor k t d)"
  by (rule keeps_frame) (intro keeps_intros)+

lemma keeps_delete_account: "keeps P (admin_delete_account w actor i)"
proof -
  have del: "keeps P (transact (account_delete j))" for j
    by (rule keeps_transact) (rule account_deleted)
  show ?thesis
    unfolding admin_delete_account_def delete_account_def by (intro keeps_intros del keeps_record)
qed

lemma keeps_admin_route: "keeps P (handle_admin_route w actor q)"
proof (cases q)
  case (DeleteAccountR i)
  show ?thesis unfolding DeleteAccountR handle_admin_route.simps delete_account_route_def
    by (intro keeps_intros keeps_delete_account)
next
  case (DeleteAccountProfile i n)
  show ?thesis
    unfolding DeleteAccountProfile handle_admin_route.simps delete_account_profile_route_def admin_delete_profile_def Let_def
    by (intro keeps_intros keeps_record profile_removed)
qed (simp_all only: handle_admin_route.simps admin_route_defs,
    (rule keeps_frame; intro keeps_intros keeps_db_admin)+)

lemma keeps_app:
  assumes "admissible u"
  shows "keeps P (handle_app u g q)"
proof (cases q)
  case (AccountRequest x)
  show ?thesis unfolding AccountRequest handle_app.simps
    by (rule keeps_frame, rule keeps_frozen_account_request, rule keeps_db_account_request)
next
  case (AdminRequest c x)
  have "keeps P (get_actor (wo_env u) c)"
    by (rule keeps_frame, rule keeps_frozen_actor, rule keeps_get_actor(1))
  then show ?thesis unfolding AdminRequest handle_app.simps admin_route_step_def
    by (intro keeps_andthen keeps_admin_route)
qed (simp_all add: vault_kept delegation_kept assms)

lemma keeps_run:
  assumes "P s" and "\<forall>(u, g, q) \<in> set qs. admissible u"
  shows "P (app_run qs s)"
  by (rule app_run_keeps [where P = P, OF _ assms(1)]) (use assms(2) in \<open>auto intro: keeps_app\<close>)

end

section \<open>Every secret belongs to a connection\<close>

definition quiet :: "('z vsys_scheme \<Rightarrow> bool) \<Rightarrow> 'z world \<Rightarrow> bool" where
  "quiet P u \<longleftrightarrow> (\<forall>p t. keeps P (te_refresh (wo_endpoint u) p t))
     \<and> (\<forall>p c r. keeps P (te_exchange_code (wo_endpoint u) p c r))"

lemma covered_secrets_delete:
  assumes "covered s" and "account_delete i s = Inr (b, t)"
  shows "covered t"
proof (rule coveredI)
  show ok: "db_ok t" by (rule account_delete_Inr(1) [OF covered_ok [OF assms(1)] assms(2)])
  fix a n sv assume e: "envelope_get a n sv t \<noteq> None"
  have t: "t = s \<or> t = delete_account_row i s"
    using assms(2) by (auto simp: account_delete_def split: if_splits sum.splits)
  show "conn_get a n sv t \<noteq> None"
  proof (cases "t = s")
    case True with e assms(1) show ?thesis by (auto simp: covered_def)
  next
    case False
    with t have t: "t = delete_account_row i s" by simp
    obtain r where r: "r \<in> set (t_secrets t)" "secret_key r = (a, n, sv)"
      using e by (auto simp: envelope_get_def dest!: fetch_one_SomeD split: option.splits)
    then have "r \<in> set (t_secrets s)" "sr_account_id r \<noteq> i"
      by (auto simp: t delete_account_row_def table_simps)
    moreover from this r(2) have a: "a \<noteq> i" by (auto simp: secret_key_def)
    ultimately have "envelope_get a n sv s \<noteq> None"
      using r(2) by (auto simp: envelope_get_def table_simps)
    then have "conn_get a n sv s \<noteq> None" using assms(1) by (auto simp: covered_def)
    then obtain c where "conn_get a n sv s = Some c" by blast
    then obtain k where k: "k \<in> set (t_connections s)" "connection_key k = (a, n, sv)"
      by (auto simp: conn_get_def dest!: fetch_one_SomeD)
    have "k \<in> set (t_connections t)"
      using k a by (auto simp: t delete_account_row_def delete_profiles_def Let_def table_simps connection_key_def profile_key_def)
    then show ?thesis using k(2) by (auto simp: conn_get_def table_simps)
  qed
qed

lemma keeps_covered_delegation:
  assumes "quiet covered u"
  shows "keeps covered (handle_delegation u g q)"
proof -
  have add: "keeps covered (transact (delegation_add x cap now))" for x cap now
  proof (rule keeps_transact)
    fix s y t assume s: "covered s" and t: "delegation_add x cap now s = Inr (y, t)"
    note ad = delegation_add_Inr(1,2) [OF covered_ok [OF s] t]
    show "covered t"
      by (rule coveredI [OF ad(1)])
        (use s in \<open>simp add: ad(2) covered_def conn_get_def envelope_get_def\<close>)
  qed
  have rev: "keeps covered (transact (delegation_revoke a n i now))" for a n i now
  proof (rule keeps_transact)
    fix s y t assume s: "covered s" and t: "delegation_revoke a n i now s = Inr (y, t)"
    have ok: "db_ok t" by (rule delegation_revoke_Inr(1) [OF covered_ok [OF s] t])
    then show "covered t"
      by (rule coveredI) (use s t in \<open>auto simp: delegation_revoke_def Let_def covered_def conn_get_def envelope_get_def\<close>)
  qed
  have rec: "keeps covered (delegation_record w k a b d)" for w k a b d
    by (rule keeps_covered_frame, rule keeps_frozen_record(2) [unfolded frozen_def [abs_def]],
      unfold delegation_record_def, intro keeps_intros)
  show ?thesis
    by (cases q) (simp_all only: handle_delegation.simps delegation_route_defs delegation_defs Let_def,
      (intro keeps_intros add rev rec keeps_covered_changes keeps_covered_credentials)+)
qed

interpretation cov: vault_guarantee covered "quiet covered"
proof (unfold_locales, goal_cases)
  case (1 s) then show ?case by (rule covered_ok)
next
  case (2 s t) then show ?case by (intro vault_tables_covered [of t s])
next
  case (3 s i b t) then show ?case by (rule covered_secrets_delete)
next
  case (4 w a n r) show ?case by (rule keeps_covered_changes(4))
next
  case (5 u q) then show ?case by (intro keeps_covered_handle) (simp_all add: quiet_def)
next
  case (6 u g d) then show ?case by (rule keeps_covered_delegation)
qed

text \<open>
  What the composition root (\<^verbatim>\<open>src/src/keyring_api/core/container.py\<close>) starts from: an empty database
  or the one a previous process left, with the built-in roles seeded. Rate limits, queued mail and
  authorization states are in memory and start empty.
\<close>

section \<open>Seeding\<close>

lemma upsert_builtin_vault: "vault_tables (upsert_builtin r d) = vault_tables d"
  by (simp add: upsert_builtin_def vault_tables_def)

lemma seed_roles_frame:
  "seed_roles ns d = Inr d' \<Longrightarrow> db_ok d \<Longrightarrow> db_ok d' \<and> vault_tables d' = vault_tables d"
  by (induction ns arbitrary: d) (auto simp: upsert_builtin_ok upsert_builtin_vault split: sum.splits)

section \<open>A process\<close>

definition start :: "'z vsys_scheme \<Rightarrow> 'z vsys_scheme" where
  "start s = (snd (transact seed_builtin_roles s))\<lparr>m_attempts := [], m_outbox := [], m_flows := []\<rparr>"

definition empty_vsys :: vsys where
  "empty_vsys = sys.extend empty_sys \<lparr>m_flows = []\<rparr>"

lemma start_frame: "db_ok s \<Longrightarrow> db_ok (start s) \<and> vault_tables (start s) = vault_tables s"
  by (auto simp: start_def transact_simp seed_builtin_roles_def vault_tables_def
      split: sum.splits dest: seed_roles_frame)

text \<open>\<open>None\<close>: the process ends, and another one starts on its database.\<close>

fun service_run :: "('z world \<times> signer \<times> app_request) option list \<Rightarrow> 'z vsys_scheme \<Rightarrow> 'z vsys_scheme" where
  "service_run [] s = s"
| "service_run (None # es) s = service_run es (start s)"
| "service_run (Some (u, g, q) # es) s = service_run es (snd (handle_app u g q s))"

context vault_guarantee
begin

lemma keeps_start: "P s \<Longrightarrow> P (start s)"
  using start_frame [OF well_formed [of s]] frame [of s "start s"] by simp

lemma keeps_service_run:
  assumes "P s" and "\<forall>u g q. Some (u, g, q) \<in> set es \<longrightarrow> admissible u"
  shows "P (service_run es s)"
  using assms
proof (induction es s rule: service_run.induct)
  case (2 es s)
  then show ?case using keeps_start by simp
next
  case (3 u g q es s)
  then have "keeps P (handle_app u g q)" by (intro keeps_app) auto
  then have "P (snd (handle_app u g q s))" using 3(2) by (simp add: keeps_def)
  moreover have "\<forall>v h r. Some (v, h, r) \<in> set es \<longrightarrow> admissible v" using 3(3) by auto
  ultimately have "P (service_run es (snd (handle_app u g q s)))" by (rule 3(1))
  then show ?case by simp
qed simp

end

lemma start_covered: "covered (start empty_vsys)"
proof -
  have ok: "db_ok empty_vsys" by (simp add: empty_vsys_def empty_sys_def db_defs empty_db_def sys.defs db.defs)
  have "vault_tables empty_vsys = ([], [], [], [])"
    by (simp add: empty_vsys_def empty_sys_def empty_db_def vault_tables_def sys.defs db.defs)
  then have "t_secrets (start empty_vsys) = []" using start_frame [OF ok] by (simp add: vault_tables_def)
  then show ?thesis using start_frame [OF ok]
    by (intro coveredI) (simp_all add: envelope_get_def fetch_one_def)
qed

end
