(* ===== verification/Revocation.thy ===== *)
theory Revocation
  imports Application
begin

text \<open>
  A grant that was revoked, or whose profile or account is gone, is never exchanged again,
  whatever requests follow.
\<close>

definition gone :: "string \<Rightarrow> 'z db_scheme \<Rightarrow> bool" where
  "gone i s \<longleftrightarrow> db_ok s \<and> (\<forall>g \<in> set (t_offline_grants s). og_id g = i \<longrightarrow> og_revoked_at g \<noteq> None)"

lemma gone_spent: "gone i s \<longleftrightarrow> db_ok s \<and> dl.spent i s"
  by (auto simp: gone_def dl.spent_def offline_grant_of_Some)

lemma gone_rest [simp]:
  "gone i (s\<lparr>m_attempts := m\<rparr>) = gone i s" "gone i (s\<lparr>m_outbox := q\<rparr>) = gone i s"
  "gone i (s\<lparr>m_verifications := n\<rparr>) = gone i s" "gone i (u\<lparr>m_flows := fs\<rparr>) = gone i u"
  by (simp_all add: gone_def db_defs)

lemma gone_frame: "gone i s \<Longrightarrow> vault_tables t = vault_tables s \<Longrightarrow> db_ok t \<Longrightarrow> gone i t"
  by (simp add: gone_def vault_tables_def)

lemma gone_subset:
  "gone i s \<Longrightarrow> db_ok t \<Longrightarrow> set (t_offline_grants t) \<subseteq> set (t_offline_grants s) \<Longrightarrow> gone i t"
  by (auto simp: gone_def)

lemma keeps_gone_subset:
  assumes "\<And>s x t. db_ok s \<Longrightarrow> f s = Inr (x, t) \<Longrightarrow> db_ok t"
    and "\<And>s x t. f s = Inr (x, t) \<Longrightarrow> set (t_offline_grants t) \<subseteq> set (t_offline_grants s)"
  shows "keeps (gone i) (transact f)"
proof (rule keeps_transact)
  fix s x t assume s: "gone i s" and f: "f s = Inr (x, t)"
  have "db_ok s" using s by (simp add: gone_def)
  with assms f show "gone i t" by (intro gone_subset [OF s]) auto
qed

section \<open>Transactions\<close>

lemma upsert_connection_grants:
  "upsert_connection a n c d = Inr e \<Longrightarrow> t_offline_grants e = t_offline_grants d"
  by (auto simp: upsert_connection_def insert_connection_def split: if_splits)

lemma upsert_all_grants: "upsert_all a n cs d = Inr e \<Longrightarrow> t_offline_grants e = t_offline_grants d"
  by (induction cs arbitrary: d) (auto split: sum.splits dest: upsert_connection_grants)

lemma vault_txn_grants:
  "profile_add p cap d = Inr (u, d') \<Longrightarrow> set (t_offline_grants d') \<subseteq> set (t_offline_grants d)"
  "profile_delete a n d = Inr (b, d') \<Longrightarrow> set (t_offline_grants d') \<subseteq> set (t_offline_grants d)"
  "put_connection a n c k now d = Inr (st, d') \<Longrightarrow> set (t_offline_grants d') \<subseteq> set (t_offline_grants d)"
  "remove_connection a n sv now d = Inr (b, d') \<Longrightarrow> set (t_offline_grants d') \<subseteq> set (t_offline_grants d)"
  "secret_put v now a n sv x d = Inr (u, d') \<Longrightarrow> set (t_offline_grants d') \<subseteq> set (t_offline_grants d)"
  "secret_delete a n sv d = Inr (b, d') \<Longrightarrow> set (t_offline_grants d') \<subseteq> set (t_offline_grants d)"
  "secret_delete_profile a n d = Inr (k', d') \<Longrightarrow> set (t_offline_grants d') \<subseteq> set (t_offline_grants d)"
  "account_delete a d = Inr (b, d') \<Longrightarrow> set (t_offline_grants d') \<subseteq> set (t_offline_grants d)"
proof -
  have touch: "t_offline_grants (touch_profile a n now d) = t_offline_grants d" for a n now and d :: "'z db_scheme"
    by (simp add: touch_profile_def)
  show "profile_add p cap d = Inr (u, d') \<Longrightarrow> set (t_offline_grants d') \<subseteq> set (t_offline_grants d)"
    by (auto simp: profile_add_def insert_profile_def split: if_splits sum.splits dest!: upsert_all_grants)
  show "profile_delete a n d = Inr (b, d') \<Longrightarrow> set (t_offline_grants d') \<subseteq> set (t_offline_grants d)"
    by (auto simp: profile_delete_def delete_profiles_def Let_def table_simps)
  show "put_connection a n c k now d = Inr (st, d') \<Longrightarrow> set (t_offline_grants d') \<subseteq> set (t_offline_grants d)"
    by (auto simp: put_connection_def touch split: if_splits sum.splits option.splits dest!: upsert_connection_grants)
  show "remove_connection a n sv now d = Inr (b, d') \<Longrightarrow> set (t_offline_grants d') \<subseteq> set (t_offline_grants d)"
    by (auto simp: remove_connection_def Let_def touch split: if_splits)
  show "secret_put v now a n sv x d = Inr (u, d') \<Longrightarrow> set (t_offline_grants d') \<subseteq> set (t_offline_grants d)"
    by (auto simp: secret_put_def upsert_secret_def insert_secret_def split: if_splits sum.splits)
  show "secret_delete a n sv d = Inr (b, d') \<Longrightarrow> set (t_offline_grants d') \<subseteq> set (t_offline_grants d)"
    by (auto simp: secret_delete_def)
  show "secret_delete_profile a n d = Inr (k', d') \<Longrightarrow> set (t_offline_grants d') \<subseteq> set (t_offline_grants d)"
    by (auto simp: secret_delete_profile_def Let_def)
  show "account_delete a d = Inr (b, d') \<Longrightarrow> set (t_offline_grants d') \<subseteq> set (t_offline_grants d)"
    by (auto simp: account_delete_def delete_account_row_def delete_profiles_def Let_def table_simps
        split: if_splits sum.splits)
qed

lemma keeps_gone_txns:
  "keeps (gone i) (transact (profile_add p cap))" "keeps (gone i) (transact (profile_delete a n))"
  "keeps (gone i) (transact (put_connection a n c k now))" "keeps (gone i) (transact (remove_connection a n sv now))"
  "keeps (gone i) (transact (secret_put v now a n sv x))" "keeps (gone i) (transact (secret_delete a n sv))"
  "keeps (gone i) (transact (secret_delete_profile a n))"
  by (rule keeps_gone_subset, erule (1) profile_add_Inr(1) profile_delete_Inr(1) put_connection_Inr(1)
      remove_connection_Inr(1) secret_put_Inr(1) secret_delete_Inr(1) secret_delete_profile_Inr(1), erule vault_txn_grants)+

lemma keeps_gone_add:
  assumes "og_id g \<noteq> i"
  shows "keeps (gone i) (transact (delegation_add g cap now))"
proof (rule keeps_transact)
  fix s x t assume s: "gone i s" and t: "delegation_add g cap now s = Inr (x, t)"
  then have ok: "db_ok s" and "dl.spent i s" by (simp_all add: gone_spent)
  then have "dl.spent i t" using dl.add_keeps_spent [OF ok t assms] by simp
  then show "gone i t" using delegation_add_Inr(1) [OF ok t] by (simp add: gone_spent)
qed

lemma keeps_gone_revoke: "keeps (gone i) (transact (delegation_revoke a n j now))"
proof (rule keeps_transact)
  fix s x t assume s: "gone i s" and t: "delegation_revoke a n j now s = Inr (x, t)"
  then have ok: "db_ok s" and "dl.spent i s" by (simp_all add: gone_spent)
  then have "dl.spent i t" using dl.revoke_keeps_spent [OF ok t] by simp
  then show "gone i t" using delegation_revoke_Inr(1) [OF ok t] by (simp add: gone_spent)
qed

lemma keeps_gone_frame:
  fixes m :: "('e, 'z db_scheme, 'a) op"
  assumes "\<And>V. keeps (\<lambda>s. vault_tables s = V) m" and "keeps db_ok m"
  shows "keeps (gone i) m"
proof (rule keepsI)
  fix s :: "'z db_scheme" assume s: "gone i s"
  have "vault_tables (snd (m s)) = vault_tables s" using assms(1) [of "vault_tables s"] by (simp add: keeps_def)
  moreover have "db_ok (snd (m s))" using assms(2) s by (simp add: keeps_def gone_def)
  ultimately show "gone i (snd (m s))" by (rule gone_frame [OF s])
qed

lemma keeps_gone_gate:
  "keeps (gone i) (admit w a r)" "keeps (gone i) (announce w a p c g)"
  by (rule keeps_gone_frame, rule admit_keeps(1) announce_keeps(1), rule admit_keeps(2) announce_keeps(2))+

lemma keeps_gone_record: "keeps (gone i) (delegation_record w k a b d)"
  by (rule keeps_gone_frame, rule keeps_frozen_record(2) [unfolded frozen_def [abs_def]],
    unfold delegation_record_def, intro keeps_intros)

lemma keeps_gone_states:
  "keeps (gone i) (issue_state w b t)" "keeps (gone i) (redeem_state w st)" "keeps (gone i) (purge_states w)"
  by (auto simp: keeps_def issue_state_def redeem_state_simp purge_states_def split: option.split prod.split)

lemmas keeps_gone = keeps_gone_txns keeps_gone_gate keeps_gone_record keeps_gone_states keeps_gone_revoke

section \<open>Requests\<close>

lemma keeps_gone_vault:
  assumes "quiet (gone i) u"
  shows "keeps (gone i) (handle_vault u q)"
proof -
  have net: "keeps (gone i) (te_refresh (wo_endpoint u) p t)" "keeps (gone i) (te_exchange_code (wo_endpoint u) p c r)" for p t c r
    using assms by (simp_all add: quiet_def)
  show ?thesis
    by (cases q) (simp_all only: handle_vault.simps delete_profile_route_def put_api_key_def put_password_def
        authorize_connection_def delete_connection_def resolve_form_def resolve_credential_def credential_headers_def
        change_defs credential_defs vault_internal_defs Let_def,
      (intro keeps_intros keeps_gone net)+)
qed

lemma keeps_gone_remove_profile: "keeps (gone i) (remove_profile w a n r)"
  unfolding change_defs credential_defs Let_def by (intro keeps_intros keeps_gone)

lemma keeps_gone_delegation:
  assumes "''dgt_'' @ ev_token (wo_env u) \<noteq> i"
  shows "keeps (gone i) (handle_delegation u g q)"
proof -
  have add: "keeps (gone i) (transact (delegation_add \<lparr>og_id = ''dgt_'' @ ev_token (wo_env u), og_account_id = a, og_profile = n,
      og_service = sv, og_audiences = l, og_created_at = c, og_expires_at = e, og_revoked_at = None\<rparr> cap now))" for a n sv l c e cap now
    by (rule keeps_gone_add) (simp only: offline_grant.simps assms not_False_eq_True)
  show ?thesis
    by (cases q) (simp_all only: handle_delegation.simps delegation_route_defs delegation_defs change_defs
        credential_defs vault_internal_defs Let_def,
      (intro keeps_intros keeps_gone add)+)
qed

text \<open>No call draws the handle of the grant again, and the token endpoints leave grants alone.\<close>

definition fresh_handles :: "string \<Rightarrow> 'z world \<Rightarrow> bool" where
  "fresh_handles i u \<longleftrightarrow> quiet (gone i) u \<and> ''dgt_'' @ ev_token (wo_env u) \<noteq> i"

interpretation dead: vault_guarantee "gone i" "fresh_handles i" for i
proof (unfold_locales, goal_cases)
  case (1 s) then show ?case by (simp add: gone_def)
next
  case (2 s t) then show ?case by (rule gone_frame)
next
  case (3 s j b t)
  then have "db_ok s" by (simp add: gone_def)
  with 3 show ?case by (intro gone_subset [OF 3(1) account_delete_Inr(1) vault_txn_grants(8)]) auto
next
  case (4 w a n r) show ?case by (rule keeps_gone_remove_profile)
next
  case (5 u q) then show ?case by (intro keeps_gone_vault) (simp add: fresh_handles_def)
next
  case (6 u g d) then show ?case by (intro keeps_gone_delegation) (simp add: fresh_handles_def)
qed

section \<open>Exchanges\<close>

lemma gone_not_exchanged:
  assumes "gone i s"
  shows "\<exists>e t. exchange w g sv aud ttl None (Some i) s = (Inl e, t)"
proof -
  have "\<not> authorizes w g sv aud None (Some i) s a dl" for a dl
    using assms dl.lookup_spent [of s i sv] by (auto simp: authorizes_def gone_spent)
  then have "\<not> (\<exists>t. exchange w g sv aud ttl None (Some i) s = (Inr x, t))" for x
    by (simp add: exchange_iff)
  then show ?thesis by (metis old.sum.exhaust surj_pair)
qed

text \<open>
  A service that presents its own credential and a user token acts for the subject of that token
  and for nobody else: whatever it asks, the vault and the grants of every other account stay.
\<close>

section \<open>Who is meant\<close>

definition grants_held :: "string \<Rightarrow> 'z db_scheme \<Rightarrow> offline_grant list" where
  "grants_held b d = filter (\<lambda>g. og_account_id g = b) (t_offline_grants d)"

fun presented :: "delegation_request \<Rightarrow> (string option \<times> string option) option" where
  "presented (ExchangeToken c t b) = Some (c, t)"
| "presented (DescribeDelegated c t n) = Some (c, t)"
| "presented (AuthorizeDelegated c t n k uri) = Some (c, t)"
| "presented (DeleteDelegated c t n k) = Some (c, t)"
| "presented (CreateDelegated c t n b) = Some (c, t)"
| "presented (RevokeDelegated c t n i) = Some (c, t)"
| "presented q = None"

text \<open>The account two credentials stand for: the service is known and the token is for it.\<close>

definition stands_for :: "env \<Rightarrow> signer \<Rightarrow> string option \<Rightarrow> string option \<Rightarrow> string \<Rightarrow> bool" where
  "stands_for w g credentials user_token account_id \<longleftrightarrow>
     (\<exists>service. calling_service (ev_settings w) credentials = Inr service
        \<and> acting_for g (ev_wall_clock w) (ev_now w) service user_token = Inr account_id)"

lemma on_behalf_cases:
  "on_behalf w g c t f s =
     (case calling_service (ev_settings w) c of
        Inl e \<Rightarrow> (Inl e, s)
      | Inr sv \<Rightarrow> (case acting_for g (ev_wall_clock w) (ev_now w) sv t of Inl e \<Rightarrow> (Inl e, s) | Inr a \<Rightarrow> f sv a s))"
  by (simp add: on_behalf_def txn_simps split: sum.split)

lemma keeps_on_behalf:
  assumes "\<And>sv a. calling_service (ev_settings w) c = Inr sv \<Longrightarrow> acting_for g (ev_wall_clock w) (ev_now w) sv t = Inr a \<Longrightarrow> keeps P (f sv a)"
  shows "keeps P (on_behalf w g c t f)"
  using assms by (auto simp: keeps_def on_behalf_cases split: sum.split)

text \<open>What the two credentials prove.\<close>

lemma stands_for_proved:
  assumes "stands_for w g c t a" and "check_service_tokens (st_service_tokens (ev_settings w)) = Inr ()"
  shows "\<exists>service secret token claims. c = Some secret \<and> (service, secret) \<in> set (st_service_tokens (ev_settings w))
    \<and> t = Some token \<and> sg_decode g token = Some claims \<and> cl_aud claims = service \<and> cl_iss claims = sg_issuer g
    \<and> ev_now w < timedelta_s (cl_exp claims) \<and> cl_sub claims = a"
proof -
  obtain sv where sv: "calling_service (ev_settings w) c = Inr sv" and a: "acting_for g (ev_wall_clock w) (ev_now w) sv t = Inr a"
    using assms(1) by (auto simp: stands_for_def)
  obtain secret where secret: "c = Some secret" "(sv, secret) \<in> set (st_service_tokens (ev_settings w))"
    using sv identify_Inr [OF assms(2), of c sv] by (auto simp: calling_service_def split: option.splits sum.splits)
  obtain token where token: "t = Some token" "verify g (ev_wall_clock w) (ev_now w) token sv = Inr a"
    using a by (auto simp: acting_for_def split: option.splits)
  then obtain v where v: "verify_access g (ev_wall_clock w) (ev_now w) token sv = Inr v" "vt_account_id v = a"
    by (auto simp: verify_def split: sum.splits)
  from verify_access_Inr [OF v(1)] v(2) secret token(1) show ?thesis by auto
qed

section \<open>Everybody else\<close>

definition untouched :: "string \<Rightarrow> ((string \<Rightarrow> string \<Rightarrow> connection option) \<times> (string \<Rightarrow> string \<Rightarrow> envelope option) \<times> string set)
    \<Rightarrow> offline_grant list \<Rightarrow> 'z vsys_scheme \<Rightarrow> bool" where
  "untouched b V G s \<longleftrightarrow> others b V s \<and> grants_held b s = G"

lemma untouched_split:
  fixes m :: "('e, 'z vsys_scheme, 'a) op"
  assumes "keeps (others b V) m" and "\<And>H. keeps (\<lambda>s. t_offline_grants s = H) m"
  shows "keeps (untouched b V G) m"
proof (rule keepsI)
  fix s :: "'z vsys_scheme" assume s: "untouched b V G s"
  have "t_offline_grants (snd (m s)) = t_offline_grants s"
    using assms(2) [of "t_offline_grants s"] by (simp add: keeps_def)
  with s assms(1) show "untouched b V G (snd (m s))" by (simp add: untouched_def grants_held_def keeps_def)
qed

lemma same_grants_txns:
  "put_connection a n c k now d = Inr (st, d') \<Longrightarrow> t_offline_grants d' = t_offline_grants d"
  "remove_connection a n sv now d = Inr (b, d') \<Longrightarrow> t_offline_grants d' = t_offline_grants d"
  "secret_delete a n sv d = Inr (b, d') \<Longrightarrow> t_offline_grants d' = t_offline_grants d"
proof -
  have touch: "t_offline_grants (touch_profile a n now d) = t_offline_grants d" for a n now and d :: "'z db_scheme"
    by (simp add: touch_profile_def)
  show "put_connection a n c k now d = Inr (st, d') \<Longrightarrow> t_offline_grants d' = t_offline_grants d"
    by (auto simp: put_connection_def touch split: if_splits sum.splits option.splits dest!: upsert_connection_grants)
  show "remove_connection a n sv now d = Inr (b, d') \<Longrightarrow> t_offline_grants d' = t_offline_grants d"
    by (auto simp: remove_connection_def Let_def touch split: if_splits)
  show "secret_delete a n sv d = Inr (b, d') \<Longrightarrow> t_offline_grants d' = t_offline_grants d"
    by (auto simp: secret_delete_def)
qed

lemma keeps_same_grants:
  fixes H :: "offline_grant list"
  defines "P \<equiv> \<lambda>s :: 'z vsys_scheme. t_offline_grants s = H"
  shows "keeps P (change_begin_authorization w ps a n sv uri r)" "keeps P (change_remove_connection w a n sv r)"
    "keeps P (get_profile a n)"
proof -
  have gate: "keeps P (admit w a r)" "keeps P (announce w a p c g)" for w a r p c g
    unfolding P_def keeps_def
    using admit_keeps(1) [unfolded keeps_def, rule_format, OF refl] announce_keeps(1) [unfolded keeps_def, rule_format, OF refl]
    by (metis (no_types, lifting) prod.inject vault_tables_def)+
  have txns: "keeps P (transact (put_connection a n c k now))" "keeps P (transact (remove_connection a n sv now))"
    "keeps P (transact (secret_delete a n sv))" for a n c k now sv
    unfolding P_def by (rule keeps_transact, drule same_grants_txns, simp)+
  have states: "keeps P (issue_state w b t)" for w b t
    by (auto simp: keeps_def P_def issue_state_def)
  show "keeps P (change_begin_authorization w ps a n sv uri r)" "keeps P (change_remove_connection w a n sv r)"
    "keeps P (get_profile a n)"
    unfolding change_defs credential_defs vault_internal_defs Let_def by (intro keeps_intros gate txns states)+
qed

lemma untouched_grants_txns:
  assumes "a \<noteq> b"
  shows "og_account_id x = a \<Longrightarrow> keeps (untouched b V G) (transact (delegation_add x cap now))"
    and "keeps (untouched b V G) (transact (delegation_revoke a n i now))"
proof -
  show "keeps (untouched b V G) (transact (delegation_add x cap now))" if "og_account_id x = a"
  proof (rule keeps_transact)
    fix s y t assume s: "untouched b V G s" and t: "delegation_add x cap now s = Inr (y, t)"
    then have ok: "db_ok s" by (simp add: untouched_def others_def)
    note ad = delegation_add_Inr(1,2) [OF ok t]
    have "vault_of b t = vault_of b s" by (simp add: ad(2) vault_of_def conn_get_def envelope_get_def profile_keys_def)
    moreover have "grants_held b t = grants_held b s" using that assms by (simp add: ad(2) grants_held_def)
    ultimately show "untouched b V G t" using s ad(1) by (simp add: untouched_def others_def)
  qed
  show "keeps (untouched b V G) (transact (delegation_revoke a n i now))"
  proof (rule keeps_transact)
    fix s y t assume s: "untouched b V G s" and t: "delegation_revoke a n i now s = Inr (y, t)"
    then have ok: "db_ok s" by (simp add: untouched_def others_def)
    have "vault_of b t = vault_of b s"
      using t by (auto simp: delegation_revoke_def Let_def vault_of_def conn_get_def envelope_get_def profile_keys_def)
    moreover have "filter (\<lambda>g. og_account_id g = b) (update_where (\<lambda>g. og_account_id g = a \<and> og_profile g = n \<and> og_id g = i) (revoked_at now) rows)
        = filter (\<lambda>g. og_account_id g = b) rows" for rows
      using assms by (induction rows) (auto simp: update_where_def)
    then have "grants_held b t = grants_held b s"
      using t by (auto simp: delegation_revoke_def Let_def grants_held_def)
    ultimately show "untouched b V G t" using s delegation_revoke_Inr(1) [OF ok t] by (simp add: untouched_def others_def)
  qed
qed

lemma keeps_untouched_record: "keeps (untouched b V G) (delegation_record w k x y d)"
proof -
  have "keeps (others b V) (delegation_record w k x y d)"
    by (rule keeps_others_frame, rule keeps_frozen_record(2) [unfolded frozen_def [abs_def]],
      unfold delegation_record_def, intro keeps_intros)
  moreover have "keeps (\<lambda>s. t_offline_grants s = H) (delegation_record w k x y d)" for H
    by (auto simp: keeps_def delegation_record_def txn_simps audit_record_def Let_def)
  ultimately show ?thesis by (rule untouched_split)
qed

lemma keeps_untouched_service:
  assumes "a \<noteq> b"
  shows "keeps (untouched b V G) (describe_delegated_profile n a)"
    and "keeps (untouched b V G) (authorize_delegated_connection w ps uri n k a)"
    and "keeps (untouched b V G) (delete_delegated_connection w n k a)"
    and "keeps (untouched b V G) (create_delegated_grant w n body sv a)"
    and "keeps (untouched b V G) (revoke_delegated_grant w n i sv a)"
proof -
  have ba: "b \<noteq> a" using assms by simp
  have change: "keeps (untouched b V G) (change_begin_authorization w ps a n k uri r)"
    "keeps (untouched b V G) (change_remove_connection w a n k r)" for w ps n k uri r
    by (rule untouched_split, rule keeps_others_changes(2,3) [OF ba], rule keeps_same_grants(1,2))+
  have get: "keeps (untouched b V G) (get_profile a n)" for n
    unfolding get_profile_def by (intro keeps_intros)
  show "keeps (untouched b V G) (describe_delegated_profile n a)"
    unfolding describe_delegated_profile_def by (intro keeps_intros get)
  show "keeps (untouched b V G) (authorize_delegated_connection w ps uri n k a)"
    unfolding authorize_delegated_connection_def by (rule change)
  show "keeps (untouched b V G) (delete_delegated_connection w n k a)"
    unfolding delete_delegated_connection_def by (intro keeps_intros change)
  have add: "keeps (untouched b V G) (transact (delegation_add \<lparr>og_id = x, og_account_id = a, og_profile = n,
      og_service = y, og_audiences = l, og_created_at = c, og_expires_at = e, og_revoked_at = None\<rparr> cap now))" for x n y l c e cap now
    by (rule untouched_grants_txns(1) [OF assms]) simp
  show "keeps (untouched b V G) (create_delegated_grant w n body sv a)"
    unfolding create_delegated_grant_def delegation_create_def delegation_profile_def Let_def
    by (intro keeps_intros add keeps_untouched_record)
  show "keeps (untouched b V G) (revoke_delegated_grant w n i sv a)"
    unfolding revoke_delegated_grant_def revoke_for_service_def delegation_profile_def Let_def
    by (intro keeps_intros untouched_grants_txns(2) [OF assms] keeps_untouched_record)
qed

lemma keeps_untouched_handle:
  assumes "presented q = Some (c, t)" and "\<not> stands_for (wo_env u) g c t b"
  shows "keeps (untouched b V G) (handle_delegation u g q)"
proof -
  have other: "a \<noteq> b" if "calling_service (ev_settings (wo_env u)) c = Inr sv"
    "acting_for g (ev_wall_clock (wo_env u)) (ev_now (wo_env u)) sv t = Inr a" for sv a
    using assms(2) that by (auto simp: stands_for_def)
  show ?thesis
  proof (cases q)
    case (ExchangeToken c' t' body)
    show ?thesis unfolding ExchangeToken handle_delegation.simps exchange_user_token_def exchange_def authority_def Let_def
      by (intro keeps_intros keeps_untouched_record)
  qed (use assms(1) other in \<open>auto intro!: keeps_andthen keeps_ret keeps_on_behalf keeps_untouched_service\<close>)
qed

end
