(* ===== verification/Jwks.thy ===== *)
theory Jwks
  imports ServiceTokens
begin

text \<open>
  \<^verbatim>\<open>src/clients/python/keyring_client/jwks.py\<close>: the cache of the published keys in a consuming
  service. A call is a read of the cache and, on a miss, a section under the lock; between the
  two other calls run. The clock is read before the request goes out and after the answer is
  there. The instants at which requests went out are part of the state.
\<close>

section \<open>State\<close>

datatype document =
    DNull | DBool bool | DNumber rat | DText string | DArray "document list" | DObject "(string \<times> document) list"

type_synonym 'k key_set = "(string \<times> 'k) list"

record 'k jwks =
  jk_keys :: "'k key_set option"
  jk_fetched_at :: rat
  jk_failed_at :: "rat option"
  jk_provoked_at :: "rat option"
  jk_requests :: "rat list" \<comment> \<open>newest first\<close>

type_synonym ('k, 'a) jop = "(client_error, 'k jwks, 'a) op"

definition jwks_client :: "'k jwks" where
  "jwks_client = \<lparr>jk_keys = None, jk_fetched_at = 0, jk_failed_at = None, jk_provoked_at = None, jk_requests = []\<rparr>"

record 'k jwks_config =
  jc_cache_seconds :: rat
  jc_min_refetch_seconds :: rat
  jc_stale_grace_seconds :: rat
  jc_key_set :: "document list \<Rightarrow> 'k key_set option" \<comment> \<open>\<open>jwt.PyJWKSet\<close>; \<open>None\<close>: it raises\<close>

datatype get_outcome = GetFails | GetReturns document \<comment> \<open>\<open>httpx.HTTPError\<close> or \<open>ValueError\<close>, or JSON\<close>

record fetching =
  fe_at :: rat
  fe_after :: rat
  fe_answer :: get_outcome

definition BAD_CLIENT_TOKEN :: message where "BAD_CLIENT_TOKEN = [''the token was not accepted'']"
definition KEYS_UNAVAILABLE :: message where
  "KEYS_UNAVAILABLE = [''keyring's signing keys could not be fetched'']"
definition KEYS_STALE :: message where
  "KEYS_STALE = [''keyring could not be reached; tokens are verified against cached keys'']"

fun is_keyring_unreachable :: "client_error \<Rightarrow> bool" where
  "is_keyring_unreachable (KeyringUnreachableError m) = True"
| "is_keyring_unreachable e = False"

section \<open>Reading the cache\<close>

definition key_in :: "'k key_set \<Rightarrow> string \<Rightarrow> 'k option" where
  "key_in keys kid = map_of keys kid"

definition fresh_keys :: "'k jwks_config \<Rightarrow> rat \<Rightarrow> 'k jwks \<Rightarrow> 'k key_set option" where
  "fresh_keys c now s =
     (case jk_keys s of
        None \<Rightarrow> None
      | Some keys \<Rightarrow> if now - jk_fetched_at s \<ge> jc_cache_seconds c then None else Some keys)"

definition usable_stale_keys :: "'k jwks_config \<Rightarrow> rat \<Rightarrow> 'k jwks \<Rightarrow> 'k key_set option" where
  "usable_stale_keys c now s =
     (case jk_keys s of
        None \<Rightarrow> None
      | Some keys \<Rightarrow>
          if now - jk_fetched_at s \<ge> jc_cache_seconds c + jc_stale_grace_seconds c then None else Some keys)"

definition cached :: "'k jwks_config \<Rightarrow> rat \<Rightarrow> string \<Rightarrow> 'k jwks \<Rightarrow> 'k option" where
  "cached c now kid s = (case fresh_keys c now s of None \<Rightarrow> None | Some held \<Rightarrow> key_in held kid)"

definition stale_key :: "'k jwks_config \<Rightarrow> rat \<Rightarrow> string \<Rightarrow> 'k jwks \<Rightarrow> 'k option" where
  "stale_key c now kid s = (case usable_stale_keys c now s of None \<Rightarrow> None | Some held \<Rightarrow> key_in held kid)"

definition stale_health :: "'k jwks_config \<Rightarrow> rat \<Rightarrow> 'k jwks \<Rightarrow> bool \<times> message option" where
  "stale_health c now s =
     (if usable_stale_keys c now s \<noteq> None then (True, Some KEYS_STALE) else (False, Some KEYS_UNAVAILABLE))"

section \<open>Fetching\<close>

definition claim_refetch_window :: "'k jwks_config \<Rightarrow> rat \<Rightarrow> ('k, unit) jop" where
  "claim_refetch_window c now s =
     (case jk_provoked_at s of
        Some provoked_at \<Rightarrow>
          if now - provoked_at < jc_min_refetch_seconds c
          then (Inl (ClientAuthenticationError BAD_CLIENT_TOKEN), s)
          else (Inr (), s\<lparr>jk_provoked_at := Some now\<rparr>)
      | None \<Rightarrow> (Inr (), s\<lparr>jk_provoked_at := Some now\<rparr>))"

definition get_document :: "fetching \<Rightarrow> ('k, document) jop" where
  "get_document f s =
     (case fe_answer f of
        GetFails \<Rightarrow> (Inl (KeyringUnreachableError KEYS_UNAVAILABLE), s\<lparr>jk_requests := fe_at f # jk_requests s\<rparr>)
      | GetReturns d \<Rightarrow> (Inr d, s\<lparr>jk_requests := fe_at f # jk_requests s\<rparr>))"

definition key_set_of :: "'k jwks_config \<Rightarrow> document \<Rightarrow> client_error + 'k key_set" where
  "key_set_of c d =
     (case (case d of DObject entries \<Rightarrow> map_of entries ''keys'' | _ \<Rightarrow> None) of
        Some (DArray keys) \<Rightarrow>
          (case jc_key_set c keys of
             None \<Rightarrow> Inl (KeyringUnreachableError KEYS_UNAVAILABLE)
           | Some key_set \<Rightarrow> Inr key_set)
      | _ \<Rightarrow> Inl (KeyringUnreachableError KEYS_UNAVAILABLE))"

definition replace_keys :: "rat \<Rightarrow> 'k key_set \<Rightarrow> ('k, unit) jop" where
  "replace_keys asked_at key_set s = (Inr (), s\<lparr>jk_keys := Some key_set, jk_fetched_at := asked_at, jk_failed_at := None\<rparr>)"

definition fetch_keys :: "'k jwks_config \<Rightarrow> fetching \<Rightarrow> ('k, 'k key_set) jop" where
  "fetch_keys c f =
     andthen (get_document f) (\<lambda>d.
     andthen (of_result (key_set_of c d)) (\<lambda>key_set.
     andthen (replace_keys (fe_at f) key_set) (\<lambda>_.
     ret key_set)))"

definition note_failure :: "rat \<Rightarrow> ('k, unit) jop" where
  "note_failure now s = (Inr (), s\<lparr>jk_failed_at := Some now\<rparr>)"

definition refresh_keys :: "'k jwks_config \<Rightarrow> fetching \<Rightarrow> ('k, 'k key_set) jop" where
  "refresh_keys c f =
     andthen (reading jk_failed_at) (\<lambda>failed_at.
     andthen (guard (case failed_at of None \<Rightarrow> True | Some t \<Rightarrow> \<not> fe_at f - t < jc_min_refetch_seconds c)
                (KeyringUnreachableError KEYS_UNAVAILABLE)) (\<lambda>_.
     handling is_keyring_unreachable (\<lambda>e. andthen (note_failure (fe_after f)) (\<lambda>_. raise e)) (fetch_keys c f)))"

section \<open>The two operations\<close>

text \<open>What a call does once it holds the lock.\<close>

definition key_for_locked :: "'k jwks_config \<Rightarrow> string \<Rightarrow> fetching \<Rightarrow> ('k, 'k) jop" where
  "key_for_locked c kid f =
     andthen (reading (cached c (fe_at f) kid)) (\<lambda>found.
     case found of
       Some key \<Rightarrow> ret key
     | None \<Rightarrow>
         andthen (reading (fresh_keys c (fe_at f))) (\<lambda>held.
         andthen (if held \<noteq> None then claim_refetch_window c (fe_at f) else ret ()) (\<lambda>_.
         handling is_keyring_unreachable
           (\<lambda>e. andthen (reading (stale_key c (fe_after f) kid)) (\<lambda>stale.
                case stale of None \<Rightarrow> raise e | Some key \<Rightarrow> ret key))
           (andthen (refresh_keys c f) (\<lambda>fetched.
            case key_in fetched kid of
              None \<Rightarrow> raise (ClientAuthenticationError BAD_CLIENT_TOKEN)
            | Some key \<Rightarrow> ret key)))))"

text \<open>\<open>interlude\<close> is what other calls do while this one waits for the lock.\<close>

definition key_for :: "'k jwks_config \<Rightarrow> string \<Rightarrow> rat \<Rightarrow> ('k, unit) jop \<Rightarrow> fetching \<Rightarrow> ('k, 'k) jop" where
  "key_for c kid now interlude f =
     andthen (reading (cached c now kid)) (\<lambda>found.
     case found of
       Some key \<Rightarrow> ret key
     | None \<Rightarrow> andthen interlude (\<lambda>_. key_for_locked c kid f))"

definition healthy_locked :: "'k jwks_config \<Rightarrow> fetching \<Rightarrow> ('k, bool \<times> message option) jop" where
  "healthy_locked c f =
     handling (\<lambda>e. True) (\<lambda>e. reading (stale_health c (fe_after f)))
       (andthen (refresh_keys c f) (\<lambda>_. ret (True, None)))"

definition healthy ::
  "'k jwks_config \<Rightarrow> rat \<Rightarrow> ('k, unit) jop \<Rightarrow> fetching \<Rightarrow> ('k, bool \<times> message option) jop" where
  "healthy c now interlude f =
     andthen (reading (fresh_keys c now)) (\<lambda>held.
     if held \<noteq> None then ret (True, None)
     else andthen interlude (\<lambda>_. healthy_locked c f))"

lemmas jwks_defs = claim_refetch_window_def get_document_def replace_keys_def fetch_keys_def note_failure_def
  refresh_keys_def key_for_locked_def key_for_def healthy_locked_def healthy_def

section \<open>What a refresh does\<close>

definition may_fetch :: "'k jwks_config \<Rightarrow> rat \<Rightarrow> 'k jwks \<Rightarrow> bool" where
  "may_fetch c now s \<longleftrightarrow> (\<forall>t. jk_failed_at s = Some t \<longrightarrow> jc_min_refetch_seconds c \<le> now - t)"

definition fetched :: "'k jwks_config \<Rightarrow> fetching \<Rightarrow> 'k key_set option" where
  "fetched c f = (case fe_answer f of GetFails \<Rightarrow> None
     | GetReturns d \<Rightarrow> (case key_set_of c d of Inl e \<Rightarrow> None | Inr ks \<Rightarrow> Some ks))"

lemma key_set_of_Inl: "key_set_of c d = Inl e \<Longrightarrow> e = KeyringUnreachableError KEYS_UNAVAILABLE"
  by (auto simp: key_set_of_def split: option.splits document.splits)

lemma refresh_keys_cases:
  "refresh_keys c f s =
     (if \<not> may_fetch c (fe_at f) s then (Inl (KeyringUnreachableError KEYS_UNAVAILABLE), s)
      else case fetched c f of
        None \<Rightarrow> (Inl (KeyringUnreachableError KEYS_UNAVAILABLE),
                 s\<lparr>jk_requests := fe_at f # jk_requests s, jk_failed_at := Some (fe_after f)\<rparr>)
      | Some ks \<Rightarrow> (Inr ks, s\<lparr>jk_requests := fe_at f # jk_requests s, jk_keys := Some ks,
                 jk_fetched_at := fe_at f, jk_failed_at := None\<rparr>))"
proof (cases "may_fetch c (fe_at f) s")
  case False
  then show ?thesis
    by (auto simp: refresh_keys_def may_fetch_def txn_simps not_le)
next
  case True
  then have g: "(case jk_failed_at s of None \<Rightarrow> True | Some t \<Rightarrow> \<not> fe_at f - t < jc_min_refetch_seconds c)"
    by (auto simp: may_fetch_def not_less split: option.split)
  show ?thesis
  proof (cases "fe_answer f")
    case GetFails
    then show ?thesis using True g
      by (simp add: refresh_keys_def fetch_keys_def get_document_def note_failure_def fetched_def txn_simps)
  next
    case (GetReturns d)
    show ?thesis
    proof (cases "key_set_of c d")
      case (Inl e)
      with key_set_of_Inl [OF Inl] GetReturns True g show ?thesis
        by (simp add: refresh_keys_def fetch_keys_def get_document_def note_failure_def fetched_def txn_simps)
    next
      case (Inr ks)
      with GetReturns True g show ?thesis
        by (simp add: refresh_keys_def fetch_keys_def get_document_def replace_keys_def fetched_def txn_simps)
    qed
  qed
qed

section \<open>Sequences of calls\<close>

text \<open>
  The state of the client changes only in sections under the lock, which run one after another.
  A health check looks at the cache before it asks for the lock; one that finds the lock taken enters
  its section later, whatever the cache holds by then. A call that is cancelled while its request is
  out, or that ends with an exception nobody expects, has asked and leaves no note of it.
\<close>

definition abandoned_refresh :: "'k jwks_config \<Rightarrow> fetching \<Rightarrow> ('k, unit) jop" where
  "abandoned_refresh c f =
     andthen (reading jk_failed_at) (\<lambda>failed_at.
     andthen (guard (case failed_at of None \<Rightarrow> True | Some t \<Rightarrow> \<not> fe_at f - t < jc_min_refetch_seconds c)
                (KeyringUnreachableError KEYS_UNAVAILABLE)) (\<lambda>_.
     \<lambda>s. (Inr (), s\<lparr>jk_requests := fe_at f # jk_requests s\<rparr>)))"

definition abandoned_lookup :: "'k jwks_config \<Rightarrow> string \<Rightarrow> fetching \<Rightarrow> ('k, unit) jop" where
  "abandoned_lookup c kid f =
     andthen (reading (cached c (fe_at f) kid)) (\<lambda>found.
     case found of
       Some key \<Rightarrow> ret ()
     | None \<Rightarrow>
         andthen (reading (fresh_keys c (fe_at f))) (\<lambda>held.
         andthen (if held \<noteq> None then claim_refetch_window c (fe_at f) else ret ()) (\<lambda>_.
         abandoned_refresh c f)))"

datatype jwks_call = Lookup string | Health | QueuedHealth | AbandonedLookup string | AbandonedHealth

fun jwks_step :: "'k jwks_config \<Rightarrow> jwks_call \<Rightarrow> fetching \<Rightarrow> ('k, unit) jop" where
  "jwks_step c (Lookup kid) f = andthen (key_for_locked c kid f) (\<lambda>_. ret ())"
| "jwks_step c Health f = andthen (healthy c (fe_at f) (ret ()) f) (\<lambda>_. ret ())"
| "jwks_step c QueuedHealth f = andthen (healthy_locked c f) (\<lambda>_. ret ())"
| "jwks_step c (AbandonedLookup kid) f = abandoned_lookup c kid f"
| "jwks_step c AbandonedHealth f = abandoned_refresh c f"

fun jwks_run :: "'k jwks_config \<Rightarrow> (jwks_call \<times> fetching) list \<Rightarrow> 'k jwks \<Rightarrow> 'k jwks" where
  "jwks_run c [] s = s"
| "jwks_run c ((q, f) # qs) s = jwks_run c qs (snd (jwks_step c q f s))"

fun in_order :: "rat \<Rightarrow> (jwks_call \<times> fetching) list \<Rightarrow> bool" where
  "in_order t [] \<longleftrightarrow> True"
| "in_order t ((q, f) # qs) \<longleftrightarrow> t \<le> fe_at f \<and> fe_at f \<le> fe_after f \<and> in_order (fe_after f) qs"

definition after_fetch :: "'k jwks_config \<Rightarrow> fetching \<Rightarrow> 'k jwks \<Rightarrow> 'k jwks" where
  "after_fetch c f s =
     (case fetched c f of
        None \<Rightarrow> s\<lparr>jk_requests := fe_at f # jk_requests s, jk_failed_at := Some (fe_after f)\<rparr>
      | Some ks \<Rightarrow> s\<lparr>jk_requests := fe_at f # jk_requests s, jk_keys := Some ks,
                 jk_fetched_at := fe_at f, jk_failed_at := None\<rparr>)"

definition window_open :: "'k jwks_config \<Rightarrow> rat \<Rightarrow> 'k jwks \<Rightarrow> bool" where
  "window_open c now s \<longleftrightarrow> (\<forall>t. jk_provoked_at s = Some t \<longrightarrow> jc_min_refetch_seconds c \<le> now - t)"

lemma refresh_keys_state:
  "snd (refresh_keys c f s) = (if may_fetch c (fe_at f) s then after_fetch c f s else s)"
  by (simp add: refresh_keys_cases after_fetch_def split: option.split)

lemma claim_refetch_window_cases:
  "claim_refetch_window c now s =
     (if window_open c now s then (Inr (), s\<lparr>jk_provoked_at := Some now\<rparr>)
      else (Inl (ClientAuthenticationError BAD_CLIENT_TOKEN), s))"
  by (auto simp: claim_refetch_window_def window_open_def not_le not_less split: option.split)

text \<open>Looking a key up, in one equation.\<close>

definition resolve_key :: "'k jwks_config \<Rightarrow> string \<Rightarrow> fetching \<Rightarrow> 'k jwks \<Rightarrow> client_error + 'k" where
  "resolve_key c kid f s =
     (case (if may_fetch c (fe_at f) s then fetched c f else None) of
        Some ks \<Rightarrow> (case key_in ks kid of None \<Rightarrow> Inl (ClientAuthenticationError BAD_CLIENT_TOKEN) | Some k \<Rightarrow> Inr k)
      | None \<Rightarrow> (case stale_key c (fe_after f) kid s of None \<Rightarrow> Inl (KeyringUnreachableError KEYS_UNAVAILABLE) | Some k \<Rightarrow> Inr k))"

lemma stale_key_rest [simp]:
  "stale_key c now kid (s\<lparr>jk_requests := r, jk_failed_at := t\<rparr>) = stale_key c now kid s"
  "stale_key c now kid (s\<lparr>jk_provoked_at := p\<rparr>) = stale_key c now kid s"
  "stale_key c now kid (s\<lparr>jk_requests := r, jk_failed_at := t, jk_provoked_at := p\<rparr>) = stale_key c now kid s"
  by (cases "jk_keys s"; simp add: stale_key_def usable_stale_keys_def)+

lemma key_for_refresh:
  "handling is_keyring_unreachable
      (\<lambda>e. andthen (reading (stale_key c (fe_after f) kid)) (\<lambda>stale. case stale of None \<Rightarrow> raise e | Some key \<Rightarrow> ret key))
      (andthen (refresh_keys c f) (\<lambda>fetched. case key_in fetched kid of
         None \<Rightarrow> raise (ClientAuthenticationError BAD_CLIENT_TOKEN) | Some key \<Rightarrow> ret key)) s =
   (resolve_key c kid f s, if may_fetch c (fe_at f) s then after_fetch c f s else s)"
  by (auto simp: txn_simps refresh_keys_cases resolve_key_def after_fetch_def split: option.splits)

lemma key_for_locked_cases:
  "key_for_locked c kid f s =
     (case cached c (fe_at f) kid s of
        Some k \<Rightarrow> (Inr k, s)
      | None \<Rightarrow>
          if fresh_keys c (fe_at f) s = None
          then (resolve_key c kid f s, if may_fetch c (fe_at f) s then after_fetch c f s else s)
          else if \<not> window_open c (fe_at f) s then (Inl (ClientAuthenticationError BAD_CLIENT_TOKEN), s)
          else let s1 = s\<lparr>jk_provoked_at := Some (fe_at f)\<rparr> in
            (resolve_key c kid f s1, if may_fetch c (fe_at f) s1 then after_fetch c f s1 else s1))"
proof (cases "cached c (fe_at f) kid s")
  case None
  then show ?thesis
    by (simp add: key_for_locked_def andthen_simp [of "reading _"] reading_simp
        andthen_simp [of "claim_refetch_window _ _"] andthen_simp [of "ret _"] ret_simp
        claim_refetch_window_cases key_for_refresh Let_def)
next
  case (Some k)
  then show ?thesis by (simp add: key_for_locked_def txn_simps)
qed

lemma healthy_locked_state:
  "snd (healthy_locked c f s) = (if may_fetch c (fe_at f) s then after_fetch c f s else s)"
  by (auto simp: healthy_locked_def txn_simps refresh_keys_cases after_fetch_def split: option.split)

lemma abandoned_refresh_state:
  "snd (abandoned_refresh c f s) =
     (if may_fetch c (fe_at f) s then s\<lparr>jk_requests := fe_at f # jk_requests s\<rparr> else s)"
  by (auto simp: abandoned_refresh_def may_fetch_def txn_simps not_le not_less split: option.split)

text \<open>A call that does not see its request through has done no more than ask and take the window.\<close>

lemma abandoned_lookup_state:
  "\<exists>rs. snd (abandoned_lookup c kid f s) = s\<lparr>jk_requests := rs\<rparr>
     \<or> snd (abandoned_lookup c kid f s) = s\<lparr>jk_requests := rs, jk_provoked_at := Some (fe_at f)\<rparr>"
proof (cases "cached c (fe_at f) kid s")
  case (Some k)
  then show ?thesis by (intro exI [of _ "jk_requests s"]) (simp add: abandoned_lookup_def txn_simps)
next
  case None
  have step: "\<exists>rs. snd (abandoned_refresh c f t) = t\<lparr>jk_requests := rs\<rparr>" for t :: "'a jwks"
    unfolding abandoned_refresh_state by (cases t) auto
  let ?t = "s\<lparr>jk_provoked_at := Some (fe_at f)\<rparr>"
  from step [of s] obtain rs where rs: "snd (abandoned_refresh c f s) = s\<lparr>jk_requests := rs\<rparr>" by blast
  from step [of ?t] obtain rt where rt: "snd (abandoned_refresh c f ?t) = ?t\<lparr>jk_requests := rt\<rparr>" by blast
  consider "fresh_keys c (fe_at f) s = None"
    | "fresh_keys c (fe_at f) s \<noteq> None" "window_open c (fe_at f) s"
    | "fresh_keys c (fe_at f) s \<noteq> None" "\<not> window_open c (fe_at f) s" by blast
  then show ?thesis
  proof cases
    case 1
    with None rs show ?thesis by (intro exI [of _ rs]) (simp add: abandoned_lookup_def txn_simps)
  next
    case 2
    with None rt show ?thesis
      by (intro exI [of _ rt]) (auto simp: abandoned_lookup_def txn_simps claim_refetch_window_cases)
  next
    case 3
    with None show ?thesis
      by (intro exI [of _ "jk_requests s"]) (auto simp: abandoned_lookup_def txn_simps claim_refetch_window_cases)
  qed
qed

lemma healthy_cases:
  "healthy c (fe_at f) (ret ()) f s =
     (if fresh_keys c (fe_at f) s \<noteq> None then (Inr (True, None), s)
      else if may_fetch c (fe_at f) s
      then (case fetched c f of
              Some ks \<Rightarrow> Inr (True, None)
            | None \<Rightarrow> Inr (stale_health c (fe_after f) s), after_fetch c f s)
      else (Inr (stale_health c (fe_after f) s), s))"
  by (auto simp: healthy_def healthy_locked_def txn_simps refresh_keys_cases after_fetch_def stale_health_def
      usable_stale_keys_def split: option.splits)

end
