(* ===== verification/JwksFacts.thy ===== *)
theory JwksFacts
  imports Jwks
begin

text \<open>
  What the key cache guarantees: how often it asks, how old a key it serves can be, what an
  outage does, and which of the two errors a caller sees.
\<close>

section \<open>How often it asks\<close>

text \<open>Of any three requests, the last goes out at least \<open>m\<close> after the first (newest first).\<close>

fun spaced :: "rat \<Rightarrow> rat list \<Rightarrow> bool" where
  "spaced m (a # b # e # rs) \<longleftrightarrow> m \<le> a - e \<and> spaced m (b # e # rs)"
| "spaced m rs \<longleftrightarrow> True"

text \<open>
  The calls that look at the cache when they hold the lock, or hold it at once, and see their request
  through; and the requests that go out during them.
\<close>

fun orderly :: "jwks_call \<Rightarrow> bool" where
  "orderly (Lookup kid) \<longleftrightarrow> True"
| "orderly Health \<longleftrightarrow> True"
| "orderly q \<longleftrightarrow> False"

fun orderly_requests :: "'k jwks_config \<Rightarrow> (jwks_call \<times> fetching) list \<Rightarrow> 'k jwks \<Rightarrow> rat list \<Rightarrow> rat list" where
  "orderly_requests c [] s rs = rs"
| "orderly_requests c ((q, f) # qs) s rs =
     (let t = snd (jwks_step c q f s)
      in orderly_requests c qs t (if orderly q \<and> jk_requests t \<noteq> jk_requests s then fe_at f # rs else rs))"

text \<open>The newest of them is no younger than what is known of the last document or the last failure.\<close>

definition polite :: "'k jwks_config \<Rightarrow> rat \<Rightarrow> rat list \<Rightarrow> 'k jwks \<Rightarrow> bool" where
  "polite c now rs s \<longleftrightarrow> spaced (jc_min_refetch_seconds c) rs \<and>
     (case rs of
        [] \<Rightarrow> True
      | r # rest \<Rightarrow> r \<le> now
          \<and> (case jk_failed_at s of Some t \<Rightarrow> r \<le> t | None \<Rightarrow> jk_keys s \<noteq> None \<and> r \<le> jk_fetched_at s)
          \<and> (case rest of [] \<Rightarrow> True
             | p # _ \<Rightarrow> p \<le> r \<and> (r - p < jc_min_refetch_seconds c \<longrightarrow> (\<exists>v. jk_provoked_at s = Some v \<and> r \<le> v))))"

lemma polite_start: "polite c now [] s"
  by (simp add: polite_def)

lemma polite_later: "polite c now rs s \<Longrightarrow> now \<le> t \<Longrightarrow> polite c t rs s"
  by (auto simp: polite_def split: list.splits option.splits)

lemma polite_asked [simp]:
  "polite c now rs (s\<lparr>jk_requests := x\<rparr>) = polite c now rs s"
  "polite c now rs (s\<lparr>jk_requests := x, jk_provoked_at := y\<rparr>) = polite c now rs (s\<lparr>jk_provoked_at := y\<rparr>)"
  by (auto simp: polite_def split: list.splits option.splits)

lemma polite_provoked:
  "polite c now rs s \<Longrightarrow> now \<le> t \<Longrightarrow> polite c t rs (s\<lparr>jk_provoked_at := Some t\<rparr>)"
  by (auto simp: polite_def split: list.splits option.splits)

text \<open>A request that is not counted leaves the counted ones as they were.\<close>

lemma polite_uncounted:
  assumes "polite c now rs s" and "now \<le> fe_at f" and "fe_at f \<le> fe_after f"
  shows "polite c (fe_after f) rs (after_fetch c f s)"
  using assms by (auto simp: polite_def after_fetch_def split: list.splits option.splits)

text \<open>One request: nothing fresh is held, or the window for unknown ids has been taken.\<close>

lemma polite_fetch:
  assumes p: "polite c now rs s" and le: "now \<le> fe_at f" "fe_at f \<le> fe_after f"
    and may: "may_fetch c (fe_at f) s"
    and why: "fresh_keys c (fe_at f) s = None \<and> s' = s
      \<or> window_open c (fe_at f) s \<and> s' = s\<lparr>jk_provoked_at := Some (fe_at f)\<rparr>"
    and m: "jc_min_refetch_seconds c \<le> jc_cache_seconds c"
  shows "polite c (fe_after f) (fe_at f # rs) (after_fetch c f s')"
proof -
  let ?m = "jc_min_refetch_seconds c"
  have out: "case jk_failed_at (after_fetch c f s') of Some t \<Rightarrow> fe_at f \<le> t
      | None \<Rightarrow> jk_keys (after_fetch c f s') \<noteq> None \<and> fe_at f \<le> jk_fetched_at (after_fetch c f s')"
    using le(2) by (simp add: after_fetch_def split: option.split)
  have prov: "jk_provoked_at (after_fetch c f s') = jk_provoked_at s'"
    by (simp add: after_fetch_def split: option.split)
  show ?thesis
  proof (cases rs)
    case Nil
    with out le show ?thesis by (simp add: polite_def)
  next
    case (Cons r rest)
    note p' = p [unfolded polite_def Cons list.case]
    have r: "r \<le> fe_at f" using p' le(1) by simp
    have gap: "?m \<le> fe_at f - r \<or> jk_provoked_at s' = Some (fe_at f) \<and> window_open c (fe_at f) s"
    proof (cases "jk_failed_at s")
      case None
      then have held: "jk_keys s \<noteq> None" "r \<le> jk_fetched_at s" using p' by simp_all
      from why show ?thesis
      proof
        assume "fresh_keys c (fe_at f) s = None \<and> s' = s"
        then have "jc_cache_seconds c \<le> fe_at f - jk_fetched_at s"
          using held by (auto simp: fresh_keys_def split: if_splits)
        with m held(2) show ?thesis by linarith
      qed simp
    next
      case (Some t)
      with p' may show ?thesis by (auto simp: may_fetch_def)
    qed
    have three: "?m \<le> fe_at f - p" if rest: "rest = p # rest'" for p rest'
    proof (cases "?m \<le> fe_at f - r")
      case True
      have "p \<le> r" using p' rest by simp
      with True show ?thesis by linarith
    next
      case False
      with gap have w: "window_open c (fe_at f) s" by simp
      show ?thesis
      proof (cases "r - p < ?m")
        case True
        then obtain v where "jk_provoked_at s = Some v" "r \<le> v" using p' [unfolded rest list.case] by blast
        with w False show ?thesis by (auto simp: window_open_def)
      next
        case False
        with r show ?thesis by linarith
      qed
    qed
    have "spaced ?m (fe_at f # r # rest)"
      using p' three by (cases rest) simp_all
    moreover have "fe_at f - r < ?m \<longrightarrow> jk_provoked_at (after_fetch c f s') = Some (fe_at f)"
      using gap prov by auto
    ultimately show ?thesis using out r le Cons by (simp add: polite_def)
  qed
qed

text \<open>Each call asks at most once, and keeps the counted requests apart.\<close>

lemma after_fetch_requests [simp]: "jk_requests (after_fetch c f s) = fe_at f # jk_requests s"
  by (simp add: after_fetch_def split: option.split)

lemma polite_step:
  assumes p: "polite c now rs s" and le: "now \<le> fe_at f" "fe_at f \<le> fe_after f"
    and m: "jc_min_refetch_seconds c \<le> jc_cache_seconds c" and t: "t = snd (jwks_step c q f s)"
  shows "polite c (fe_after f) (if orderly q \<and> jk_requests t \<noteq> jk_requests s then fe_at f # rs else rs) t"
proof -
  have later: "polite c (fe_after f) rs s" "polite c (fe_at f) rs s" using polite_later [OF p] le by simp_all
  note taken = polite_later [OF polite_provoked [OF p le(1)] le(2)]
  show ?thesis
  proof (cases q)
    case (Lookup kid)
    have eq: "t = snd (key_for_locked c kid f s)"
      by (simp add: t Lookup andthen_simp ret_simp split: prod.split sum.split)
    consider (hit) k where "cached c (fe_at f) kid s = Some k"
      | (cold) "cached c (fe_at f) kid s = None" "fresh_keys c (fe_at f) s = None"
      | (closed) "cached c (fe_at f) kid s = None" "fresh_keys c (fe_at f) s \<noteq> None" "\<not> window_open c (fe_at f) s"
      | (provoked) "cached c (fe_at f) kid s = None" "fresh_keys c (fe_at f) s \<noteq> None" "window_open c (fe_at f) s"
      by fastforce
    then show ?thesis
    proof cases
      case hit with later show ?thesis unfolding eq by (simp add: key_for_locked_cases)
    next
      case cold
      show ?thesis
      proof (cases "may_fetch c (fe_at f) s")
        case True
        then show ?thesis unfolding eq using cold polite_fetch [OF p le True _ m, of s]
          by (simp add: key_for_locked_cases Lookup)
      qed (use later cold in \<open>simp add: eq key_for_locked_cases\<close>)
    next
      case closed with later show ?thesis unfolding eq by (auto simp: key_for_locked_cases)
    next
      case provoked
      let ?s1 = "s\<lparr>jk_provoked_at := Some (fe_at f)\<rparr>"
      have may: "may_fetch c (fe_at f) ?s1 = may_fetch c (fe_at f) s" by (simp add: may_fetch_def)
      show ?thesis
      proof (cases "may_fetch c (fe_at f) s")
        case True
        then show ?thesis unfolding eq using provoked may polite_fetch [OF p le True _ m, of ?s1]
          by (auto simp: key_for_locked_cases Let_def Lookup)
      next
        case False
        then show ?thesis unfolding eq using provoked may taken
          by (auto simp add: key_for_locked_cases Let_def)
      qed
    qed
  next
    case Health
    have eq: "t = snd (healthy c (fe_at f) (ret ()) f s)"
      by (simp add: t Health andthen_simp ret_simp split: prod.split sum.split)
    show ?thesis unfolding eq using later polite_fetch [OF p le _ _ m, of s]
      by (simp add: healthy_cases Health)
  next
    case QueuedHealth
    have eq: "t = snd (healthy_locked c f s)"
      by (simp add: t QueuedHealth andthen_simp ret_simp split: prod.split sum.split)
    show ?thesis using later polite_uncounted [OF p le] by (simp add: QueuedHealth eq healthy_locked_state)
  next
    case (AbandonedLookup kid)
    then show ?thesis using later taken abandoned_lookup_state [of c kid f s] by (auto simp: t)
  next
    case AbandonedHealth
    then show ?thesis using later by (simp add: t abandoned_refresh_state)
  qed
qed

lemma polite_run:
  "polite c now rs s \<Longrightarrow> in_order now qs \<Longrightarrow> jc_min_refetch_seconds c \<le> jc_cache_seconds c \<Longrightarrow>
     spaced (jc_min_refetch_seconds c) (orderly_requests c qs s rs)"
proof (induction qs arbitrary: now s rs)
  case Nil then show ?case by (simp add: polite_def)
next
  case (Cons qf qs)
  obtain q f where qf: "qf = (q, f)" by fastforce
  show ?case using Cons.IH [OF polite_step [OF Cons.prems(1) _ _ Cons.prems(3) refl]] Cons.prems(2,3)
    by (simp add: qf Let_def)
qed

text \<open>When every call is of that kind, these are all the requests there are.\<close>

lemma orderly_asks:
  assumes "orderly q"
  shows "jk_requests (snd (jwks_step c q f s)) = jk_requests s
    \<or> jk_requests (snd (jwks_step c q f s)) = fe_at f # jk_requests s"
proof (cases q)
  case (Lookup kid)
  have "snd (jwks_step c q f s) = snd (key_for_locked c kid f s)"
    by (simp add: Lookup andthen_simp ret_simp split: prod.split sum.split)
  then show ?thesis by (simp add: key_for_locked_cases Let_def split: option.split)
next
  case Health
  have "snd (jwks_step c q f s) = snd (healthy c (fe_at f) (ret ()) f s)"
    by (simp add: Health andthen_simp ret_simp split: prod.split sum.split)
  then show ?thesis by (simp add: healthy_cases)
qed (use assms in simp_all)

lemma orderly_all:
  "list_all (\<lambda>(q, f). orderly q) qs \<Longrightarrow> orderly_requests c qs s (jk_requests s) = jk_requests (jwks_run c qs s)"
proof (induction qs arbitrary: s)
  case (Cons qf qs)
  obtain q f where qf: "qf = (q, f)" by fastforce
  with Cons.prems have q: "orderly q" and rest: "list_all (\<lambda>(q, f). orderly q) qs" by simp_all
  show ?case using orderly_asks [OF q, of c f s] Cons.IH [OF rest, of "snd (jwks_step c q f s)"] q
    by (auto simp: qf Let_def)
qed simp

lemma spaced_nth: "spaced m rs \<Longrightarrow> i + 2 < length rs \<Longrightarrow> m \<le> rs ! i - rs ! (i + 2)"
proof (induction m rs arbitrary: i rule: spaced.induct)
  case (1 m a b e rs)
  then show ?case by (cases i) auto
qed simp_all

section \<open>Two health checks that wait for each other both ask\<close>

text \<open>A health check does not look at the cache again once it holds the lock.\<close>

lemma queued_health_checks:
  assumes "fresh_keys c now s = None" and "may_fetch c (fe_at f1) s" and "fetched c f1 = Some ks"
  shows "jk_requests (snd (healthy c now (andthen (healthy_locked c f1) (\<lambda>_. ret ())) f2 s)) = fe_at f2 # fe_at f1 # jk_requests s"
  using assms
  by (simp add: healthy_def healthy_locked_def txn_simps refresh_keys_cases may_fetch_def split: option.split)

section \<open>How old a key may be\<close>

lemma key_in_set: "key_in ks kid = Some k \<Longrightarrow> (kid, k) \<in> set ks"
  by (simp add: key_in_def map_of_SomeD)

definition served_from :: "'k jwks \<Rightarrow> string \<Rightarrow> 'k \<Rightarrow> rat \<Rightarrow> bool" where
  "served_from s kid k asked_at \<longleftrightarrow> (\<exists>ks. jk_keys s = Some ks \<and> key_in ks kid = Some k) \<and> jk_fetched_at s = asked_at"

lemma cached_served:
  "cached c now kid s = Some k \<Longrightarrow> served_from s kid k (jk_fetched_at s) \<and> now - jk_fetched_at s < jc_cache_seconds c"
  by (auto simp: cached_def fresh_keys_def served_from_def split: option.splits if_splits)

lemma stale_served:
  "stale_key c now kid s = Some k \<Longrightarrow> served_from s kid k (jk_fetched_at s)
     \<and> now - jk_fetched_at s < jc_cache_seconds c + jc_stale_grace_seconds c"
  by (auto simp: stale_key_def usable_stale_keys_def served_from_def split: option.splits if_splits)

lemma resolve_served:
  assumes "resolve_key c kid f s = Inr k"
    and s': "s' = (if may_fetch c (fe_at f) s then after_fetch c f s else s)"
  shows "served_from s' kid k (jk_fetched_at s')
    \<and> (jk_fetched_at s' = fe_at f \<or> fe_after f - jk_fetched_at s' < jc_cache_seconds c + jc_stale_grace_seconds c)"
proof (cases "if may_fetch c (fe_at f) s then fetched c f else None")
  case None
  then have st: "stale_key c (fe_after f) kid s = Some k" using assms(1) by (simp add: resolve_key_def split: option.splits)
  have "jk_keys s' = jk_keys s \<and> jk_fetched_at s' = jk_fetched_at s"
    using None by (auto simp: s' after_fetch_def split: if_splits)
  with stale_served [OF st] show ?thesis by (simp add: served_from_def)
next
  case (Some ks)
  then have may: "may_fetch c (fe_at f) s" "fetched c f = Some ks" by (simp_all split: if_splits)
  with assms(1) have "key_in ks kid = Some k" by (simp add: resolve_key_def split: option.splits)
  with may show ?thesis by (simp add: s' after_fetch_def served_from_def)
qed

lemma key_for_locked_served:
  assumes "key_for_locked c kid f s = (Inr k, t)" and "0 \<le> jc_stale_grace_seconds c"
  shows "served_from t kid k (jk_fetched_at t)
    \<and> (jk_fetched_at t = fe_at f \<or> fe_at f - jk_fetched_at t < jc_cache_seconds c
       \<or> fe_after f - jk_fetched_at t < jc_cache_seconds c + jc_stale_grace_seconds c)"
proof (cases "cached c (fe_at f) kid s")
  case (Some k')
  with assms(1) have "k' = k" "t = s" by (simp_all add: key_for_locked_cases)
  with cached_served [OF Some] show ?thesis by simp
next
  case None
  let ?s1 = "if fresh_keys c (fe_at f) s = None then s else s\<lparr>jk_provoked_at := Some (fe_at f)\<rparr>"
  from None assms(1) have r: "resolve_key c kid f ?s1 = Inr k"
    and t: "t = (if may_fetch c (fe_at f) ?s1 then after_fetch c f ?s1 else ?s1)"
    by (auto simp: key_for_locked_cases Let_def split: if_splits)
  from resolve_served [OF r t] show ?thesis by blast
qed

section \<open>Outages\<close>

text \<open>A key that is held answers through an outage until its grace is over.\<close>

lemma outage_served:
  assumes "jk_keys s = Some ks" and "key_in ks kid = Some k"
    and "fe_at f \<le> fe_after f" and "fe_after f - jk_fetched_at s < jc_cache_seconds c + jc_stale_grace_seconds c"
    and "fetched c f = None"
  shows "fst (key_for_locked c kid f s) = Inr k"
proof (cases "fresh_keys c (fe_at f) s")
  case None
  have "stale_key c (fe_after f) kid s = Some k"
    using assms by (simp add: stale_key_def usable_stale_keys_def)
  then have "resolve_key c kid f s = Inr k" using assms(5) by (simp add: resolve_key_def)
  moreover have "cached c (fe_at f) kid s = None" using None by (simp add: cached_def)
  ultimately show ?thesis using None by (simp add: key_for_locked_cases)
next
  case (Some held)
  then have "held = ks" using assms(1) by (auto simp: fresh_keys_def split: if_splits)
  then have "cached c (fe_at f) kid s = Some k" using Some assms(2) by (simp add: cached_def)
  then show ?thesis by (simp add: key_for_locked_cases)
qed

text \<open>
  A token is blamed only on the word of a document: one that just came, or one that is fresh.
  Nothing but a refused or failed fetch is called an outage.
\<close>

lemma key_for_locked_Inl:
  assumes "key_for_locked c kid f s = (Inl e, t)"
  shows "e = ClientAuthenticationError BAD_CLIENT_TOKEN \<and>
      (\<exists>ks. key_in ks kid = None \<and> (fetched c f = Some ks \<or> fresh_keys c (fe_at f) s = Some ks))
    \<or> e = KeyringUnreachableError KEYS_UNAVAILABLE \<and> stale_key c (fe_after f) kid s = None
      \<and> (fetched c f = None \<or> \<not> may_fetch c (fe_at f) s)"
proof -
  have none: "cached c (fe_at f) kid s = None" using assms by (cases "cached c (fe_at f) kid s") (simp_all add: key_for_locked_cases)
  let ?s1 = "s\<lparr>jk_provoked_at := Some (fe_at f)\<rparr>"
  have may: "may_fetch c (fe_at f) ?s1 = may_fetch c (fe_at f) s" by (simp add: may_fetch_def)
  have same: "resolve_key c kid f ?s1 = resolve_key c kid f s" by (simp only: resolve_key_def may stale_key_rest)
  have res: "e = ClientAuthenticationError BAD_CLIENT_TOKEN \<and> (\<exists>ks. key_in ks kid = None \<and> fetched c f = Some ks)
    \<or> e = KeyringUnreachableError KEYS_UNAVAILABLE \<and> stale_key c (fe_after f) kid s = None
      \<and> (fetched c f = None \<or> \<not> may_fetch c (fe_at f) s)" if "resolve_key c kid f s = Inl e"
    using that by (auto simp: resolve_key_def split: option.splits if_splits)
  show ?thesis
  proof (cases "fresh_keys c (fe_at f) s")
    case None
    with assms none have "resolve_key c kid f s = Inl e" by (simp add: key_for_locked_cases)
    from res [OF this] show ?thesis by blast
  next
    case (Some held)
    then have lacks: "key_in held kid = None" using none by (simp add: cached_def)
    show ?thesis
    proof (cases "window_open c (fe_at f) s")
      case True
      with Some assms none same have "resolve_key c kid f s = Inl e"
        by (simp add: key_for_locked_cases Let_def)
      from res [OF this] show ?thesis by blast
    next
      case False
      with Some assms none have "e = ClientAuthenticationError BAD_CLIENT_TOKEN" by (simp add: key_for_locked_cases)
      with Some lacks show ?thesis by blast
    qed
  qed
qed

end
