(* ===== verification/TokenVerifier.thy ===== *)
theory TokenVerifier
  imports JwksFacts Signing
begin

text \<open>
  \<^verbatim>\<open>src/clients/python/keyring_client/tokens.py\<close>: how a consuming service turns a token into an
  account and an audience. PyJWT is three functions: the unverified header, the unverified
  payload, and the payload of a token whose signature under the key and the pinned algorithm is
  good, which names the audience and the issuer asked for and carries every required claim.
\<close>

section \<open>Audiences\<close>

definition AUDIENCE_SEPARATOR :: char where "AUDIENCE_SEPARATOR = CHR ''.''"

datatype audience_policy = ExactAudience string | AudienceFamily string

fun policy_accepts :: "audience_policy \<Rightarrow> string \<Rightarrow> bool" where
  "policy_accepts (ExactAudience name) audience \<longleftrightarrow> audience = name"
| "policy_accepts (AudienceFamily pre) audience \<longleftrightarrow>
     audience = pre \<or> take (length pre + 1) audience = pre @ [AUDIENCE_SEPARATOR]"

definition compartment_of :: "string \<Rightarrow> string \<Rightarrow> string option" where
  "compartment_of pre audience =
     (let head = takeWhile (\<lambda>c. c \<noteq> AUDIENCE_SEPARATOR) audience in
      if AUDIENCE_SEPARATOR \<notin> set audience \<or> head \<noteq> pre then None
      else Some (drop (length head + 1) audience))"

definition check_audience_name :: "string \<Rightarrow> client_error + string" where
  "check_audience_name name =
     (if name = [] \<or> strip name \<noteq> name \<or> AUDIENCE_SEPARATOR \<in> set name
      then Inl (ClientValueError [''audience '', py_repr name, '' must be non-empty, trimmed, and contain no dot''])
      else Inr name)"

text \<open>\<open>__post_init__\<close>: a policy that was built has a good name.\<close>

fun checked_policy :: "audience_policy \<Rightarrow> client_error + audience_policy" where
  "checked_policy (ExactAudience name) =
     (case check_audience_name name of Inl e \<Rightarrow> Inl e | Inr n \<Rightarrow> Inr (ExactAudience n))"
| "checked_policy (AudienceFamily pre) =
     (case check_audience_name pre of Inl e \<Rightarrow> Inl e | Inr n \<Rightarrow> Inr (AudienceFamily n))"

lemma compartment_of_Some:
  assumes "AUDIENCE_SEPARATOR \<notin> set pre"
  shows "compartment_of pre audience = Some part \<longleftrightarrow> audience = pre @ AUDIENCE_SEPARATOR # part"
proof
  assume "compartment_of pre audience = Some part"
  then have sep: "AUDIENCE_SEPARATOR \<in> set audience"
    and head: "takeWhile (\<lambda>c. c \<noteq> AUDIENCE_SEPARATOR) audience = pre"
    and part: "part = drop (length pre + 1) audience"
    by (auto simp: compartment_of_def Let_def split: if_splits)
  obtain c rest where rest: "dropWhile (\<lambda>c. c \<noteq> AUDIENCE_SEPARATOR) audience = c # rest" "c = AUDIENCE_SEPARATOR"
    using sep by (metis (mono_tags, lifting) dropWhile_eq_Nil_conv hd_dropWhile list.exhaust list.sel(1))
  have "audience = pre @ AUDIENCE_SEPARATOR # rest"
    using takeWhile_dropWhile_id [of "\<lambda>c. c \<noteq> AUDIENCE_SEPARATOR" audience] head rest by simp
  with part show "audience = pre @ AUDIENCE_SEPARATOR # part" by simp
next
  assume eq: "audience = pre @ AUDIENCE_SEPARATOR # part"
  have "takeWhile (\<lambda>c. c \<noteq> AUDIENCE_SEPARATOR) audience = pre"
    using assms unfolding eq by (subst takeWhile_append2) auto
  then show "compartment_of pre audience = Some part"
    by (simp add: compartment_of_def Let_def) (simp add: eq)
qed

text \<open>A family is its head and its compartments, and never another name it is the start of.\<close>

lemma family_accepts:
  assumes "AUDIENCE_SEPARATOR \<notin> set pre"
  shows "policy_accepts (AudienceFamily pre) audience \<longleftrightarrow> audience = pre \<or> compartment_of pre audience \<noteq> None"
proof -
  have "take (length pre + 1) audience = pre @ [AUDIENCE_SEPARATOR] \<longleftrightarrow> (\<exists>part. audience = pre @ AUDIENCE_SEPARATOR # part)"
  proof
    assume "take (length pre + 1) audience = pre @ [AUDIENCE_SEPARATOR]"
    then have "audience = (pre @ [AUDIENCE_SEPARATOR]) @ drop (length pre + 1) audience"
      by (metis append_take_drop_id)
    then show "\<exists>part. audience = pre @ AUDIENCE_SEPARATOR # part" by auto
  qed auto
  then show ?thesis using compartment_of_Some [OF assms] by auto
qed

section \<open>Verifying\<close>

record verified_identity =
  vi_account_id :: string
  vi_audience :: string

type_synonym payload = "(string \<times> document) list"

record 'k jwt =
  jw_header :: "string \<Rightarrow> payload option"
  jw_payload :: "string \<Rightarrow> payload option"
  jw_decode :: "'k \<Rightarrow> string \<Rightarrow> string \<Rightarrow> string \<Rightarrow> payload option" \<comment> \<open>key, token, audience, issuer\<close>

definition refused :: "client_error + 'a" where
  "refused = Inl (ClientAuthenticationError BAD_CLIENT_TOKEN)"

definition kid_of :: "'k jwt \<Rightarrow> string \<Rightarrow> client_error + string" where
  "kid_of j token =
     (case jw_header j token of
        None \<Rightarrow> refused
      | Some header \<Rightarrow>
          (case map_of header ''kid'' of
             Some (DText kid) \<Rightarrow> if kid = [] then refused else Inr kid
           | _ \<Rightarrow> refused))"

definition audience_of :: "'k jwt \<Rightarrow> string \<Rightarrow> client_error + string" where
  "audience_of j token =
     (case jw_payload j token of
        None \<Rightarrow> refused
      | Some unverified \<Rightarrow> (case map_of unverified ''aud'' of Some (DText a) \<Rightarrow> Inr a | _ \<Rightarrow> refused))"

text \<open>The checks of the verified claims, against the clock of the service.\<close>

definition check_claims :: "int \<Rightarrow> audience_policy \<Rightarrow> payload \<Rightarrow> client_error + verified_identity" where
  "check_claims now policy claims =
     (case map_of claims ''exp'' of
        Some (DNumber expires) \<Rightarrow>
          if of_int now / 1000000 \<ge> expires then refused
          else (case map_of claims ''sub'' of
            Some (DText account_id) \<Rightarrow>
              if account_id = [] then refused
              else (case map_of claims ''aud'' of
                Some (DText audience) \<Rightarrow>
                  if policy_accepts policy audience
                  then Inr \<lparr>vi_account_id = account_id, vi_audience = audience\<rparr> else refused
              | _ \<Rightarrow> refused)
          | _ \<Rightarrow> refused)
      | _ \<Rightarrow> refused)"

definition check_token ::
  "'k jwt \<Rightarrow> string \<Rightarrow> int \<Rightarrow> 'k \<Rightarrow> string \<Rightarrow> audience_policy \<Rightarrow> client_error + verified_identity" where
  "check_token j issuer now key token policy =
     (case audience_of j token of
        Inl e \<Rightarrow> Inl e
      | Inr asserted \<Rightarrow>
          (case jw_decode j key token asserted issuer of
             None \<Rightarrow> refused
           | Some claims \<Rightarrow> check_claims now policy claims))"

definition verify_token ::
  "'k jwt \<Rightarrow> string \<Rightarrow> int \<Rightarrow> 'k jwks_config \<Rightarrow> rat \<Rightarrow> ('k, unit) jop \<Rightarrow> fetching \<Rightarrow> string \<Rightarrow> audience_policy
    \<Rightarrow> ('k, verified_identity) jop" where
  "verify_token j issuer now c monotonic interlude f token policy =
     andthen (of_result (kid_of j token)) (\<lambda>kid.
     andthen (key_for c kid monotonic interlude f) (\<lambda>key.
     of_result (check_token j issuer now key token policy)))"

section \<open>Facts\<close>

lemma check_claims_Inl: "check_claims now policy claims = Inl e \<Longrightarrow> e = ClientAuthenticationError BAD_CLIENT_TOKEN"
  by (auto simp: check_claims_def refused_def split: option.splits document.splits if_splits)

lemma check_token_Inl: "check_token j iss now k t policy = Inl e \<Longrightarrow> e = ClientAuthenticationError BAD_CLIENT_TOKEN"
  by (auto simp: check_token_def audience_of_def refused_def dest: check_claims_Inl
      split: option.splits document.splits sum.splits)

lemma check_claims_Inr:
  "check_claims now policy claims = Inr v \<Longrightarrow>
     policy_accepts policy (vi_audience v) \<and> vi_account_id v \<noteq> []
     \<and> map_of claims ''sub'' = Some (DText (vi_account_id v)) \<and> map_of claims ''aud'' = Some (DText (vi_audience v))
     \<and> (\<exists>x. map_of claims ''exp'' = Some (DNumber x) \<and> of_int now / 1000000 < x)"
  by (auto simp: check_claims_def refused_def split: option.splits document.splits if_splits)

text \<open>What the documentation of PyJWT says of a token the service signed, checked with its key.\<close>

definition claims_document :: "claims \<Rightarrow> payload" where
  "claims_document c = [(''iss'', DText (cl_iss c)), (''sub'', DText (cl_sub c)), (''aud'', DText (cl_aud c)),
     (''iat'', DNumber (of_int (cl_iat c))), (''exp'', DNumber (of_int (cl_exp c)))]"

definition publishes :: "'k jwt \<Rightarrow> signer \<Rightarrow> string \<Rightarrow> 'k \<Rightarrow> bool" where
  "publishes j g kid key \<longleftrightarrow> kid \<noteq> [] \<and> (\<forall>c.
     jw_header j (sg_encode g c) = Some [(''kid'', DText kid)]
     \<and> jw_payload j (sg_encode g c) = Some (claims_document c)
     \<and> (\<forall>aud iss. jw_decode j key (sg_encode g c) aud iss =
          (if aud = cl_aud c \<and> iss = cl_iss c then Some (claims_document c) else None)))"

lemma kid_of_issued: "publishes j g kid key \<Longrightarrow> kid_of j (issue g now a aud ttl) = Inr kid"
  by (simp add: publishes_def issue_def kid_of_def)

lemma seconds_le: "of_int e \<le> (of_int now / 1000000 :: rat) \<longleftrightarrow> timedelta_s e \<le> now"
proof -
  have "(of_int e :: rat) \<le> of_int now / 1000000 \<longleftrightarrow> of_int (e * 1000000) \<le> (of_int now :: rat)"
    by (simp add: pos_le_divide_eq)
  also have "\<dots> \<longleftrightarrow> e * 1000000 \<le> now" by (rule of_int_le_iff)
  finally show ?thesis by (simp add: timedelta_s_def mult.commute)
qed

text \<open>The client accepts what was minted until it expires.\<close>

lemma check_issued:
  assumes "publishes j g kid key" and "a \<noteq> []"
  shows "check_token j (sg_issuer g) later key (issue g now a aud ttl) policy =
    (if policy_accepts policy aud \<and> later < timedelta_s (int_seconds (now + timedelta_s ttl))
     then Inr \<lparr>vi_account_id = a, vi_audience = aud\<rparr> else refused)"
proof -
  let ?c = "claims_of g now a aud ttl"
  have aud: "audience_of j (sg_encode g ?c) = Inr aud"
    using assms(1) by (simp add: publishes_def audience_of_def claims_document_def claims_of_def)
  have dec: "jw_decode j key (sg_encode g ?c) aud (sg_issuer g) = Some (claims_document ?c)"
    using assms(1) by (simp add: publishes_def claims_of_def)
  have ver: "later < timedelta_s (int_seconds (now + timedelta_s ttl)) \<longleftrightarrow> \<not> timedelta_s (cl_exp ?c) \<le> later"
    by (simp add: claims_of_def not_le)
  have chk: "check_claims later policy (claims_document ?c) =
      (if \<not> timedelta_s (cl_exp ?c) \<le> later \<and> policy_accepts policy aud then Inr \<lparr>vi_account_id = a, vi_audience = aud\<rparr> else refused)"
    using assms(2) seconds_le [of "cl_exp ?c" later]
    by (simp add: check_claims_def claims_document_def) (simp add: claims_of_def)
  show ?thesis unfolding issue_def check_token_def aud ver by (auto simp: dec chk)
qed

end
