(* ===== verification/DelegationSample.thy ===== *)
theory DelegationSample
  imports VaultSample Revocation TokenVerifier
begin

text \<open>
  Delegation in the sample deployment: the service mail may exchange for two audiences, the member
  has consented to one grant, and tokens are a readable encoding of their claims under one key.
\<close>

section \<open>Tokens\<close>

definition write_text :: "string \<Rightarrow> string" where
  "write_text s = replicate (length s) CHR ''1'' @ CHR ''0'' # s"

definition write_int :: "int \<Rightarrow> string" where
  "write_int i = (if i < 0 then CHR ''-'' else CHR ''+'') # replicate (nat \<bar>i\<bar>) CHR ''1'' @ ''0''"

definition read_text :: "string \<Rightarrow> string \<times> string" where
  "read_text t = (let n = length (takeWhile (\<lambda>c. c = CHR ''1'') t); r = drop (n + 1) t in (take n r, drop n r))"

definition read_int :: "string \<Rightarrow> int \<times> string" where
  "read_int t = (let n = length (takeWhile (\<lambda>c. c = CHR ''1'') (tl t))
     in (if hd t = CHR ''-'' then - int n else int n, drop (n + 2) t))"

lemma takeWhile_ones: "takeWhile (\<lambda>c. c = CHR ''1'') (replicate n CHR ''1'' @ CHR ''0'' # r) = replicate n CHR ''1''"
  by (induction n) simp_all

lemma read_write_text: "read_text (write_text s @ r) = (s, r)"
  by (simp add: read_text_def write_text_def takeWhile_ones Let_def)

lemma read_write_int: "read_int (write_int i @ r) = (i, r)"
  by (simp add: read_int_def write_int_def takeWhile_ones Let_def)

definition write_claims :: "claims \<Rightarrow> string" where
  "write_claims c = write_text (cl_iss c) @ write_text (cl_sub c) @ write_text (cl_aud c) @ write_int (cl_iat c) @ write_int (cl_exp c)"

definition read_claims :: "string \<Rightarrow> claims" where
  "read_claims t =
     (case read_text t of (iss, t1) \<Rightarrow> case read_text t1 of (sub, t2) \<Rightarrow> case read_text t2 of (aud, t3) \<Rightarrow>
      case read_int t3 of (iat, t4) \<Rightarrow> case read_int t4 of (ex, _) \<Rightarrow>
        \<lparr>cl_iss = iss, cl_sub = sub, cl_aud = aud, cl_iat = iat, cl_exp = ex\<rparr>)"

lemma read_write_claims: "read_claims (write_claims c) = c"
  using read_write_int [of "cl_exp c" "[]"] by (simp add: read_claims_def write_claims_def read_write_text read_write_int)

definition sample_signer :: signer where
  "sample_signer = \<lparr>sg_issuer = ''https://k'', sg_encode = write_claims,
     sg_decode = (\<lambda>t. if t = write_claims (read_claims t) then Some (read_claims t) else None)\<rparr>"

lemma sample_signs: "signs sample_signer"
  by (simp add: signs_def sample_signer_def read_write_claims)

definition sample_jwt :: "nat jwt" where
  "sample_jwt = \<lparr>jw_header = (\<lambda>t. Some [(''kid'', DText ''k1'')]), jw_payload = (\<lambda>t. Some (claims_document (read_claims t))),
     jw_decode = (\<lambda>key t aud iss. let c = read_claims t in
       if key = 7 \<and> t = write_claims c \<and> aud = cl_aud c \<and> iss = cl_iss c then Some (claims_document c) else None)\<rparr>"

lemma sample_publishes: "publishes sample_jwt sample_signer ''k1'' 7"
  by (simp add: publishes_def sample_jwt_def sample_signer_def read_write_claims Let_def)

section \<open>A deployment that delegates\<close>

definition delegating_settings :: settings where
  "delegating_settings = sample_settings\<lparr>st_exchange_audiences := [(''mail'', [''drive'', ''music''])]\<rparr>"

definition delegating_env :: env where
  "delegating_env = sample_env\<lparr>ev_settings := delegating_settings\<rparr>"

definition sample_offline_grant :: offline_grant where
  "sample_offline_grant = \<lparr>og_id = ''g1'', og_account_id = ''m'', og_profile = ''work'', og_service = ''mail'',
     og_audiences = [''drive''], og_created_at = 1, og_expires_at = 60000000, og_revoked_at = None\<rparr>"

definition delegating_state :: vsys where
  "delegating_state = sample_vault_state\<lparr>t_offline_grants := [sample_offline_grant]\<rparr>"

definition delegating_world :: "unit world" where
  "delegating_world = sample_world\<lparr>wo_env := delegating_env\<rparr>"

lemmas delegating_defs = delegating_settings_def delegating_env_def sample_offline_grant_def delegating_state_def
  delegating_world_def

lemma delegating_ok: "db_ok delegating_state"
  using sample_vault_ok
  by (simp add: db_defs delegating_defs vault_sample_defs role_names role_key_def connection_key_def secret_key_def profile_key_def)

lemma delegating_grant: "offline_grant_of ''g1'' delegating_state = Some sample_offline_grant"
  by (simp add: offline_grant_of_def fetch_one_def delegating_defs)


lemma member_active: "active_account ''m'' delegating_state"
  by (simp add: active_account_def delegating_defs vault_eval)

lemma mail_may_exchange: "audiences_of (ev_settings delegating_env) ''mail'' = [''drive'', ''music'']"
  by (simp add: audiences_of_def delegating_defs)

lemma delegating_quiet: "quiet P delegating_world"
  by (simp add: quiet_def delegating_world_def sample_world_def sample_endpoint_keeps)

end
