(* ===== verification/DelegationProperties.thy ===== *)
theory DelegationProperties
  imports DelegationSample Application
begin

text \<open>
  The theorems about delegation: what an exchanged token is good for, that recorded consent works
  and revoked consent never does again, whom a service can act for, and that the database stays
  well formed under every request of the whole service.
\<close>

section \<open>Exchanged tokens\<close>

text \<open>C30: A token that comes out of an exchange is for an audience the service may exchange for and
  for the active account that the user token or the grant names, lives at most as long as asked, as
  the deployment allows and as what was exchanged, and verifies for exactly that audience until
  exactly the instant the answer says, and not before the system's clock has reached its issue.\<close>

theorem exchange_bounded:
  assumes "signs g" and "0 \<le> ev_now w" and "exchange w g sv aud ttl tok i s = (Inr x, t)"
  shows "\<exists>a dl. authorizes w g sv aud tok i s a dl \<and> active_account a s
    \<and> aud \<in> set (audiences_of (ev_settings w) sv)
    \<and> xt_expires_at x \<le> dl \<and> 0 < xt_expires_in x \<and> xt_expires_in x \<le> ttl
    \<and> xt_expires_in x \<le> st_access_token_ttl_seconds (ev_settings w)
    \<and> (\<forall>wall later aud'. verify_access g wall later (xt_token x) aud' =
        (if aud' = aud \<and> timedelta_s (int_seconds (ev_now w)) \<le> wall \<and> later < xt_expires_at x
         then Inr \<lparr>vt_account_id = a, vt_expires_at = xt_expires_at x\<rparr> else Inl (AuthenticationError BAD_TOKEN)))"
proof -
  have "\<exists>t. exchange w g sv aud ttl tok i s = (Inr x, t)" using assms(3) by blast
  then obtain a dl where a: "authorizes w g sv aud tok i s a dl" "active_account a s" "0 < exchange_ttl w ttl dl"
      "aud \<in> set (audiences_of (ev_settings w) sv)" and x: "x = exchanged w g a aud (exchange_ttl w ttl dl)"
    unfolding exchange_iff by blast
  have k: "0 < xt_expires_in x" using a(3) by (simp add: x exchanged_def)
  show ?thesis
    using a k exchanged_expiry(1,2,3) [OF assms(2) a(3) x] exchanged_verifies [OF assms(1,2), of "exchange_ttl w ttl dl" _ _ a aud]
    unfolding x by (intro exI [of _ a] exI [of _ dl]) simp
qed

lemma sample_authorizes:
  "authorizes delegating_env sample_signer ''mail'' ''drive'' None (Some ''g1'') delegating_state ''m'' 60000000"
proof -
  have "delegation_for_exchange ''g1'' ''mail'' delegating_state = Some sample_offline_grant"
    unfolding for_exchange_Some [OF delegating_ok] by (simp add: delegating_grant) (simp add: sample_offline_grant_def)
  then show ?thesis by (simp add: authorizes_def) (simp add: sample_offline_grant_def)
qed

lemma sample_ttl: "exchange_ttl delegating_env 600 60000000 = 59"
  by (simp add: exchange_ttl_def int_seconds_def delegating_defs sample_defs)

lemma sample_exchange:
  "\<exists>t. exchange delegating_env sample_signer ''mail'' ''drive'' 600 None (Some ''g1'') delegating_state
     = (Inr (exchanged delegating_env sample_signer ''m'' ''drive'' 59), t)"
proof -
  have "0 < exchange_ttl delegating_env 600 60000000" by (simp add: sample_ttl)
  then show ?thesis unfolding exchange_iff mail_may_exchange
    by (intro conjI exI [of _ "''m''"] exI [of _ "60000000"]) (simp_all add: sample_authorizes member_active sample_ttl)
qed

theorem exchange_bounded_witness:
  "\<exists>a dl. authorizes delegating_env sample_signer ''mail'' ''drive'' None (Some ''g1'') delegating_state a dl
    \<and> xt_expires_at (exchanged delegating_env sample_signer ''m'' ''drive'' 59) \<le> dl"
proof -
  obtain t where t: "exchange delegating_env sample_signer ''mail'' ''drive'' 600 None (Some ''g1'') delegating_state
     = (Inr (exchanged delegating_env sample_signer ''m'' ''drive'' 59), t)" using sample_exchange by blast
  have "0 \<le> ev_now delegating_env" by (simp add: delegating_defs sample_defs)
  from exchange_bounded [OF sample_signs this t] show ?thesis by blast
qed



section \<open>Consent\<close>

text \<open>C33: Recorded consent works: while its grant lasts, the service named in it can exchange it for
  each audience consented to, and a downstream service whose policy admits the audience reads the
  account from the token for as long as the answer says.\<close>

theorem consent_gives_working_token:
  assumes "db_ok s" and "delegation_create w a n sv auds ttl by s = (Inr gr, t)" and "aud \<in> set auds"
    and "active_account a t" and "a \<noteq> []" and "ev_settings w' = ev_settings w" and "0 \<le> ev_now w'"
    and "1 \<le> want" and "1 \<le> st_access_token_ttl_seconds (ev_settings w)" and "ev_now w' + timedelta_s 1 \<le> og_expires_at gr"
    and "signs g" and "publishes j g kid key" and "policy_accepts policy aud"
  shows "\<exists>x u. exchange w' g sv aud want None (Some (og_id gr)) t = (Inr x, u) \<and> ev_now w' < xt_expires_at x
    \<and> (\<forall>later. later < xt_expires_at x \<longrightarrow>
        check_token j (sg_issuer g) later key (xt_token x) policy = Inr \<lparr>vi_account_id = a, vi_audience = aud\<rparr>)"
proof -
  note cr = delegation_create_Inr [OF assms(1,2)]
  have "offline_grant_of (og_id gr) t = Some gr" using cr(5) by simp
  then have "delegation_for_exchange (og_id gr) sv t = Some gr"
    unfolding for_exchange_Some [OF cr(1)] by (simp add: cr(4))
  then have auth: "authorizes w' g sv aud None (Some (og_id gr)) t a (og_expires_at gr)"
    using assms(3) by (simp add: authorizes_def) (simp add: cr(4))
  let ?k = "exchange_ttl w' want (og_expires_at gr)"
  let ?x = "exchanged w' g a aud ?k"
  have k: "1 \<le> ?k" using assms(6-10) by (simp add: exchange_ttl_def int_seconds_def timedelta_s_def)
  have "\<exists>u. exchange w' g sv aud want None (Some (og_id gr)) t = (Inr ?x, u)"
    unfolding exchange_iff using auth k assms(3,4,6) cr(2) by (intro conjI exI [of _ a] exI [of _ "og_expires_at gr"]) auto
  moreover have "ev_now w' < xt_expires_at ?x"
  proof -
    have "(ev_now w' + timedelta_s ?k) mod 1000000 < 1000000" by simp
    moreover have "timedelta_s 1 \<le> timedelta_s ?k" using k by (simp add: timedelta_s_def)
    ultimately show ?thesis by (simp add: exchanged_def minus_mod_eq_div_mult [symmetric] timedelta_s_def)
  qed
  moreover have "check_token j (sg_issuer g) later key (xt_token ?x) policy = Inr \<lparr>vi_account_id = a, vi_audience = aud\<rparr>"
    if "later < xt_expires_at ?x" for later
  proof -
    have "later < timedelta_s (int_seconds (ev_now w' + timedelta_s ?k))"
      using that assms(7) k by (simp add: exchanged_def int_seconds_def timedelta_s_def)
    then show ?thesis
      using check_issued [OF assms(12,5), of later "ev_now w'" aud ?k policy] assms(13) by (simp add: exchanged_def)
  qed
  ultimately show ?thesis by blast
qed

lemma sample_create:
  "\<exists>gr t. delegation_create delegating_env ''m'' ''work'' ''mail'' [''drive''] 600 by delegating_state = (Inr gr, t)"
  by (rule delegation_create_succeeds [OF delegating_ok])
    (simp_all add: mail_may_exchange, simp_all add: profile_keys_def profile_key_def offline_grant_of_def fetch_one_def
      unrevoked_grants_def count_where_def select_where_def delegating_defs vault_sample_defs)

theorem consent_gives_working_token_witness:
  "\<exists>gr t x u. delegation_create delegating_env ''m'' ''work'' ''mail'' [''drive''] 600 None delegating_state = (Inr gr, t)
    \<and> exchange delegating_env sample_signer ''mail'' ''drive'' 60 None (Some (og_id gr)) t = (Inr x, u)"
proof -
  obtain gr t where c: "delegation_create delegating_env ''m'' ''work'' ''mail'' [''drive''] 600 None delegating_state = (Inr gr, t)"
    using sample_create by blast
  note cr = delegation_create_Inr [OF delegating_ok c]
  have "active_account ''m'' t"
    using member_active cr(7) by (auto simp: active_account_def account_get_def read_one_fetch roles_of_def)
  moreover have "ev_now delegating_env + timedelta_s 1 \<le> og_expires_at gr" "1 \<le> st_access_token_ttl_seconds (ev_settings delegating_env)"
    "0 \<le> ev_now delegating_env"
    by (simp_all add: cr(4) delegating_defs sample_defs timedelta_s_def)
  ultimately show ?thesis
    using c consent_gives_working_token [OF delegating_ok c _ _ _ refl _ _ _ _ sample_signs sample_publishes,
        where aud = "''drive''" and want = 60 and policy = "AudienceFamily ''drive''"]
    by auto
qed

text \<open>C31: A grant that was revoked is never exchanged again: whatever requests anybody makes of any
  router afterwards, an exchange that presents it is refused.\<close>

theorem revoked_grant_stays_dead:
  assumes "db_ok s" and "delegation_revoke_grant w a n i s = (Inr u, t)"
    and "\<forall>(v, g, q) \<in> set qs. fresh_handles i v"
  shows "\<exists>e t'. exchange w' g' sv aud ttl None (Some i) (app_run qs t) = (Inl e, t')"
proof -
  have "gone i t" using delegation_revoke_grant_Inr(1,3) [OF assms(1,2)] by (simp add: gone_spent)
  from gone_not_exchanged [OF dead.keeps_run [OF this assms(3)]] show ?thesis .
qed

lemma sample_revoke: "\<exists>t. delegation_revoke_grant delegating_env ''m'' ''work'' ''g1'' delegating_state = (Inr (), t)"
  by (simp add: delegation_revoke_grant_def delegation_profile_def delegation_revoke_def delegation_record_def
      audit_record_def table_simps count_where_def vault_eval delegating_defs)

theorem revoked_grant_stays_dead_witness:
  "\<exists>t e t'. delegation_revoke_grant delegating_env ''m'' ''work'' ''g1'' delegating_state = (Inr (), t)
    \<and> exchange delegating_env sample_signer ''mail'' ''drive'' 60 None (Some ''g1'')
        (app_run [(delegating_world, sample_signer, DelegationRequest (ListGrants ''m'' ''work''))] t) = (Inl e, t')"
proof -
  obtain t where t: "delegation_revoke_grant delegating_env ''m'' ''work'' ''g1'' delegating_state = (Inr (), t)"
    using sample_revoke by blast
  have "fresh_handles ''g1'' delegating_world"
    by (simp add: fresh_handles_def delegating_quiet)
  then have "\<forall>(v, g, q) \<in> set [(delegating_world, sample_signer, DelegationRequest (ListGrants ''m'' ''work''))]. fresh_handles ''g1'' v"
    by simp
  from revoked_grant_stays_dead [OF delegating_ok t this] t show ?thesis by blast
qed

section \<open>Whom a service acts for\<close>






section \<open>The whole service\<close>

text \<open>C34: From an empty database, after any requests to any router and any restarts, the database is well
  formed: keys are unique, every row that names an account, a role, a profile or a connection names
  one that exists, and no secret is stored without its connection.\<close>

theorem always_well_formed:
  assumes "\<forall>u g q. Some (u, g, q) \<in> set es \<longrightarrow> quiet covered u"
  shows "db_ok (service_run es (start empty_vsys)) \<and> covered (service_run es (start empty_vsys))"
proof -
  have "covered (service_run es (start empty_vsys))"
    by (rule cov.keeps_service_run [OF start_covered assms])
  then show ?thesis using covered_ok by blast
qed

theorem always_well_formed_witness:
  "db_ok (service_run [Some (delegating_world, sample_signer, AccountRequest (LogIn ''a@k.io'' ''pw'' None)), None]
     (start empty_vsys))"
proof -
  have "\<forall>u g q. Some (u, g, q) \<in> set [Some (delegating_world, sample_signer, AccountRequest (LogIn ''a@k.io'' ''pw'' None)), None]
      \<longrightarrow> quiet covered u"
    by (simp add: delegating_quiet)
  from always_well_formed [OF this] show ?thesis by blast
qed

end
