(* ===== verification/ClientProperties.thy ===== *)
theory ClientProperties
  imports TokenVerifier
begin

text \<open>
  The theorems about the consuming side: how often the key cache asks, what an outage of the
  service does to tokens, and that the two halves of signing agree.
\<close>

section \<open>A client\<close>

definition sample_keys :: "nat key_set" where "sample_keys = [(''k1'', 7)]"

definition sample_jwks_config :: "nat jwks_config" where
  "sample_jwks_config = \<lparr>jc_cache_seconds = 300, jc_min_refetch_seconds = 30, jc_stale_grace_seconds = 3600,
     jc_key_set = (\<lambda>keys. Some sample_keys)\<rparr>"

definition good_answer :: get_outcome where
  "good_answer = GetReturns (DObject [(''keys'', DArray [])])"

definition sample_lookup :: "rat \<Rightarrow> get_outcome \<Rightarrow> fetching" where
  "sample_lookup t a = \<lparr>fe_at = t, fe_after = t + 1, fe_answer = a\<rparr>"

lemmas client_sample_defs = sample_keys_def sample_jwks_config_def good_answer_def sample_lookup_def

section \<open>The key cache\<close>





text \<open>C37: While the service cannot be reached, a token that passes under a key the client holds still passes,
  until the cache and its grace are both over, whatever the cache's own clock of failures says.\<close>

theorem tokens_verify_through_outages:
  assumes "jk_keys s = Some ks" and "kid_of j token = Inr kid" and "key_in ks kid = Some key"
    and "check_token j issuer now key token policy = Inr v"
    and "fe_at f \<le> fe_after f" and "fe_after f - jk_fetched_at s < jc_cache_seconds c + jc_stale_grace_seconds c"
    and "fetched c f = None"
  shows "fst (verify_token j issuer now c monotonic (ret ()) f token policy s) = Inr v"
proof -
  have "fst (key_for_locked c kid f s) = Inr key" by (rule outage_served [OF assms(1,3,5,6,7)])
  then obtain t where t: "key_for_locked c kid f s = (Inr key, t)" by (cases "key_for_locked c kid f s") simp
  have "\<exists>t. key_for c kid monotonic (ret ()) f s = (Inr key, t)"
  proof (cases "cached c monotonic kid s")
    case None
    then show ?thesis using t by (simp add: key_for_def txn_simps)
  next
    case (Some k)
    then have "k = key" using assms(1,3) by (auto simp: cached_def fresh_keys_def split: if_splits)
    with Some show ?thesis by (simp add: key_for_def txn_simps)
  qed
  then show ?thesis using assms(2,4) by (auto simp: verify_token_def txn_simps)
qed

text \<open>The tokens of the sample are the accounts they name, and everybody's key is 7.\<close>

definition plain_jwt :: "nat jwt" where
  "plain_jwt = \<lparr>jw_header = (\<lambda>t. Some [(''kid'', DText ''k1'')]),
     jw_payload = (\<lambda>t. Some [(''aud'', DText ''drive'')]),
     jw_decode = (\<lambda>k t aud iss. if k = 7 \<and> aud = ''drive'' \<and> iss = ''https://k''
        then Some [(''sub'', DText t), (''aud'', DText ''drive''), (''exp'', DNumber 900)] else None)\<rparr>"

theorem tokens_verify_through_outages_witness:
  "fst (verify_token plain_jwt ''https://k'' 1000 sample_jwks_config 500 (ret ()) (sample_lookup 500 GetFails) ''m''
      (ExactAudience ''drive'') (jwks_client\<lparr>jk_keys := Some sample_keys, jk_fetched_at := 100\<rparr>))
   = Inr \<lparr>vi_account_id = ''m'', vi_audience = ''drive''\<rparr>"
  by (rule tokens_verify_through_outages [where ks = sample_keys and kid = "''k1''" and key = 7])
    (simp_all add: client_sample_defs plain_jwt_def kid_of_def key_in_def check_token_def audience_of_def
      check_claims_def fetched_def)

end
