(* ===== verification/Problems.thy ===== *)
theory Problems
  imports Rbac
begin

text \<open>
  \<^verbatim>\<open>src/src/keyring_api/api/errors.py\<close>: how a failure becomes an RFC 9457 response, with the
  request id of \<^verbatim>\<open>api/middleware.py\<close> on it.
\<close>

section \<open>Responses\<close>

record field_error =
  fi_location :: string
  fi_message :: string

record problem =
  pb_type :: string
  pb_title :: string
  pb_status :: nat
  pb_detail :: string
  pb_request_id :: "string option"
  pb_errors :: "field_error list option"
  pb_headers :: "(string \<times> string) list"

definition PROBLEM_BASE_URI :: string where "PROBLEM_BASE_URI = ''https://keyring.invalid/problems''"
definition RETRY_AFTER_HEADER :: string where "RETRY_AFTER_HEADER = ''Retry-After''"

definition STATUS_TITLES :: "(nat \<times> string) list" where
  "STATUS_TITLES = [(400, ''Bad request''), (401, ''Unauthorized''), (403, ''Forbidden''), (404, ''Not found''),
     (409, ''Conflict''), (422, ''Validation failed''), (429, ''Too many requests''),
     (500, ''Internal server error''), (503, ''Service unavailable'')]"

text \<open>\<open>replace(" ", "-")\<close>.\<close>

definition slug_for :: "nat \<Rightarrow> string" where
  "slug_for code =
     map (\<lambda>c. if c = CHR '' '' then CHR ''-'' else c)
       (lower (case map_of STATUS_TITLES code of None \<Rightarrow> ''error'' | Some t \<Rightarrow> t))"

definition problem_response ::
  "string option \<Rightarrow> nat \<Rightarrow> string \<Rightarrow> string option \<Rightarrow> field_error list option \<Rightarrow> (string \<times> string) list \<Rightarrow> problem" where
  "problem_response request_id code detail problem_type errors headers =
     \<lparr>pb_type = PROBLEM_BASE_URI @ ''/'' @ (case problem_type of None \<Rightarrow> slug_for code | Some t \<Rightarrow> if t = [] then slug_for code else t),
      pb_title = (case map_of STATUS_TITLES code of None \<Rightarrow> ''Error'' | Some t \<Rightarrow> t),
      pb_status = code, pb_detail = detail, pb_request_id = request_id, pb_errors = errors, pb_headers = headers\<rparr>"

text \<open>A validation failure: the location and the message of each field, never its input.\<close>

record raw_field_error =
  rf_loc :: "string list"
  rf_msg :: string
  rf_input :: string

definition validation_problem :: "string option \<Rightarrow> raw_field_error list \<Rightarrow> problem" where
  "validation_problem request_id errors =
     problem_response request_id 422 ''the request failed validation'' (Some ''validation-failed'')
       (Some (map (\<lambda>e. \<lparr>fi_location = join ''.'' (rf_loc e), fi_message = rf_msg e\<rparr>) errors)) []"

definition rate_limited_problem :: "string option \<Rightarrow> string \<Rightarrow> rat \<Rightarrow> problem" where
  "rate_limited_problem request_id detail retry_after =
     problem_response request_id 429 detail None None
       [(RETRY_AFTER_HEADER, str_nat (nat \<lfloor>retry_after\<rfloor> + 1))]"

definition unhandled_problem :: "string option \<Rightarrow> problem" where
  "unhandled_problem request_id =
     problem_response request_id 500
       ''an unexpected error occurred; quote the request id when reporting it'' None None []"

text \<open>The handler chosen for an error.\<close>

definition render_error :: "string option \<Rightarrow> error \<Rightarrow> problem" where
  "render_error request_id e =
     (case e of
        RateLimitedError m r \<Rightarrow> rate_limited_problem request_id (concat m) r
      | Unhandled m \<Rightarrow> unhandled_problem request_id
      | _ \<Rightarrow> problem_response request_id (fst (problem_of e)) (snd (problem_of e)) None None [])"

section \<open>The request id\<close>

definition MAX_SUPPLIED_REQUEST_ID :: nat where "MAX_SUPPLIED_REQUEST_ID = 64"

definition request_id_of :: "string \<Rightarrow> string option \<Rightarrow> string" where
  "request_id_of fresh supplied =
     (case supplied of None \<Rightarrow> fresh | Some s \<Rightarrow> if s = [] then fresh else take MAX_SUPPLIED_REQUEST_ID s)"

section \<open>Facts\<close>

lemma render_error_status: "pb_status (render_error i e) = status_of e"
  by (cases e) (simp_all add: render_error_def problem_response_def rate_limited_problem_def unhandled_problem_def
      problem_of_def status_of_def)

lemma render_error_detail: "pb_detail (render_error i e) = snd (problem_of e)"
  by (cases e) (simp_all add: render_error_def problem_response_def rate_limited_problem_def unhandled_problem_def
      problem_of_def status_of_def)

text \<open>Nothing of an unexpected exception is told, and nothing a caller typed comes back.\<close>

lemma unhandled_alike: "render_error i (Unhandled m) = render_error i (Unhandled n)"
  by (simp add: render_error_def)

lemma validation_without_input:
  "map (\<lambda>e. (rf_loc e, rf_msg e)) xs = map (\<lambda>e. (rf_loc e, rf_msg e)) ys \<Longrightarrow>
     validation_problem i xs = validation_problem i ys"
proof -
  assume "map (\<lambda>e. (rf_loc e, rf_msg e)) xs = map (\<lambda>e. (rf_loc e, rf_msg e)) ys"
  then have "map (\<lambda>p. \<lparr>fi_location = join ''.'' (fst p), fi_message = snd p\<rparr>) (map (\<lambda>e. (rf_loc e, rf_msg e)) xs)
      = map (\<lambda>p. \<lparr>fi_location = join ''.'' (fst p), fi_message = snd p\<rparr>) (map (\<lambda>e. (rf_loc e, rf_msg e)) ys)"
    by simp
  then show ?thesis by (simp add: validation_problem_def o_def)
qed

text \<open>Waiting as long as the header says is enough.\<close>

lemma retry_after_enough: "0 \<le> r \<Longrightarrow> r < of_nat (nat \<lfloor>r\<rfloor> + 1)"
  by (simp add: of_nat_nat) linarith

text \<open>Every error of the vocabulary has a title of its own.\<close>

lemma status_titled: "map_of STATUS_TITLES (status_of e) \<noteq> None"
  by (cases e) (simp_all add: status_of_def STATUS_TITLES_def)

lemma request_id_bounded: "length fresh \<le> 64 \<Longrightarrow> length (request_id_of fresh supplied) \<le> 64"
  by (simp add: request_id_of_def MAX_SUPPLIED_REQUEST_ID_def split: option.split)

end
