(* ===== verification/Routing.thy ===== *)
theory Routing
  imports Problems
begin

text \<open>
  The surface of the service: every route of \<^verbatim>\<open>src/src/keyring_api/api/routers\<close> as its decorator and
  signature declare it (method, path, operation id, status of success, which credential the handler
  depends on, whether it reads a body), in the order the application mounts them, and which of them
  a request reaches. Matching a path against a template is the framework's, as it documents it: a
  braced segment stands for one segment that is not empty, the first route of the path and method
  serves the request, a path with no such method is a 405.
\<close>

section \<open>Routes\<close>

datatype segment = Lit string | Param string

text \<open>The dependencies of a handler, by what a caller has to present.\<close>

datatype access_need = Anyone | SessionOf | ActorOf | CallingService | ServiceForPerson

datatype body_need = NoBodyRead | OptionalBody | RequiredBody

datatype operation =
    OpGetHealth | OpCheckReadiness | OpLogin | OpLogout
  | OpLogoutEverywhere | OpGetCurrentAccount | OpRedeemInvite | OpChangePassword
  | OpRequestPasswordReset | OpRedeemPasswordReset | OpIssueServiceToken | OpListProfiles
  | OpCreateProfile | OpGetProfile | OpDeleteProfile | OpPutApiKey
  | OpPutPassword | OpAuthorizeConnection | OpDeleteConnection | OpCompleteAuthorization
  | OpGetJwks | OpResolveCredential | OpResolveFormSecrets | OpExchangeUserToken
  | OpCreateOfflineGrant | OpListOfflineGrants | OpRevokeOfflineGrant | OpDescribeDelegatedProfile
  | OpAuthorizeDelegatedConnection | OpDeleteDelegatedConnection | OpCreateDelegatedGrant | OpRevokeDelegatedGrant
  | OpListPermissions | OpListRoles | OpCreateRole | OpUpdateRole
  | OpDeleteRole | OpListAccounts | OpGetAccount | OpSetAccountRoles
  | OpSetAccountStatus | OpRevokeAccountSessions | OpIssueAccountPasswordReset | OpDeleteAccount
  | OpListAccountProfiles | OpDeleteAccountProfile | OpIssueInvite | OpReadAuditLog

record route =
  rt_operation :: operation
  rt_operation_id :: string
  rt_method :: string
  rt_path :: "segment list"
  rt_status :: nat
  rt_access :: access_need
  rt_body :: body_need

text \<open>A path is what stands between its slashes; a braced part is a parameter.\<close>

definition segment_of :: "string \<Rightarrow> segment" where
  "segment_of s =
     (if s \<noteq> [] \<and> hd s = CHR 0x7B \<and> last s = CHR 0x7D then Param (butlast (tl s)) else Lit s)"

definition api_route ::
  "operation \<Rightarrow> string \<Rightarrow> string \<Rightarrow> string \<Rightarrow> nat \<Rightarrow> access_need \<Rightarrow> body_need \<Rightarrow> route" where
  "api_route op operation_id meth path status need body =
     \<lparr>rt_operation = op, rt_operation_id = operation_id, rt_method = meth,
      rt_path = map segment_of (split_on (CHR ''/'') path), rt_status = status, rt_access = need, rt_body = body\<rparr>"

definition route_get_health :: route where
  "route_get_health = api_route OpGetHealth ''get_health'' ''GET'' ''/healthy'' 200 Anyone NoBodyRead"

definition route_check_readiness :: route where
  "route_check_readiness = api_route OpCheckReadiness ''check_readiness'' ''GET'' ''/ready'' 200 Anyone NoBodyRead"

definition route_login :: route where
  "route_login = api_route OpLogin ''login'' ''POST'' (''/v1'' @ ''/auth/login'') 200 Anyone RequiredBody"

definition route_logout :: route where
  "route_logout = api_route OpLogout ''logout'' ''POST'' (''/v1'' @ ''/auth/logout'') 204 SessionOf NoBodyRead"

definition route_logout_everywhere :: route where
  "route_logout_everywhere =
     api_route OpLogoutEverywhere ''logout_everywhere'' ''POST'' (''/v1'' @ ''/auth/logout-everywhere'') 200 SessionOf NoBodyRead"

definition route_get_current_account :: route where
  "route_get_current_account =
     api_route OpGetCurrentAccount ''get_current_account'' ''GET'' (''/v1'' @ ''/auth/me'') 200 SessionOf NoBodyRead"

definition route_redeem_invite :: route where
  "route_redeem_invite =
     api_route OpRedeemInvite ''redeem_invite'' ''POST'' (''/v1'' @ ''/auth/invites/redeem'') 201 Anyone RequiredBody"

definition route_change_password :: route where
  "route_change_password =
     api_route OpChangePassword ''change_password'' ''POST'' (''/v1'' @ ''/auth/password'') 204 SessionOf RequiredBody"

definition route_request_password_reset :: route where
  "route_request_password_reset =
     api_route OpRequestPasswordReset ''request_password_reset'' ''POST'' (''/v1'' @ ''/auth/password/reset-request'') 200 Anyone RequiredBody"

definition route_redeem_password_reset :: route where
  "route_redeem_password_reset =
     api_route OpRedeemPasswordReset ''redeem_password_reset'' ''POST'' (''/v1'' @ ''/auth/password/reset'') 204 Anyone RequiredBody"

definition route_issue_service_token :: route where
  "route_issue_service_token =
     api_route OpIssueServiceToken ''issue_service_token'' ''POST'' (''/v1'' @ ''/auth/service-token'') 200 SessionOf RequiredBody"

definition route_list_profiles :: route where
  "route_list_profiles = api_route OpListProfiles ''list_profiles'' ''GET'' ''/v1/profiles'' 200 SessionOf NoBodyRead"

definition route_create_profile :: route where
  "route_create_profile =
     api_route OpCreateProfile ''create_profile'' ''POST'' ''/v1/profiles'' 201 SessionOf RequiredBody"

definition route_get_profile :: route where
  "route_get_profile =
     api_route OpGetProfile ''get_profile'' ''GET'' (''/v1/profiles'' @ ''/{name}'') 200 SessionOf NoBodyRead"

definition route_delete_profile :: route where
  "route_delete_profile =
     api_route OpDeleteProfile ''delete_profile'' ''DELETE'' (''/v1/profiles'' @ ''/{name}'') 204 SessionOf OptionalBody"

definition route_put_api_key :: route where
  "route_put_api_key =
     api_route OpPutApiKey ''put_api_key'' ''PUT'' (''/v1/profiles'' @ ''/{name}/connections/{service}/api-key'') 200 SessionOf RequiredBody"

definition route_put_password :: route where
  "route_put_password =
     api_route OpPutPassword ''put_password'' ''PUT'' (''/v1/profiles'' @ ''/{name}/connections/{service}/password'') 200 SessionOf RequiredBody"

definition route_authorize_connection :: route where
  "route_authorize_connection =
     api_route OpAuthorizeConnection ''authorize_connection'' ''POST'' (''/v1/profiles'' @ ''/{name}/connections/{service}/authorize'') 200 SessionOf OptionalBody"

definition route_delete_connection :: route where
  "route_delete_connection =
     api_route OpDeleteConnection ''delete_connection'' ''DELETE'' (''/v1/profiles'' @ ''/{name}/connections/{service}'') 204 SessionOf OptionalBody"

definition route_complete_authorization :: route where
  "route_complete_authorization =
     api_route OpCompleteAuthorization ''complete_authorization'' ''GET'' (''/v1/oauth'' @ ''/callback'') 200 Anyone NoBodyRead"

definition route_get_jwks :: route where
  "route_get_jwks = api_route OpGetJwks ''get_jwks'' ''GET'' ''/.well-known/jwks.json'' 200 Anyone NoBodyRead"

definition route_resolve_credential :: route where
  "route_resolve_credential =
     api_route OpResolveCredential ''resolve_credential'' ''GET'' (''/v1/internal'' @ ''/credentials/{profile}/{service}'') 200 ServiceForPerson NoBodyRead"

definition route_resolve_form_secrets :: route where
  "route_resolve_form_secrets =
     api_route OpResolveFormSecrets ''resolve_form_secrets'' ''GET'' (''/v1/internal'' @ ''/form-secrets/{profile}/{service}'') 200 ServiceForPerson NoBodyRead"

definition route_exchange_user_token :: route where
  "route_exchange_user_token =
     api_route OpExchangeUserToken ''exchange_user_token'' ''POST'' (''/v1'' @ ''/internal/token-exchange'') 200 CallingService RequiredBody"

definition route_create_offline_grant :: route where
  "route_create_offline_grant =
     api_route OpCreateOfflineGrant ''create_offline_grant'' ''POST'' (''/v1'' @ ''/profiles/{name}/grants'') 201 SessionOf RequiredBody"

definition route_list_offline_grants :: route where
  "route_list_offline_grants =
     api_route OpListOfflineGrants ''list_offline_grants'' ''GET'' (''/v1'' @ ''/profiles/{name}/grants'') 200 SessionOf NoBodyRead"

definition route_revoke_offline_grant :: route where
  "route_revoke_offline_grant =
     api_route OpRevokeOfflineGrant ''revoke_offline_grant'' ''DELETE'' (''/v1'' @ ''/profiles/{name}/grants/{grant_id}'') 204 SessionOf NoBodyRead"

definition route_describe_delegated_profile :: route where
  "route_describe_delegated_profile =
     api_route OpDescribeDelegatedProfile ''describe_delegated_profile'' ''GET'' (''/v1'' @ ''/internal/profiles/{name}'') 200 ServiceForPerson NoBodyRead"

definition route_authorize_delegated_connection :: route where
  "route_authorize_delegated_connection =
     api_route OpAuthorizeDelegatedConnection ''authorize_delegated_connection'' ''POST'' (''/v1'' @ ''/internal/profiles/{name}/connections/{connection}/authorize'') 200 ServiceForPerson NoBodyRead"

definition route_delete_delegated_connection :: route where
  "route_delete_delegated_connection =
     api_route OpDeleteDelegatedConnection ''delete_delegated_connection'' ''DELETE'' (''/v1'' @ ''/internal/profiles/{name}/connections/{connection}'') 204 ServiceForPerson NoBodyRead"

definition route_create_delegated_grant :: route where
  "route_create_delegated_grant =
     api_route OpCreateDelegatedGrant ''create_delegated_grant'' ''POST'' (''/v1'' @ ''/internal/profiles/{name}/grants'') 201 ServiceForPerson RequiredBody"

definition route_revoke_delegated_grant :: route where
  "route_revoke_delegated_grant =
     api_route OpRevokeDelegatedGrant ''revoke_delegated_grant'' ''DELETE'' (''/v1'' @ ''/internal/profiles/{name}/grants/{grant_id}'') 204 ServiceForPerson NoBodyRead"

definition route_list_permissions :: route where
  "route_list_permissions =
     api_route OpListPermissions ''list_permissions'' ''GET'' (''/v1/admin'' @ ''/permissions'') 200 ActorOf NoBodyRead"

definition route_list_roles :: route where
  "route_list_roles = api_route OpListRoles ''list_roles'' ''GET'' (''/v1/admin'' @ ''/roles'') 200 ActorOf NoBodyRead"

definition route_create_role :: route where
  "route_create_role =
     api_route OpCreateRole ''create_role'' ''POST'' (''/v1/admin'' @ ''/roles'') 201 ActorOf RequiredBody"

definition route_update_role :: route where
  "route_update_role =
     api_route OpUpdateRole ''update_role'' ''PUT'' (''/v1/admin'' @ ''/roles/{name}'') 200 ActorOf RequiredBody"

definition route_delete_role :: route where
  "route_delete_role =
     api_route OpDeleteRole ''delete_role'' ''DELETE'' (''/v1/admin'' @ ''/roles/{name}'') 204 ActorOf NoBodyRead"

definition route_list_accounts :: route where
  "route_list_accounts =
     api_route OpListAccounts ''list_accounts'' ''GET'' (''/v1/admin'' @ ''/accounts'') 200 ActorOf NoBodyRead"

definition route_get_account :: route where
  "route_get_account =
     api_route OpGetAccount ''get_account'' ''GET'' (''/v1/admin'' @ ''/accounts/{account_id}'') 200 ActorOf NoBodyRead"

definition route_set_account_roles :: route where
  "route_set_account_roles =
     api_route OpSetAccountRoles ''set_account_roles'' ''PUT'' (''/v1/admin'' @ ''/accounts/{account_id}/roles'') 200 ActorOf RequiredBody"

definition route_set_account_status :: route where
  "route_set_account_status =
     api_route OpSetAccountStatus ''set_account_status'' ''PUT'' (''/v1/admin'' @ ''/accounts/{account_id}/status'') 200 ActorOf RequiredBody"

definition route_revoke_account_sessions :: route where
  "route_revoke_account_sessions =
     api_route OpRevokeAccountSessions ''revoke_account_sessions'' ''POST'' (''/v1/admin'' @ ''/accounts/{account_id}/revoke-sessions'') 200 ActorOf NoBodyRead"

definition route_issue_account_password_reset :: route where
  "route_issue_account_password_reset =
     api_route OpIssueAccountPasswordReset ''issue_account_password_reset'' ''POST'' (''/v1/admin'' @ ''/accounts/{account_id}/password-reset'') 200 ActorOf NoBodyRead"

definition route_delete_account :: route where
  "route_delete_account =
     api_route OpDeleteAccount ''delete_account'' ''DELETE'' (''/v1/admin'' @ ''/accounts/{account_id}'') 204 ActorOf NoBodyRead"

definition route_list_account_profiles :: route where
  "route_list_account_profiles =
     api_route OpListAccountProfiles ''list_account_profiles'' ''GET'' (''/v1/admin'' @ ''/accounts/{account_id}/profiles'') 200 ActorOf NoBodyRead"

definition route_delete_account_profile :: route where
  "route_delete_account_profile =
     api_route OpDeleteAccountProfile ''delete_account_profile'' ''DELETE'' (''/v1/admin'' @ ''/accounts/{account_id}/profiles/{name}'') 204 ActorOf NoBodyRead"

definition route_issue_invite :: route where
  "route_issue_invite =
     api_route OpIssueInvite ''issue_invite'' ''POST'' (''/v1/admin'' @ ''/invites'') 201 ActorOf RequiredBody"

definition route_read_audit_log :: route where
  "route_read_audit_log =
     api_route OpReadAuditLog ''read_audit_log'' ''GET'' (''/v1/admin'' @ ''/audit'') 200 ActorOf NoBodyRead"

definition health_router :: "route list" where
  "health_router =
    [route_get_health, route_check_readiness]"

definition auth_router :: "route list" where
  "auth_router =
    [route_login, route_logout, route_logout_everywhere, route_get_current_account, route_redeem_invite,
     route_change_password, route_request_password_reset, route_redeem_password_reset,
     route_issue_service_token]"

definition profiles_router :: "route list" where
  "profiles_router =
    [route_list_profiles, route_create_profile, route_get_profile, route_delete_profile, route_put_api_key,
     route_put_password, route_authorize_connection, route_delete_connection]"

definition oauth_router :: "route list" where
  "oauth_router =
    [route_complete_authorization]"

definition well_known_router :: "route list" where
  "well_known_router =
    [route_get_jwks]"

definition internal_router :: "route list" where
  "internal_router =
    [route_resolve_credential, route_resolve_form_secrets]"

definition delegation_router :: "route list" where
  "delegation_router =
    [route_exchange_user_token, route_create_offline_grant, route_list_offline_grants,
     route_revoke_offline_grant, route_describe_delegated_profile, route_authorize_delegated_connection,
     route_delete_delegated_connection, route_create_delegated_grant, route_revoke_delegated_grant]"

definition admin_router :: "route list" where
  "admin_router =
    [route_list_permissions, route_list_roles, route_create_role, route_update_role, route_delete_role,
     route_list_accounts, route_get_account, route_set_account_roles, route_set_account_status,
     route_revoke_account_sessions, route_issue_account_password_reset, route_delete_account,
     route_list_account_profiles, route_delete_account_profile, route_issue_invite, route_read_audit_log]"

text \<open>\<open>ROUTERS\<close>, in the order they are mounted.\<close>

definition ROUTES :: "route list" where
  "ROUTES = health_router @ auth_router @ profiles_router @ oauth_router @ well_known_router @ internal_router
     @ delegation_router @ admin_router"

section \<open>Which route a request reaches\<close>

fun match_path :: "segment list \<Rightarrow> string list \<Rightarrow> string list option" where
  "match_path [] [] = Some []"
| "match_path (Lit l # ts) (s # ss) = (if l = s then match_path ts ss else None)"
| "match_path (Param n # ts) (s # ss) = (if s \<noteq> [] then map_option ((#) s) (match_path ts ss) else None)"
| "match_path ts ss = None"

datatype dispatched = Matched route "string list" | MethodNotAllowed | NoRoute

text \<open>
  The matcher is the framework's, an argument of everything that follows. What is relied on is what it
  documents: what it answers is a mounted route of that method whose template the path has, with the
  parts of the path as parameters; and when there is such a route, one is answered; and when only the
  method is missing, that is the answer. Which one of several it answers is left open.
\<close>

type_synonym matcher = "route list \<Rightarrow> string \<Rightarrow> string \<Rightarrow> dispatched"

definition has_template :: "route \<Rightarrow> string \<Rightarrow> string list \<Rightarrow> bool" where
  "has_template r path args \<longleftrightarrow> match_path (rt_path r) (split_on (CHR ''/'') path) = Some args"

definition follows_templates :: "matcher \<Rightarrow> bool" where
  "follows_templates matcher \<longleftrightarrow>
     (\<forall>rs meth path r args. matcher rs meth path = Matched r args
        \<longrightarrow> r \<in> set rs \<and> rt_method r = meth \<and> has_template r path args)
     \<and> (\<forall>rs path r args. r \<in> set rs \<and> has_template r path args
        \<longrightarrow> (\<exists>q xs. matcher rs (rt_method r) path = Matched q xs)
            \<and> (\<forall>meth. meth \<notin> rt_method ` set rs \<longrightarrow> matcher rs meth path = MethodNotAllowed))"

text \<open>One such matcher: the first route that fits.\<close>

definition match_route :: matcher where
  "match_route routes meth path =
     (let ss = split_on (CHR ''/'') path;
          on_path = filter (\<lambda>r. match_path (rt_path r) ss \<noteq> None) routes
      in case filter (\<lambda>r. rt_method r = meth) on_path of
           r # _ \<Rightarrow> Matched r (the (match_path (rt_path r) ss))
         | [] \<Rightarrow> if on_path \<noteq> [] then MethodNotAllowed else NoRoute)"

text \<open>The path of a route for given parameters.\<close>

fun fill_path :: "segment list \<Rightarrow> string list \<Rightarrow> string list" where
  "fill_path [] args = []"
| "fill_path (Lit l # ts) args = l # fill_path ts args"
| "fill_path (Param n # ts) (a # args) = a # fill_path ts args"
| "fill_path (Param n # ts) [] = [] # fill_path ts []"

definition path_of :: "route \<Rightarrow> string list \<Rightarrow> string" where
  "path_of r args = join ''/'' (fill_path (rt_path r) args)"

fun arity :: "segment list \<Rightarrow> nat" where
  "arity [] = 0"
| "arity (Lit l # ts) = arity ts"
| "arity (Param n # ts) = Suc (arity ts)"

definition whole_segment :: "string \<Rightarrow> bool" where
  "whole_segment s \<longleftrightarrow> s \<noteq> [] \<and> CHR ''/'' \<notin> set s"

section \<open>No route hides another\<close>

text \<open>Whether some path fits both templates.\<close>

fun overlap :: "segment list \<Rightarrow> segment list \<Rightarrow> bool" where
  "overlap [] [] = True"
| "overlap (Lit a # ts) (Lit b # us) = (a = b \<and> overlap ts us)"
| "overlap (Lit a # ts) (Param n # us) = overlap ts us"
| "overlap (Param n # ts) (Lit b # us) = overlap ts us"
| "overlap (Param n # ts) (Param m # us) = overlap ts us"
| "overlap ts us = False"

fun disjoint_routes :: "route list \<Rightarrow> bool" where
  "disjoint_routes [] = True"
| "disjoint_routes (r # rs) =
     (list_all (\<lambda>q. rt_method q \<noteq> rt_method r \<or> \<not> overlap (rt_path q) (rt_path r)) rs \<and> disjoint_routes rs)"

fun literal_ok :: "segment \<Rightarrow> bool" where
  "literal_ok (Lit l) = (CHR ''/'' \<notin> set l)"
| "literal_ok (Param n) = True"

lemmas router_defs = health_router_def auth_router_def profiles_router_def oauth_router_def well_known_router_def
  internal_router_def delegation_router_def admin_router_def

lemma ROUTES_disjoint: "disjoint_routes ROUTES"
  by code_simp

lemma ROUTES_literal: "list_all (\<lambda>r. list_all literal_ok (rt_path r) \<and> rt_path r \<noteq> []) ROUTES"
  by code_simp

lemma split_join:
  "ss \<noteq> [] \<Longrightarrow> \<forall>s \<in> set ss. c \<notin> set s \<Longrightarrow> split_on c (join [c] ss) = ss"
  by (induction "[c]" ss rule: join.induct) (simp_all add: split_on_free split_on_step)

lemma match_fill:
  "length args = arity ts \<Longrightarrow> \<forall>a \<in> set args. a \<noteq> [] \<Longrightarrow> match_path ts (fill_path ts args) = Some args"
  by (induction ts args rule: fill_path.induct) auto

lemma match_fill_overlap: "match_path us (fill_path ts args) \<noteq> None \<Longrightarrow> overlap ts us"
proof (induction ts args arbitrary: us rule: fill_path.induct)
  case (1 args us)
  then show ?case by (cases "(us, [] :: string list)" rule: match_path.cases) auto
next
  case (2 l ts args us)
  then show ?case by (cases "(us, fill_path (Lit l # ts) args)" rule: match_path.cases) (auto split: if_splits)
next
  case (3 n ts a args us)
  then show ?case by (cases "(us, fill_path (Param n # ts) (a # args))" rule: match_path.cases) (auto split: if_splits)
next
  case (4 n ts us)
  then show ?case by (cases "(us, fill_path (Param n # ts) [])" rule: match_path.cases) (auto split: if_splits)
qed

lemma fill_segments:
  "list_all literal_ok ts \<Longrightarrow> \<forall>a \<in> set args. CHR ''/'' \<notin> set a \<Longrightarrow> \<forall>s \<in> set (fill_path ts args). CHR ''/'' \<notin> set s"
  by (induction ts args rule: fill_path.induct) auto

lemma fill_not_Nil: "ts \<noteq> [] \<Longrightarrow> fill_path ts args \<noteq> []"
  by (cases "(ts, args)" rule: fill_path.cases) auto

lemma overlap_sym: "overlap ts us = overlap us ts"
  by (induction ts us rule: overlap.induct) auto

lemma disjoint_routes_unique:
  assumes "disjoint_routes rs" and "r \<in> set rs" and "q \<in> set rs" and "rt_method q = rt_method r"
    and "overlap (rt_path q) (rt_path r)"
  shows "q = r"
  using assms
  by (induction rs) (auto simp: list_all_iff overlap_sym)

text \<open>A path that two templates fit makes them overlap.\<close>

lemma segments_of_path:
  assumes "list_all literal_ok (rt_path r)" "rt_path r \<noteq> []" and "\<forall>a \<in> set args. whole_segment a"
  shows "split_on (CHR ''/'') (path_of r args) = fill_path (rt_path r) args"
proof -
  have "\<forall>s \<in> set (fill_path (rt_path r) args). CHR ''/'' \<notin> set s"
    using fill_segments [OF assms(1)] assms(3) by (auto simp: whole_segment_def)
  then show ?thesis
    unfolding path_of_def using split_join fill_not_Nil [OF assms(2)] by simp
qed

text \<open>What every route of the application is for is reached under its own method and path, and with its own parameters.\<close>

lemma has_own_template:
  assumes "r \<in> set ROUTES" and "length args = arity (rt_path r)" and "\<forall>a \<in> set args. whole_segment a"
  shows "has_template r (path_of r args) args"
proof -
  have lit: "list_all literal_ok (rt_path r)" "rt_path r \<noteq> []"
    using ROUTES_literal assms(1) by (auto simp: list_all_iff)
  show ?thesis
    using match_fill [OF assms(2)] assms(3)
    by (simp add: has_template_def segments_of_path [OF lit assms(3)] whole_segment_def)
qed

lemma route_of_own_path:
  assumes "follows_templates matcher"
    and "r \<in> set ROUTES" and "length args = arity (rt_path r)" and "\<forall>a \<in> set args. whole_segment a"
  shows "matcher ROUTES (rt_method r) (path_of r args) = Matched r args"
proof -
  note own = has_own_template [OF assms(2-4)]
  obtain q xs where m: "matcher ROUTES (rt_method r) (path_of r args) = Matched q xs"
    using assms(1,2) own unfolding follows_templates_def by blast
  have q: "q \<in> set ROUTES" "rt_method q = rt_method r" "has_template q (path_of r args) xs"
    using assms(1) m unfolding follows_templates_def by blast+
  have lit: "list_all literal_ok (rt_path r)" "rt_path r \<noteq> []"
    using ROUTES_literal assms(2) by (auto simp: list_all_iff)
  have "overlap (rt_path r) (rt_path q)"
    using q(3) by (intro match_fill_overlap [of _ _ args]) (simp add: has_template_def segments_of_path [OF lit assms(4)])
  then have "q = r" using disjoint_routes_unique [OF ROUTES_disjoint assms(2) q(1,2)] overlap_sym by metis
  with q(3) own m show ?thesis by (simp add: has_template_def)
qed

lemma matched_facts:
  assumes "follows_templates matcher" and "matcher rs m path = Matched r args"
  shows "r \<in> set rs" "rt_method r = m"
  using assms unfolding follows_templates_def by blast+

lemma match_route_follows: "follows_templates match_route"
proof -
  let ?on = "\<lambda>rs path. filter (\<lambda>r. match_path (rt_path r) (split_on (CHR ''/'') path) \<noteq> None) rs"
  have "r \<in> set rs \<and> rt_method r = m \<and> has_template r path args" if "match_route rs m path = Matched r args" for rs m path r args
  proof -
    let ?on = "filter (\<lambda>r. match_path (rt_path r) (split_on (CHR ''/'') path) \<noteq> None) rs"
    have "filter (\<lambda>r. rt_method r = m) ?on \<noteq> []"
    proof
      assume "filter (\<lambda>r. rt_method r = m) ?on = []"
      then have "match_route rs m path = (if ?on \<noteq> [] then MethodNotAllowed else NoRoute)"
        by (simp only: match_route_def Let_def list.case)
      with that show False by (simp split: if_splits)
    qed
    then obtain q rest where f: "filter (\<lambda>r. rt_method r = m) ?on = q # rest"
      by (meson neq_Nil_conv)
    have "match_route rs m path = Matched q (the (match_path (rt_path q) (split_on (CHR ''/'') path)))"
      by (simp only: match_route_def Let_def f list.case)
    then have q: "q = r" and args: "args = the (match_path (rt_path r) (split_on (CHR ''/'') path))"
      using that by simp_all
    have "r \<in> set (filter (\<lambda>r. rt_method r = m) ?on)" by (simp only: f q) simp
    with args show ?thesis by (auto simp: has_template_def)
  qed
  moreover have "\<exists>q xs. match_route rs (rt_method r) path = Matched q xs"
    if "r \<in> set rs" "has_template r path args" for rs path r args
  proof -
    let ?f = "filter (\<lambda>q. rt_method q = rt_method r) (?on rs path)"
    have "r \<in> set ?f" using that by (auto simp: has_template_def)
    then have "?f \<noteq> []" by (metis empty_iff list.set(1))
    then obtain q qs where "?f = q # qs" by (meson neq_Nil_conv)
    then show ?thesis by (simp only: match_route_def Let_def list.case) blast
  qed
  moreover have "match_route rs m path = MethodNotAllowed"
    if "r \<in> set rs" "has_template r path args" "m \<notin> rt_method ` set rs" for rs path r args m
  proof -
    have "?on rs path \<noteq> []" using that by (auto simp: filter_empty_conv has_template_def)
    moreover have "filter (\<lambda>r. rt_method r = m) (?on rs path) = []" using that(3) by (auto simp: filter_empty_conv)
    ultimately show ?thesis by (simp only: match_route_def Let_def list.case) simp
  qed
  ultimately show ?thesis unfolding follows_templates_def by blast
qed

end
