(* ===== verification/ReadViews.thy ===== *)
theory ReadViews
  imports Application
begin

text \<open>
  What can be read: the handlers of \<^verbatim>\<open>src/src/keyring_api/api/routers/profiles.py\<close> that answer with
  profiles, their rendering (\<^verbatim>\<open>api/schemas/profiles.py\<close>), the grants of \<^verbatim>\<open>api/routers/delegation.py\<close>, the
  readiness of \<^verbatim>\<open>api/routers/health.py\<close>, and the sweep of \<^verbatim>\<open>core/container.py\<close>. What they have in common
  is proved once: no answer depends on a stored secret.
\<close>

section \<open>Rendering\<close>

record connection_response =
  nr_service :: string
  nr_kind :: credential_kind
  nr_status :: connection_status
  nr_created_at :: int
  nr_updated_at :: int
  nr_expires_at :: "int option"
  nr_scopes :: "string list"
  nr_stores_totp_seed :: bool
  nr_last_error :: "string option"

record grant_response =
  gp_grant_id :: string
  gp_profile :: string
  gp_service :: string
  gp_audiences :: "string list"
  gp_created_at :: int
  gp_expires_at :: int
  gp_revoked_at :: "int option"

record profile_response =
  fp_name :: string
  fp_created_at :: int
  fp_updated_at :: int
  fp_connections :: "connection_response list"
  fp_grants :: "grant_response list"

definition render_connection :: "connection \<Rightarrow> connection_response" where
  "render_connection c =
     \<lparr>nr_service = co_service c, nr_kind = co_kind c, nr_status = co_status c, nr_created_at = co_created_at c,
      nr_updated_at = co_updated_at c, nr_expires_at = co_expires_at c, nr_scopes = co_scopes c,
      nr_stores_totp_seed = co_stores_totp_seed c, nr_last_error = co_last_error c\<rparr>"

definition render_profile :: "profile \<Rightarrow> profile_response" where
  "render_profile p =
     \<lparr>fp_name = pr_name p, fp_created_at = pr_created_at p, fp_updated_at = pr_updated_at p,
      fp_connections = map render_connection (sort_key co_service (pr_connections p)), fp_grants = []\<rparr>"

definition render_grant :: "offline_grant \<Rightarrow> grant_response" where
  "render_grant g =
     \<lparr>gp_grant_id = og_id g, gp_profile = og_profile g, gp_service = og_service g, gp_audiences = og_audiences g,
      gp_created_at = og_created_at g, gp_expires_at = og_expires_at g, gp_revoked_at = og_revoked_at g\<rparr>"

section \<open>Handlers\<close>

definition list_profiles_route :: "string \<Rightarrow> ('z, profile_response list) vop" where
  "list_profiles_route account_id =
     andthen (list_profiles account_id) (\<lambda>profiles. ret (map render_profile profiles))"

definition create_profile_route :: "env \<Rightarrow> string \<Rightarrow> string \<Rightarrow> ('z, profile_response) vop" where
  "create_profile_route w account_id name =
     andthen (guard (length name \<le> 64) INVALID_BODY) (\<lambda>_.
     andthen (create_profile w account_id name) (\<lambda>profile. ret (render_profile profile)))"

text \<open>The grants are looked up under the name of the profile that was found.\<close>

definition get_profile_route :: "string \<Rightarrow> string \<Rightarrow> ('z, profile_response) vop" where
  "get_profile_route account_id name =
     andthen (get_profile account_id name) (\<lambda>profile.
     let response = render_profile profile in
     andthen (delegation_list account_id (fp_name response)) (\<lambda>grants.
     ret (response\<lparr>fp_grants := map render_grant grants\<rparr>)))"

definition list_offline_grants :: "string \<Rightarrow> string \<Rightarrow> ('z, grant_response list) vop" where
  "list_offline_grants account_id name =
     andthen (delegation_list account_id name) (\<lambda>grants. ret (map render_grant grants))"

section \<open>Readiness\<close>

datatype health_status = STATUS_OK | STATUS_DEGRADED

record readiness =
  rd_code :: nat
  rd_status :: health_status
  rd_accounts :: nat
  rd_vault :: health_status
  rd_sealed :: bool
  rd_connections :: health_status
  rd_total :: nat
  rd_unusable :: nat

text \<open>Two counts over every connection of every profile.\<close>

definition connection_health :: "int \<Rightarrow> profile list \<Rightarrow> nat \<times> nat" where
  "connection_health now profiles =
     foldl (\<lambda>(total, unusable) c. (total + 1, if is_usable c now then unusable else unusable + 1)) (0, 0)
       (concat (map pr_connections profiles))"

definition check_readiness :: "env \<Rightarrow> vault \<Rightarrow> ('z, readiness) vop" where
  "check_readiness w v =
     andthen (reading all_profiles) (\<lambda>profiles.
     andthen (reading account_count) (\<lambda>accounts.
     let is_sealed = (va_master v = None);
         counts = connection_health (ev_now w) profiles;
         vault_check = (if is_sealed then STATUS_DEGRADED else STATUS_OK);
         connections_check = (if snd counts \<noteq> 0 then STATUS_DEGRADED else STATUS_OK);
         is_healthy = (vault_check = STATUS_OK \<and> connections_check = STATUS_OK)
     in ret \<lparr>rd_code = (if is_healthy then 200 else 503), rd_status = (if is_healthy then STATUS_OK else STATUS_DEGRADED),
          rd_accounts = accounts, rd_vault = vault_check, rd_sealed = is_sealed,
          rd_connections = connections_check, rd_total = fst counts, rd_unusable = snd counts\<rparr>))"

lemma connection_health_eq:
  "connection_health now profiles =
     (let cs = concat (map pr_connections profiles) in (length cs, length (filter (\<lambda>c. \<not> is_usable c now) cs)))"
proof -
  have "foldl (\<lambda>(total, unusable) c. (total + 1, if is_usable c now then unusable else unusable + 1)) (n, k) cs
      = (n + length cs, k + length (filter (\<lambda>c. \<not> is_usable c now) cs))" for cs n k
    by (induction cs arbitrary: n k) auto
  then show ?thesis by (simp add: connection_health_def Let_def)
qed

text \<open>Ready means: the vault is open and no connection of anybody has stopped working.\<close>

lemma ready_iff:
  "check_readiness w v s = (Inr r, t) \<Longrightarrow> rd_code r = 200 \<longleftrightarrow>
     va_master v \<noteq> None \<and> (\<forall>p \<in> set (all_profiles s). \<forall>c \<in> set (pr_connections p). is_usable c (ev_now w))"
  by (auto simp: check_readiness_def op_elims Let_def connection_health_eq filter_empty_conv split: if_splits)

section \<open>The sweep\<close>

definition sweep_guarded :: "env \<Rightarrow> ('z, unit) vop" where
  "sweep_guarded w s =
     (case sweep_once w s of
        (Inl e, s1) \<Rightarrow> (Inr (), s1)
      | (Inr swept, s1) \<Rightarrow> (case sweep_states w s1 of (Inl e, s2) \<Rightarrow> (Inl e, s2) | (Inr flows, s2) \<Rightarrow> (Inr (), s2)))"

section \<open>Blindness\<close>

text \<open>An operation that does the same, and answers the same, whatever is in the vault.\<close>

definition blind :: "('e, 'z db_scheme, 'a) op \<Rightarrow> bool" where
  "blind m \<longleftrightarrow> (\<forall>s x. m (s\<lparr>t_secrets := x\<rparr>) = (fst (m s), (snd (m s))\<lparr>t_secrets := x\<rparr>))"

named_theorems blind_intros "rules that prove an operation does not look into the vault"

lemma blindD: "blind m \<Longrightarrow> m (s\<lparr>t_secrets := x\<rparr>) = (fst (m s), (snd (m s))\<lparr>t_secrets := x\<rparr>)"
  by (simp add: blind_def)

lemma blind_ret [blind_intros]: "blind (ret x)"
  by (simp add: blind_def ret_simp)

lemma blind_raise [blind_intros]: "blind (raise e)"
  by (simp add: blind_def raise_simp)

lemma blind_guard [blind_intros]: "blind (guard b e)"
  by (simp add: blind_def guard_simp)

lemma blind_of_result [blind_intros]: "blind (of_result r)"
  by (simp add: blind_def of_result_simp)

lemma blind_reading: "(\<And>s x. f (s\<lparr>t_secrets := x\<rparr>) = f s) \<Longrightarrow> blind (reading f)"
  by (simp add: blind_def reading_simp)

lemma blind_andthen [blind_intros]:
  assumes "blind m" and "\<And>x. blind (f x)"
  shows "blind (andthen m f)"
proof -
  have "andthen m f (s\<lparr>t_secrets := x\<rparr>) = (fst (andthen m f s), (snd (andthen m f s))\<lparr>t_secrets := x\<rparr>)" for s x
    using blindD [OF assms(1), where s = s and x = x] blindD [OF assms(2)]
    by (cases "m s"; cases "fst (m s)") (simp_all add: andthen_simp)
  then show ?thesis by (simp add: blind_def)
qed

lemma blind_transact:
  assumes "\<And>s x. f (s\<lparr>t_secrets := x\<rparr>) = map_sum id (\<lambda>(y, t). (y, t\<lparr>t_secrets := x\<rparr>)) (f s)"
  shows "blind (transact f)"
  unfolding blind_def
proof (intro allI)
  fix s x
  show "transact f (s\<lparr>t_secrets := x\<rparr>) = (fst (transact f s), (snd (transact f s))\<lparr>t_secrets := x\<rparr>)"
    by (cases "f s") (auto simp: transact_simp assms)
qed

lemma blind_case [blind_intros]:
  "(\<And>x. blind (f x)) \<Longrightarrow> blind g \<Longrightarrow> blind (case v of None \<Rightarrow> g | Some x \<Rightarrow> f x)"
  "blind p \<Longrightarrow> blind q \<Longrightarrow> blind (if b then p else q)"
  by (simp_all split: option.split)

lemma blind_reads [blind_intros]:
  "blind (reading (account_get i))" "blind (reading (session_get_by_token_hash now h))"
  "blind (reading (profile_get a n))" "blind (reading (profile_list_for_account a))" "blind (reading all_profiles)"
  "blind (reading account_count)" "blind (reading (delegation_list_for_profile a n))" "blind (reading (role_resolve rs))"
  by (rule blind_reading, simp add: account_get_def read_one_fetch roles_of_def session_get_by_token_hash_def profile_get_fetch
      connections_of_def profile_list_for_account_def profile_read_many_def all_profiles_def account_count_def
      delegation_list_for_profile_def role_resolve_def)+

lemma blind_session [blind_intros]: "blind (resolve_session w token)"
proof -
  have "blind (transact (session_save x))" for x
    by (rule blind_transact) (simp add: session_save_def)
  then show ?thesis unfolding resolve_session_def Let_def by (intro blind_intros)
qed

section \<open>Everything that is read\<close>

text \<open>The routes that answer with what is stored, each with the credentials it takes.\<close>

datatype view_request =
    ViewProfiles "string option"
  | ViewProfile "string option" string
  | ViewGrants "string option" string
  | ViewDelegated "string option" "string option" string
  | ViewAccountProfiles "string option" string
  | ViewMe "string option"
  | ViewReadiness

datatype view =
    ProfilesShown "profile_response list"
  | ProfileShown profile_response
  | GrantsShown "grant_response list"
  | AdminProfilesShown "(string \<times> (string \<times> credential_kind \<times> connection_status) list) list"
  | AccountShown account_response
  | ReadinessShown readiness

fun handle_view :: "env \<Rightarrow> vault \<Rightarrow> signer \<Rightarrow> view_request \<Rightarrow> ('z, view) vop" where
  "handle_view w v g (ViewProfiles c) =
     andthen (current_account w c) (\<lambda>a. andthen (list_profiles_route (ac_id a)) (\<lambda>ps. ret (ProfilesShown ps)))"
| "handle_view w v g (ViewProfile c n) =
     andthen (current_account w c) (\<lambda>a. andthen (get_profile_route (ac_id a) n) (\<lambda>p. ret (ProfileShown p)))"
| "handle_view w v g (ViewGrants c n) =
     andthen (current_account w c) (\<lambda>a. andthen (list_offline_grants (ac_id a) n) (\<lambda>gs. ret (GrantsShown gs)))"
| "handle_view w v g (ViewDelegated c t n) =
     andthen (on_behalf w g c t (\<lambda>sv a. describe_delegated_profile n a)) (\<lambda>p. ret (ProfileShown (render_profile p)))"
| "handle_view w v g (ViewAccountProfiles c i) =
     andthen (get_actor w c) (\<lambda>actor. andthen (list_account_profiles_route actor i) (\<lambda>ps. ret (AdminProfilesShown ps)))"
| "handle_view w v g (ViewMe c) = andthen (me_route w c) (\<lambda>a. ret (AccountShown a))"
| "handle_view w v g ViewReadiness = andthen (check_readiness w v) (\<lambda>r. ret (ReadinessShown r))"

lemmas view_defs = list_profiles_route_def get_profile_route_def list_offline_grants_def on_behalf_def
  describe_delegated_profile_def list_account_profiles_route_def me_route_def check_readiness_def
  current_account_def get_current_session_def get_current_account_def get_actor_def actor_for_def
  list_profiles_def get_profile_def delegation_list_def delegation_profile_def admin_list_profiles_def
  require_def require_account_def

lemma blind_view: "blind (handle_view w v g q)"
  by (cases q) (simp_all only: handle_view.simps view_defs Let_def, (intro blind_intros)+)

end
