(* ===== verification/Gateway.thy ===== *)
theory Gateway
  imports Routing ReadViews
begin

text \<open>
  One HTTP request from the outside to its answer: the route it reaches, the dependencies of the
  handler (\<^verbatim>\<open>src/src/keyring_api/api/dependencies.py\<close>, \<^verbatim>\<open>routers/internal.py\<close>), the body, the handler, and
  the status and body or problem document that goes back. The parsing of JSON against a model is the
  framework's: a request carries the body as it was read, or that it is no JSON, or that it is not
  of the shape of the route. What is not JSON is refused before any dependency is resolved, what is
  of another shape after them. That every request is a run of requests of the services is proved at
  the end: what holds of all runs holds of all traffic.
\<close>

section \<open>Requests\<close>

datatype request_body =
    NoBody | NotJson | OtherBody
  | LoginBody string string | RedeemInviteBody string string | ChangePasswordBody string string
  | ResetRequestBody string | RedeemResetBody string string | ServiceTokenBody string
  | CreateProfileBody string | ApiKeyBody api_key_request | PasswordBody password_request
  | ConfirmBody "string option"
  | ExchangeBody exchange_request | GrantBody grant_request | DelegatedGrantBody delegated_grant_request
  | RoleBody string "string list" string | UpdateRoleBody "string list" string | RolesBody "string list"
  | StatusBody account_status | InviteBody string

text \<open>\<open>hq_limit\<close>: not given, not an integer, or the number.\<close>

record http_request =
  hq_method :: string
  hq_path :: string
  hq_bearer :: "string option"
  hq_user_token :: "string option"
  hq_body :: request_body
  hq_failures :: "raw_field_error list"
  hq_state :: "string option"
  hq_code :: "string option"
  hq_limit :: "int option option"
  hq_host :: "string option"
  hq_supplied_id :: "string option"
  hq_fresh_id :: string

section \<open>Answers\<close>

text \<open>\<open>LivenessResponse\<close> and the part of \<open>HealthResponse\<close> that is not a check.\<close>

record process_info =
  pi_version :: string
  pi_environment :: string
  pi_uptime_seconds :: rat

datatype payload =
    NothingSent | LivenessSent string process_info | ReadinessSent readiness process_info
  | SessionSent session_response | AccountSent account_response | RevokedSent nat | DetailSent string
  | ServiceTokenSent service_token_response
  | ProfilesSent "profile_response list" | ProfileSent profile_response | ConnectionSent connection_response
  | AuthorizationSent authorization | KeysSent "(string \<times> string) list list"
  | CredentialSent resolved_credential | FormSent string "(string \<times> string) list"
  | ExchangedSent exchanged_token | GrantSent grant_response | GrantsSent "grant_response list"
  | PermissionsSent "permission_info list" | RolesSent "role_response list" | RoleSent role_response
  | AccountsSent "account_summary list" | AccountSummarySent account_summary
  | AccountProfilesSent "(string \<times> (string \<times> credential_kind \<times> connection_status) list) list"
  | InviteSent invite_response | AuditSent "audit_entry list"

datatype http_answer = Answer nat payload | Refused problem

section \<open>The process\<close>

record 'z process =
  ps_matcher :: matcher
  ps_world :: "'z world"
  ps_signer :: signer
  ps_redirect_uri :: string
  ps_version :: string
  ps_environment :: string
  ps_started_monotonic :: rat
  ps_keys :: "(string \<times> string) list list"

text \<open>\<open>Container.uptime_seconds\<close>, rounded to three places.\<close>

definition uptime_seconds :: "'z process \<Rightarrow> rat" where
  "uptime_seconds p = ev_monotonic (wo_env (ps_world p)) - ps_started_monotonic p"

definition process_info_of :: "'z process \<Rightarrow> process_info" where
  "process_info_of p =
     \<lparr>pi_version = ps_version p, pi_environment = ps_environment p,
      pi_uptime_seconds = of_int (round_half_even (uptime_seconds p * 1000)) / 1000\<rparr>"

section \<open>Parts of a request\<close>

definition arg :: "string list \<Rightarrow> nat \<Rightarrow> string" where
  "arg args i = (if i < length args then args ! i else [])"

text \<open>The optional body that carries a password alone (\<open>ConfirmBody\<close>, \<open>_password\<close>).\<close>

definition confirming :: "request_body \<Rightarrow> (string option \<Rightarrow> ('z, 'a) vop) \<Rightarrow> ('z, 'a) vop" where
  "confirming body f =
     (case body of
        NoBody \<Rightarrow> f None
      | ConfirmBody password \<Rightarrow> andthen (guard (valid_confirmation password) INVALID_BODY) (\<lambda>_. f password)
      | _ \<Rightarrow> raise INVALID_BODY)"

definition sent :: "('a \<Rightarrow> payload) \<Rightarrow> ('z, 'a) vop \<Rightarrow> ('z, payload) vop" where
  "sent f m = andthen m (\<lambda>x. ret (f x))"

definition as_account :: "env \<Rightarrow> string option \<Rightarrow> (string \<Rightarrow> ('z, 'a) vop) \<Rightarrow> ('z, 'a) vop" where
  "as_account w credentials f = andthen (current_account w credentials) (\<lambda>account. f (ac_id account))"

definition as_actor :: "env \<Rightarrow> string option \<Rightarrow> (actor \<Rightarrow> ('z, 'a) vop) \<Rightarrow> ('z, 'a) vop" where
  "as_actor w credentials f = andthen (get_actor w credentials) f"

section \<open>Handlers\<close>

text \<open>The two resolutions, for the person and the service both credentials prove.\<close>

definition internal_resolve_credential ::
  "'z world \<Rightarrow> signer \<Rightarrow> string option \<Rightarrow> string option \<Rightarrow> string \<Rightarrow> string \<Rightarrow> ('z, resolved_credential) vop" where
  "internal_resolve_credential u g credentials user_token name service =
     on_behalf (wo_env u) g credentials user_token (\<lambda>_ account_id.
       resolve_credential (wo_special u) (wo_env u) (wo_vault u) (wo_providers u) (wo_endpoint u) account_id name service)"

definition internal_resolve_form ::
  "'z world \<Rightarrow> signer \<Rightarrow> string option \<Rightarrow> string option \<Rightarrow> string \<Rightarrow> string \<Rightarrow> ('z, (string \<times> string) list) vop" where
  "internal_resolve_form u g credentials user_token name service =
     on_behalf (wo_env u) g credentials user_token (\<lambda>_ account_id.
       resolve_form (wo_hmac_sha1 u) (wo_unix_time u) (wo_vault u) account_id name service)"

text \<open>What each operation does with the parameters of its path, the credentials and the body.\<close>

fun perform :: "'z process \<Rightarrow> http_request \<Rightarrow> string list \<Rightarrow> operation \<Rightarrow> ('z, payload) vop" where
  "perform p rq args OpGetHealth = ret (LivenessSent ''alive'' (process_info_of p))"
| "perform p rq args OpCheckReadiness =
     sent (\<lambda>r. ReadinessSent r (process_info_of p)) (check_readiness (wo_env (ps_world p)) (wo_vault (ps_world p)))"
| "perform p rq args OpLogin =
     (case hq_body rq of
        LoginBody e pw \<Rightarrow> sent SessionSent (login_route (wo_env (ps_world p)) e pw (hq_host rq))
      | _ \<Rightarrow> raise INVALID_BODY)"
| "perform p rq args OpLogout = sent (\<lambda>_. NothingSent) (logout_route (wo_env (ps_world p)) (hq_bearer rq))"
| "perform p rq args OpLogoutEverywhere =
     sent RevokedSent (logout_everywhere_route (wo_env (ps_world p)) (hq_bearer rq))"
| "perform p rq args OpGetCurrentAccount = sent AccountSent (me_route (wo_env (ps_world p)) (hq_bearer rq))"
| "perform p rq args OpRedeemInvite =
     (case hq_body rq of
        RedeemInviteBody t pw \<Rightarrow> sent AccountSent (redeem_invite_route (wo_env (ps_world p)) t pw (hq_host rq))
      | _ \<Rightarrow> raise INVALID_BODY)"
| "perform p rq args OpChangePassword =
     (case hq_body rq of
        ChangePasswordBody old new \<Rightarrow>
          sent (\<lambda>_. NothingSent) (change_password_route (wo_env (ps_world p)) (hq_bearer rq) old new)
      | _ \<Rightarrow> andthen (get_current_session (wo_env (ps_world p)) (hq_bearer rq)) (\<lambda>_. raise INVALID_BODY))"
| "perform p rq args OpRequestPasswordReset =
     (case hq_body rq of
        ResetRequestBody e \<Rightarrow> sent DetailSent (request_reset_route (wo_env (ps_world p)) e (hq_host rq))
      | _ \<Rightarrow> raise INVALID_BODY)"
| "perform p rq args OpRedeemPasswordReset =
     (case hq_body rq of
        RedeemResetBody t pw \<Rightarrow> sent (\<lambda>_. NothingSent) (redeem_reset_route (wo_env (ps_world p)) t pw (hq_host rq))
      | _ \<Rightarrow> raise INVALID_BODY)"
| "perform p rq args OpIssueServiceToken =
     (case hq_body rq of
        ServiceTokenBody a \<Rightarrow>
          sent ServiceTokenSent (issue_service_token (wo_env (ps_world p)) (ps_signer p) (hq_bearer rq) a)
      | _ \<Rightarrow> andthen (current_account (wo_env (ps_world p)) (hq_bearer rq)) (\<lambda>_. raise INVALID_BODY))"
| "perform p rq args OpListProfiles =
     as_account (wo_env (ps_world p)) (hq_bearer rq) (\<lambda>a. sent ProfilesSent (list_profiles_route a))"
| "perform p rq args OpCreateProfile =
     as_account (wo_env (ps_world p)) (hq_bearer rq) (\<lambda>a.
     case hq_body rq of
       CreateProfileBody n \<Rightarrow> sent ProfileSent (create_profile_route (wo_env (ps_world p)) a n)
     | _ \<Rightarrow> raise INVALID_BODY)"
| "perform p rq args OpGetProfile =
     as_account (wo_env (ps_world p)) (hq_bearer rq) (\<lambda>a. sent ProfileSent (get_profile_route a (arg args 0)))"
| "perform p rq args OpDeleteProfile =
     as_account (wo_env (ps_world p)) (hq_bearer rq) (\<lambda>a.
     confirming (hq_body rq) (\<lambda>pw.
     sent (\<lambda>_. NothingSent) (delete_profile_route (wo_env (ps_world p)) a (arg args 0) pw)))"
| "perform p rq args OpPutApiKey =
     as_account (wo_env (ps_world p)) (hq_bearer rq) (\<lambda>a.
     case hq_body rq of
       ApiKeyBody b \<Rightarrow> andthen (guard (valid_api_key_request b) INVALID_BODY) (\<lambda>_.
         sent (\<lambda>c. ConnectionSent (render_connection c))
           (put_api_key (wo_env (ps_world p)) (wo_vault (ps_world p)) a (arg args 0) (arg args 1) b))
     | _ \<Rightarrow> raise INVALID_BODY)"
| "perform p rq args OpPutPassword =
     as_account (wo_env (ps_world p)) (hq_bearer rq) (\<lambda>a.
     case hq_body rq of
       PasswordBody b \<Rightarrow> andthen (guard (valid_password_request b) INVALID_BODY) (\<lambda>_.
         sent (\<lambda>c. ConnectionSent (render_connection c))
           (put_password (wo_env (ps_world p)) (wo_vault (ps_world p)) a (arg args 0) (arg args 1) b))
     | _ \<Rightarrow> raise INVALID_BODY)"
| "perform p rq args OpAuthorizeConnection =
     as_account (wo_env (ps_world p)) (hq_bearer rq) (\<lambda>a.
     confirming (hq_body rq) (\<lambda>pw.
     sent AuthorizationSent
       (authorize_connection (wo_env (ps_world p)) (wo_providers (ps_world p)) (ps_redirect_uri p) a (arg args 0) (arg args 1) pw)))"
| "perform p rq args OpDeleteConnection =
     as_account (wo_env (ps_world p)) (hq_bearer rq) (\<lambda>a.
     confirming (hq_body rq) (\<lambda>pw.
     sent (\<lambda>_. NothingSent) (delete_connection (wo_env (ps_world p)) a (arg args 0) (arg args 1) pw)))"
| "perform p rq args OpCompleteAuthorization =
     (case (hq_state rq, hq_code rq) of
        (Some st, Some code) \<Rightarrow>
          sent (\<lambda>c. ConnectionSent (render_connection c))
            (change_complete_authorization (wo_env (ps_world p)) (wo_vault (ps_world p)) (wo_providers (ps_world p))
               (wo_endpoint (ps_world p)) st code)
      | _ \<Rightarrow> raise INVALID_BODY)"
| "perform p rq args OpGetJwks = ret (KeysSent (ps_keys p))"
| "perform p rq args OpResolveCredential =
     sent CredentialSent
       (internal_resolve_credential (ps_world p) (ps_signer p) (hq_bearer rq) (hq_user_token rq) (arg args 0) (arg args 1))"
| "perform p rq args OpResolveFormSecrets =
     sent (FormSent (arg args 1))
       (internal_resolve_form (ps_world p) (ps_signer p) (hq_bearer rq) (hq_user_token rq) (arg args 0) (arg args 1))"
| "perform p rq args OpExchangeUserToken =
     (case hq_body rq of
        ExchangeBody b \<Rightarrow>
          sent ExchangedSent (exchange_user_token (wo_env (ps_world p)) (ps_signer p) (hq_bearer rq) (hq_user_token rq) b)
      | _ \<Rightarrow> andthen (of_result (calling_service (ev_settings (wo_env (ps_world p))) (hq_bearer rq))) (\<lambda>_. raise INVALID_BODY))"
| "perform p rq args OpCreateOfflineGrant =
     as_account (wo_env (ps_world p)) (hq_bearer rq) (\<lambda>a.
     case hq_body rq of
       GrantBody b \<Rightarrow> sent (\<lambda>g. GrantSent (render_grant g)) (create_offline_grant (wo_env (ps_world p)) a (arg args 0) b)
     | _ \<Rightarrow> raise INVALID_BODY)"
| "perform p rq args OpListOfflineGrants =
     as_account (wo_env (ps_world p)) (hq_bearer rq) (\<lambda>a. sent GrantsSent (list_offline_grants a (arg args 0)))"
| "perform p rq args OpRevokeOfflineGrant =
     as_account (wo_env (ps_world p)) (hq_bearer rq) (\<lambda>a.
     sent (\<lambda>_. NothingSent) (delegation_revoke_grant (wo_env (ps_world p)) a (arg args 0) (arg args 1)))"
| "perform p rq args OpDescribeDelegatedProfile =
     sent (\<lambda>x. ProfileSent (render_profile x))
       (on_behalf (wo_env (ps_world p)) (ps_signer p) (hq_bearer rq) (hq_user_token rq) (\<lambda>sv a.
          describe_delegated_profile (arg args 0) a))"
| "perform p rq args OpAuthorizeDelegatedConnection =
     sent AuthorizationSent
       (on_behalf (wo_env (ps_world p)) (ps_signer p) (hq_bearer rq) (hq_user_token rq) (\<lambda>sv a.
          authorize_delegated_connection (wo_env (ps_world p)) (wo_providers (ps_world p)) (ps_redirect_uri p)
            (arg args 0) (arg args 1) a))"
| "perform p rq args OpDeleteDelegatedConnection =
     sent (\<lambda>_. NothingSent)
       (on_behalf (wo_env (ps_world p)) (ps_signer p) (hq_bearer rq) (hq_user_token rq) (\<lambda>sv a.
          delete_delegated_connection (wo_env (ps_world p)) (arg args 0) (arg args 1) a))"
| "perform p rq args OpCreateDelegatedGrant =
     on_behalf (wo_env (ps_world p)) (ps_signer p) (hq_bearer rq) (hq_user_token rq) (\<lambda>sv a.
     case hq_body rq of
       DelegatedGrantBody b \<Rightarrow>
         sent (\<lambda>g. GrantSent (render_grant g)) (create_delegated_grant (wo_env (ps_world p)) (arg args 0) b sv a)
     | _ \<Rightarrow> raise INVALID_BODY)"
| "perform p rq args OpRevokeDelegatedGrant =
     sent (\<lambda>_. NothingSent)
       (on_behalf (wo_env (ps_world p)) (ps_signer p) (hq_bearer rq) (hq_user_token rq) (\<lambda>sv a.
          revoke_delegated_grant (wo_env (ps_world p)) (arg args 0) (arg args 1) sv a))"
| "perform p rq args OpListPermissions =
     as_actor (wo_env (ps_world p)) (hq_bearer rq) (\<lambda>x. sent PermissionsSent (list_permissions_route x))"
| "perform p rq args OpListRoles =
     as_actor (wo_env (ps_world p)) (hq_bearer rq) (\<lambda>x. sent RolesSent (list_roles_route x))"
| "perform p rq args OpCreateRole =
     as_actor (wo_env (ps_world p)) (hq_bearer rq) (\<lambda>x.
     case hq_body rq of
       RoleBody n ps d \<Rightarrow> sent RoleSent (create_role_route (wo_env (ps_world p)) x n ps d)
     | _ \<Rightarrow> raise INVALID_BODY)"
| "perform p rq args OpUpdateRole =
     as_actor (wo_env (ps_world p)) (hq_bearer rq) (\<lambda>x.
     case hq_body rq of
       UpdateRoleBody ps d \<Rightarrow> sent RoleSent (update_role_route (wo_env (ps_world p)) x (arg args 0) ps d)
     | _ \<Rightarrow> raise INVALID_BODY)"
| "perform p rq args OpDeleteRole =
     as_actor (wo_env (ps_world p)) (hq_bearer rq) (\<lambda>x.
     sent (\<lambda>_. NothingSent) (delete_role_route (wo_env (ps_world p)) x (arg args 0)))"
| "perform p rq args OpListAccounts =
     as_actor (wo_env (ps_world p)) (hq_bearer rq) (\<lambda>x. sent AccountsSent (list_accounts_route (wo_env (ps_world p)) x))"
| "perform p rq args OpGetAccount =
     as_actor (wo_env (ps_world p)) (hq_bearer rq) (\<lambda>x.
     sent AccountSummarySent (get_account_route (wo_env (ps_world p)) x (arg args 0)))"
| "perform p rq args OpSetAccountRoles =
     as_actor (wo_env (ps_world p)) (hq_bearer rq) (\<lambda>x.
     case hq_body rq of
       RolesBody rs \<Rightarrow> sent AccountSummarySent (set_account_roles_route (wo_env (ps_world p)) x (arg args 0) rs)
     | _ \<Rightarrow> raise INVALID_BODY)"
| "perform p rq args OpSetAccountStatus =
     as_actor (wo_env (ps_world p)) (hq_bearer rq) (\<lambda>x.
     case hq_body rq of
       StatusBody st \<Rightarrow> sent AccountSummarySent (set_account_status_route (wo_env (ps_world p)) x (arg args 0) st)
     | _ \<Rightarrow> raise INVALID_BODY)"
| "perform p rq args OpRevokeAccountSessions =
     as_actor (wo_env (ps_world p)) (hq_bearer rq) (\<lambda>x.
     sent (\<lambda>r. RevokedSent (the (map_of r ''revoked'')))
       (revoke_account_sessions_route (wo_env (ps_world p)) x (arg args 0)))"
| "perform p rq args OpIssueAccountPasswordReset =
     as_actor (wo_env (ps_world p)) (hq_bearer rq) (\<lambda>x.
     sent InviteSent (issue_account_password_reset_route (wo_env (ps_world p)) x (arg args 0)))"
| "perform p rq args OpDeleteAccount =
     as_actor (wo_env (ps_world p)) (hq_bearer rq) (\<lambda>x.
     sent (\<lambda>_. NothingSent) (delete_account_route (wo_env (ps_world p)) x (arg args 0)))"
| "perform p rq args OpListAccountProfiles =
     as_actor (wo_env (ps_world p)) (hq_bearer rq) (\<lambda>x.
     sent AccountProfilesSent (list_account_profiles_route x (arg args 0)))"
| "perform p rq args OpDeleteAccountProfile =
     as_actor (wo_env (ps_world p)) (hq_bearer rq) (\<lambda>x.
     sent (\<lambda>_. NothingSent) (delete_account_profile_route (wo_env (ps_world p)) x (arg args 0) (arg args 1)))"
| "perform p rq args OpIssueInvite =
     as_actor (wo_env (ps_world p)) (hq_bearer rq) (\<lambda>x.
     case hq_body rq of
       InviteBody e \<Rightarrow> sent InviteSent (issue_invite_route (wo_env (ps_world p)) x e)
     | _ \<Rightarrow> raise INVALID_BODY)"
| "perform p rq args OpReadAuditLog =
     as_actor (wo_env (ps_world p)) (hq_bearer rq) (\<lambda>x.
     case hq_limit rq of
       None \<Rightarrow> sent AuditSent (read_audit_log_route x 100)
     | Some None \<Rightarrow> raise INVALID_BODY
     | Some (Some n) \<Rightarrow> sent AuditSent (read_audit_log_route x n))"

section \<open>From the path to the answer\<close>

definition request_id :: "http_request \<Rightarrow> string" where
  "request_id rq = request_id_of (hq_fresh_id rq) (hq_supplied_id rq)"

text \<open>What the framework raises itself comes back in the same form as everything else.\<close>

definition http_problem :: "http_request \<Rightarrow> nat \<Rightarrow> string \<Rightarrow> problem" where
  "http_problem rq code detail = problem_response (Some (request_id rq)) code detail None None []"

definition refusal :: "http_request \<Rightarrow> error \<Rightarrow> problem" where
  "refusal rq e =
     (if e = INVALID_BODY then validation_problem (Some (request_id rq)) (hq_failures rq)
      else render_error (Some (request_id rq)) e)"

definition status_sent :: "route \<Rightarrow> payload \<Rightarrow> nat" where
  "status_sent r x = (case x of ReadinessSent d i \<Rightarrow> rd_code d | _ \<Rightarrow> rt_status r)"

definition answer_of :: "http_request \<Rightarrow> route \<Rightarrow> payload result \<Rightarrow> http_answer" where
  "answer_of rq r result =
     (case result of Inl e \<Rightarrow> Refused (refusal rq e) | Inr x \<Rightarrow> Answer (status_sent r x) x)"

definition serve :: "'z process \<Rightarrow> http_request \<Rightarrow> 'z vsys_scheme \<Rightarrow> http_answer \<times> 'z vsys_scheme" where
  "serve p rq s =
     (case ps_matcher p ROUTES (hq_method rq) (hq_path rq) of
        NoRoute \<Rightarrow> (Refused (http_problem rq 404 ''Not Found''), s)
      | MethodNotAllowed \<Rightarrow> (Refused (http_problem rq 405 ''Method Not Allowed''), s)
      | Matched r args \<Rightarrow>
          if rt_body r \<noteq> NoBodyRead \<and> hq_body rq = NotJson then (Refused (refusal rq INVALID_BODY), s)
          else apfst (answer_of rq r) (perform p rq args (rt_operation r) s))"

fun serve_all :: "('z process \<times> http_request) list \<Rightarrow> 'z vsys_scheme \<Rightarrow> 'z vsys_scheme" where
  "serve_all [] s = s"
| "serve_all ((p, rq) # rqs) s = serve_all rqs (snd (serve p rq s))"

section \<open>Traffic is a run of the services\<close>

definition served_as :: "'z world \<Rightarrow> signer \<Rightarrow> ('z, 'a) vop \<Rightarrow> bool" where
  "served_as u g m \<longleftrightarrow> (\<forall>s. \<exists>qs. snd (m s) = app_run (map (\<lambda>q. (u, g, q)) qs) s)"

named_theorems served_intros "rules that prove an operation is a run of requests"

lemma app_run_append: "app_run (xs @ ys) s = app_run ys (app_run xs s)"
  by (induction xs s rule: app_run.induct) simp_all

lemma served_none: "(\<And>s. snd (m s) = s) \<Longrightarrow> served_as u g m"
  unfolding served_as_def by (metis app_run.simps(1) list.simps(8))

lemma served_one: "(\<And>s. snd (m s) = snd (handle_app u g q s)) \<Longrightarrow> served_as u g m"
  unfolding served_as_def by (rule allI, rule exI [where x = "[q]"]) simp

lemma served_simple [served_intros]:
  "served_as u g (ret x)" "served_as u g (raise e)" "served_as u g (guard b e)" "served_as u g (of_result r)"
  "served_as u g (reading f)"
  by (rule served_none, simp add: ret_simp raise_simp guard_simp of_result_simp reading_simp)+

lemma served_andthen [served_intros]:
  assumes "served_as u g m" and "\<And>x. served_as u g (f x)"
  shows "served_as u g (andthen m f)"
  unfolding served_as_def
proof
  fix s
  let ?e = "map (\<lambda>q. (u, g, q))"
  obtain qs where qs: "snd (m s) = app_run (?e qs) s" using assms(1) by (auto simp: served_as_def)
  show "\<exists>qs. snd (andthen m f s) = app_run (?e qs) s"
  proof (cases "fst (m s)")
    case (Inl e)
    then have "snd (andthen m f s) = snd (m s)" by (cases "m s") (simp add: andthen_def)
    then show ?thesis using qs by metis
  next
    case (Inr x)
    obtain rs where rs: "snd (f x (snd (m s))) = app_run (?e rs) (snd (m s))"
      using assms(2) by (auto simp: served_as_def)
    have "snd (andthen m f s) = snd (f x (snd (m s)))" using Inr by (cases "m s") (simp add: andthen_def)
    also have "\<dots> = app_run (?e (qs @ rs)) s" by (simp add: app_run_append qs [symmetric] rs)
    finally show ?thesis by (rule exI)
  qed
qed

lemma snd_quiet: "(\<And>x t. snd (f x t) = t) \<Longrightarrow> snd (andthen m f s) = snd (m s)"
  by (cases "m s"; cases "fst (m s)") (simp_all add: andthen_def)

lemma snd_sent [simp]: "snd (sent f m s) = snd (m s)"
  unfolding sent_def by (rule snd_quiet) (simp add: ret_simp)

lemma served_sent [served_intros]: "served_as u g m \<Longrightarrow> served_as u g (sent f m)"
  by (simp add: served_as_def)

lemma snd_answered: "snd (andthen m (\<lambda>_. ret ()) s) = snd (m s)"
  by (rule snd_quiet) (simp add: ret_simp)

lemma served_account_routes [served_intros]:
  "served_as u g (login_route (wo_env u) e pw h)" "served_as u g (logout_route (wo_env u) c)"
  "served_as u g (logout_everywhere_route (wo_env u) c)" "served_as u g (me_route (wo_env u) c)"
  "served_as u g (redeem_invite_route (wo_env u) t pw h)" "served_as u g (change_password_route (wo_env u) c pw new)"
  "served_as u g (request_reset_route (wo_env u) e h)" "served_as u g (redeem_reset_route (wo_env u) t pw h)"
  "served_as u g (issue_service_token (wo_env u) g c aud)"
  by (rule served_one [where q = "AccountRequest (LogIn e pw h)"], simp add: snd_answered)
    (rule served_one [where q = "AccountRequest (LogOut c)"], simp,
     rule served_one [where q = "AccountRequest (LogOutEverywhere c)"], simp add: snd_answered,
     rule served_one [where q = "AccountRequest (DescribeMe c)"], simp add: snd_answered,
     rule served_one [where q = "AccountRequest (RedeemInvite t pw h)"], simp add: snd_answered,
     rule served_one [where q = "AccountRequest (ChangePassword c pw new)"], simp,
     rule served_one [where q = "AccountRequest (RequestReset e h)"], simp add: snd_answered,
     rule served_one [where q = "AccountRequest (RedeemReset t pw h)"], simp,
     rule served_one [where q = "AccountRequest (IssueServiceToken c aud)"], simp add: snd_answered)

lemma snd_me: "snd (me_route w c s) = snd (current_account w c s)"
  unfolding me_route_def by (rule snd_quiet) (simp add: ret_simp)

lemma snd_current_session: "snd (current_account w c s) = snd (get_current_session w c s)"
  unfolding current_account_def
  by (rule snd_quiet) (simp add: get_current_account_def andthen_def reading_def raise_def ret_def split: option.split)

lemma served_credentials [served_intros]:
  "served_as u g (current_account (wo_env u) c)" "served_as u g (get_current_session (wo_env u) c)"
proof -
  show "served_as u g (current_account (wo_env u) c)"
    by (rule served_one [where q = "AccountRequest (DescribeMe c)"]) (simp add: snd_answered snd_me)
  then show "served_as u g (get_current_session (wo_env u) c)" by (simp add: served_as_def snd_current_session)
qed

lemma snd_require: "snd (require a perm s) = s"
  by (simp add: require_def guard_simp)

lemma snd_list_permissions: "snd (handle_admin_route w a ListPermissions s) = s"
  unfolding handle_admin_route.simps snd_answered list_permissions_route_def
  by (subst snd_quiet) (simp_all add: ret_simp snd_require)

lemma served_actor [served_intros]: "served_as u g (get_actor (wo_env u) c)"
  by (rule served_one [where q = "AdminRequest c ListPermissions"])
    (simp only: handle_app.simps admin_route_step_def snd_quiet [OF snd_list_permissions])

lemma served_admin:
  assumes "\<And>x. handle_admin_route (wo_env u) x q = andthen (m x) (\<lambda>_. ret ())"
  shows "served_as u g (as_actor (wo_env u) c (\<lambda>x. sent f (m x)))"
proof (rule served_one [where q = "AdminRequest c q"])
  fix s
  show "snd (as_actor (wo_env u) c (\<lambda>x. sent f (m x)) s) = snd (handle_app u g (AdminRequest c q) s)"
    by (cases "get_actor (wo_env u) c s"; cases "fst (get_actor (wo_env u) c s)")
      (simp_all add: as_actor_def admin_route_step_def assms andthen_def [of "get_actor (wo_env u) c"] snd_answered
        del: handle_admin_route.simps)
qed

lemma served_as_actor: "(\<And>x. served_as u g (f x)) \<Longrightarrow> served_as u g (as_actor (wo_env u) c f)"
  unfolding as_actor_def by (intro served_intros)

lemma served_for_account [served_intros]: "(\<And>a. served_as u g (f a)) \<Longrightarrow> served_as u g (as_account (wo_env u) c f)"
  unfolding as_account_def by (intro served_intros)

lemma served_confirming [served_intros]: "(\<And>pw. served_as u g (f pw)) \<Longrightarrow> served_as u g (confirming b f)"
  unfolding confirming_def by (cases b) (auto intro!: served_intros)

lemma served_on_behalf:
  "(\<And>sv a. served_as u g (f sv a)) \<Longrightarrow> served_as u g (on_behalf (wo_env u) h c t f)"
  unfolding on_behalf_def by (intro served_intros)

text \<open>Reading leaves everything as it is.\<close>

lemma served_reads [served_intros]:
  "served_as u g (list_profiles_route a)" "served_as u g (get_profile_route a n)"
  "served_as u g (list_offline_grants a n)" "served_as u g (describe_delegated_profile n a)"
  "served_as u g (check_readiness w v)"
  unfolding list_profiles_route_def list_profiles_def get_profile_route_def get_profile_def list_offline_grants_def
    delegation_list_def delegation_profile_def describe_delegated_profile_def check_readiness_def Let_def
  by (intro served_intros; auto intro!: served_intros split: option.split)+

lemma served_guarded:
  assumes "\<And>s. snd (handle_app u g q s) = snd (andthen (guard b e) (\<lambda>_. m) s)"
  shows "served_as u g (andthen (guard b e) (\<lambda>_. m))"
  using assms by (intro served_one [where q = q]) simp

lemma served_vault [served_intros]:
  "served_as u g (create_profile (wo_env u) a n)" "served_as u g (delete_profile_route (wo_env u) a n pw)"
  "served_as u g (authorize_connection (wo_env u) (wo_providers u) uri a n sv pw)"
  "served_as u g (change_complete_authorization (wo_env u) (wo_vault u) (wo_providers u) (wo_endpoint u) st code)"
  "served_as u g (delete_connection (wo_env u) a n sv pw)"
  "served_as u g (resolve_credential (wo_special u) (wo_env u) (wo_vault u) (wo_providers u) (wo_endpoint u) a n sv)"
  "served_as u g (resolve_form (wo_hmac_sha1 u) (wo_unix_time u) (wo_vault u) a n sv)"
  by (rule served_one [where q = "VaultRequest (CreateProfile a n)"], simp add: snd_answered)
    (rule served_one [where q = "VaultRequest (DeleteProfile a n pw)"], simp,
     rule served_one [where q = "VaultRequest (Authorize a n sv uri pw)"], simp add: snd_answered,
     rule served_one [where q = "VaultRequest (Callback st code)"], simp add: snd_answered,
     rule served_one [where q = "VaultRequest (DeleteConnection a n sv pw)"], simp,
     rule served_one [where q = "VaultRequest (ResolveCredential a n sv)"], simp add: snd_answered,
     rule served_one [where q = "VaultRequest (ResolveForm a n sv)"], simp add: snd_answered)

lemma snd_guarded: "snd (andthen (guard b e) (\<lambda>_. m) s) = (if b then snd (m s) else s)"
  by (simp add: andthen_def guard_simp)

lemma served_stores [served_intros]:
  "served_as u g (andthen (guard (valid_api_key_request b) INVALID_BODY) (\<lambda>_.
     sent f (put_api_key (wo_env u) (wo_vault u) a n sv b)))"
  "served_as u g (andthen (guard (valid_password_request c) INVALID_BODY) (\<lambda>_.
     sent f (put_password (wo_env u) (wo_vault u) a n sv c)))"
  by (rule served_one [where q = "VaultRequest (PutApiKey a n sv b)"], simp add: snd_guarded snd_answered)
    (rule served_one [where q = "VaultRequest (PutPassword a n sv c)"], simp add: snd_guarded snd_answered)

lemma served_create_profile_route [served_intros]: "served_as u g (create_profile_route (wo_env u) a n)"
  unfolding create_profile_route_def by (intro served_intros)

lemma served_delegation [served_intros]:
  "served_as u g (create_offline_grant (wo_env u) a n b)" "served_as u g (delegation_revoke_grant (wo_env u) a n i)"
  "served_as u g (exchange_user_token (wo_env u) g c t x)"
  by (rule served_one [where q = "DelegationRequest (CreateGrant a n b)"], simp add: snd_answered)
    (rule served_one [where q = "DelegationRequest (RevokeGrant a n i)"], simp,
     rule served_one [where q = "DelegationRequest (ExchangeToken c t x)"], simp add: snd_answered)

lemma served_internal [served_intros]:
  "served_as u g (internal_resolve_credential u g c t n sv)" "served_as u g (internal_resolve_form u g c t n sv)"
  unfolding internal_resolve_credential_def internal_resolve_form_def by (intro served_on_behalf served_intros)+

lemma served_delegated [served_intros]:
  "served_as u g (on_behalf (wo_env u) g c t (\<lambda>sv a. authorize_delegated_connection (wo_env u) (wo_providers u) uri n k a))"
  "served_as u g (on_behalf (wo_env u) g c t (\<lambda>sv a. delete_delegated_connection (wo_env u) n k a))"
  "served_as u g (on_behalf (wo_env u) g c t (\<lambda>sv a. revoke_delegated_grant (wo_env u) n i sv a))"
  by (rule served_one [where q = "DelegationRequest (AuthorizeDelegated c t n k uri)"], simp add: snd_answered)
    (rule served_one [where q = "DelegationRequest (DeleteDelegated c t n k)"], simp,
     rule served_one [where q = "DelegationRequest (RevokeDelegated c t n i)"], simp)

lemma on_behalf_sent: "sent f (on_behalf w g c t m) = on_behalf w g c t (\<lambda>sv a. sent f (m sv a))"
  by (simp add: sent_def on_behalf_def andthen_assoc)

lemma served_create_delegated [served_intros]:
  "served_as u g (on_behalf (wo_env u) g c t (\<lambda>sv a. sent f (create_delegated_grant (wo_env u) n b sv a)))"
  by (rule served_one [where q = "DelegationRequest (CreateDelegated c t n b)"])
    (simp add: snd_answered flip: on_behalf_sent)

lemma served_admin_routes [served_intros]:
  "served_as u g (as_actor (wo_env u) c (\<lambda>x. sent PermissionsSent (list_permissions_route x)))"
  "served_as u g (as_actor (wo_env u) c (\<lambda>x. sent RolesSent (list_roles_route x)))"
  "served_as u g (as_actor (wo_env u) c (\<lambda>x. sent RoleSent (create_role_route (wo_env u) x n ps d)))"
  "served_as u g (as_actor (wo_env u) c (\<lambda>x. sent RoleSent (update_role_route (wo_env u) x n ps d)))"
  "served_as u g (as_actor (wo_env u) c (\<lambda>x. sent (\<lambda>_. NothingSent) (delete_role_route (wo_env u) x n)))"
  "served_as u g (as_actor (wo_env u) c (\<lambda>x. sent AccountsSent (list_accounts_route (wo_env u) x)))"
  "served_as u g (as_actor (wo_env u) c (\<lambda>x. sent AccountSummarySent (get_account_route (wo_env u) x i)))"
  "served_as u g (as_actor (wo_env u) c (\<lambda>x. sent AccountSummarySent (set_account_roles_route (wo_env u) x i rs)))"
  "served_as u g (as_actor (wo_env u) c (\<lambda>x. sent AccountSummarySent (set_account_status_route (wo_env u) x i st)))"
  "served_as u g (as_actor (wo_env u) c (\<lambda>x. sent (\<lambda>r. RevokedSent (the (map_of r ''revoked''))) (revoke_account_sessions_route (wo_env u) x i)))"
  "served_as u g (as_actor (wo_env u) c (\<lambda>x. sent InviteSent (issue_account_password_reset_route (wo_env u) x i)))"
  "served_as u g (as_actor (wo_env u) c (\<lambda>x. sent (\<lambda>_. NothingSent) (delete_account_route (wo_env u) x i)))"
  "served_as u g (as_actor (wo_env u) c (\<lambda>x. sent AccountProfilesSent (list_account_profiles_route x i)))"
  "served_as u g (as_actor (wo_env u) c (\<lambda>x. sent (\<lambda>_. NothingSent) (delete_account_profile_route (wo_env u) x i n)))"
  "served_as u g (as_actor (wo_env u) c (\<lambda>x. sent InviteSent (issue_invite_route (wo_env u) x e)))"
  "served_as u g (as_actor (wo_env u) c (\<lambda>x. sent AuditSent (read_audit_log_route x k)))"
  by (rule served_admin [where q = "ListPermissions"], simp)
    (rule served_admin [where q = "ListRoles"], simp,
     rule served_admin [where q = "CreateRoleR n ps d"], simp,
     rule served_admin [where q = "UpdateRoleR n ps d"], simp,
     rule served_admin [where q = "DeleteRoleR n"], simp,
     rule served_admin [where q = "ListAccounts"], simp,
     rule served_admin [where q = "GetAccount i"], simp,
     rule served_admin [where q = "SetRolesR i rs"], simp,
     rule served_admin [where q = "SetStatusR i st"], simp,
     rule served_admin [where q = "RevokeSessionsR i"], simp,
     rule served_admin [where q = "IssueResetR i"], simp,
     rule served_admin [where q = "DeleteAccountR i"], simp,
     rule served_admin [where q = "ListAccountProfiles i"], simp,
     rule served_admin [where q = "DeleteAccountProfile i n"], simp,
     rule served_admin [where q = "InviteR e"], simp,
     rule served_admin [where q = "ReadAuditLog k"], simp)

lemma served_refused [served_intros]:
  "served_as u g (as_actor (wo_env u) c (\<lambda>x. raise e))"
  "served_as u g (on_behalf (wo_env u) h c t (\<lambda>sv a. raise e))"
  by (intro served_as_actor served_on_behalf served_intros)+

lemma served_described [served_intros]:
  "served_as u g (on_behalf (wo_env u) h c t (\<lambda>sv a. describe_delegated_profile n a))"
  by (intro served_on_behalf served_intros)

text \<open>
  Whatever a handler does to the state, a run of requests of the services does: what the guarantees
  over runs say, they say of traffic.
\<close>

lemma served_perform: "served_as (ps_world p) (ps_signer p) (perform p rq args op)"
proof (cases op)
  case OpCreateDelegatedGrant
  then show ?thesis by (cases "hq_body rq") (auto intro!: served_intros)
next
  case OpCreateRole
  then show ?thesis by (cases "hq_body rq") (auto intro!: served_intros)
next
  case OpUpdateRole
  then show ?thesis by (cases "hq_body rq") (auto intro!: served_intros)
next
  case OpSetAccountRoles
  then show ?thesis by (cases "hq_body rq") (auto intro!: served_intros)
next
  case OpSetAccountStatus
  then show ?thesis by (cases "hq_body rq") (auto intro!: served_intros)
next
  case OpIssueInvite
  then show ?thesis by (cases "hq_body rq") (auto intro!: served_intros)
next
  case OpReadAuditLog
  then show ?thesis by (cases "hq_limit rq"; cases "the (hq_limit rq)") (auto intro!: served_intros)
qed (auto intro!: served_intros split: request_body.split option.split)

lemma serve_is_run: "\<exists>qs. snd (serve p rq s) = app_run (map (\<lambda>q. (ps_world p, ps_signer p, q)) qs) s"
proof -
  have none: "\<exists>qs. s = app_run (map (\<lambda>q. (ps_world p, ps_signer p, q)) qs) s"
    by (rule exI [where x = "[]"]) simp
  show ?thesis
    using served_perform [of p rq] none
    by (auto simp: serve_def served_as_def split: dispatched.split)
qed

end
