(* ===== verification/CredentialClient.thy ===== *)
theory CredentialClient
  imports Jwks Problems Times
begin

text \<open>
  \<^verbatim>\<open>src/clients/python/keyring_client/credentials.py\<close>: what a consuming service asks of the internal
  surface and how each answer becomes a credential or an error.
  \<^verbatim>\<open>datetime.fromisoformat\<close> in all the shapes it reads is an argument: the fields and the offset.
\<close>

section \<open>Messages\<close>

definition UNREACHABLE :: message where "UNREACHABLE = [''keyring could not be reached'']"
definition REJECTED :: message where "REJECTED = [''keyring did not accept the credentials presented'']"
definition NOT_FOUND :: message where "NOT_FOUND = [''keyring has no such connection for this profile'']"
definition MALFORMED :: message where "MALFORMED = [''keyring's answer could not be understood'']"
definition UNUSABLE :: string where "UNUSABLE = ''keyring could not make the stored credential usable''"

section \<open>Paths\<close>

text \<open>\<open>urllib.parse.quote(s, safe='')\<close>: the UTF-8 bytes, percent-encoded unless unreserved.\<close>

definition utf8 :: "char \<Rightarrow> nat list" where
  "utf8 c = (let n = code_of c in if n < 128 then [n] else [192 + n div 64, 128 + n mod 64])"

definition is_unreserved :: "nat \<Rightarrow> bool" where
  "is_unreserved n \<longleftrightarrow> 48 \<le> n \<and> n \<le> 57 \<or> 65 \<le> n \<and> n \<le> 90 \<or> 97 \<le> n \<and> n \<le> 122 \<or> n \<in> {45, 46, 95, 126}"

definition upper_hex :: "nat \<Rightarrow> char" where
  "upper_hex n = (if n < 10 then char_of (48 + n) else char_of (55 + n))"

definition quote_byte :: "nat \<Rightarrow> string" where
  "quote_byte n = (if is_unreserved n then [char_of n] else [CHR ''%'', upper_hex (n div 16), upper_hex (n mod 16)])"

definition url_quote :: "string \<Rightarrow> string" where
  "url_quote s = concat (map quote_byte (concat (map utf8 s)))"

definition CREDENTIALS_PATH :: string where "CREDENTIALS_PATH = ''/v1/internal/credentials''"
definition FORM_SECRETS_PATH :: string where "FORM_SECRETS_PATH = ''/v1/internal/form-secrets''"

definition internal_path :: "string \<Rightarrow> string \<Rightarrow> string \<Rightarrow> string" where
  "internal_path base profile service = base @ ''/'' @ url_quote profile @ ''/'' @ url_quote service"

section \<open>Answers\<close>

text \<open>\<open>None\<close> is a body that is not JSON.\<close>

datatype http_outcome = HttpError | Response nat "document option"

definition detail_of :: "document option \<Rightarrow> string" where
  "detail_of body =
     (case body of
        Some (DObject entries) \<Rightarrow>
          (case map_of entries ''detail'' of Some (DText d) \<Rightarrow> if d = [] then UNUSABLE else d | _ \<Rightarrow> UNUSABLE)
      | _ \<Rightarrow> UNUSABLE)"

definition classify :: "http_outcome \<Rightarrow> client_error + (string \<times> document) list" where
  "classify outcome =
     (case outcome of
        HttpError \<Rightarrow> Inl (KeyringUnreachableError UNREACHABLE)
      | Response code body \<Rightarrow>
          if code = 401 then Inl (KeyringRejectedError REJECTED)
          else if code = 404 then Inl (CredentialNotFoundError NOT_FOUND)
          else if code = 503 then Inl (ClientCredentialUnavailableError [detail_of body])
          else if 400 \<le> code \<and> code \<le> 599 then Inl (KeyringUnreachableError UNREACHABLE)
          else (case body of
                  Some (DObject entries) \<Rightarrow> Inr entries
                | _ \<Rightarrow> Inl (KeyringUnreachableError MALFORMED)))"

fun texts :: "(string \<times> document) list \<Rightarrow> (string \<times> string) list option" where
  "texts [] = Some []"
| "texts ((k, d) # rest) =
     (case d of DText t \<Rightarrow> map_option (\<lambda>ts. (k, t) # ts) (texts rest) | _ \<Rightarrow> None)"

definition string_map :: "document option \<Rightarrow> (string \<times> string) list option" where
  "string_map d = (case d of Some (DObject entries) \<Rightarrow> texts entries | _ \<Rightarrow> None)"

record client_credential =
  cc_service :: string
  cc_headers :: "(string \<times> string) list"
  cc_query_params :: "(string \<times> string) list"
  cc_expires_at :: "int option"

text \<open>A naive timestamp is read as UTC; an offset is what local time is ahead of UTC, in microseconds.\<close>

type_synonym iso_reader = "string \<Rightarrow> (datetime \<times> int option) option"

definition with_offset :: "string \<Rightarrow> string" where
  "with_offset t = concat (map (\<lambda>c. if c = CHR ''Z'' then ''+00:00'' else [c]) t)"

definition client_moment :: "iso_reader \<Rightarrow> document option \<Rightarrow> int option" where
  "client_moment fromisoformat value =
     (case value of
        Some (DText t) \<Rightarrow>
          if t = [] then None
          else (case fromisoformat (with_offset t) of
                  None \<Rightarrow> None
                | Some (d, None) \<Rightarrow> Some (instant_of d)
                | Some (d, Some offset) \<Rightarrow> Some (instant_of d - offset))
      | _ \<Rightarrow> None)"

definition client_resolve_credential :: "iso_reader \<Rightarrow> string \<Rightarrow> http_outcome \<Rightarrow> client_error + client_credential" where
  "client_resolve_credential fromisoformat service outcome =
     (case classify outcome of
        Inl e \<Rightarrow> Inl e
      | Inr body \<Rightarrow>
          (case (string_map (map_of body ''headers''),
                 string_map (case map_of body ''query_params'' of None \<Rightarrow> Some (DObject []) | Some d \<Rightarrow> Some d)) of
             (Some headers, Some params) \<Rightarrow>
               Inr \<lparr>cc_service = service, cc_headers = headers, cc_query_params = params,
                    cc_expires_at = client_moment fromisoformat (map_of body ''expires_at'')\<rparr>
           | _ \<Rightarrow> Inl (KeyringUnreachableError MALFORMED)))"

definition client_resolve_form :: "string \<Rightarrow> http_outcome \<Rightarrow> client_error + (string \<times> (string \<times> string) list)" where
  "client_resolve_form service outcome =
     (case classify outcome of
        Inl e \<Rightarrow> Inl e
      | Inr body \<Rightarrow>
          (case string_map (map_of body ''fields'') of
             Some (f # fs) \<Rightarrow> Inr (service, f # fs)
           | _ \<Rightarrow> Inl (KeyringUnreachableError MALFORMED)))"

section \<open>What must be scrubbed\<close>

text \<open>\<open>value.split(" ", 1)[1]\<close>.\<close>

definition after_space :: "string \<Rightarrow> string" where
  "after_space t = drop 1 (dropWhile (\<lambda>c. c \<noteq> CHR '' '') t)"

text \<open>Sorted by length, longest first; the order among equal lengths is that of a Python set.\<close>

definition secrets_of :: "client_credential \<Rightarrow> string list" where
  "secrets_of c =
     (let headers = map snd (cc_headers c);
          found = headers @ map snd (cc_query_params c)
            @ map after_space (filter (\<lambda>t. CHR '' '' \<in> set t) headers)
      in rev (sort_key length (filter (\<lambda>t. t \<noteq> []) (remdups found))))"

section \<open>Facts\<close>

lemma upper_hex_not_slash: "n < 16 \<Longrightarrow> code_of (upper_hex n) \<noteq> 47"
  by (auto simp: upper_hex_def code_of_char_of)

lemma utf8_bytes: "b \<in> set (utf8 c) \<Longrightarrow> b < 256"
proof -
  have "(of_char c :: nat) div 64 < 4" using nat_of_char_less_256 [of c] by (simp add: less_mult_imp_div_less)
  then show "b \<in> set (utf8 c) \<Longrightarrow> b < 256" by (auto simp: utf8_def Let_def code_of_def split: if_splits)
qed

lemma quote_byte_not_slash: "n < 256 \<Longrightarrow> c \<in> set (quote_byte n) \<Longrightarrow> code_of c \<noteq> 47"
proof -
  assume n: "n < 256" and c: "c \<in> set (quote_byte n)"
  then have "n div 16 < 16" by simp
  note hex = upper_hex_not_slash [OF this] upper_hex_not_slash [of "n mod 16"]
  have "n \<noteq> 47" if "is_unreserved n" using that by (auto simp: is_unreserved_def)
  with n hex c show ?thesis by (auto simp: quote_byte_def code_of_char_of split: if_splits) (simp add: code_of_def)
qed

text \<open>An encoded segment holds no slash.\<close>

lemma url_quote_no_slash: "CHR ''/'' \<notin> set (url_quote s)"
proof
  assume "CHR ''/'' \<in> set (url_quote s)"
  then obtain n where "n < 256" "CHR ''/'' \<in> set (quote_byte n)"
    using utf8_bytes by (fastforce simp: url_quote_def)
  with quote_byte_not_slash have "code_of (CHR ''/'') \<noteq> 47" by blast
  then show False by (simp add: code_of_def)
qed

text \<open>
  But a profile named by two dots is a dot segment of the path, which a URL parser removes
  with the segment before it.
\<close>

lemma dots_are_not_encoded:
  "url_quote ''..'' = ''..'' \<and> internal_path CREDENTIALS_PATH ''..'' ''x'' = ''/v1/internal/credentials/../x''"
  by code_simp

text \<open>What the client makes of each refusal of the API.\<close>

definition problem_document :: "problem \<Rightarrow> document" where
  "problem_document p = DObject
     ([(''type'', DText (pb_type p)), (''title'', DText (pb_title p)),
       (''status'', DNumber (of_nat (pb_status p))), (''detail'', DText (pb_detail p))]
      @ (case pb_request_id p of None \<Rightarrow> [] | Some i \<Rightarrow> [(''request_id'', DText i)])
      @ (case pb_errors p of
           None \<Rightarrow> []
         | Some es \<Rightarrow> [(''errors'', DArray (map (\<lambda>e.
             DObject [(''location'', DText (fi_location e)), (''message'', DText (fi_message e))]) es))]))"

lemma classify_refusal:
  "classify (Response (status_of e) (Some (problem_document (render_error i e)))) =
    (if is_authentication_error e then Inl (KeyringRejectedError REJECTED)
     else if status_of e = 404 then Inl (CredentialNotFoundError NOT_FOUND)
     else if status_of e = 503
       then Inl (ClientCredentialUnavailableError [if snd (problem_of e) = [] then UNUSABLE else snd (problem_of e)])
     else Inl (KeyringUnreachableError UNREACHABLE))"
proof -
  have d: "detail_of (Some (problem_document (render_error i e))) =
      (if snd (problem_of e) = [] then UNUSABLE else snd (problem_of e))"
    by (simp add: detail_of_def problem_document_def render_error_detail)
  have "400 \<le> status_of e \<and> status_of e \<le> 599" by (cases e) (simp_all add: status_of_def)
  moreover have "status_of e = 401 \<longleftrightarrow> is_authentication_error e" by (cases e) (simp_all add: status_of_def)
  ultimately show ?thesis by (simp add: classify_def d)
qed

lemma texts_Some: "texts es = Some ts \<Longrightarrow> es = map (\<lambda>(k, t). (k, DText t)) ts"
  by (induction es arbitrary: ts) (auto split: document.splits)

lemma texts_of: "texts (map (\<lambda>(k, t). (k, DText t)) ts) = Some ts"
  by (induction ts) auto

section \<open>Moments\<close>

text \<open>
  A moment as the API renders it: the fields without an offset, the fraction left out when it is
  zero, and a Z. The reader of the standard library takes the same text with an offset of zero.
\<close>

definition iso_text :: "datetime \<Rightarrow> string" where
  "iso_text d = take (if dt_microsecond d = 0 then 19 else 26) (isoformat d)"

definition reads_iso :: "iso_reader \<Rightarrow> bool" where
  "reads_iso fromisoformat \<longleftrightarrow>
     (\<forall>d. valid d \<and> dt_aware d \<longrightarrow> fromisoformat (iso_text d @ ''+00:00'') = Some (d, Some 0))"

definition renders_iso :: "(int \<Rightarrow> string) \<Rightarrow> bool" where
  "renders_iso stamp \<longleftrightarrow> (\<forall>d. valid d \<and> dt_aware d \<longrightarrow> stamp (instant_of d) = iso_text d @ ''Z'')"

lemma dec_not_Z: "CHR ''Z'' \<notin> set (dec w n)"
proof (induction w arbitrary: n)
  case (Suc w)
  have "(of_char (char_of (48 + n mod 10) :: char) :: nat) < 58"
    by (subst digit_char, simp_all add: less_Suc_eq)
  moreover have "(of_char (CHR ''Z'') :: nat) = 90" by simp
  ultimately have "char_of (48 + n mod 10) \<noteq> CHR ''Z''" by force
  with Suc show ?case by auto
qed simp

lemma isoformat_not_Z: "CHR ''Z'' \<notin> set (isoformat d)"
  by (simp add: isoformat_def dec_not_Z)

lemma iso_text_not_Z: "CHR ''Z'' \<notin> set (iso_text d)"
  using isoformat_not_Z [of d] set_take_subset [of _ "isoformat d"] by (auto simp: iso_text_def)

lemma with_offset_unchanged: "CHR ''Z'' \<notin> set t \<Longrightarrow> with_offset t = t"
  by (induction t) (auto simp: with_offset_def)

lemma client_moment_reads_rendered:
  assumes "reads_iso r" and "renders_iso stamp" and "valid d" "dt_aware d"
  shows "client_moment r (Some (DText (stamp (instant_of d)))) = Some (instant_of d)"
proof -
  have "with_offset (iso_text d @ ''Z'') = iso_text d @ ''+00:00''"
    using with_offset_unchanged [OF iso_text_not_Z, of d] by (simp add: with_offset_def)
  with assms show ?thesis by (simp add: client_moment_def reads_iso_def renders_iso_def)
qed

text \<open>A reader of the two shapes does what is asked of it.\<close>

definition plain_reader :: iso_reader where
  "plain_reader t =
     (case from_column (if length t = 25 then take 19 t @ ''.000000+00:00'' else t) of
        Inl e \<Rightarrow> None | Inr d \<Rightarrow> Some (d, Some 0))"

lemma isoformat_split:
  "isoformat d = take 19 (isoformat d) @ ''.'' @ dec 6 (dt_microsecond d) @ ''+00:00''"
  "isoformat d = take 26 (isoformat d) @ ''+00:00''" "length (isoformat d) = 32"
  by (simp_all add: isoformat_def)

lemma plain_reader_reads: "reads_iso plain_reader"
  unfolding reads_iso_def
proof (intro allI impI)
  fix d assume d: "valid d \<and> dt_aware d"
  have c: "from_column (isoformat d) = Inr d"
    using d from_to_column [of d "isoformat d"] by (simp add: to_column_def)
  show "plain_reader (iso_text d @ ''+00:00'') = Some (d, Some 0)"
  proof (cases "dt_microsecond d = 0")
    case True
    have "dec 6 0 = ''000000''" by code_simp
    then have "take 19 (isoformat d) @ ''.000000+00:00'' = isoformat d"
      using isoformat_split(1) [of d] True by simp
    then show ?thesis by (simp add: plain_reader_def iso_text_def True c isoformat_split(3))
  next
    case False
    then show ?thesis
      using isoformat_split(2) [of d] by (simp add: plain_reader_def iso_text_def c isoformat_split(3))
  qed
qed

text \<open>A value comes before every value it contains.\<close>

lemma secrets_longest_first:
  assumes "i < j" "j < length (secrets_of c)"
  shows "length (secrets_of c ! j) \<le> length (secrets_of c ! i)"
proof -
  obtain ys where ys: "secrets_of c = rev ys" "sorted (map length ys)"
    by (auto simp: secrets_of_def Let_def)
  then have "sorted_wrt (\<ge>) (map length (secrets_of c))" by (simp add: rev_map [symmetric] sorted_wrt_rev)
  with assms show ?thesis by (simp add: sorted_wrt_iff_nth_less)
qed

lemma set_secrets_of:
  "set (secrets_of c) = {v \<in> snd ` set (cc_headers c) \<union> snd ` set (cc_query_params c)
     \<union> after_space ` {t \<in> snd ` set (cc_headers c). CHR '' '' \<in> set t}. v \<noteq> []}"
  by (simp only: secrets_of_def Let_def set_rev set_sort set_filter set_remdups set_append set_map Un_assoc)

lemma secrets_complete:
  assumes "(k, v) \<in> set (cc_headers c) \<or> (k, v) \<in> set (cc_query_params c)" and "v \<noteq> []"
  shows "v \<in> set (secrets_of c)"
proof -
  have "v \<in> snd ` set (cc_headers c) \<union> snd ` set (cc_query_params c)"
    using assms(1) by (metis UnI1 UnI2 image_eqI snd_conv)
  with assms(2) show ?thesis unfolding set_secrets_of by blast
qed

lemma bearer_secret:
  assumes "(k, ''Bearer '' @ t) \<in> set (cc_headers c)" and "t \<noteq> []"
  shows "t \<in> set (secrets_of c)"
proof -
  let ?v = "''Bearer '' @ t"
  have "?v \<in> {t \<in> snd ` set (cc_headers c). CHR '' '' \<in> set t}"
    using imageI [OF assms(1), of snd] by simp
  then have "after_space ?v \<in> after_space ` {t \<in> snd ` set (cc_headers c). CHR '' '' \<in> set t}"
    by (rule imageI)
  moreover have "after_space ?v = t" by (simp add: after_space_def)
  ultimately have "t \<in> after_space ` {t \<in> snd ` set (cc_headers c). CHR '' '' \<in> set t}" by simp
  with assms(2) show ?thesis unfolding set_secrets_of by blast
qed

end
