(* ===== verification/Wire.thy ===== *)
theory Wire
  imports Gateway CredentialClient
begin

text \<open>
  What goes over the wire: the response models of \<^verbatim>\<open>src/src/keyring_api/api/schemas\<close> as JSON documents,
  with the words of the enumerations, and an answer as status and document. How a moment is written
  into JSON is the framework's (\<open>stamp\<close>).
\<close>

section \<open>Enumerations\<close>

fun credential_kind_value :: "credential_kind \<Rightarrow> string" where
  "credential_kind_value API_KEY = ''api_key''"
| "credential_kind_value OAUTH2_AUTHORIZATION_CODE = ''oauth2_authorization_code''"
| "credential_kind_value PASSWORD = ''password''"

fun connection_status_value :: "connection_status \<Rightarrow> string" where
  "connection_status_value CONN_ACTIVE = ''active''"
| "connection_status_value PENDING = ''pending''"
| "connection_status_value EXPIRED = ''expired''"
| "connection_status_value REVOKED = ''revoked''"

fun account_status_value :: "account_status \<Rightarrow> string" where
  "account_status_value ACTIVE = ''active''"
| "account_status_value DISABLED = ''disabled''"

fun audit_action_value :: "audit_action \<Rightarrow> string" where
  "audit_action_value ACCOUNT_INVITED = ''account.invited''"
| "audit_action_value ACCOUNT_DELETED = ''account.deleted''"
| "audit_action_value ACCOUNT_DISABLED = ''account.disabled''"
| "audit_action_value ACCOUNT_ENABLED = ''account.enabled''"
| "audit_action_value ACCOUNT_SESSIONS_REVOKED = ''account.sessions_revoked''"
| "audit_action_value ACCOUNT_PASSWORD_RESET_ISSUED = ''account.password_reset_issued''"
| "audit_action_value ROLES_ASSIGNED = ''roles.assigned''"
| "audit_action_value ROLE_CREATED = ''role.created''"
| "audit_action_value ROLE_UPDATED = ''role.updated''"
| "audit_action_value ROLE_DELETED = ''role.deleted''"
| "audit_action_value PROFILE_DELETED_BY_ADMIN = ''profile.deleted_by_admin''"
| "audit_action_value DELEGATION_CREATED = ''delegation.created''"
| "audit_action_value DELEGATION_REVOKED = ''delegation.revoked''"
| "audit_action_value TOKEN_EXCHANGED = ''delegation.token_exchanged''"

fun health_status_value :: "health_status \<Rightarrow> string" where
  "health_status_value STATUS_OK = ''ok''"
| "health_status_value STATUS_DEGRADED = ''degraded''"

section \<open>Documents\<close>

definition maybe :: "('a \<Rightarrow> document) \<Rightarrow> 'a option \<Rightarrow> document" where
  "maybe f x = (case x of None \<Rightarrow> DNull | Some y \<Rightarrow> f y)"

definition text_array :: "string list \<Rightarrow> document" where
  "text_array xs = DArray (map DText xs)"

definition text_object :: "(string \<times> string) list \<Rightarrow> document" where
  "text_object entries = DObject (map (\<lambda>(k, t). (k, DText t)) entries)"

definition number :: "int \<Rightarrow> document" where
  "number n = DNumber (of_int n)"

definition session_document :: "(int \<Rightarrow> string) \<Rightarrow> session_response \<Rightarrow> document" where
  "session_document stamp r =
     DObject [(''session_id'', DText (sp_session_id r)), (''token'', DText (sp_token r)),
       (''expires_at'', DText (stamp (sp_expires_at r)))]"

definition account_document :: "(int \<Rightarrow> string) \<Rightarrow> account_response \<Rightarrow> document" where
  "account_document stamp r =
     DObject [(''account_id'', DText (ap_account_id r)), (''email'', DText (ap_email r)),
       (''created_at'', DText (stamp (ap_created_at r)))]"

definition service_token_document :: "service_token_response \<Rightarrow> document" where
  "service_token_document r =
     DObject [(''token'', DText (sv_token r)), (''token_type'', DText ''Bearer''), (''expires_in'', number (sv_expires_in r))]"

definition connection_document :: "(int \<Rightarrow> string) \<Rightarrow> connection_response \<Rightarrow> document" where
  "connection_document stamp r =
     DObject [(''service'', DText (nr_service r)), (''kind'', DText (credential_kind_value (nr_kind r))),
       (''status'', DText (connection_status_value (nr_status r))),
       (''created_at'', DText (stamp (nr_created_at r))), (''updated_at'', DText (stamp (nr_updated_at r))),
       (''expires_at'', maybe (\<lambda>t. DText (stamp t)) (nr_expires_at r)), (''scopes'', text_array (nr_scopes r)),
       (''stores_totp_seed'', DBool (nr_stores_totp_seed r)), (''last_error'', maybe DText (nr_last_error r))]"

definition grant_document :: "(int \<Rightarrow> string) \<Rightarrow> grant_response \<Rightarrow> document" where
  "grant_document stamp r =
     DObject [(''grant_id'', DText (gp_grant_id r)), (''profile'', DText (gp_profile r)),
       (''service'', DText (gp_service r)), (''audiences'', text_array (gp_audiences r)),
       (''created_at'', DText (stamp (gp_created_at r))), (''expires_at'', DText (stamp (gp_expires_at r))),
       (''revoked_at'', maybe (\<lambda>t. DText (stamp t)) (gp_revoked_at r))]"

definition profile_document :: "(int \<Rightarrow> string) \<Rightarrow> profile_response \<Rightarrow> document" where
  "profile_document stamp r =
     DObject [(''name'', DText (fp_name r)), (''created_at'', DText (stamp (fp_created_at r))),
       (''updated_at'', DText (stamp (fp_updated_at r))),
       (''connections'', DArray (map (connection_document stamp) (fp_connections r))),
       (''grants'', DArray (map (grant_document stamp) (fp_grants r)))]"

definition authorization_document :: "(int \<Rightarrow> string) \<Rightarrow> authorization \<Rightarrow> document" where
  "authorization_document stamp a =
     DObject [(''authorization_url'', DText (au_url a)), (''expires_at'', DText (stamp (au_expires_at a)))]"

definition credential_document :: "(int \<Rightarrow> string) \<Rightarrow> resolved_credential \<Rightarrow> document" where
  "credential_document stamp r =
     DObject [(''service'', DText (rc_service r)), (''headers'', text_object (rc_headers r)),
       (''query_params'', text_object (rc_query_params r)),
       (''expires_at'', maybe (\<lambda>t. DText (stamp t)) (rc_expires_at r))]"

definition form_document :: "string \<Rightarrow> (string \<times> string) list \<Rightarrow> document" where
  "form_document service typed = DObject [(''service'', DText service), (''fields'', text_object typed)]"

definition exchanged_document :: "(int \<Rightarrow> string) \<Rightarrow> exchanged_token \<Rightarrow> document" where
  "exchanged_document stamp r =
     DObject [(''token'', DText (xt_token r)), (''token_type'', DText ''Bearer''),
       (''expires_in'', number (xt_expires_in r)), (''expires_at'', DText (stamp (xt_expires_at r)))]"

definition role_document :: "(int \<Rightarrow> string) \<Rightarrow> role_response \<Rightarrow> document" where
  "role_document stamp r =
     DObject [(''name'', DText (rp_name r)), (''description'', DText (rp_description r)),
       (''permissions'', text_array (rp_permissions r)), (''builtin'', DBool (rp_builtin r)),
       (''created_at'', maybe (\<lambda>t. DText (stamp t)) (rp_created_at r)),
       (''updated_at'', maybe (\<lambda>t. DText (stamp t)) (rp_updated_at r))]"

definition account_summary_document :: "(int \<Rightarrow> string) \<Rightarrow> account_summary \<Rightarrow> document" where
  "account_summary_document stamp r =
     DObject [(''account_id'', DText (as_account_id r)), (''email'', DText (as_email r)),
       (''status'', DText (account_status_value (as_status r))), (''roles'', text_array (as_roles r)),
       (''created_at'', DText (stamp (as_created_at r))), (''updated_at'', DText (stamp (as_updated_at r))),
       (''locked'', DBool (as_locked r))]"

definition permission_document :: "permission_info \<Rightarrow> document" where
  "permission_document r = DObject [(''name'', DText (pm_name r)), (''description'', DText (pm_description r))]"

definition invite_document :: "(int \<Rightarrow> string) \<Rightarrow> invite_response \<Rightarrow> document" where
  "invite_document stamp r =
     DObject [(''grant_id'', DText (ir_grant_id r)), (''expires_at'', DText (stamp (ir_expires_at r))),
       (''delivered'', DBool (ir_delivered r)), (''token'', maybe DText (ir_token r))]"

definition audit_document :: "(int \<Rightarrow> string) \<Rightarrow> audit_entry \<Rightarrow> document" where
  "audit_document stamp e =
     DObject [(''entry_id'', DText (au_entry_id e)), (''at'', DText (stamp (au_at e))),
       (''action'', DText (audit_action_value (au_action e))), (''actor_id'', DText (au_actor_id e)),
       (''target_id'', maybe DText (au_target_id e)), (''detail'', DText (au_detail e))]"

definition profile_summary_document ::
  "string \<times> (string \<times> credential_kind \<times> connection_status) list \<Rightarrow> document" where
  "profile_summary_document p =
     DObject [(''name'', DText (fst p)),
       (''connections'', DArray (map (\<lambda>(service, kind, status).
          text_object [(''service'', service), (''kind'', credential_kind_value kind),
            (''status'', connection_status_value status)]) (snd p)))]"

section \<open>Health\<close>

definition liveness_document :: "string \<Rightarrow> process_info \<Rightarrow> document" where
  "liveness_document status i =
     DObject [(''status'', DText status), (''version'', DText (pi_version i)),
       (''environment'', DText (pi_environment i)), (''uptime_seconds'', DNumber (pi_uptime_seconds i))]"

definition check_document :: "health_status \<Rightarrow> (string \<times> document) list \<Rightarrow> document" where
  "check_document status detail = DObject [(''status'', DText (health_status_value status)), (''detail'', DObject detail)]"

definition readiness_document :: "readiness \<Rightarrow> process_info \<Rightarrow> document" where
  "readiness_document r i =
     DObject [(''status'', DText (health_status_value (rd_status r))), (''version'', DText (pi_version i)),
       (''environment'', DText (pi_environment i)), (''uptime_seconds'', DNumber (pi_uptime_seconds i)),
       (''checks'', DObject
          [(''accounts'', check_document STATUS_OK [(''accounts'', DNumber (of_nat (rd_accounts r)))]),
           (''vault'', check_document (rd_vault r)
              [(''sealed'', DBool (rd_sealed r)),
               (''fix'', if rd_sealed r then DText ''set KEYRING_MASTER_KEY'' else DNull)]),
           (''connections'', check_document (rd_connections r)
              [(''total'', DNumber (of_nat (rd_total r))), (''unusable'', DNumber (of_nat (rd_unusable r)))])])]"

section \<open>Answers\<close>

fun payload_document :: "(int \<Rightarrow> string) \<Rightarrow> payload \<Rightarrow> document option" where
  "payload_document stamp NothingSent = None"
| "payload_document stamp (LivenessSent status i) = Some (liveness_document status i)"
| "payload_document stamp (ReadinessSent r i) = Some (readiness_document r i)"
| "payload_document stamp (SessionSent r) = Some (session_document stamp r)"
| "payload_document stamp (AccountSent r) = Some (account_document stamp r)"
| "payload_document stamp (RevokedSent n) = Some (DObject [(''revoked'', DNumber (of_nat n))])"
| "payload_document stamp (DetailSent d) = Some (DObject [(''detail'', DText d)])"
| "payload_document stamp (ServiceTokenSent r) = Some (service_token_document r)"
| "payload_document stamp (ProfilesSent ps) = Some (DObject [(''profiles'', DArray (map (profile_document stamp) ps))])"
| "payload_document stamp (ProfileSent r) = Some (profile_document stamp r)"
| "payload_document stamp (ConnectionSent r) = Some (connection_document stamp r)"
| "payload_document stamp (AuthorizationSent a) = Some (authorization_document stamp a)"
| "payload_document stamp (KeysSent ks) = Some (DObject [(''keys'', DArray (map text_object ks))])"
| "payload_document stamp (CredentialSent r) = Some (credential_document stamp r)"
| "payload_document stamp (FormSent service typed) = Some (form_document service typed)"
| "payload_document stamp (ExchangedSent r) = Some (exchanged_document stamp r)"
| "payload_document stamp (GrantSent r) = Some (grant_document stamp r)"
| "payload_document stamp (GrantsSent gs) = Some (DObject [(''grants'', DArray (map (grant_document stamp) gs))])"
| "payload_document stamp (PermissionsSent ps) = Some (DObject [(''permissions'', DArray (map permission_document ps))])"
| "payload_document stamp (RolesSent rs) = Some (DObject [(''roles'', DArray (map (role_document stamp) rs))])"
| "payload_document stamp (RoleSent r) = Some (role_document stamp r)"
| "payload_document stamp (AccountsSent xs) =
     Some (DObject [(''accounts'', DArray (map (account_summary_document stamp) xs))])"
| "payload_document stamp (AccountSummarySent r) = Some (account_summary_document stamp r)"
| "payload_document stamp (AccountProfilesSent ps) = Some (DArray (map profile_summary_document ps))"
| "payload_document stamp (InviteSent r) = Some (invite_document stamp r)"
| "payload_document stamp (AuditSent es) = Some (DObject [(''entries'', DArray (map (audit_document stamp) es))])"

definition wire :: "(int \<Rightarrow> string) \<Rightarrow> http_answer \<Rightarrow> http_outcome" where
  "wire stamp a =
     (case a of
        Answer status x \<Rightarrow> Response status (payload_document stamp x)
      | Refused p \<Rightarrow> Response (pb_status p) (Some (problem_document p)))"

end
