(* ===== verification/EndToEnd.thy ===== *)
theory EndToEnd
  imports Revocation Wire
begin

text \<open>
  The whole way of a credential: a consuming service asks with the client library, the request
  reaches its route and the handlers of \<^verbatim>\<open>src/src/keyring_api/api/routers/internal.py\<close>, and the answer
  is read by the client again. The framework is how it reads an Authorization
  header, how it writes a moment into JSON, and its matcher of paths.
\<close>

section \<open>Requests\<close>

record internal_request =
  iq_path :: string
  iq_authorization :: "string option"
  iq_user_token :: "string option"

definition client_request :: "string \<Rightarrow> string \<Rightarrow> string \<Rightarrow> string \<Rightarrow> string \<Rightarrow> internal_request" where
  "client_request service_token base user_token profile service =
     \<lparr>iq_path = internal_path base profile service, iq_authorization = Some (''Bearer '' @ service_token),
      iq_user_token = Some user_token\<rparr>"

record framework =
  fw_bearer :: "string option \<Rightarrow> string option"
  fw_stamp :: "int \<Rightarrow> string"

text \<open>What is relied on: a token without white space around it arrives, and paths follow the templates.\<close>

definition reads_bearer :: "framework \<Rightarrow> bool" where
  "reads_bearer fw \<longleftrightarrow> (\<forall>t. t \<noteq> [] \<and> strip t = t \<longrightarrow> fw_bearer fw (Some (''Bearer '' @ t)) = Some t)"

definition as_documented :: "framework \<Rightarrow> 'z process \<Rightarrow> bool" where
  "as_documented fw p \<longleftrightarrow> reads_bearer fw \<and> follows_templates (ps_matcher p)"

text \<open>A segment of a path that needs no encoding and is no dot segment.\<close>

definition plain_segment :: "string \<Rightarrow> bool" where
  "plain_segment s \<longleftrightarrow> s \<noteq> [] \<and> s \<noteq> ''.'' \<and> s \<noteq> ''..'' \<and> list_all (\<lambda>c. is_unreserved (code_of c)) s"

definition received :: "framework \<Rightarrow> string \<Rightarrow> internal_request \<Rightarrow> http_request" where
  "received fw fresh_id rq =
     \<lparr>hq_method = ''GET'', hq_path = iq_path rq, hq_bearer = fw_bearer fw (iq_authorization rq),
      hq_user_token = iq_user_token rq, hq_body = NoBody, hq_failures = [], hq_state = None, hq_code = None,
      hq_limit = None, hq_host = None, hq_supplied_id = None, hq_fresh_id = fresh_id\<rparr>"

definition serve_client ::
  "framework \<Rightarrow> 'z process \<Rightarrow> string \<Rightarrow> internal_request \<Rightarrow> 'z vsys_scheme \<Rightarrow> http_outcome \<times> 'z vsys_scheme" where
  "serve_client fw p fresh_id rq s = apfst (wire (fw_stamp fw)) (serve p (received fw fresh_id rq) s)"

text \<open>What the client makes of the whole exchange.\<close>

definition fetch_credential ::
  "framework \<Rightarrow> iso_reader \<Rightarrow> 'z process \<Rightarrow> string \<Rightarrow> string \<Rightarrow> string \<Rightarrow> string \<Rightarrow> string
    \<Rightarrow> 'z vsys_scheme \<Rightarrow> (client_error + client_credential) \<times> 'z vsys_scheme" where
  "fetch_credential fw reader p fresh_id service_token user_token profile service s =
     apfst (client_resolve_credential reader service)
       (serve_client fw p fresh_id (client_request service_token CREDENTIALS_PATH user_token profile service) s)"

definition fetch_form ::
  "framework \<Rightarrow> 'z process \<Rightarrow> string \<Rightarrow> string \<Rightarrow> string \<Rightarrow> string \<Rightarrow> string
    \<Rightarrow> 'z vsys_scheme \<Rightarrow> (client_error + (string \<times> (string \<times> string) list)) \<times> 'z vsys_scheme" where
  "fetch_form fw p fresh_id service_token user_token profile service s =
     apfst (client_resolve_form service)
       (serve_client fw p fresh_id (client_request service_token FORM_SECRETS_PATH user_token profile service) s)"

section \<open>On the way\<close>

lemma quote_plain: "list_all (\<lambda>c. is_unreserved (code_of c)) s \<Longrightarrow> url_quote s = s"
proof (induction s)
  case (Cons c s)
  then have c: "is_unreserved (code_of c)" by simp
  then have "code_of c < 128" by (auto simp: is_unreserved_def)
  with Cons c show ?case by (simp add: url_quote_def utf8_def quote_byte_def code_of_def)
qed (simp add: url_quote_def)

lemma whole_plain: "plain_segment s \<Longrightarrow> whole_segment s"
proof -
  assume s: "plain_segment s"
  have "is_unreserved (code_of c) \<Longrightarrow> c \<noteq> CHR ''/''" for c by (auto simp: is_unreserved_def code_of_def)
  with s show ?thesis by (auto simp: plain_segment_def whole_segment_def list_all_iff)
qed

lemma internal_routes:
  "route_resolve_credential \<in> set ROUTES" "route_resolve_form_secrets \<in> set ROUTES"
  "rt_method route_resolve_credential = ''GET''" "rt_method route_resolve_form_secrets = ''GET''"
  "rt_operation route_resolve_credential = OpResolveCredential" "rt_operation route_resolve_form_secrets = OpResolveFormSecrets"
  "arity (rt_path route_resolve_credential) = 2" "arity (rt_path route_resolve_form_secrets) = 2"
  "rt_body route_resolve_credential = NoBodyRead" "rt_body route_resolve_form_secrets = NoBodyRead"
  "rt_status route_resolve_credential = 200" "rt_status route_resolve_form_secrets = 200"
proof -
  show "route_resolve_credential \<in> set ROUTES" "route_resolve_form_secrets \<in> set ROUTES"
    by (simp_all add: ROUTES_def internal_router_def)
qed code_simp+

lemma internal_templates:
  "rt_path route_resolve_credential = [Lit [], Lit ''v1'', Lit ''internal'', Lit ''credentials'', Param ''profile'', Param ''service'']"
  "rt_path route_resolve_form_secrets = [Lit [], Lit ''v1'', Lit ''internal'', Lit ''form-secrets'', Param ''profile'', Param ''service'']"
  by code_simp+

lemma internal_paths:
  assumes "plain_segment n" "plain_segment sv"
  shows "internal_path CREDENTIALS_PATH n sv = path_of route_resolve_credential [n, sv]"
    and "internal_path FORM_SECRETS_PATH n sv = path_of route_resolve_form_secrets [n, sv]"
proof -
  have "url_quote n = n" "url_quote sv = sv" using assms quote_plain by (auto simp: plain_segment_def)
  then show "internal_path CREDENTIALS_PATH n sv = path_of route_resolve_credential [n, sv]"
    and "internal_path FORM_SECRETS_PATH n sv = path_of route_resolve_form_secrets [n, sv]"
    by (simp_all add: path_of_def internal_templates internal_path_def CREDENTIALS_PATH_def FORM_SECRETS_PATH_def)
qed

text \<open>An answer of the two handlers, as it comes back to the client.\<close>

definition returned :: "framework \<Rightarrow> http_request \<Rightarrow> ('a \<Rightarrow> document) \<Rightarrow> 'a result \<Rightarrow> http_outcome" where
  "returned fw rq f r =
     (case r of
        Inl e \<Rightarrow> Response (pb_status (refusal rq e)) (Some (problem_document (refusal rq e)))
      | Inr x \<Rightarrow> Response 200 (Some (f x)))"

lemma served:
  assumes "as_documented fw p" and "plain_segment n" "plain_segment sv" and "st \<noteq> []" "strip st = st"
  shows "serve_client fw p i (client_request st CREDENTIALS_PATH ut n sv) s =
      apfst (returned fw (received fw i (client_request st CREDENTIALS_PATH ut n sv)) (credential_document (fw_stamp fw)))
        (internal_resolve_credential (ps_world p) (ps_signer p) (Some st) (Some ut) n sv s)"
    and "serve_client fw p i (client_request st FORM_SECRETS_PATH ut n sv) s =
      apfst (returned fw (received fw i (client_request st FORM_SECRETS_PATH ut n sv)) (form_document sv))
        (internal_resolve_form (ps_world p) (ps_signer p) (Some st) (Some ut) n sv s)"
proof -
  have b: "fw_bearer fw (Some (''Bearer '' @ st)) = Some st" using assms(1,4,5) unfolding as_documented_def reads_bearer_def by blast
  have tm: "follows_templates (ps_matcher p)" using assms(1) by (simp add: as_documented_def)
  have args: "\<forall>a \<in> set [n, sv]. whole_segment a" using assms(2,3) whole_plain by simp
  have r1: "ps_matcher p ROUTES ''GET'' (internal_path CREDENTIALS_PATH n sv) = Matched route_resolve_credential [n, sv]"
    using route_of_own_path [OF tm internal_routes(1), of "[n, sv]"] args
    by (simp add: internal_routes internal_paths [OF assms(2,3)])
  have r2: "ps_matcher p ROUTES ''GET'' (internal_path FORM_SECRETS_PATH n sv) = Matched route_resolve_form_secrets [n, sv]"
    using route_of_own_path [OF tm internal_routes(2), of "[n, sv]"] args
    by (simp add: internal_routes internal_paths [OF assms(2,3)])
  show "serve_client fw p i (client_request st CREDENTIALS_PATH ut n sv) s =
      apfst (returned fw (received fw i (client_request st CREDENTIALS_PATH ut n sv)) (credential_document (fw_stamp fw)))
        (internal_resolve_credential (ps_world p) (ps_signer p) (Some st) (Some ut) n sv s)"
    by (cases "internal_resolve_credential (ps_world p) (ps_signer p) (Some st) (Some ut) n sv s")
      (simp add: serve_client_def received_def client_request_def serve_def r1 internal_routes arg_def sent_def b [simplified]
        andthen_def answer_of_def status_sent_def returned_def wire_def ret_def split: sum.split)
  show "serve_client fw p i (client_request st FORM_SECRETS_PATH ut n sv) s =
      apfst (returned fw (received fw i (client_request st FORM_SECRETS_PATH ut n sv)) (form_document sv))
        (internal_resolve_form (ps_world p) (ps_signer p) (Some st) (Some ut) n sv s)"
    by (cases "internal_resolve_form (ps_world p) (ps_signer p) (Some st) (Some ut) n sv s")
      (simp add: serve_client_def received_def client_request_def serve_def r2 internal_routes arg_def sent_def b [simplified]
        andthen_def answer_of_def status_sent_def returned_def wire_def ret_def split: sum.split)
qed

text \<open>What a refusal of the service becomes.\<close>

definition client_error_of :: "error \<Rightarrow> client_error" where
  "client_error_of e =
     (if is_authentication_error e then KeyringRejectedError REJECTED
      else if status_of e = 404 then CredentialNotFoundError NOT_FOUND
      else if status_of e = 503 then ClientCredentialUnavailableError [if snd (problem_of e) = [] then UNUSABLE else snd (problem_of e)]
      else KeyringUnreachableError UNREACHABLE)"

lemma client_error_of_invalid: "client_error_of INVALID_BODY = KeyringUnreachableError UNREACHABLE"
  by (simp add: client_error_of_def INVALID_BODY_def status_of_def)

lemma classify_returned:
  "classify (returned fw rq f r) =
     (case r of Inl e \<Rightarrow> Inl (client_error_of e) | Inr x \<Rightarrow> classify (Response 200 (Some (f x))))"
proof (cases r)
  case (Inl e)
  show ?thesis
  proof (cases "e = INVALID_BODY")
    case True
    have "classify (Response 422 d) = Inl (KeyringUnreachableError UNREACHABLE)" for d
      by (simp add: classify_def)
    then show ?thesis using Inl True
      by (simp add: returned_def refusal_def validation_problem_def problem_response_def client_error_of_invalid)
  next
    case False
    then show ?thesis using Inl
      by (simp add: returned_def refusal_def render_error_status classify_refusal client_error_of_def)
  qed
qed (simp add: returned_def)

lemma fetched_credential:
  assumes "as_documented fw p" and "plain_segment n" "plain_segment sv" and "st \<noteq> []" "strip st = st"
  shows "fetch_credential fw reader p i st ut n sv s =
    (case internal_resolve_credential (ps_world p) (ps_signer p) (Some st) (Some ut) n sv s of
       (Inl e, t) \<Rightarrow> (Inl (client_error_of e), t)
     | (Inr r, t) \<Rightarrow> (Inr \<lparr>cc_service = sv, cc_headers = rc_headers r, cc_query_params = rc_query_params r,
          cc_expires_at = Option.bind (rc_expires_at r) (\<lambda>x. client_moment reader (Some (DText (fw_stamp fw x))))\<rparr>, t))"
proof -
  have "client_resolve_credential reader sv (Response 200 (Some (credential_document stamp r))) =
      Inr \<lparr>cc_service = sv, cc_headers = rc_headers r, cc_query_params = rc_query_params r,
          cc_expires_at = Option.bind (rc_expires_at r) (\<lambda>x. client_moment reader (Some (DText (stamp x))))\<rparr>" for stamp r
    by (simp add: client_resolve_credential_def classify_def credential_document_def text_object_def maybe_def string_map_def
        texts_of split: option.split) (simp add: client_moment_def)
  moreover have "client_resolve_credential reader sv (returned fw rq f (Inl e)) = Inl (client_error_of e)"
    for rq f e by (simp add: client_resolve_credential_def classify_returned)
  ultimately show ?thesis
    by (simp add: fetch_credential_def served [OF assms] returned_def split: prod.split sum.split)
qed

lemma fetched_form:
  assumes "as_documented fw p" and "plain_segment n" "plain_segment sv" and "st \<noteq> []" "strip st = st"
  shows "fetch_form fw p i st ut n sv s =
    (case internal_resolve_form (ps_world p) (ps_signer p) (Some st) (Some ut) n sv s of
       (Inl e, t) \<Rightarrow> (Inl (client_error_of e), t)
     | (Inr [], t) \<Rightarrow> (Inl (KeyringUnreachableError MALFORMED), t)
     | (Inr (f # fs), t) \<Rightarrow> (Inr (sv, f # fs), t))"
proof -
  have "client_resolve_form sv (Response 200 (Some (form_document sv fs))) =
      (case fs of [] \<Rightarrow> Inl (KeyringUnreachableError MALFORMED) | f # fs' \<Rightarrow> Inr (sv, f # fs'))" for fs
    by (simp add: client_resolve_form_def classify_def form_document_def text_object_def maybe_def string_map_def texts_of)
  moreover have "client_resolve_form sv (returned fw rq f (Inl e)) = Inl (client_error_of e)" for rq f e
    by (simp add: client_resolve_form_def classify_returned)
  ultimately show ?thesis
    by (simp add: fetch_form_def served [OF assms] returned_def split: prod.split sum.split list.split)
qed

text \<open>A service with its own credential and a live token of a person gets what that person's vault answers.\<close>

lemma on_behalf_of_holder:
  assumes "check_service_tokens (st_service_tokens (ev_settings w)) = Inr ()"
    and "(caller, secret) \<in> set (st_service_tokens (ev_settings w))"
    and "signs g" and "ev_now w < timedelta_s (int_seconds (issued + timedelta_s ttl))"
    and "timedelta_s (int_seconds issued) \<le> ev_wall_clock w"
  shows "on_behalf w g (Some secret) (Some (issue g issued a caller ttl)) f s = f caller a s"
proof -
  have "fst (identify (st_service_tokens (ev_settings w)) (Some secret)) = Inr caller"
    using identify_Inr [OF assms(1), of "Some secret" caller] assms(2) by simp
  then have "calling_service (ev_settings w) (Some secret) = Inr caller" by (simp add: calling_service_def)
  moreover have "acting_for g (ev_wall_clock w) (ev_now w) caller (Some (issue g issued a caller ttl)) = Inr a"
    using verify_issued [OF assms(3), of "ev_wall_clock w" "ev_now w" issued a caller ttl caller] assms(4,5)
    by (simp add: acting_for_def verify_def)
  ultimately show ?thesis by (simp add: on_behalf_cases)
qed

text \<open>Credentials that stand for nobody get nothing and change nothing.\<close>

lemma nobody_gets_nothing:
  assumes "as_documented fw p" and "plain_segment n" "plain_segment sv" and "st \<noteq> []" "strip st = st"
    and "\<And>a. \<not> stands_for (wo_env (ps_world p)) (ps_signer p) (Some st) (Some ut) a"
  shows "fetch_credential fw reader p i st ut n sv s = (Inl (KeyringRejectedError REJECTED), s)"
    and "fetch_form fw p i st ut n sv s = (Inl (KeyringRejectedError REJECTED), s)"
proof -
  have calls: "calling_service st' c = Inl e \<Longrightarrow> \<exists>m. e = AuthenticationError m" for st' c e
    by (auto simp: calling_service_def split: option.splits sum.splits)
  have acts: "acting_for g l n x c = Inl e \<Longrightarrow> \<exists>m. e = AuthenticationError m" for g l n x c e
    by (auto simp: acting_for_def verify_def verify_access_def split: option.splits sum.splits if_splits)
  have "\<exists>m. on_behalf (wo_env (ps_world p)) (ps_signer p) (Some st) (Some ut) f s = (Inl (AuthenticationError m), s)" for f :: "string \<Rightarrow> string \<Rightarrow> ('b, 'c) sysop"
    and s
    using assms(6) unfolding on_behalf_cases stands_for_def by (auto split: sum.split dest: calls acts)
  then show "fetch_credential fw reader p i st ut n sv s = (Inl (KeyringRejectedError REJECTED), s)"
    and "fetch_form fw p i st ut n sv s = (Inl (KeyringRejectedError REJECTED), s)"
    unfolding fetched_credential [OF assms(1-5)] fetched_form [OF assms(1-5)]
      internal_resolve_credential_def internal_resolve_form_def
    by (metis (mono_tags, lifting) old.prod.case old.sum.simps(5) client_error_of_def is_authentication_error.simps(1))+
qed

end
