(* ===== verification/ConsumerProperties.thy ===== *)
theory ConsumerProperties
  imports EndToEnd VaultProperties DelegationSample
begin

text \<open>
  The theorems about a consuming service and keyring together: what a person stored or consented
  to is what the client library hands out.
\<close>

section \<open>From the person to the consuming service\<close>

text \<open>C14: An API key a person stored is what a consuming service holds in the end: when it asks with its
  configured token and an unexpired token that was issued for it on behalf of that person, the
  client library returns the one header of the stored request, with the key in the place of the
  template's field, and keyring is left as it was.\<close>

theorem key_reaches_consumer:
  assumes "db_ok s" and "valid_api_key_request b" and "\<not> ak_in_query b"
    and "vault_faithful v (api_key_secret b)" and "same_libraries v (wo_vault (ps_world h))" and "va_master (wo_vault (ps_world h)) = va_master v"
    and "put_api_key w v a n sv b s = (Inr c, t)"
    and "as_documented fw h" and "plain_segment n" and "plain_segment sv"
    and "check_service_tokens (st_service_tokens (ev_settings (wo_env (ps_world h)))) = Inr ()"
    and "(caller, secret) \<in> set (st_service_tokens (ev_settings (wo_env (ps_world h))))"
    and "signs (ps_signer h)" and "ev_now (wo_env (ps_world h)) < timedelta_s (int_seconds (issued + timedelta_s ttl))"
    and "timedelta_s (int_seconds issued) \<le> ev_wall_clock (wo_env (ps_world h))"
  shows "\<exists>pre post. ak_template b = pre @ ''{value}'' @ post
    \<and> fetch_credential fw reader h i secret (issue (ps_signer h) issued a caller ttl) n sv t =
        (Inr \<lparr>cc_service = sv, cc_headers = [(ak_header b, pre @ ak_api_key b @ post)],
              cc_query_params = [], cc_expires_at = None\<rparr>, t)"
proof -
  have secret: "secret \<noteq> []" "strip secret = secret"
    using assms(11,12) by (auto simp: check_service_tokens_Inr dest!: bspec)
  obtain pre post where r: "ak_template b = pre @ ''{value}'' @ post"
    "resolve_credential (wo_special (ps_world h)) (wo_env (ps_world h)) (wo_vault (ps_world h)) (wo_providers (ps_world h)) (wo_endpoint (ps_world h)) a n sv t =
        (Inr \<lparr>rc_service = sv, rc_headers = [(ak_header b, pre @ ak_api_key b @ post)],
              rc_query_params = [], rc_expires_at = None\<rparr>, t)"
    using stored_key_resolves [OF assms(1-7)] by blast
  then have "internal_resolve_credential (ps_world h) (ps_signer h) (Some secret) (Some (issue (ps_signer h) issued a caller ttl)) n sv t =
        (Inr \<lparr>rc_service = sv, rc_headers = [(ak_header b, pre @ ak_api_key b @ post)],
              rc_query_params = [], rc_expires_at = None\<rparr>, t)"
    unfolding internal_resolve_credential_def on_behalf_of_holder [OF assms(11-15)] by blast
  with r(1) show ?thesis unfolding fetched_credential [OF assms(8-10) secret] by auto
qed

text \<open>A framework that does what is relied on: the header without its scheme.\<close>

definition sample_framework :: framework where
  "sample_framework = \<lparr>fw_bearer = (\<lambda>h. case h of None \<Rightarrow> None | Some t \<Rightarrow> if take 7 t = ''Bearer '' then Some (drop 7 t) else None),
     fw_stamp = (\<lambda>t. [])\<rparr>"

definition sample_process :: "unit process" where
  "sample_process = \<lparr>ps_matcher = match_route, ps_world = sample_world, ps_signer = sample_signer, ps_redirect_uri = ''https://k/v1/oauth/callback'',
     ps_version = ''0.1.0'', ps_environment = ''local'', ps_started_monotonic = 0, ps_keys = []\<rparr>"

lemma sample_framework_documented: "as_documented sample_framework sample_process"
  by (simp add: as_documented_def reads_bearer_def sample_framework_def sample_process_def match_route_follows)

lemma sample_process_signs: "signs (ps_signer sample_process)"
  by (simp add: sample_process_def sample_signs)

lemma sample_tokens_checked: "check_service_tokens (st_service_tokens (ev_settings (wo_env (ps_world sample_process)))) = Inr ()"
  using sample_settings_ok by (simp add: sample_process_def sample_world_def settings_ok_def sample_env_def)

lemma sample_mail_token:
  "(''mail'', ''0123456789abcdef0123456789abcdef'') \<in> set (st_service_tokens (ev_settings (wo_env (ps_world sample_process))))"
  by (simp add: sample_process_def sample_world_def sample_defs)

lemma sample_token_live: "ev_now (wo_env (ps_world sample_process)) < timedelta_s (int_seconds (1000 + timedelta_s 900))"
  by (simp add: sample_process_def sample_world_def sample_defs int_seconds_def timedelta_s_def)

lemma sample_token_issued: "timedelta_s (int_seconds 1000) \<le> ev_wall_clock (wo_env (ps_world sample_process))"
  by (simp add: sample_process_def sample_world_def sample_defs int_seconds_def timedelta_s_def)

theorem key_reaches_consumer_witness:
  "\<exists>t r. put_api_key sample_env sample_vault ''m'' ''work'' ''mail'' sample_body sample_vault_state = r \<and> t = snd r
    \<and> fetch_credential sample_framework plain_reader sample_process ''r'' ''0123456789abcdef0123456789abcdef''
        (issue (ps_signer sample_process) 1000 ''m'' ''mail'' 900) ''work'' ''mail'' t =
      (Inr \<lparr>cc_service = ''mail'', cc_headers = [(''X-Key'', ''Bearer K'')], cc_query_params = [], cc_expires_at = None\<rparr>, t)"
proof -
  let ?t = "snd (put_api_key sample_env sample_vault ''m'' ''work'' ''mail'' sample_body sample_vault_state)"
  have w: "wo_env (ps_world sample_process) = sample_env" "wo_vault (ps_world sample_process) = sample_vault"
    by (simp_all add: sample_process_def sample_world_def)
  have "\<exists>pre post. ak_template sample_body = pre @ ''{value}'' @ post
    \<and> fetch_credential sample_framework plain_reader sample_process ''r'' ''0123456789abcdef0123456789abcdef''
        (issue (ps_signer sample_process) 1000 ''m'' ''mail'' 900) ''work'' ''mail'' ?t =
      (Inr \<lparr>cc_service = ''mail'', cc_headers = [(ak_header sample_body, pre @ ak_api_key sample_body @ post)],
         cc_query_params = [], cc_expires_at = None\<rparr>, ?t)"
    by (rule key_reaches_consumer [OF sample_vault_ok _ _ sample_faithful(1) _ _ sample_put_key sample_framework_documented _ _
          sample_tokens_checked sample_mail_token sample_process_signs sample_token_live sample_token_issued])
      (simp_all add: w sample_body_def valid_api_key_request_def valid_confirmation_def MAX_PASSWORD_LENGTH_def template_pattern_def same_libraries_def
        plain_segment_def is_unreserved_def code_of_def)
  then obtain pre post where shape: "''Bearer {value}'' = pre @ ''{value}'' @ post" and got:
    "fetch_credential sample_framework plain_reader sample_process ''r'' ''0123456789abcdef0123456789abcdef''
        (issue (ps_signer sample_process) 1000 ''m'' ''mail'' 900) ''work'' ''mail'' ?t =
      (Inr \<lparr>cc_service = ''mail'', cc_headers = [(''X-Key'', pre @ ''K'' @ post)], cc_query_params = [], cc_expires_at = None\<rparr>, ?t)"
    by (auto simp: sample_body_def)
  have "length pre \<le> 7" using arg_cong [OF shape, of length] by simp
  then have "pre = ''Bearer '' \<and> post = []" using shape
    by (cases pre rule: list.exhaust) (auto simp: append_eq_Cons_conv Cons_eq_append_conv)
  with got show ?thesis by auto
qed

lemma login_reaches_consumer_parts:
  assumes "db_ok s" and "pw_username b \<noteq> []" and "pw_password b \<noteq> []"
    and "vault_faithful v (password_secret b)" and "same_libraries v (wo_vault (ps_world h))" and "va_master (wo_vault (ps_world h)) = va_master v"
    and "put_password w v a n sv b s = (Inr c, t)"
    and "as_documented fw h" and "plain_segment n" and "plain_segment sv"
    and "check_service_tokens (st_service_tokens (ev_settings (wo_env (ps_world h)))) = Inr ()"
    and "(caller, secret) \<in> set (st_service_tokens (ev_settings (wo_env (ps_world h))))"
    and "signs (ps_signer h)" and "ev_now (wo_env (ps_world h)) < timedelta_s (int_seconds (issued + timedelta_s ttl))"
    and "timedelta_s (int_seconds issued) \<le> ev_wall_clock (wo_env (ps_world h))"
  shows "fetch_form fw h i secret (issue (ps_signer h) issued a caller ttl) n sv t =
    (let typed = [(''username'', pw_username b), (''password'', pw_password b)] in
     case pw_totp_seed b of
       None \<Rightarrow> (Inr (sv, typed), t)
     | Some seed \<Rightarrow>
         if seed = [] then (Inr (sv, typed), t)
         else (case totp_code (wo_hmac_sha1 (ps_world h)) seed (wo_unix_time (ps_world h)) of
                 None \<Rightarrow> (Inl (ClientCredentialUnavailableError [''stored TOTP seed could not be used'']), t)
               | Some (Inl e) \<Rightarrow> (Inl (client_error_of e), t)
               | Some (Inr code) \<Rightarrow> (Inr (sv, typed @ [(''totp'', code)]), t)))"
proof -
  have secret: "secret \<noteq> []" "strip secret = secret"
    using assms(11,12) by (auto simp: check_service_tokens_Inr dest!: bspec)
  have e: "client_error_of (CredentialUnavailableError [''stored TOTP seed could not be used'']) =
      ClientCredentialUnavailableError [''stored TOTP seed could not be used'']"
    by (simp add: client_error_of_def status_of_def problem_of_def)
  have "internal_resolve_form (ps_world h) (ps_signer h) (Some secret) (Some (issue (ps_signer h) issued a caller ttl)) n sv t =
      resolve_form (wo_hmac_sha1 (ps_world h)) (wo_unix_time (ps_world h)) (wo_vault (ps_world h)) a n sv t"
    unfolding internal_resolve_form_def on_behalf_of_holder [OF assms(11-15)] ..
  then show ?thesis
    unfolding fetched_form [OF assms(8-10) secret] stored_login_is_typed_parts(1) [OF assms(1-7)] Let_def
    by (simp add: e split: option.split sum.split)
qed

text \<open>C15: A form login a person stored is what a browser recipe of a consuming service types: the client
  library returns user name and password as they were stored and, when a seed is stored, the code of
  the moment, which has six digits; a seed that cannot be used is reported as such, without the rest.\<close>

theorem login_reaches_consumer:
  assumes "db_ok s" and "pw_username b \<noteq> []" and "pw_password b \<noteq> []"
    and "vault_faithful v (password_secret b)" and "same_libraries v (wo_vault (ps_world h))" and "va_master (wo_vault (ps_world h)) = va_master v"
    and "put_password w v a n sv b s = (Inr c, t)"
    and "as_documented fw h" and "plain_segment n" and "plain_segment sv"
    and "check_service_tokens (st_service_tokens (ev_settings (wo_env (ps_world h)))) = Inr ()"
    and "(caller, secret) \<in> set (st_service_tokens (ev_settings (wo_env (ps_world h))))"
    and "signs (ps_signer h)" and "ev_now (wo_env (ps_world h)) < timedelta_s (int_seconds (issued + timedelta_s ttl))"
    and "timedelta_s (int_seconds issued) \<le> ev_wall_clock (wo_env (ps_world h))"
  shows "fetch_form fw h i secret (issue (ps_signer h) issued a caller ttl) n sv t =
      (let typed = [(''username'', pw_username b), (''password'', pw_password b)] in
       case pw_totp_seed b of
         None \<Rightarrow> (Inr (sv, typed), t)
       | Some seed \<Rightarrow>
           if seed = [] then (Inr (sv, typed), t)
           else (case totp_code (wo_hmac_sha1 (ps_world h)) seed (wo_unix_time (ps_world h)) of
                   None \<Rightarrow> (Inl (ClientCredentialUnavailableError [''stored TOTP seed could not be used'']), t)
                 | Some (Inl e) \<Rightarrow> (Inl (client_error_of e), t)
                 | Some (Inr code) \<Rightarrow> (Inr (sv, typed @ [(''totp'', code)]), t)))
    \<and> (\<forall>seed code. totp_code (wo_hmac_sha1 (ps_world h)) seed (wo_unix_time (ps_world h)) = Some (Inr code) \<longrightarrow>
          length code = 6 \<and> (\<forall>d \<in> set code. 48 \<le> code_of d \<and> code_of d \<le> 57))"
  by (intro conjI allI impI login_reaches_consumer_parts [OF assms] stored_login_is_typed_parts(2) [OF assms(1-7)])

theorem login_reaches_consumer_witness:
  "fst (fetch_form sample_framework sample_process ''r'' ''0123456789abcdef0123456789abcdef''
     (issue (ps_signer sample_process) 1000 ''m'' ''mail'' 900) ''work'' ''mail''
     (snd (put_password sample_env sample_vault ''m'' ''work'' ''mail'' sample_login_form sample_vault_state)))
   = Inr (''mail'', [(''username'', ''me''), (''password'', ''pw'')])"
  by (subst conjunct1 [OF login_reaches_consumer [OF sample_vault_ok _ _ sample_faithful(2) _ _ sample_put_login
        sample_framework_documented _ _ sample_tokens_checked sample_mail_token sample_process_signs sample_token_live sample_token_issued]])
    (simp_all add: sample_login_form_def same_libraries_def sample_process_def sample_world_def plain_segment_def is_unreserved_def code_of_def)

section \<open>From the provider to the consuming service\<close>

text \<open>C16: What a person consented to is what the consuming service holds: once the callback of a consent
  has succeeded, the client library returns the access token the provider answered with, as a bearer
  header, with the expiry of the connection, for as long as no renewal is due; it needs the service's own
  token and one issued for it on behalf of the person who began the consent, whoever sent the callback.\<close>

theorem consent_reaches_consumer:
  assumes "db_ok s" and "change_complete_authorization w v ps te st code s = (Inr c, t)"
    and "map_of (m_flows s) (ev_hash_token w st) = Some f"
    and "\<And>pv uri y z s1. te_exchange_code te pv code uri s1 = (Inr y, z) \<Longrightarrow> y = x \<and> (db_ok s1 \<longrightarrow> db_ok z)"
    and "secret_field x ''access_token'' = Some (JStr tok)" and "tok \<noteq> []" and "field_or x ''token_type'' ''Bearer'' = JStr ty"
    and "vault_faithful v x" and "same_libraries v (wo_vault (ps_world h))" and "va_master (wo_vault (ps_world h)) = va_master v"
    and "as_documented fw h" and "plain_segment (fb_profile (of_binding f))" and "plain_segment (fb_service (of_binding f))"
    and "normalize_profile_name (fb_profile (of_binding f)) = Inr (fb_profile (of_binding f))"
    and "normalize_service_name (fb_service (of_binding f)) = Inr (fb_service (of_binding f))"
    and "\<not> needs_refresh c (ev_now (wo_env (ps_world h))) (st_oauth_refresh_margin_seconds (ev_settings (wo_env (ps_world h))))"
    and "check_service_tokens (st_service_tokens (ev_settings (wo_env (ps_world h)))) = Inr ()"
    and "(caller, secret) \<in> set (st_service_tokens (ev_settings (wo_env (ps_world h))))"
    and "signs (ps_signer h)" and "ev_now (wo_env (ps_world h)) < timedelta_s (int_seconds (issued + timedelta_s ttl))"
    and "timedelta_s (int_seconds issued) \<le> ev_wall_clock (wo_env (ps_world h))"
  shows "fetch_credential fw reader h i secret (issue (ps_signer h) issued (fb_account_id (of_binding f)) caller ttl)
      (fb_profile (of_binding f)) (fb_service (of_binding f)) t =
    (Inr \<lparr>cc_service = fb_service (of_binding f), cc_headers = [(''Authorization'', ty @ '' '' @ tok)], cc_query_params = [],
          cc_expires_at = Option.bind (co_expires_at c) (\<lambda>e. client_moment reader (Some (DText (fw_stamp fw e))))\<rparr>, t)"
proof -
  let ?a = "fb_account_id (of_binding f)" and ?n = "fb_profile (of_binding f)" and ?sv = "fb_service (of_binding f)"
  obtain f' p pv y z s1 s2 where f': "map_of (m_flows s) (ev_hash_token w st) = Some f'" and ok: "db_ok s1"
    and ex: "te_exchange_code te pv code (fb_redirect_uri (of_binding f')) s1 = (Inr y, z)"
    and sto: "store_oauth_secret w v p (fb_service (of_binding f')) y pv z = (Inr c, s2)"
    and p: "pr_account_id p = fb_account_id (of_binding f')" "pr_name p = fb_profile (of_binding f')"
    and t: "db_ok s2 \<longrightarrow> vault_tables t = vault_tables s2 \<and> db_ok t"
    by (rule change_complete_Inr [OF assms(1,2)])
  have same: "f' = f" "y = x" "db_ok z" using f' assms(3) assms(4) [OF ex] ok by simp_all
  note sto' = store_oauth_secret_Inr [OF same(3) sto]
  obtain m where m: "va_master v = Some m" "stored_in (pr_account_id p) (pr_name p) (fb_service (of_binding f')) c (seal v m y) z s2"
    using sto'(3) by blast
  note tt = mp [OF t sto'(1)]
  note tv = vault_tables_views [OF conjunct1 [OF tt]]
  have c: "conn_get ?a ?n ?sv t = Some c" "envelope_get ?a ?n ?sv t = Some (seal v m x)"
    using stored_in_here [OF m(2)] by (simp_all add: tv p same)
  have k: "co_status c = CONN_ACTIVE" "co_kind c = OAUTH2_AUTHORIZATION_CODE" using sto'(4) by (simp_all split: option.splits)
  have "va_master (wo_vault (ps_world h)) = Some m" using assms(10) m(1) by simp
  from load_found [OF conjunct2 [OF tt] assms(14,15) c(1) _ this c(2) open_seal_later [OF assms(8,9)]] k
  obtain q where q: "load (wo_vault (ps_world h)) ?a ?n ?sv t = (Inr (q, c, x), t)" "profile_get ?a ?n t = Some q" by auto
  have now: "connection_to q ?sv = Some c" using connection_to_get [OF conjunct2 [OF tt] q(2)] c(1) by simp
  have "get_profile ?a ?n t = (Inr q, t)" unfolding get_profile_Inr using assms(14) q(2) by simp
  moreover have "bearer_headers x = Inr [(''Authorization'', ty @ '' '' @ tok)]"
    by (simp add: bearer_headers_def assms(5-7) require_field_def BEARER_HEADER_def)
  ultimately have "resolve_credential (wo_special (ps_world h)) (wo_env (ps_world h)) (wo_vault (ps_world h)) (wo_providers (ps_world h)) (wo_endpoint (ps_world h)) ?a ?n ?sv t =
      (Inr \<lparr>rc_service = ?sv, rc_headers = [(''Authorization'', ty @ '' '' @ tok)], rc_query_params = [],
            rc_expires_at = co_expires_at c\<rparr>, t)"
    by (simp add: resolve_credential_def resolve_http_auth_def q(1) k(2) assms(16) credential_headers_def
        credential_query_params_def now txn_simps)
  then have "internal_resolve_credential (ps_world h) (ps_signer h) (Some secret) (Some (issue (ps_signer h) issued ?a caller ttl)) ?n ?sv t =
      (Inr \<lparr>rc_service = ?sv, rc_headers = [(''Authorization'', ty @ '' '' @ tok)], rc_query_params = [],
            rc_expires_at = co_expires_at c\<rparr>, t)"
    unfolding internal_resolve_credential_def on_behalf_of_holder [OF assms(17-21)] .
  moreover have "secret \<noteq> []" "strip secret = secret"
    using assms(17,18) by (auto simp: check_service_tokens_Inr dest!: bspec)
  ultimately show ?thesis
    unfolding fetched_credential [OF assms(11-13) \<open>secret \<noteq> []\<close> \<open>strip secret = secret\<close>] by simp
qed

theorem consent_reaches_consumer_witness:
  "\<exists>t. change_complete_authorization sample_env sample_vault sample_providers sample_endpoint ''st'' ''code'' sample_vault_state
      = (Inr sample_granted, t)
    \<and> fetch_credential sample_framework plain_reader sample_process ''r'' ''0123456789abcdef0123456789abcdef''
        (issue (ps_signer sample_process) 1000 ''m'' ''mail'' 900) ''work'' ''music'' t =
      (Inr \<lparr>cc_service = ''music'', cc_headers = [(''Authorization'', ''Bearer fresh'')], cc_query_params = [],
            cc_expires_at = None\<rparr>, t)"
proof -
  let ?t = "snd (change_complete_authorization sample_env sample_vault sample_providers sample_endpoint ''st'' ''code'' sample_vault_state)"
  let ?f = "\<lparr>of_binding = sample_binding, of_expires_at = 2000\<rparr>"
  have flow: "map_of (m_flows sample_vault_state) (ev_hash_token sample_env ''st'') = Some ?f"
    by (simp add: vault_sample_defs)
  have same: "same_libraries sample_vault (wo_vault (ps_world sample_process))" "va_master (wo_vault (ps_world sample_process)) = va_master sample_vault"
    by (simp_all add: same_libraries_def sample_process_def sample_world_def)
  have "fetch_credential sample_framework plain_reader sample_process ''r'' ''0123456789abcdef0123456789abcdef''
      (issue (ps_signer sample_process) 1000 (fb_account_id (of_binding ?f)) ''mail'' 900) (fb_profile (of_binding ?f)) (fb_service (of_binding ?f)) ?t =
    (Inr \<lparr>cc_service = fb_service (of_binding ?f), cc_headers = [(''Authorization'', ''Bearer'' @ '' '' @ ''fresh'')], cc_query_params = [],
          cc_expires_at = Option.bind (co_expires_at sample_granted)
            (\<lambda>e. client_moment plain_reader (Some (DText (fw_stamp sample_framework e))))\<rparr>, ?t)"
    by (rule consent_reaches_consumer [OF sample_vault_ok sample_callback flow _ _ _ _ sample_faithful(3) same sample_framework_documented
          _ _ _ _ _ sample_tokens_checked sample_mail_token sample_process_signs sample_token_live sample_token_issued])
      (simp_all add: sample_endpoint_def txn_simps, simp_all add: sample_token_def secret_field_def field_or_def sample_binding_def
        plain_segment_def is_unreserved_def code_of_def sample_names needs_refresh_def sample_granted_def sample_connection_def
        sample_process_def sample_world_def sample_defs timedelta_s_def)
  moreover have "client_moment plain_reader (Some (DText (fw_stamp sample_framework e))) = None" for e
    by (simp add: client_moment_def sample_framework_def)
  ultimately show ?thesis
    by (intro exI [of _ ?t] conjI sample_callback) (simp add: sample_binding_def bind_eq_None_conv)
qed

end
