(* ===== verification/Worker.thy ===== *)
theory Worker
  imports Prelude Errors
begin

text \<open>
  \<^verbatim>\<open>src/src/keyring_api/storage/database.py\<close>: one connection owned by one worker thread. A request
  submits one whole callable and waits; the thread runs what was submitted in order. Here a
  transaction has a beginning and an end, and requests come, wait and are cancelled; everywhere
  else it is one function, and this theory shows why.
\<close>

section \<open>The connection\<close>

text \<open>
  What is committed, and what an open transaction has made of it. A callable that raises leaves
  whatever it has written so far in the open transaction.
\<close>

record 'd connection_state =
  cn_committed :: 'd
  cn_working :: "'d option"

type_synonym ('d, 'a) work = "'d \<Rightarrow> (error + 'a) \<times> 'd"

definition begin_immediate :: "'d connection_state \<Rightarrow> (error + unit) \<times> 'd connection_state" where
  "begin_immediate c =
     (case cn_working c of
        Some d \<Rightarrow> (Inl (Unhandled [''cannot start a transaction within a transaction'']), c)
      | None \<Rightarrow> (Inr (), c\<lparr>cn_working := Some (cn_committed c)\<rparr>))"

definition rollback :: "'d connection_state \<Rightarrow> 'd connection_state" where
  "rollback c = c\<lparr>cn_working := None\<rparr>"

text \<open>
  What SQLite answers to \<open>COMMIT\<close>: done, or an exception (a full disk, an error of the device, a file
  that another process has locked) that leaves the transaction open or has rolled it back.
\<close>

datatype commit_answer = Committed | StillOpen error | RolledBack error

definition commit :: "commit_answer \<Rightarrow> 'd connection_state \<Rightarrow> (error + unit) \<times> 'd connection_state" where
  "commit answer c =
     (case answer of
        Committed \<Rightarrow> (Inr (), case cn_working c of None \<Rightarrow> c | Some d \<Rightarrow> c\<lparr>cn_committed := d, cn_working := None\<rparr>)
      | StillOpen e \<Rightarrow> (Inl e, c)
      | RolledBack e \<Rightarrow> (Inl e, rollback c))"

text \<open>A statement sees the open transaction when there is one, and commits itself otherwise.\<close>

definition on_connection :: "('d, 'a) work \<Rightarrow> 'd connection_state \<Rightarrow> (error + 'a) \<times> 'd connection_state" where
  "on_connection work c =
     (case cn_working c of
        Some d \<Rightarrow> (case work d of (r, d') \<Rightarrow> (r, c\<lparr>cn_working := Some d'\<rparr>))
      | None \<Rightarrow> (case work (cn_committed c) of (r, d') \<Rightarrow> (r, c\<lparr>cn_committed := d'\<rparr>)))"

text \<open>\<open>_in_transaction\<close>: only the callable is inside the block that rolls back.\<close>

definition in_transaction ::
  "commit_answer \<Rightarrow> ('d, 'a) work \<Rightarrow> 'd connection_state \<Rightarrow> (error + 'a) \<times> 'd connection_state" where
  "in_transaction answer work c =
     (case begin_immediate c of
        (Inl e, c1) \<Rightarrow> (Inl e, c1)
      | (Inr _, c1) \<Rightarrow>
          (case on_connection work c1 of
             (Inl e, c2) \<Rightarrow> (Inl e, rollback c2)
           | (Inr x, c2) \<Rightarrow>
               (case commit answer c2 of (Inl e, c3) \<Rightarrow> (Inl e, c3) | (Inr _, c3) \<Rightarrow> (Inr x, c3))))"

text \<open>What the callable is to everybody else: all of it or nothing.\<close>

definition as_txn :: "('d, 'a) work \<Rightarrow> (error, 'd, 'a) txn" where
  "as_txn work d = (case work d of (Inl e, _) \<Rightarrow> Inl e | (Inr x, d') \<Rightarrow> Inr (x, d'))"

lemma in_transaction_refines:
  assumes "cn_working c = None"
  shows "in_transaction Committed work c =
    (fst (transact (as_txn work) (cn_committed c)), c\<lparr>cn_committed := snd (transact (as_txn work) (cn_committed c))\<rparr>)"
proof -
  obtain r d where w: "work (cn_committed c) = (r, d)" by fastforce
  show ?thesis
    using assms w
    by (cases r) (simp_all add: in_transaction_def begin_immediate_def on_connection_def rollback_def commit_def
        as_txn_def transact_simp)
qed

text \<open>
  A commit that raises and leaves the transaction open is not rolled back: the writes stay in it, and
  every later transaction on the connection is refused.
\<close>

lemma refused_commit_stays_open:
  assumes "cn_working c = None" and "work (cn_committed c) = (Inr x, d)"
  shows "in_transaction (StillOpen e) work c = (Inl e, c\<lparr>cn_working := Some d\<rparr>)"
    and "in_transaction answer later (c\<lparr>cn_working := Some d\<rparr>)
      = (Inl (Unhandled [''cannot start a transaction within a transaction'']), c\<lparr>cn_working := Some d\<rparr>)"
  using assms by (simp_all add: in_transaction_def begin_immediate_def on_connection_def commit_def)

section \<open>The thread\<close>

text \<open>
  A submitted callable waits in the executor's queue, is taken up by the one thread and runs to
  its end. The task that waits for it may be cancelled at any time: a callable that is still in
  the queue is cancelled with it and never runs; one that has been taken up is not touched. The
  commits of these runs are answered; what one that is not answered leaves behind is stated above.
\<close>

type_synonym 'd job = "nat \<times> ('d, unit) work"

record 'd worker =
  wk_connection :: "'d connection_state"
  wk_queue :: "'d job list"
  wk_running :: "'d job option"
  wk_answers :: "(nat \<times> (error + unit)) list" \<comment> \<open>of the callables that ran, oldest first\<close>
  wk_waiting :: "nat list"
  wk_submitted :: "'d job list"
  wk_dropped :: "nat set"

definition opened :: "'d \<Rightarrow> 'd worker" where
  "opened d = \<lparr>wk_connection = \<lparr>cn_committed = d, cn_working = None\<rparr>, wk_queue = [], wk_running = None,
     wk_answers = [], wk_waiting = [], wk_submitted = [], wk_dropped = {}\<rparr>"

inductive worker_step :: "'d worker \<Rightarrow> 'd worker \<Rightarrow> bool" where
  submit: "i \<notin> fst ` set (wk_submitted s) \<Longrightarrow>
    worker_step s (s\<lparr>wk_queue := wk_queue s @ [(i, job)], wk_waiting := i # wk_waiting s,
      wk_submitted := wk_submitted s @ [(i, job)]\<rparr>)"
| take_up: "wk_queue s = q # rest \<Longrightarrow> wk_running s = None \<Longrightarrow>
    worker_step s (s\<lparr>wk_queue := rest, wk_running := Some q\<rparr>)"
| finish: "wk_running s = Some (i, job) \<Longrightarrow> in_transaction Committed job (wk_connection s) = (r, c) \<Longrightarrow>
    worker_step s (s\<lparr>wk_connection := c, wk_running := None, wk_waiting := removeAll i (wk_waiting s),
      wk_answers := wk_answers s @ [(i, r)]\<rparr>)"
| cancel_queued: "i \<in> set (wk_waiting s) \<Longrightarrow> i \<in> fst ` set (wk_queue s) \<Longrightarrow>
    worker_step s (s\<lparr>wk_waiting := removeAll i (wk_waiting s), wk_dropped := insert i (wk_dropped s),
      wk_queue := filter (\<lambda>q. fst q \<noteq> i) (wk_queue s)\<rparr>)"
| cancel_running: "i \<in> set (wk_waiting s) \<Longrightarrow> map_option fst (wk_running s) = Some i \<Longrightarrow>
    worker_step s (s\<lparr>wk_waiting := removeAll i (wk_waiting s)\<rparr>)"

inductive_cases worker_stepE: "worker_step s t"

text \<open>The same callables one after another, each as one function.\<close>

fun serially :: "'d job list \<Rightarrow> 'd \<Rightarrow> (nat \<times> (error + unit)) list \<times> 'd" where
  "serially [] d = ([], d)"
| "serially ((i, job) # jobs) d =
     (case transact (as_txn job) d of (r, d1) \<Rightarrow>
        (case serially jobs d1 of (answers, d2) \<Rightarrow> ((i, r) # answers, d2)))"

lemma serially_snoc:
  "serially (jobs @ [(i, job)]) d =
     (case serially jobs d of (answers, d1) \<Rightarrow>
        (case transact (as_txn job) d1 of (r, d2) \<Rightarrow> (answers @ [(i, r)], d2)))"
  by (induction jobs arbitrary: d) (auto split: prod.splits)

definition in_hand :: "'d worker \<Rightarrow> 'd job list" where
  "in_hand s = (case wk_running s of None \<Rightarrow> [] | Some q \<Rightarrow> [q])"

text \<open>What was submitted and not dropped, in the order it was submitted.\<close>

definition surviving :: "'d worker \<Rightarrow> 'd job list" where
  "surviving s = filter (\<lambda>q. fst q \<notin> wk_dropped s) (wk_submitted s)"

definition serial :: "'d \<Rightarrow> 'd worker \<Rightarrow> 'd job list \<Rightarrow> bool" where
  "serial d s ended \<longleftrightarrow> cn_working (wk_connection s) = None
     \<and> distinct (map fst (wk_submitted s)) \<and> wk_dropped s \<subseteq> fst ` set (wk_submitted s)
     \<and> surviving s = ended @ in_hand s @ wk_queue s
     \<and> serially ended d = (wk_answers s, cn_committed (wk_connection s))"

lemma serial_opened: "serial d (opened d) []"
  by (simp add: serial_def opened_def surviving_def in_hand_def)

lemma surviving_distinct: "serial d s ended \<Longrightarrow> distinct (map fst (ended @ in_hand s @ wk_queue s))"
proof -
  assume a: "serial d s ended"
  then have "distinct (map fst (wk_submitted s))" by (simp add: serial_def)
  then have "distinct (map fst (surviving s))" unfolding surviving_def by (rule distinct_map_filter)
  moreover have "surviving s = ended @ in_hand s @ wk_queue s" using a by (simp add: serial_def)
  ultimately show ?thesis by (simp only:)
qed

lemma filter_fst_id: "i \<notin> fst ` set qs \<Longrightarrow> filter (\<lambda>q. fst q \<noteq> i) qs = qs"
  by (rule filter_True) auto

lemma serial_step: "worker_step s t \<Longrightarrow> serial d s ended \<Longrightarrow> \<exists>ended'. serial d t ended'"
proof (induction rule: worker_step.induct)
  case (submit i s job)
  then have "i \<notin> wk_dropped s" by (auto simp: serial_def)
  with submit have "serial d (s\<lparr>wk_queue := wk_queue s @ [(i, job)], wk_waiting := i # wk_waiting s,
      wk_submitted := wk_submitted s @ [(i, job)]\<rparr>) ended"
    by (auto simp: serial_def surviving_def in_hand_def)
  then show ?case by blast
next
  case (take_up s q rest)
  then have "serial d (s\<lparr>wk_queue := rest, wk_running := Some q\<rparr>) ended"
    by (simp add: serial_def surviving_def in_hand_def)
  then show ?case by blast
next
  case (finish s i job r c)
  have idle: "cn_working (wk_connection s) = None" and ended: "serially ended d = (wk_answers s, cn_committed (wk_connection s))"
    using finish.prems by (simp_all add: serial_def)
  have c: "r = fst (transact (as_txn job) (cn_committed (wk_connection s)))"
    "c = (wk_connection s)\<lparr>cn_committed := snd (transact (as_txn job) (cn_committed (wk_connection s)))\<rparr>"
    using finish.hyps(2) in_transaction_refines [OF idle, of job] by simp_all
  have "serially (ended @ [(i, job)]) d = (wk_answers s @ [(i, r)], cn_committed c)"
    by (simp add: serially_snoc ended c split: prod.split)
  moreover have "cn_working c = None" using idle c(2) by simp
  ultimately have "serial d (s\<lparr>wk_connection := c, wk_running := None, wk_waiting := removeAll i (wk_waiting s),
      wk_answers := wk_answers s @ [(i, r)]\<rparr>) (ended @ [(i, job)])"
    using finish.prems finish.hyps(1) by (simp add: serial_def surviving_def in_hand_def)
  then show ?case by blast
next
  case (cancel_queued i s)
  have i: "i \<notin> fst ` set (ended @ in_hand s)"
    using surviving_distinct [OF cancel_queued.prems] cancel_queued.hyps(2) by auto
  have sub: "i \<in> fst ` set (wk_submitted s)"
  proof -
    have "set (wk_queue s) \<subseteq> set (surviving s)" using cancel_queued.prems by (auto simp: serial_def)
    also have "\<dots> \<subseteq> set (wk_submitted s)" by (auto simp: surviving_def)
    finally show ?thesis using cancel_queued.hyps(2) by blast
  qed
  let ?t = "s\<lparr>wk_waiting := removeAll i (wk_waiting s), wk_dropped := insert i (wk_dropped s),
      wk_queue := filter (\<lambda>q. fst q \<noteq> i) (wk_queue s)\<rparr>"
  have "surviving ?t = filter (\<lambda>q. fst q \<noteq> i) (surviving s)"
    by (auto simp: surviving_def intro!: filter_cong)
  also have "\<dots> = ended @ in_hand s @ filter (\<lambda>q. fst q \<noteq> i) (wk_queue s)"
    using cancel_queued.prems i
    by (simp add: serial_def image_Un filter_fst_id [of i ended] filter_fst_id [of i "in_hand s"])
  finally have "serial d ?t ended"
    using cancel_queued.prems sub by (simp add: serial_def in_hand_def)
  then show ?case by blast
next
  case (cancel_running i s)
  then have "serial d (s\<lparr>wk_waiting := removeAll i (wk_waiting s)\<rparr>) ended"
    by (simp add: serial_def surviving_def in_hand_def)
  then show ?case by blast
qed

lemma serial_reachable: "worker_step\<^sup>*\<^sup>* (opened d) s \<Longrightarrow> \<exists>ended. serial d s ended"
proof (induction rule: rtranclp_induct)
  case base
  show ?case by (rule exI [of _ "[]"], rule serial_opened)
next
  case (step s t)
  then show ?case by (elim exE) (rule serial_step)
qed

text \<open>
  Once the thread has nothing left to do, the database is what the callables that were not
  dropped make of it when each runs as one function, in the order they were submitted.
\<close>

lemma drained:
  assumes "worker_step\<^sup>*\<^sup>* (opened d) s" and "wk_queue s = []" and "wk_running s = None"
  shows "serially (surviving s) d = (wk_answers s, cn_committed (wk_connection s))"
proof -
  from serial_reachable [OF assms(1)] obtain ended where "serial d s ended" by blast
  with assms(2,3) show ?thesis by (simp add: serial_def in_hand_def)
qed

text \<open>A callable that has been taken up is never dropped, whoever stops waiting for it.\<close>

lemma taken_up_survives:
  assumes "worker_step\<^sup>*\<^sup>* (opened d) s" and "wk_running s = Some q"
  shows "q \<in> set (surviving s)"
proof -
  from serial_reachable [OF assms(1)] obtain ended where "serial d s ended" by blast
  with assms(2) show ?thesis by (simp add: serial_def in_hand_def)
qed

text \<open>And the thread can always finish what it holds.\<close>

lemma can_finish:
  assumes "wk_running s = Some q"
  shows "\<exists>t. worker_step s t \<and> wk_running t = None \<and> wk_queue t = wk_queue s \<and> wk_submitted t = wk_submitted s
    \<and> wk_dropped t = wk_dropped s"
proof -
  obtain i job where q: "q = (i, job)" by fastforce
  obtain r c where "in_transaction Committed job (wk_connection s) = (r, c)" by fastforce
  from worker_step.finish [OF _ this, of i] assms q show ?thesis by fastforce
qed

lemma can_drain:
  "\<exists>t. worker_step\<^sup>*\<^sup>* s t \<and> wk_queue t = [] \<and> wk_running t = None \<and> wk_submitted t = wk_submitted s
    \<and> wk_dropped t = wk_dropped s"
proof (induction "wk_queue s" arbitrary: s)
  case Nil
  show ?case
  proof (cases "wk_running s")
    case None
    with Nil show ?thesis by (intro exI [of _ s]) simp
  next
    case (Some q)
    from can_finish [OF this] Nil show ?thesis by (metis r_into_rtranclp)
  qed
next
  case (Cons q rest)
  obtain u where u: "worker_step\<^sup>*\<^sup>* s u" "wk_running u = None" "wk_queue u = wk_queue s"
      "wk_submitted u = wk_submitted s" "wk_dropped u = wk_dropped s"
  proof (cases "wk_running s")
    case None
    then show ?thesis using that [of s] by simp
  next
    case (Some p)
    from can_finish [OF this] that show ?thesis by (metis r_into_rtranclp)
  qed
  let ?t = "u\<lparr>wk_queue := rest, wk_running := Some q\<rparr>"
  have step: "worker_step u ?t" by (rule worker_step.take_up) (use u Cons.hyps(2) in simp_all)
  from Cons.hyps(1) [of ?t] obtain v where v: "worker_step\<^sup>*\<^sup>* ?t v" "wk_queue v = []" "wk_running v = None"
      "wk_submitted v = wk_submitted u" "wk_dropped v = wk_dropped u" by auto
  have "worker_step\<^sup>*\<^sup>* s v" using u(1) step v(1) by (meson converse_rtranclp_into_rtranclp rtranclp_trans)
  with v u show ?case by metis
qed

section \<open>Opening\<close>

definition StorageError :: error where
  "StorageError = Unhandled [''foreign keys are not enabled on this connection; refusing to continue'']"

definition require_foreign_keys :: "bool \<Rightarrow> unit result" where
  "require_foreign_keys enabled = (if enabled then Inr () else Inl StorageError)"

end
