(* ===== verification/Migrator.thy ===== *)
theory Migrator
  imports Worker PyText
begin

text \<open>
  \<^verbatim>\<open>src/src/keyring_api/storage/migrator.py\<close>: numbered scripts applied in order, each in a
  transaction together with the row that records it. A script is what SQLite makes of it: a
  function on the schema that succeeds or raises half way. Commits are answered.
\<close>

section \<open>Files\<close>

text \<open>\<open>int(text)\<close>: surrounding white space, a sign, decimal digits.\<close>

definition is_digit :: "char \<Rightarrow> bool" where
  "is_digit c \<longleftrightarrow> 48 \<le> code_of c \<and> code_of c \<le> 57"

definition digits_value :: "string \<Rightarrow> int" where
  "digits_value ds = foldl (\<lambda>n c. 10 * n + (int (code_of c) - 48)) 0 ds"

definition unsigned_int :: "string \<Rightarrow> int option" where
  "unsigned_int t = (if t \<noteq> [] \<and> list_all is_digit t then Some (digits_value t) else None)"

definition parse_int :: "string \<Rightarrow> int option" where
  "parse_int text =
     (case strip text of
        [] \<Rightarrow> None
      | c # t \<Rightarrow> if c = CHR ''-'' then map_option uminus (unsigned_int t)
                  else if c = CHR ''+'' then unsigned_int t else unsigned_int (c # t))"

type_synonym 'd script = "('d, unit) work"

record 'd migration =
  mi_name :: string
  mi_version :: int
  mi_script :: "'d script"

text \<open>\<open>int(path.name.split("_", 1)[0])\<close> of every file that ends in \<open>.sql\<close>.\<close>

definition version_of :: "string \<Rightarrow> int option" where
  "version_of name = parse_int (takeWhile (\<lambda>c. c \<noteq> CHR ''_'') name)"

fun read_all :: "(string \<times> 'd script) list \<Rightarrow> error + 'd migration list" where
  "read_all [] = Inr []"
| "read_all ((name, script) # files) =
     (case version_of name of
        None \<Rightarrow> Inl (Unhandled [''ValueError'', name])
      | Some n \<Rightarrow>
          (case read_all files of
             Inl e \<Rightarrow> Inl e
           | Inr ms \<Rightarrow> Inr (\<lparr>mi_name = name, mi_version = n, mi_script = script\<rparr> # ms)))"

definition discover :: "(string \<times> 'd script) list \<Rightarrow> error + 'd migration list" where
  "discover files = (case read_all files of Inl e \<Rightarrow> Inl e | Inr ms \<Rightarrow> Inr (sort_key mi_version ms))"

section \<open>Applying\<close>

text \<open>The schema and the table \<open>schema_version\<close>, whose key is the version.\<close>

record 'd schema =
  sc_schema :: 'd
  sc_versions :: "(int \<times> int) list"

definition insert_version :: "int \<Rightarrow> int \<Rightarrow> ('d schema, unit) work" where
  "insert_version n applied_at d =
     (if n \<in> fst ` set (sc_versions d) then (Inl (Unhandled [''IntegrityError'']), d)
      else (Inr (), d\<lparr>sc_versions := sc_versions d @ [(n, applied_at)]\<rparr>))"

text \<open>The body of \<open>_apply\<close>, between its BEGIN and its COMMIT or ROLLBACK.\<close>

definition apply_migration :: "'d migration \<Rightarrow> int \<Rightarrow> ('d schema, unit) work" where
  "apply_migration m now d =
     (case mi_script m (sc_schema d) of
        (Inl e, x) \<Rightarrow> (Inl e, d\<lparr>sc_schema := x\<rparr>)
      | (Inr _, x) \<Rightarrow> insert_version (mi_version m) now (d\<lparr>sc_schema := x\<rparr>))"

definition apply_one :: "'d migration \<Rightarrow> int \<Rightarrow> 'd schema connection_state \<Rightarrow> (error + unit) \<times> 'd schema connection_state" where
  "apply_one m now c = in_transaction Committed (apply_migration m now) c"

fun apply_all :: "'d migration list \<Rightarrow> int \<Rightarrow> 'd schema connection_state \<Rightarrow> (error + unit) \<times> 'd schema connection_state" where
  "apply_all [] now c = (Inr (), c)"
| "apply_all (m # ms) now c =
     (case apply_one m now c of (Inl e, c1) \<Rightarrow> (Inl e, c1) | (Inr _, c1) \<Rightarrow> apply_all ms now c1)"

definition applied_versions :: "'d schema connection_state \<Rightarrow> int set" where
  "applied_versions c = fst ` set (sc_versions (cn_committed c))"

definition pending :: "'d migration list \<Rightarrow> 'd schema connection_state \<Rightarrow> 'd migration list" where
  "pending ms c = filter (\<lambda>m. mi_version m \<notin> applied_versions c) ms"

definition migrate ::
  "(string \<times> 'd script) list \<Rightarrow> int \<Rightarrow> 'd schema connection_state \<Rightarrow> (error + nat) \<times> 'd schema connection_state" where
  "migrate files now c =
     (case discover files of
        Inl e \<Rightarrow> (Inl e, c)
      | Inr ms \<Rightarrow>
          (case apply_all (pending ms c) now c of
             (Inl e, c1) \<Rightarrow> (Inl e, c1)
           | (Inr _, c1) \<Rightarrow> (Inr (length (pending ms c)), c1)))"

section \<open>One migration\<close>

text \<open>What a script makes of a schema when it gets through.\<close>

definition outcome :: "'d script \<Rightarrow> 'd \<Rightarrow> 'd option" where
  "outcome f x = (case f x of (Inl e, y) \<Rightarrow> None | (Inr u, y) \<Rightarrow> Some y)"

lemma apply_migration_Inr:
  "as_txn (apply_migration m now) d = Inr (u, d') \<longleftrightarrow>
    mi_version m \<notin> fst ` set (sc_versions d) \<and> (\<exists>y. outcome (mi_script m) (sc_schema d) = Some y
      \<and> d' = \<lparr>sc_schema = y, sc_versions = sc_versions d @ [(mi_version m, now)]\<rparr>)"
proof -
  obtain r y where f: "mi_script m (sc_schema d) = (r, y)" by fastforce
  show ?thesis
    by (cases r; cases "mi_version m \<in> fst ` set (sc_versions d)")
      (simp_all add: as_txn_def apply_migration_def f insert_version_def outcome_def, auto)
qed

lemma apply_one_Inr:
  assumes "cn_working c = None"
  shows "apply_one m now c = (Inr u, c') \<longleftrightarrow>
    mi_version m \<notin> applied_versions c \<and> (\<exists>y. outcome (mi_script m) (sc_schema (cn_committed c)) = Some y
      \<and> c' = c\<lparr>cn_committed := \<lparr>sc_schema = y, sc_versions = sc_versions (cn_committed c) @ [(mi_version m, now)]\<rparr>\<rparr>)"
    (is "?l \<longleftrightarrow> ?r")
proof -
  have "?l \<longleftrightarrow> (\<exists>d. transact (as_txn (apply_migration m now)) (cn_committed c) = (Inr u, d)
      \<and> c' = c\<lparr>cn_committed := d\<rparr>)"
    by (cases "transact (as_txn (apply_migration m now)) (cn_committed c)")
      (auto simp: apply_one_def in_transaction_refines [OF assms])
  also have "\<dots> \<longleftrightarrow> ?r"
    unfolding transact_Inr apply_migration_Inr applied_versions_def by auto
  finally show ?thesis .
qed

lemma apply_one_Inl:
  assumes "cn_working c = None" and "apply_one m now c = (Inl e, c')"
  shows "c' = c"
  using assms(2) by (auto simp: apply_one_def in_transaction_refines [OF assms(1)] transact_simp split: sum.splits)

section \<open>A run\<close>

text \<open>The schema after the scripts of a list, when they all get through.\<close>

fun outcomes :: "'d migration list \<Rightarrow> 'd \<Rightarrow> 'd option" where
  "outcomes [] x = Some x"
| "outcomes (m # ms) x = (case outcome (mi_script m) x of None \<Rightarrow> None | Some y \<Rightarrow> outcomes ms y)"

lemma outcomes_append:
  "outcomes (ms @ ns) x = (case outcomes ms x of None \<Rightarrow> None | Some y \<Rightarrow> outcomes ns y)"
  by (induction ms arbitrary: x) (auto split: option.splits)

lemma apply_all_Inr:
  assumes "cn_working c = None" and "distinct (map mi_version ms)" and "\<forall>m \<in> set ms. mi_version m \<notin> applied_versions c"
    and "outcomes ms (sc_schema (cn_committed c)) = Some y"
  shows "apply_all ms now c = (Inr (), c\<lparr>cn_committed :=
    \<lparr>sc_schema = y, sc_versions = sc_versions (cn_committed c) @ map (\<lambda>m. (mi_version m, now)) ms\<rparr>\<rparr>)"
  using assms
proof (induction ms arbitrary: c)
  case Nil
  then show ?case by (cases "cn_committed c") simp
next
  case (Cons m ms)
  from Cons.prems(4) obtain z where z: "outcome (mi_script m) (sc_schema (cn_committed c)) = Some z" "outcomes ms z = Some y"
    by (auto split: option.splits)
  let ?c = "c\<lparr>cn_committed := \<lparr>sc_schema = z, sc_versions = sc_versions (cn_committed c) @ [(mi_version m, now)]\<rparr>\<rparr>"
  have one: "apply_one m now c = (Inr (), ?c)"
    using z(1) Cons.prems(3) by (subst apply_one_Inr [OF Cons.prems(1)]) simp
  have "\<forall>k \<in> set ms. mi_version k \<notin> applied_versions ?c"
    using Cons.prems(2,3) by (auto simp: applied_versions_def image_iff)
  with Cons.IH [of ?c] Cons.prems z(2) have "apply_all ms now ?c = (Inr (), ?c\<lparr>cn_committed :=
    \<lparr>sc_schema = y, sc_versions = sc_versions (cn_committed ?c) @ map (\<lambda>m. (mi_version m, now)) ms\<rparr>\<rparr>)"
    by simp
  then show ?case by (simp add: one)
qed

text \<open>Whatever happens, what is committed is what the migrations before the first failure made.\<close>

lemma apply_all_prefix:
  assumes "cn_working c = None" and "apply_all ms now c = (r, c')"
  shows "\<exists>before rest. ms = before @ rest \<and> (r = Inr () \<longrightarrow> rest = []) \<and> cn_working c' = None
    \<and> outcomes before (sc_schema (cn_committed c)) = Some (sc_schema (cn_committed c'))
    \<and> sc_versions (cn_committed c') = sc_versions (cn_committed c) @ map (\<lambda>m. (mi_version m, now)) before"
  using assms
proof (induction ms arbitrary: c)
  case Nil
  then show ?case by auto
next
  case (Cons m ms)
  obtain r1 c1 where one: "apply_one m now c = (r1, c1)" by fastforce
  show ?case
  proof (cases r1)
    case (Inl e)
    then have "c' = c" "r = Inl e"
      using one Cons.prems apply_one_Inl [OF Cons.prems(1)] by auto
    then show ?thesis using Cons.prems(1) by (intro exI [of _ "[]"] exI [of _ "m # ms"]) simp
  next
    case (Inr u)
    then obtain y where y: "outcome (mi_script m) (sc_schema (cn_committed c)) = Some y"
      "c1 = c\<lparr>cn_committed := \<lparr>sc_schema = y, sc_versions = sc_versions (cn_committed c) @ [(mi_version m, now)]\<rparr>\<rparr>"
      using one apply_one_Inr [OF Cons.prems(1)] by blast
    have "apply_all ms now c1 = (r, c')" using Cons.prems(2) one Inr by simp
    from Cons.IH [OF _ this] y Cons.prems(1) obtain before rest where
      "ms = before @ rest" "r = Inr () \<longrightarrow> rest = []" "cn_working c' = None"
      "outcomes before y = Some (sc_schema (cn_committed c'))"
      "sc_versions (cn_committed c') = sc_versions (cn_committed c) @ [(mi_version m, now)]
         @ map (\<lambda>m. (mi_version m, now)) before"
      by auto
    with y(1) show ?thesis by (intro exI [of _ "m # before"] exI [of _ rest]) simp
  qed
qed

lemma discover_Inr:
  assumes "discover files = Inr ms"
  shows "sorted (map mi_version ms)"
  using assms by (auto simp: discover_def split: sum.splits)

lemma pending_none: "pending ms c = [] \<longleftrightarrow> mi_version ` set ms \<subseteq> applied_versions c"
  by (auto simp: pending_def filter_empty_conv)

text \<open>A start that answers leaves nothing for the next one to do.\<close>

lemma migrate_applies:
  assumes "cn_working c = None" and "migrate files now c = (Inr n, c')" and "discover files = Inr ms"
  shows "cn_working c' = None \<and> applied_versions c' = applied_versions c \<union> mi_version ` set ms
    \<and> outcomes (pending ms c) (sc_schema (cn_committed c)) = Some (sc_schema (cn_committed c'))"
proof -
  have run: "apply_all (pending ms c) now c = (Inr (), c')"
    using assms(2,3) by (auto simp: migrate_def split: prod.splits sum.splits)
  from apply_all_prefix [OF assms(1) run] obtain before rest where
    "pending ms c = before @ rest" "rest = []" "cn_working c' = None"
    "outcomes before (sc_schema (cn_committed c)) = Some (sc_schema (cn_committed c'))"
    "sc_versions (cn_committed c') = sc_versions (cn_committed c) @ map (\<lambda>m. (mi_version m, now)) before"
    by auto
  moreover from this have "applied_versions c' = applied_versions c \<union> mi_version ` set (pending ms c)"
    by (simp add: applied_versions_def image_Un image_image)
  moreover have "applied_versions c \<union> mi_version ` set (pending ms c) = applied_versions c \<union> mi_version ` set ms"
    by (auto simp: pending_def)
  ultimately show ?thesis by simp
qed

lemma migrate_again:
  assumes "cn_working c = None" and "migrate files now c = (Inr n, c')"
  shows "migrate files later c' = (Inr 0, c')"
proof -
  obtain ms where ms: "discover files = Inr ms"
    using assms(2) by (auto simp: migrate_def split: sum.splits)
  have "pending ms c' = []"
    unfolding pending_none using migrate_applies [OF assms ms] by blast
  then show ?thesis by (simp add: migrate_def ms)
qed

lemma migrate_succeeds:
  assumes "cn_working c = None" and "discover files = Inr ms" and "distinct (map mi_version ms)"
    and "outcomes (pending ms c) (sc_schema (cn_committed c)) = Some y"
  shows "\<exists>c'. migrate files now c = (Inr (length (pending ms c)), c') \<and> sc_schema (cn_committed c') = y"
proof -
  have "distinct (map mi_version (pending ms c))"
    unfolding pending_def by (rule distinct_map_filter) (rule assms(3))
  moreover have "\<forall>m \<in> set (pending ms c). mi_version m \<notin> applied_versions c" by (simp add: pending_def)
  ultimately show ?thesis
    using apply_all_Inr [OF assms(1) _ _ assms(4), of now] by (simp add: migrate_def assms(2))
qed

text \<open>Two files with one number: the first start fails on the second, the next one passes over it.\<close>

lemma shared_number_skipped:
  assumes "discover files = Inr [a, b]" and "mi_version a = mi_version b"
    and "cn_working c = None" and "sc_versions (cn_committed c) = []"
    and "outcome (mi_script a) (sc_schema (cn_committed c)) = Some y"
  shows "\<exists>e c'. migrate files now c = (Inl e, c') \<and> migrate files now c' = (Inr 0, c')
    \<and> sc_schema (cn_committed c') = y"
proof -
  let ?c = "c\<lparr>cn_committed := \<lparr>sc_schema = y, sc_versions = [(mi_version a, now)]\<rparr>\<rparr>"
  have none: "applied_versions c = {}" by (simp add: applied_versions_def assms(4))
  have one: "apply_one a now c = (Inr (), ?c)"
    by (subst apply_one_Inr [OF assms(3)]) (simp add: assms(4,5) none)
  have app: "applied_versions ?c = {mi_version a}" by (simp add: applied_versions_def)
  obtain r c' where two: "apply_one b now ?c = (r, c')" by fastforce
  obtain e where e: "r = Inl e"
  proof (cases r)
    case (Inr u)
    then show ?thesis using two apply_one_Inr [of ?c b now u c'] assms(2,3) app by simp
  qed
  have "c' = ?c" using apply_one_Inl [of ?c b now e c'] assms(3) two e by simp
  with one two e have "migrate files now c = (Inl e, ?c)"
    by (simp add: migrate_def assms(1) pending_def none)
  moreover have "migrate files now ?c = (Inr 0, ?c)"
    by (simp add: migrate_def assms(1,2) pending_def app [unfolded assms(2)])
  ultimately show ?thesis by auto
qed

end
