(* ===== verification/StorageProperties.thy ===== *)
theory StorageProperties
  imports Migrator
begin

text \<open>
  The theorems about the two parts of storage that lie under the stores: the thread that runs their
  transactions and the migrations that make their tables.
\<close>

section \<open>The worker\<close>

text \<open>C38: However requests submit transactions, wait for them and are cancelled, once the worker is idle every
  transaction that was submitted and not cancelled before its turn has run, all of it or nothing, in the
  order of submission, and has got the answer of that serial run; and from every state the worker reaches
  it can become idle without dropping anything more. The commits are taken to be carried out.\<close>

theorem transactions_run_one_after_another:
  assumes "worker_step\<^sup>*\<^sup>* (opened d) s"
  shows "(wk_queue s = [] \<and> wk_running s = None \<longrightarrow>
      serially (surviving s) d = (wk_answers s, cn_committed (wk_connection s)))
    \<and> (\<exists>t. worker_step\<^sup>*\<^sup>* s t \<and> wk_queue t = [] \<and> wk_running t = None \<and> surviving t = surviving s)"
proof -
  obtain t where t: "worker_step\<^sup>*\<^sup>* s t" "wk_queue t = []" "wk_running t = None"
      "wk_submitted t = wk_submitted s" "wk_dropped t = wk_dropped s"
    using can_drain [of s] by blast
  then have "surviving t = surviving s" by (simp add: surviving_def)
  with t drained [OF assms] show ?thesis by blast
qed

text \<open>Two writers; the first fails half way, a third gives up before its turn.\<close>

definition append_then_fail :: "(string list, unit) work" where
  "append_then_fail d = (Inl (Unhandled [''boom'']), d @ [''half''])"

definition append_row :: "string \<Rightarrow> (string list, unit) work" where
  "append_row r d = (Inr (), d @ [r])"

definition sample_thread :: "string list worker" where
  "sample_thread = \<lparr>wk_connection = \<lparr>cn_committed = [''a''], cn_working = None\<rparr>, wk_queue = [], wk_running = None,
     wk_answers = [(1, Inl (Unhandled [''boom''])), (2, Inr ())], wk_waiting = [],
     wk_submitted = [(1, append_then_fail), (2, append_row ''a''), (3, append_row ''b'')], wk_dropped = {3}\<rparr>"

lemma sample_thread_reached: "worker_step\<^sup>*\<^sup>* (opened []) sample_thread"
proof -
  let ?c = "\<lparr>cn_committed = [], cn_working = None\<rparr> :: string list connection_state"
  let ?d = "\<lparr>cn_committed = [''a''], cn_working = None\<rparr> :: string list connection_state"
  let ?j = "(1::nat, append_then_fail)" and ?k = "(2::nat, append_row ''a'')" and ?l = "(3::nat, append_row ''b'')"
  let ?e = "(1::nat, Inl (Unhandled [''boom'']) :: error + unit)"
  let ?s1 = "\<lparr>wk_connection = ?c, wk_queue = [?j], wk_running = None, wk_answers = [], wk_waiting = [1],
    wk_submitted = [?j], wk_dropped = {}\<rparr>"
  let ?s2 = "\<lparr>wk_connection = ?c, wk_queue = [?j, ?k], wk_running = None, wk_answers = [], wk_waiting = [2, 1],
    wk_submitted = [?j, ?k], wk_dropped = {}\<rparr>"
  let ?s3 = "\<lparr>wk_connection = ?c, wk_queue = [?j, ?k, ?l], wk_running = None, wk_answers = [], wk_waiting = [3, 2, 1],
    wk_submitted = [?j, ?k, ?l], wk_dropped = {}\<rparr>"
  let ?s4 = "\<lparr>wk_connection = ?c, wk_queue = [?k, ?l], wk_running = Some ?j, wk_answers = [], wk_waiting = [3, 2, 1],
    wk_submitted = [?j, ?k, ?l], wk_dropped = {}\<rparr>"
  let ?s5 = "\<lparr>wk_connection = ?c, wk_queue = [?k], wk_running = Some ?j, wk_answers = [], wk_waiting = [2, 1],
    wk_submitted = [?j, ?k, ?l], wk_dropped = {3}\<rparr>"
  let ?s6 = "\<lparr>wk_connection = ?c, wk_queue = [?k], wk_running = None, wk_answers = [?e], wk_waiting = [2],
    wk_submitted = [?j, ?k, ?l], wk_dropped = {3}\<rparr>"
  let ?s7 = "\<lparr>wk_connection = ?c, wk_queue = [], wk_running = Some ?k, wk_answers = [?e], wk_waiting = [2],
    wk_submitted = [?j, ?k, ?l], wk_dropped = {3}\<rparr>"
  have "worker_step (opened []) ?s1" using worker_step.submit [of 1 "opened []" append_then_fail] by (simp add: opened_def)
  moreover have "worker_step ?s1 ?s2" using worker_step.submit [of 2 ?s1 "append_row ''a''"] by simp
  moreover have "worker_step ?s2 ?s3" using worker_step.submit [of 3 ?s2 "append_row ''b''"] by simp
  moreover have "worker_step ?s3 ?s4" using worker_step.take_up [of ?s3 ?j "[?k, ?l]"] by simp
  moreover have "worker_step ?s4 ?s5" using worker_step.cancel_queued [of 3 ?s4] by simp
  moreover have "worker_step ?s5 ?s6"
    using worker_step.finish [of ?s5 1 append_then_fail "snd ?e" ?c]
    by (simp add: in_transaction_def begin_immediate_def on_connection_def append_then_fail_def rollback_def)
  moreover have "worker_step ?s6 ?s7" using worker_step.take_up [of ?s6 ?k "[]"] by simp
  moreover have "worker_step ?s7 sample_thread"
    using worker_step.finish [of ?s7 2 "append_row ''a''" "Inr ()" ?d]
    by (simp add: in_transaction_def begin_immediate_def on_connection_def append_row_def commit_def sample_thread_def)
  ultimately show ?thesis by (meson converse_rtranclp_into_rtranclp rtranclp.rtrancl_refl)
qed

theorem transactions_run_one_after_another_witness:
  "serially (surviving sample_thread) [] = ([(1, Inl (Unhandled [''boom''])), (2, Inr ())], [''a''])"
  using transactions_run_one_after_another [OF sample_thread_reached] by (simp add: sample_thread_def)

section \<open>Migrations\<close>

text \<open>C39: A start on a database that holds some of the migrations, with numbers that differ and scripts that
  get through, applies exactly the others in the order of their numbers and counts them; every later start
  applies none and changes nothing.\<close>

theorem migrate_brings_up_to_date:
  assumes "cn_working c = None" and "discover files = Inr ms" and "distinct (map mi_version ms)"
    and "outcomes (pending ms c) (sc_schema (cn_committed c)) = Some y"
  shows "\<exists>c'. migrate files now c = (Inr (length (pending ms c)), c') \<and> sc_schema (cn_committed c') = y
    \<and> sorted (map mi_version (pending ms c))
    \<and> applied_versions c' = applied_versions c \<union> mi_version ` set ms
    \<and> migrate files later c' = (Inr 0, c')"
proof -
  obtain c' where c': "migrate files now c = (Inr (length (pending ms c)), c')" "sc_schema (cn_committed c') = y"
    using migrate_succeeds [OF assms] by blast
  have "sorted (map mi_version (pending ms c))"
    unfolding pending_def by (rule sorted_filter) (rule discover_Inr [OF assms(2)])
  then show ?thesis
    using c' migrate_applies [OF assms(1) c'(1) assms(2)] migrate_again [OF assms(1) c'(1)] by blast
qed

definition add_table :: "string \<Rightarrow> string list script" where
  "add_table t d = (if t \<in> set d then (Inl (Unhandled [''table exists'']), d) else (Inr (), d @ [t]))"

definition sample_files :: "(string \<times> string list script) list" where
  "sample_files = [(''0010_late.sql'', add_table ''z''), (''0002_next.sql'', add_table ''b''), (''0001_first.sql'', add_table ''a'')]"

definition sample_database :: "string list schema connection_state" where
  "sample_database = \<lparr>cn_committed = \<lparr>sc_schema = [''a''], sc_versions = [(1, 5)]\<rparr>, cn_working = None\<rparr>"

lemma sample_discover:
  "discover sample_files = Inr [\<lparr>mi_name = ''0001_first.sql'', mi_version = 1, mi_script = add_table ''a''\<rparr>,
     \<lparr>mi_name = ''0002_next.sql'', mi_version = 2, mi_script = add_table ''b''\<rparr>,
     \<lparr>mi_name = ''0010_late.sql'', mi_version = 10, mi_script = add_table ''z''\<rparr>]"
proof -
  have "version_of ''0010_late.sql'' = Some 10" "version_of ''0002_next.sql'' = Some 2" "version_of ''0001_first.sql'' = Some 1"
    by code_simp+
  then show ?thesis by (simp add: discover_def sample_files_def)
qed

theorem migrate_brings_up_to_date_witness:
  "\<exists>c'. migrate sample_files 7 sample_database = (Inr 2, c') \<and> sc_schema (cn_committed c') = [''a'', ''b'', ''z'']
    \<and> migrate sample_files 8 c' = (Inr 0, c')"
proof -
  have idle: "cn_working sample_database = None" by (simp add: sample_database_def)
  show ?thesis
    using migrate_brings_up_to_date [OF idle sample_discover, of "[''a'', ''b'', ''z'']" 7 8]
    by (simp add: pending_def applied_versions_def sample_database_def outcome_def add_table_def numeral_2_eq_2) blast
qed

end
