(* ===== verification/Redaction.thy ===== *)
theory Redaction
  imports PyText
begin

text \<open>
  \<^verbatim>\<open>src/src/keyring_api/core/logging.py\<close>: what happens to a log record before it is rendered. A value
  is what a call site passes; keys are their text. Only dictionaries and lists are walked: a tuple, or
  any other container, is rendered as it was passed.
\<close>

section \<open>Records\<close>

datatype log_value =
    LNone | LBool bool | LNumber rat | LText string
  | LDict "(string \<times> log_value) list"
  | LList "log_value list"
  | LTuple "log_value list" \<comment> \<open>any other container\<close>

type_synonym event = "(string \<times> log_value) list"

definition REDACTED :: log_value where "REDACTED = LText ''[redacted]''"

definition MAX_REDACTION_DEPTH :: nat where "MAX_REDACTION_DEPTH = 6"

definition SENSITIVE_SUBSTRINGS :: "string list" where
  "SENSITIVE_SUBSTRINGS = [''authorization'', ''cookie'', ''credential'', ''passphrase'', ''password'', ''passwd'',
     ''private_key'', ''secret'', ''seed'', ''token'', ''api_key'', ''master_key'', ''signing_key'']"

text \<open>\<open>marker in text\<close>.\<close>

fun occurs_in :: "string \<Rightarrow> string \<Rightarrow> bool" where
  "occurs_in m [] \<longleftrightarrow> m = []"
| "occurs_in m (c # cs) \<longleftrightarrow> take (length m) (c # cs) = m \<or> occurs_in m cs"

definition is_sensitive :: "string \<Rightarrow> bool" where
  "is_sensitive field \<longleftrightarrow> list_ex (\<lambda>m. occurs_in m (lower field)) SENSITIVE_SUBSTRINGS"

fun redact_container :: "nat \<Rightarrow> log_value \<Rightarrow> log_value" where
  "redact_container d (LDict es) =
     (if d \<ge> MAX_REDACTION_DEPTH then REDACTED
      else LDict (map (\<lambda>(k, v). (k, if is_sensitive k then REDACTED else redact_container (Suc d) v)) es))"
| "redact_container d (LList vs) =
     (if d \<ge> MAX_REDACTION_DEPTH then REDACTED else LList (map (redact_container (Suc d)) vs))"
| "redact_container d v = v"

definition redact_value :: "string \<Rightarrow> log_value \<Rightarrow> nat \<Rightarrow> log_value" where
  "redact_value k v d = (if is_sensitive k then REDACTED else redact_container d v)"

definition redact_secrets :: "event \<Rightarrow> event" where
  "redact_secrets e = map (\<lambda>(k, v). (k, redact_value k v 0)) e"

text \<open>\<open>event_dict[key] = value\<close>.\<close>

definition set_field :: "string \<Rightarrow> log_value \<Rightarrow> event \<Rightarrow> event" where
  "set_field k v e = (if k \<in> fst ` set e then map (\<lambda>(k', v'). (k', if k' = k then v else v')) e else e @ [(k, v)])"

definition add_request_id :: "string option \<Rightarrow> event \<Rightarrow> event" where
  "add_request_id request_id e = (case request_id of None \<Rightarrow> e | Some i \<Rightarrow> set_field ''request_id'' (LText i) e)"

definition add_account_id :: "string option \<Rightarrow> event \<Rightarrow> event" where
  "add_account_id account_id e = (case account_id of None \<Rightarrow> e | Some i \<Rightarrow> set_field ''account_id'' (LText i) e)"

text \<open>The chain of processors without those of the library, which run before the redaction.\<close>

definition processed :: "string option \<Rightarrow> string option \<Rightarrow> event \<Rightarrow> event" where
  "processed request_id account_id e = redact_secrets (add_account_id account_id (add_request_id request_id e))"

section \<open>Paths into a record\<close>

datatype step = Key string | Index nat

fun follow :: "log_value \<Rightarrow> step list \<Rightarrow> log_value option" where
  "follow v [] = Some v"
| "follow (LDict es) (Key k # p) = (case map_of es k of None \<Rightarrow> None | Some v \<Rightarrow> follow v p)"
| "follow (LList vs) (Index i # p) = (if i < length vs then follow (vs ! i) p else None)"
| "follow (LTuple vs) (Index i # p) = (if i < length vs then follow (vs ! i) p else None)"
| "follow v p = None"

text \<open>Whether the path goes into something that is not walked.\<close>

fun enters_tuple :: "log_value \<Rightarrow> step list \<Rightarrow> bool" where
  "enters_tuple (LDict es) (Key k # p) = (case map_of es k of None \<Rightarrow> False | Some v \<Rightarrow> enters_tuple v p)"
| "enters_tuple (LList vs) (Index i # p) = (i < length vs \<and> enters_tuple (vs ! i) p)"
| "enters_tuple (LTuple vs) (s # p) = True"
| "enters_tuple v p = False"

fun is_container :: "log_value \<Rightarrow> bool" where
  "is_container (LDict es) = True" | "is_container (LList vs) = True" | "is_container v = False"

lemma map_of_redacted:
  "map_of (map (\<lambda>(k, v). (k, f k v)) es) k = map_option (f k) (map_of es k)"
  by (induction es) auto

lemma redact_leaf: "\<not> is_container v \<Longrightarrow> redact_container d v = v"
  by (cases v) simp_all

text \<open>What stands at a path in a redacted value, as a reference definition.\<close>

fun expected :: "nat \<Rightarrow> log_value \<Rightarrow> step list \<Rightarrow> log_value option" where
  "expected d v [] = Some (redact_container d v)"
| "expected d v (s # p) =
     (case (v, s) of
        (LDict es, Key k) \<Rightarrow>
          (if d \<ge> MAX_REDACTION_DEPTH then None
           else case map_of es k of
             None \<Rightarrow> None
           | Some x \<Rightarrow> if is_sensitive k then (if p = [] then Some REDACTED else None) else expected (Suc d) x p)
      | (LList vs, Index i) \<Rightarrow>
          (if d < MAX_REDACTION_DEPTH \<and> i < length vs then expected (Suc d) (vs ! i) p else None)
      | (LTuple vs, Index i) \<Rightarrow> (if i < length vs then follow (vs ! i) p else None)
      | _ \<Rightarrow> None)"

lemma follow_REDACTED: "follow REDACTED p = (if p = [] then Some REDACTED else None)"
  by (cases p) (simp_all add: REDACTED_def)

lemma follow_redacted: "follow (redact_container d v) p = expected d v p"
proof (induction d v p rule: expected.induct)
  case (1 d v) show ?case by simp
next
  case (2 d v s p)
  show ?case
  proof (cases v)
    case (LDict es)
    show ?thesis
    proof (cases s)
      case (Key k)
      with LDict show ?thesis
        by (cases "map_of es k"; cases "d \<ge> MAX_REDACTION_DEPTH")
          (simp_all add: map_of_redacted follow_REDACTED 2(1) LDict Key)
    qed (simp add: LDict follow_REDACTED)
  next
    case (LList vs)
    show ?thesis
    proof (cases s)
      case (Index i)
      with LList show ?thesis by (cases "d \<ge> MAX_REDACTION_DEPTH") (simp_all add: follow_REDACTED 2(2))
    qed (simp add: LList follow_REDACTED)
  qed (cases s; simp)+
qed

text \<open>A sensitive key holds nothing but the mark, wherever the walk comes.\<close>

lemma expected_sensitive:
  "expected d v (p @ [Key k]) = Some x \<Longrightarrow> is_sensitive k \<Longrightarrow> \<not> enters_tuple v (p @ [Key k]) \<Longrightarrow> x = REDACTED"
proof (induction p arbitrary: d v)
  case Nil
  then show ?case by (auto split: if_splits log_value.splits option.splits)
next
  case (Cons s p)
  from Cons.prems(1,3) obtain y e where "expected e y (p @ [Key k]) = Some x" "\<not> enters_tuple y (p @ [Key k])"
    by (auto split: if_splits log_value.splits option.splits step.splits)
  with Cons.IH Cons.prems(2) show ?case by blast
qed

text \<open>Nothing of what the walk sees stands below a sensitive key or below the depth bound.\<close>

lemma expected_below:
  "expected d v p = Some x \<Longrightarrow> \<not> enters_tuple v p \<Longrightarrow> d + length p \<le> MAX_REDACTION_DEPTH \<or> p = []"
proof (induction d v p rule: expected.induct)
  case (2 d v s p)
  then show ?case
    by (cases "p = []") (auto split: if_splits log_value.splits option.splits step.splits)
qed simp

definition plain_path :: "step list \<Rightarrow> bool" where
  "plain_path p \<longleftrightarrow> (\<forall>k. Key k \<in> set p \<longrightarrow> \<not> is_sensitive k)"

text \<open>A leaf that is not behind a sensitive key and not too deep is recorded as it is.\<close>

lemma expected_leaf:
  "follow v p = Some x \<Longrightarrow> plain_path p \<Longrightarrow> d + length p \<le> MAX_REDACTION_DEPTH \<Longrightarrow> \<not> is_container x \<Longrightarrow>
     expected d v p = Some x"
proof (induction v p arbitrary: d rule: follow.induct)
  case (1 v)
  then show ?case by (simp add: redact_leaf)
next
  case (2 es k p)
  then show ?case by (auto simp: plain_path_def split: option.splits)
next
  case (3 vs i p)
  then show ?case by (auto simp: plain_path_def split: if_splits)
qed simp_all

text \<open>Redacting twice is redacting once.\<close>

lemma redact_twice: "redact_container d (redact_container d v) = redact_container d v"
proof (induction d v rule: redact_container.induct)
  case (1 d es)
  then show ?case by (auto simp: REDACTED_def)
next
  case (2 d vs)
  then show ?case by (auto simp: REDACTED_def)
qed simp_all

text \<open>But a dictionary inside a tuple is not walked: what it holds under any key is rendered.\<close>

lemma tuple_not_walked: "redact_secrets [(''headers'', LTuple [LDict [(''authorization'', LText t)]])]
    = [(''headers'', LTuple [LDict [(''authorization'', LText t)]])]"
proof -
  have "\<not> is_sensitive ''headers''" by code_simp
  then show ?thesis by (simp add: redact_secrets_def redact_value_def)
qed

text \<open>The identifiers that were bound reach the rendered record, whatever the call site passed.\<close>

lemma map_of_set_field: "map_of (set_field k v e) k' = (if k' = k then Some v else map_of e k')"
proof (cases "k \<in> fst ` set e")
  case True
  then obtain w where "map_of e k = Some w" by (metis domD dom_map_of_conv_image_fst)
  then show ?thesis
    using True map_of_redacted [of "\<lambda>k'' v'. if k'' = k then v else v'" e k']
    by (simp add: set_field_def) (simp add: option.map_id0 [unfolded id_def])
next
  case False
  then have "map_of e k = None" by (simp add: map_of_eq_None_iff)
  with False show ?thesis by (simp add: set_field_def map_add_def split: option.split)
qed

lemma processed_identifiers:
  "map_of (processed (Some r) account e) ''request_id'' = Some (LText r)"
  "map_of (processed request (Some a) e) ''account_id'' = Some (LText a)"
proof -
  have "\<not> is_sensitive ''request_id''" "\<not> is_sensitive ''account_id''" by code_simp+
  then show "map_of (processed (Some r) account e) ''request_id'' = Some (LText r)"
    "map_of (processed request (Some a) e) ''account_id'' = Some (LText a)"
    by (simp_all add: processed_def add_request_id_def add_account_id_def redact_secrets_def redact_value_def
        map_of_redacted map_of_set_field split: option.split)
qed

text \<open>A record outside a request, or of a caller nobody identified, has no such field of its own.\<close>

lemma unbound_identifiers:
  "''request_id'' \<notin> fst ` set e \<Longrightarrow> map_of (processed None account e) ''request_id'' = None"
  "''account_id'' \<notin> fst ` set e \<Longrightarrow> map_of (processed request None e) ''account_id'' = None"
proof -
  have e: "map_of e f = None" if "f \<notin> fst ` set e" for f using that by (simp add: map_of_eq_None_iff)
  show "''request_id'' \<notin> fst ` set e \<Longrightarrow> map_of (processed None account e) ''request_id'' = None"
    "''account_id'' \<notin> fst ` set e \<Longrightarrow> map_of (processed request None e) ''account_id'' = None"
    by (simp_all add: processed_def add_request_id_def add_account_id_def redact_secrets_def
        map_of_redacted map_of_set_field e split: option.split)
qed

end
