(* ===== verification/Mail.thy ===== *)
theory Mail
  imports CredentialClient Sys Times
begin

text \<open>
  What the outbox sends: \<^verbatim>\<open>src/src/keyring_api/notifications/templates.py\<close> turns a message and its
  arguments into a subject and a body, \<^verbatim>\<open>notifications/senders.py\<close> delivers it by one of three
  adapters, and \<^verbatim>\<open>notifications/outbox.py\<close> is drained at shutdown.
\<close>

section \<open>Templates\<close>

record email_message =
  em_to_address :: string
  em_subject :: string
  em_body :: string

definition INVITE_SUBJECT :: string where "INVITE_SUBJECT = ''You have been invited to keyring''"
definition RESET_SUBJECT :: string where "RESET_SUBJECT = ''Reset your keyring password''"
definition NEW_SESSION_SUBJECT :: string where "NEW_SESSION_SUBJECT = ''New sign-in to your keyring account''"
definition CREDENTIAL_CHANGE_SUBJECT :: string where
  "CREDENTIAL_CHANGE_SUBJECT = ''A stored credential changed in your keyring account''"

text \<open>Lines, each with its line feed.\<close>

definition NL :: char where "NL = CHR 0x0A"

definition text_lines :: "string list \<Rightarrow> string" where
  "text_lines ls = concat (map (\<lambda>l. l @ [NL]) ls)"

definition if_not_you :: "string list" where
  "if_not_you =
     [''If that was not you, somebody else can use your account. Change your keyring password'',
      ''now: that signs out every other session, including theirs. If you cannot sign in, ask'']"

definition IF_NOT_YOU_END :: string where
  "IF_NOT_YOU_END = ''whoever runs this keyring server to reset it.''"

fun changed_words :: "credential_change \<Rightarrow> string" where
  "changed_words STORED = ''added or replaced''"
| "changed_words REMOVED = ''removed''"

fun by_words :: "change_origin \<Rightarrow> string" where
  "by_words PERSON = ''from a signed-in session on your account''"
| "by_words SERVICE = ''by a service acting for you with a token you gave it''"
| "by_words PROVIDER = ''when an authorization finished at the service's own sign-in page''"
| "by_words ADMINISTRATOR = ''by an administrator of this keyring server''"

text \<open>\<open>strftime("%Y-%m-%d %H:%M UTC")\<close> of a UTC datetime.\<close>

definition moment :: "datetime \<Rightarrow> string" where
  "moment d = dec 4 (dt_year d) @ ''-'' @ dec 2 (dt_month d) @ ''-'' @ dec 2 (dt_day d) @ '' ''
     @ dec 2 (dt_hour d) @ '':'' @ dec 2 (dt_minute d) @ '' UTC''"

definition rstrip_slashes :: "string \<Rightarrow> string" where
  "rstrip_slashes s = rev (dropWhile (\<lambda>c. c = CHR ''/'') (rev s))"

definition link_to :: "string \<Rightarrow> string \<Rightarrow> string \<Rightarrow> string" where
  "link_to base path token = rstrip_slashes base @ ''/'' @ path @ ''?token='' @ url_quote token"

definition action_text :: "string \<Rightarrow> string \<Rightarrow> string \<Rightarrow> string \<Rightarrow> string" where
  "action_text base path token fallback =
     (if base = [] then fallback @ [NL, NL] @ ''    '' @ token
      else ''Open this link:'' @ [NL, NL] @ ''    '' @ link_to base path token)"

definition invite_message :: "string \<Rightarrow> string \<Rightarrow> int \<Rightarrow> string \<Rightarrow> email_message" where
  "invite_message address token days base =
     \<lparr>em_to_address = address, em_subject = INVITE_SUBJECT, em_body = text_lines
       [''Someone with access to a keyring server has invited you to create an account on it.'',
        ''keyring stores the logins and API keys your services use on your behalf.'', [],
        action_text base ''invite'' token ''Your invite code is:'', [],
        ''This invite works once and expires in '' @ str_nat (nat days) @ '' days. Anyone who has it can'',
        ''create the account, so treat it like a password until you have used it.'', [],
        ''If you were not expecting this, ignore it -- the invite expires on its own and no'',
        ''account is created.'']\<rparr>"

definition reset_message :: "string \<Rightarrow> string \<Rightarrow> int \<Rightarrow> string \<Rightarrow> email_message" where
  "reset_message address token minutes base =
     \<lparr>em_to_address = address, em_subject = RESET_SUBJECT, em_body = text_lines
       [''Someone asked to reset the keyring password for this address.'', [],
        action_text base ''reset'' token ''Your reset code is:'', [],
        ''This works once and expires in '' @ str_nat (nat minutes) @ '' minutes. Using it will also sign'',
        ''this account out everywhere else.'', [],
        ''If you did not ask for this, ignore this message. Your password has not changed and the'',
        ''code above expires unused. Nobody needs to do anything.'']\<rparr>"

definition new_session_message :: "string \<Rightarrow> datetime \<Rightarrow> email_message" where
  "new_session_message address when =
     \<lparr>em_to_address = address, em_subject = NEW_SESSION_SUBJECT, em_body = text_lines
       ([''Your keyring account was signed in to at '' @ moment when @ ''.'', [],
         ''If that was you, there is nothing to do.'', []]
        @ if_not_you @ [IF_NOT_YOU_END, [],
         ''You get this because new sign-in notices are on for this account. You can turn them'',
         ''off in your settings.''])\<rparr>"

definition credential_change_message ::
  "string \<Rightarrow> credential_change \<Rightarrow> change_origin \<Rightarrow> datetime \<Rightarrow> email_message" where
  "credential_change_message address change origin when =
     \<lparr>em_to_address = address, em_subject = CREDENTIAL_CHANGE_SUBJECT, em_body = text_lines
       ([''A credential stored in your keyring account was '' @ changed_words change @ '' at '' @ moment when @ '','',
         by_words origin @ ''.'', [],
         ''This message does not say which one. Sign in to keyring to see your connections as they'',
         ''are now.'', [],
         ''If that was you, there is nothing to do.'', []]
        @ if_not_you @ [IF_NOT_YOU_END @ '' Then check your connections.'', [],
         ''You get this because credential-change notices are on for this account. You can turn'',
         ''them off in your settings.''])\<rparr>"

text \<open>The queued message as it is sent; \<open>utc\<close> is the calendar.\<close>

fun composed :: "(int \<Rightarrow> datetime) \<Rightarrow> mail \<Rightarrow> email_message" where
  "composed utc (InviteMessage a t n l) = invite_message a t n l"
| "composed utc (ResetMessage a t n l) = reset_message a t n l"
| "composed utc (NewSessionMessage a i) = new_session_message a (utc i)"
| "composed utc (CredentialChangeMessage a c r i) = credential_change_message a c r (utc i)"

lemma composed_address: "em_to_address (composed utc m) = to_address m"
  by (cases m) (simp_all only: composed.simps to_address.simps invite_message_def reset_message_def
      new_session_message_def credential_change_message_def email_message.simps)

section \<open>Links\<close>

text \<open>What a server makes of a percent-encoded query value.\<close>

definition unhex :: "char \<Rightarrow> nat option" where
  "unhex c = (let n = code_of c in
     if 48 \<le> n \<and> n \<le> 57 then Some (n - 48) else if 65 \<le> n \<and> n \<le> 70 then Some (n - 55) else None)"

fun unquote :: "string \<Rightarrow> nat list option" where
  "unquote [] = Some []"
| "unquote (c # cs) =
     (if c = CHR ''%''
      then (case cs of
              h # l # rest \<Rightarrow>
                (case (unhex h, unhex l) of
                   (Some a, Some b) \<Rightarrow> map_option ((#) (a * 16 + b)) (unquote rest)
                 | _ \<Rightarrow> None)
            | _ \<Rightarrow> None)
      else map_option ((#) (code_of c)) (unquote cs))"

lemma unhex_upper: "n < 16 \<Longrightarrow> unhex (upper_hex n) = Some n"
  by (auto simp: unhex_def upper_hex_def code_of_char_of Let_def)

lemma unquote_byte: "n < 256 \<Longrightarrow> unquote (quote_byte n @ rest) = map_option ((#) n) (unquote rest)"
proof -
  assume n: "n < 256"
  show ?thesis
  proof (cases "is_unreserved n")
    case True
    then have "n \<noteq> 37" "n < 256" by (auto simp: is_unreserved_def)
    moreover have code: "code_of (char_of n) = n" using n by (rule code_of_char_of)
    moreover have "code_of (CHR ''%'') = 37" by (simp add: code_of_def)
    ultimately have "char_of n \<noteq> CHR ''%''" by metis
    with True code show ?thesis by (simp add: quote_byte_def)
  next
    case False
    have "n div 16 < 16" "n mod 16 < 16" using n by auto
    with False show ?thesis by (simp add: quote_byte_def unhex_upper)
  qed
qed

lemma unquote_bytes: "\<forall>b \<in> set bs. b < 256 \<Longrightarrow> unquote (concat (map quote_byte bs)) = Some bs"
  by (induction bs) (simp_all add: unquote_byte)

lemma unquote_quote: "unquote (url_quote s) = Some (concat (map utf8 s))"
  unfolding url_quote_def by (rule unquote_bytes) (auto dest: utf8_bytes)

lemma quoted_chars: "c \<in> set (url_quote s) \<Longrightarrow> is_unreserved (code_of c) \<or> c = CHR ''%''"
proof -
  assume "c \<in> set (url_quote s)"
  then obtain n where n: "n < 256" "c \<in> set (quote_byte n)"
    using utf8_bytes by (fastforce simp: url_quote_def)
  have hex: "is_unreserved (code_of (upper_hex k))" if "k < 16" for k
    using that by (auto simp: upper_hex_def code_of_char_of is_unreserved_def)
  have "n div 16 < 16" "n mod 16 < 16" using n by auto
  with n hex show ?thesis by (auto simp: quote_byte_def code_of_char_of split: if_splits)
qed

text \<open>Two tokens never make one link.\<close>

lemma utf8_concat_inj: "concat (map utf8 s) = concat (map utf8 t) \<Longrightarrow> s = t"
proof (induction s arbitrary: t)
  case Nil
  then show ?case by (cases t) (auto simp: utf8_def Let_def split: if_splits)
next
  case (Cons c s)
  then obtain d u where t: "t = d # u" by (cases t) (auto simp: utf8_def Let_def split: if_splits)
  have b: "code_of c < 256" "code_of d < 256" by (simp_all add: code_of_def nat_of_char_less_256)
  have eq: "utf8 c @ concat (map utf8 s) = utf8 d @ concat (map utf8 u)" using Cons.prems t by simp
  have "code_of c = code_of d \<and> concat (map utf8 s) = concat (map utf8 u)"
  proof (cases "code_of c < 128"; cases "code_of d < 128")
    assume "\<not> code_of c < 128" "\<not> code_of d < 128"
    with eq have "192 + code_of c div 64 = 192 + code_of d div 64" "code_of c mod 64 = code_of d mod 64"
        "concat (map utf8 s) = concat (map utf8 u)"
      by (simp_all add: utf8_def Let_def)
    then show ?thesis by (metis add_left_cancel mult_div_mod_eq)
  qed (use eq b in \<open>auto simp: utf8_def Let_def\<close>)
  then have "c = d" "s = u" using Cons.IH [of u] by (auto simp: code_of_def)
  with t show ?case by simp
qed

lemma link_injective: "link_to base path s = link_to base path t \<Longrightarrow> s = t"
proof -
  assume "link_to base path s = link_to base path t"
  then have "unquote (url_quote s) = unquote (url_quote t)" by (simp add: link_to_def)
  then show ?thesis by (simp add: unquote_quote utf8_concat_inj)
qed

section \<open>Senders\<close>

text \<open>
  The settings that only the senders read, beside those every service reads. A library call of
  the SMTP adapter is an action; what the server makes of it is an argument.
\<close>

record mail_settings = email_settings +
  ms_port :: nat
  ms_username :: string
  ms_from_name :: string

definition from_header :: "mail_settings \<Rightarrow> string" where
  "from_header e =
     (if ms_from_name e \<noteq> [] then ms_from_name e @ '' <'' @ es_from_address e @ ''>'' else es_from_address e)"

datatype smtp_action =
    ConnectTls string nat
  | ConnectPlain string nat
  | StartTls
  | LogInAs string string
  | SendMime "(string \<times> string) list" string

definition mime_of :: "mail_settings \<Rightarrow> email_message \<Rightarrow> smtp_action" where
  "mime_of e m =
     SendMime [(''From'', from_header e), (''To'', em_to_address m), (''Subject'', em_subject m),
       (''Auto-Submitted'', ''auto-generated'')] (em_body m)"

definition smtp_connect :: "mail_settings \<Rightarrow> smtp_action" where
  "smtp_connect e =
     (if es_use_implicit_tls e then ConnectTls (es_host e) (ms_port e) else ConnectPlain (es_host e) (ms_port e))"

text \<open>An empty secret is false.\<close>

definition send_blocking :: "mail_settings \<Rightarrow> email_message \<Rightarrow> smtp_action list" where
  "send_blocking e m =
     [smtp_connect e]
     @ (if es_use_starttls e then [StartTls] else [])
     @ (case es_password e of
          None \<Rightarrow> []
        | Some password \<Rightarrow> if ms_username e \<noteq> [] \<and> password \<noteq> [] then [LogInAs (ms_username e) password] else [])
     @ [mime_of e m]"

text \<open>The actions that were carried out, up to and with the first that raised.\<close>

fun performed :: "(smtp_action \<Rightarrow> bool) \<Rightarrow> smtp_action list \<Rightarrow> smtp_action list \<times> bool" where
  "performed succeeds [] = ([], True)"
| "performed succeeds (a # as) =
     (if succeeds a then (case performed succeeds as of (done_actions, ok) \<Rightarrow> (a # done_actions, ok)) else ([a], False))"

definition smtp_send :: "(smtp_action \<Rightarrow> bool) \<Rightarrow> mail_settings \<Rightarrow> email_message \<Rightarrow> smtp_action list \<times> bool" where
  "smtp_send succeeds e m = performed succeeds (send_blocking e m)"

text \<open>The file adapter: messages are numbered by the process.\<close>

definition is_alnum_text :: "char \<Rightarrow> bool" where
  "is_alnum_text c \<longleftrightarrow> (let n = code_of c in
     48 \<le> n \<and> n \<le> 57 \<or> 65 \<le> n \<and> n \<le> 90 \<or> 97 \<le> n \<and> n \<le> 122 \<or> n \<in> {170, 178, 179, 181, 185, 186, 188, 189, 190}
     \<or> 192 \<le> n \<and> n \<noteq> 215 \<and> n \<noteq> 247)"

definition slug :: "string \<Rightarrow> string" where
  "slug address = take 40 (map (\<lambda>c. if is_alnum_text c then c else CHR ''-'') address)"

definition zero_padded :: "nat \<Rightarrow> string" where
  "zero_padded n = (let s = str_nat n in replicate (4 - length s) CHR ''0'' @ s)"

definition eml_name :: "nat \<Rightarrow> string \<Rightarrow> string" where
  "eml_name k address = zero_padded k @ ''-'' @ slug address @ ''.eml''"

definition render_message :: "email_message \<Rightarrow> string" where
  "render_message m = ''To: '' @ em_to_address m @ [NL] @ ''Subject: '' @ em_subject m @ [NL, NL] @ em_body m @ [NL]"

text \<open>\<open>writable\<close>: the directory and the file can be written. The number is spent either way.\<close>

definition file_send ::
  "bool \<Rightarrow> email_message \<Rightarrow> nat \<times> (string \<times> string) list \<Rightarrow> bool \<times> nat \<times> (string \<times> string) list" where
  "file_send writable m state =
     (case state of (k, files) \<Rightarrow>
        let k' = k + 1; name = eml_name k' (em_to_address m) in
        if writable then (True, k', (name, render_message m) # filter (\<lambda>f. fst f \<noteq> name) files)
        else (False, k', files))"

text \<open>The adapter a configuration names, and whether it delivers.\<close>

datatype sender = DisabledSender | FileSender | SmtpSender

definition build_sender :: "'a email_settings_scheme \<Rightarrow> sender" where
  "build_sender e = (case es_backend e of EMAIL_SMTP \<Rightarrow> SmtpSender | EMAIL_FILE \<Rightarrow> FileSender | EMAIL_DISABLED \<Rightarrow> DisabledSender)"

fun is_enabled :: "sender \<Rightarrow> bool" where
  "is_enabled DisabledSender = False"
| "is_enabled FileSender = True"
| "is_enabled SmtpSender = True"

section \<open>What a sender guarantees\<close>

lemma performed_prefix: "\<exists>rest. as = fst (performed ok as) @ rest"
  by (induction as) (auto split: prod.splits)

text \<open>A password goes over the wire only on an encrypted connection.\<close>

lemma login_encrypted:
  assumes "check_transport (email_settings.truncate e) = Inr ()" and "es_backend e = EMAIL_SMTP"
    and "fst (smtp_send ok e m) = before @ LogInAs u p # rest"
  shows "StartTls \<in> set before \<or> ConnectTls (es_host e) (ms_port e) \<in> set before"
proof -
  obtain more where all: "send_blocking e m = before @ LogInAs u p # rest @ more"
    using performed_prefix [of "send_blocking e m" ok] assms(3) by (auto simp: smtp_send_def)
  have "es_password e \<noteq> None"
  proof
    assume "es_password e = None"
    then have "LogInAs u p \<notin> set (send_blocking e m)"
      by (auto simp: send_blocking_def smtp_connect_def mime_of_def)
    with all show False by simp
  qed
  then have tls: "es_use_starttls e \<noteq> es_use_implicit_tls e"
    using check_transport_tls [OF assms(1)] assms(2) by (simp add: email_settings.defs)
  obtain b rest' where b: "before = b # rest'" "b = smtp_connect e"
    using all by (cases before) (auto simp: send_blocking_def smtp_connect_def split: if_splits)
  show ?thesis
  proof (cases "es_use_implicit_tls e")
    case True
    then show ?thesis using b by (simp add: smtp_connect_def)
  next
    case False
    with tls have start: "es_use_starttls e" by simp
    define tail where "tail = (case es_password e of None \<Rightarrow> []
      | Some password \<Rightarrow> if ms_username e \<noteq> [] \<and> password \<noteq> [] then [LogInAs (ms_username e) password] else []) @ [mime_of e m]"
    have "smtp_connect e # StartTls # tail = smtp_connect e # rest' @ LogInAs u p # rest @ more"
      using all b start by (simp add: send_blocking_def tail_def)
    then have "StartTls # tail = rest' @ LogInAs u p # rest @ more" by simp
    then have "StartTls \<in> set rest'" by (cases rest') auto
    with b show ?thesis by simp
  qed
qed

text \<open>Files of one process do not overwrite each other.\<close>

lemma file_send_adds:
  "file_send True m (k, files) = (True, k + 1, (eml_name (k + 1) (em_to_address m), render_message m)
     # filter (\<lambda>f. fst f \<noteq> eml_name (k + 1) (em_to_address m)) files)"
  by (simp add: file_send_def Let_def)

lemma slug_plain: "c \<in> set (slug a) \<Longrightarrow> is_alnum_text c \<or> c = CHR ''-''"
  by (auto simp: slug_def dest!: in_set_takeD)

text \<open>A file name never leaves its directory.\<close>

lemma slug_no_slash: "CHR ''/'' \<notin> set (slug a)"
  using slug_plain [of "CHR ''/''" a] by (auto simp: is_alnum_text_def code_of_def Let_def)

end
