(* ===== verification/Loading.thy ===== *)
theory Loading
  imports Problems Config OAuth
begin

text \<open>
  What is read at startup: the environment and the master key (\<^verbatim>\<open>src/src/keyring_api/core/config.py\<close>),
  and the file of OAuth providers (\<^verbatim>\<open>credentials/providers.py\<close>).
\<close>

section \<open>Names of the environment\<close>

definition ENV_PREFIX :: string where "ENV_PREFIX = ''KEYRING_''"
definition ENV_NESTED_DELIMITER :: string where "ENV_NESTED_DELIMITER = ''__''"

text \<open>The fields of the settings model, with those of its nested models.\<close>

datatype setting_field = Plain string | Nested string "setting_field list"

definition upper_ascii :: "string \<Rightarrow> string" where
  "upper_ascii s = map (\<lambda>c. if 97 \<le> code_of c \<and> code_of c \<le> 122 then char_of (code_of c - 32) else c) s"

fun known_env_names :: "setting_field list \<Rightarrow> string \<Rightarrow> string list" where
  "known_env_names [] p = []"
| "known_env_names (Plain n # fs) p = (p @ upper_ascii n) # known_env_names fs p"
| "known_env_names (Nested n gs # fs) p =
     known_env_names gs (p @ upper_ascii n @ ENV_NESTED_DELIMITER) @ known_env_names fs p"

definition SETTINGS_FIELDS :: "setting_field list" where
  "SETTINGS_FIELDS = map Plain
     [''app_name'', ''environment'', ''issuer'', ''log_level'', ''log_format'', ''host'', ''port'',
      ''session_ttl_seconds'', ''session_absolute_ttl_seconds'', ''invite_ttl_seconds'', ''reset_ttl_seconds'',
      ''max_sessions_per_account'', ''lockout_threshold'', ''lockout_seconds'', ''access_token_ttl_seconds'',
      ''signing_key_path'', ''oauth_state_ttl_seconds'', ''oauth_refresh_margin_seconds'',
      ''oauth_http_timeout_seconds'', ''oauth_providers_path'', ''oauth_redirect_uri'', ''service_tokens'',
      ''exchange_audiences'', ''offline_grant_max_ttl_seconds'', ''max_offline_grants_per_profile'',
      ''settings_api_base_url'', ''settings_api_token'', ''database_path'', ''admin_token'', ''master_key'',
      ''max_profiles_per_account'', ''max_connections_per_profile'']
   @ [Nested ''argon2'' (map Plain [''time_cost'', ''memory_cost_kib'', ''parallelism'', ''hash_length'', ''salt_length'']),
      Nested ''rate_limit'' (map Plain [''login_attempts'', ''login_window_seconds'', ''reset_attempts'',
        ''reset_window_seconds'', ''invite_attempts'', ''invite_window_seconds'']),
      Nested ''email'' (map Plain [''backend'', ''host'', ''port'', ''username'', ''password'', ''use_starttls'',
        ''use_implicit_tls'', ''from_address'', ''from_name'', ''timeout_seconds'', ''outbox_dir'', ''link_base_url'',
        ''max_messages_per_address_per_window'', ''window_seconds''])]"

definition starts_with :: "string \<Rightarrow> string \<Rightarrow> bool" where
  "starts_with p s \<longleftrightarrow> take (length p) s = p"

definition unknown_env_names :: "string list \<Rightarrow> string list" where
  "unknown_env_names present =
     sort (filter (\<lambda>n. starts_with ENV_PREFIX n \<and> n \<notin> set (known_env_names SETTINGS_FIELDS ENV_PREFIX)) present)"

definition check_for_unknown_env_vars :: "string list \<Rightarrow> unit result" where
  "check_for_unknown_env_vars present =
     (let unknown = unknown_env_names present in
      if unknown \<noteq> []
      then value_error [''unknown KEYRING_* environment variables: '', join '', '' unknown]
      else Inr ())"

lemma check_for_unknown_Inr:
  "check_for_unknown_env_vars present = Inr u \<longleftrightarrow>
     (\<forall>n \<in> set present. starts_with ENV_PREFIX n \<longrightarrow> n \<in> set (known_env_names SETTINGS_FIELDS ENV_PREFIX))"
proof -
  have "unknown_env_names present = [] \<longleftrightarrow>
     (\<forall>n \<in> set present. starts_with ENV_PREFIX n \<longrightarrow> n \<in> set (known_env_names SETTINGS_FIELDS ENV_PREFIX))"
    by (auto simp: unknown_env_names_def filter_empty_conv simp flip: set_empty)
  then show ?thesis by (simp add: check_for_unknown_env_vars_def value_error_def Let_def)
qed

lemma starts_with_iff: "starts_with p s \<longleftrightarrow> (\<exists>r. s = p @ r)"
  by (metis append_eq_conv_conj append_take_drop_id starts_with_def)

lemma known_prefixed: "n \<in> set (known_env_names fs p) \<Longrightarrow> starts_with p n"
  by (induction fs p rule: known_env_names.induct) (auto simp: starts_with_iff)

section \<open>The report of a refusal\<close>

text \<open>\<open>'.'.join(loc) or '<root>'\<close> and the message; never the input.\<close>

definition describe_validation_error :: "raw_field_error list \<Rightarrow> string" where
  "describe_validation_error errors =
     ''invalid configuration: '' @ join ''; '' (map (\<lambda>e.
       (let l = join ''.'' (rf_loc e) in if l = [] then ''<root>'' else l) @ '': '' @ rf_msg e) errors)"

text \<open>\<open>Settings()\<close> is the library's: settings, or the failures of its validation.\<close>

definition load_settings :: "string list \<Rightarrow> raw_field_error list + 's \<Rightarrow> error + 's" where
  "load_settings present parsed =
     (case check_for_unknown_env_vars present of
        Inl e \<Rightarrow> Inl e
      | Inr _ \<Rightarrow>
          (case parsed of
             Inl errors \<Rightarrow> Inl (Unhandled [describe_validation_error errors])
           | Inr s \<Rightarrow> Inr s))"

lemma describe_without_input:
  assumes "map (\<lambda>e. (rf_loc e, rf_msg e)) xs = map (\<lambda>e. (rf_loc e, rf_msg e)) ys"
  shows "describe_validation_error xs = describe_validation_error ys"
proof -
  have eq: "map (\<lambda>e. (let l = join ''.'' (rf_loc e) in if l = [] then ''<root>'' else l) @ '': '' @ rf_msg e) zs
      = map (\<lambda>p. (let l = join ''.'' (fst p) in if l = [] then ''<root>'' else l) @ '': '' @ snd p) (map (\<lambda>e. (rf_loc e, rf_msg e)) zs)"
    for zs by simp
  show ?thesis unfolding describe_validation_error_def eq assms ..
qed

section \<open>The master key\<close>

definition MASTER_KEY_BYTES :: nat where "MASTER_KEY_BYTES = 32"

text \<open>\<open>base64.b64decode(text, validate=True)\<close>; \<open>None\<close>: \<open>binascii.Error\<close> or \<open>ValueError\<close>.\<close>

definition b64_value :: "char \<Rightarrow> nat option" where
  "b64_value c = (let n = code_of c in
     if 65 \<le> n \<and> n \<le> 90 then Some (n - 65) else if 97 \<le> n \<and> n \<le> 122 then Some (n - 71)
     else if 48 \<le> n \<and> n \<le> 57 then Some (n + 4) else if n = 43 then Some 62 else if n = 47 then Some 63 else None)"

definition b64_last :: "nat \<Rightarrow> nat \<Rightarrow> char \<Rightarrow> nat list option" where
  "b64_last x y c =
     (if c = CHR ''='' then Some [x * 4 + y div 16]
      else map_option (\<lambda>z. [x * 4 + y div 16, y mod 16 * 16 + z div 4]) (b64_value c))"

fun b64_decode :: "string \<Rightarrow> nat list option" where
  "b64_decode [] = Some []"
| "b64_decode (a # b # c # d # rest) =
     (case (b64_value a, b64_value b) of
        (Some x, Some y) \<Rightarrow>
          if rest = [] \<and> d = CHR ''='' then b64_last x y c
          else (case (b64_value c, b64_value d) of
                  (Some z, Some w) \<Rightarrow>
                    map_option (\<lambda>bs. (x * 4 + y div 16) # (y mod 16 * 16 + z div 4) # (z mod 4 * 64 + w) # bs) (b64_decode rest)
                | _ \<Rightarrow> None)
      | _ \<Rightarrow> None)"
| "b64_decode t = None"

definition check_master_key :: "string option \<Rightarrow> string option result" where
  "check_master_key key =
     (case key of
        None \<Rightarrow> Inr None
      | Some t \<Rightarrow>
          (case b64_decode t of
             None \<Rightarrow> Inl (Unhandled [''master_key must be base64-encoded''])
           | Some raw \<Rightarrow>
               if length raw \<noteq> MASTER_KEY_BYTES
               then Inl (Unhandled [''master_key must decode to exactly 32 bytes''])
               else Inr (Some t)))"

definition master_key_bytes :: "string option \<Rightarrow> nat list option" where
  "master_key_bytes key = (case key of None \<Rightarrow> None | Some t \<Rightarrow> b64_decode t)"

text \<open>What an operator writes: the encoding with padding.\<close>

definition b64_letter :: "nat \<Rightarrow> char" where
  "b64_letter n = char_of
     (if n < 26 then 65 + n else if n < 52 then 71 + n else if n < 62 then n - 4 else if n = 62 then 43 else 47)"

fun b64_encode :: "nat list \<Rightarrow> string" where
  "b64_encode (a # b # c # rest) =
     [b64_letter (a div 4), b64_letter (a mod 4 * 16 + b div 16), b64_letter (b mod 16 * 4 + c div 64), b64_letter (c mod 64)]
     @ b64_encode rest"
| "b64_encode [a, b] =
     [b64_letter (a div 4), b64_letter (a mod 4 * 16 + b div 16), b64_letter (b mod 16 * 4), CHR ''='']"
| "b64_encode [a] = [b64_letter (a div 4), b64_letter (a mod 4 * 16), CHR ''='', CHR ''='']"
| "b64_encode [] = []"

lemma b64_value_letter: "n < 64 \<Longrightarrow> b64_value (b64_letter n) = Some n"
  by (auto simp: b64_value_def b64_letter_def code_of_char_of Let_def)

lemma b64_letter_not_pad: "n < 64 \<Longrightarrow> b64_letter n \<noteq> CHR ''=''"
proof
  assume "n < 64" "b64_letter n = CHR ''=''"
  then have "b64_value (CHR ''='') = Some n" using b64_value_letter by metis
  then show False by (simp add: b64_value_def code_of_def)
qed

lemma b64_round_trip: "\<forall>b \<in> set bs. b < 256 \<Longrightarrow> b64_decode (b64_encode bs) = Some bs"
proof (induction bs rule: b64_encode.induct)
  case (1 a b c rest)
  have small: "a div 4 < 64" "a mod 4 * 16 + b div 16 < 64" "b mod 16 * 4 + c div 64 < 64" "c mod 64 < 64"
    using 1(2) by auto
  have "b div 16 < 16" "c div 64 < 4" using 1(2) by auto
  then have quot: "b div 16 div 16 = 0" "b div 16 mod 16 = b div 16" "c div 64 div 4 = 0" "c div 64 mod 4 = c div 64"
    by simp_all
  show ?case using 1 small quot by (simp add: b64_value_letter b64_letter_not_pad)
next
  case (2 a b)
  have small: "a div 4 < 64" "a mod 4 * 16 + b div 16 < 64" "b mod 16 * 4 < 64" using 2 by auto
  have "b div 16 < 16" using 2 by auto
  then have "b div 16 div 16 = 0" "b div 16 mod 16 = b div 16" by simp_all
  then show ?case using 2 small by (simp add: b64_value_letter b64_letter_not_pad b64_last_def)
next
  case (3 a)
  have "a div 4 < 64" "a mod 4 * 16 < 64" using 3 by auto
  then show ?case using 3 by (simp add: b64_value_letter b64_last_def)
qed simp

text \<open>A process that started holds 32 bytes, or is sealed because nothing was configured.\<close>

lemma checked_master_key:
  assumes "check_master_key key = Inr key'"
  shows "key' = key \<and> (key = None \<and> master_key_bytes key' = None
    \<or> (\<exists>raw. master_key_bytes key' = Some raw \<and> length raw = 32))"
  using assms by (auto simp: check_master_key_def master_key_bytes_def MASTER_KEY_BYTES_def split: option.splits if_splits)

lemma written_master_key:
  assumes "length raw = 32" and "\<forall>b \<in> set raw. b < 256"
  shows "check_master_key (Some (b64_encode raw)) = Inr (Some (b64_encode raw))"
  by (simp add: check_master_key_def b64_round_trip [OF assms(2)] assms(1) MASTER_KEY_BYTES_def)

section \<open>Blank values\<close>

definition blank_settings_url_is_unset :: "string option \<Rightarrow> string option" where
  "blank_settings_url_is_unset v = (if v = Some [] then None else v)"

definition blank_settings_token_is_unset :: "string option \<Rightarrow> string option" where
  "blank_settings_token_is_unset v = (if v = Some [] then None else v)"

section \<open>The provider file\<close>

text \<open>
  What the file system and the library say of the configured path: it does not exist, or its
  permission bits (\<open>None\<close> on a platform without them) and the providers it parses to.
\<close>

datatype provider_file = NoPath | Missing string | Present string "nat option" "oauth_provider list option"

definition MAX_PROVIDER_FILE_MODE :: nat where "MAX_PROVIDER_FILE_MODE = 384" \<comment> \<open>0o600\<close>

text \<open>\<open>mode & ~MAX_PROVIDER_FILE_MODE\<close>: a bit besides read and write of the owner.\<close>

definition other_bits :: "nat \<Rightarrow> nat" where
  "other_bits mode = mode - mode mod 512 + mode mod 128"

fun octal4 :: "nat \<Rightarrow> nat \<Rightarrow> string" where
  "octal4 0 n = []"
| "octal4 (Suc w) n = octal4 w (n div 8) @ [char_of (48 + n mod 8)]"

definition load_providers :: "provider_file \<Rightarrow> (string \<times> oauth_provider) list result" where
  "load_providers f =
     (case f of
        NoPath \<Rightarrow> Inr []
      | Missing path \<Rightarrow> Inl (CredentialUnavailableError [''OAuth provider file '', path, '' does not exist''])
      | Present path mode parsed \<Rightarrow>
          if mode \<noteq> None \<and> other_bits (the mode) \<noteq> 0
          then Inl (CredentialUnavailableError
            [''OAuth provider file '', path, '' must be mode 0600, found '', octal4 4 (the mode)])
          else (case parsed of
                  None \<Rightarrow> Inl (CredentialUnavailableError [''OAuth provider file '', path, '' could not be read''])
                | Some entries \<Rightarrow>
                    Inr (foldl (\<lambda>ps p. AList.update (op_service p) p ps) [] entries)))"

text \<open>A provider file that was loaded is the owner's alone.\<close>

lemma other_bits_0: "m < 4096 \<Longrightarrow> other_bits m = 0 \<longleftrightarrow> m \<in> {0, 128, 256, 384}"
proof -
  assume m: "m < 4096"
  have "other_bits m = 0 \<longleftrightarrow> m < 512 \<and> m mod 128 = 0"
    by (auto simp: other_bits_def)
  also have "\<dots> \<longleftrightarrow> m \<in> {0, 128, 256, 384}"
    by auto
  finally show ?thesis .
qed

lemma loaded_providers:
  assumes "load_providers (Present path (Some mode) parsed) = Inr ps" and "mode < 4096"
  shows "mode \<in> {0, 128, 256, 384}"
  using assms other_bits_0 [OF assms(2)] by (auto simp: load_providers_def split: if_splits)

section \<open>Defaults\<close>

text \<open>What the fields hold when the environment says nothing.\<close>

definition default_email :: email_settings where
  "default_email = \<lparr>es_backend = EMAIL_DISABLED, es_host = [], es_from_address = [], es_password = None,
     es_use_starttls = True, es_use_implicit_tls = False, es_link_base_url = [], es_max_messages = 5, es_window_seconds = 3600\<rparr>"

definition default_argon2 :: argon2_settings where
  "default_argon2 = \<lparr>ag_time_cost = 3, ag_memory_cost_kib = 64 * 1024, ag_parallelism = 4, ag_hash_length = 32,
     ag_salt_length = 16\<rparr>"

definition default_rate_limit :: rate_limit_settings where
  "default_rate_limit = \<lparr>rl_login_attempts = 10, rl_login_window_seconds = 300, rl_reset_attempts = 5,
     rl_reset_window_seconds = 3600, rl_invite_attempts = 10, rl_invite_window_seconds = 3600\<rparr>"

definition default_settings :: settings where
  "default_settings = \<lparr>st_session_ttl_seconds = 14 * 24 * 3600, st_session_absolute_ttl_seconds = 90 * 24 * 3600,
     st_invite_ttl_seconds = 7 * 24 * 3600, st_reset_ttl_seconds = 3600, st_max_sessions_per_account = 20,
     st_lockout_threshold = 10, st_lockout_seconds = 900, st_access_token_ttl_seconds = 900,
     st_oauth_state_ttl_seconds = 600, st_oauth_refresh_margin_seconds = 120, st_service_tokens = [],
     st_exchange_audiences = [], st_offline_grant_max_ttl_seconds = 30 * 24 * 3600, st_max_offline_grants_per_profile = 100,
     st_settings_api_base_url = None, st_settings_api_token = None, st_admin_token = None,
     st_max_profiles_per_account = 20, st_max_connections_per_profile = 50, st_argon2 = default_argon2,
     st_rate_limit = default_rate_limit, st_email = default_email\<rparr>"

lemmas default_defs = default_settings_def default_email_def default_argon2_def default_rate_limit_def

text \<open>A process starts on them, nobody is an operator or a calling service, and every limit is one the limiter keeps.\<close>

lemma defaults_accepted: "settings_ok default_settings"
  by (simp add: settings_ok_def positive_fields_def check_transport_def check_memory_covers_parallelism_def
      check_exchange_audiences_def check_service_tokens_def check_lifetimes_def check_settings_api_is_whole_def default_defs)

lemma defaults_admit_nobody: "st_admin_token default_settings = None" "st_service_tokens default_settings = []"
  "settings_api default_settings = None"
  by (simp_all add: default_defs settings_api_def)

lemma defaults_limited:
  "rl_login_attempts (st_rate_limit default_settings) < 128" "rl_reset_attempts (st_rate_limit default_settings) < 128"
  "rl_invite_attempts (st_rate_limit default_settings) < 128" "es_max_messages (st_email default_settings) < 128"
  by (simp_all add: default_defs)

end
