(* ===== verification/RequestContext.thy ===== *)
theory RequestContext
  imports Gateway
begin

text \<open>
  \<^verbatim>\<open>src/src/keyring_api/core/context.py\<close> and \<^verbatim>\<open>api/middleware.py\<close>: two context variables that are
  local to a task, and the middleware that binds the id of a request. Tasks take their steps in
  any order; a new task starts with a copy of the variables of the one that made it. What the tasks of
  a request do with the variables is what the middleware and the dependencies of
  \<^verbatim>\<open>api/dependencies.py\<close> do.
\<close>

section \<open>Context variables\<close>

datatype context_variable = RequestIdVar | AccountIdVar

record context_vars =
  cv_request_id :: "string option"
  cv_account_id :: "string option"

fun var_get :: "context_variable \<Rightarrow> context_vars \<Rightarrow> string option" where
  "var_get RequestIdVar c = cv_request_id c"
| "var_get AccountIdVar c = cv_account_id c"

fun var_set :: "context_variable \<Rightarrow> string option \<Rightarrow> context_vars \<Rightarrow> context_vars" where
  "var_set RequestIdVar x c = c\<lparr>cv_request_id := x\<rparr>"
| "var_set AccountIdVar x c = c\<lparr>cv_account_id := x\<rparr>"

definition unbound :: context_vars where
  "unbound = \<lparr>cv_request_id = None, cv_account_id = None\<rparr>"

text \<open>A task: its variables and the tokens of the blocks it is inside, innermost first.\<close>

record task_context =
  tc_vars :: context_vars
  tc_tokens :: "(context_variable \<times> string option) list"

definition get_request_id :: "task_context \<Rightarrow> string option" where
  "get_request_id c = var_get RequestIdVar (tc_vars c)"

definition get_account_id :: "task_context \<Rightarrow> string option" where
  "get_account_id c = var_get AccountIdVar (tc_vars c)"

definition set_account_id :: "string \<Rightarrow> task_context \<Rightarrow> task_context" where
  "set_account_id account_id c = c\<lparr>tc_vars := var_set AccountIdVar (Some account_id) (tc_vars c)\<rparr>"

text \<open>\<open>bind_request_id\<close> and \<open>bind_account_id\<close>: the token is what the variable held before.\<close>

definition bind_enter :: "context_variable \<Rightarrow> string \<Rightarrow> task_context \<Rightarrow> task_context" where
  "bind_enter v x c = c\<lparr>tc_vars := var_set v (Some x) (tc_vars c), tc_tokens := (v, var_get v (tc_vars c)) # tc_tokens c\<rparr>"

definition bind_exit :: "task_context \<Rightarrow> task_context" where
  "bind_exit c =
     (case tc_tokens c of
        [] \<Rightarrow> c
      | (v, old) # rest \<Rightarrow> c\<lparr>tc_vars := var_set v old (tc_vars c), tc_tokens := rest\<rparr>)"

section \<open>Tasks\<close>

datatype context_step = SetAccount string | BindEnter context_variable string | BindExit | Spawn nat

type_synonym contexts = "nat \<Rightarrow> task_context"

fun advance_context :: "nat \<Rightarrow> context_step \<Rightarrow> contexts \<Rightarrow> contexts" where
  "advance_context t (SetAccount a) cs = cs(t := set_account_id a (cs t))"
| "advance_context t (BindEnter v x) cs = cs(t := bind_enter v x (cs t))"
| "advance_context t BindExit cs = cs(t := bind_exit (cs t))"
| "advance_context t (Spawn child) cs = cs(child := \<lparr>tc_vars = tc_vars (cs t), tc_tokens = []\<rparr>)"

fun context_run :: "(nat \<times> context_step) list \<Rightarrow> contexts \<Rightarrow> contexts" where
  "context_run [] cs = cs"
| "context_run ((t, e) # es) cs = context_run es (advance_context t e cs)"

definition spawns :: "nat \<Rightarrow> (nat \<times> context_step) list \<Rightarrow> bool" where
  "spawns t es \<longleftrightarrow> Spawn t \<in> snd ` set es"

lemma context_run_append: "context_run (es @ fs) cs = context_run fs (context_run es cs)"
  by (induction es cs rule: context_run.induct) simp_all

text \<open>What a task does to its own variables; the steps it has taken are those of the run that are its own.\<close>

fun own_step :: "context_step \<Rightarrow> task_context \<Rightarrow> task_context" where
  "own_step (SetAccount a) c = set_account_id a c"
| "own_step (BindEnter v x) c = bind_enter v x c"
| "own_step BindExit c = bind_exit c"
| "own_step (Spawn child) c = c"

fun own_run :: "context_step list \<Rightarrow> task_context \<Rightarrow> task_context" where
  "own_run [] c = c"
| "own_run (e # es) c = own_run es (own_step e c)"

lemma own_run_append: "own_run (es @ fs) c = own_run fs (own_run es c)"
  by (induction es arbitrary: c) simp_all

lemma own_run_spawns: "own_run (map Spawn ts) c = c"
  by (induction ts) simp_all

definition own :: "nat \<Rightarrow> (nat \<times> context_step) list \<Rightarrow> context_step list" where
  "own t es = map snd (filter (\<lambda>p. fst p = t) es)"

lemma own_simps [simp]:
  "own t [] = []" "own t ((u, e) # es) = (if u = t then e # own t es else own t es)" "own t (es @ fs) = own t es @ own t fs"
  by (simp_all add: own_def)

text \<open>A task that nobody makes anew sees its own steps and nothing else.\<close>

lemma only_own_steps: "\<not> spawns t es \<Longrightarrow> context_run es cs t = own_run (own t es) (cs t)"
proof (induction es arbitrary: cs)
  case (Cons ue es)
  obtain u e where ue: "ue = (u, e)" by fastforce
  have ns: "\<not> spawns t es" and e: "e \<noteq> Spawn t" using Cons.prems by (auto simp: spawns_def ue)
  have "advance_context u e cs t = (if u = t then own_step e (cs t) else cs t)" using e by (cases e) auto
  with Cons.IH [OF ns] show ?case by (simp add: ue)
qed simp

section \<open>The tasks of a request\<close>

text \<open>
  The middleware runs in a task of the server; \<open>call_next\<close> makes another one, in which the
  dependencies are resolved and the handler runs, and which may make further tasks (the delivery of a
  message). \<open>sv_state\<close> is the state the dependency that looks for the account finds.
\<close>

record 'z served_request =
  sv_env :: env
  sv_request :: http_request
  sv_route :: route
  sv_state :: "'z sys_scheme"
  sv_task :: nat
  sv_child :: nat
  sv_background :: "nat list"

text \<open>\<open>RequestContextMiddleware.dispatch\<close>.\<close>

definition middleware_steps :: "'z served_request \<Rightarrow> context_step list" where
  "middleware_steps x =
     [BindEnter RequestIdVar (request_id_of (hq_fresh_id (sv_request x)) (hq_supplied_id (sv_request x))),
      Spawn (sv_child x), BindExit]"

text \<open>\<open>get_current_session\<close> and \<open>get_actor\<close> set the account when they have found it, and not when they raise.\<close>

definition session_steps :: "env \<Rightarrow> string option \<Rightarrow> 'z sys_scheme \<Rightarrow> context_step list" where
  "session_steps w credentials s =
     (case fst (get_current_session w credentials s) of
        Inl e \<Rightarrow> []
      | Inr session \<Rightarrow> [SetAccount (se_account_id session)])"

definition actor_steps :: "env \<Rightarrow> string option \<Rightarrow> 'z sys_scheme \<Rightarrow> context_step list" where
  "actor_steps w credentials s =
     (case fst (get_actor w credentials s) of
        Inl e \<Rightarrow> []
      | Inr actor \<Rightarrow> [SetAccount (if at_is_break_glass actor then BREAK_GLASS_ACTOR else at_account_id actor)])"

definition dependency_steps :: "'z served_request \<Rightarrow> context_step list" where
  "dependency_steps x =
     (case rt_access (sv_route x) of
        SessionOf \<Rightarrow> session_steps (sv_env x) (hq_bearer (sv_request x)) (sv_state x)
      | ActorOf \<Rightarrow> actor_steps (sv_env x) (hq_bearer (sv_request x)) (sv_state x)
      | _ \<Rightarrow> [])"

definition application_steps :: "'z served_request \<Rightarrow> context_step list" where
  "application_steps x = dependency_steps x @ map Spawn (sv_background x)"

text \<open>
  Requests that are handled at the same time: each task has taken the first so many of its steps, the
  task of the application takes none before it is made, a new task is new, and everybody else does
  what they like.
\<close>

definition tasks_of :: "'z served_request list \<Rightarrow> nat list" where
  "tasks_of xs = concat (map (\<lambda>x. [sv_task x, sv_child x]) xs)"

definition interleaved :: "'z served_request list \<Rightarrow> (nat \<times> context_step) list \<Rightarrow> bool" where
  "interleaved xs es \<longleftrightarrow> distinct (tasks_of xs)
     \<and> list_all (\<lambda>x.
         own (sv_task x) es = take (length (own (sv_task x) es)) (middleware_steps x)
       \<and> own (sv_child x) es = take (length (own (sv_child x) es)) (application_steps x)
       \<and> (own (sv_child x) es \<noteq> [] \<longrightarrow>
            (sv_task x, Spawn (sv_child x)) \<in> set (takeWhile (\<lambda>p. fst p \<noteq> sv_child x) es))
       \<and> list_all (\<lambda>(v, e). e \<noteq> Spawn (sv_task x) \<and> (e = Spawn (sv_child x) \<longrightarrow> v = sv_task x)) es) xs"

text \<open>The account whose credential the request presents, as the dependencies of its route see it.\<close>

definition account_of_request :: "'z served_request \<Rightarrow> string option" where
  "account_of_request x =
     (let w = sv_env x; c = hq_bearer (sv_request x) in
      case rt_access (sv_route x) of
        SessionOf \<Rightarrow>
          (case fst (get_current_session w c (sv_state x)) of Inl e \<Rightarrow> None | Inr session \<Rightarrow> Some (se_account_id session))
      | ActorOf \<Rightarrow>
          (case fst (get_actor w c (sv_state x)) of Inl e \<Rightarrow> None | Inr actor \<Rightarrow> Some (at_account_id actor))
      | _ \<Rightarrow> None)"

lemma break_glass_actor:
  assumes "get_actor w c s = (Inr actor, t)" and "at_is_break_glass actor"
  shows "at_account_id actor = BREAK_GLASS_ACTOR"
  using assms
  by (auto simp: get_actor_def actor_for_def op_elims split: if_splits option.splits)

lemma dependency_binds:
  "dependency_steps x = (case account_of_request x of None \<Rightarrow> [] | Some a \<Rightarrow> [SetAccount a])"
proof -
  let ?g = "get_actor (sv_env x) (hq_bearer (sv_request x)) (sv_state x)"
  have "BREAK_GLASS_ACTOR = at_account_id actor" if "fst ?g = Inr actor" "at_is_break_glass actor" for actor
    using that break_glass_actor [of "sv_env x" "hq_bearer (sv_request x)" "sv_state x" actor "snd ?g"] by (cases ?g) auto
  then show ?thesis
    by (auto simp: dependency_steps_def account_of_request_def session_steps_def actor_steps_def Let_def
        split: access_need.split sum.split)
qed

lemma own_run_application:
  assumes "es = take n (application_steps x)"
  shows "own_run es c = (case account_of_request x of
      None \<Rightarrow> c | Some a \<Rightarrow> if es = [] then c else set_account_id a c)"
proof (cases "account_of_request x")
  case None
  then have "es = map Spawn (take n (sv_background x))"
    using assms by (simp add: application_steps_def dependency_binds take_map)
  then show ?thesis using None by (simp add: own_run_spawns)
next
  case (Some a)
  then have es: "es = take n (SetAccount a # map Spawn (sv_background x))"
    using assms by (simp add: application_steps_def dependency_binds)
  show ?thesis
  proof (cases n)
    case (Suc m)
    then have "es = SetAccount a # map Spawn (take m (sv_background x))" using es by (simp add: take_map)
    then show ?thesis using Some by (simp add: own_run_spawns)
  qed (use Some es in simp)
qed

lemma tasks_differ:
  assumes "distinct (tasks_of xs)" and "x \<in> set xs"
  shows "sv_task x \<noteq> sv_child x"
proof -
  obtain ys zs where "xs = ys @ x # zs" using split_list [OF assms(2)] by blast
  with assms(1) show ?thesis by (auto simp: tasks_of_def)
qed

lemma around_the_second:
  assumes "xs @ y # zs = take n [b, y, e]" and "b \<noteq> y" and "e \<noteq> y"
  shows "xs = [b] \<and> set zs \<subseteq> {e}"
proof -
  have "take n [b, y, e] \<in> {[], [b], [b, y], [b, y, e]}" by (auto simp: take_Cons split: nat.split)
  with assms show ?thesis by (auto simp: append_eq_Cons_conv)
qed

text \<open>Where the task of the application is made, and what everybody has done by then.\<close>

lemma made_once:
  assumes "interleaved xs es" and "x \<in> set xs" and "(sv_task x, Spawn (sv_child x)) \<in> set es"
  obtains pre post where "es = pre @ (sv_task x, Spawn (sv_child x)) # post" "\<not> spawns (sv_task x) pre"
    "\<not> spawns (sv_child x) post" "own (sv_child x) pre = []"
    "own (sv_task x) pre = [BindEnter RequestIdVar (request_id_of (hq_fresh_id (sv_request x)) (hq_supplied_id (sv_request x)))]"
proof -
  let ?u = "sv_task x" and ?t = "sv_child x"
  let ?b = "BindEnter RequestIdVar (request_id_of (hq_fresh_id (sv_request x)) (hq_supplied_id (sv_request x)))"
  have ut: "?u \<noteq> ?t" using assms(1,2) tasks_differ by (auto simp: interleaved_def)
  have all: "own ?u es = take (length (own ?u es)) [?b, Spawn ?t, BindExit]"
    "own ?t es \<noteq> [] \<Longrightarrow> (?u, Spawn ?t) \<in> set (takeWhile (\<lambda>p. fst p \<noteq> ?t) es)"
    "\<And>v. (v, Spawn ?u) \<notin> set es" "\<And>v. (v, Spawn ?t) \<in> set es \<Longrightarrow> v = ?u"
    using assms(1,2) by (auto simp: interleaved_def list_all_iff middleware_steps_def)
  obtain pre post where es: "es = pre @ (?u, Spawn ?t) # post" "(?u, Spawn ?t) \<notin> set pre"
    using split_list_first [OF assms(3)] by blast
  have "own ?u es = own ?u pre @ Spawn ?t # own ?u post" by (simp add: es(1))
  from trans [OF this [symmetric] all(1)]
  have shape: "own ?u pre @ Spawn ?t # own ?u post = take (length (own ?u es)) [?b, Spawn ?t, BindExit]" .
  have pre: "own ?u pre = [?b]" and post: "set (own ?u post) \<subseteq> {BindExit}"
    using around_the_second [OF shape] by simp_all
  have "\<not> spawns ?t post"
  proof
    assume "spawns ?t post"
    then obtain v where v: "(v, Spawn ?t) \<in> set post" by (auto simp: spawns_def)
    then have "v = ?u" using all(4) by (simp add: es(1))
    with v have "Spawn ?t \<in> set (own ?u post)" by (force simp: own_def)
    with post show False by auto
  qed
  moreover have "\<not> spawns ?u pre" using all(3) by (auto simp: spawns_def es(1))
  moreover have "own ?t pre = []"
  proof (rule ccontr)
    assume some: "own ?t pre \<noteq> []"
    then obtain p where p: "p \<in> set pre" "fst p = ?t" by (auto simp: own_def filter_empty_conv)
    have "takeWhile (\<lambda>p. fst p \<noteq> ?t) es = takeWhile (\<lambda>p. fst p \<noteq> ?t) pre"
      unfolding es(1) by (rule takeWhile_append1 [OF p(1)]) (simp add: p(2))
    moreover have "own ?t es \<noteq> []" using some by (simp add: es(1))
    ultimately have "(?u, Spawn ?t) \<in> set pre" using all(2) by (metis set_takeWhileD)
    with es(2) show False by blast
  qed
  ultimately show thesis using that es(1) pre by blast
qed

lemma request_identity:
  assumes "interleaved xs es" and "x \<in> set xs" and "tc_vars (cs (sv_task x)) = unbound"
    and "(sv_task x, Spawn (sv_child x)) \<in> set es"
  shows "get_request_id (context_run es cs (sv_child x)) = Some (request_id (sv_request x))"
    and "get_account_id (context_run es cs (sv_child x)) = (if own (sv_child x) es = [] then None else account_of_request x)"
proof -
  let ?u = "sv_task x" and ?t = "sv_child x"
  obtain pre post where es: "es = pre @ (?u, Spawn ?t) # post" and ns: "\<not> spawns ?u pre" "\<not> spawns ?t post"
    and own: "own ?t pre = []"
      "own ?u pre = [BindEnter RequestIdVar (request_id_of (hq_fresh_id (sv_request x)) (hq_supplied_id (sv_request x)))]"
    by (rule made_once [OF assms(1,2,4)])
  have ut: "?u \<noteq> ?t" using assms(1,2) tasks_differ by (auto simp: interleaved_def)
  let ?c = "\<lparr>tc_vars = tc_vars (context_run pre cs ?u), tc_tokens = []\<rparr>"
  have vars: "tc_vars (context_run pre cs ?u) = unbound\<lparr>cv_request_id := Some (request_id (sv_request x))\<rparr>"
    unfolding only_own_steps [OF ns(1)] own(2) by (simp add: bind_enter_def assms(3) request_id_def)
  have own': "own ?t post = own ?t es" by (simp add: es own(1) ut)
  have "context_run es cs ?t = own_run (own ?t es) ?c"
    by (simp add: es context_run_append only_own_steps [OF ns(2)]) (simp add: own(1) ut)
  moreover have "own ?t es = take (length (own ?t es)) (application_steps x)"
    using assms(1,2) by (auto simp: interleaved_def list_all_iff)
  ultimately have run: "context_run es cs ?t = (case account_of_request x of
      None \<Rightarrow> ?c | Some a \<Rightarrow> if own ?t es = [] then ?c else set_account_id a ?c)"
    using own_run_application by metis
  show "get_request_id (context_run es cs ?t) = Some (request_id (sv_request x))"
    "get_account_id (context_run es cs ?t) = (if own ?t es = [] then None else account_of_request x)"
    unfolding run
    by (auto simp: get_request_id_def get_account_id_def set_account_id_def vars unbound_def split: option.split)
qed

text \<open>The records of the middleware itself, inside its block.\<close>

lemma middleware_identity:
  assumes "interleaved xs es" and "x \<in> set xs" and "tc_vars (cs (sv_task x)) = unbound"
    and "length (own (sv_task x) es) \<in> {1, 2}"
  shows "get_request_id (context_run es cs (sv_task x)) = Some (request_id (sv_request x))"
    and "get_account_id (context_run es cs (sv_task x)) = None"
proof -
  let ?u = "sv_task x"
  have "own ?u es = take (length (own ?u es)) (middleware_steps x)" and "\<And>v. (v, Spawn ?u) \<notin> set es"
    using assms(1,2) by (auto simp: interleaved_def list_all_iff)
  then have "own ?u es = take (length (own ?u es)) (middleware_steps x)" "\<not> spawns ?u es"
    by (auto simp: spawns_def)
  then have "context_run es cs ?u
      = bind_enter RequestIdVar (request_id_of (hq_fresh_id (sv_request x)) (hq_supplied_id (sv_request x))) (cs ?u)"
    using assms(4) only_own_steps [of ?u es cs] by (auto simp: middleware_steps_def numeral_2_eq_2)
  then show "get_request_id (context_run es cs ?u) = Some (request_id (sv_request x))"
    and "get_account_id (context_run es cs ?u) = None"
    by (simp_all add: get_request_id_def get_account_id_def bind_enter_def assms(3) unbound_def request_id_def)
qed

section \<open>Blocks\<close>

text \<open>What a task does, with its blocks as a tree; leaving a block happens however it ends.\<close>

datatype program = Bind context_variable string "program list" | Account string

fun steps_of :: "program \<Rightarrow> context_step list" where
  "steps_of (Bind v x ps) = BindEnter v x # concat (map steps_of ps) @ [BindExit]"
| "steps_of (Account a) = [SetAccount a]"

lemma var_set_get [simp]: "var_get v (var_set v x c) = x" "var_set v (var_get v c) c = c"
  by (cases v; simp)+

lemma var_get_other: "v \<noteq> w \<Longrightarrow> var_get v (var_set w x c) = var_get v c"
  by (cases v; cases w; simp)

lemma blocks_restore_tokens: "tc_tokens (own_run (steps_of p) c) = tc_tokens c"
proof (induction p arbitrary: c)
  case (Bind v x ps)
  have inner: "tc_tokens (own_run (concat (map steps_of qs)) d) = tc_tokens d" if "set qs \<subseteq> set ps" for qs d
    using that by (induction qs arbitrary: d) (simp_all add: own_run_append Bind.IH)
  from inner [OF subset_refl, of "bind_enter v x c"] show ?case
    by (simp add: own_run_append bind_exit_def split: list.split) (simp add: bind_enter_def)
next
  case (Account a)
  show ?case by (simp add: set_account_id_def)
qed

lemma block_restores: "var_get v (tc_vars (own_run (steps_of (Bind v x ps)) c)) = var_get v (tc_vars c)"
proof -
  have "tc_tokens (own_run (concat (map steps_of qs)) d) = tc_tokens d" for qs d
    by (induction qs arbitrary: d) (simp_all add: own_run_append blocks_restore_tokens)
  from this [of ps "bind_enter v x c"] show ?thesis
    by (simp add: own_run_append bind_exit_def split: list.split) (simp add: bind_enter_def)
qed

text \<open>The id of a request is not changed by what happens inside it.\<close>

lemma request_id_inside:
  "var_get RequestIdVar (tc_vars (own_run (concat (map steps_of ps)) c)) = var_get RequestIdVar (tc_vars c)"
proof -
  have other: "cv_request_id (tc_vars (own_run (steps_of p) d)) = cv_request_id (tc_vars d)" for p d
  proof (induction p arbitrary: d)
    case (Bind v x qs)
    have inner: "cv_request_id (tc_vars (own_run (concat (map steps_of rs)) e)) = cv_request_id (tc_vars e)"
      if "set rs \<subseteq> set qs" for rs e
      using that by (induction rs arbitrary: e) (simp_all add: own_run_append Bind.IH)
    show ?case
    proof (cases v)
      case RequestIdVar
      then show ?thesis using block_restores [of RequestIdVar x qs d] by simp
    next
      case AccountIdVar
      have "tc_tokens (own_run (concat (map steps_of rs)) e) = tc_tokens e" for rs e
        by (induction rs arbitrary: e) (simp_all add: own_run_append blocks_restore_tokens)
      from this [of qs "bind_enter v x d"] inner [OF subset_refl, of "bind_enter v x d"] AccountIdVar show ?thesis
        by (simp add: own_run_append bind_exit_def split: list.split) (simp add: bind_enter_def)
    qed
  next
    case (Account a)
    show ?case by (simp add: set_account_id_def)
  qed
  show ?thesis by (induction ps arbitrary: c) (simp_all add: own_run_append other)
qed

section \<open>The middleware\<close>

definition REQUEST_ID_HEADER :: string where "REQUEST_ID_HEADER = ''X-Request-ID''"
definition RESPONSE_TIME_HEADER :: string where "RESPONSE_TIME_HEADER = ''X-Response-Time-Ms''"

text \<open>Names of headers are compared without case: the map has lowercase keys.\<close>

record api_response =
  ar_status :: nat
  ar_headers :: "string \<rightharpoonup> string"
  ar_problem :: "problem option"

definition problem_api_response :: "problem \<Rightarrow> api_response" where
  "problem_api_response p =
     \<lparr>ar_status = pb_status p, ar_headers = map_of (map (\<lambda>(k, v). (lower k, v)) (pb_headers p)), ar_problem = Some p\<rparr>"

datatype request_log = RequestFailed "string option" rat | RequestCompleted "string option" nat rat

definition elapsed_ms :: "rat \<Rightarrow> rat \<Rightarrow> rat" where
  "elapsed_ms started now = (now - started) * 1000"

text \<open>
  The application is a function of the id bound around it; \<open>Inl\<close> is an exception no handler took.
  The three clock readings are the start, the failure and the end; \<open>one_decimal\<close> is \<open>f"{x:.1f}"\<close>.
\<close>

definition dispatch ::
  "(rat \<Rightarrow> string) \<Rightarrow> string \<Rightarrow> string option \<Rightarrow> rat \<Rightarrow> rat \<Rightarrow> rat \<Rightarrow> (string \<Rightarrow> 'x + api_response)
    \<Rightarrow> request_log list \<times> api_response" where
  "dispatch one_decimal fresh supplied started failed ended app =
     (let request_id = request_id_of fresh supplied;
          (failures, response) =
            (case app request_id of
               Inr r \<Rightarrow> ([], r)
             | Inl e \<Rightarrow> ([RequestFailed (Some request_id) (elapsed_ms started failed)],
                         problem_api_response (unhandled_problem (Some request_id))));
          duration_ms = elapsed_ms started ended
      in (failures @ [RequestCompleted (Some request_id) (ar_status response) duration_ms],
          response\<lparr>ar_headers := (ar_headers response)(lower REQUEST_ID_HEADER \<mapsto> request_id,
            lower RESPONSE_TIME_HEADER \<mapsto> one_decimal duration_ms)\<rparr>))"

text \<open>Whatever the application does there is one response, and it names the id the records have.\<close>

lemma dispatch_answers:
  "\<exists>failures code duration. dispatch d fresh supplied t0 t1 t2 app =
      (failures @ [RequestCompleted (Some (request_id_of fresh supplied)) code duration],
       snd (dispatch d fresh supplied t0 t1 t2 app))
    \<and> ar_status (snd (dispatch d fresh supplied t0 t1 t2 app)) = code
    \<and> ar_headers (snd (dispatch d fresh supplied t0 t1 t2 app)) (lower REQUEST_ID_HEADER) = Some (request_id_of fresh supplied)"
proof -
  have "lower REQUEST_ID_HEADER \<noteq> lower RESPONSE_TIME_HEADER" by code_simp
  then show ?thesis by (cases "app (request_id_of fresh supplied)") (simp_all add: dispatch_def Let_def)
qed

lemma crash_is_withheld:
  assumes "app (request_id_of fresh supplied) = Inl e"
  shows "ar_problem (snd (dispatch d fresh supplied t0 t1 t2 app)) = Some (unhandled_problem (Some (request_id_of fresh supplied)))"
    and "ar_status (snd (dispatch d fresh supplied t0 t1 t2 app)) = 500"
  using assms by (simp_all add: dispatch_def Let_def problem_api_response_def unhandled_problem_def problem_response_def)

lemma supplied_id_capped: "request_id_of fresh (Some (c # cs)) = take 64 (c # cs)"
  by (simp add: request_id_of_def MAX_SUPPLIED_REQUEST_ID_def)

end
