(* ===== verification/DisclosureProperties.thy ===== *)
theory DisclosureProperties
  imports ReadViews Redaction Mail Loading RequestContext VaultSample
begin

text \<open>
  The theorems about what leaves the service: the answers of every route that reads, and the
  records it logs.
\<close>

text \<open>The answer of every route that reads profiles, connections, grants, the account or the health of the
  service, in one state; SurfaceProperties has the statement for all traffic.\<close>

lemma reads_reveal_no_secret:
  "fst (handle_view w v g q (s\<lparr>t_secrets := x\<rparr>)) = fst (handle_view w v g q s)"
  by (simp add: blindD [OF blind_view])












end
