(* ===== verification/Oblivious.thy ===== *)
theory Oblivious
  imports Gateway
begin

text \<open>
  What the answers of the service can depend on. A state is veiled by taking everything out of the
  vault; an operation is oblivious when on a well-formed state it answers as on the veiled one and
  leaves the same beside the vault. Every handler but the two that resolve credentials is.
\<close>

section \<open>Oblivious operations\<close>

definition veiled :: "'z db_scheme \<Rightarrow> 'z db_scheme" where
  "veiled s = s\<lparr>t_secrets := []\<rparr>"

definition oblivious :: "('e, 'z db_scheme, 'a) op \<Rightarrow> bool" where
  "oblivious m \<longleftrightarrow> keeps db_ok m
     \<and> (\<forall>s. db_ok s \<longrightarrow> fst (m (veiled s)) = fst (m s) \<and> veiled (snd (m (veiled s))) = veiled (snd (m s)))"

named_theorems oblivious_intros "rules that prove an operation oblivious"

lemma veiled_twice [simp]: "veiled (veiled s) = veiled s"
  by (simp add: veiled_def)

lemma db_ok_veiled: "db_ok s \<Longrightarrow> db_ok (veiled s)"
  by (simp add: veiled_def db_defs)

lemma obliviousI:
  assumes "keeps db_ok m" and "\<And>s. db_ok s \<Longrightarrow> fst (m (veiled s)) = fst (m s)"
    and "\<And>s. db_ok s \<Longrightarrow> veiled (snd (m (veiled s))) = veiled (snd (m s))"
  shows "oblivious m"
  using assms by (simp add: oblivious_def)

lemma oblivious_same:
  assumes "oblivious m" and "db_ok s" and "db_ok t" and "veiled s = veiled t"
  shows "fst (m s) = fst (m t)" "veiled (snd (m s)) = veiled (snd (m t))" "db_ok (snd (m s))"
  using assms by (auto simp: oblivious_def keeps_def) metis+

lemma blind_oblivious:
  assumes "blind m" and "keeps db_ok m"
  shows "oblivious m"
  using blindD [OF assms(1), where x = "[]"] assms(2) by (intro obliviousI) (simp_all add: veiled_def)

lemma oblivious_quiet [oblivious_intros]:
  "oblivious (ret x)" "oblivious (raise e)" "oblivious (guard b e)" "oblivious (of_result r)"
  by (rule blind_oblivious; intro blind_intros keeps_intros)+

lemma oblivious_reading: "(\<And>s. f (veiled s) = f s) \<Longrightarrow> oblivious (reading f)"
  by (rule obliviousI) (auto intro: keeps_intros simp: reading_simp)

lemma oblivious_transact:
  assumes "keeps db_ok (transact f)" and "\<And>s. f (veiled s) = map_sum id (apsnd veiled) (f s)"
  shows "oblivious (transact f)"
  by (rule obliviousI) (use assms(1) in simp, (simp add: transact_simp assms(2) split: sum.split)+)

lemma oblivious_andthen [oblivious_intros]:
  fixes m :: "('e, 'z db_scheme, 'a) op"
  assumes "oblivious m" and "\<And>x. oblivious (f x)"
  shows "oblivious (andthen m f)"
proof (rule obliviousI)
  show "keeps db_ok (andthen m f)" using assms by (intro keeps_andthen) (simp_all add: oblivious_def)
  fix s :: "'z db_scheme" assume s: "db_ok s"
  obtain r t where m: "m s = (r, t)" by fastforce
  obtain r' t' where m': "m (veiled s) = (r', t')" by fastforce
  have same: "r' = r" "veiled t' = veiled t" "db_ok t" "db_ok t'"
    using oblivious_same [OF assms(1) db_ok_veiled [OF s] s] oblivious_same(3) [OF assms(1) s s] by (simp_all add: m m')
  show "fst (andthen m f (veiled s)) = fst (andthen m f s)"
    using oblivious_same(1) [OF assms(2) same(4,3,2)] by (simp add: andthen_simp m m' same(1) split: sum.split)
  show "veiled (snd (andthen m f (veiled s))) = veiled (snd (andthen m f s))"
    using oblivious_same(2) [OF assms(2) same(4,3,2)] same(2) by (simp add: andthen_simp m m' same(1) split: sum.split)
qed

lemma oblivious_handling [oblivious_intros]:
  fixes m :: "('e, 'z db_scheme, 'a) op"
  assumes "oblivious m" and "\<And>e. oblivious (h e)"
  shows "oblivious (handling p h m)"
proof (rule obliviousI)
  show "keeps db_ok (handling p h m)" using assms by (intro keeps_handling) (simp_all add: oblivious_def)
  fix s :: "'z db_scheme" assume s: "db_ok s"
  obtain r t where m: "m s = (r, t)" by fastforce
  obtain r' t' where m': "m (veiled s) = (r', t')" by fastforce
  have same: "r' = r" "veiled t' = veiled t" "db_ok t" "db_ok t'"
    using oblivious_same [OF assms(1) db_ok_veiled [OF s] s] oblivious_same(3) [OF assms(1) s s] by (simp_all add: m m')
  show "fst (handling p h m (veiled s)) = fst (handling p h m s)"
    using oblivious_same(1) [OF assms(2) same(4,3,2)] by (simp add: handling_simp m m' same(1) split: sum.split)
  show "veiled (snd (handling p h m (veiled s))) = veiled (snd (handling p h m s))"
    using oblivious_same(2) [OF assms(2) same(4,3,2)] same(2) by (simp add: handling_simp m m' same(1) split: sum.split)
qed

lemma oblivious_cases [oblivious_intros]:
  "oblivious m \<Longrightarrow> (\<And>x. oblivious (f x)) \<Longrightarrow> oblivious (case v of None \<Rightarrow> m | Some x \<Rightarrow> f x)"
  "oblivious m \<Longrightarrow> oblivious n \<Longrightarrow> oblivious (if b then m else n)"
  "(\<And>x y. oblivious (g x y)) \<Longrightarrow> oblivious (case p of (x, y) \<Rightarrow> g x y)"
  "(\<And>e. oblivious (h e)) \<Longrightarrow> (\<And>x. oblivious (f x)) \<Longrightarrow> oblivious (case r of Inl e \<Rightarrow> h e | Inr x \<Rightarrow> f x)"
  by (simp_all split: option.split prod.split sum.split)

lemma oblivious_for_each [oblivious_intros]: "(\<And>x. oblivious (f x)) \<Longrightarrow> oblivious (for_each xs f)"
  by (induction xs) (auto intro: oblivious_intros)

section \<open>What the handlers read\<close>

lemma veiled_tables [simp]:
  "t_accounts (veiled s) = t_accounts s" "t_account_roles (veiled s) = t_account_roles s" "t_roles (veiled s) = t_roles s"
  "t_sessions (veiled s) = t_sessions s" "t_grants (veiled s) = t_grants s" "t_profiles (veiled s) = t_profiles s"
  "t_connections (veiled s) = t_connections s" "t_offline_grants (veiled s) = t_offline_grants s"
  "t_audit (veiled s) = t_audit s" "t_audit_sequence (veiled s) = t_audit_sequence s" "t_secrets (veiled s) = []"
  by (simp_all add: veiled_def)

lemma veiled_reads:
  "account_get i (veiled s) = account_get i s" "account_get_by_email e (veiled s) = account_get_by_email e s"
  "account_list_all (veiled s) = account_list_all s" "account_count (veiled s) = account_count s"
  "session_get_by_token_hash now h (veiled s) = session_get_by_token_hash now h s"
  "role_get n (veiled s) = role_get n s" "role_require n (veiled s) = role_require n s"
  "role_list_all (veiled s) = role_list_all s" "role_resolve rs (veiled s) = role_resolve rs s"
  "profile_get a n (veiled s) = profile_get a n s" "profile_list_for_account a (veiled s) = profile_list_for_account a s"
  "all_profiles (veiled s) = all_profiles s" "count_holding r (veiled s) = count_holding r s"
  "delegation_for_exchange g sv (veiled s) = delegation_for_exchange g sv s"
  "delegation_list_for_profile a n (veiled s) = delegation_list_for_profile a n s"
  "audit_recent k x (veiled s) = audit_recent k x s" "roles_of i (veiled s) = roles_of i s"
  by (simp_all add: account_get_def account_get_by_email_def read_one_fetch roles_of_def account_list_all_def read_many_def
      account_count_def session_get_by_token_hash_def role_get_def role_require_def role_list_all_def role_resolve_def
      profile_get_fetch connections_of_def profile_list_for_account_def profile_read_many_def all_profiles_def
      count_holding_def delegation_for_exchange_def delegation_list_for_profile_def audit_recent_def)

lemma oblivious_reads [oblivious_intros]:
  "oblivious (reading (account_get i))" "oblivious (reading (account_get_by_email e))" "oblivious (reading account_list_all)"
  "oblivious (reading account_count)" "oblivious (reading (session_get_by_token_hash now h))" "oblivious (reading (role_get n))"
  "oblivious (reading (role_require n))" "oblivious (reading role_list_all)" "oblivious (reading (role_resolve rs))"
  "oblivious (reading (profile_get a n))" "oblivious (reading (profile_list_for_account a))" "oblivious (reading all_profiles)"
  "oblivious (reading (count_holding r))" "oblivious (reading (delegation_for_exchange g sv))"
  "oblivious (reading (delegation_list_for_profile a n))" "oblivious (reading (audit_recent k x))"
  by (rule oblivious_reading, simp add: veiled_reads)+

section \<open>What the handlers write\<close>

lemma veiled_updates:
  "(veiled s)\<lparr>t_accounts := a\<rparr> = veiled (s\<lparr>t_accounts := a\<rparr>)"
  "(veiled s)\<lparr>t_account_roles := b\<rparr> = veiled (s\<lparr>t_account_roles := b\<rparr>)"
  "(veiled s)\<lparr>t_roles := c\<rparr> = veiled (s\<lparr>t_roles := c\<rparr>)"
  "(veiled s)\<lparr>t_sessions := d\<rparr> = veiled (s\<lparr>t_sessions := d\<rparr>)"
  "(veiled s)\<lparr>t_grants := e\<rparr> = veiled (s\<lparr>t_grants := e\<rparr>)"
  "(veiled s)\<lparr>t_profiles := f\<rparr> = veiled (s\<lparr>t_profiles := f\<rparr>)"
  "(veiled s)\<lparr>t_connections := g\<rparr> = veiled (s\<lparr>t_connections := g\<rparr>)"
  "(veiled s)\<lparr>t_offline_grants := h\<rparr> = veiled (s\<lparr>t_offline_grants := h\<rparr>)"
  "(veiled s)\<lparr>t_audit := i, t_audit_sequence := k\<rparr> = veiled (s\<lparr>t_audit := i, t_audit_sequence := k\<rparr>)"
  "veiled (s\<lparr>t_secrets := j\<rparr>) = veiled s"
  by (simp_all add: veiled_def)

lemma veiled_inserts:
  "insert_account r1 (veiled s) = map_sum id veiled (insert_account r1 s)"
  "insert_role r2 (veiled s) = map_sum id veiled (insert_role r2 s)"
  "insert_account_role r3 (veiled s) = map_sum id veiled (insert_account_role r3 s)"
  "insert_session r4 (veiled s) = map_sum id veiled (insert_session r4 s)"
  "insert_grant r5 (veiled s) = map_sum id veiled (insert_grant r5 s)"
  "insert_profile r6 (veiled s) = map_sum id veiled (insert_profile r6 s)"
  "insert_connection r7 (veiled s) = map_sum id veiled (insert_connection r7 s)"
  "insert_offline_grant r8 (veiled s) = map_sum id veiled (insert_offline_grant r8 s)"
  "delete_role_row n (veiled s) = map_sum id veiled (delete_role_row n s)"
  by (simp_all add: insert_account_def insert_role_def insert_account_role_def insert_session_def insert_grant_def
      insert_profile_def insert_connection_def insert_offline_grant_def delete_role_row_def veiled_updates split: option.split)

lemma veiled_deletes:
  "delete_profiles p (veiled s) = veiled (delete_profiles p s)"
  "delete_account_row i (veiled s) = veiled (delete_account_row i s)"
  "touch_profile a n now (veiled s) = veiled (touch_profile a n now s)"
proof -
  show "delete_profiles p (veiled s) = veiled (delete_profiles p s)" for p
    by (simp add: delete_profiles_def Let_def veiled_def)
  then show "delete_account_row i (veiled s) = veiled (delete_account_row i s)"
    by (simp add: delete_account_row_def) (simp add: veiled_def delete_where_def)
  show "touch_profile a n now (veiled s) = veiled (touch_profile a n now s)"
    by (simp add: touch_profile_def veiled_updates)
qed

lemma veiled_loops:
  "insert_roles i k rs (veiled s) = map_sum id veiled (insert_roles i k rs s)"
  "upsert_connection a n c (veiled s) = map_sum id veiled (upsert_connection a n c s)"
  "upsert_all a n cs (veiled s) = map_sum id veiled (upsert_all a n cs s)"
  "write_roles i rs (veiled s) = map_sum id veiled (write_roles i rs s)"
proof -
  show roles: "insert_roles i k rs (veiled s) = map_sum id veiled (insert_roles i k rs s)" for k rs s
    by (induction rs arbitrary: k s) (auto simp: veiled_inserts split: sum.split)
  show c: "upsert_connection a n c (veiled s) = map_sum id veiled (upsert_connection a n c s)" for c s
    by (simp add: upsert_connection_def veiled_inserts veiled_updates)
  show "upsert_all a n cs (veiled s) = map_sum id veiled (upsert_all a n cs s)"
    by (induction cs arbitrary: s) (auto simp: c split: sum.split)
  show "write_roles i rs (veiled s) = map_sum id veiled (write_roles i rs s)"
    by (auto simp: write_roles_def veiled_updates roles split: sum.split)
qed

lemma veiled_checks:
  "check_owner_survives i b rs (veiled s) = check_owner_survives i b rs s"
  "check_connection_cap a n sv k (veiled s) = check_connection_cap a n sv k s"
  "conn_get a n sv (veiled s) = conn_get a n sv s" "session_overflow i k (veiled s) = session_overflow i k s"
  by (simp_all add: check_owner_survives_def check_connection_cap_def conn_get_def session_overflow_def)

lemmas veiled_facts = veiled_reads veiled_updates veiled_inserts veiled_deletes veiled_loops veiled_checks

lemma oblivious_account_txns [oblivious_intros]:
  "oblivious (transact (account_add a))" "oblivious (transact (account_save a))" "oblivious (transact (account_delete i))"
  "oblivious (transact (account_set_roles i rs now))"
  by (rule oblivious_transact, rule keeps_db_txns,
      auto simp: account_add_def account_save_def account_delete_def account_set_roles_def veiled_facts split: sum.split option.split)+

lemma oblivious_session_txns [oblivious_intros]:
  "oblivious (transact (session_add_within_cap x cap))" "oblivious (transact (session_save x))"
  "oblivious (transact (session_revoke i))" "oblivious (transact (session_revoke_all i e))"
  "oblivious (transact (grant_add g))" "oblivious (transact (grant_redeem h now))"
  "oblivious (transact (grant_revoke_all_for_account i p))"
  by (rule oblivious_transact, rule keeps_db_txns,
      auto simp: session_add_within_cap_def session_save_def session_revoke_def session_revoke_all_def grant_add_def
        grant_redeem_def grant_revoke_all_for_account_def veiled_facts Let_def split: sum.split option.split)+

lemma oblivious_role_txns [oblivious_intros]:
  "oblivious (transact (role_add r))" "oblivious (transact (role_save r))" "oblivious (transact (role_delete n k))"
  "oblivious (transact (audit_record k entry))"
  by (rule oblivious_transact, rule keeps_db_txns,
      auto simp: role_add_def role_save_def role_delete_def audit_record_def veiled_facts Let_def split: sum.split option.split)+

lemma oblivious_profile_txns [oblivious_intros]:
  "oblivious (transact (profile_add p cap))" "oblivious (transact (profile_delete a n))"
  "oblivious (transact (put_connection a n c k now))" "oblivious (transact (remove_connection a n v now))"
  by (rule oblivious_transact, rule keeps_db_vault_txns,
      auto simp: profile_add_def profile_delete_def put_connection_def remove_connection_def veiled_facts Let_def
        split: sum.split option.split)+

lemma oblivious_delegation_txns [oblivious_intros]:
  "oblivious (transact (delegation_add g cap now))" "oblivious (transact (delegation_revoke a n i now))"
  by (rule oblivious_transact, rule keeps_transact, rule delegation_add_Inr(1) delegation_revoke_Inr(1), assumption, assumption,
      auto simp: delegation_add_def delegation_revoke_def veiled_facts Let_def split: sum.split option.split)+

text \<open>Storing a secret is seen by nobody; deleting one answers what was there, which no method looks at.\<close>

lemma oblivious_secret_put [oblivious_intros]: "oblivious (transact (secret_put v now a n sv x))"
proof (rule obliviousI)
  show "keeps db_ok (transact (secret_put v now a n sv x))" by (rule keeps_db_vault_txns)
  fix s :: "'a db_scheme" assume s: "db_ok s"
  have known: "list_ex (\<lambda>r. ac_id r = a) (t_accounts s)"
    if "list_ex (\<lambda>r. secret_key r = (a, n, sv)) (t_secrets s)"
    using s that by (fastforce simp: db_ok_def refs_ok_def secret_key_def list_ex_iff account_ids_def)
  have key: "secret_key \<lparr>sr_account_id = a, sr_profile_name = n, sr_service = sv, sr_envelope = e, sr_created_at = b,
      sr_updated_at = c\<rparr> = (a, n, sv)" for e b c
    by (simp add: secret_key_def)
  show "fst (transact (secret_put v now a n sv x) (veiled s)) = fst (transact (secret_put v now a n sv x) s)"
    using known by (auto simp: key transact_simp secret_put_def upsert_secret_def insert_secret_def split: sum.split)
  show "veiled (snd (transact (secret_put v now a n sv x) (veiled s))) = veiled (snd (transact (secret_put v now a n sv x) s))"
    using known by (auto simp: key transact_simp secret_put_def upsert_secret_def insert_secret_def veiled_updates split: sum.split)
qed

definition unanswered :: "('e, 's, 'a) op \<Rightarrow> ('e, 's, unit) op" where
  "unanswered m = andthen m (\<lambda>_. ret ())"

lemma deletes_dropped:
  "andthen (transact (secret_delete a n sv)) (\<lambda>_. m) = andthen (unanswered (transact (secret_delete a n sv))) (\<lambda>_. m)"
  "andthen (transact (secret_delete_profile a n)) (\<lambda>_. m) = andthen (unanswered (transact (secret_delete_profile a n))) (\<lambda>_. m)"
  by (simp_all add: unanswered_def andthen_assoc andthen_ret_left)

lemma oblivious_secret_deletes [oblivious_intros]:
  "oblivious (unanswered (transact (secret_delete a n sv)))" "oblivious (unanswered (transact (secret_delete_profile a n)))"
  unfolding unanswered_def
  by (rule obliviousI, intro keeps_intros,
      simp_all add: andthen_simp transact_simp ret_simp secret_delete_def secret_delete_profile_def Let_def veiled_updates)+

section \<open>Beside the database\<close>

lemma veiled_rest:
  "m_attempts (veiled s) = m_attempts s" "m_outbox (veiled s) = m_outbox s" "m_verifications (veiled s) = m_verifications s"
  "(veiled s)\<lparr>m_attempts := a\<rparr> = veiled (s\<lparr>m_attempts := a\<rparr>)" "(veiled s)\<lparr>m_outbox := b\<rparr> = veiled (s\<lparr>m_outbox := b\<rparr>)"
  "(veiled s)\<lparr>m_verifications := c\<rparr> = veiled (s\<lparr>m_verifications := c\<rparr>)"
  by (simp_all add: veiled_def)

lemma oblivious_process [oblivious_intros]:
  "oblivious (verify_password w h p)" "oblivious (check_limit w scope c l win)" "oblivious (reset_limit scope c)"
  "oblivious (enqueue w m)"
  by (rule obliviousI, (rule keeps_verify_password keeps_check_limit keeps_reset_limit keeps_enqueue, simp),
      simp_all add: verify_password_def check_limit_def reset_limit_def enqueue_def veiled_rest split: prod.split)+

lemma oblivious_dummy [oblivious_intros]: "oblivious (verify_dummy w p)"
  unfolding verify_dummy_def by (intro oblivious_intros)

lemma veiled_flows:
  "m_flows (veiled s) = m_flows s" "(veiled s)\<lparr>m_flows := x\<rparr> = veiled (s\<lparr>m_flows := x\<rparr>)"
  by (simp_all add: veiled_def)

lemma oblivious_states [oblivious_intros]:
  "oblivious (issue_state w b t)" "oblivious (redeem_state w st)" "oblivious (purge_states w)"
  by (rule obliviousI, rule keeps_states, simp,
      simp_all add: issue_state_def redeem_state_def purge_states_def veiled_flows split: prod.split)+

section \<open>The methods of the services\<close>

lemma oblivious_account_shared [oblivious_intros]:
  "oblivious (may_mail w ad)" "oblivious (mint_grant w p t em i)" "oblivious (redeem_token w tok p)"
  "oblivious (find_for_login e)" "oblivious (accept_login w a pw)" "oblivious (open_session w a)"
  "oblivious (set_password w a pw k)"
  unfolding account_service_defs Let_def by (intro oblivious_intros)+

lemma oblivious_account_service [oblivious_intros]:
  "oblivious (issue_invite w e)" "oblivious (redeem_invite w tok pw c)" "oblivious (login w e pw c)"
  "oblivious (resolve_session w tok)" "oblivious (logout i)" "oblivious (logout_everywhere i)"
  "oblivious (set_status w i st)" "oblivious (change_password w i pw new k)"
  "oblivious (confirm_password w i pw)" "oblivious (request_password_reset w e c)"
  "oblivious (issue_reset_for w a)" "oblivious (redeem_password_reset w tok pw c)"
  "oblivious (delete_account i)"
  unfolding account_service_defs Let_def by (intro oblivious_intros)+

text \<open>Administration.\<close>

lemma veiled_granted: "granted_permissions rs g (veiled s) = granted_permissions rs g s"
  by (induction rs arbitrary: g) (simp_all add: veiled_reads split: option.split)

lemma oblivious_granted [oblivious_intros]: "oblivious (reading (granted_permissions rs g))"
  by (rule oblivious_reading, rule veiled_granted)

lemma oblivious_admin_shared [oblivious_intros]:
  "oblivious (require x p)" "oblivious (require_account i)" "oblivious (check_can_act_on x a)"
  "oblivious (check_grantable x ps)" "oblivious (check_description d)" "oblivious (record_action w x k j d)"
  unfolding admin_guard_defs Let_def by (intro oblivious_intros)+

lemma oblivious_admin [oblivious_intros]:
  "oblivious (admin_list_accounts x)" "oblivious (admin_get_account x i)" "oblivious (admin_read_audit x k)"
  "oblivious (admin_list_roles x)" "oblivious (admin_invite w x e)" "oblivious (admin_set_status w x i st)"
  "oblivious (admin_revoke_sessions w x i)" "oblivious (admin_issue_password_reset w x i)"
  "oblivious (admin_delete_account w x i)" "oblivious (create_role w x n ps d)" "oblivious (update_role w x n ps d)"
  "oblivious (delete_role w x n)" "oblivious (set_account_roles w x i rs)"
  unfolding admin_defs Let_def by (intro oblivious_intros)+

text \<open>Credentials, but for the two resolutions.\<close>

lemma oblivious_vault_shared [oblivious_intros]:
  "oblivious (get_profile a n)" "oblivious (require_unsealed v)" "oblivious (provider_for ps sv)"
  "oblivious (service_put_connection w p c now)" "oblivious (record_failure w p c r)"
  "oblivious (store_oauth_secret w v p sv x pv)"
  unfolding vault_internal_defs Let_def by (intro oblivious_intros)+

lemma oblivious_credentials [oblivious_intros]:
  "oblivious (create_profile w a n)" "oblivious (list_profiles a)"
  "oblivious (put_direct_credential w v a n sv k x b)" "oblivious (begin_authorization w ps a n sv u)"
  "oblivious (redeem_authorization w st)"
  unfolding credential_defs Let_def by (intro oblivious_intros)+

lemma oblivious_removals [oblivious_intros]:
  "oblivious (revoke_connection w a n sv)" "oblivious (delete_profile a n)"
  unfolding revoke_connection_def delete_profile_def Let_def deletes_dropped
  by (intro oblivious_intros)+

lemma oblivious_finish [oblivious_intros]:
  "(\<And>pv c u. oblivious (te_exchange_code te pv c u)) \<Longrightarrow> oblivious (finish_authorization w v ps te b code)"
  unfolding finish_authorization_def by (intro oblivious_intros) simp

lemma oblivious_admission [oblivious_intros]: "oblivious (admit w a r)" "oblivious (announce w a pf c o')"
  unfolding admit_def announce_def by (intro oblivious_intros)+

lemma oblivious_changes [oblivious_intros]:
  "oblivious (store_direct w v a n sv k x b r)" "oblivious (change_begin_authorization w ps a n sv u r)"
  "oblivious (change_remove_connection w a n sv r)" "oblivious (remove_profile w a n r)"
  unfolding change_defs Let_def by (intro oblivious_intros)+

lemma oblivious_completion [oblivious_intros]:
  "(\<And>pv c u. oblivious (te_exchange_code te pv c u)) \<Longrightarrow> oblivious (change_complete_authorization w v ps te st code)"
  unfolding change_complete_authorization_def by (intro oblivious_intros)

text \<open>Delegation.\<close>

lemma oblivious_delegation [oblivious_intros]:
  "oblivious (delegation_profile a n)" "oblivious (delegation_create w a n sv aus ttl who)"
  "oblivious (delegation_list a n)" "oblivious (delegation_revoke_grant w a n i)"
  "oblivious (revoke_for_service w a n i sv)" "oblivious (authority w g sv au t j)" "oblivious (exchange w g sv au ttl t j)"
  unfolding delegation_defs delegation_record_def Let_def by (intro oblivious_intros)+

section \<open>The handlers\<close>

lemma oblivious_signed_in [oblivious_intros]:
  "oblivious (get_current_session w c)" "oblivious (get_current_account x)" "oblivious (current_account w c)"
  "oblivious (get_actor w c)"
  unfolding current_account_def get_current_session_def get_current_account_def get_actor_def actor_for_def Let_def
  by (intro oblivious_intros)+

lemma oblivious_account_routes [oblivious_intros]:
  "oblivious (login_route w e pw h)" "oblivious (logout_route w c)" "oblivious (logout_everywhere_route w c)"
  "oblivious (me_route w c)" "oblivious (redeem_invite_route w k pw h)" "oblivious (change_password_route w c pw pw')"
  "oblivious (request_reset_route w e h)" "oblivious (redeem_reset_route w k pw h)" "oblivious (issue_service_token w g c a)"
  unfolding login_route_def logout_route_def logout_everywhere_route_def me_route_def redeem_invite_route_def
    change_password_route_def request_reset_route_def redeem_reset_route_def issue_service_token_def Let_def
  by (intro oblivious_intros)+

lemma oblivious_administration [oblivious_intros]:
  "oblivious (admin_list_profiles x i)" "oblivious (admin_delete_profile w x i n)"
  unfolding admin_list_profiles_def admin_delete_profile_def Let_def by (intro oblivious_intros)+

lemma oblivious_admin_routes [oblivious_intros]:
  "oblivious (list_permissions_route x)" "oblivious (list_roles_route x)" "oblivious (create_role_route w x n ps d)"
  "oblivious (update_role_route w x n ps d)" "oblivious (list_accounts_route w x)" "oblivious (get_account_route w x i)"
  "oblivious (set_account_roles_route w x i rs)" "oblivious (set_account_status_route w x i st)"
  "oblivious (issue_account_password_reset_route w x i)" "oblivious (issue_invite_route w x e)"
  "oblivious (list_account_profiles_route x i)" "oblivious (read_audit_log_route x k)" "oblivious (delete_role_route w x n)"
  "oblivious (revoke_account_sessions_route w x i)" "oblivious (delete_account_route w x i)"
  "oblivious (delete_account_profile_route w x i n)"
  unfolding list_permissions_route_def list_roles_route_def create_role_route_def update_role_route_def
    list_accounts_route_def get_account_route_def set_account_roles_route_def set_account_status_route_def
    issue_account_password_reset_route_def issue_invite_route_def list_account_profiles_route_def read_audit_log_route_def
    delete_role_route_def revoke_account_sessions_route_def delete_account_route_def delete_account_profile_route_def
  by (intro oblivious_intros)+

lemma oblivious_profile_routes [oblivious_intros]:
  "oblivious (list_profiles_route a)" "oblivious (create_profile_route w a n)" "oblivious (get_profile_route a n)"
  "oblivious (list_offline_grants a n)" "oblivious (check_readiness w v)" "oblivious (put_api_key w v a n sv b)"
  "oblivious (put_password w v a n sv b')" "oblivious (delete_profile_route w a n pw)"
  "oblivious (delete_connection w a n sv pw)" "oblivious (authorize_connection w ps u a n sv pw)"
  unfolding list_profiles_route_def create_profile_route_def get_profile_route_def list_offline_grants_def
    check_readiness_def put_api_key_def put_password_def delete_profile_route_def delete_connection_def
    authorize_connection_def Let_def
  by (intro oblivious_intros)+

lemma oblivious_on_behalf [oblivious_intros]: "(\<And>sv a. oblivious (f sv a)) \<Longrightarrow> oblivious (on_behalf w g c t f)"
  unfolding on_behalf_def by (intro oblivious_intros)

lemma oblivious_delegation_routes [oblivious_intros]:
  "oblivious (exchange_user_token w g c t b)" "oblivious (create_offline_grant w a n b')"
  "oblivious (describe_delegated_profile n a)" "oblivious (authorize_delegated_connection w ps u n sv a)"
  "oblivious (delete_delegated_connection w n sv a)" "oblivious (create_delegated_grant w n b'' sv a)"
  "oblivious (revoke_delegated_grant w n i sv a)"
  unfolding exchange_user_token_def create_offline_grant_def describe_delegated_profile_def
    authorize_delegated_connection_def delete_delegated_connection_def create_delegated_grant_def revoke_delegated_grant_def
  by (intro oblivious_intros)+

lemma oblivious_request_parts [oblivious_intros]:
  "oblivious m \<Longrightarrow> oblivious (sent k m)"
  "(\<And>a. oblivious (f a)) \<Longrightarrow> oblivious (as_account w c f)" "(\<And>x. oblivious (h x)) \<Longrightarrow> oblivious (as_actor w c h)"
  "(\<And>pw. oblivious (q pw)) \<Longrightarrow> oblivious (confirming body q)"
  unfolding sent_def as_account_def as_actor_def confirming_def
  by (intro oblivious_intros; simp)+ (cases body; auto intro!: oblivious_intros)

definition resolves :: "operation \<Rightarrow> bool" where
  "resolves op \<longleftrightarrow> op = OpResolveCredential \<or> op = OpResolveFormSecrets"

text \<open>A request that reaches a resolution and proves both the service that asks and the person it asks for.\<close>

definition proves_both :: "'z process \<Rightarrow> http_request \<Rightarrow> bool" where
  "proves_both p rq =
     (case calling_service (ev_settings (wo_env (ps_world p))) (hq_bearer rq) of
        Inl e \<Rightarrow> False
      | Inr sv \<Rightarrow> \<not> isl (acting_for (ps_signer p) (ev_wall_clock (wo_env (ps_world p))) (ev_now (wo_env (ps_world p))) sv (hq_user_token rq)))"

definition asks_for_secrets :: "'z process \<Rightarrow> http_request \<Rightarrow> bool" where
  "asks_for_secrets p rq =
     (case ps_matcher p ROUTES (hq_method rq) (hq_path rq) of
        Matched r args \<Rightarrow> resolves (rt_operation r) \<and> proves_both p rq
      | _ \<Rightarrow> False)"

lemma oblivious_unproved:
  assumes "\<not> proves_both p rq"
  shows "oblivious (on_behalf (wo_env (ps_world p)) (ps_signer p) (hq_bearer rq) (hq_user_token rq) f)"
proof (cases "calling_service (ev_settings (wo_env (ps_world p))) (hq_bearer rq)")
  case (Inl e)
  then have "on_behalf (wo_env (ps_world p)) (ps_signer p) (hq_bearer rq) (hq_user_token rq) f = raise e"
    by (intro ext) (simp add: on_behalf_def andthen_simp of_result_simp raise_simp)
  then show ?thesis by (simp add: oblivious_quiet)
next
  case (Inr sv)
  with assms obtain e where "acting_for (ps_signer p) (ev_wall_clock (wo_env (ps_world p))) (ev_now (wo_env (ps_world p))) sv (hq_user_token rq) = Inl e"
    by (auto simp: proves_both_def isl_def)
  with Inr have "on_behalf (wo_env (ps_world p)) (ps_signer p) (hq_bearer rq) (hq_user_token rq) f = raise e"
    by (intro ext) (simp add: on_behalf_def andthen_simp of_result_simp raise_simp)
  then show ?thesis by (simp add: oblivious_quiet)
qed

lemma oblivious_perform:
  assumes te: "\<And>pv c u. oblivious (te_exchange_code (wo_endpoint (ps_world p)) pv c u)"
    and "\<not> (resolves op \<and> proves_both p rq)"
  shows "oblivious (perform p rq args op)"
proof (cases "resolves op")
  case True
  then show ?thesis
    using assms(2) unfolding resolves_def
    by (auto simp: internal_resolve_credential_def internal_resolve_form_def intro!: oblivious_request_parts(1) oblivious_unproved)
next
  case False
  show ?thesis
  proof (cases op)
    case OpCompleteAuthorization
    then show ?thesis by (auto intro!: oblivious_intros te split: option.split)
  next
    case OpReadAuditLog
    then show ?thesis by (cases "hq_limit rq"; cases "the (hq_limit rq)") (auto intro!: oblivious_intros)
  qed (use False in \<open>cases "hq_body rq"; auto simp: resolves_def intro!: oblivious_intros\<close>)+
qed

section \<open>Traffic\<close>

fun answers :: "('z process \<times> http_request) list \<Rightarrow> 'z vsys_scheme \<Rightarrow> http_answer list" where
  "answers [] s = []"
| "answers ((p, rq) # rqs) s = fst (serve p rq s) # answers rqs (snd (serve p rq s))"

lemma serve_oblivious:
  fixes s :: "'z vsys_scheme"
  assumes te: "\<And>pv c u. oblivious (te_exchange_code (wo_endpoint (ps_world p)) pv c u)"
    and "\<not> asks_for_secrets p rq" and "db_ok s" and "db_ok t" and "veiled s = veiled t"
  shows "fst (serve p rq s) = fst (serve p rq t) \<and> veiled (snd (serve p rq s)) = veiled (snd (serve p rq t))
    \<and> db_ok (snd (serve p rq s)) \<and> db_ok (snd (serve p rq t))"
proof (cases "ps_matcher p ROUTES (hq_method rq) (hq_path rq)")
  case (Matched r args)
  then have "\<not> (resolves (rt_operation r) \<and> proves_both p rq)" using assms(2) by (simp add: asks_for_secrets_def)
  note m = oblivious_perform [where args = args, OF te this]
  show ?thesis
    using oblivious_same [OF m assms(3-5)] oblivious_same(3) [OF m assms(4,4)] assms(3-5)
    by (simp add: serve_def Matched)
qed (use assms(3-5) in \<open>simp_all add: serve_def\<close>)

lemma traffic_oblivious:
  fixes s :: "'z vsys_scheme"
  assumes "\<And>p rq pv c u. (p, rq) \<in> set rqs \<Longrightarrow> oblivious (te_exchange_code (wo_endpoint (ps_world p)) pv c u)"
    and "\<And>p rq. (p, rq) \<in> set rqs \<Longrightarrow> \<not> asks_for_secrets p rq"
    and "db_ok s" and "db_ok t" and "veiled s = veiled t"
  shows "answers rqs s = answers rqs t \<and> veiled (serve_all rqs s) = veiled (serve_all rqs t)"
  using assms
proof (induction rqs arbitrary: s t)
  case (Cons a rqs)
  obtain p rq where a: "a = (p, rq)" by fastforce
  have te: "\<And>pv c u. oblivious (te_exchange_code (wo_endpoint (ps_world p)) pv c u)"
    and asks: "\<not> asks_for_secrets p rq"
    using Cons.prems(1) [of p rq] Cons.prems(2) [of p rq] by (auto simp: a)
  note one = serve_oblivious [OF te asks Cons.prems(3-5)]
  have "answers rqs (snd (serve p rq s)) = answers rqs (snd (serve p rq t))
      \<and> veiled (serve_all rqs (snd (serve p rq s))) = veiled (serve_all rqs (snd (serve p rq t)))"
    by (rule Cons.IH, erule Cons.prems(1) [OF list.set_intros(2)], erule Cons.prems(2) [OF list.set_intros(2)])
      (simp_all add: one)
  then show ?case by (simp add: a one)
qed simp

end
