(* ===== verification/SurfaceProperties.thy ===== *)
theory SurfaceProperties
  imports ConsumerProperties Oblivious
begin

text \<open>
  The theorems about the surface of the service: which route a request reaches, what somebody without
  credentials can do there, and that traffic is nothing but runs of the requests of the services.
\<close>

section \<open>Routes\<close>

text \<open>C25: Every route the application mounts is reached: for each of them and each choice of parameters, its
  method with its path leads to that route and to no other, with exactly those parameters, although
  templates with parameters stand beside literal paths; no other method is served there instead.\<close>

theorem every_route_reached:
  assumes "follows_templates matcher"
    and "r \<in> set ROUTES" and "length args = arity (rt_path r)" and "\<forall>a \<in> set args. whole_segment a"
  shows "matcher ROUTES (rt_method r) (path_of r args) = Matched r args
    \<and> (\<forall>m. m \<notin> rt_method ` set ROUTES \<longrightarrow> matcher ROUTES m (path_of r args) = MethodNotAllowed)"
  using route_of_own_path [OF assms] has_own_template [OF assms(2-4)] assms(1,2)
  unfolding follows_templates_def by blast

theorem every_route_reached_witness:
  "match_route ROUTES ''DELETE'' (path_of route_revoke_offline_grant [''work'', ''dgt_1'']) = Matched route_revoke_offline_grant [''work'', ''dgt_1'']"
proof -
  have r: "route_revoke_offline_grant \<in> set ROUTES" by (simp add: ROUTES_def delegation_router_def)
  have a: "rt_method route_revoke_offline_grant = ''DELETE''" "arity (rt_path route_revoke_offline_grant) = 2"
    by code_simp+
  show ?thesis
    using conjunct1 [OF every_route_reached [OF match_route_follows r, of "[''work'', ''dgt_1'']"]] by (simp add: a whole_segment_def)
qed

section \<open>Strangers\<close>

























definition sample_probe :: http_request where
  "sample_probe = \<lparr>hq_method = ''DELETE'', hq_path = path_of route_revoke_offline_grant [''work'', ''dgt_1''],
     hq_bearer = Some ''stolen'', hq_user_token = None, hq_body = NoBody, hq_failures = [], hq_state = None, hq_code = None,
     hq_limit = None, hq_host = None, hq_supplied_id = None, hq_fresh_id = ''r''\<rparr>"


section \<open>Traffic\<close>


section \<open>Disclosure\<close>

text \<open>C9: Values go in, status comes out: whatever requests arrive, every answer of the service, every message
  it sends and everything it keeps beside the vault is the same whatever the vault holds, so nothing shows
  even whether a secret is stored; the only requests that can show more are those that reach one of the two
  resolutions with the token of a configured service and a token issued for that service on behalf of a
  person. The token endpoint of a provider is assumed not to depend on the vault either.\<close>

theorem answers_reveal_no_secret:
  fixes s :: "'z vsys_scheme"
  assumes "db_ok (s\<lparr>t_secrets := x\<rparr>)" and "db_ok (s\<lparr>t_secrets := y\<rparr>)"
    and "\<And>p rq. (p, rq) \<in> set rqs \<Longrightarrow> \<not> asks_for_secrets p rq"
    and "\<And>p rq pv c u. (p, rq) \<in> set rqs \<Longrightarrow> blind (te_exchange_code (wo_endpoint (ps_world p)) pv c u)"
    and "\<And>p rq pv c u. (p, rq) \<in> set rqs \<Longrightarrow> keeps db_ok (te_exchange_code (wo_endpoint (ps_world p)) pv c u)"
  shows "answers rqs (s\<lparr>t_secrets := x\<rparr>) = answers rqs (s\<lparr>t_secrets := y\<rparr>)
    \<and> (serve_all rqs (s\<lparr>t_secrets := x\<rparr>))\<lparr>t_secrets := []\<rparr> = (serve_all rqs (s\<lparr>t_secrets := y\<rparr>))\<lparr>t_secrets := []\<rparr>"
  using traffic_oblivious [OF blind_oblivious [OF assms(4,5)] assms(3,1,2)] by (simp add: veiled_def)

definition sample_readiness :: http_request where
  "sample_readiness = sample_probe\<lparr>hq_method := ''GET'', hq_path := path_of route_check_readiness []\<rparr>"

definition sample_grab :: http_request where
  "sample_grab = sample_probe\<lparr>hq_method := ''GET'', hq_path := path_of route_resolve_credential [''work'', ''mail''], hq_bearer := None\<rparr>"

theorem answers_reveal_no_secret_witness:
  "answers [(sample_process, sample_readiness), (sample_process, sample_grab)] (sample_vault_state\<lparr>t_secrets := []\<rparr>)
   = answers [(sample_process, sample_readiness), (sample_process, sample_grab)] sample_vault_state"
proof -
  have r: "route_check_readiness \<in> set ROUTES" by (simp add: ROUTES_def health_router_def)
  have facts: "rt_method route_check_readiness = ''GET''" "arity (rt_path route_check_readiness) = 0"
    "rt_operation route_check_readiness = OpCheckReadiness"
    by code_simp+
  have m: "ps_matcher sample_process ROUTES (hq_method sample_readiness) (hq_path sample_readiness) = Matched route_check_readiness []"
    using route_of_own_path [OF match_route_follows r, of "[]"] by (simp add: facts sample_readiness_def sample_process_def)
  have "\<not> asks_for_secrets sample_process sample_readiness" "\<not> asks_for_secrets sample_process sample_grab"
    by (simp_all add: asks_for_secrets_def m facts resolves_def proves_both_def calling_service_def sample_grab_def split: dispatched.split)
  moreover have "blind (te_exchange_code (wo_endpoint (ps_world sample_process)) pv c u)"
    "keeps db_ok (te_exchange_code (wo_endpoint (ps_world sample_process)) pv c u)" for pv c u
    by (simp_all add: sample_process_def sample_world_def sample_endpoint_def blind_intros keeps_ret)
  moreover have "db_ok (sample_vault_state\<lparr>t_secrets := []\<rparr>)"
    using db_ok_veiled [OF sample_vault_ok] by (simp add: veiled_def)
  ultimately have "answers [(sample_process, sample_readiness), (sample_process, sample_grab)] (sample_vault_state\<lparr>t_secrets := []\<rparr>)
      = answers [(sample_process, sample_readiness), (sample_process, sample_grab)]
          (sample_vault_state\<lparr>t_secrets := t_secrets sample_vault_state\<rparr>)"
    by (intro conjunct1 [OF answers_reveal_no_secret]) (use sample_vault_ok in auto)
  then show ?thesis by simp
qed

end
