(* ===== verification/SigningKey.thy ===== *)
theory SigningKey
  imports Signing "HOL-Library.Word"
begin

text \<open>
  Where the signing key comes from (\<open>_load_or_create_key\<close> of \<^verbatim>\<open>src/src/keyring_api/accounts/signing.py\<close>):
  the file of the first start is what every later start signs with. The file system is the directory
  of the key, the file, and the modes of both; each action on it may raise. The library that makes,
  writes and reads keys is a record of functions.
\<close>

unbundle bit_operations_syntax

section \<open>The library\<close>

datatype 'k loaded_key = NoKey | OtherKey | RsaKey 'k

record 'k key_library =
  kl_private_pem :: "'k \<Rightarrow> string"
  kl_load_pem :: "string \<Rightarrow> 'k loaded_key" \<comment> \<open>\<open>NoKey\<close>: \<open>ValueError\<close>\<close>
  kl_numbers :: "'k \<Rightarrow> nat \<times> nat"
  kl_encode :: "'k \<Rightarrow> claims \<Rightarrow> string"
  kl_decode :: "'k \<Rightarrow> string \<Rightarrow> claims option"
  kl_sha256_hex :: "string \<Rightarrow> string"

text \<open>What is relied on: what was written for a key is read as that key.\<close>

definition reads_what_it_writes :: "('k, 'x) key_library_scheme \<Rightarrow> bool" where
  "reads_what_it_writes l \<longleftrightarrow> (\<forall>k. kl_load_pem l (kl_private_pem l k) = RsaKey k)"

section \<open>The file\<close>

type_synonym mode = "9 word"

definition KEY_FILE_MODE :: mode where "KEY_FILE_MODE = 0x180"  \<comment> \<open>0o600\<close>
definition KEY_DIR_MODE :: mode where "KEY_DIR_MODE = 0x1C0"  \<comment> \<open>0o700\<close>

record key_place =
  kp_dir :: "mode option"
  kp_file :: "(mode \<times> string) option"

definition make_dir :: "mode \<Rightarrow> key_place \<Rightarrow> key_place" where
  "make_dir umask s = (case kp_dir s of Some m \<Rightarrow> s | None \<Rightarrow> s\<lparr>kp_dir := Some (KEY_DIR_MODE AND NOT umask)\<rparr>)"

definition chmod_dir :: "mode \<Rightarrow> key_place \<Rightarrow> key_place" where
  "chmod_dir m s = s\<lparr>kp_dir := Some m\<rparr>"

text \<open>\<open>write_bytes\<close> opens the file, which creates it with what the mask leaves, and then writes.\<close>

definition open_file :: "mode \<Rightarrow> key_place \<Rightarrow> key_place" where
  "open_file umask s =
     s\<lparr>kp_file := Some (case kp_file s of Some (m, text) \<Rightarrow> (m, []) | None \<Rightarrow> (0x1B6 AND NOT umask, []))\<rparr>"

definition write_file :: "string \<Rightarrow> key_place \<Rightarrow> key_place" where
  "write_file text s = s\<lparr>kp_file := map_option (\<lambda>(m, old). (m, text)) (kp_file s)\<rparr>"

definition chmod_file :: "mode \<Rightarrow> key_place \<Rightarrow> key_place" where
  "chmod_file m s = s\<lparr>kp_file := map_option (\<lambda>(old, text). (m, text)) (kp_file s)\<rparr>"

section \<open>Loading and creating\<close>

datatype key_failure = KeyOSError | KeyValueError | KeyTypeError

datatype key_step = MakeDir | ChmodDir | OpenKey | WriteKey | ChmodKey

definition KEY_STEPS :: "key_step list" where
  "KEY_STEPS = [MakeDir, ChmodDir, OpenKey, WriteKey, ChmodKey]"

fun key_action :: "mode \<Rightarrow> string \<Rightarrow> key_step \<Rightarrow> key_place \<Rightarrow> key_place" where
  "key_action umask pem MakeDir s = make_dir umask s"
| "key_action umask pem ChmodDir s = chmod_dir KEY_DIR_MODE s"
| "key_action umask pem OpenKey s = open_file umask s"
| "key_action umask pem WriteKey s = write_file pem s"
| "key_action umask pem ChmodKey s = chmod_file KEY_FILE_MODE s"

text \<open>
  \<open>io k\<close>: the action goes through (\<open>None\<close>), or it raises, or the process ends there, after so many
  characters were written. The states passed through are part of the answer.
\<close>

fun key_steps :: "(key_step \<Rightarrow> nat option) \<Rightarrow> mode \<Rightarrow> string \<Rightarrow> key_step list \<Rightarrow> key_place \<Rightarrow> bool \<times> key_place list" where
  "key_steps io umask pem [] s = (True, [s])"
| "key_steps io umask pem (k # ks) s =
     (case io k of
        None \<Rightarrow> apsnd ((#) s) (key_steps io umask pem ks (key_action umask pem k s))
      | Some n \<Rightarrow> (False, [s, if k = WriteKey then write_file (take n pem) s else s]))"

definition load_key :: "('k, 'x) key_library_scheme \<Rightarrow> string \<Rightarrow> key_failure + 'k" where
  "load_key l text =
     (case kl_load_pem l text of NoKey \<Rightarrow> Inl KeyValueError | OtherKey \<Rightarrow> Inl KeyTypeError | RsaKey k \<Rightarrow> Inr k)"

definition load_or_create_key ::
  "('k, 'x) key_library_scheme \<Rightarrow> (key_step \<Rightarrow> nat option) \<Rightarrow> mode \<Rightarrow> 'k \<Rightarrow> key_place
    \<Rightarrow> (key_failure + 'k) \<times> key_place list" where
  "load_or_create_key l io umask fresh s =
     (case kp_file s of
        Some (m, text) \<Rightarrow> (load_key l text, [s])
      | None \<Rightarrow> (case key_steps io umask (kl_private_pem l fresh) KEY_STEPS s of
                  (finished, visited) \<Rightarrow> (if finished then Inr fresh else Inl KeyOSError, visited)))"

section \<open>The signer\<close>

text \<open>\<open>TokenSigner.__init__\<close>: what it signs with, and the document it publishes.\<close>

definition signer_of :: "('k, 'x) key_library_scheme \<Rightarrow> string \<Rightarrow> 'k \<Rightarrow> signer" where
  "signer_of l issuer k = \<lparr>sg_issuer = issuer, sg_encode = kl_encode l k, sg_decode = kl_decode l k\<rparr>"

definition jwks_of :: "('k, 'x) key_library_scheme \<Rightarrow> 'k \<Rightarrow> (string \<times> string) list list" where
  "jwks_of l k = [jwk (kl_sha256_hex l) (fst (kl_numbers l k)) (snd (kl_numbers l k))]"

definition new_signer ::
  "('k, 'x) key_library_scheme \<Rightarrow> (key_step \<Rightarrow> nat option) \<Rightarrow> mode \<Rightarrow> 'k \<Rightarrow> string \<Rightarrow> key_place
    \<Rightarrow> (key_failure + signer \<times> (string \<times> string) list list) \<times> key_place" where
  "new_signer l io umask fresh issuer s =
     (case load_or_create_key l io umask fresh s of
        (Inl e, visited) \<Rightarrow> (Inl e, last visited)
      | (Inr k, visited) \<Rightarrow> (Inr (signer_of l issuer k, jwks_of l k), last visited))"

section \<open>Facts\<close>

lemma key_steps_head: "\<exists>rest. snd (key_steps io umask pem ks s) = s # rest"
  by (cases ks) (auto split: option.split prod.split simp: apsnd_def)

lemma key_steps_last:
  "fst (key_steps io umask pem ks s) \<Longrightarrow> last (snd (key_steps io umask pem ks s)) = fold (key_action umask pem) ks s"
proof (induction ks arbitrary: s)
  case (Cons k ks)
  have "snd (key_steps io umask pem ks t) \<noteq> []" for t using key_steps_head [of io umask pem ks t] by auto
  with Cons show ?case by (auto split: option.splits)
qed simp

lemma created:
  assumes "load_or_create_key l io umask fresh s = (Inr k, visited)" and "kp_file s = None"
  shows "k = fresh" "last visited = \<lparr>kp_dir = Some KEY_DIR_MODE, kp_file = Some (KEY_FILE_MODE, kl_private_pem l fresh)\<rparr>"
proof -
  obtain finished where run: "key_steps io umask (kl_private_pem l fresh) KEY_STEPS s = (finished, visited)" "finished" "k = fresh"
    using assms by (auto simp: load_or_create_key_def split: prod.splits if_splits)
  then show "k = fresh" by simp
  have "last visited = fold (key_action umask (kl_private_pem l fresh)) KEY_STEPS s"
    using key_steps_last [of io umask "kl_private_pem l fresh" KEY_STEPS s] run(1,2) by simp
  then show "last visited = \<lparr>kp_dir = Some KEY_DIR_MODE, kp_file = Some (KEY_FILE_MODE, kl_private_pem l fresh)\<rparr>"
    using assms(2)
    by (simp add: KEY_STEPS_def make_dir_def chmod_dir_def open_file_def write_file_def chmod_file_def split: option.split)
qed

text \<open>After a start that got its key, the file holds it, and every later start gets the same one.\<close>

lemma key_is_on_file:
  assumes "reads_what_it_writes l" and "load_or_create_key l io umask fresh s = (Inr k, visited)"
  shows "\<exists>m text. kp_file (last visited) = Some (m, text) \<and> load_key l text = Inr k"
proof (cases "kp_file s")
  case None
  show ?thesis using created [OF assms(2) None] assms(1) by (simp add: reads_what_it_writes_def load_key_def)
next
  case (Some f)
  then show ?thesis using assms(2) by (cases f) (auto simp: load_or_create_key_def)
qed

lemma later_start_same_key:
  assumes "reads_what_it_writes l" and "load_or_create_key l io umask fresh s = (Inr k, visited)"
  shows "load_or_create_key l io' umask' fresh' (last visited) = (Inr k, [last visited])"
  using key_is_on_file [OF assms] by (auto simp: load_or_create_key_def)

lemma new_signer_Inr: "new_signer l io umask fresh issuer s = (Inr (g, ks), s') \<Longrightarrow> \<exists>k. g = signer_of l issuer k"
  by (auto simp: new_signer_def split: prod.splits sum.splits)

lemma new_signer_again:
  assumes "reads_what_it_writes l" and "new_signer l io umask fresh issuer s = (Inr g, s')"
  shows "new_signer l io' umask' fresh' issuer s' = (Inr g, s')"
proof -
  obtain k visited where k: "load_or_create_key l io umask fresh s = (Inr k, visited)"
    "g = (signer_of l issuer k, jwks_of l k)" "s' = last visited"
    using assms(2) by (auto simp: new_signer_def split: prod.splits sum.splits)
  show ?thesis by (simp add: new_signer_def k(2,3) later_start_same_key [OF assms(1) k(1)])
qed

text \<open>
  Who else could read the key: somebody who may enter the directory and read the file while there is
  something in it.
\<close>

definition exposed :: "key_place \<Rightarrow> bool" where
  "exposed s \<longleftrightarrow>
     (case (kp_dir s, kp_file s) of
        (Some d, Some (m, text)) \<Rightarrow> d AND 0x09 \<noteq> 0 \<and> m AND 0x24 \<noteq> 0 \<and> text \<noteq> []
      | _ \<Rightarrow> False)"

lemma private_dir_not_exposed: "kp_dir s = Some KEY_DIR_MODE \<Longrightarrow> \<not> exposed s"
  by (auto simp: exposed_def KEY_DIR_MODE_def split: option.split)

lemma never_exposed:
  assumes "kp_file s = None"
  shows "\<forall>t \<in> set (snd (load_or_create_key l io umask fresh s)). \<not> exposed t"
proof -
  have empty: "\<not> exposed t" if "kp_file t = None" for t using that by (simp add: exposed_def split: option.split)
  have dirs: "kp_dir (key_action umask pem k t) = Some KEY_DIR_MODE"
    if "kp_dir t = Some KEY_DIR_MODE" for pem k t
    using that by (cases k) (simp_all add: make_dir_def chmod_dir_def open_file_def write_file_def chmod_file_def)
  have rest: "\<forall>u \<in> set (snd (key_steps io umask pem ks t)). \<not> exposed u" if "kp_dir t = Some KEY_DIR_MODE" for pem ks t
    using that
  proof (induction ks arbitrary: t)
    case (Cons k ks)
    then show ?case
      using dirs private_dir_not_exposed by (auto simp: write_file_def split: option.split)
  qed (simp add: private_dir_not_exposed)
  let ?pem = "kl_private_pem l fresh"
  let ?s1 = "make_dir umask s"
  have "kp_file ?s1 = None" using assms by (simp add: make_dir_def split: option.split)
  moreover have "kp_dir (chmod_dir KEY_DIR_MODE ?s1) = Some KEY_DIR_MODE" by (simp add: chmod_dir_def)
  ultimately have "\<forall>u \<in> set (snd (key_steps io umask ?pem KEY_STEPS s)). \<not> exposed u"
    using rest [of "chmod_dir KEY_DIR_MODE ?s1" ?pem "[OpenKey, WriteKey, ChmodKey]"] empty assms
    by (auto simp: KEY_STEPS_def split: option.splits simp del: key_steps.simps(2) simp add: key_steps.simps(2) [of _ _ _ MakeDir]
        key_steps.simps(2) [of _ _ _ ChmodDir])
  then show ?thesis by (simp add: load_or_create_key_def assms split: prod.split)
qed

text \<open>
  A first start that ends while the key is being written leaves a file that is no key, and every later
  start is refused until somebody removes it.
\<close>

lemma interrupted_creation_blocks:
  assumes "kp_file s = None" and "io WriteKey = Some n" and "\<And>k. k \<noteq> WriteKey \<Longrightarrow> io k = None"
    and "kl_load_pem l (take n (kl_private_pem l fresh)) = NoKey"
    and "load_or_create_key l io umask fresh s = (r, visited)"
  shows "r = Inl KeyOSError" "fst (load_or_create_key l io' umask' fresh' (last visited)) = Inl KeyValueError"
  using assms by (auto simp: load_or_create_key_def KEY_STEPS_def make_dir_def chmod_dir_def open_file_def write_file_def
      load_key_def split: option.splits)

end
