(* ===== verification/Boot.thy ===== *)
theory Boot
  imports Application Loading Mail Migrator Outbox SigningKey ServiceTokens
begin

text \<open>
  How a process comes up and goes down: \<open>Database.__init__\<close>, \<open>_connect\<close> and \<open>close\<close> of
  \<^verbatim>\<open>src/src/keyring_api/storage/database.py\<close>, \<open>Container.build\<close> of \<^verbatim>\<open>core/container.py\<close>, \<open>start\<close>, \<open>stop\<close> and
  the lifespan of \<^verbatim>\<open>api/app.py\<close>. What a process holds open is state: the connection, the worker thread
  and the flag that says it was closed. What the operating system and SQLite answer is an argument.
\<close>

unbundle bit_operations_syntax

section \<open>Opening the database\<close>

definition DATABASE_FILE_MODE :: mode where "DATABASE_FILE_MODE = 0x180"  \<comment> \<open>0o600\<close>

definition SIDECARS :: "string list" where "SIDECARS = [''-wal'', ''-shm'']"

definition CONNECT_PRAGMAS :: "string list" where
  "CONNECT_PRAGMAS = [''PRAGMA journal_mode = WAL'', ''PRAGMA foreign_keys = ON'', ''PRAGMA synchronous = FULL'',
     ''PRAGMA busy_timeout = 5000'']"

text \<open>The file of the database and the files beside it, by their suffix.\<close>

record database_place =
  dp_file :: "mode option"
  dp_sidecars :: "(string \<times> mode) list"

record handles =
  hd_connection :: bool
  hd_worker :: bool
  hd_closed :: bool

text \<open>
  \<open>os_creates\<close>: which files there are once SQLite has opened the path and switched to its journal;
  \<open>os_pragma\<close>: an exception, or the first row of the answer, if any.
\<close>

record opening_answers =
  os_mkdir :: "error option"
  os_connect :: "error option"
  os_creates :: "database_place \<Rightarrow> database_place"
  os_pragma :: "string \<Rightarrow> error + string option"
  os_foreign_keys :: "error + bool"
  os_chmod :: "string \<Rightarrow> error option"
  os_close :: "error option"

fun run_pragmas :: "(string \<Rightarrow> error + string option) \<Rightarrow> string list \<Rightarrow> string \<Rightarrow> error + string" where
  "run_pragmas answer [] journal_mode = Inr journal_mode"
| "run_pragmas answer (p # ps) journal_mode =
     (case answer p of
        Inl e \<Rightarrow> Inl e
      | Inr row \<Rightarrow> run_pragmas answer ps
          (case row of Some m \<Rightarrow> if starts_with ''PRAGMA journal_mode'' p then m else journal_mode | None \<Rightarrow> journal_mode))"

fun chmod_sidecars :: "(string \<Rightarrow> error option) \<Rightarrow> string list \<Rightarrow> database_place \<Rightarrow> unit result \<times> database_place" where
  "chmod_sidecars raises [] p = (Inr (), p)"
| "chmod_sidecars raises (x # xs) p =
     (if x \<in> fst ` set (dp_sidecars p)
      then (case raises x of
              Some e \<Rightarrow> (Inl e, p)
            | None \<Rightarrow> chmod_sidecars raises xs
                (p\<lparr>dp_sidecars := map (\<lambda>(s, m). if s = x then (s, DATABASE_FILE_MODE) else (s, m)) (dp_sidecars p)\<rparr>))
      else chmod_sidecars raises xs p)"

definition make_private :: "(string \<Rightarrow> error option) \<Rightarrow> database_place \<Rightarrow> unit result \<times> database_place" where
  "make_private raises p =
     (case dp_file p of
        None \<Rightarrow> (Inl (Unhandled [''FileNotFoundError'']), p)
      | Some m \<Rightarrow>
          (case raises [] of
             Some e \<Rightarrow> (Inl e, p)
           | None \<Rightarrow> chmod_sidecars raises SIDECARS (p\<lparr>dp_file := Some DATABASE_FILE_MODE\<rparr>)))"

text \<open>\<open>_connect\<close>; a connection that fails its checks is closed on the spot.\<close>

definition connect_database ::
  "opening_answers \<Rightarrow> database_place \<Rightarrow> handles \<Rightarrow> string result \<times> database_place \<times> handles" where
  "connect_database os p h =
     (case os_mkdir os of
        Some e \<Rightarrow> (Inl e, p, h)
      | None \<Rightarrow>
     (case os_connect os of
        Some e \<Rightarrow> (Inl e, p, h)
      | None \<Rightarrow>
     (let p1 = os_creates os p; h1 = h\<lparr>hd_connection := True\<rparr>; refused = h\<lparr>hd_connection := False\<rparr> in
      case run_pragmas (os_pragma os) CONNECT_PRAGMAS ''unknown'' of
        Inl e \<Rightarrow> (Inl e, p1, refused)
      | Inr journal_mode \<Rightarrow>
     (case os_foreign_keys os of
        Inl e \<Rightarrow> (Inl e, p1, refused)
      | Inr enabled \<Rightarrow>
     (case require_foreign_keys enabled of
        Inl e \<Rightarrow> (Inl e, p1, refused)
      | Inr _ \<Rightarrow>
     (case make_private (os_chmod os) p1 of
        (Inl e, p2) \<Rightarrow> (Inl e, p2, refused)
      | (Inr _, p2) \<Rightarrow> (Inr journal_mode, p2, h1)))))))"

text \<open>\<open>__init__\<close>: the worker thread is given back when the connection was refused.\<close>

definition open_database :: "opening_answers \<Rightarrow> database_place \<Rightarrow> string result \<times> database_place \<times> handles" where
  "open_database os p =
     (case connect_database os p \<lparr>hd_connection = False, hd_worker = True, hd_closed = False\<rparr> of
        (Inl e, p1, h) \<Rightarrow> (Inl e, p1, h\<lparr>hd_worker := False\<rparr>)
      | (Inr journal_mode, p1, h) \<Rightarrow> (Inr journal_mode, p1, h))"

text \<open>\<open>close\<close> and \<open>aclose\<close>, which share the flag.\<close>

definition close_database :: "error option \<Rightarrow> handles \<Rightarrow> error option \<times> handles" where
  "close_database closing h =
     (if hd_closed h then (None, h)
      else (case closing of
              Some e \<Rightarrow> (Some e, h\<lparr>hd_closed := True\<rparr>)
            | None \<Rightarrow> (None, h\<lparr>hd_closed := True, hd_connection := False, hd_worker := False\<rparr>)))"

section \<open>The composition root\<close>

datatype preference_source = DeploymentPreferences | SettingsApiPreferences string string

text \<open>\<open>build_preference_source\<close>; making the client of the other service may raise.\<close>

definition build_preference_source :: "error option \<Rightarrow> settings \<Rightarrow> preference_source result" where
  "build_preference_source client_raises s =
     (case settings_api s of
        None \<Rightarrow> Inr DeploymentPreferences
      | Some (base_url, token) \<Rightarrow>
          (case client_raises of Some e \<Rightarrow> Inl e | None \<Rightarrow> Inr (SettingsApiPreferences base_url token)))"

record 'k start_input =
  si_opening :: opening_answers
  si_settings :: settings
  si_scripts :: "(string \<times> db script) list"
  si_now :: int
  si_monotonic :: rat
  si_issuer :: string
  si_library :: "'k key_library"
  si_key_io :: "key_step \<Rightarrow> nat option"
  si_umask :: mode
  si_fresh_key :: 'k
  si_provider_file :: provider_file
  si_client_raises :: "error option"

text \<open>What a start finds and leaves.\<close>

record machine =
  mc_place :: database_place
  mc_data :: "db schema connection_state"
  mc_key :: key_place

record container =
  ct_sender :: sender
  ct_signer :: signer
  ct_jwks :: "(string \<times> string) list list"
  ct_preferences :: preference_source
  ct_providers :: "(string \<times> oauth_provider) list"
  ct_service_tokens :: "(string \<times> string) list"
  ct_started_monotonic :: rat

definition seed_work :: "(db schema, unit) work" where
  "seed_work d =
     (case seed_builtin_roles (sc_schema d) of
        Inl e \<Rightarrow> (Inl e, d)
      | Inr (_, x) \<Rightarrow> (Inr (), d\<lparr>sc_schema := x\<rparr>))"

fun key_error :: "key_failure \<Rightarrow> error" where
  "key_error KeyOSError = Unhandled [''OSError'']"
| "key_error KeyValueError = Unhandled [''ValueError'']"
| "key_error KeyTypeError = Unhandled [''TypeError'']"

text \<open>The body of the \<open>try\<close> in \<open>build\<close>: every adapter in its order, any of which may refuse.\<close>

definition wire_up :: "'k start_input \<Rightarrow> machine \<Rightarrow> container result \<times> machine" where
  "wire_up i m =
     (case migrate (si_scripts i) (si_now i) (mc_data m) of
        (Inl e, c1) \<Rightarrow> (Inl e, m\<lparr>mc_data := c1\<rparr>)
      | (Inr _, c1) \<Rightarrow>
     (case on_connection seed_work c1 of
        (Inl e, c2) \<Rightarrow> (Inl e, m\<lparr>mc_data := c2\<rparr>)
      | (Inr _, c2) \<Rightarrow>
     (case new_signer (si_library i) (si_key_io i) (si_umask i) (si_fresh_key i) (si_issuer i) (mc_key m) of
        (Inl e, k) \<Rightarrow> (Inl (key_error e), m\<lparr>mc_data := c2, mc_key := k\<rparr>)
      | (Inr (g, ks), k) \<Rightarrow>
     (let m' = m\<lparr>mc_data := c2, mc_key := k\<rparr> in
      case build_preference_source (si_client_raises i) (si_settings i) of
        Inl e \<Rightarrow> (Inl e, m')
      | Inr chosen \<Rightarrow>
     (case load_providers (si_provider_file i) of
        Inl e \<Rightarrow> (Inl e, m')
      | Inr ps \<Rightarrow>
     (case service_authenticator (st_service_tokens (si_settings i)) of
        Inl e \<Rightarrow> (Inl (Unhandled [''ValueError'']), m')
      | Inr ts \<Rightarrow>
          (Inr \<lparr>ct_sender = build_sender (st_email (si_settings i)), ct_signer = g, ct_jwks = ks, ct_preferences = chosen,
                ct_providers = ps, ct_service_tokens = ts, ct_started_monotonic = si_monotonic i\<rparr>, m')))))))"

text \<open>\<open>build\<close>: whatever refuses, the database is closed; an exception of the closing replaces the refusal.\<close>

definition build :: "'k start_input \<Rightarrow> machine \<Rightarrow> container result \<times> machine \<times> handles" where
  "build i m =
     (case open_database (si_opening i) (mc_place m) of
        (Inl e, p, h) \<Rightarrow> (Inl e, m\<lparr>mc_place := p\<rparr>, h)
      | (Inr _, p, h) \<Rightarrow>
          (case wire_up i (m\<lparr>mc_place := p\<rparr>) of
             (Inl e, m1) \<Rightarrow>
               (case close_database (os_close (si_opening i)) h of
                  (None, h1) \<Rightarrow> (Inl e, m1, h1)
                | (Some e1, h1) \<Rightarrow> (Inl e1, m1, h1))
           | (Inr c, m1) \<Rightarrow> (Inr c, m1, h)))"

section \<open>The lifespan of the application\<close>

text \<open>\<open>Container.aclose\<close> on what is held open: the database is closed when its turn comes.\<close>

definition close_container :: "bool \<Rightarrow> (part \<Rightarrow> error option) \<Rightarrow> handles \<Rightarrow> error option \<times> handles" where
  "close_container sweeping raises h =
     (case container_aclose sweeping raises of
        (parts, e) \<Rightarrow>
          (e, if DatabasePart \<in> set parts then snd (close_database (raises DatabasePart) h) else h))"

text \<open>
  \<open>_lifespan\<close>: nothing is served by a process that was refused, and what was started is stopped, also
  when serving ended with an exception.
\<close>

definition lifespan ::
  "'k start_input \<Rightarrow> (container \<Rightarrow> machine \<Rightarrow> error option \<times> machine) \<Rightarrow> (part \<Rightarrow> error option) \<Rightarrow> machine
    \<Rightarrow> error option \<times> machine \<times> handles" where
  "lifespan i serving raises m =
     (case build i m of
        (Inl e, m1, h) \<Rightarrow> (Some e, m1, h)
      | (Inr c, m1, h) \<Rightarrow>
          (case serving c m1 of
             (ended, m2) \<Rightarrow>
               (case close_container True raises h of
                  (None, h1) \<Rightarrow> (ended, m2, h1)
                | (Some e, h1) \<Rightarrow> (Some e, m2, h1))))"

text \<open>\<open>service_version\<close>: what is installed, or the constant of the source.\<close>

definition service_version :: "string option \<Rightarrow> string \<Rightarrow> string" where
  "service_version installed source = (case installed of Some v \<Rightarrow> v | None \<Rightarrow> source)"

section \<open>What is held open\<close>

lemma sidecars_private:
  "chmod_sidecars raises xs p = (Inr u, q) \<Longrightarrow> dp_file q = dp_file p
    \<and> (\<forall>s m. (s, m) \<in> set (dp_sidecars q) \<longrightarrow>
         (s \<in> set xs \<longrightarrow> m = DATABASE_FILE_MODE) \<and> (\<exists>m'. (s, m') \<in> set (dp_sidecars p) \<and> (s \<notin> set xs \<longrightarrow> m' = m)))"
proof (induction raises xs p rule: chmod_sidecars.induct)
  case (2 raises x xs p)
  show ?case
  proof (cases "x \<in> fst ` set (dp_sidecars p)")
    case True
    let ?p = "p\<lparr>dp_sidecars := map (\<lambda>(s, m). if s = x then (s, DATABASE_FILE_MODE) else (s, m)) (dp_sidecars p)\<rparr>"
    have none: "raises x = None" and rest: "chmod_sidecars raises xs ?p = (Inr u, q)"
      using 2(3) True by (auto split: option.splits)
    note IH = 2(1) [OF True none rest]
    show ?thesis
    proof (intro conjI allI impI)
      show "dp_file q = dp_file p" using IH by simp
      fix s m assume sm: "(s, m) \<in> set (dp_sidecars q)"
      then obtain m' where m': "(s, m') \<in> set (dp_sidecars ?p)" "s \<notin> set xs \<longrightarrow> m' = m" using IH by blast
      show "m = DATABASE_FILE_MODE" if "s \<in> set (x # xs)"
      proof (cases "s \<in> set xs")
        case True
        then show ?thesis using IH sm by blast
      next
        case False
        then have "(x, m) \<in> set (dp_sidecars ?p)" using that m' by simp
        then show ?thesis by (auto split: if_splits)
      qed
      show "\<exists>m'. (s, m') \<in> set (dp_sidecars p) \<and> (s \<notin> set (x # xs) \<longrightarrow> m' = m)"
        using m' by (auto split: if_splits)
    qed
  next
    case False
    then have rest: "chmod_sidecars raises xs p = (Inr u, q)" using 2(3) by simp
    note IH = 2(2) [OF False rest]
    show ?thesis using IH False by (force simp: image_iff)
  qed
qed simp

definition owner_only :: "database_place \<Rightarrow> bool" where
  "owner_only p \<longleftrightarrow> dp_file p = Some DATABASE_FILE_MODE
     \<and> (\<forall>(s, m) \<in> set (dp_sidecars p). s \<in> set SIDECARS \<longrightarrow> m = DATABASE_FILE_MODE)"

lemma make_private_Inr: "make_private raises p = (Inr u, q) \<Longrightarrow> owner_only q"
  by (auto simp: make_private_def owner_only_def split: option.splits dest: sidecars_private)

lemma opened_database:
  assumes "open_database os p = (Inr journal_mode, q, h)"
  shows "owner_only q" "os_foreign_keys os = Inr True"
    "h = \<lparr>hd_connection = True, hd_worker = True, hd_closed = False\<rparr>"
  using assms
  by (auto simp: open_database_def connect_database_def Let_def require_foreign_keys_def
      split: option.splits sum.splits prod.splits if_splits dest: make_private_Inr)

definition released :: "handles \<Rightarrow> bool" where
  "released h \<longleftrightarrow> \<not> hd_connection h \<and> \<not> hd_worker h"

lemma refused_database: "open_database os p = (Inl e, q, h) \<Longrightarrow> released h"
  by (auto simp: open_database_def connect_database_def Let_def released_def
      split: option.splits sum.splits prod.splits if_splits)

lemma close_releases: "\<not> hd_closed h \<Longrightarrow> released (snd (close_database None h))"
  by (simp add: close_database_def released_def)

lemma close_twice: "close_database closing (snd (close_database c h)) = (None, snd (close_database c h))"
  by (auto simp: close_database_def split: option.split)

lemma refused_build:
  assumes "build i m = (Inl e, m', h)"
  shows "released h \<longleftrightarrow> isl (fst (open_database (si_opening i) (mc_place m))) \<or> os_close (si_opening i) = None"
proof (cases "open_database (si_opening i) (mc_place m)")
  case (fields r p h0)
  show ?thesis
  proof (cases r)
    case (Inl e')
    then show ?thesis using assms fields refused_database by (auto simp: build_def)
  next
    case (Inr j)
    then have "h0 = \<lparr>hd_connection = True, hd_worker = True, hd_closed = False\<rparr>" using fields opened_database by blast
    then show ?thesis using assms fields Inr
      by (auto simp: build_def close_database_def released_def split: prod.splits sum.splits option.splits)
  qed
qed

lemma built:
  assumes "build i m = (Inr c, m', h)"
  shows "h = \<lparr>hd_connection = True, hd_worker = True, hd_closed = False\<rparr>" "os_foreign_keys (si_opening i) = Inr True"
    "\<exists>p. owner_only p \<and> wire_up i (m\<lparr>mc_place := p\<rparr>) = (Inr c, m')"
proof -
  obtain j p h0 where o: "open_database (si_opening i) (mc_place m) = (Inr j, p, h0)"
    using assms by (auto simp: build_def split: prod.splits sum.splits)
  then have w: "wire_up i (m\<lparr>mc_place := p\<rparr>) = (Inr c, m')" "h = h0"
    using assms by (auto simp: build_def split: prod.splits sum.splits option.splits)
  note o' = opened_database [OF o]
  show "h = \<lparr>hd_connection = True, hd_worker = True, hd_closed = False\<rparr>" "os_foreign_keys (si_opening i) = Inr True"
    using o' w by simp_all
  show "\<exists>p. owner_only p \<and> wire_up i (m\<lparr>mc_place := p\<rparr>) = (Inr c, m')" using o'(1) w(1) by blast
qed

section \<open>What a start has done\<close>

lemma wired:
  assumes "wire_up i m = (Inr c, m')"
  obtains n c1 c2 where "migrate (si_scripts i) (si_now i) (mc_data m) = (Inr n, c1)"
    and "on_connection seed_work c1 = (Inr (), c2)" and "mc_data m' = c2" and "mc_place m' = mc_place m"
    and "new_signer (si_library i) (si_key_io i) (si_umask i) (si_fresh_key i) (si_issuer i) (mc_key m)
        = (Inr (ct_signer c, ct_jwks c), mc_key m')"
    and "load_providers (si_provider_file i) = Inr (ct_providers c)"
    and "service_authenticator (st_service_tokens (si_settings i)) = Inr (ct_service_tokens c)"
  using assms
  by (auto simp: wire_up_def Let_def split: prod.splits sum.splits)

text \<open>Seeding once more changes nothing.\<close>

definition seeded :: "role \<Rightarrow> 'z db_scheme \<Rightarrow> bool" where
  "seeded q d \<longleftrightarrow> list_ex (\<lambda>r. ro_name r = ro_name q) (t_roles d)
     \<and> (\<forall>r \<in> set (t_roles d). ro_name r = ro_name q
          \<longrightarrow> ro_description r = ro_description q \<and> ro_permissions r = ro_permissions q)"

lemma list_ex_ro_name:
  "list_ex (\<lambda>r. ro_name r = n)
     (update_where P (\<lambda>r. r\<lparr>ro_description := x, ro_permissions := y\<rparr>) rs) = list_ex (\<lambda>r. ro_name r = n) rs"
  by (induction rs) (simp_all add: update_where_def)

lemma seeded_upsert: "seeded q (upsert_builtin q d)"
proof (cases "list_ex (\<lambda>r. ro_name r = ro_name q) (t_roles d)")
  case True
  then have "list_ex (\<lambda>r. ro_name r = ro_name q) (t_roles (upsert_builtin q d))"
    by (simp add: upsert_builtin_def list_ex_ro_name)
  moreover have "ro_description r = ro_description q \<and> ro_permissions r = ro_permissions q"
    if "r \<in> set (t_roles (upsert_builtin q d))" "ro_name r = ro_name q" for r
    using that True by (auto simp: upsert_builtin_def update_where_def split: if_splits)
  ultimately show ?thesis by (simp add: seeded_def)
qed (auto simp: seeded_def upsert_builtin_def list_ex_iff)

lemma seeded_keep:
  assumes "seeded q d" and "ro_name r \<noteq> ro_name q"
  shows "seeded q (upsert_builtin r d)"
proof -
  have "list_ex (\<lambda>r. ro_name r = ro_name q) (t_roles (upsert_builtin r d))"
    using assms by (simp add: seeded_def upsert_builtin_def list_ex_ro_name)
  moreover have "ro_description x = ro_description q \<and> ro_permissions x = ro_permissions q"
    if "x \<in> set (t_roles (upsert_builtin r d))" "ro_name x = ro_name q" for x
    using that assms by (auto simp: seeded_def upsert_builtin_def update_where_def split: if_splits)
  ultimately show ?thesis by (simp add: seeded_def)
qed

lemma seeded_same: "seeded q d \<Longrightarrow> upsert_builtin q d = d"
proof -
  assume s: "seeded q d"
  have "update_where (\<lambda>r. ro_name r = ro_name q) (\<lambda>r. r\<lparr>ro_description := ro_description q, ro_permissions := ro_permissions q\<rparr>) (t_roles d)
      = t_roles d"
    unfolding update_where_def
    by (rule map_idI) (use s in \<open>auto simp: seeded_def\<close>)
  with s show ?thesis by (simp add: seeded_def upsert_builtin_def)
qed

lemma builtin_names_of:
  "n \<in> set (map fst BUILTIN_ROLES) \<Longrightarrow> \<exists>r. builtin_role n = Inr r \<and> ro_name r = n"
proof -
  have "list_all (\<lambda>n. case builtin_role n of Inl e \<Rightarrow> False | Inr r \<Rightarrow> ro_name r = n) (map fst BUILTIN_ROLES)"
    by code_simp
  then show "n \<in> set (map fst BUILTIN_ROLES) \<Longrightarrow> \<exists>r. builtin_role n = Inr r \<and> ro_name r = n"
    by (cases "builtin_role n") (fastforce simp: list_all_iff)+
qed

lemma seed_roles_seeded:
  assumes "seed_roles ns d = Inr d'" and "\<forall>n \<in> set ns. \<exists>r. builtin_role n = Inr r \<and> ro_name r = n" and "distinct ns"
  shows "(\<forall>n \<in> set ns. \<forall>r. builtin_role n = Inr r \<longrightarrow> seeded r d')
    \<and> (\<forall>q. seeded q d \<and> ro_name q \<notin> set ns \<longrightarrow> seeded q d')"
  using assms
proof (induction ns arbitrary: d)
  case (Cons n ns)
  obtain r where r: "builtin_role n = Inr r" "ro_name r = n" using Cons.prems(2) by auto
  then have rest: "seed_roles ns (upsert_builtin r d) = Inr d'" using Cons.prems(1) by simp
  note IH = Cons.IH [OF rest]
  have "seeded r d'" using IH Cons.prems(2,3) seeded_upsert [of r d] r by auto
  moreover have "seeded q d'" if "seeded q d" "ro_name q \<notin> set (n # ns)" for q
    using IH Cons.prems(2,3) seeded_keep [OF that(1), of r] r that(2) by auto
  ultimately show ?case using IH Cons.prems(2,3) r by auto
qed simp

lemma seed_roles_again:
  "\<forall>n \<in> set ns. \<forall>r. builtin_role n = Inr r \<longrightarrow> seeded r d \<Longrightarrow> \<forall>n \<in> set ns. \<exists>r. builtin_role n = Inr r
    \<Longrightarrow> seed_roles ns d = Inr d"
  by (induction ns) (auto simp: seeded_same)

lemma seed_twice:
  assumes "seed_builtin_roles d = Inr (u, d')"
  shows "seed_builtin_roles d' = Inr (u, d')"
proof -
  have s: "seed_roles (map fst BUILTIN_ROLES) d = Inr d'"
    using assms by (auto simp: seed_builtin_roles_def split: sum.splits)
  have names: "\<forall>n \<in> set (map fst BUILTIN_ROLES). \<exists>r. builtin_role n = Inr r \<and> ro_name r = n"
    using builtin_names_of by blast
  have "distinct (map fst BUILTIN_ROLES)" by (simp add: builtin_names)
  from seed_roles_seeded [OF s names this] names have "seed_roles (map fst BUILTIN_ROLES) d' = Inr d'"
    by (intro seed_roles_again) blast+
  then show ?thesis by (simp add: seed_builtin_roles_def)
qed

lemma seed_succeeds: "\<exists>d'. seed_builtin_roles d = Inr ((), d')"
proof -
  have "\<exists>d'. seed_roles ns d = Inr d'" if "\<forall>n \<in> set ns. \<exists>r. builtin_role n = Inr r" for ns
    using that by (induction ns arbitrary: d) auto
  moreover have "\<forall>n \<in> set (map fst BUILTIN_ROLES). \<exists>r. builtin_role n = Inr r" using builtin_names_of by blast
  ultimately obtain d' where "seed_roles (map fst BUILTIN_ROLES) d = Inr d'" by blast
  then show ?thesis by (simp add: seed_builtin_roles_def)
qed

end
