(* ===== verification/StartupProperties.thy ===== *)
theory StartupProperties
  imports Boot DelegationSample
begin

text \<open>
  The theorems about how a process comes up, what it leaves when it goes down, and what the next one
  finds.
\<close>

section \<open>What is given back\<close>


definition sample_opening :: opening_answers where
  "sample_opening = \<lparr>os_mkdir = None, os_connect = None,
     os_creates = (\<lambda>p. \<lparr>dp_file = Some 0x1A4, dp_sidecars = [(''-wal'', 0x1A4), (''-shm'', 0x1A4)]\<rparr>),
     os_pragma = (\<lambda>p. Inr (Some ''wal'')), os_foreign_keys = Inr True, os_chmod = (\<lambda>x. None), os_close = None\<rparr>"

text \<open>A library whose keys are texts, written after a mark.\<close>

definition sample_key_library :: "string key_library" where
  "sample_key_library = \<lparr>kl_private_pem = (\<lambda>k. ''PEM '' @ k),
     kl_load_pem = (\<lambda>t. if take 4 t = ''PEM '' then RsaKey (drop 4 t) else NoKey),
     kl_numbers = (\<lambda>k. (length k, 3)), kl_encode = (\<lambda>k. sg_encode sample_signer),
     kl_decode = (\<lambda>k. sg_decode sample_signer),
     kl_sha256_hex = (\<lambda>s. s)\<rparr>"

definition sample_start :: "provider_file \<Rightarrow> string \<Rightarrow> string start_input" where
  "sample_start f k = \<lparr>si_opening = sample_opening, si_settings = default_settings, si_scripts = [(''0001_init.sql'', \<lambda>d. (Inr (), d))],
     si_now = 0, si_monotonic = 0, si_issuer = ''k'', si_library = sample_key_library, si_key_io = (\<lambda>k. None),
     si_umask = 0x012, si_fresh_key = k, si_provider_file = f, si_client_raises = None\<rparr>"

definition sample_machine :: machine where
  "sample_machine = \<lparr>mc_place = \<lparr>dp_file = None, dp_sidecars = []\<rparr>,
     mc_data = \<lparr>cn_committed = \<lparr>sc_schema = empty_db, sc_versions = []\<rparr>, cn_working = None\<rparr>,
     mc_key = \<lparr>kp_dir = None, kp_file = None\<rparr>\<rparr>"


section \<open>Restarts\<close>

text \<open>
  The next start on the key file the previous one left: whatever happened to the database in between,
  with whatever random key, mask and answers of the file system.
\<close>

lemma restarted_signer:
  assumes "reads_what_it_writes (si_library i)" and "build i m = (Inr c, m1, h1)"
    and "mc_key m2 = mc_key m1" and "si_library j = si_library i" and "si_issuer j = si_issuer i"
    and "build j m2 = (Inr d, m3, h3)"
  shows "ct_signer d = ct_signer c" "ct_jwks d = ct_jwks c" "mc_key m3 = mc_key m1"
proof -
  obtain p where p: "wire_up i (m\<lparr>mc_place := p\<rparr>) = (Inr c, m1)" using built(3) [OF assms(2)] by blast
  obtain q where q: "wire_up j (m2\<lparr>mc_place := q\<rparr>) = (Inr d, m3)" using built(3) [OF assms(6)] by blast
  have a: "new_signer (si_library i) (si_key_io i) (si_umask i) (si_fresh_key i) (si_issuer i) (mc_key m)
      = (Inr (ct_signer c, ct_jwks c), mc_key m1)"
    by (rule wired [OF p]) simp
  have b: "new_signer (si_library i) (si_key_io j) (si_umask j) (si_fresh_key j) (si_issuer i) (mc_key m1)
      = (Inr (ct_signer d, ct_jwks d), mc_key m3)"
    by (rule wired [OF q]) (simp add: assms(3-5))
  have "(Inr (ct_signer d, ct_jwks d), mc_key m3) = (Inr (ct_signer c, ct_jwks c) :: key_failure + _, mc_key m1)"
    unfolding b [symmetric] by (rule new_signer_again [OF assms(1) a])
  then show "ct_signer d = ct_signer c" "ct_jwks d = ct_jwks c" "mc_key m3 = mc_key m1" by simp_all
qed

text \<open>C27: Tokens survive restarts: a token a process issued is accepted, from the moment the system's clock
  reaches its issue until exactly its expiry, by every later process on the same key file, which also publishes the same keys, whatever key each start
  would have drawn; and in no moment of the first start, however it ends, can anybody but the owner read
  the key.\<close>

theorem tokens_survive_restarts:
  assumes "reads_what_it_writes (si_library i)" and "\<And>k x. kl_decode (si_library i) k (kl_encode (si_library i) k x) = Some x"
    and "build i m = (Inr c, m1, h1)"
    and "mc_key m2 = mc_key m1" and "si_library j = si_library i" and "si_issuer j = si_issuer i"
    and "build j m2 = (Inr d, m3, h3)"
  shows "verify (ct_signer d) wall later (issue (ct_signer c) now account_id audience ttl) audience =
      (if timedelta_s (int_seconds now) \<le> wall \<and> later < timedelta_s (int_seconds (now + timedelta_s ttl)) then Inr account_id
       else Inl (AuthenticationError BAD_TOKEN))
    \<and> ct_jwks d = ct_jwks c
    \<and> (kp_file (mc_key m) = None \<longrightarrow>
        list_all (\<lambda>t. \<not> exposed t)
          (snd (load_or_create_key (si_library i) (si_key_io i) (si_umask i) (si_fresh_key i) (mc_key m))))"
proof -
  note same = restarted_signer [OF assms(1,3-7)]
  obtain p where p: "wire_up i (m\<lparr>mc_place := p\<rparr>) = (Inr c, m1)" using built(3) [OF assms(3)] by blast
  have n: "new_signer (si_library i) (si_key_io i) (si_umask i) (si_fresh_key i) (si_issuer i) (mc_key m)
      = (Inr (ct_signer c, ct_jwks c), mc_key m1)"
    by (rule wired [OF p]) simp
  from new_signer_Inr [OF n] obtain k where "ct_signer c = signer_of (si_library i) (si_issuer i) k" ..
  then have "signs (ct_signer c)" using assms(2) by (simp add: signs_def signer_of_def)
  from verify_issued [OF this] have
    "verify (ct_signer d) wall later (issue (ct_signer c) now account_id audience ttl) audience =
      (if timedelta_s (int_seconds now) \<le> wall \<and> later < timedelta_s (int_seconds (now + timedelta_s ttl)) then Inr account_id
       else Inl (AuthenticationError BAD_TOKEN))"
    by (simp add: verify_def same(1))
  moreover have "kp_file (mc_key m) = None \<longrightarrow>
      list_all (\<lambda>t. \<not> exposed t) (snd (load_or_create_key (si_library i) (si_key_io i) (si_umask i) (si_fresh_key i) (mc_key m)))"
    unfolding list_all_iff by (intro impI never_exposed)
  ultimately show ?thesis using same(2) by blast
qed

lemma sample_library_reads: "reads_what_it_writes sample_key_library"
  by (simp add: reads_what_it_writes_def sample_key_library_def)

lemma sample_version: "version_of ''0001_init.sql'' = Some 1"
  by code_simp

lemma sample_migrates:
  assumes "cn_working (mc_data m) = None"
  shows "\<exists>n c. migrate (si_scripts (sample_start f k)) (si_now (sample_start f k)) (mc_data m) = (Inr n, c) \<and> cn_working c = None"
proof -
  let ?f = "si_scripts (sample_start f k)"
  have d: "discover ?f = Inr [\<lparr>mi_name = ''0001_init.sql'', mi_version = 1, mi_script = \<lambda>d. (Inr (), d)\<rparr>]"
    by (simp add: sample_start_def discover_def sample_version)
  have o: "\<exists>y. outcomes (pending [\<lparr>mi_name = ''0001_init.sql'', mi_version = 1, mi_script = \<lambda>d. (Inr (), d)\<rparr>] (mc_data m))
      (sc_schema (cn_committed (mc_data m))) = Some y"
    by (simp add: pending_def outcome_def)
  then obtain y where "outcomes (pending [\<lparr>mi_name = ''0001_init.sql'', mi_version = 1, mi_script = \<lambda>d. (Inr (), d)\<rparr>] (mc_data m))
      (sc_schema (cn_committed (mc_data m))) = Some y" by blast
  from migrate_succeeds [OF assms d _ this, where now = "si_now (sample_start f k)"] obtain c n where
    c: "migrate ?f (si_now (sample_start f k)) (mc_data m) = (Inr n, c)" by auto
  with migrate_applies [OF assms c d] show ?thesis by blast
qed

lemma sample_opens: "\<exists>j q h. open_database sample_opening p = (Inr j, q, h)"
  by (simp add: open_database_def connect_database_def sample_opening_def CONNECT_PRAGMAS_def require_foreign_keys_def
      make_private_def SIDECARS_def starts_with_def Let_def)

lemma sample_seeds:
  assumes "cn_working c = None"
  shows "\<exists>c2. on_connection seed_work c = (Inr (), c2) \<and> cn_working c2 = None"
proof -
  obtain d where "seed_builtin_roles (sc_schema (cn_committed c)) = Inr ((), d)" using seed_succeeds by blast
  then show ?thesis by (simp add: on_connection_def assms seed_work_def)
qed

lemma sample_key_found:
  assumes "kp_file s = None \<or> (\<exists>b t. kp_file s = Some (b, ''PEM '' @ t))"
  shows "\<exists>g s'. new_signer sample_key_library (\<lambda>k. None) umask fresh issuer s = (Inr g, s')
    \<and> (\<exists>b t. kp_file s' = Some (b, ''PEM '' @ t))"
  using assms
proof
  assume "kp_file s = None"
  then show ?thesis
    by (simp add: new_signer_def load_or_create_key_def KEY_STEPS_def make_dir_def chmod_dir_def open_file_def write_file_def
        chmod_file_def sample_key_library_def split: option.split)
next
  assume "\<exists>b t. kp_file s = Some (b, ''PEM '' @ t)"
  then show ?thesis
    by (auto simp: new_signer_def load_or_create_key_def load_key_def sample_key_library_def)
qed

lemma sample_build:
  assumes "cn_working (mc_data m) = None" and "kp_file (mc_key m) = None \<or> (\<exists>b t. kp_file (mc_key m) = Some (b, ''PEM '' @ t))"
  shows "\<exists>c m1 h1. build (sample_start NoPath k) m = (Inr c, m1, h1) \<and> cn_working (mc_data m1) = None
    \<and> (\<exists>b t. kp_file (mc_key m1) = Some (b, ''PEM '' @ t))"
proof -
  let ?i = "sample_start NoPath k"
  obtain j q h where o: "open_database (si_opening ?i) (mc_place m) = (Inr j, q, h)"
    using sample_opens [of "mc_place m"] by (simp add: sample_start_def) blast
  obtain n c1 where mi: "migrate (si_scripts ?i) (si_now ?i) (mc_data m) = (Inr n, c1)" "cn_working c1 = None"
    using sample_migrates [OF assms(1)] by blast
  obtain c2 where se: "on_connection seed_work c1 = (Inr (), c2)" "cn_working c2 = None" using sample_seeds [OF mi(2)] by blast
  obtain g s' where ke: "new_signer (si_library ?i) (si_key_io ?i) (si_umask ?i) (si_fresh_key ?i) (si_issuer ?i) (mc_key m) = (Inr g, s')"
    "\<exists>b t. kp_file s' = Some (b, ''PEM '' @ t)"
    using sample_key_found [OF assms(2), where umask = "0x012" and fresh = k and issuer = "''k''"] by (simp add: sample_start_def) blast
  have pr: "build_preference_source (si_client_raises ?i) (si_settings ?i) = Inr DeploymentPreferences"
    by (simp add: sample_start_def build_preference_source_def settings_api_def default_settings_def)
  have lo: "load_providers (si_provider_file ?i) = Inr []" by (simp add: sample_start_def load_providers_def)
  have au: "service_authenticator (st_service_tokens (si_settings ?i)) = Inr []"
    by (simp add: sample_start_def default_settings_def service_authenticator_def)
  obtain c where "wire_up ?i (m\<lparr>mc_place := q\<rparr>) = (Inr c, m\<lparr>mc_place := q, mc_data := c2, mc_key := s'\<rparr>)"
    by (cases g) (simp add: wire_up_def mi se ke pr lo au Let_def)
  then show ?thesis using o se(2) ke(2) by (simp add: build_def)
qed

theorem tokens_survive_restarts_witness:
  "\<exists>c m1 h1 d m2 h2. build (sample_start NoPath ''first'') sample_machine = (Inr c, m1, h1)
    \<and> build (sample_start NoPath ''second'') m1 = (Inr d, m2, h2)
    \<and> verify (ct_signer d) 0 59000000 (issue (ct_signer c) 0 ''m'' ''mail'' 60) ''mail'' = Inr ''m''"
proof -
  obtain c m1 h1 where a: "build (sample_start NoPath ''first'') sample_machine = (Inr c, m1, h1)" "cn_working (mc_data m1) = None"
    "\<exists>b t. kp_file (mc_key m1) = Some (b, ''PEM '' @ t)"
    using sample_build [of sample_machine "''first''"] by (simp add: sample_machine_def) blast
  obtain d m2 h2 where b: "build (sample_start NoPath ''second'') m1 = (Inr d, m2, h2)"
    using sample_build [OF a(2)] a(3) by blast
  have "reads_what_it_writes (si_library (sample_start NoPath ''first''))"
    by (simp add: sample_start_def sample_library_reads)
  moreover have "kl_decode (si_library (sample_start NoPath ''first'')) k (kl_encode (si_library (sample_start NoPath ''first'')) k x) = Some x" for k x
    using sample_signs by (simp add: sample_start_def sample_key_library_def signs_def)
  ultimately have "verify (ct_signer d) 0 59000000 (issue (ct_signer c) 0 ''m'' ''mail'' 60) ''mail'' = Inr ''m''"
    by (subst conjunct1 [OF tokens_survive_restarts [OF _ _ a(1) refl _ _ b]])
      (simp_all add: sample_start_def int_seconds_def timedelta_s_def)
  with a(1) b show ?thesis by blast
qed

section \<open>A start that answers\<close>

text \<open>What holds once a process serves: foreign keys came on, the files are the owner's alone, every
  migration is applied, the built-in roles are what this version says, and no two services share a token.\<close>

lemma started_process:
  assumes "build i m = (Inr c, m', h)" and "cn_working (mc_data m) = None" and "discover (si_scripts i) = Inr ms"
  shows "os_foreign_keys (si_opening i) = Inr True" and "owner_only (mc_place m')"
    and "pending ms (mc_data m') = []"
    and "\<And>n r. n \<in> set (map fst BUILTIN_ROLES) \<Longrightarrow> builtin_role n = Inr r \<Longrightarrow> seeded r (sc_schema (cn_committed (mc_data m')))"
    and "distinct (map snd (ct_service_tokens c))"
proof -
  note b = built [OF assms(1)]
  show "os_foreign_keys (si_opening i) = Inr True" by (rule b(2))
  obtain p where p: "owner_only p" "wire_up i (m\<lparr>mc_place := p\<rparr>) = (Inr c, m')" using b(3) by blast
  obtain n c1 c2 where w: "migrate (si_scripts i) (si_now i) (mc_data m) = (Inr n, c1)"
    "on_connection seed_work c1 = (Inr (), c2)" "mc_data m' = c2" "mc_place m' = p"
    "service_authenticator (st_service_tokens (si_settings i)) = Inr (ct_service_tokens c)"
    by (rule wired [OF p(2)], rule that) simp_all
  show "owner_only (mc_place m')" using p(1) w(4) by simp
  note mi = migrate_applies [OF assms(2) w(1) assms(3)]
  obtain d where d: "seed_builtin_roles (sc_schema (cn_committed c1)) = Inr ((), d)" using seed_succeeds by blast
  then have c2: "c2 = c1\<lparr>cn_committed := (cn_committed c1)\<lparr>sc_schema := d\<rparr>\<rparr>"
    using w(2) mi by (simp add: on_connection_def seed_work_def)
  show "pending ms (mc_data m') = []"
    unfolding pending_none using mi by (simp add: w(3) c2 applied_versions_def)
  have s: "seed_roles (map fst BUILTIN_ROLES) (sc_schema (cn_committed c1)) = Inr d"
    using d by (auto simp: seed_builtin_roles_def split: sum.splits)
  have a: "\<forall>n \<in> set (map fst BUILTIN_ROLES). \<exists>r. builtin_role n = Inr r \<and> ro_name r = n" using builtin_names_of by blast
  have b: "distinct (map fst BUILTIN_ROLES)" by (simp add: builtin_names)
  show "seeded r (sc_schema (cn_committed (mc_data m')))"
    if "n \<in> set (map fst BUILTIN_ROLES)" "builtin_role n = Inr r" for n r
    using conjunct1 [OF seed_roles_seeded [OF s a b]] that unfolding w(3) c2 by force
  show "distinct (map snd (ct_service_tokens c))"
    using w(5) by (auto simp: service_authenticator_def card_distinct split: sum.splits if_splits)
qed

end
