(* ===== verification/TestDouble.thy ===== *)
theory TestDouble
  imports EndToEnd TokenVerifier Mail
begin

text \<open>
  \<^verbatim>\<open>src/clients/python/keyring_client/testing.py\<close>: the one fake of keyring that the tests of every
  consuming service share. Keys and the JWT library are arguments; the tokens that are forged by
  hand and the PEM encodings are left out.
\<close>

section \<open>Clock and tokens\<close>

record fake_clock =
  fc_start :: int
  fc_now :: int

definition fake_now :: "fake_clock \<Rightarrow> int" where "fake_now c = fc_now c"

definition fake_monotonic :: "fake_clock \<Rightarrow> rat" where
  "fake_monotonic c = of_int (fc_now c - fc_start c) / 1000000"

definition fake_advance :: "int \<Rightarrow> fake_clock \<Rightarrow> fake_clock" where
  "fake_advance delta c = c\<lparr>fc_now := fc_now c + delta\<rparr>"

record 'k jwt_library =
  jl_encode :: "'k \<Rightarrow> string \<Rightarrow> payload \<Rightarrow> string" \<comment> \<open>key, key id, claims\<close>
  jl_header :: "string \<Rightarrow> payload option"
  jl_decode :: "'k \<Rightarrow> string \<Rightarrow> string \<Rightarrow> string \<Rightarrow> payload option" \<comment> \<open>key, token, audience, issuer; no clock\<close>
  jl_numbers :: "'k \<Rightarrow> nat \<times> nat"
  jl_sha256 :: "string \<Rightarrow> string"

definition fake_thumbprint :: "'k jwt_library \<Rightarrow> 'k \<Rightarrow> string" where
  "fake_thumbprint l key = (case jl_numbers l key of (n, e) \<Rightarrow> take 16 (jl_sha256 l (str_nat n @ '':'' @ str_nat e)))"

definition fake_jwks :: "'k jwt_library \<Rightarrow> 'k list \<Rightarrow> document" where
  "fake_jwks l keys = DObject [(''keys'', DArray (map (\<lambda>key. case jl_numbers l key of (n, e) \<Rightarrow>
     DObject [(''kty'', DText ''RSA''), (''use'', DText ''sig''), (''alg'', DText ''RS256''),
       (''kid'', DText (fake_thumbprint l key)), (''n'', DText (b64url n)), (''e'', DText (b64url e))]) keys))]"

definition fake_payload :: "string \<Rightarrow> string \<Rightarrow> string \<Rightarrow> int \<Rightarrow> int \<Rightarrow> payload" where
  "fake_payload account_id audience issuer issued_at lifetime =
     [(''iss'', DText issuer), (''sub'', DText account_id), (''aud'', DText audience),
      (''iat'', DNumber (of_int (int_seconds issued_at))), (''exp'', DNumber (of_int (int_seconds (issued_at + lifetime))))]"

text \<open>\<open>payload[key] = value\<close>.\<close>

definition with_claim :: "string \<times> document \<Rightarrow> payload \<Rightarrow> payload" where
  "with_claim c p =
     (if fst c \<in> fst ` set p then map (\<lambda>(k, v). (k, if k = fst c then snd c else v)) p else p @ [c])"

text \<open>\<open>None\<close>: the claim to omit is not one, and \<open>pop\<close> raises.\<close>

definition mint ::
  "'k jwt_library \<Rightarrow> string \<Rightarrow> string \<Rightarrow> string \<Rightarrow> int \<Rightarrow> int \<Rightarrow> 'k \<Rightarrow> string option \<Rightarrow> string option \<Rightarrow> payload \<Rightarrow> string option" where
  "mint l account_id audience issuer issued_at lifetime key kid omit claims =
     (let p = fake_payload account_id audience issuer issued_at lifetime;
          header = (case kid of None \<Rightarrow> fake_thumbprint l key | Some k \<Rightarrow> if k = [] then fake_thumbprint l key else k)
      in case omit of
           None \<Rightarrow> Some (jl_encode l key header (fold with_claim claims p))
         | Some k \<Rightarrow> if k \<in> fst ` set p
             then Some (jl_encode l key header (fold with_claim claims (filter (\<lambda>c. fst c \<noteq> k) p))) else None)"

section \<open>Paths\<close>

text \<open>\<open>urllib.parse.unquote\<close>: \<open>None\<close> is a text with characters beyond those modelled.\<close>

definition hex_digit :: "char \<Rightarrow> nat option" where
  "hex_digit c = (let n = code_of c in
     if 48 \<le> n \<and> n \<le> 57 then Some (n - 48) else if 65 \<le> n \<and> n \<le> 70 then Some (n - 55)
     else if 97 \<le> n \<and> n \<le> 102 then Some (n - 87) else None)"

fun percent_bytes :: "string \<Rightarrow> nat list" where
  "percent_bytes [] = []"
| "percent_bytes (c # cs) =
     (if c = CHR ''%''
      then (case cs of
              h # l # rest \<Rightarrow>
                (case (hex_digit h, hex_digit l) of
                   (Some a, Some b) \<Rightarrow> (a * 16 + b) # percent_bytes rest
                 | _ \<Rightarrow> code_of c # percent_bytes cs)
            | _ \<Rightarrow> code_of c # percent_bytes cs)
      else code_of c # percent_bytes cs)"

fun decode_utf8 :: "nat list \<Rightarrow> string option" where
  "decode_utf8 [] = Some []"
| "decode_utf8 (n # ns) =
     (if n < 128 then map_option ((#) (char_of n)) (decode_utf8 ns)
      else case ns of
        [] \<Rightarrow> None
      | m # ms \<Rightarrow>
          if (n = 194 \<or> n = 195) \<and> 128 \<le> m \<and> m < 192
          then map_option ((#) (char_of ((n - 192) * 64 + (m - 128)))) (decode_utf8 ms) else None)"

definition url_unquote :: "string \<Rightarrow> string option" where
  "url_unquote s = decode_utf8 (percent_bytes s)"

section \<open>The fake\<close>

record 'k fake_keyring =
  fk_keys :: "'k list"
  fk_issuer :: string
  fk_service_tokens :: "(string \<times> string) list"
  fk_fetches :: nat
  fk_status :: nat
  fk_body :: "document option"
  fk_unreachable :: bool \<comment> \<open>the error it was told to raise, one of the transport\<close>
  fk_sealed :: bool
  fk_internal_calls :: "internal_request list"
  fk_credentials :: "string \<times> string \<times> string \<rightharpoonup> document"
  fk_form_secrets :: "string \<times> string \<times> string \<rightharpoonup> (string \<times> string) list"

text \<open>Without keys the fake has the one of the module, without a table the one default service.\<close>

definition new_fake_keyring :: "'k \<Rightarrow> string \<times> string \<Rightarrow> 'k list \<Rightarrow> string \<Rightarrow> (string \<times> string) list option \<Rightarrow> 'k fake_keyring" where
  "new_fake_keyring signing_key default_service keys issuer service_tokens =
     \<lparr>fk_keys = (if keys = [] then [signing_key] else keys), fk_issuer = issuer,
      fk_service_tokens = (case service_tokens of None \<Rightarrow> [default_service] | Some ts \<Rightarrow> ts),
      fk_fetches = 0, fk_status = 200, fk_body = None, fk_unreachable = False, fk_sealed = False,
      fk_internal_calls = [], fk_credentials = (\<lambda>k. None), fk_form_secrets = (\<lambda>k. None)\<rparr>"

definition SEALED_DETAIL :: string where "SEALED_DETAIL = ''the vault is sealed; set KEYRING_MASTER_KEY''"

definition fake_rotate :: "'k \<Rightarrow> 'k fake_keyring \<Rightarrow> 'k fake_keyring" where
  "fake_rotate key f = f\<lparr>fk_keys := [key]\<rparr>"

definition fake_mint :: "'k jwt_library \<Rightarrow> string \<Rightarrow> string \<Rightarrow> int \<Rightarrow> int \<Rightarrow> 'k fake_keyring \<Rightarrow> string option" where
  "fake_mint l account_id audience epoch decade f =
     mint l account_id audience (fk_issuer f) epoch decade (hd (fk_keys f)) None None []"

definition fake_connect ::
  "string \<Rightarrow> string \<Rightarrow> string \<Rightarrow> (string \<times> string) list \<Rightarrow> (string \<times> string) list \<Rightarrow> datetime option
    \<Rightarrow> 'k fake_keyring \<Rightarrow> 'k fake_keyring" where
  "fake_connect account_id profile service headers query_params expires_at f =
     f\<lparr>fk_credentials := (fk_credentials f)((account_id, profile, service) \<mapsto>
        DObject [(''service'', DText service), (''headers'', text_object headers), (''query_params'', text_object query_params),
          (''expires_at'', case expires_at of None \<Rightarrow> DNull | Some d \<Rightarrow> DText (iso_text d @ ''+00:00''))])\<rparr>"

definition fake_connect_form ::
  "string \<Rightarrow> string \<Rightarrow> string \<Rightarrow> (string \<times> string) list \<Rightarrow> 'k fake_keyring \<Rightarrow> 'k fake_keyring" where
  "fake_connect_form account_id profile service typed f =
     f\<lparr>fk_form_secrets := (fk_form_secrets f)((account_id, profile, service) \<mapsto> typed)\<rparr>"

definition fake_problem :: "nat \<Rightarrow> string \<Rightarrow> http_outcome" where
  "fake_problem code detail =
     Response code (Some (DObject [(''type'', DText ''about:blank''), (''status'', DNumber (of_nat code)), (''detail'', DText detail)]))"

definition serve_jwks :: "'k jwt_library \<Rightarrow> 'k fake_keyring \<Rightarrow> http_outcome \<times> 'k fake_keyring" where
  "serve_jwks l f =
     (let f' = f\<lparr>fk_fetches := fk_fetches f + 1\<rparr> in
      if fk_unreachable f then (HttpError, f')
      else (Response (fk_status f) (Some (case fk_body f of Some d \<Rightarrow> d | None \<Rightarrow> fake_jwks l (fk_keys f))), f'))"

definition fake_calling_service :: "'k fake_keyring \<Rightarrow> string option \<Rightarrow> string option" where
  "fake_calling_service f authorization =
     (let h = (case authorization of None \<Rightarrow> [] | Some a \<Rightarrow> a);
          candidate = (if take 7 h = ''Bearer '' then drop 7 h else h)
      in fst (compare_all candidate (fk_service_tokens f) (None, 0)))"

definition fake_account_for :: "'k jwt_library \<Rightarrow> 'k fake_keyring \<Rightarrow> string option \<Rightarrow> string \<Rightarrow> document option" where
  "fake_account_for l f user_token audience =
     (let token = (case user_token of None \<Rightarrow> [] | Some t \<Rightarrow> t);
          published = map_of (rev (map (\<lambda>key. (fake_thumbprint l key, key)) (fk_keys f)))
      in case jl_header l token of
           None \<Rightarrow> None
         | Some header \<Rightarrow>
             (case map_of header ''kid'' of
                Some (DText kid) \<Rightarrow>
                  (case published kid of
                     None \<Rightarrow> None
                   | Some key \<Rightarrow>
                       (case jl_decode l key token audience (fk_issuer f) of
                          None \<Rightarrow> None
                        | Some claims \<Rightarrow> map_of claims ''sub''))
              | _ \<Rightarrow> None))"

definition serve_fake_internal ::
  "'k jwt_library \<Rightarrow> internal_request \<Rightarrow> string \<Rightarrow> 'k fake_keyring \<Rightarrow> http_outcome \<times> 'k fake_keyring" where
  "serve_fake_internal l rq path f =
     (let f' = f\<lparr>fk_internal_calls := fk_internal_calls f @ [rq]\<rparr>;
          segments = split_on (CHR ''/'') path
      in if fk_unreachable f then (HttpError, f')
         else if length segments \<noteq> 6 then (fake_problem 404 ''not found'', f')
         else
           (let kind = url_unquote (segments ! 3); profile = url_unquote (segments ! 4); service = url_unquote (segments ! 5);
                account = (case fake_calling_service f (iq_authorization rq) of
                   None \<Rightarrow> None | Some caller \<Rightarrow> fake_account_for l f (iq_user_token rq) caller);
                answer =
                  (case account of
                     None \<Rightarrow> fake_problem 401 ''the user token was not accepted''
                   | Some DNull \<Rightarrow> fake_problem 401 ''the user token was not accepted''
                   | Some subject \<Rightarrow>
                       if fk_sealed f then fake_problem 503 SEALED_DETAIL
                       else (case (subject, profile, service) of
                          (DText a, Some p, Some s) \<Rightarrow>
                            (case (if kind = Some ''credentials'' then fk_credentials f (a, p, s) else None) of
                               Some d \<Rightarrow> Response 200 (Some d)
                             | None \<Rightarrow>
                                 (case (if kind = Some ''form-secrets'' then fk_form_secrets f (a, p, s) else None) of
                                    Some typed \<Rightarrow> Response 200 (Some (form_document s typed))
                                  | None \<Rightarrow> fake_problem 404 ''no such profile''))
                        | _ \<Rightarrow> fake_problem 404 ''no such profile''))
            in (answer, f')))"

definition JWKS_PATH :: string where "JWKS_PATH = ''/.well-known/jwks.json''"

definition begins :: "string \<Rightarrow> string \<Rightarrow> bool" where "begins pre s \<longleftrightarrow> take (length pre) s = pre"

definition fake_handle :: "'k jwt_library \<Rightarrow> internal_request \<Rightarrow> 'k fake_keyring \<Rightarrow> http_outcome \<times> 'k fake_keyring" where
  "fake_handle l rq f =
     (let path = takeWhile (\<lambda>c. c \<noteq> CHR ''?'') (iq_path rq) in
      if path = JWKS_PATH then serve_jwks l f
      else if begins (CREDENTIALS_PATH @ ''/'') path \<or> begins (FORM_SECRETS_PATH @ ''/'') path
      then serve_fake_internal l rq path f
      else (fake_problem 404 ''not found'', f))"

section \<open>The path comes back\<close>

lemma split_internal_path:
  assumes "base \<in> {CREDENTIALS_PATH, FORM_SECRETS_PATH}"
  shows "split_on (CHR ''/'') (internal_path base p s) =
    [[], ''v1'', ''internal'', if base = CREDENTIALS_PATH then ''credentials'' else ''form-secrets'', url_quote p, url_quote s]"
proof -
  have tail: "split_on (CHR ''/'') (url_quote p @ CHR ''/'' # url_quote s) = [url_quote p, url_quote s]"
    by (simp add: split_on_step split_on_free url_quote_no_slash)
  have "FORM_SECRETS_PATH \<noteq> CREDENTIALS_PATH" by (simp add: FORM_SECRETS_PATH_def CREDENTIALS_PATH_def)
  with assms tail show ?thesis
    by (auto simp: internal_path_def CREDENTIALS_PATH_def FORM_SECRETS_PATH_def)
qed

lemma no_query: "base \<in> {CREDENTIALS_PATH, FORM_SECRETS_PATH} \<Longrightarrow> CHR ''?'' \<notin> set (internal_path base p s)"
proof -
  assume b: "base \<in> {CREDENTIALS_PATH, FORM_SECRETS_PATH}"
  have "CHR ''?'' \<notin> set (url_quote t)" for t
    using quoted_chars [of "CHR ''?''" t] by (auto simp: is_unreserved_def code_of_def)
  with b show ?thesis by (auto simp: internal_path_def CREDENTIALS_PATH_def FORM_SECRETS_PATH_def)
qed

lemma hex_digit_unhex: "unhex c = Some n \<Longrightarrow> hex_digit c = Some n"
  by (auto simp: unhex_def hex_digit_def Let_def split: if_splits)

lemma percent_bytes_unquote: "unquote t = Some bs \<Longrightarrow> percent_bytes t = bs"
proof (induction t arbitrary: bs rule: unquote.induct)
  case (2 c cs)
  show ?case
  proof (cases "c = CHR ''%''")
    case True
    obtain h l rest a b bs' where parts: "cs = h # l # rest" "unhex h = Some a" "unhex l = Some b"
      "unquote rest = Some bs'" "bs = (a * 16 + b) # bs'"
      using "2.prems" True by (simp split: list.splits option.splits) blast
    have "percent_bytes rest = bs'"
      by (rule "2.IH"(1) [OF True parts(1) refl refl parts(2,3,4)])
    with parts True show ?thesis by (simp add: hex_digit_unhex)
  next
    case False
    with 2 show ?thesis by auto
  qed
qed simp

lemma decode_utf8_utf8: "decode_utf8 (utf8 c @ ns) = map_option ((#) c) (decode_utf8 ns)"
proof -
  let ?n = "code_of c"
  have n: "?n < 256" by (simp add: code_of_def nat_of_char_less_256)
  have c: "char_of ?n = c" by (simp add: code_of_def)
  show ?thesis
  proof (cases "?n < 128")
    case False
    then have d: "?n div 64 = 2 \<or> ?n div 64 = 3" using n by auto
    then have "(192 + ?n div 64 - 192) * 64 + (128 + ?n mod 64 - 128) = ?n"
      using div_mult_mod_eq [of ?n 64] by simp
    with d False c show ?thesis by (auto simp: utf8_def Let_def)
  qed (simp add: utf8_def c)
qed

lemma decode_utf8_text: "decode_utf8 (concat (map utf8 s)) = Some s"
  by (induction s) (simp_all add: decode_utf8_utf8)

lemma url_unquote_quote: "url_unquote (url_quote s) = Some s"
  by (simp add: url_unquote_def percent_bytes_unquote [OF unquote_quote] decode_utf8_text)

section \<open>What a test gets\<close>

text \<open>
  What is relied on: the header of a token that was made names its key, and decoding under the
  key that signed it, for its own audience and issuer, gives the claims back.
\<close>

definition library_ok :: "'k jwt_library \<Rightarrow> bool" where
  "library_ok l \<longleftrightarrow> (\<forall>key kid a aud iss iat lifetime.
     let t = jl_encode l key kid (fake_payload a aud iss iat lifetime) in
       (\<exists>header. jl_header l t = Some header \<and> map_of header ''kid'' = Some (DText kid))
       \<and> jl_decode l key t aud iss = Some (fake_payload a aud iss iat lifetime))"

definition delivers :: "(string \<Rightarrow> string) \<Rightarrow> bool" where
  "delivers transport \<longleftrightarrow> (\<forall>base p s. base \<in> {CREDENTIALS_PATH, FORM_SECRETS_PATH} \<and> p \<notin> {[], ''.'', ''..''} \<and> s \<notin> {[], ''.'', ''..''}
     \<longrightarrow> transport (internal_path base p s) = internal_path base p s)"

definition ask_fake ::
  "'k jwt_library \<Rightarrow> (string \<Rightarrow> string) \<Rightarrow> iso_reader \<Rightarrow> string \<Rightarrow> string \<Rightarrow> string \<Rightarrow> string \<Rightarrow> 'k fake_keyring
    \<Rightarrow> client_error + client_credential" where
  "ask_fake l transport reader service_token user_token profile service f =
     (let rq = client_request service_token CREDENTIALS_PATH user_token profile service in
      client_resolve_credential reader service (fst (fake_handle l (rq\<lparr>iq_path := transport (iq_path rq)\<rparr>) f)))"

lemma fake_finds_account:
  assumes "library_ok l" and "fk_keys f = keys @ [key]"
    and "mint l a aud (fk_issuer f) iat lifetime key None None [] = Some t"
  shows "fake_account_for l f (Some t) aud = Some (DText a)"
proof -
  have t: "t = jl_encode l key (fake_thumbprint l key) (fake_payload a aud (fk_issuer f) iat lifetime)"
    using assms(3) by (simp add: mint_def)
  obtain header where h: "jl_header l t = Some header" "map_of header ''kid'' = Some (DText (fake_thumbprint l key))"
    "jl_decode l key t aud (fk_issuer f) = Some (fake_payload a aud (fk_issuer f) iat lifetime)"
    using assms(1) unfolding library_ok_def Let_def t by meson
  then show ?thesis by (simp add: fake_account_for_def assms(2) fake_payload_def)
qed

lemma internal_path_served:
  assumes "base \<in> {CREDENTIALS_PATH, FORM_SECRETS_PATH}" and "iq_path rq = internal_path base p s"
  shows "fake_handle l rq f = serve_fake_internal l rq (internal_path base p s) f"
proof -
  have "takeWhile (\<lambda>c. c \<noteq> CHR ''?'') (internal_path base p s) = internal_path base p s"
    unfolding takeWhile_eq_all_conv using no_query [OF assms(1)] by blast
  moreover have "internal_path base p s \<noteq> JWKS_PATH"
    using assms(1) by (auto simp: internal_path_def CREDENTIALS_PATH_def FORM_SECRETS_PATH_def JWKS_PATH_def)
  moreover have "begins (base @ ''/'') (internal_path base p s)" by (simp add: begins_def internal_path_def)
  then have "begins (CREDENTIALS_PATH @ ''/'') (internal_path base p s) \<or> begins (FORM_SECRETS_PATH @ ''/'') (internal_path base p s)"
    using assms(1) by (elim insertE emptyE) simp_all
  ultimately show ?thesis unfolding fake_handle_def assms(2) Let_def by (simp only: if_False if_True)
qed

text \<open>What was connected is what the client gets from the fake, whatever the names are.\<close>

lemma connected_is_served:
  assumes "library_ok l" and "delivers transport" and "reads_iso reader"
    and "fk_keys f = keys @ [key]" and "\<not> fk_unreachable f" and "\<not> fk_sealed f"
    and "distinct (map snd (fk_service_tokens f))" and "(caller, secret) \<in> set (fk_service_tokens f)"
    and "mint l a caller (fk_issuer f) iat lifetime key None None [] = Some token"
    and "p \<notin> {[], ''.'', ''..''}" and "s \<notin> {[], ''.'', ''..''}"
    and "\<And>d. expires_at = Some d \<Longrightarrow> valid d \<and> dt_aware d"
  shows "ask_fake l transport reader secret token p s (fake_connect a p s headers params expires_at f) =
    Inr \<lparr>cc_service = s, cc_headers = headers, cc_query_params = params, cc_expires_at = map_option instant_of expires_at\<rparr>"
proof -
  let ?f = "fake_connect a p s headers params expires_at f"
  let ?rq = "client_request secret CREDENTIALS_PATH token p s"
  have path: "transport (iq_path ?rq) = internal_path CREDENTIALS_PATH p s"
    using assms(2,10,11) by (simp add: client_request_def delivers_def)
  have caller: "fake_calling_service ?f (iq_authorization ?rq) = Some caller"
    using compare_all_found [OF assms(7,8)] by (simp add: fake_calling_service_def client_request_def fake_connect_def)
  have account: "fake_account_for l ?f (iq_user_token ?rq) caller = Some (DText a)"
    using fake_finds_account [OF assms(1), of ?f keys key a caller iat lifetime token] assms(4,9)
    by (simp add: client_request_def fake_connect_def)
  have segments: "split_on (CHR ''/'') (internal_path CREDENTIALS_PATH p s) = [[], ''v1'', ''internal'', ''credentials'', url_quote p, url_quote s]"
    using split_internal_path [of CREDENTIALS_PATH p s] by simp
  have kind: "url_unquote ''credentials'' = Some ''credentials''" by code_simp
  let ?d = "case expires_at of None \<Rightarrow> DNull | Some d \<Rightarrow> DText (iso_text d @ ''+00:00'')"
  have "fst (fake_handle l (?rq\<lparr>iq_path := transport (iq_path ?rq)\<rparr>) ?f) =
      Response 200 (Some (DObject [(''service'', DText s), (''headers'', text_object headers), (''query_params'', text_object params),
          (''expires_at'', ?d)]))"
    using caller account assms(5,6)
    by (simp add: internal_path_served [of CREDENTIALS_PATH _ p s] path serve_fake_internal_def segments kind url_unquote_quote
        Let_def numeral_eq_Suc) (simp add: fake_connect_def)
  moreover have "client_moment reader (Some ?d) = map_option instant_of expires_at"
  proof (cases expires_at)
    case (Some d)
    then have d: "valid d" "dt_aware d" using assms(12) by auto
    have "CHR ''Z'' \<notin> set (iso_text d @ ''+00:00'')" by (simp add: iso_text_not_Z)
    from with_offset_unchanged [OF this] d assms(3) Some show ?thesis by (simp add: client_moment_def reads_iso_def)
  qed (simp add: client_moment_def)
  ultimately show ?thesis
    by (simp add: ask_fake_def Let_def client_resolve_credential_def classify_def text_object_def string_map_def texts_of)
qed

text \<open>A token for another service, or of a key that is not published, is refused as keyring refuses it.\<close>

lemma unpublished_key_refused:
  assumes "jl_header l token = Some header" and "map_of header ''kid'' = Some (DText kid)"
    and "kid \<notin> fake_thumbprint l ` set (fk_keys f)"
  shows "fake_account_for l f (Some token) audience = None"
proof -
  have "map_of (rev (map (\<lambda>key. (fake_thumbprint l key, key)) (fk_keys f))) kid = None"
    using assms(3) by (auto simp: map_of_eq_None_iff image_image)
  with assms(1,2) show ?thesis by (simp add: fake_account_for_def)
qed

end
