(* ===== verification/Smoke.thy ===== *)
theory Smoke
  imports Wire Application
begin

text \<open>
  \<^verbatim>\<open>src/scripts/smoke.py\<close>: the check of a running deployment, as the sequence of requests it makes and
  what it expects of each answer, run against the modelled service. The script raises \<open>KeyError\<close> when
  an answer lacks what it reads. What the HTTP library sends and the framework makes of a body and a
  query is written as the service receives it.
\<close>

section \<open>The script and its deployment\<close>

text \<open>The process as it is when it serves the n-th request: its clock and what it draws.\<close>

record 'z deployment =
  dp_process :: "nat \<Rightarrow> 'z process"
  dp_stamp :: "int \<Rightarrow> string"
  dp_limit :: "string \<Rightarrow> int option option"

record 'z smoke =
  sk_calls :: nat
  sk_service :: "'z vsys_scheme"
  sk_failures :: "string list"

datatype script_error = KeyError string

type_synonym ('z, 'a) script = "(script_error, 'z smoke, 'a) op"

section \<open>Talking to it\<close>

record smoke_headers =
  sh_bearer :: "string option"
  sh_user_token :: "string option"

definition no_headers :: smoke_headers where
  "no_headers = \<lparr>sh_bearer = None, sh_user_token = None\<rparr>"

definition bearer :: "string \<Rightarrow> smoke_headers" where
  "bearer token = \<lparr>sh_bearer = Some token, sh_user_token = None\<rparr>"

text \<open>The status, and the decoded body: an empty object where there is none.\<close>

definition call ::
  "'z deployment \<Rightarrow> string \<Rightarrow> string \<Rightarrow> request_body \<Rightarrow> smoke_headers \<Rightarrow> ('z, nat \<times> document) script" where
  "call d verb path body headers r =
     (let query = drop 1 (dropWhile (\<lambda>c. c \<noteq> CHR ''?'') path);
          rq = \<lparr>hq_method = verb, hq_path = takeWhile (\<lambda>c. c \<noteq> CHR ''?'') path, hq_bearer = sh_bearer headers,
                hq_user_token = sh_user_token headers, hq_body = body, hq_failures = [], hq_state = None, hq_code = None,
                hq_limit = dp_limit d query, hq_host = Some ''127.0.0.1'', hq_supplied_id = None, hq_fresh_id = ''r''\<rparr>;
          served = serve (dp_process d (sk_calls r)) rq (sk_service r);
          answer = (case wire (dp_stamp d) (fst served) of
                      Response code (Some decoded) \<Rightarrow> (code, decoded)
                    | Response code None \<Rightarrow> (code, DObject [])
                    | HttpError \<Rightarrow> (0, DObject []))
      in (Inr answer, r\<lparr>sk_calls := sk_calls r + 1, sk_service := snd served\<rparr>))"

definition smoke_check :: "string \<Rightarrow> 'b \<Rightarrow> 'b \<Rightarrow> ('z, unit) script" where
  "smoke_check label got want r =
     (Inr (), if got = want then r else r\<lparr>sk_failures := sk_failures r @ [label]\<rparr>)"

text \<open>Reading an answer.\<close>

definition member :: "string \<Rightarrow> document \<Rightarrow> document option" where
  "member key d = (case d of DObject entries \<Rightarrow> map_of entries key | _ \<Rightarrow> None)"

definition item :: "string \<Rightarrow> document \<Rightarrow> ('z, document) script" where
  "item key d = (case member key d of None \<Rightarrow> raise (KeyError key) | Some x \<Rightarrow> ret x)"

definition text_item :: "string \<Rightarrow> document \<Rightarrow> ('z, string) script" where
  "text_item key d = andthen (item key d) (\<lambda>x. case x of DText t \<Rightarrow> ret t | _ \<Rightarrow> raise (KeyError key))"

definition array_item :: "string \<Rightarrow> document \<Rightarrow> ('z, document list) script" where
  "array_item key d = andthen (item key d) (\<lambda>x. case x of DArray xs \<Rightarrow> ret xs | _ \<Rightarrow> raise (KeyError key))"

text \<open>
  \<open>needle in json.dumps(d)\<close> for a needle without a quote, a backslash or anything that JSON escapes:
  such a needle stands within one text.
\<close>

fun occurs_in :: "string \<Rightarrow> string \<Rightarrow> bool" where
  "occurs_in needle [] = (needle = [])"
| "occurs_in needle (c # cs) = (take (length needle) (c # cs) = needle \<or> occurs_in needle cs)"

fun mentioned :: "string \<Rightarrow> document \<Rightarrow> bool"
  and mentioned_in_any :: "string \<Rightarrow> document list \<Rightarrow> bool"
  and mentioned_in_entries :: "string \<Rightarrow> (string \<times> document) list \<Rightarrow> bool" where
  "mentioned needle (DText t) = occurs_in needle t"
| "mentioned needle (DArray ds) = mentioned_in_any needle ds"
| "mentioned needle (DObject entries) = mentioned_in_entries needle entries"
| "mentioned needle _ = False"
| "mentioned_in_any needle [] = False"
| "mentioned_in_any needle (d # ds) = (mentioned needle d \<or> mentioned_in_any needle ds)"
| "mentioned_in_entries needle [] = False"
| "mentioned_in_entries needle ((key, d) # es) =
     (occurs_in needle key \<or> mentioned needle d \<or> mentioned_in_entries needle es)"

section \<open>The script\<close>

definition ADMIN_TOKEN :: string where "ADMIN_TOKEN = ''break-glass-token-for-smoke-test''"
definition SERVICE_TOKEN :: string where "SERVICE_TOKEN = ''svc-token-for-the-smoke-test-0123456789''"
definition OWNER_PASSWORD :: string where "OWNER_PASSWORD = ''correct horse battery staple''"
definition FAMILY_PASSWORD :: string where "FAMILY_PASSWORD = ''another long passphrase''"
definition SMOKE_API_KEY :: string where "SMOKE_API_KEY = ''THE-SECRET-KEY''"

text \<open>An invite that was delivered by mail shows no token; what is sent then is no body of that route.\<close>

definition onboard :: "'z deployment \<Rightarrow> string \<Rightarrow> string \<Rightarrow> string \<Rightarrow> ('z, string \<times> string) script" where
  "onboard d email password inviter =
     andthen (call d ''POST'' ''/v1/admin/invites'' (InviteBody email) (bearer inviter)) (\<lambda>(_, invite).
     andthen (item ''token'' invite) (\<lambda>invite_token.
     andthen (call d ''POST'' ''/v1/auth/invites/redeem''
        (case invite_token of DText t \<Rightarrow> RedeemInviteBody t password | _ \<Rightarrow> OtherBody) no_headers) (\<lambda>_.
     andthen (call d ''POST'' ''/v1/auth/login'' (LoginBody email password) no_headers) (\<lambda>(_, logged_in).
     andthen (text_item ''token'' logged_in) (\<lambda>token.
     andthen (call d ''GET'' ''/v1/auth/me'' NoBody (bearer token)) (\<lambda>(_, me).
     andthen (text_item ''account_id'' me) (\<lambda>account_id.
     ret (token, account_id))))))))"

definition check_credentials :: "'z deployment \<Rightarrow> string \<Rightarrow> ('z, unit) script" where
  "check_credentials d owner =
     andthen (call d ''POST'' ''/v1/profiles'' (CreateProfileBody ''personal'') (bearer owner)) (\<lambda>_.
     andthen (call d ''PUT'' ''/v1/profiles/personal/connections/tmdb/api-key''
        (ApiKeyBody \<lparr>ak_api_key = SMOKE_API_KEY, ak_header = DEFAULT_API_KEY_HEADER, ak_template = DEFAULT_API_KEY_TEMPLATE,
           ak_in_query = False, ak_query_name = ''api_key'', ak_current_password = None\<rparr>) (bearer owner)) (\<lambda>_.
     andthen (call d ''GET'' ''/v1/profiles/personal'' NoBody (bearer owner)) (\<lambda>(_, profile).
     andthen (smoke_check ''the key is absent from the read-back'' (mentioned SMOKE_API_KEY profile) False) (\<lambda>_.
     andthen (call d ''POST'' ''/v1/auth/service-token'' (ServiceTokenBody ''example-tool'') (bearer owner)) (\<lambda>(_, minted).
     andthen (text_item ''token'' minted) (\<lambda>user_token.
     andthen (call d ''GET'' ''/v1/internal/credentials/personal/tmdb'' NoBody
        ((bearer SERVICE_TOKEN)\<lparr>sh_user_token := Some user_token\<rparr>)) (\<lambda>(_, resolved).
     andthen (smoke_check ''a service acting for its owner gets it'' (member ''headers'' resolved)
        (Some (text_object [(''Authorization'', ''Bearer '' @ SMOKE_API_KEY)]))) (\<lambda>_.
     andthen (call d ''GET'' ''/v1/internal/credentials/personal/tmdb'' NoBody (bearer SERVICE_TOKEN)) (\<lambda>(code, _).
     andthen (smoke_check ''the service token alone is refused'' code 401) (\<lambda>_.
     andthen (call d ''GET'' ''/v1/internal/credentials/personal/tmdb'' NoBody
        (no_headers\<lparr>sh_user_token := Some user_token\<rparr>)) (\<lambda>(code, _).
     smoke_check ''the user token alone is refused'' code 401)))))))))))"

text \<open>The token and the id of the second account go on to what follows.\<close>

definition check_rbac :: "'z deployment \<Rightarrow> string \<Rightarrow> ('z, unit) script" where
  "check_rbac d owner =
     andthen (onboard d ''family@example.com'' FAMILY_PASSWORD owner) (\<lambda>(family, family_id).
     andthen (call d ''GET'' ''/v1/admin/accounts'' NoBody (bearer family)) (\<lambda>(code, _).
     andthen (smoke_check ''a member cannot list accounts'' code 403) (\<lambda>_.
     andthen (call d ''GET'' ''/v1/profiles/personal'' NoBody (bearer family)) (\<lambda>(code, _).
     andthen (smoke_check ''a member cannot see another's profile'' code 404) (\<lambda>_.
     andthen (call d ''GET'' ''/v1/admin/accounts/acct_nope'' NoBody (bearer family)) (\<lambda>(code, _).
     andthen (smoke_check ''no permission, unknown account'' code 403) (\<lambda>_.
     andthen (call d ''GET'' ''/v1/admin/accounts/acct_nope'' NoBody (bearer owner)) (\<lambda>(code, _).
     andthen (smoke_check ''has permission, unknown account'' code 404) (\<lambda>_.
     andthen (call d ''POST'' ''/v1/admin/roles''
        (RoleBody ''assigner'' [''roles:assign'', ''roles:read'', ''accounts:read''] ''assigns roles'') (bearer owner)) (\<lambda>_.
     andthen (call d ''PUT'' (''/v1/admin/accounts/'' @ family_id @ ''/roles'') (RolesBody [''member'', ''assigner'']) (bearer owner)) (\<lambda>_.
     andthen (call d ''PUT'' (''/v1/admin/accounts/'' @ family_id @ ''/roles'') (RolesBody [''owner'']) (bearer family)) (\<lambda>(status, _).
     andthen (smoke_check ''self-promotion to owner is refused'' status 403) (\<lambda>_.
     andthen (call d ''GET'' (''/v1/admin/accounts/'' @ family_id) NoBody (bearer owner)) (\<lambda>(_, after).
     andthen (item ''roles'' after) (\<lambda>roles.
     smoke_check ''the attempt changed nothing'' roles (text_array [''member'', ''assigner'']))))))))))))))))"

definition check_last_owner :: "'z deployment \<Rightarrow> string \<Rightarrow> string \<Rightarrow> ('z, unit) script" where
  "check_last_owner d owner owner_id =
     andthen (call d ''DELETE'' (''/v1/admin/accounts/'' @ owner_id) NoBody (bearer owner)) (\<lambda>(code, _).
     andthen (smoke_check ''the last owner cannot delete themselves'' code 409) (\<lambda>_.
     andthen (call d ''GET'' ''/v1/profiles/personal'' NoBody (bearer owner)) (\<lambda>(_, survived).
     andthen (array_item ''connections'' survived) (\<lambda>connections.
     smoke_check ''the refusal destroyed nothing'' (length connections) 1))))"

text \<open>What is printed of an entry has to be there.\<close>

definition check_audit :: "'z deployment \<Rightarrow> string \<Rightarrow> ('z, unit) script" where
  "check_audit d owner =
     andthen (call d ''GET'' ''/v1/admin/audit?limit=8'' NoBody (bearer owner)) (\<lambda>(_, audit).
     andthen (array_item ''entries'' audit) (\<lambda>entries.
     andthen (for_each entries (\<lambda>entry.
        andthen (text_item ''actor_id'' entry) (\<lambda>_. andthen (item ''target_id'' entry) (\<lambda>_.
        andthen (item ''action'' entry) (\<lambda>_. andthen (item ''detail'' entry) (\<lambda>_. ret ())))))) (\<lambda>_.
     andthen (smoke_check ''no address reaches the log'' (mentioned ''@example.com'' audit) False) (\<lambda>_.
     andthen (call d ''GET'' ''/v1/admin/audit?limit=-1'' NoBody (bearer owner)) (\<lambda>(code, _).
     smoke_check ''a negative page size is refused'' code 422)))))"

definition smoke_main :: "'z deployment \<Rightarrow> ('z, nat) script" where
  "smoke_main d =
     andthen (onboard d ''owner@example.com'' OWNER_PASSWORD ADMIN_TOKEN) (\<lambda>(owner, owner_id).
     andthen (call d ''GET'' (''/v1/admin/accounts/'' @ owner_id) NoBody (bearer owner)) (\<lambda>(_, account).
     andthen (item ''roles'' account) (\<lambda>roles.
     andthen (smoke_check ''the first account is the owner'' roles (text_array [''owner''])) (\<lambda>_.
     andthen (check_credentials d owner) (\<lambda>_.
     andthen (check_rbac d owner) (\<lambda>_.
     andthen (check_last_owner d owner owner_id) (\<lambda>_.
     andthen (check_audit d owner) (\<lambda>_.
     andthen (\<lambda>r. (Inr (sk_failures r), r)) (\<lambda>failures.
     ret (if failures \<noteq> [] then 1 else 0))))))))))"

section \<open>What it does to the deployment\<close>

text \<open>A script is requests to the deployment, and it only adds to the failures.\<close>

definition only_asks :: "'z deployment \<Rightarrow> ('z, 'a) script \<Rightarrow> bool" where
  "only_asks d m \<longleftrightarrow> (\<forall>r. (\<exists>rqs. sk_service (snd (m r)) = serve_all rqs (sk_service r) \<and> fst ` set rqs \<subseteq> range (dp_process d))
     \<and> (\<exists>more. sk_failures (snd (m r)) = sk_failures r @ more))"

named_theorems only_asks_intros "rules that prove a script makes requests only"

lemma serve_all_append: "serve_all (xs @ ys) s = serve_all ys (serve_all xs s)"
  by (induction xs s rule: serve_all.induct) simp_all

lemma only_asks_quiet [only_asks_intros]: "only_asks d (ret x)" "only_asks d (raise e)"
  unfolding only_asks_def ret_simp raise_simp by (auto intro: exI [where x = "[]"])

lemma only_asks_call [only_asks_intros]: "only_asks d (call d verb path body headers)"
  unfolding only_asks_def
proof (rule allI, rule conjI)
  fix r
  obtain rq where "sk_service (snd (call d verb path body headers r)) = snd (serve (dp_process d (sk_calls r)) rq (sk_service r))"
    by (auto simp: call_def Let_def)
  then show "\<exists>rqs. sk_service (snd (call d verb path body headers r)) = serve_all rqs (sk_service r)
      \<and> fst ` set rqs \<subseteq> range (dp_process d)"
    by (intro exI [where x = "[(dp_process d (sk_calls r), rq)]"]) simp
qed (simp add: call_def Let_def)

lemma only_asks_check [only_asks_intros]: "only_asks d (smoke_check label got want)"
  unfolding only_asks_def smoke_check_def by (auto intro: exI [where x = "[]"])

lemma only_asks_andthen [only_asks_intros]:
  assumes "only_asks d m" and "\<And>x. only_asks d (f x)"
  shows "only_asks d (andthen m f)"
  unfolding only_asks_def
proof
  fix r
  obtain x t where m: "m r = (x, t)" by fastforce
  obtain xs a where one: "sk_service t = serve_all xs (sk_service r)" "fst ` set xs \<subseteq> range (dp_process d)"
    "sk_failures t = sk_failures r @ a"
    using assms(1) m unfolding only_asks_def by (metis snd_conv)
  show "(\<exists>rqs. sk_service (snd (andthen m f r)) = serve_all rqs (sk_service r) \<and> fst ` set rqs \<subseteq> range (dp_process d))
     \<and> (\<exists>more. sk_failures (snd (andthen m f r)) = sk_failures r @ more)"
  proof (cases x)
    case (Inl e)
    then show ?thesis using one by (auto simp: andthen_simp m)
  next
    case (Inr y)
    obtain ys b where two: "sk_service (snd (f y t)) = serve_all ys (sk_service t)" "fst ` set ys \<subseteq> range (dp_process d)"
      "sk_failures (snd (f y t)) = sk_failures t @ b"
      using assms(2) [of y] unfolding only_asks_def by metis
    have "sk_service (snd (f y t)) = serve_all (xs @ ys) (sk_service r)" by (simp add: serve_all_append one two)
    moreover have "fst ` set (xs @ ys) \<subseteq> range (dp_process d)" using one(2) two(2) by auto
    moreover have "sk_failures (snd (f y t)) = sk_failures r @ (a @ b)" by (simp add: one two)
    ultimately show ?thesis unfolding andthen_simp m Inr sum.case prod.case by blast
  qed
qed

lemma only_asks_cases [only_asks_intros]:
  "(\<And>x y. only_asks d (g x y)) \<Longrightarrow> only_asks d (case p of (x, y) \<Rightarrow> g x y)"
  by (simp split: prod.split)

lemma only_asks_for_each [only_asks_intros]: "(\<And>x. only_asks d (f x)) \<Longrightarrow> only_asks d (for_each xs f)"
  by (induction xs) (auto intro: only_asks_intros)

lemma only_asks_items [only_asks_intros]:
  "only_asks d (item key x)" "only_asks d (text_item key x)" "only_asks d (array_item key x)"
proof -
  show i: "only_asks d (item key x)"
    by (cases "member key x") (simp_all add: item_def only_asks_quiet)
  show "only_asks d (text_item key x)" "only_asks d (array_item key x)"
    unfolding text_item_def array_item_def
    by (intro only_asks_andthen i; simp add: only_asks_quiet split: document.split)+
qed

lemma only_asks_parts [only_asks_intros]:
  "only_asks d (onboard d email password inviter)" "only_asks d (check_credentials d owner)"
  "only_asks d (check_last_owner d owner i)" "only_asks d (check_audit d owner)"
  unfolding onboard_def check_credentials_def check_last_owner_def check_audit_def by (intro only_asks_intros)+

lemma only_asks_rbac [only_asks_intros]: "only_asks d (check_rbac d owner)"
  unfolding check_rbac_def by (intro only_asks_intros)

lemma only_asks_failures [only_asks_intros]: "only_asks d (\<lambda>r. (Inr (sk_failures r), r))"
  unfolding only_asks_def by (auto intro: exI [where x = "[]"])

lemma smoke_only_asks: "only_asks d (smoke_main d)"
  unfolding smoke_main_def by (intro only_asks_intros)

text \<open>
  The script is traffic: whatever it meets, and wherever it breaks off, it leaves what a sequence of
  HTTP requests leaves, so a deployment it was run against is well formed and holds no secret without
  its connection.
\<close>

lemma smoke_leaves_it_well_formed:
  assumes "covered (sk_service r)" and "\<And>n. quiet covered (ps_world (dp_process d n))"
  shows "covered (sk_service (snd (smoke_main d r))) \<and> db_ok (sk_service (snd (smoke_main d r)))"
proof -
  obtain rqs where rqs: "sk_service (snd (smoke_main d r)) = serve_all rqs (sk_service r)" "fst ` set rqs \<subseteq> range (dp_process d)"
    using smoke_only_asks unfolding only_asks_def by metis
  have one: "covered (snd (serve p rq s))" if s: "covered s" and p: "p \<in> range (dp_process d)" for p rq s
  proof -
    obtain qs where qs: "snd (serve p rq s) = app_run (map (\<lambda>q. (ps_world p, ps_signer p, q)) qs) s"
      using serve_is_run by blast
    show ?thesis unfolding qs by (rule cov.keeps_run [OF s]) (use p assms(2) in auto)
  qed
  have "covered (serve_all rqs s)" if "covered s" "fst ` set rqs \<subseteq> range (dp_process d)" for rqs s
    using that by (induction rqs s rule: serve_all.induct) (simp_all add: one)
  from this [OF assms(1) rqs(2)] show ?thesis using covered_ok by (simp add: rqs(1))
qed

text \<open>It exits with success exactly when no check has failed.\<close>

lemma smoke_exit_status:
  "smoke_main d r = (Inr n, r') \<Longrightarrow> n = (if sk_failures r' = [] then 0 else 1)"
  by (auto simp: smoke_main_def op_elims split: prod.splits if_splits)

end
