(* ===== verification/Spec2Isabelle.thy ===== *)
theory Spec2Isabelle
  imports AccountProperties AdminProperties PlatformProperties VaultProperties DelegationProperties
    ClientProperties ConsumerProperties StorageProperties DisclosureProperties
    SurfaceProperties StartupProperties TestDouble Smoke
begin

text \<open>
  Keyring is a service that keeps people's accounts and, in profiles, the credentials of
  their third-party connections, and hands them to other services. This development models its
  Python sources: the service (\<^verbatim>\<open>src/src/keyring_api\<close>) and the library its consumers use
  (\<^verbatim>\<open>src/clients/python/keyring_client\<close>), and proves what makes them correct.

  How the program is built. A request reaches a router (\<^verbatim>\<open>api/routers\<close>), whose dependencies
  (\<^verbatim>\<open>api/dependencies.py\<close>) turn its credentials into a session, an account, an administrative
  actor, or a calling service and the user it calls for. A service (\<^verbatim>\<open>accounts/service.py\<close>,
  \<^verbatim>\<open>admin/service.py\<close>, \<^verbatim>\<open>credentials/service.py\<close>, \<^verbatim>\<open>credentials/changes.py\<close>,
  \<^verbatim>\<open>credentials/delegation.py\<close>) checks its guards and calls stores (\<^verbatim>\<open>accounts/sql_store.py\<close>,
  \<^verbatim>\<open>accounts/sql_roles.py\<close>, \<^verbatim>\<open>audit/sql_log.py\<close>, \<^verbatim>\<open>profiles/sql_store.py\<close>,
  \<^verbatim>\<open>profiles/sql_delegations.py\<close>, \<^verbatim>\<open>secrets/sql.py\<close>), each call one SQLite transaction run by one
  worker thread (\<^verbatim>\<open>storage/database.py\<close>), a rate limiter in memory, the states of pending
  consents and an outbox of mail. Beside it, a consuming service verifies the tokens keyring
  signed under a cache of its published keys (\<^verbatim>\<open>jwks.py\<close>, \<^verbatim>\<open>tokens.py\<close>), recognises the
  static credentials of other services (\<^verbatim>\<open>service_tokens.py\<close>) and asks for credentials
  (\<^verbatim>\<open>credentials.py\<close>).

  How it is modelled. Effects are explicit. A transaction (\<open>txn\<close>) maps a database to an error,
  in which case nothing has changed, or to an answer and a new database; Worker models the
  connection, the queue and the cancellation of callers beneath, and proves that this is what
  comes out. An operation (\<open>op\<close>) maps a state to an answer or an error and a state, and keeps what
  it committed before it raised. Errors are values of one datatype whose constructors are the
  exception classes. The clock, random draws, hash functions, the settings service and the
  configuration are the fields of one record \<open>env\<close>, an argument of every service method.
  Instants are whole microseconds, durations that the code keeps as floats are rationals, texts
  are lists of characters of the first 256 code points. Interleaving is at the level of the
  operations of the stores, each atomic, and of the calls to a token endpoint, during which any
  other request may run; the theorems about runs are about arbitrary sequences.

  The theories of the service:
  \<^item> Prelude: transactions, operations, the calculus of preserved invariants, tables.
  \<^item> Errors: \<^verbatim>\<open>domain/errors.py\<close> and the statuses of \<^verbatim>\<open>api/errors.py\<close>. Problems: the problem
    document of each failure and the request id on it.
  \<^item> PyText: trimming, lowercasing, \<open>repr\<close> and the regular expressions the code matches, with a
    matcher by derivatives proved equal to the language of the expression.
  \<^item> Times: \<^verbatim>\<open>storage/times.py\<close>: instants in text columns.
  \<^item> Rbac, Accounts, Sessions, Profiles: the modules of \<^verbatim>\<open>domain\<close>.
  \<^item> Worker: \<^verbatim>\<open>storage/database.py\<close>: the connection, the thread and its queue as a step relation.
    Migrator: \<^verbatim>\<open>storage/migrator.py\<close>.
  \<^item> Database: the schema, its constraints and cascades; \<open>db_ok\<close> is its invariant.
  \<^item> AccountStore, SessionStore (with the grants), RoleStore, AuditLog, ProfileStore, SecretStore,
    DelegationStore: the SQL stores, each with the port its clients rely on as a locale,
    interpreted on the store; SecretStore also has the envelope a secret is sealed in.
  \<^item> RateLimiter, Config, Loading, Preferences: \<^verbatim>\<open>accounts/ratelimit.py\<close>, \<^verbatim>\<open>core/config.py\<close> with
    the names of the environment, the master key and the provider file,
    \<^verbatim>\<open>core/preferences.py\<close>.
  \<^item> RequestContext, Redaction: \<^verbatim>\<open>core/context.py\<close> with \<^verbatim>\<open>api/middleware.py\<close>, and
    \<^verbatim>\<open>core/logging.py\<close>: what a record of a request says, and what it does not.
  \<^item> Mail, Outbox: \<^verbatim>\<open>notifications\<close>: templates and senders, the tasks of the outbox and the
    shutdown that drains it.
  \<^item> Sys, AccountService, Login, SignIn: the state of the process, the methods of the
    account service, what a login does, and the proof that no method changes who holds which
    role.
  \<^item> AdminService, NoEscalation, Requests, AdminGuards: the methods of the administration
    service, bounds on what accounts may do, sequences of requests, the guards and the trail.
  \<^item> OAuth, CredentialService, Kinds, CredentialChanges: providers, the state of a consent and the
    token client, \<^verbatim>\<open>credentials/service.py\<close>, what a stored secret becomes when it is used
    (\<^verbatim>\<open>kinds.py\<close>, \<^verbatim>\<open>totp.py\<close>), and the policy around changes.
  \<^item> VaultFacts, Renewal, VaultRequests, VaultGuarantees: the accounts are separate, no
    secret without its connection, what is stored is loaded, what a renewal does, and sequences
    of requests through the routes.
  \<^item> Signing: minting and verifying tokens
    (\<^verbatim>\<open>accounts/signing.py\<close>). Delegation, DelegationFacts: \<^verbatim>\<open>credentials/delegation.py\<close>, its
    routes and the dependencies of \<^verbatim>\<open>api/routers/internal.py\<close>.
  \<^item> AccountRoutes, AdminRoutes, ReadViews: the handlers of \<^verbatim>\<open>auth.py\<close>, of \<^verbatim>\<open>admin.py\<close>, and
    those that answer with profiles, grants and health.
  \<^item> Routing, Gateway, Wire: every route of \<^verbatim>\<open>api/routers\<close> with what its signature asks for, one HTTP
    request from its path through the dependencies and the handler to its status and body, and the
    response models of \<^verbatim>\<open>api/schemas\<close> as documents.
  \<^item> Application: every request of every router as one step, and what holds after any sequence of
    them, restarts included. Revocation: what stays revoked, and whom a calling service can act for.
    Oblivious: every handler but the two resolutions does and answers the same whatever the vault holds.
  \<^item> SigningKey, Boot: the file of the signing key; the opening of the database, the composition root
    \<^verbatim>\<open>core/container.py\<close> and the lifespan of \<^verbatim>\<open>api/app.py\<close>.
  \<^item> Smoke: \<^verbatim>\<open>scripts/smoke.py\<close>, the check of a running deployment, as traffic on the modelled service.

  The theories of the client: ServiceTokens, Jwks, TokenVerifier, CredentialClient, one for each
  module, JwksFacts on how often the cache asks and what an outage does, and TestDouble
  (\<^verbatim>\<open>testing.py\<close>), the fake of keyring that the tests of its users share. EndToEnd joins both
  sides: a request of the client library reaches its route and the handlers of
  \<^verbatim>\<open>api/routers/internal.py\<close>, and the client reads the document of the answer.

  Sample, VaultSample and DelegationSample are a small deployment on which every theorem with a
  hypothesis is applied. AccountProperties, AdminProperties, PlatformProperties, VaultProperties,
  DelegationProperties, ClientProperties, ConsumerProperties, StorageProperties,
  DisclosureProperties, SurfaceProperties and StartupProperties hold the properties.

  Bounds. No definition runs on fuel: every loop of the modelled code is over a list that is at
  hand, and what may be repeated without end (requests, calls to a cache, steps of the worker) is
  a list or a relation over which a theorem quantifies. The sizes in the sample are the sample's.

  Not modelled: the web framework itself and the validation it does for each schema beyond
  the bounds of a body, the entry point and the system clock, the
  configuration of log output, the reading of settings from text into numbers and paths, and
  the tokens the doubles for tests forge by hand. The libraries
  (argon2, cryptography, PyJWT, HTTP clients, the routing of the framework, SQLite's parser, JSON)
  are arguments of the definitions, with what the
  code relies on as hypotheses where a theorem needs it.
\<close>

end
